(* ===== verification/Py_Prelude.thy ===== *)
theory Py_Prelude
  imports Main "HOL-Library.Char_ord" "HOL-Library.List_Lexorder" "HOL-Library.Product_Lexorder"
    "HOL-Library.Multiset"
begin

text \<open>
  Shared vocabulary of the development: the part of Python the manager's core is written in.
  \<^item> Text. A Python \<open>str\<close> is a \<open>string\<close>; the methods below (\<open>strip\<close>, \<open>split\<close>,
    \<open>partition\<close>, \<open>splitlines\<close>, \<open>lower\<close>, \<open>isdigit\<close>, \<open>int\<close>, \<open>str\<close>) are written for the
    code points below 128, which is what every expression, id, version and selector of the
    program consists of. \<open>str\<close> comparison is by code point, hence the lexicographic order of
    \<open>HOL-Library.List_Lexorder\<close> over \<open>HOL-Library.Char_ord\<close>.
  \<^item> Dictionaries. A Python \<open>dict\<close> keeps insertion order, which the program relies on, so it is
    an association list with distinct keys; \<open>dict_set\<close> replaces in place or appends.
  \<^item> Decoded documents. What \<open>json.loads\<close> and \<open>yaml.safe_load\<close> give is a \<open>pyval\<close>.
  \<^item> Errors. An operation that may raise returns a sum, \<open>Inl\<close> for the exception.
  \<^item> Time. Instants and \<open>timedelta\<close>s are integers that count microseconds, as in CPython.
  The collections \<open>py_str\<close> (string facts), \<open>py_dict\<close> (dictionary facts) and \<open>py_res\<close> (results)
  gather what the component proofs rewrite with.
\<close>

named_theorems py_str \<open>facts on Python string methods\<close>
named_theorems py_dict \<open>facts on insertion-ordered dictionaries\<close>
named_theorems py_res \<open>facts on results\<close>

section \<open>Characters\<close>

abbreviation code_of :: "char \<Rightarrow> nat" where
  "code_of c \<equiv> of_char c"

definition is_space :: "char \<Rightarrow> bool" where
  "is_space c \<longleftrightarrow> (let n = code_of c in (9 \<le> n \<and> n \<le> 13) \<or> (28 \<le> n \<and> n \<le> 32))"

definition is_digit :: "char \<Rightarrow> bool" where
  "is_digit c \<longleftrightarrow> (let n = code_of c in 48 \<le> n \<and> n \<le> 57)"

definition is_upper :: "char \<Rightarrow> bool" where
  "is_upper c \<longleftrightarrow> (let n = code_of c in 65 \<le> n \<and> n \<le> 90)"

definition is_lower :: "char \<Rightarrow> bool" where
  "is_lower c \<longleftrightarrow> (let n = code_of c in 97 \<le> n \<and> n \<le> 122)"

definition lower_char :: "char \<Rightarrow> char" where
  "lower_char c = (if is_upper c then char_of (code_of c + 32) else c)"

definition upper_char :: "char \<Rightarrow> char" where
  "upper_char c = (if is_lower c then char_of (code_of c - 32) else c)"

text \<open>The line boundaries of \<open>str.splitlines\<close> below code point 128, carriage return apart.\<close>

definition is_linebreak :: "char \<Rightarrow> bool" where
  "is_linebreak c \<longleftrightarrow> (let n = code_of c in (10 \<le> n \<and> n \<le> 13) \<or> (28 \<le> n \<and> n \<le> 30))"

abbreviation LF :: char where "LF \<equiv> CHR 0x0A"
abbreviation CR :: char where "CR \<equiv> CHR 0x0D"
abbreviation TAB :: char where "TAB \<equiv> CHR 0x09"

section \<open>Strings\<close>

definition py_lower :: "string \<Rightarrow> string" where
  "py_lower s = map lower_char s"

definition capitalize :: "string \<Rightarrow> string" where
  "capitalize s = (case s of [] \<Rightarrow> [] | c # cs \<Rightarrow> upper_char c # py_lower cs)"

definition lstrip :: "string \<Rightarrow> string" where
  "lstrip s = dropWhile is_space s"

definition py_strip :: "string \<Rightarrow> string" where
  "py_strip s = rev (dropWhile is_space (rev (dropWhile is_space s)))"

definition lstrip_char :: "char \<Rightarrow> string \<Rightarrow> string" where
  "lstrip_char c s = dropWhile (\<lambda>d. d = c) s"

fun startswith :: "string \<Rightarrow> string \<Rightarrow> bool" where
  "startswith s [] = True"
| "startswith [] (p # ps) = False"
| "startswith (c # s) (p # ps) = (c = p \<and> startswith s ps)"

text \<open>\<open>s.split(c)\<close>: at every occurrence of one character, never the empty list.\<close>

fun split_char :: "char \<Rightarrow> string \<Rightarrow> string list" where
  "split_char c [] = [[]]"
| "split_char c (x # xs) =
     (if x = c then [] # split_char c xs
      else (case split_char c xs of
              [] \<Rightarrow> [[x]]
            | w # ws \<Rightarrow> (x # w) # ws))"

text \<open>\<open>s.split()\<close>: at runs of white space, without empty words.\<close>

fun split_ws_acc :: "string \<Rightarrow> string \<Rightarrow> string list" where
  "split_ws_acc w [] = (if w = [] then [] else [rev w])"
| "split_ws_acc w (c # cs) =
     (if is_space c then (if w = [] then split_ws_acc [] cs else rev w # split_ws_acc [] cs)
      else split_ws_acc (c # w) cs)"

definition split_ws :: "string \<Rightarrow> string list" where
  "split_ws s = split_ws_acc [] s"

text \<open>\<open>s.partition(c)\<close>: what is before the first occurrence, whether there is one, what follows.\<close>

fun partition_char :: "char \<Rightarrow> string \<Rightarrow> string \<times> bool \<times> string" where
  "partition_char c [] = ([], False, [])"
| "partition_char c (x # xs) =
     (if x = c then ([], True, xs)
      else (case partition_char c xs of (a, found, b) \<Rightarrow> (x # a, found, b)))"

fun join :: "string \<Rightarrow> string list \<Rightarrow> string" where
  "join sep [] = []"
| "join sep [w] = w"
| "join sep (w # v # ws) = w @ sep @ join sep (v # ws)"

text \<open>\<open>s.splitlines()\<close>: \<open>\r\n\<close> is one boundary and a final boundary adds no empty line.\<close>

fun splitlines_acc :: "string \<Rightarrow> string \<Rightarrow> string list" where
  "splitlines_acc w [] = (if w = [] then [] else [rev w])"
| "splitlines_acc w [c] = (if is_linebreak c then [rev w] else [rev (c # w)])"
| "splitlines_acc w (c # d # cs) =
     (if c = CR \<and> d = LF then rev w # splitlines_acc [] cs
      else if is_linebreak c then rev w # splitlines_acc [] (d # cs)
      else splitlines_acc (c # w) (d # cs))"

definition splitlines :: "string \<Rightarrow> string list" where
  "splitlines s = splitlines_acc [] s"

text \<open>\<open>p in s\<close>.\<close>

fun contains :: "string \<Rightarrow> string \<Rightarrow> bool" where
  "contains [] p = (p = [])"
| "contains (c # s) p = (startswith (c # s) p \<or> contains s p)"

text \<open>
  \<open>re.match(r"^...$", s)\<close> for a pattern that matches no line feed: \<open>$\<close> also matches before a line
  feed at the very end. \<open>\Z\<close> does not.
\<close>

definition match_dollar :: "(string \<Rightarrow> bool) \<Rightarrow> string \<Rightarrow> bool" where
  "match_dollar p s \<longleftrightarrow> p s \<or> (s \<noteq> [] \<and> last s = LF \<and> p (butlast s))"

definition replace_char :: "char \<Rightarrow> string \<Rightarrow> string \<Rightarrow> string" where
  "replace_char c r s = concat (map (\<lambda>d. if d = c then r else [d]) s)"

section \<open>Decimal numbers\<close>

definition str_isdigit :: "string \<Rightarrow> bool" where
  "str_isdigit s \<longleftrightarrow> s \<noteq> [] \<and> list_all is_digit s"

definition digit_val :: "char \<Rightarrow> nat" where
  "digit_val c = code_of c - 48"

definition digit_char :: "nat \<Rightarrow> char" where
  "digit_char d = char_of (48 + d)"

text \<open>\<open>int(s)\<close> on a string of digits.\<close>

definition int_of_digits :: "string \<Rightarrow> nat" where
  "int_of_digits s = foldl (\<lambda>a c. 10 * a + digit_val c) 0 s"

fun str_of_nat :: "nat \<Rightarrow> string" where
  "str_of_nat n = (if n < 10 then [digit_char n] else str_of_nat (n div 10) @ [digit_char (n mod 10)])"

declare str_of_nat.simps [simp del]

definition str_of_int :: "int \<Rightarrow> string" where
  "str_of_int i = (if i < 0 then CHR ''-'' # str_of_nat (nat (- i)) else str_of_nat (nat i))"

text \<open>\<open>f"{n:02d}"\<close> of a number that is not negative.\<close>

definition pad2 :: "nat \<Rightarrow> string" where
  "pad2 n = (if n < 10 then CHR ''0'' # str_of_nat n else str_of_nat n)"

section \<open>Decoded documents\<close>

datatype pyval =
    PNone
  | PBool bool
  | PInt int
  | PFloat string \<comment> \<open>a float, by its \<open>repr\<close>\<close>
  | PStr string
  | PList "pyval list"
  | PDict "(string \<times> pyval) list"

fun truthy :: "pyval \<Rightarrow> bool" where
  "truthy PNone = False"
| "truthy (PBool b) = b"
| "truthy (PInt i) = (i \<noteq> 0)"
| "truthy (PFloat r) = (r \<noteq> ''0.0'' \<and> r \<noteq> ''-0.0'')"
| "truthy (PStr s) = (s \<noteq> [])"
| "truthy (PList xs) = (xs \<noteq> [])"
| "truthy (PDict d) = (d \<noteq> [])"

text \<open>\<open>a or b\<close>.\<close>

definition py_or :: "pyval \<Rightarrow> pyval \<Rightarrow> pyval" where
  "py_or a b = (if truthy a then a else b)"

definition hex_digit :: "nat \<Rightarrow> char" where
  "hex_digit n = (if n < 10 then char_of (48 + n) else char_of (87 + n))"

text \<open>\<open>repr\<close> of a string: the quote that needs no escape, and an escape for what is not printable.\<close>

definition repr_char :: "char \<Rightarrow> char \<Rightarrow> string" where
  "repr_char q c =
     (if c = q \<or> c = CHR 0x5C then [CHR 0x5C, c]
      else if c = LF then [CHR 0x5C, CHR ''n'']
      else if c = CR then [CHR 0x5C, CHR ''r'']
      else if c = TAB then [CHR 0x5C, CHR ''t'']
      else if code_of c < 32 \<or> code_of c = 127 then
        [CHR 0x5C, CHR ''x'', hex_digit (code_of c div 16), hex_digit (code_of c mod 16)]
      else [c])"

definition repr_str :: "string \<Rightarrow> string" where
  "repr_str s =
     (let q = (if CHR 0x27 \<in> set s \<and> CHR 0x22 \<notin> set s then CHR 0x22 else CHR 0x27)
      in q # concat (map (repr_char q) s) @ [q])"

fun py_repr :: "pyval \<Rightarrow> string" where
  "py_repr PNone = ''None''"
| "py_repr (PBool b) = (if b then ''True'' else ''False'')"
| "py_repr (PInt i) = str_of_int i"
| "py_repr (PFloat r) = r"
| "py_repr (PStr s) = repr_str s"
| "py_repr (PList xs) = ''['' @ join '', '' (map py_repr xs) @ '']''"
| "py_repr (PDict d) =
     CHR 0x7B # join '', '' (map (\<lambda>kv. repr_str (fst kv) @ '': '' @ py_repr (snd kv)) d) @ [CHR 0x7D]"

text \<open>\<open>str(v)\<close>.\<close>

definition py_str_of :: "pyval \<Rightarrow> string" where
  "py_str_of v = (case v of PStr s \<Rightarrow> s | _ \<Rightarrow> py_repr v)"

section \<open>Dictionaries\<close>

type_synonym ('k, 'v) dict = "('k \<times> 'v) list"

definition dict_get :: "('k, 'v) dict \<Rightarrow> 'k \<Rightarrow> 'v option" where
  "dict_get d k = map_of d k"

fun dict_set :: "('k, 'v) dict \<Rightarrow> 'k \<Rightarrow> 'v \<Rightarrow> ('k, 'v) dict" where
  "dict_set [] k v = [(k, v)]"
| "dict_set ((a, b) # d) k v = (if a = k then (k, v) # d else (a, b) # dict_set d k v)"

definition dict_del :: "('k, 'v) dict \<Rightarrow> 'k \<Rightarrow> ('k, 'v) dict" where
  "dict_del d k = filter (\<lambda>kv. fst kv \<noteq> k) d"

abbreviation dict_keys :: "('k, 'v) dict \<Rightarrow> 'k list" where
  "dict_keys d \<equiv> map fst d"

definition dict_ok :: "('k, 'v) dict \<Rightarrow> bool" where
  "dict_ok d \<longleftrightarrow> distinct (dict_keys d)"

text \<open>\<open>{key(x): x for x in xs}\<close>: a later entry replaces the value and keeps the first position.\<close>

definition dict_of :: "('k \<times> 'v) list \<Rightarrow> ('k, 'v) dict" where
  "dict_of kvs = foldl (\<lambda>d kv. dict_set d (fst kv) (snd kv)) [] kvs"

text \<open>\<open>d.get(k)\<close> and \<open>d.get(k, default)\<close> on a decoded mapping.\<close>

definition get_or :: "(string, pyval) dict \<Rightarrow> string \<Rightarrow> pyval \<Rightarrow> pyval" where
  "get_or d k dflt = (case dict_get d k of None \<Rightarrow> dflt | Some v \<Rightarrow> v)"

abbreviation get_none :: "(string, pyval) dict \<Rightarrow> string \<Rightarrow> pyval" where
  "get_none d k \<equiv> get_or d k PNone"

section \<open>Results\<close>

datatype py_exn =
  TypeError | ValueError | KeyError | AttributeError | OSError | OverflowError | UnicodeDecodeError | YAMLError

definition rbind :: "'e + 'a \<Rightarrow> ('a \<Rightarrow> 'e + 'b) \<Rightarrow> 'e + 'b" where
  "rbind m f = (case m of Inl e \<Rightarrow> Inl e | Inr a \<Rightarrow> f a)"

text \<open>A loop whose body may raise: the first error ends it.\<close>

fun rmap :: "('a \<Rightarrow> 'e + 'b) \<Rightarrow> 'a list \<Rightarrow> 'e + 'b list" where
  "rmap f [] = Inr []"
| "rmap f (x # xs) = rbind (f x) (\<lambda>y. rbind (rmap f xs) (\<lambda>ys. Inr (y # ys)))"

fun rfold :: "('s \<Rightarrow> 'a \<Rightarrow> 'e + 's) \<Rightarrow> 's \<Rightarrow> 'a list \<Rightarrow> 'e + 's" where
  "rfold f s [] = Inr s"
| "rfold f s (x # xs) = rbind (f s x) (\<lambda>t. rfold f t xs)"

text \<open>Iterating a decoded value, and \<open>v.get(k)\<close> on one: what is no collection, or no mapping, raises.\<close>

definition py_iter :: "pyval \<Rightarrow> py_exn + pyval list" where
  "py_iter v = (case v of
      PList xs \<Rightarrow> Inr xs
    | PStr s \<Rightarrow> Inr (map (\<lambda>c. PStr [c]) s)
    | PDict d \<Rightarrow> Inr (map (\<lambda>kv. PStr (fst kv)) d)
    | _ \<Rightarrow> Inl TypeError)"

definition py_get :: "pyval \<Rightarrow> string \<Rightarrow> py_exn + pyval" where
  "py_get v k = (case v of PDict d \<Rightarrow> Inr (get_none d k) | _ \<Rightarrow> Inl AttributeError)"

text \<open>\<open>[str(x) for x in v or []]\<close>.\<close>

definition str_list :: "pyval \<Rightarrow> py_exn + string list" where
  "str_list v = rbind (py_iter (py_or v (PList []))) (\<lambda>xs. Inr (map py_str_of xs))"

section \<open>Paths and files\<close>

text \<open>
  \<open>pathlib.PurePosixPath\<close>: repeated and trailing slashes and \<open>.\<close> components go away, an empty path is
  \<open>.\<close>, and two leading slashes (not three) are kept. A path is the text \<open>str(path)\<close> gives.
\<close>

definition path_of :: "string \<Rightarrow> string" where
  "path_of s =
     (let root = (if startswith s ''//'' \<and> \<not> startswith s ''///'' then ''//''
                  else if startswith s ''/'' then ''/'' else []);
          parts = filter (\<lambda>p. p \<noteq> [] \<and> p \<noteq> ''.'') (split_char (CHR 0x2F) s);
          whole = root @ join ''/'' parts
      in if whole = [] then ''.'' else whole)"

definition path_join :: "string \<Rightarrow> string \<Rightarrow> string" where
  "path_join a b =
     (if startswith b ''/'' then path_of b
      else if a = [] \<or> last a = CHR 0x2F then path_of (a @ b)
      else path_of (a @ ''/'' @ b))"

text \<open>
  What a path names: nothing, a directory, a text file, a file that cannot be read and one that is not
  UTF-8. The text mode of \<open>read_text\<close> translates line ends; the contents here are the translated text.
\<close>

datatype fs_entry = Absent | Dir | Text string | Unreadable | NotUtf8

type_synonym fs = "string \<Rightarrow> fs_entry"

definition is_file :: "fs \<Rightarrow> string \<Rightarrow> bool" where
  "is_file f p \<longleftrightarrow> f p \<noteq> Absent \<and> f p \<noteq> Dir"

definition is_dir :: "fs \<Rightarrow> string \<Rightarrow> bool" where
  "is_dir f p \<longleftrightarrow> f p = Dir"

definition read_text :: "fs \<Rightarrow> string \<Rightarrow> py_exn + string" where
  "read_text f p = (case f p of Text t \<Rightarrow> Inr t | NotUtf8 \<Rightarrow> Inl UnicodeDecodeError | _ \<Rightarrow> Inl OSError)"

section \<open>Translation\<close>

text \<open>\<open>gettext(m) % args\<close> and \<open>ngettext(m, p, n) % args\<close>.\<close>

record i18n =
  tr :: "string \<Rightarrow> (string, string) dict \<Rightarrow> string"
  ntr :: "string \<Rightarrow> string \<Rightarrow> int \<Rightarrow> (string, string) dict \<Rightarrow> string"

section \<open>Selecting from lists\<close>

text \<open>\<open>list(dict.fromkeys(xs))\<close>: the first occurrence of each element, in order.\<close>

definition dedup :: "'a list \<Rightarrow> 'a list" where
  "dedup xs = rev (remdups (rev xs))"

definition find_first :: "('a \<Rightarrow> bool) \<Rightarrow> 'a list \<Rightarrow> 'a option" where
  "find_first p xs = List.find p xs"

text \<open>\<open>max(xs, key=f)\<close>: the first of the elements with the greatest key.\<close>

fun max_by :: "('a \<Rightarrow> 'b::linorder) \<Rightarrow> 'a list \<Rightarrow> 'a option" where
  "max_by f [] = None"
| "max_by f (x # xs) =
     (case max_by f xs of
        None \<Rightarrow> Some x
      | Some y \<Rightarrow> if f x < f y then Some y else Some x)"

text \<open>\<open>sorted(xs, key=f)\<close> is stable, as \<open>sort_key\<close> is.\<close>

abbreviation sorted_by :: "('a \<Rightarrow> 'b::linorder) \<Rightarrow> 'a list \<Rightarrow> 'a list" where
  "sorted_by f xs \<equiv> sort_key f xs"

text \<open>\<open>sorted(xs, key=f, reverse=True)\<close>: descending, elements with equal keys keep their order.\<close>

definition sorted_desc :: "('a \<Rightarrow> 'b::linorder) \<Rightarrow> 'a list \<Rightarrow> 'a list" where
  "sorted_desc f xs = rev (sort_key f (rev xs))"

section \<open>Time\<close>

type_synonym instant = int
type_synonym timedelta = int

abbreviation us_second :: timedelta where "us_second \<equiv> 1000000"
abbreviation us_minute :: timedelta where "us_minute \<equiv> 60000000"
abbreviation us_hour :: timedelta where "us_hour \<equiv> 3600000000"
abbreviation us_day :: timedelta where "us_day \<equiv> 86400000000"

text \<open>
  What \<open>datetime.fromisoformat\<close> gives for a text it accepts: an instant, or a reading without a
  zone, recorded as the instant it is when it is taken as UTC.
\<close>

datatype iso_time = Aware instant | Naive instant

section \<open>Lemmas on strings\<close>

lemma startswith_append [py_str]: "startswith s p \<longleftrightarrow> (\<exists>t. s = p @ t)"
  by (induction s p rule: startswith.induct) auto

lemma startswith_self_append [simp]: "startswith (p @ t) p"
  by (auto simp: startswith_append)

lemma startswith_drop [py_str]: "startswith s p \<Longrightarrow> s = p @ drop (length p) s"
  by (auto simp: startswith_append)

lemma split_char_not_Nil [simp]: "split_char c s \<noteq> []"
  by (induction s) (auto split: list.splits)

lemma join_split_char [py_str]: "join [c] (split_char c s) = s"
proof (induction s)
  case (Cons x xs)
  then show ?case
    by (cases "split_char c xs"; cases "tl (split_char c xs)") (auto simp: neq_Nil_conv)
qed simp

lemma split_char_clean: "c \<notin> set s \<Longrightarrow> split_char c s = [s]"
  by (induction s) auto

lemma split_char_append [py_str]:
  "c \<notin> set w \<Longrightarrow> split_char c (w @ c # s) = w # split_char c s"
  by (induction w) auto

lemma split_char_join [py_str]:
  "ws \<noteq> [] \<Longrightarrow> \<forall>w \<in> set ws. c \<notin> set w \<Longrightarrow> split_char c (join [c] ws) = ws"
proof (induction "[c]" ws rule: join.induct)
  case (3 w v ws)
  then show ?case by (simp add: split_char_append)
qed (auto simp: split_char_clean)

lemma split_char_parts: "w \<in> set (split_char c s) \<Longrightarrow> c \<notin> set w"
proof (induction s arbitrary: w)
  case (Cons x xs)
  then show ?case
    by (cases "split_char c xs") (auto split: if_splits)
qed simp

lemma split_char_chars: "w \<in> set (split_char c s) \<Longrightarrow> set w \<subseteq> set s"
proof (induction s arbitrary: w)
  case (Cons x xs)
  obtain v vs where v: "split_char c xs = v # vs"
    by (metis neq_Nil_conv split_char_not_Nil)
  with Cons.IH have "\<forall>u \<in> set (v # vs). set u \<subseteq> set xs" by simp
  with Cons.prems v show ?case by (auto split: if_splits)
qed simp

lemma split_ws_acc_word [py_str]:
  "\<forall>c \<in> set v. \<not> is_space c \<Longrightarrow> is_space sp \<Longrightarrow>
     split_ws_acc w (v @ sp # s) =
       (if w = [] \<and> v = [] then split_ws_acc [] s else (rev w @ v) # split_ws_acc [] s)"
  by (induction v arbitrary: w) auto

lemma split_ws_acc_last [py_str]:
  "\<forall>c \<in> set v. \<not> is_space c \<Longrightarrow>
     split_ws_acc w v = (if w = [] \<and> v = [] then [] else [rev w @ v])"
  by (induction v arbitrary: w) auto

lemma split_ws_join [py_str]:
  assumes "\<forall>w \<in> set ws. w \<noteq> [] \<and> (\<forall>c \<in> set w. \<not> is_space c)"
  shows "split_ws (join '' '' ws) = ws"
  using assms
proof (induction "'' ''" ws rule: join.induct)
  case (2 w)
  then show ?case by (simp add: split_ws_def split_ws_acc_last)
next
  case (3 w v ws)
  have sp: "is_space (CHR '' '')" by (simp add: is_space_def)
  from 3 show ?case
    by (simp add: split_ws_def split_ws_acc_word sp)
qed (simp add: split_ws_def)

lemma split_ws_acc_parts:
  "list_all (\<lambda>c. \<not> is_space c) w \<Longrightarrow> v \<in> set (split_ws_acc w s) \<Longrightarrow>
     v \<noteq> [] \<and> list_all (\<lambda>c. \<not> is_space c) v"
proof (induction w s rule: split_ws_acc.induct)
  case (2 w c cs)
  show ?case
  proof (cases "is_space c")
    case True
    with "2.prems"(2) have "(w \<noteq> [] \<and> v = rev w) \<or> v \<in> set (split_ws_acc [] cs)"
      by (auto split: if_splits)
    with "2.prems"(1) "2.IH"(1,2) True show ?thesis
      by (cases "w = []") auto
  next
    case False
    with "2.IH"(3) "2.prems" show ?thesis by simp
  qed
qed (auto split: if_splits)

lemma split_ws_parts: "v \<in> set (split_ws s) \<Longrightarrow> v \<noteq> [] \<and> (\<forall>c \<in> set v. \<not> is_space c)"
  using split_ws_acc_parts [of "[]" v s] by (simp add: split_ws_def list_all_iff)

lemma split_ws_normal [py_str]: "split_ws (join '' '' (split_ws s)) = split_ws s"
  by (rule split_ws_join) (use split_ws_parts in blast)

lemma join_chars: "c \<in> set (join sep ws) \<Longrightarrow> c \<in> set sep \<or> (\<exists>w \<in> set ws. c \<in> set w)"
  by (induction sep ws rule: join.induct) auto

lemma is_space_marks [simp]:
  "is_space CHR '' ''" "is_space TAB" "is_space LF" "is_space CR"
  "\<not> is_space CHR ''.''" "\<not> is_space CHR ''-''" "\<not> is_space CHR ''+''" "\<not> is_space CHR '':''"
  "\<not> is_space CHR ''*''" "\<not> is_space CHR ''/''" "\<not> is_space CHR '',''" "\<not> is_space CHR ''=''"
  "\<not> is_space CHR ''_''" "\<not> is_space CHR ''0''"
  by (simp_all add: is_space_def)

lemma partition_char_found [py_str]:
  "partition_char c s = (a, True, b) \<Longrightarrow> s = a @ c # b \<and> c \<notin> set a"
  by (induction s arbitrary: a) (auto split: if_splits prod.splits)

lemma partition_char_missing [py_str]:
  "partition_char c s = (a, False, b) \<Longrightarrow> a = s \<and> b = [] \<and> c \<notin> set s"
  by (induction s arbitrary: a) (auto split: if_splits prod.splits)

lemma partition_char_append [py_str]:
  "c \<notin> set a \<Longrightarrow> partition_char c (a @ c # b) = (a, True, b)"
  by (induction a) auto

lemma partition_char_clean [py_str]: "c \<notin> set a \<Longrightarrow> partition_char c a = (a, False, [])"
  by (induction a) auto

lemma dropWhile_hd_stop: "xs \<noteq> [] \<Longrightarrow> \<not> P (hd xs) \<Longrightarrow> dropWhile P xs = xs"
  by (cases xs) auto

lemma py_strip_id [py_str]:
  assumes "s \<noteq> []" "\<not> is_space (hd s)" "\<not> is_space (last s)"
  shows "py_strip s = s"
  using assms by (simp add: py_strip_def dropWhile_hd_stop hd_rev)

lemma dropWhile_prefix_hd: "dropWhile P xs = xs \<Longrightarrow> xs \<noteq> [] \<Longrightarrow> \<not> P (hd xs)"
  by (cases xs) (auto, metis Suc_n_not_le_n length_Cons length_dropWhile_le)

lemma py_strip_fixed:
  assumes "py_strip s = s" "s \<noteq> []"
  shows "\<not> is_space (hd s)" "\<not> is_space (last s)"
proof -
  let ?t = "dropWhile is_space s"
  have eq: "rev (dropWhile is_space (rev ?t)) = s" using assms(1) by (simp add: py_strip_def)
  have "length s \<le> length ?t" using eq length_dropWhile_le [of is_space "rev ?t"] by (metis length_rev)
  then have t: "?t = s" using length_dropWhile_le [of is_space s]
    by (metis append_self_conv2 le_antisym length_0_conv add_diff_cancel_right' length_append
        takeWhile_dropWhile_id diff_is_0_eq)
  then show "\<not> is_space (hd s)" using assms(2) by (rule dropWhile_prefix_hd)
  from eq t have "dropWhile is_space (rev s) = rev s" by (metis rev_rev_ident)
  then show "\<not> is_space (last s)" using dropWhile_prefix_hd [of is_space "rev s"] assms(2)
    by (simp add: hd_rev)
qed

lemma py_strip_ends:
  assumes "py_strip s \<noteq> []"
  shows "\<not> is_space (hd (py_strip s))" "\<not> is_space (last (py_strip s))"
proof -
  let ?t = "dropWhile is_space s"
  let ?u = "dropWhile is_space (rev ?t)"
  have u: "?u \<noteq> []" "py_strip s = rev ?u" using assms by (auto simp: py_strip_def)
  have "hd ?u = last (py_strip s)" using u by (simp add: last_rev)
  then show "\<not> is_space (last (py_strip s))" using u(1) by (metis hd_dropWhile)
  have "?t = py_strip s @ rev (takeWhile is_space (rev ?t))"
    using takeWhile_dropWhile_id [of is_space "rev ?t"] u(2) by (metis rev_append rev_rev_ident)
  then have "hd (py_strip s) = hd ?t" using assms by (metis hd_append2)
  moreover have "?t \<noteq> []" using u(1) by (metis dropWhile.simps(1) rev.simps(1))
  ultimately show "\<not> is_space (hd (py_strip s))" by (metis hd_dropWhile)
qed

lemma py_strip_idem [simp]: "py_strip (py_strip s) = py_strip s"
  using py_strip_ends [of s] by (cases "py_strip s = []") (simp_all add: py_strip_id py_strip_def [of "[]"])

lemma match_dollar_strip: "match_dollar p (py_strip s) \<longleftrightarrow> p (py_strip s)"
  using py_strip_ends [of s] by (auto simp: match_dollar_def is_space_def)

lemma is_linebreak_marks [simp]: "is_linebreak LF" "is_linebreak CR"
  by (simp_all add: is_linebreak_def)

lemma splitlines_acc_line:
  "\<forall>c \<in> set l. \<not> is_linebreak c \<Longrightarrow>
    splitlines_acc w (l @ LF # s) = (rev w @ l) # splitlines_acc [] s"
proof (induction l arbitrary: w)
  case Nil
  then show ?case by (cases s) auto
next
  case (Cons c l)
  then have "c \<noteq> CR" by (auto simp: is_linebreak_def)
  with Cons show ?case by (cases l) auto
qed

lemma splitlines_lines [py_str]:
  "\<forall>l \<in> set ls. \<forall>c \<in> set l. \<not> is_linebreak c \<Longrightarrow>
    splitlines (concat (map (\<lambda>l. l @ [LF]) ls)) = ls"
  by (induction ls) (simp_all add: splitlines_def splitlines_acc_line)

lemma py_strip_Nil [simp]: "py_strip [] = []"
  by (simp add: py_strip_def)

lemma py_strip_clean [py_str]: "\<forall>c \<in> set s. \<not> is_space c \<Longrightarrow> py_strip s = s"
  by (cases "s = []") (auto intro!: py_strip_id)

section \<open>Lemmas on decimal numbers\<close>

lemma digit_val_char [py_str]: "d < 10 \<Longrightarrow> digit_val (digit_char d) = d"
  by (simp add: digit_val_def digit_char_def)

lemma is_digit_char [py_str]: "d < 10 \<Longrightarrow> is_digit (digit_char d)"
  by (simp add: is_digit_def digit_char_def Let_def)

lemma str_of_nat_digits: "list_all is_digit (str_of_nat n)"
proof (induction n rule: str_of_nat.induct)
  case (1 n)
  then show ?case by (subst str_of_nat.simps) (simp add: is_digit_char)
qed

lemma str_of_nat_nonempty: "str_of_nat n \<noteq> []"
  by (subst str_of_nat.simps) simp

lemma str_isdigit_str_of_nat [simp]: "str_isdigit (str_of_nat n)"
  by (simp add: str_isdigit_def str_of_nat_digits str_of_nat_nonempty)

lemma int_of_digits_snoc: "int_of_digits (s @ [c]) = 10 * int_of_digits s + digit_val c"
  by (simp add: int_of_digits_def)

lemma int_of_digits_str_of_nat [simp]: "int_of_digits (str_of_nat n) = n"
proof (induction n rule: str_of_nat.induct)
  case (1 n)
  show ?case
  proof (cases "n < 10")
    case True
    then show ?thesis
      by (subst str_of_nat.simps) (simp add: int_of_digits_def digit_val_char)
  next
    case False
    with 1 show ?thesis
      by (subst str_of_nat.simps) (simp add: int_of_digits_snoc digit_val_char)
  qed
qed

lemma str_of_nat_inj [simp]: "str_of_nat m = str_of_nat n \<longleftrightarrow> m = n"
  by (metis int_of_digits_str_of_nat)

lemma is_digit_not_space: "is_digit c \<Longrightarrow> \<not> is_space c"
  by (auto simp: is_digit_def is_space_def Let_def)

lemma digits_not_space: "list_all is_digit s \<Longrightarrow> \<forall>c \<in> set s. \<not> is_space c"
  by (auto simp: list_all_iff is_digit_not_space)

lemma str_of_nat_not_space: "c \<in> set (str_of_nat n) \<Longrightarrow> \<not> is_space c"
  using digits_not_space [OF str_of_nat_digits] by blast

lemma int_of_digits_pad2 [simp]: "int_of_digits (pad2 n) = n"
proof -
  have "int_of_digits (CHR ''0'' # s) = int_of_digits s" for s
    by (simp add: int_of_digits_def digit_val_def)
  then show ?thesis by (simp add: pad2_def)
qed

section \<open>Lemmas on dictionaries\<close>

lemma dict_get_set [py_dict, simp]:
  "dict_get (dict_set d k v) j = (if j = k then Some v else dict_get d j)"
  by (induction d k v rule: dict_set.induct) (auto simp: dict_get_def)

lemma dict_get_del [py_dict, simp]:
  "dict_get (dict_del d k) j = (if j = k then None else dict_get d j)"
  by (induction d) (auto simp: dict_get_def dict_del_def)

lemma dict_get_Nil [py_dict, simp]: "dict_get [] k = None"
  by (simp add: dict_get_def)

lemma dict_get_keys [py_dict]: "dict_get d k = None \<longleftrightarrow> k \<notin> set (dict_keys d)"
  by (simp add: dict_get_def map_of_eq_None_iff)

lemma dict_get_in: "dict_get d k = Some v \<Longrightarrow> (k, v) \<in> set d"
  by (simp add: dict_get_def map_of_SomeD)

lemma dict_get_mem: "dict_ok d \<Longrightarrow> (k, v) \<in> set d \<Longrightarrow> dict_get d k = Some v"
  by (simp add: dict_get_def dict_ok_def)

lemma set_dict_keys_set [py_dict, simp]:
  "set (dict_keys (dict_set d k v)) = insert k (set (dict_keys d))"
  by (induction d k v rule: dict_set.induct) auto

lemma dict_keys_set [py_dict]:
  "dict_keys (dict_set d k v) = (if k \<in> set (dict_keys d) then dict_keys d else dict_keys d @ [k])"
  by (induction d k v rule: dict_set.induct) auto

lemma dict_set_not_Nil [simp]: "dict_set d k v \<noteq> []"
  by (cases d) (auto split: if_splits)

lemma dict_ok_Nil [simp]: "dict_ok []"
  by (simp add: dict_ok_def)

lemma dict_ok_set [py_dict, simp]: "dict_ok d \<Longrightarrow> dict_ok (dict_set d k v)"
  by (simp add: dict_ok_def dict_keys_set)

lemma dict_ok_del [py_dict, simp]: "dict_ok d \<Longrightarrow> dict_ok (dict_del d k)"
  by (simp add: dict_ok_def dict_del_def distinct_map_filter)

lemma dict_set_mem: "(j, x) \<in> set (dict_set d k v) \<Longrightarrow> (j, x) = (k, v) \<or> (j, x) \<in> set d"
  by (induction d k v rule: dict_set.induct) (auto split: if_splits)

lemma map_dict_set_same:
  "dict_get d k = Some u \<Longrightarrow> f (k, v) = f (k, u) \<Longrightarrow> map f (dict_set d k v) = map f d"
  by (induction d k v rule: dict_set.induct) (auto simp: dict_get_def split: if_splits)

lemma remdups_snoc_new: "x \<notin> set xs \<Longrightarrow> remdups (xs @ [x]) = remdups xs @ [x]"
  by (induction xs) auto

lemma remdups_snoc_last: "xs \<noteq> [] \<Longrightarrow> last xs = x \<Longrightarrow> remdups (xs @ [x]) = remdups xs"
  by (induction xs) (auto split: if_splits dest: last_in_set)

lemma dict_of_snoc: "dict_of (kvs @ [kv]) = dict_set (dict_of kvs) (fst kv) (snd kv)"
  by (simp add: dict_of_def)

lemma dict_ok_dict_of [simp]: "dict_ok (dict_of kvs)"
  by (induction kvs rule: rev_induct) (auto simp: dict_of_snoc, simp add: dict_of_def)

lemma dict_of_keys [simp]: "set (dict_keys (dict_of kvs)) = fst ` set kvs"
proof (induction kvs rule: rev_induct)
  case (snoc kv kvs)
  then show ?case by (simp add: dict_of_snoc del: set_map)
qed (simp add: dict_of_def)

lemma dict_of_mem: "(k, v) \<in> set (dict_of kvs) \<Longrightarrow> (k, v) \<in> set kvs"
proof (induction kvs rule: rev_induct)
  case (snoc kv kvs)
  then show ?case by (auto simp: dict_of_snoc dest: dict_set_mem)
qed (simp add: dict_of_def)

lemma dict_set_append:
  "k \<notin> set (dict_keys d) \<Longrightarrow> dict_set d k v = d @ [(k, v)]"
  by (induction d k v rule: dict_set.induct) auto

lemma dict_of_distinct: "distinct (map fst kvs) \<Longrightarrow> dict_of kvs = kvs"
proof (induction kvs rule: rev_induct)
  case (snoc kv kvs)
  then show ?case by (cases kv) (auto simp: dict_of_snoc dict_set_append)
qed (simp add: dict_of_def)

lemma mset_concat_dict_set:
  "mset (concat (map f (dict_set d k v))) + mset (case dict_get d k of None \<Rightarrow> [] | Some u \<Rightarrow> f (k, u))
     = mset (concat (map f d)) + mset (f (k, v))"
proof (induction d k v rule: dict_set.induct)
  case (2 a b d k v)
  then show ?case by (simp add: dict_get_def)
qed (simp add: dict_get_def)

section \<open>Lemmas on results and selection\<close>

lemma rbind_Inr [py_res, simp]: "rbind (Inr a) f = f a"
  by (simp add: rbind_def)

lemma rbind_Inl [py_res, simp]: "rbind (Inl e) f = Inl e"
  by (simp add: rbind_def)

lemma rbind_eq_Inr [py_res]: "rbind m f = Inr b \<longleftrightarrow> (\<exists>a. m = Inr a \<and> f a = Inr b)"
  by (cases m) auto

lemma rbindE: "rbind m f = Inr b \<Longrightarrow> (\<And>a. m = Inr a \<Longrightarrow> f a = Inr b \<Longrightarrow> P) \<Longrightarrow> P"
  by (auto simp: rbind_eq_Inr)

lemma rbind_eq_Inl [py_res]:
  "rbind m f = Inl e \<longleftrightarrow> m = Inl e \<or> (\<exists>a. m = Inr a \<and> f a = Inl e)"
  by (cases m) auto

lemma rmap_length: "rmap f xs = Inr ys \<Longrightarrow> length ys = length xs"
  by (induction xs arbitrary: ys) (auto simp: py_res)

lemma rmap_mem: "rmap f xs = Inr ys \<Longrightarrow> y \<in> set ys \<Longrightarrow> \<exists>x \<in> set xs. f x = Inr y"
  by (induction xs arbitrary: ys) (auto simp: py_res)

lemma rfold_append: "rfold f s (xs @ ys) = rbind (rfold f s xs) (\<lambda>t. rfold f t ys)"
  by (induction xs arbitrary: s) (auto simp: rbind_def split: sum.splits)

lemma rfold_invariant:
  assumes "rfold f s xs = Inr t" and "I s"
    and "\<And>a x b. I a \<Longrightarrow> x \<in> set xs \<Longrightarrow> f a x = Inr b \<Longrightarrow> I b"
  shows "I t"
  using assms
proof (induction xs arbitrary: s)
  case (Cons x xs)
  from Cons.prems(1) obtain u where u: "f s x = Inr u" "rfold f u xs = Inr t"
    by (auto simp: rbind_eq_Inr)
  show ?case
  proof (rule Cons.IH [OF u(2)])
    show "I u" using Cons.prems(2,3) u(1) by (meson list.set_intros(1))
  qed (use Cons.prems(3) in \<open>meson list.set_intros(2)\<close>)
qed simp

lemma set_dedup [simp]: "set (dedup xs) = set xs"
  by (simp add: dedup_def)

lemma dedup_snoc: "dedup (xs @ [x]) = (if x \<in> set xs then dedup xs else dedup xs @ [x])"
  by (simp add: dedup_def)

lemma distinct_dedup [simp]: "distinct (dedup xs)"
  by (simp add: dedup_def)

lemma mset_sorted_desc [simp]: "mset (sorted_desc f xs) = mset xs"
  by (simp add: sorted_desc_def)

lemma set_sorted_desc [simp]: "set (sorted_desc f xs) = set xs"
  by (simp add: sorted_desc_def)

lemma length_sorted_desc [simp]: "length (sorted_desc f xs) = length xs"
  by (simp add: sorted_desc_def)

lemma sorted_desc_sorted: "sorted (rev (map f (sorted_desc f xs)))"
  by (simp add: sorted_desc_def rev_map)

lemma sorted_desc_nth: "i \<le> j \<Longrightarrow> j < length xs \<Longrightarrow> f (sorted_desc f xs ! j) \<le> f (sorted_desc f xs ! i)"
  using sorted_desc_sorted [of f xs] sorted_rev_nth_mono [of "map f (sorted_desc f xs)" i j] by simp

lemma length_filter_sorted_desc: "length (filter P (sorted_desc f xs)) = length (filter P xs)"
  by (metis mset_filter mset_sorted_desc size_mset)

text \<open>Which elements are among the first \<open>n\<close> of a descending sort: those that fewer than \<open>n\<close> others reach.\<close>

lemma sorted_desc_take:
  assumes "x \<in> set xs" "distinct xs" "length (filter (\<lambda>y. y \<noteq> x \<and> f x \<le> f y) xs) < n"
  shows "x \<in> set (take n (sorted_desc f xs))"
proof -
  let ?ys = "sorted_desc f xs"
  from assms(1) obtain i where i: "i < length ?ys" "?ys ! i = x" by (metis in_set_conv_nth set_sorted_desc)
  have d: "distinct ?ys" using assms(2) by (metis mset_eq_imp_distinct_iff mset_sorted_desc)
  have "\<forall>y \<in> set (take i ?ys). y \<noteq> x \<and> f x \<le> f y"
    using i d sorted_desc_nth [of _ i xs f] by (auto simp: in_set_conv_nth nth_eq_iff_index_eq)
  then have "filter (\<lambda>y. y \<noteq> x \<and> f x \<le> f y) (take i ?ys) = take i ?ys" by simp
  then have "i \<le> length (filter (\<lambda>y. y \<noteq> x \<and> f x \<le> f y) ?ys)"
    using i(1) by (metis (no_types, lifting) append_take_drop_id filter_append length_append length_take
        le_add1 min.absorb2 less_imp_le)
  then have "i < n" using assms(3) by (simp add: length_filter_sorted_desc)
  then show ?thesis using i by (auto simp: in_set_conv_nth)
qed

lemma sorted_desc_drop:
  assumes "x \<in> set xs" "n \<le> length (filter (\<lambda>y. f x < f y) xs)"
  shows "x \<in> set (drop n (sorted_desc f xs))"
proof -
  let ?ys = "sorted_desc f xs"
  from assms(1) obtain i where i: "i < length ?ys" "?ys ! i = x" by (metis in_set_conv_nth set_sorted_desc)
  have "\<forall>y \<in> set (drop i ?ys). f y \<le> f x"
    using i sorted_desc_nth [of i _ xs f] by (auto simp: in_set_conv_nth)
  then have "filter (\<lambda>y. f x < f y) (drop i ?ys) = []" by (auto simp: filter_empty_conv not_less)
  then have "filter (\<lambda>y. f x < f y) ?ys = filter (\<lambda>y. f x < f y) (take i ?ys)"
    by (metis append_Nil2 append_take_drop_id filter_append)
  then have "length (filter (\<lambda>y. f x < f y) ?ys) \<le> i"
    by (metis (no_types, lifting) le_trans length_filter_le length_take min.cobounded2)
  then have "n \<le> i" using assms(2) by (simp add: length_filter_sorted_desc)
  then have "?ys ! i = drop n ?ys ! (i - n)" using i(1) by simp
  then show ?thesis using i \<open>n \<le> i\<close> by (metis diff_less_mono length_drop nth_mem)
qed

lemma rmap_pure: "(\<And>x. x \<in> set xs \<Longrightarrow> f x = Inr (g x)) \<Longrightarrow> rmap f xs = Inr (map g xs)"
  by (induction xs) auto

lemma match_dollar_exact: "LF \<notin> set s \<Longrightarrow> match_dollar p s \<longleftrightarrow> p s"
  by (auto simp: match_dollar_def dest: last_in_set)

lemma max_by_mem: "max_by f xs = Some x \<Longrightarrow> x \<in> set xs"
  by (induction xs arbitrary: x) (auto split: option.splits if_splits)

lemma max_by_None [simp]: "max_by f xs = None \<longleftrightarrow> xs = []"
  by (induction xs) (auto split: option.splits)

lemma max_by_ge: "max_by f xs = Some x \<Longrightarrow> y \<in> set xs \<Longrightarrow> f y \<le> f x"
proof (induction xs arbitrary: x)
  case (Cons a xs)
  show ?case
  proof (cases "max_by f xs")
    case None
    with Cons.prems show ?thesis by auto
  next
    case (Some z)
    with Cons show ?thesis by (fastforce split: if_splits)
  qed
qed simp

section \<open>Reachable states and invariants\<close>

text \<open>
  Components with state are transition systems: the states an initial one leads to under a step
  relation, and the one rule every invariant proof goes through.
\<close>

inductive reach :: "('s \<Rightarrow> bool) \<Rightarrow> ('s \<Rightarrow> 's \<Rightarrow> bool) \<Rightarrow> 's \<Rightarrow> bool"
  for init :: "'s \<Rightarrow> bool" and step :: "'s \<Rightarrow> 's \<Rightarrow> bool" where
  reach_init: "init s \<Longrightarrow> reach init step s"
| reach_step: "reach init step s \<Longrightarrow> step s t \<Longrightarrow> reach init step t"

locale invariant_system =
  fixes init :: "'s \<Rightarrow> bool" and step :: "'s \<Rightarrow> 's \<Rightarrow> bool" and inv :: "'s \<Rightarrow> bool"
  assumes inv_init: "init s \<Longrightarrow> inv s"
    and inv_step: "inv s \<Longrightarrow> step s t \<Longrightarrow> inv t"
begin

lemma reach_inv: "reach init step s \<Longrightarrow> inv s"
  by (induction rule: reach.induct) (auto intro: inv_init inv_step)

lemma steps_inv: "inv s \<Longrightarrow> step\<^sup>*\<^sup>* s t \<Longrightarrow> inv t"
  by (rotate_tac, induction rule: rtranclp_induct) (auto intro: inv_step)

end

text \<open>
  Refinement of an abstract step relation: every step of the program is a step of the specification on the abstract
  states, or invisible there.
\<close>

locale refinement = invariant_system init step inv
  for init :: "'s \<Rightarrow> bool" and step :: "'s \<Rightarrow> 's \<Rightarrow> bool" and inv :: "'s \<Rightarrow> bool" +
  fixes ainit :: "'a \<Rightarrow> bool" and astep :: "'a \<Rightarrow> 'a \<Rightarrow> bool" and abstr :: "'s \<Rightarrow> 'a"
  assumes abs_init: "init s \<Longrightarrow> ainit (abstr s)"
    and abs_step: "inv s \<Longrightarrow> step s t \<Longrightarrow> abstr t = abstr s \<or> astep (abstr s) (abstr t)"
begin

lemma reach_abs: "reach init step s \<Longrightarrow> reach ainit astep (abstr s)"
proof (induction rule: reach.induct)
  case (reach_step s t)
  then show ?case using abs_step [OF reach_inv] by (metis reach.reach_step)
qed (blast intro: reach.reach_init abs_init)

lemma steps_abs: "inv s \<Longrightarrow> step\<^sup>*\<^sup>* s t \<Longrightarrow> astep\<^sup>*\<^sup>* (abstr s) (abstr t)"
proof (rotate_tac, induction rule: rtranclp_induct)
  case (step t u)
  then show ?case using abs_step [OF steps_inv, of s t u] by (metis rtranclp.rtrancl_into_rtrancl)
qed simp

end

lemma reach_steps: "reach init step s \<Longrightarrow> step\<^sup>*\<^sup>* s t \<Longrightarrow> reach init step t"
  by (rotate_tac, induction rule: rtranclp_induct) (auto intro: reach_step)

end
