(* ===== verification/Semver.thy ===== *)
theory Semver
  imports Py_Prelude
begin

text \<open>
  Version precedence (\<open>src/src/app/core/semver.py\<close>): the key a version text is compared by, the
  three-way comparison and \<open>is_newer\<close>. The interface the add-on catalogue relies on is the locale
  \<open>version_order\<close>: a partial three-way comparison that changes sign when its arguments are swapped
  and is transitive. It is interpreted on \<open>compare\<close> as \<open>sv\<close>.
\<close>

section \<open>The comparison key\<close>

type_synonym ident = "nat \<times> nat \<times> string"
type_synonym version_key = "(nat \<times> nat \<times> nat) \<times> bool \<times> ident list"

definition is_ident_char :: "char \<Rightarrow> bool" where
  "is_ident_char c \<longleftrightarrow> is_digit c \<or> is_upper c \<or> is_lower c \<or> c = CHR ''-''"

text \<open>\<open>[0-9A-Za-z-]+(?:\.[0-9A-Za-z-]+)*\<close>\<close>

definition dotted_idents :: "string \<Rightarrow> bool" where
  "dotted_idents s \<longleftrightarrow> list_all (\<lambda>w. w \<noteq> [] \<and> list_all is_ident_char w) (split_char CHR ''.'' s)"

definition ident_key :: "string \<Rightarrow> ident" where
  "ident_key p = (if str_isdigit p then (0, int_of_digits p, []) else (1, 0, p))"

text \<open>
  \<open>_VERSION_RE\<close> on the stripped text. No digit of the triple is \<open>-\<close> or \<open>+\<close> and no pre-release
  character is \<open>+\<close>, so the build metadata starts at the first \<open>+\<close> and the pre-release at the first
  \<open>-\<close> before it.
\<close>

definition key_of :: "string \<Rightarrow> version_key option" where
  "key_of text =
     (case partition_char CHR ''+'' (py_strip text) of (head, has_build, build) \<Rightarrow>
      case partition_char CHR ''-'' head of (triple, dash, pre) \<Rightarrow>
        if (has_build \<longrightarrow> dotted_idents build) \<and> (dash \<longrightarrow> dotted_idents pre) then
          (case split_char CHR ''.'' triple of
             [a, b, c] \<Rightarrow>
               if str_isdigit a \<and> str_isdigit b \<and> str_isdigit c then
                 Some ((int_of_digits a, int_of_digits b, int_of_digits c), \<not> dash,
                       if dash then map ident_key (split_char CHR ''.'' pre) else [])
               else None
           | _ \<Rightarrow> None)
        else None)"

section \<open>Comparison\<close>

definition compare_keys :: "version_key \<Rightarrow> version_key \<Rightarrow> int" where
  "compare_keys ka kb =
     (case (ka, kb) of ((ta, ra, ia), (tb, rb, ib)) \<Rightarrow>
        if ta \<noteq> tb then (if ta < tb then -1 else 1)
        else if ra \<noteq> rb then (if rb then -1 else 1)
        else if ia = ib then 0
        else if ia < ib then -1 else 1)"

definition compare :: "string \<Rightarrow> string \<Rightarrow> int option" where
  "compare a b =
     (case (key_of a, key_of b) of
        (Some ka, Some kb) \<Rightarrow> Some (compare_keys ka kb)
      | _ \<Rightarrow> None)"

definition is_newer :: "string \<Rightarrow> string \<Rightarrow> bool option" where
  "is_newer candidate installed = map_option (\<lambda>r. 0 < r) (compare candidate installed)"

section \<open>The interface: a partial three-way comparison\<close>

locale version_order =
  fixes cmp :: "'v \<Rightarrow> 'v \<Rightarrow> int option"
  assumes cmp_swap: "cmp b a = map_option uminus (cmp a b)"
    and cmp_trans: "cmp a b = Some r \<Longrightarrow> cmp b c = Some s \<Longrightarrow> r \<le> 0 \<Longrightarrow> s \<le> 0 \<Longrightarrow>
      \<exists>t. cmp a c = Some t \<and> t \<le> 0 \<and> (r < 0 \<or> s < 0 \<longrightarrow> t < 0)"
begin

lemma newer_asym: "cmp a b = Some r \<Longrightarrow> 0 < r \<Longrightarrow> \<exists>s. cmp b a = Some s \<and> s < 0"
  by (simp add: cmp_swap [of b a])

lemma newer_irrefl: "cmp a a = Some r \<Longrightarrow> r = 0"
  using cmp_swap [of a a] by (auto simp: option.map_sel)

lemma newer_trans:
  assumes "cmp a b = Some r" "0 < r" "cmp b c = Some s" "0 < s"
  shows "\<exists>t. cmp a c = Some t \<and> 0 < t"
proof -
  from assms have ba: "cmp b a = Some (- r)" and cb: "cmp c b = Some (- s)"
    using cmp_swap [of b a] cmp_swap [of c b] by auto
  with assms(2,4) obtain t where t: "cmp c a = Some t" "t < 0"
    using cmp_trans [OF cb ba] by auto
  then have "cmp a c = Some (- t)" using cmp_swap [of a c] by simp
  with t(2) show ?thesis by simp
qed

lemma no_newer_cycle:
  assumes "cmp a b = Some r" "0 < r" "cmp b c = Some s" "0 < s" "cmp c a = Some t"
  shows "t < 0"
proof -
  from newer_trans [OF assms(1-4)] obtain u where "cmp a c = Some u" "0 < u" by blast
  with assms(5) show ?thesis using newer_asym by fastforce
qed

end

section \<open>\<open>compare\<close> meets the interface\<close>

text \<open>The chain of tests is the lexicographic order on the keys, with a pre-release below its
  release because \<open>False\<close> is below \<open>True\<close>.\<close>

lemma compare_keys_lex:
  "compare_keys ka kb = (if ka = kb then 0 else if ka < kb then -1 else 1)"
proof -
  obtain ta ra ia tb rb ib where k: "ka = (ta, ra, ia)" "kb = (tb, rb, ib)"
    by (metis prod.exhaust)
  have "ta < tb \<or> ta = tb \<or> tb < ta" by (rule less_linear)
  moreover have "ia < ib \<or> ia = ib \<or> ib < ia" by (rule less_linear)
  ultimately show ?thesis
    unfolding k compare_keys_def
    by (cases ra; cases rb) (auto simp: less_prod_simp simp del: split_paired_All)
qed

lemma compare_keys_swap: "compare_keys kb ka = - compare_keys ka kb"
  by (auto simp: compare_keys_lex)

lemma compare_swap: "compare b a = map_option uminus (compare a b)"
  by (auto simp: compare_def split: option.splits intro: compare_keys_swap)

lemma compare_keys_trans:
  assumes "compare_keys ka kb \<le> 0" "compare_keys kb kc \<le> 0"
  shows "compare_keys ka kc \<le> 0"
    and "compare_keys ka kb < 0 \<or> compare_keys kb kc < 0 \<Longrightarrow> compare_keys ka kc < 0"
proof -
  from assms have "ka \<le> kb" "kb \<le> kc"
    by (auto simp: compare_keys_lex split: if_splits)
  then show "compare_keys ka kc \<le> 0"
    and "compare_keys ka kb < 0 \<or> compare_keys kb kc < 0 \<Longrightarrow> compare_keys ka kc < 0"
    by (auto simp: compare_keys_lex split: if_splits)
qed

lemma compare_trans:
  assumes "compare a b = Some r" "compare b c = Some s" "r \<le> 0" "s \<le> 0"
  shows "\<exists>t. compare a c = Some t \<and> t \<le> 0 \<and> (r < 0 \<or> s < 0 \<longrightarrow> t < 0)"
proof -
  from assms(1,2) obtain ka kb kc
    where k: "key_of a = Some ka" "key_of b = Some kb" "key_of c = Some kc"
      and r: "r = compare_keys ka kb" and s: "s = compare_keys kb kc"
    by (auto simp: compare_def split: option.splits)
  then have "compare a c = Some (compare_keys ka kc)" by (simp add: compare_def)
  with compare_keys_trans [of ka kb kc] assms(3,4) r s show ?thesis by auto
qed

interpretation sv: version_order compare
  by unfold_locales (rule compare_swap, rule compare_trans)

section \<open>Reading a version\<close>

lemma digit_no_mark: "is_digit c \<Longrightarrow> c \<noteq> CHR ''+'' \<and> c \<noteq> CHR ''-'' \<and> c \<noteq> CHR ''.''"
  by (auto simp: is_digit_def)

lemma str_isdigit_no_mark:
  "str_isdigit a \<Longrightarrow> CHR ''+'' \<notin> set a \<and> CHR ''-'' \<notin> set a \<and> CHR ''.'' \<notin> set a"
  using digit_no_mark by (auto simp: str_isdigit_def list_all_iff)

lemma ident_char_no_mark: "is_ident_char c \<Longrightarrow> c \<noteq> CHR ''+'' \<and> c \<noteq> CHR ''.'' \<and> \<not> is_space c"
  by (auto simp: is_ident_char_def is_digit_def is_upper_def is_lower_def is_space_def Let_def)

definition triple_text :: "nat \<Rightarrow> nat \<Rightarrow> nat \<Rightarrow> string" where
  "triple_text a b c = str_of_nat a @ ''.'' @ str_of_nat b @ ''.'' @ str_of_nat c"

lemma str_of_nat_marks [simp]:
  "CHR ''+'' \<notin> set (str_of_nat n)" "CHR ''-'' \<notin> set (str_of_nat n)" "CHR ''.'' \<notin> set (str_of_nat n)"
  using str_isdigit_no_mark [of "str_of_nat n"] by auto

lemma triple_text_marks [simp]:
  "CHR ''+'' \<notin> set (triple_text a b c)" "CHR ''-'' \<notin> set (triple_text a b c)"
  by (simp_all add: triple_text_def)

lemma triple_text_not_space: "x \<in> set (triple_text a b c) \<Longrightarrow> \<not> is_space x"
proof -
  assume "x \<in> set (triple_text a b c)"
  then have "x \<in> set (str_of_nat a) \<union> set (str_of_nat b) \<union> set (str_of_nat c) \<or> x = CHR ''.''"
    by (auto simp: triple_text_def)
  then show ?thesis using str_of_nat_not_space by auto
qed

lemma split_triple [simp]:
  "split_char CHR ''.'' (triple_text a b c) = [str_of_nat a, str_of_nat b, str_of_nat c]"
  by (simp add: triple_text_def split_char_append split_char_clean)

lemma key_of_release: "key_of (triple_text a b c) = Some ((a, b, c), True, [])"
  using triple_text_not_space
  by (simp add: key_of_def py_strip_clean partition_char_clean)

lemma dotted_idents_chars:
  assumes "dotted_idents s"
  shows "CHR ''+'' \<notin> set s" and "\<forall>c \<in> set s. \<not> is_space c" and "s \<noteq> []"
proof -
  have parts: "c \<noteq> CHR ''+'' \<and> \<not> is_space c" if "w \<in> set (split_char CHR ''.'' s)" "c \<in> set w" for w c
    using assms that ident_char_no_mark [of c] by (auto simp: dotted_idents_def list_all_iff)
  have "c \<noteq> CHR ''+'' \<and> \<not> is_space c" if "c \<in> set s" for c
    using that parts join_chars [of c "''.''" "split_char CHR ''.'' s"]
    by (auto simp: join_split_char)
  then show "CHR ''+'' \<notin> set s" and "\<forall>c \<in> set s. \<not> is_space c" by auto
  show "s \<noteq> []" using assms by (auto simp: dotted_idents_def)
qed

lemma key_of_prerelease:
  assumes "dotted_idents pre"
  shows "key_of (triple_text a b c @ ''-'' @ pre) =
    Some ((a, b, c), False, map ident_key (split_char CHR ''.'' pre))"
proof -
  let ?v = "triple_text a b c @ ''-'' @ pre"
  have "\<forall>x \<in> set ?v. \<not> is_space x"
    using dotted_idents_chars(2) [OF assms] triple_text_not_space by auto
  moreover have "CHR ''+'' \<notin> set ?v"
    using dotted_idents_chars(1) [OF assms] by simp
  ultimately show ?thesis
    using assms by (simp add: key_of_def py_strip_clean partition_char_clean partition_char_append)
qed

lemma key_of_build:
  assumes "dotted_idents build" and "CHR ''+'' \<notin> set v" and "\<forall>c \<in> set v. \<not> is_space c"
  shows "key_of (v @ ''+'' @ build) = key_of v"
proof -
  have ns: "\<forall>c \<in> set (v @ ''+'' @ build). \<not> is_space c"
    using dotted_idents_chars(2) [OF assms(1)] assms(3) by auto
  have s1: "py_strip (v @ ''+'' @ build) = v @ ''+'' @ build"
    by (rule py_strip_clean [OF ns])
  have s2: "py_strip v = v" by (rule py_strip_clean [OF assms(3)])
  have p1: "partition_char CHR ''+'' (v @ ''+'' @ build) = (v, True, build)"
    using partition_char_append [OF assms(2)] by simp
  have p2: "partition_char CHR ''+'' v = (v, False, [])"
    by (rule partition_char_clean [OF assms(2)])
  show ?thesis
    unfolding key_of_def s1 s2 p1 p2 using assms(1) by (simp split: prod.splits)
qed

section \<open>Properties\<close>

text \<open>The version comparison is antisymmetric: swapping the two versions changes the sign of
  the answer, and an answer exists in one direction exactly when it exists in the other.\<close>

theorem compare_antisymmetric: "compare b a = map_option uminus (compare a b)"
  by (rule sv.cmp_swap)

text \<open>"newer" is transitive over SemVer versions, so the versions on offer can be ranked and
  no chain of upgrades leads back to where it started.\<close>

theorem is_newer_trans:
  assumes "is_newer a b = Some True" "is_newer b c = Some True"
  shows "is_newer a c = Some True"
proof -
  from assms obtain r s where "compare a b = Some r" "0 < r" "compare b c = Some s" "0 < s"
    by (auto simp: is_newer_def)
  from sv.newer_trans [OF this] show ?thesis by (auto simp: is_newer_def)
qed

theorem is_newer_trans_witness: "is_newer ''1.10.0'' ''1.9.0-rc.1'' = Some True"
proof -
  have "is_newer ''1.10.0'' ''1.9.0'' = Some True" by code_simp
  moreover have "is_newer ''1.9.0'' ''1.9.0-rc.1'' = Some True" by code_simp
  ultimately show ?thesis by (rule is_newer_trans)
qed

text \<open>A pre-release ranks below the release it precedes, whatever its identifiers are.\<close>

theorem prerelease_below_release:
  assumes "dotted_idents pre"
  shows "compare (triple_text a b c @ ''-'' @ pre) (triple_text a b c) = Some (- 1)"
  by (simp add: compare_def key_of_release key_of_prerelease [OF assms, simplified] compare_keys_def)

theorem prerelease_below_release_witness:
  "compare (triple_text 1 2 0 @ ''-'' @ ''rc.1'') (triple_text 1 2 0) = Some (- 1)"
proof -
  have "dotted_idents ''rc.1''" by code_simp
  then show ?thesis by (rule prerelease_below_release)
qed

text \<open>Build metadata takes no part in the precedence: with or without it a version compares
  the same to every other version.\<close>

theorem build_metadata_ignored:
  assumes "dotted_idents build" and "CHR ''+'' \<notin> set v" and "list_all (\<lambda>c. \<not> is_space c) v"
  shows "compare (v @ ''+'' @ build) w = compare v w"
  using key_of_build [OF assms(1,2)] assms(3) by (simp add: compare_def list_all_iff)

theorem build_metadata_ignored_witness:
  "compare (''1.2.3'' @ ''+'' @ ''build.7'') ''1.2.3'' = compare ''1.2.3'' ''1.2.3''"
proof -
  have "dotted_idents ''build.7''" by code_simp
  moreover have "CHR ''+'' \<notin> set ''1.2.3''" by simp
  moreover have "list_all (\<lambda>c. \<not> is_space c) ''1.2.3''" by code_simp
  ultimately show ?thesis by (rule build_metadata_ignored)
qed

end
