(* ===== verification/Audit_Log.thy ===== *)
theory Audit_Log
  imports Py_Prelude
begin

text \<open>
  The append-only audit log (\<open>src/src/app/core/audit.py\<close>): writing an entry, masking secrets,
  reading, filtering, paging, the guard of the CSV export and pruning.

  The log file is the list of its lines. \<open>json.loads\<close> is the argument \<open>loads\<close> (\<open>None\<close> for a line that
  is not JSON), \<open>json.dumps\<close> the argument \<open>dumps\<close>, and \<open>datetime.fromisoformat\<close> the argument \<open>fromiso\<close>
  (\<open>None\<close> for a text it refuses); nothing is assumed of them unless a theorem says so.
  The parameters of an entry are values that JSON can write: a tuple or an object, which \<open>redact_params\<close> returns as it is, is none of them here.
\<close>

section \<open>Data\<close>

record audit_entry =
  ae_ts :: string
  ae_user :: string
  ae_action :: string
  ae_target :: string
  ae_result :: string
  ae_params :: "pyval option"
  ae_job_id :: "string option"

record audit_filter =
  af_user :: "string option"
  af_action :: "string option"
  af_result :: "string option"
  af_target :: "string option"
  af_since :: "instant option"
  af_before :: "instant option"

record audit_page =
  ap_entries :: "audit_entry list"
  ap_total :: nat
  ap_corrupt_lines :: nat
  ap_facet_user :: "string list"
  ap_facet_action :: "string list"
  ap_facet_result :: "string list"

record prune_result =
  pr_removed :: nat
  pr_kept :: nat
  pr_oldest_removed :: "string option"
  pr_newest_removed :: "string option"

type_synonym log_lines = "string list"

section \<open>Writing\<close>

text \<open>The entry as the dictionary that is written: \<open>params\<close> and \<open>job_id\<close> only when they are given.\<close>

definition entry_document :: "audit_entry \<Rightarrow> pyval" where
  "entry_document e = PDict (
     [(''ts'', PStr (ae_ts e)), (''user'', PStr (ae_user e)), (''action'', PStr (ae_action e)),
      (''target'', PStr (ae_target e)), (''result'', PStr (ae_result e))]
     @ (case ae_params e of None \<Rightarrow> [] | Some p \<Rightarrow> [(''params'', p)])
     @ (case ae_job_id e of None \<Rightarrow> [] | Some j \<Rightarrow> [(''job_id'', PStr j)]))"

definition write_audit_entry :: "(pyval \<Rightarrow> string) \<Rightarrow> audit_entry \<Rightarrow> log_lines \<Rightarrow> log_lines" where
  "write_audit_entry dumps e log = log @ [dumps (entry_document e)]"

section \<open>Masking\<close>

definition secret_words :: "string list" where
  "secret_words =
     [''secret'', ''password'', ''passwd'', ''token'', ''apikey'', ''api_key'', ''api-key'',
      ''authorization'', ''credential'']"

definition is_secret_key :: "string \<Rightarrow> bool" where
  "is_secret_key k \<longleftrightarrow> list_ex (contains (py_lower k)) secret_words"

definition is_scheme_char :: "char \<Rightarrow> bool" where
  "is_scheme_char c \<longleftrightarrow> is_lower c \<or> is_upper c \<or> is_digit c \<or> c \<in> {CHR ''+'', CHR ''.'', CHR ''-''}"

definition is_userinfo_char :: "char \<Rightarrow> bool" where
  "is_userinfo_char c \<longleftrightarrow> c \<noteq> CHR ''/'' \<and> c \<noteq> CHR ''@''"

text \<open>\<open>_URL_USERINFO_RE.sub\<close>: the userinfo of a URL that starts the string.\<close>

definition mask_userinfo :: "string \<Rightarrow> string" where
  "mask_userinfo s =
     (let scheme = takeWhile is_scheme_char s; rest = dropWhile is_scheme_char s;
          tail = drop 3 rest;
          info = takeWhile is_userinfo_char tail; after = dropWhile is_userinfo_char tail
      in if scheme \<noteq> [] \<and> (is_lower (hd scheme) \<or> is_upper (hd scheme)) \<and> startswith rest ''://''
            \<and> info \<noteq> [] \<and> startswith after ''@''
         then scheme @ ''://***'' @ after else s)"

fun redact_params :: "pyval \<Rightarrow> pyval" where
  "redact_params (PDict d) =
     PDict (map (\<lambda>kv. (fst kv, if is_secret_key (fst kv) then PStr ''***'' else redact_params (snd kv))) d)"
| "redact_params (PList xs) = PList (map redact_params xs)"
| "redact_params (PStr s) = PStr (mask_userinfo s)"
| "redact_params PNone = PNone"
| "redact_params (PBool b) = PBool b"
| "redact_params (PInt i) = PInt i"
| "redact_params (PFloat r) = PFloat r"

section \<open>Reading\<close>

text \<open>\<open>_entry_from_line\<close>: \<open>None\<close> for a line that is not JSON, not a mapping, or lacks a field.\<close>

definition entry_from_value :: "pyval \<Rightarrow> audit_entry option" where
  "entry_from_value v =
     (case v of
        PDict d \<Rightarrow>
          (case (dict_get d ''ts'', dict_get d ''user'', dict_get d ''action'', dict_get d ''target'') of
             (Some ts, Some user, Some action, Some target) \<Rightarrow>
               Some \<lparr>ae_ts = py_str_of ts, ae_user = py_str_of user, ae_action = py_str_of action,
                 ae_target = py_str_of target,
                 ae_result = py_str_of (get_or d ''result'' (PStr ''ok'')),
                 ae_params = (if get_none d ''params'' \<noteq> PNone
                              then Some (redact_params (get_none d ''params'')) else None),
                 ae_job_id = (if get_none d ''job_id'' \<noteq> PNone
                              then Some (py_str_of (get_none d ''job_id'')) else None)\<rparr>
           | _ \<Rightarrow> None)
      | _ \<Rightarrow> None)"

definition entry_from_line :: "(string \<Rightarrow> pyval option) \<Rightarrow> string \<Rightarrow> audit_entry option" where
  "entry_from_line loads line = Option.bind (loads line) entry_from_value"

fun read_all :: "(string \<Rightarrow> pyval option) \<Rightarrow> log_lines \<Rightarrow> audit_entry list \<times> nat" where
  "read_all loads [] = ([], 0)"
| "read_all loads (l # ls) =
     (case read_all loads ls of (entries, corrupt) \<Rightarrow>
        if py_strip l = [] then (entries, corrupt)
        else (case entry_from_line loads (py_strip l) of
                None \<Rightarrow> (entries, Suc corrupt)
              | Some e \<Rightarrow> (e # entries, corrupt)))"

section \<open>Filtering\<close>

definition max_field_length :: nat where "max_field_length = 128"

definition clip_field :: "string option \<Rightarrow> string option" where
  "clip_field v = map_option (take max_field_length) v"

text \<open>
  \<open>parse_cutoff\<close>: \<open>day\<close> is \<open>datetime.strptime(value, "%Y-%m-%d")\<close>, as the start of that day in UTC.
\<close>

definition parse_cutoff ::
  "(string \<Rightarrow> instant option) \<Rightarrow> (string \<Rightarrow> iso_time option) \<Rightarrow> string \<Rightarrow> py_exn + instant" where
  "parse_cutoff day fromiso value =
     (case day value of
        Some t \<Rightarrow> Inr t
      | None \<Rightarrow>
          (case fromiso value of
             None \<Rightarrow> Inl ValueError
           | Some (Naive t) \<Rightarrow> Inr t
           | Some (Aware t) \<Rightarrow> Inr t))"

definition optional_cutoff ::
  "(string \<Rightarrow> instant option) \<Rightarrow> (string \<Rightarrow> iso_time option) \<Rightarrow> string option
    \<Rightarrow> py_exn + instant option" where
  "optional_cutoff day fromiso v =
     (case v of
        None \<Rightarrow> Inr None
      | Some s \<Rightarrow> if s = [] then Inr None else rbind (parse_cutoff day fromiso s) (\<lambda>t. Inr (Some t)))"

definition build_filter ::
  "(string \<Rightarrow> instant option) \<Rightarrow> (string \<Rightarrow> iso_time option) \<Rightarrow> string option \<Rightarrow> string option \<Rightarrow>
    string option \<Rightarrow> string option \<Rightarrow> string option \<Rightarrow> string option \<Rightarrow> py_exn + audit_filter" where
  "build_filter day fromiso user action result target since before =
     rbind (optional_cutoff day fromiso since) (\<lambda>s.
     rbind (optional_cutoff day fromiso before) (\<lambda>b.
       Inr \<lparr>af_user = clip_field user, af_action = clip_field action, af_result = clip_field result,
            af_target = clip_field target, af_since = s, af_before = b\<rparr>))"

text \<open>One substring filter: absent or empty lets everything through.\<close>

definition field_matches :: "string option \<Rightarrow> string \<Rightarrow> bool" where
  "field_matches f v \<longleftrightarrow>
     (case f of None \<Rightarrow> True | Some s \<Rightarrow> s = [] \<or> contains (py_lower v) (py_lower s))"

text \<open>
  \<open>_matches\<close>. Comparing a reading without a zone with an aware cutoff raises \<open>TypeError\<close>, which
  nothing here catches.
\<close>

definition in_window :: "audit_filter \<Rightarrow> iso_time option \<Rightarrow> py_exn + bool" where
  "in_window flt ts =
     (if af_since flt = None \<and> af_before flt = None then Inr True
      else (case ts of
              None \<Rightarrow> Inr False
            | Some (Naive _) \<Rightarrow> Inl TypeError
            | Some (Aware t) \<Rightarrow>
                Inr ((case af_since flt of None \<Rightarrow> True | Some s \<Rightarrow> s \<le> t)
                     \<and> (case af_before flt of None \<Rightarrow> True | Some b \<Rightarrow> t < b))))"

definition entry_matches ::
  "(string \<Rightarrow> iso_time option) \<Rightarrow> audit_filter \<Rightarrow> audit_entry \<Rightarrow> py_exn + bool" where
  "entry_matches fromiso flt e =
     (if \<not> field_matches (af_user flt) (ae_user e) then Inr False
      else if \<not> field_matches (af_action flt) (ae_action e) then Inr False
      else if \<not> field_matches (af_result flt) (ae_result e) then Inr False
      else if \<not> field_matches (af_target flt) (ae_target e) then Inr False
      else in_window flt (fromiso (ae_ts e)))"

fun matching ::
  "(string \<Rightarrow> iso_time option) \<Rightarrow> audit_filter \<Rightarrow> audit_entry list \<Rightarrow> py_exn + audit_entry list" where
  "matching fromiso flt [] = Inr []"
| "matching fromiso flt (e # es) =
     rbind (entry_matches fromiso flt e) (\<lambda>m. rbind (matching fromiso flt es) (\<lambda>r.
       Inr (if m then e # r else r)))"

definition iter_entries ::
  "(string \<Rightarrow> pyval option) \<Rightarrow> (string \<Rightarrow> iso_time option) \<Rightarrow> log_lines \<Rightarrow> audit_filter
    \<Rightarrow> py_exn + audit_entry list" where
  "iter_entries loads fromiso log flt =
     rbind (matching fromiso flt (fst (read_all loads log))) (\<lambda>es. Inr (sorted_desc ae_ts es))"

definition query_entries ::
  "(string \<Rightarrow> pyval option) \<Rightarrow> (string \<Rightarrow> iso_time option) \<Rightarrow> log_lines \<Rightarrow> audit_filter \<Rightarrow> nat \<Rightarrow> nat
    \<Rightarrow> py_exn + audit_page" where
  "query_entries loads fromiso log flt limit offset =
     (case read_all loads log of (all_entries, corrupt) \<Rightarrow>
      rbind (matching fromiso flt all_entries) (\<lambda>matched.
        Inr \<lparr>ap_entries = take limit (drop offset (sorted_desc ae_ts matched)),
             ap_total = length matched, ap_corrupt_lines = corrupt,
             ap_facet_user = sort (remdups (map ae_user all_entries)),
             ap_facet_action = sort (remdups (map ae_action all_entries)),
             ap_facet_result = sort (remdups (map ae_result all_entries))\<rparr>))"

section \<open>Exporting\<close>

definition csv_formula_prefixes :: "char list" where
  "csv_formula_prefixes = [CHR ''='', CHR ''+'', CHR ''-'', CHR ''@'', TAB, CR]"

definition csv_safe :: "string \<Rightarrow> string" where
  "csv_safe cell =
     (if list_ex (\<lambda>p. startswith cell [p]) csv_formula_prefixes then CHR 0x27 # cell else cell)"

section \<open>Pruning\<close>

text \<open>The time of a line, and its \<open>ts\<close> text; \<open>None\<close> for a corrupt line or an unreadable time.\<close>

definition line_time ::
  "(string \<Rightarrow> pyval option) \<Rightarrow> (string \<Rightarrow> iso_time option) \<Rightarrow> string \<Rightarrow> (iso_time \<times> string) option" where
  "line_time loads fromiso line =
     (case loads line of
        Some (PDict d) \<Rightarrow>
          (case dict_get d ''ts'' of
             None \<Rightarrow> None
           | Some v \<Rightarrow> map_option (\<lambda>t. (t, py_str_of v)) (fromiso (py_str_of v)))
      | _ \<Rightarrow> None)"

fun prune_scan ::
  "(string \<Rightarrow> pyval option) \<Rightarrow> (string \<Rightarrow> iso_time option) \<Rightarrow> instant \<Rightarrow> log_lines
    \<Rightarrow> py_exn + (string list \<times> string list)" where
  "prune_scan loads fromiso cutoff [] = Inr ([], [])"
| "prune_scan loads fromiso cutoff (l # ls) =
     (if py_strip l = [] then prune_scan loads fromiso cutoff ls
      else (case line_time loads fromiso l of
              Some (Naive _, _) \<Rightarrow> Inl TypeError
            | Some (Aware t, ts) \<Rightarrow>
                rbind (prune_scan loads fromiso cutoff ls) (\<lambda>(kept, removed).
                  Inr (if t < cutoff then (kept, ts # removed) else (l # kept, removed)))
            | None \<Rightarrow>
                rbind (prune_scan loads fromiso cutoff ls) (\<lambda>(kept, removed). Inr (l # kept, removed))))"

text \<open>The file is replaced only when something is removed and the run is not a rehearsal.\<close>

definition prune_before ::
  "(string \<Rightarrow> pyval option) \<Rightarrow> (string \<Rightarrow> iso_time option) \<Rightarrow> instant \<Rightarrow> bool \<Rightarrow> log_lines
    \<Rightarrow> py_exn + (log_lines \<times> prune_result)" where
  "prune_before loads fromiso cutoff dry_run log =
     rbind (prune_scan loads fromiso cutoff log) (\<lambda>(kept, removed).
       let res = \<lparr>pr_removed = length removed, pr_kept = length kept,
                  pr_oldest_removed = (if removed = [] then None else Some (Min (set removed))),
                  pr_newest_removed = (if removed = [] then None else Some (Max (set removed)))\<rparr>
       in Inr (if removed = [] \<or> dry_run then log else kept, res))"

section \<open>Lemmas: masking\<close>

lemma mask_marks:
  "\<not> is_scheme_char CHR '':''" "is_userinfo_char CHR ''*''" "\<not> is_userinfo_char CHR ''@''"
  by (simp_all add: is_scheme_char_def is_lower_def is_upper_def is_digit_def is_userinfo_char_def)

lemma mask_userinfo_masked:
  assumes scheme: "scheme \<noteq> []" "list_all is_scheme_char scheme"
    and head: "is_lower (hd scheme) \<or> is_upper (hd scheme)"
  shows "mask_userinfo (scheme @ ''://***@'' @ t) = scheme @ ''://***@'' @ t"
proof -
  let ?s = "scheme @ ''://***@'' @ t"
  have tw: "takeWhile is_scheme_char ?s = scheme" and dw: "dropWhile is_scheme_char ?s = ''://***@'' @ t"
    using scheme mask_marks(1) by (auto simp: list_all_iff)
  then show ?thesis
    using assms by (simp add: mask_userinfo_def mask_marks)
qed

lemma mask_userinfo_idem: "mask_userinfo (mask_userinfo s) = mask_userinfo s"
proof (cases "mask_userinfo s = s")
  case False
  let ?sch = "takeWhile is_scheme_char s"
  let ?tail = "drop 3 (dropWhile is_scheme_char s)"
  let ?after = "dropWhile is_userinfo_char ?tail"
  have "?sch \<noteq> [] \<and> (is_lower (hd ?sch) \<or> is_upper (hd ?sch)) \<and> startswith ?after ''@''
      \<and> mask_userinfo s = ?sch @ ''://***'' @ ?after"
    using False by (simp add: mask_userinfo_def Let_def split: if_splits)
  moreover from this obtain t where "?after = ''@'' @ t"
    by (auto simp: startswith_append)
  moreover have "list_all is_scheme_char ?sch"
    by (auto simp: list_all_iff dest: set_takeWhileD)
  ultimately show ?thesis
    using mask_userinfo_masked [of ?sch t] by simp
qed simp

text \<open>Every mapping inside a value, the value itself included.\<close>

fun subdicts :: "pyval \<Rightarrow> (string, pyval) dict list" where
  "subdicts (PDict d) = d # concat (map (\<lambda>kv. subdicts (snd kv)) d)"
| "subdicts (PList xs) = concat (map subdicts xs)"
| "subdicts _ = []"

lemma redact_params_masks:
  "d \<in> set (subdicts (redact_params v)) \<Longrightarrow> (k, x) \<in> set d \<Longrightarrow> is_secret_key k \<Longrightarrow> x = PStr ''***''"
  by (induction v arbitrary: d k x rule: redact_params.induct) (force split: if_splits)+

lemma mask_userinfo_stars: "mask_userinfo ''***'' = ''***''"
  by code_simp

lemma redact_params_idem: "redact_params (redact_params v) = redact_params v"
  by (induction v rule: redact_params.induct) (auto simp: mask_userinfo_idem)

section \<open>Lemmas: reading and pruning\<close>

lemma matching_filter:
  assumes "matching fromiso flt es = Inr ms"
  shows "ms = filter (\<lambda>e. entry_matches fromiso flt e = Inr True) es"
  using assms by (induction es arbitrary: ms) (auto simp: rbind_eq_Inr)

lemma matching_total:
  assumes "\<forall>e \<in> set es. \<forall>t. fromiso (ae_ts e) \<noteq> Some (Naive t)"
  shows "\<exists>ms. matching fromiso flt es = Inr ms"
  using assms
proof (induction es)
  case (Cons e es)
  then obtain r where "matching fromiso flt es = Inr r" by auto
  moreover have "\<exists>m. entry_matches fromiso flt e = Inr m"
    using Cons.prems by (auto simp: entry_matches_def in_window_def split: option.splits iso_time.splits)
  ultimately show ?case by auto
qed simp

definition older :: "(string \<Rightarrow> pyval option) \<Rightarrow> (string \<Rightarrow> iso_time option) \<Rightarrow> instant \<Rightarrow> string \<Rightarrow> bool" where
  "older loads fromiso cutoff l \<longleftrightarrow>
     (case line_time loads fromiso l of Some (Aware t, _) \<Rightarrow> t < cutoff | _ \<Rightarrow> False)"

definition zoneless :: "(string \<Rightarrow> pyval option) \<Rightarrow> (string \<Rightarrow> iso_time option) \<Rightarrow> string \<Rightarrow> bool" where
  "zoneless loads fromiso l \<longleftrightarrow>
     py_strip l \<noteq> [] \<and> (case line_time loads fromiso l of Some (Naive _, _) \<Rightarrow> True | _ \<Rightarrow> False)"

abbreviation nonblank :: "string \<Rightarrow> bool" where
  "nonblank l \<equiv> py_strip l \<noteq> []"

lemma older_cases:
  "line_time loads fromiso l = None \<Longrightarrow> \<not> older loads fromiso cutoff l"
  "line_time loads fromiso l = Some (Aware t, ts) \<Longrightarrow> older loads fromiso cutoff l \<longleftrightarrow> t < cutoff"
  by (simp_all add: older_def)

lemma line_time_zoned:
  assumes "\<not> zoneless loads fromiso l" "nonblank l"
  obtains "line_time loads fromiso l = None"
    | t ts where "line_time loads fromiso l = Some (Aware t, ts)"
  using assms by (auto simp: zoneless_def split: option.splits iso_time.splits)

lemma prune_scan_spec:
  assumes "\<forall>l \<in> set log. \<not> zoneless loads fromiso l"
  shows "\<exists>removed. prune_scan loads fromiso cutoff log =
      Inr (filter (\<lambda>l. nonblank l \<and> \<not> older loads fromiso cutoff l) log, removed)
    \<and> length removed = length (filter (\<lambda>l. nonblank l \<and> older loads fromiso cutoff l) log)"
  using assms
proof (induction log)
  case (Cons l ls)
  then obtain removed where IH: "prune_scan loads fromiso cutoff ls =
      Inr (filter (\<lambda>l. nonblank l \<and> \<not> older loads fromiso cutoff l) ls, removed)"
    "length removed = length (filter (\<lambda>l. nonblank l \<and> older loads fromiso cutoff l) ls)"
    by auto
  have zl: "\<not> zoneless loads fromiso l" using Cons.prems by simp
  show ?case
  proof (cases "nonblank l")
    case True
    from zl this show ?thesis
    proof (cases rule: line_time_zoned)
      case 1
      with IH True show ?thesis by (simp add: older_cases)
    next
      case (2 t ts)
      with IH True show ?thesis by (simp add: older_cases)
    qed
  next
    case False
    with IH show ?thesis by simp
  qed
qed simp

lemma prune_scan_zoneless:
  assumes "l \<in> set log" "zoneless loads fromiso l"
  shows "prune_scan loads fromiso cutoff log = Inl TypeError"
  using assms
proof (induction log)
  case (Cons a log)
  show ?case
  proof (cases "l = a")
    case True
    with Cons.prems(2) show ?thesis
      by (auto simp: zoneless_def split: option.splits iso_time.splits prod.splits)
  next
    case False
    with Cons have "prune_scan loads fromiso cutoff log = Inl TypeError" by simp
    then show ?thesis by (auto split: option.splits iso_time.splits prod.splits)
  qed
qed simp

section \<open>Properties\<close>

text \<open>C17: Masking is complete: in what \<open>redact_params\<close> returns, at any depth, the value under a key
  that looks like a credential is the mask and nothing else.\<close>

theorem redact_params_hides_secrets:
  assumes "d \<in> set (subdicts (redact_params v))" "(k, x) \<in> set d" "is_secret_key k"
  shows "x = PStr ''***''"
  using assms by (rule redact_params_masks)

theorem redact_params_hides_secrets_witness:
  "redact_params (PDict [(''Api_Key'', PInt 7)]) = PDict [(''Api_Key'', PStr ''***'')]
    \<and> (PStr ''***'' = PStr ''***'')"
proof -
  have red: "redact_params (PDict [(''Api_Key'', PInt 7)]) = PDict [(''Api_Key'', PStr ''***'')]"
    by code_simp
  have "PStr ''***'' = PStr ''***''"
  proof (rule redact_params_hides_secrets)
    show "[(''Api_Key'', PStr ''***'')] \<in> set (subdicts (redact_params (PDict [(''Api_Key'', PInt 7)])))"
      unfolding red by simp
    show "(''Api_Key'', PStr ''***'') \<in> set [(''Api_Key'', PStr ''***'')]" by simp
    show "is_secret_key ''Api_Key''" by code_simp
  qed
  with red show ?thesis by simp
qed

text \<open>Masking twice is masking once, so the second pass of the viewer changes nothing that the
  writer already masked.\<close>

theorem redact_params_idempotent: "redact_params (redact_params v) = redact_params v"
  by (rule redact_params_idem)

text \<open>Pruning a log whose readable times all carry a zone deletes exactly the entries strictly
  older than the cutoff; every other non-blank line, corrupt ones included, is kept, in order and
  byte for byte, and the two counts add up to the number of non-blank lines.\<close>

theorem prune_before_exact:
  assumes "\<forall>l \<in> set log. \<not> zoneless loads fromiso l"
    and "\<exists>l \<in> set log. nonblank l \<and> older loads fromiso cutoff l"
  shows "\<exists>res. prune_before loads fromiso cutoff False log =
      Inr (filter (\<lambda>l. nonblank l \<and> \<not> older loads fromiso cutoff l) log, res)
    \<and> pr_removed res + pr_kept res = length (filter nonblank log)"
proof -
  obtain removed where sc: "prune_scan loads fromiso cutoff log =
      Inr (filter (\<lambda>l. nonblank l \<and> \<not> older loads fromiso cutoff l) log, removed)"
    and len: "length removed = length (filter (\<lambda>l. nonblank l \<and> older loads fromiso cutoff l) log)"
    using prune_scan_spec [OF assms(1)] by blast
  have "removed \<noteq> []"
  proof
    assume "removed = []"
    with len have "filter (\<lambda>l. nonblank l \<and> older loads fromiso cutoff l) log = []" by simp
    with assms(2) show False by (auto simp: filter_empty_conv)
  qed
  moreover have "length (filter nonblank log) =
      length (filter (\<lambda>l. nonblank l \<and> older loads fromiso cutoff l) log)
    + length (filter (\<lambda>l. nonblank l \<and> \<not> older loads fromiso cutoff l) log)"
    by (induction log) auto
  ultimately show ?thesis
    using sc len by (simp add: prune_before_def Let_def)
qed

definition demo_loads :: "string \<Rightarrow> pyval option" where
  "demo_loads l =
     (if l = [] then None
      else Some (PDict [(''ts'', PStr l), (''user'', PStr ''u''), (''action'', PStr ''a''),
                        (''target'', PStr ''t'')]))"

definition demo_iso :: "string \<Rightarrow> iso_time option" where
  "demo_iso s = (if str_isdigit s then Some (Aware (int (int_of_digits s)))
     else if s = ''naive'' then Some (Naive 0) else None)"

theorem prune_before_exact_witness:
  "\<exists>res. prune_before demo_loads demo_iso 100 False [''7'', ''junk'', ''100''] =
      Inr (filter (\<lambda>l. nonblank l \<and> \<not> older demo_loads demo_iso 100 l) [''7'', ''junk'', ''100''], res)
    \<and> pr_removed res + pr_kept res = length (filter nonblank [''7'', ''junk'', ''100''])"
proof (rule prune_before_exact)
  show "\<forall>l \<in> set [''7'', ''junk'', ''100'']. \<not> zoneless demo_loads demo_iso l" by code_simp
  show "\<exists>l \<in> set [''7'', ''junk'', ''100'']. nonblank l \<and> older demo_loads demo_iso 100 l" by code_simp
qed

text \<open>A rehearsal, and a run that finds nothing to remove, leave the log as it is.\<close>

theorem prune_before_untouched:
  assumes "prune_before loads fromiso cutoff dry_run log = Inr (log', res)"
    and "dry_run \<or> pr_removed res = 0"
  shows "log' = log"
  using assms by (auto simp: prune_before_def rbind_eq_Inr Let_def split: prod.splits if_splits)

theorem prune_before_untouched_witness:
  "prune_before demo_loads demo_iso 100 True [''7''] =
     Inr ([''7''], \<lparr>pr_removed = 1, pr_kept = 0, pr_oldest_removed = Some ''7'',
       pr_newest_removed = Some ''7''\<rparr>) \<and> [''7''] = [''7'']"
proof -
  have run: "prune_before demo_loads demo_iso 100 True [''7''] =
     Inr ([''7''], \<lparr>pr_removed = 1, pr_kept = 0, pr_oldest_removed = Some ''7'',
       pr_newest_removed = Some ''7''\<rparr>)"
    by code_simp
  from prune_before_untouched [OF run] run show ?thesis by simp
qed

text \<open>One line whose time carries no zone makes pruning raise \<open>TypeError\<close>, wherever the line
  stands and whatever the cutoff is: such a line is neither kept nor removed, it stops the run.\<close>

theorem prune_before_zoneless_raises:
  assumes "l \<in> set log" "zoneless loads fromiso l"
  shows "prune_before loads fromiso cutoff dry_run log = Inl TypeError"
  using prune_scan_zoneless [OF assms] by (simp add: prune_before_def)

theorem prune_before_zoneless_raises_witness:
  "prune_before demo_loads demo_iso 100 True [''7'', ''naive''] = Inl TypeError"
proof (rule prune_before_zoneless_raises)
  show "''naive'' \<in> set [''7'', ''naive'']" by simp
  show "zoneless demo_loads demo_iso ''naive''" by code_simp
qed

text \<open>Paging loses and repeats nothing: a page of \<open>m\<close> entries followed by the page that starts
  \<open>m\<close> further on is the page of twice the reach, and the total is the number of matching entries.\<close>

theorem query_entries_paging:
  assumes "query_entries loads fromiso log flt m i = Inr p"
    and "query_entries loads fromiso log flt n (i + m) = Inr q"
  shows "\<exists>r. query_entries loads fromiso log flt (m + n) i = Inr r
    \<and> ap_entries r = ap_entries p @ ap_entries q \<and> ap_total r = ap_total p"
proof -
  obtain es c where rd: "read_all loads log = (es, c)" by (cases "read_all loads log")
  from assms(1) rd obtain ms where ms: "matching fromiso flt es = Inr ms"
    by (auto simp: query_entries_def rbind_eq_Inr)
  let ?s = "sorted_desc ae_ts ms"
  have "take (m + n) (drop i ?s) = take m (drop i ?s) @ take n (drop (i + m) ?s)"
    by (simp add: take_add add.commute)
  with assms rd ms show ?thesis by (auto simp: query_entries_def)
qed

definition demo_filter :: audit_filter where
  "demo_filter = \<lparr>af_user = None, af_action = None, af_result = None, af_target = None,
     af_since = Some 1, af_before = None\<rparr>"

definition demo_entry :: "string \<Rightarrow> audit_entry" where
  "demo_entry ts = \<lparr>ae_ts = ts, ae_user = ''u'', ae_action = ''a'', ae_target = ''t'',
     ae_result = ''ok'', ae_params = None, ae_job_id = None\<rparr>"

definition demo_page :: "audit_entry list \<Rightarrow> audit_page" where
  "demo_page es = \<lparr>ap_entries = es, ap_total = 2, ap_corrupt_lines = 0, ap_facet_user = [''u''],
     ap_facet_action = [''a''], ap_facet_result = [''ok'']\<rparr>"

theorem query_entries_paging_witness:
  "\<exists>r. query_entries demo_loads demo_iso [''2'', ''0'', ''3''] demo_filter (1 + 1) 0 = Inr r
    \<and> ap_entries r = [demo_entry ''3''] @ [demo_entry ''2''] \<and> ap_total r = 2"
proof -
  have p: "query_entries demo_loads demo_iso [''2'', ''0'', ''3''] demo_filter 1 0 =
      Inr (demo_page [demo_entry ''3''])"
    by code_simp
  have q: "query_entries demo_loads demo_iso [''2'', ''0'', ''3''] demo_filter 1 (0 + 1) =
      Inr (demo_page [demo_entry ''2''])"
    by code_simp
  from query_entries_paging [OF p q] show ?thesis by (simp add: demo_page_def)
qed

text \<open>No exported cell starts with a character a spreadsheet reads as the start of a formula.\<close>

theorem csv_safe_no_formula: "\<not> list_ex (\<lambda>p. startswith (csv_safe cell) [p]) csv_formula_prefixes"
  by (simp add: csv_safe_def csv_formula_prefixes_def)

end
