(* ===== verification/Catalogs.thy ===== *)
theory Catalogs
  imports Semver Audit_Log
begin

text \<open>
  The add-on catalogues: the registry \<open>catalogs.yaml\<close> with its checks and its two encodings
  (\<open>src/src/app/core/catalogs.py\<close>), the routes that change it (\<open>src/src/app/routers/api_catalogs.py\<close>)
  and the resolution of add-ons across catalogues (\<open>src/src/app/core/resolve.py\<close>).

  What a catalogue directory holds is the argument \<open>scan\<close> (the add-on directories with their decoded
  manifests, in the order \<open>scan_catalog_addons\<close> lists them), and \<open>Path.resolve\<close> is the argument
  \<open>resolve_path\<close>: both depend on the file system.
\<close>

section \<open>The registry\<close>

datatype catalog_type = Git | Local

record catalog_auth =
  ca_token_env :: string
  ca_username :: string

record catalog =
  c_name :: string
  c_type :: catalog_type
  c_enabled :: bool
  c_url :: "string option"
  c_ref :: string
  c_auth :: "catalog_auth option"
  c_path :: "string option"

record registry =
  r_version :: int
  r_catalogs :: "catalog list"

definition is_slug_head :: "char \<Rightarrow> bool" where
  "is_slug_head c \<longleftrightarrow> is_lower c \<or> is_digit c"

definition is_slug_char :: "char \<Rightarrow> bool" where
  "is_slug_char c \<longleftrightarrow> is_lower c \<or> is_digit c \<or> c = CHR ''-''"

text \<open>\<open>[a-z0-9][a-z0-9-]{0,31}\<close>\<close>

definition slug_body :: "string \<Rightarrow> bool" where
  "slug_body s \<longleftrightarrow>
     (case s of [] \<Rightarrow> False | c # cs \<Rightarrow> is_slug_head c \<and> list_all is_slug_char cs \<and> length cs \<le> 31)"

definition validate_catalog_name :: "string \<Rightarrow> bool" where
  "validate_catalog_name name \<longleftrightarrow> match_dollar slug_body name"

definition validate_catalog_url :: "string \<Rightarrow> bool" where
  "validate_catalog_url url \<longleftrightarrow> startswith url ''https://''"

definition is_ref_char :: "char \<Rightarrow> bool" where
  "is_ref_char c \<longleftrightarrow> is_lower c \<or> is_upper c \<or> is_digit c \<or> c \<in> {CHR ''.'', CHR ''_'', CHR ''/'', CHR ''-''}"

definition validate_ref :: "string \<Rightarrow> bool" where
  "validate_ref ref \<longleftrightarrow>
     match_dollar (\<lambda>s. s \<noteq> [] \<and> length s \<le> 100 \<and> list_all is_ref_char s) ref"

text \<open>The check compares the two resolved paths as text.\<close>

definition validate_local_path :: "(string \<Rightarrow> string) \<Rightarrow> string \<Rightarrow> string \<Rightarrow> bool" where
  "validate_local_path resolve_path path workspace_dir \<longleftrightarrow>
     startswith (resolve_path path) (resolve_path workspace_dir)"

definition catalog_clone_path :: "string \<Rightarrow> string \<Rightarrow> string" where
  "catalog_clone_path workspace_dir name =
     path_join (path_join (path_join workspace_dir ''addons'') ''_catalogs'') name"

definition catalog_scan_path :: "catalog \<Rightarrow> string \<Rightarrow> string" where
  "catalog_scan_path c workspace_dir =
     (case c_path c of
        Some p \<Rightarrow> if c_type c = Local \<and> p \<noteq> [] then path_of p else catalog_clone_path workspace_dir (c_name c)
      | None \<Rightarrow> catalog_clone_path workspace_dir (c_name c))"

section \<open>The file\<close>

definition type_name :: "catalog_type \<Rightarrow> string" where
  "type_name t = (case t of Git \<Rightarrow> ''git'' | Local \<Rightarrow> ''local'')"

definition optional_str :: "string option \<Rightarrow> pyval" where
  "optional_str v = (case v of None \<Rightarrow> PNone | Some s \<Rightarrow> PStr s)"

definition catalog_to_dict :: "catalog \<Rightarrow> pyval" where
  "catalog_to_dict c = PDict (
     [(''name'', PStr (c_name c)), (''type'', PStr (type_name (c_type c))), (''enabled'', PBool (c_enabled c))]
     @ (if c_type c = Git then
          [(''url'', optional_str (c_url c)), (''ref'', PStr (c_ref c))]
          @ (case c_auth c of
               None \<Rightarrow> []
             | Some a \<Rightarrow> [(''auth'', PDict [(''token_env'', PStr (ca_token_env a)),
                                       (''username'', PStr (ca_username a))])])
        else [(''path'', optional_str (c_path c))]))"

definition registry_to_dict :: "registry \<Rightarrow> pyval" where
  "registry_to_dict r =
     PDict [(''version'', PInt (r_version r)), (''catalogs'', PList (map catalog_to_dict (r_catalogs r)))]"

text \<open>
  Reading back. A \<open>type\<close>, \<open>url\<close> or \<open>path\<close> is taken over unchecked by the source; the model covers
  the two types and text or nothing, and gives \<open>None\<close> (out of the model) for anything else.
\<close>

definition as_type :: "pyval \<Rightarrow> catalog_type option" where
  "as_type v = (if v = PStr ''git'' then Some Git else if v = PStr ''local'' then Some Local else None)"

definition as_optional_str :: "pyval \<Rightarrow> string option option" where
  "as_optional_str v = (case v of PNone \<Rightarrow> Some None | PStr s \<Rightarrow> Some (Some s) | _ \<Rightarrow> None)"

definition auth_from_dict :: "pyval \<Rightarrow> catalog_auth option option" where
  "auth_from_dict v =
     (if \<not> truthy v then Some None
      else (case v of
              PDict a \<Rightarrow>
                (case dict_get a ''token_env'' of
                   None \<Rightarrow> None
                 | Some t \<Rightarrow> Some (Some \<lparr>ca_token_env = py_str_of t,
                     ca_username = py_str_of (get_or a ''username'' (PStr ''x-access-token''))\<rparr>))
            | _ \<Rightarrow> None))"

definition catalog_from_dict :: "pyval \<Rightarrow> catalog option" where
  "catalog_from_dict v =
     (case v of
        PDict d \<Rightarrow>
          (case (auth_from_dict (get_none d ''auth''), dict_get d ''name'',
                 as_type (get_or d ''type'' (PStr ''git'')), as_optional_str (get_none d ''url''),
                 as_optional_str (get_none d ''path'')) of
             (Some auth, Some name, Some ty, Some url, Some path) \<Rightarrow>
               Some \<lparr>c_name = py_str_of name, c_type = ty,
                 c_enabled = truthy (get_or d ''enabled'' (PBool True)), c_url = url,
                 c_ref = py_str_of (get_or d ''ref'' (PStr ''main'')), c_auth = auth, c_path = path\<rparr>
           | _ \<Rightarrow> None)
      | _ \<Rightarrow> None)"

text \<open>What the two encodings keep: a git catalogue has no path, a local one nothing but a path.\<close>

definition storable :: "catalog \<Rightarrow> bool" where
  "storable c \<longleftrightarrow>
     (case c_type c of
        Git \<Rightarrow> c_path c = None
      | Local \<Rightarrow> c_url c = None \<and> c_ref c = ''main'' \<and> c_auth c = None)"

section \<open>The routes\<close>

datatype http_error = HTTP nat

record cat_state =
  cs_registry :: registry
  cs_audit :: "audit_entry list"

record catalog_create =
  cc_name :: string
  cc_type :: catalog_type
  cc_url :: "string option"
  cc_path :: "string option"
  cc_ref :: string
  cc_enabled :: bool

record catalog_update =
  cu_url :: "string option"
  cu_ref :: "string option"
  cu_enabled :: "bool option"
  cu_path :: "string option"

definition cat_audit :: "string \<Rightarrow> string \<Rightarrow> string \<Rightarrow> string \<Rightarrow> pyval option \<Rightarrow> audit_entry" where
  "cat_audit ts user action target params =
     \<lparr>ae_ts = ts, ae_user = user, ae_action = action, ae_target = target, ae_result = ''ok'',
      ae_params = params, ae_job_id = None\<rparr>"

text \<open>
  A refused value is \<open>HTTP 422\<close> for the name (a field validator) and \<open>HTTP 400\<close> for a missing field;
  a \<open>ValueError\<close> of the other checks is not an \<open>HTTPException\<close> and leaves the route as a server
  error, \<open>HTTP 500\<close>.
\<close>

definition check_create_fields ::
  "(string \<Rightarrow> string) \<Rightarrow> string \<Rightarrow> catalog_create \<Rightarrow> http_error + unit" where
  "check_create_fields resolve_path workspace_dir body =
     (if \<not> validate_catalog_name (cc_name body) then Inl (HTTP 422)
      else case cc_type body of
        Git \<Rightarrow>
          (case cc_url body of
             None \<Rightarrow> Inl (HTTP 400)
           | Some u \<Rightarrow> if u = [] then Inl (HTTP 400)
               else if \<not> validate_catalog_url u \<or> \<not> validate_ref (cc_ref body) then Inl (HTTP 500)
               else Inr ())
      | Local \<Rightarrow>
          (case cc_path body of
             None \<Rightarrow> Inl (HTTP 400)
           | Some p \<Rightarrow> if p = [] then Inl (HTTP 400)
               else if \<not> validate_local_path resolve_path p workspace_dir then Inl (HTTP 500)
               else Inr ()))"

definition create_catalog ::
  "(string \<Rightarrow> string) \<Rightarrow> string \<Rightarrow> string \<Rightarrow> string \<Rightarrow> catalog_create \<Rightarrow> cat_state
    \<Rightarrow> http_error + (cat_state \<times> catalog)" where
  "create_catalog resolve_path workspace_dir ts user body st =
     rbind (check_create_fields resolve_path workspace_dir body) (\<lambda>_.
       if \<exists>c \<in> set (r_catalogs (cs_registry st)). c_name c = cc_name body then Inl (HTTP 409)
       else
         let c = \<lparr>c_name = cc_name body, c_type = cc_type body, c_enabled = cc_enabled body,
                  c_url = cc_url body, c_ref = cc_ref body, c_auth = None, c_path = cc_path body\<rparr>;
             params = PDict [(''type'', PStr (type_name (cc_type body))), (''url'', optional_str (cc_url body)),
                             (''ref'', PStr (cc_ref body)), (''enabled'', PBool (cc_enabled body)),
                             (''path'', optional_str (cc_path body))]
         in Inr (st\<lparr>cs_registry := (cs_registry st)\<lparr>r_catalogs := r_catalogs (cs_registry st) @ [c]\<rparr>,
                    cs_audit := cs_audit st @
                      [cat_audit ts user ''catalog-create'' (cc_name body) (Some (redact_params params))]\<rparr>, c))"

text \<open>The checks of \<open>update_catalog\<close> run before anything is stored, in the order of the fields.\<close>

definition apply_update ::
  "(string \<Rightarrow> string) \<Rightarrow> string \<Rightarrow> catalog_update \<Rightarrow> catalog \<Rightarrow> http_error + catalog" where
  "apply_update resolve_path workspace_dir body c =
     rbind (case cu_url body of
              None \<Rightarrow> Inr c
            | Some u \<Rightarrow> if validate_catalog_url u then Inr (c\<lparr>c_url := Some u\<rparr>) else Inl (HTTP 500)) (\<lambda>c.
     rbind (case cu_ref body of
              None \<Rightarrow> Inr c
            | Some r \<Rightarrow> if validate_ref r then Inr (c\<lparr>c_ref := r\<rparr>) else Inl (HTTP 500)) (\<lambda>c.
     rbind (case cu_enabled body of None \<Rightarrow> Inr c | Some b \<Rightarrow> Inr (c\<lparr>c_enabled := b\<rparr>)) (\<lambda>c.
       case cu_path body of
         None \<Rightarrow> Inr c
       | Some p \<Rightarrow> if validate_local_path resolve_path p workspace_dir then Inr (c\<lparr>c_path := Some p\<rparr>)
           else Inl (HTTP 500))))"

definition changed_params :: "catalog_update \<Rightarrow> pyval" where
  "changed_params body = PDict (
     (case cu_url body of None \<Rightarrow> [] | Some u \<Rightarrow> [(''url'', PStr u)])
     @ (case cu_ref body of None \<Rightarrow> [] | Some r \<Rightarrow> [(''ref'', PStr r)])
     @ (case cu_enabled body of None \<Rightarrow> [] | Some b \<Rightarrow> [(''enabled'', PBool b)])
     @ (case cu_path body of None \<Rightarrow> [] | Some p \<Rightarrow> [(''path'', PStr p)]))"

text \<open>The first catalogue with the name is changed in place.\<close>

fun replace_first :: "string \<Rightarrow> catalog \<Rightarrow> catalog list \<Rightarrow> catalog list" where
  "replace_first name c [] = []"
| "replace_first name c (x # xs) = (if c_name x = name then c # xs else x # replace_first name c xs)"

definition update_catalog ::
  "(string \<Rightarrow> string) \<Rightarrow> string \<Rightarrow> string \<Rightarrow> string \<Rightarrow> string \<Rightarrow> catalog_update \<Rightarrow> cat_state
    \<Rightarrow> http_error + (cat_state \<times> catalog)" where
  "update_catalog resolve_path workspace_dir ts user name body st =
     (case find_first (\<lambda>c. c_name c = name) (r_catalogs (cs_registry st)) of
        None \<Rightarrow> Inl (HTTP 404)
      | Some c \<Rightarrow>
          rbind (apply_update resolve_path workspace_dir body c) (\<lambda>c'.
            Inr (st\<lparr>cs_registry := (cs_registry st)\<lparr>r_catalogs :=
                      replace_first name c' (r_catalogs (cs_registry st))\<rparr>,
                    cs_audit := cs_audit st @
                      [cat_audit ts user ''catalog-update'' name (Some (redact_params (changed_params body)))]\<rparr>,
                 c')))"

definition delete_catalog :: "string \<Rightarrow> string \<Rightarrow> string \<Rightarrow> cat_state \<Rightarrow> http_error + cat_state" where
  "delete_catalog ts user name st =
     (let rest = filter (\<lambda>c. c_name c \<noteq> name) (r_catalogs (cs_registry st))
      in if length rest = length (r_catalogs (cs_registry st)) then Inl (HTTP 404)
         else Inr (st\<lparr>cs_registry := (cs_registry st)\<lparr>r_catalogs := rest\<rparr>,
                      cs_audit := cs_audit st @ [cat_audit ts user ''catalog-delete'' name None]\<rparr>))"

section \<open>Resolution across catalogues\<close>

type_synonym manifest = "(string, pyval) dict"

record installed_addon =
  ia_catalog :: string
  ia_manifest_version :: string
  ia_managed :: bool

record resolved_addon =
  ra_key :: string
  ra_name :: string
  ra_catalog :: string
  ra_manifest :: manifest
  ra_clone :: string
  ra_shadowed_by :: "string list"
  ra_is_variant :: bool

record addon_update =
  au_name :: string
  au_installed :: string
  au_available :: string
  au_catalog :: string

text \<open>
  \<open>update_available\<close>. A version that is not SemVer falls back to \<open>!=\<close> between the recorded text and
  the value of the manifest, which are of different types unless the manifest's is a text too.
\<close>

definition update_available :: "installed_addon option \<Rightarrow> pyval \<Rightarrow> bool" where
  "update_available installed catalog_version =
     (case installed of
        None \<Rightarrow> False
      | Some i \<Rightarrow>
          if \<not> ia_managed i \<or> catalog_version = PNone then False
          else (case is_newer (py_str_of catalog_version) (ia_manifest_version i) of
                  Some newer \<Rightarrow> newer
                | None \<Rightarrow> PStr (ia_manifest_version i) \<noteq> catalog_version))"

type_synonym hit = "catalog \<times> manifest \<times> string"
type_synonym hits = "(string, (string, hit list) dict) dict"

definition manifest_version :: "manifest \<Rightarrow> string" where
  "manifest_version m = py_str_of (py_or (get_none m ''version'') (PStr ''unknown''))"

definition dict_get_list :: "('k, 'a list) dict \<Rightarrow> 'k \<Rightarrow> 'a list" where
  "dict_get_list d k = (case dict_get d k of None \<Rightarrow> [] | Some l \<Rightarrow> l)"

text \<open>\<open>hits.setdefault(name, {}).setdefault(version, []).append(hit)\<close>\<close>

definition add_hit :: "hits \<Rightarrow> string \<times> string \<times> hit \<Rightarrow> hits" where
  "add_hit hits nvh =
     (case nvh of (name, version, hit) \<Rightarrow>
        let by_version = dict_get_list hits name
        in dict_set hits name (dict_set by_version version (dict_get_list by_version version @ [hit])))"

text \<open>
  A hit of the scan: a manifest that YAML reads as a list or a text is passed on by \<open>scan_catalog_addons\<close>, and \<open>manifest.get\<close>
  raises on it.
\<close>

definition manifest_hit :: "string \<Rightarrow> catalog \<times> string \<times> pyval \<Rightarrow> py_exn + (string \<times> string \<times> hit)" where
  "manifest_hit workspace_dir = (\<lambda>(c, name, manifest).
     case manifest of
       PDict m \<Rightarrow> Inr (name, manifest_version m, (c, m, catalog_scan_path c workspace_dir))
     | _ \<Rightarrow> Inl AttributeError)"

definition scanned ::
  "(catalog \<Rightarrow> (string \<times> pyval) list) \<Rightarrow> string \<Rightarrow> registry \<Rightarrow> py_exn + (string \<times> string \<times> hit) list" where
  "scanned scan workspace_dir reg =
     rmap (manifest_hit workspace_dir) (concat (map (\<lambda>c. map (Pair c) (scan c)) (filter c_enabled (r_catalogs reg))))"

definition collect_hits :: "(string \<times> string \<times> hit) list \<Rightarrow> hits" where
  "collect_hits l = foldl add_hit [] l"

text \<open>The first group that holds the catalogue the add-on was installed from, or the first group.\<close>

fun index_of :: "('a \<Rightarrow> bool) \<Rightarrow> 'a list \<Rightarrow> nat option" where
  "index_of p [] = None"
| "index_of p (x # xs) = (if p x then Some 0 else map_option Suc (index_of p xs))"

definition from_catalog :: "string \<Rightarrow> hit \<Rightarrow> bool" where
  "from_catalog name h \<longleftrightarrow> c_name (fst h) = name"

definition primary_index :: "installed_addon option \<Rightarrow> (string \<times> hit list) list \<Rightarrow> nat" where
  "primary_index installed groups =
     (case installed of
        None \<Rightarrow> 0
      | Some i \<Rightarrow>
          (case index_of (\<lambda>g. list_ex (from_catalog (ia_catalog i)) (snd g)) groups of
             None \<Rightarrow> 0 | Some k \<Rightarrow> k))"

definition promote :: "nat \<Rightarrow> 'a list \<Rightarrow> 'a list" where
  "promote k xs = (if k < length xs then xs ! k # take k xs @ drop (Suc k) xs else xs)"

definition resolved_entry :: "string \<Rightarrow> bool \<Rightarrow> hit list \<Rightarrow> resolved_addon list" where
  "resolved_entry name is_variant entries =
     (case entries of
        [] \<Rightarrow> []
      | (c, m, clone) # rest \<Rightarrow>
          [\<lparr>ra_key = (if is_variant then name @ ''@'' @ c_name c else name), ra_name = name,
            ra_catalog = c_name c, ra_manifest = m, ra_clone = clone,
            ra_shadowed_by = map (\<lambda>h. c_name (fst h)) rest, ra_is_variant = is_variant\<rparr>])"

definition resolve_name ::
  "(string \<rightharpoonup> installed_addon) \<Rightarrow> string \<times> (string, hit list) dict \<Rightarrow> resolved_addon list" where
  "resolve_name installed_map nb =
     (case promote (primary_index (installed_map (fst nb)) (snd nb)) (snd nb) of
        [] \<Rightarrow> []
      | g # gs \<Rightarrow> resolved_entry (fst nb) False (snd g)
                  @ concat (map (\<lambda>h. resolved_entry (fst nb) True (snd h)) gs))"

definition resolve_catalog_addons ::
  "(catalog \<Rightarrow> (string \<times> pyval) list) \<Rightarrow> string \<Rightarrow> registry \<Rightarrow> (string \<rightharpoonup> installed_addon)
    \<Rightarrow> py_exn + resolved_addon list" where
  "resolve_catalog_addons scan workspace_dir reg installed_map =
     rbind (scanned scan workspace_dir reg) (\<lambda>l. Inr (concat (map (resolve_name installed_map) (collect_hits l))))"

definition outdated_entry :: "(string \<rightharpoonup> installed_addon) \<Rightarrow> resolved_addon \<Rightarrow> addon_update list" where
  "outdated_entry installed_map r =
     (case installed_map (ra_name r) of
        None \<Rightarrow> []
      | Some i \<Rightarrow>
          if ra_is_variant r \<and> ia_catalog i \<noteq> ra_catalog r then []
          else if update_available (Some i) (get_none (ra_manifest r) ''version'') then
            [\<lparr>au_name = ra_name r, au_installed = ia_manifest_version i,
              au_available = py_str_of (get_none (ra_manifest r) ''version''),
              au_catalog = ra_catalog r\<rparr>]
          else [])"

definition outdated_addons ::
  "(catalog \<Rightarrow> (string \<times> pyval) list) \<Rightarrow> string \<Rightarrow> registry \<Rightarrow> (string \<rightharpoonup> installed_addon)
    \<Rightarrow> py_exn + addon_update list" where
  "outdated_addons scan workspace_dir reg installed_map =
     rbind (resolve_catalog_addons scan workspace_dir reg installed_map) (\<lambda>found.
       Inr (concat (map (outdated_entry installed_map) found)))"

section \<open>Lemmas: the registry\<close>

lemma optional_str_back [simp]: "as_optional_str (optional_str v) = Some v"
  by (cases v) (simp_all add: optional_str_def as_optional_str_def)

lemma as_type_back [simp]: "as_type (PStr (type_name t)) = Some t"
  by (cases t) (simp_all add: as_type_def type_name_def)

lemma auth_back:
  "auth_from_dict (PDict [(''token_env'', PStr (ca_token_env a)), (''username'', PStr (ca_username a))])
    = Some (Some a)"
  by (simp add: auth_from_dict_def dict_get_def get_or_def py_str_of_def)

lemmas dict_lookup = dict_get_def get_or_def py_str_of_def

lemma catalog_back_git:
  assumes "c_type c = Git" "c_path c = None"
  shows "catalog_from_dict (catalog_to_dict c) = Some c"
proof (cases "c_auth c")
  case None
  with assms show ?thesis
    by (simp add: catalog_from_dict_def catalog_to_dict_def dict_lookup auth_from_dict_def
        as_optional_str_def optional_str_def [of None] type_name_def as_type_def
        optional_str_back [unfolded as_optional_str_def] split: option.splits)
next
  case (Some a)
  with assms auth_back [of a] show ?thesis
    by (simp add: catalog_from_dict_def catalog_to_dict_def dict_lookup
        as_optional_str_def type_name_def as_type_def
        optional_str_back [unfolded as_optional_str_def])
qed

lemma catalog_back_local:
  assumes "c_type c = Local" "c_url c = None" "c_ref c = ''main''" "c_auth c = None"
  shows "catalog_from_dict (catalog_to_dict c) = Some c"
  using assms
  by (simp add: catalog_from_dict_def catalog_to_dict_def dict_lookup auth_from_dict_def
      type_name_def as_type_def as_optional_str_def optional_str_back [unfolded as_optional_str_def])

lemma apply_update_name: "apply_update rp ws body c = Inr c' \<Longrightarrow> c_name c' = c_name c"
  by (auto simp: apply_update_def rbind_eq_Inr split: option.splits if_splits)

lemma replace_first_names:
  "c_name c = name \<Longrightarrow> map c_name (replace_first name c cs) = map c_name cs"
  by (induction cs) auto

text \<open>The routes as one step relation, and the invariant: no two catalogues share a name.\<close>

inductive cat_step :: "cat_state \<Rightarrow> cat_state \<Rightarrow> bool" where
  created: "create_catalog rp ws ts user body st = Inr (st', c) \<Longrightarrow> cat_step st st'"
| updated: "update_catalog rp ws ts user name up st = Inr (st', c) \<Longrightarrow> cat_step st st'"
| deleted: "delete_catalog ts user name st = Inr st' \<Longrightarrow> cat_step st st'"

definition names_distinct :: "cat_state \<Rightarrow> bool" where
  "names_distinct st \<longleftrightarrow> distinct (map c_name (r_catalogs (cs_registry st)))"

lemma create_catalog_names:
  "create_catalog rp ws ts user body st = Inr (st', c) \<Longrightarrow>
     c_name c \<notin> c_name ` set (r_catalogs (cs_registry st))
     \<and> r_catalogs (cs_registry st') = r_catalogs (cs_registry st) @ [c]"
  by (auto simp: create_catalog_def rbind_eq_Inr Let_def split: if_splits)

lemma update_catalog_names:
  assumes "update_catalog rp ws ts user name body st = Inr (st', c)"
  shows "map c_name (r_catalogs (cs_registry st')) = map c_name (r_catalogs (cs_registry st))"
proof -
  from assms obtain c0 where c0: "find_first (\<lambda>c. c_name c = name) (r_catalogs (cs_registry st)) = Some c0"
    and up: "apply_update rp ws body c0 = Inr c"
    and st': "r_catalogs (cs_registry st') = replace_first name c (r_catalogs (cs_registry st))"
    by (auto simp: update_catalog_def rbind_eq_Inr split: option.splits)
  from c0 have "c_name c0 = name" by (auto simp: find_first_def find_Some_iff)
  with up have "c_name c = name" using apply_update_name by simp
  with st' show ?thesis by (simp add: replace_first_names)
qed

lemma delete_catalog_names:
  "delete_catalog ts user name st = Inr st' \<Longrightarrow>
     r_catalogs (cs_registry st') = filter (\<lambda>c. c_name c \<noteq> name) (r_catalogs (cs_registry st))"
  by (auto simp: delete_catalog_def Let_def split: if_splits)

lemma cat_step_names: "cat_step st st' \<Longrightarrow> names_distinct st \<Longrightarrow> names_distinct st'"
proof (induction rule: cat_step.induct)
  case created
  then show ?case by (auto dest!: create_catalog_names simp: names_distinct_def)
next
  case updated
  then show ?case by (auto dest!: update_catalog_names simp: names_distinct_def)
next
  case deleted
  then show ?case by (auto dest!: delete_catalog_names simp: names_distinct_def distinct_map_filter)
qed

interpretation cats: invariant_system names_distinct cat_step names_distinct
  by unfold_locales (auto intro: cat_step_names)

section \<open>Lemmas: resolution\<close>

text \<open>What the enabled catalogues ship under one name and version, in the order of the registry.\<close>

definition offered :: "(catalog \<Rightarrow> (string \<times> pyval) list) \<Rightarrow> registry \<Rightarrow> string \<Rightarrow> string \<Rightarrow> (catalog \<times> manifest) list" where
  "offered scan reg n v =
     concat (map (\<lambda>c. if c_enabled c
       then List.map_filter (\<lambda>(name, manifest). case manifest of
              PDict m \<Rightarrow> if name = n \<and> manifest_version m = v then Some (c, m) else None | _ \<Rightarrow> None) (scan c)
       else []) (r_catalogs reg))"

definition group_hits :: "(string \<times> string \<times> hit) list \<Rightarrow> string \<Rightarrow> string \<Rightarrow> hit list" where
  "group_hits l n v = map (\<lambda>x. snd (snd x)) (filter (\<lambda>x. fst x = n \<and> fst (snd x) = v) l)"

lemma rmap_Inr_map: "rmap f xs = Inr ys \<Longrightarrow> ys = map (\<lambda>x. projr (f x)) xs \<and> (\<forall>x \<in> set xs. \<exists>y. f x = Inr y)"
  by (induction xs arbitrary: ys) (auto simp: rbind_eq_Inr)

lemma rmap_Inl: "rmap f xs = Inl e \<Longrightarrow> \<exists>x \<in> set xs. f x = Inl e"
  by (induction xs) (auto simp: rbind_def split: sum.splits)

lemma manifest_hit_Inr: "manifest_hit ws x = Inr y \<longleftrightarrow>
    (\<exists>c n m. x = (c, n, PDict m) \<and> y = (n, manifest_version m, (c, m, catalog_scan_path c ws)))"
  by (cases x) (auto simp: manifest_hit_def split: pyval.splits)

lemma hits_of_catalog:
  assumes "\<forall>x \<in> set xs. \<exists>y. manifest_hit ws (c, x) = Inr y"
  shows "group_hits (map (\<lambda>x. projr (manifest_hit ws (c, x))) xs) n v
    = map (\<lambda>cm. (fst cm, snd cm, catalog_scan_path (fst cm) ws)) (List.map_filter (\<lambda>(name, manifest). case manifest of
              PDict m \<Rightarrow> if name = n \<and> manifest_version m = v then Some (c, m) else None | _ \<Rightarrow> None) xs)"
  using assms
proof (induction xs)
  case (Cons x xs)
  then obtain m where "x = (fst x, PDict m)" by (force simp: manifest_hit_Inr)
  then obtain name where "x = (name, PDict m)" by blast
  with Cons show ?case by (simp add: group_hits_def manifest_hit_def List.map_filter_simps)
qed (simp add: group_hits_def List.map_filter_simps)

lemma group_hits_append: "group_hits (a @ b) n v = group_hits a n v @ group_hits b n v"
  by (simp add: group_hits_def)

lemma scanned_groups:
  assumes "scanned scan ws reg = Inr l"
  shows "group_hits l n v = map (\<lambda>cm. (fst cm, snd cm, catalog_scan_path (fst cm) ws)) (offered scan reg n v)"
proof -
  let ?f = "\<lambda>x. projr (manifest_hit ws x)"
  have l: "l = map ?f (concat (map (\<lambda>c. map (Pair c) (scan c)) (filter c_enabled (r_catalogs reg))))"
    and ok: "\<forall>c \<in> set (r_catalogs reg). c_enabled c \<longrightarrow> (\<forall>x \<in> set (scan c). \<exists>y. manifest_hit ws (c, x) = Inr y)"
    using rmap_Inr_map [OF assms [unfolded scanned_def]] by auto
  have "group_hits (map ?f (concat (map (\<lambda>c. map (Pair c) (scan c)) (filter c_enabled cs)))) n v
      = map (\<lambda>cm. (fst cm, snd cm, catalog_scan_path (fst cm) ws)) (offered scan \<lparr>r_version = 1, r_catalogs = cs\<rparr> n v)"
    if "set cs \<subseteq> set (r_catalogs reg)" for cs
    using that
  proof (induction cs)
    case (Cons c cs)
    have "c_enabled c \<Longrightarrow> group_hits (map (\<lambda>x. ?f (c, x)) (scan c)) n v
        = map (\<lambda>cm. (fst cm, snd cm, catalog_scan_path (fst cm) ws)) (List.map_filter (\<lambda>(name, manifest). case manifest of
              PDict m \<Rightarrow> if name = n \<and> manifest_version m = v then Some (c, m) else None | _ \<Rightarrow> None) (scan c))"
      using hits_of_catalog [where xs = "scan c" and ws = ws and c = c] ok Cons.prems by simp
    with Cons show ?case by (simp add: offered_def group_hits_append comp_def)
  qed (simp add: offered_def group_hits_def)
  then show ?thesis unfolding l by (simp add: offered_def)
qed

lemma add_hit_get:
  "dict_get_list (dict_get_list (add_hit hits (m, w, h)) n) v
     = dict_get_list (dict_get_list hits n) v @ (if m = n \<and> w = v then [h] else [])"
  by (simp add: add_hit_def Let_def dict_get_list_def)

lemma collect_hits_get: "dict_get_list (dict_get_list (collect_hits l) n) v = group_hits l n v"
proof (induction l rule: rev_induct)
  case (snoc x l)
  obtain m w h where "x = (m, w, h)" by (cases x) auto
  then show ?case using snoc by (simp add: collect_hits_def add_hit_get group_hits_def)
qed (simp add: collect_hits_def group_hits_def dict_get_list_def dict_get_def)

lemma collect_hits_ok: "dict_ok (collect_hits l)"
proof (induction l rule: rev_induct)
  case (snoc x l)
  then show ?case by (cases x) (simp add: collect_hits_def add_hit_def Let_def)
qed (simp add: collect_hits_def)

lemma mset_promote: "mset (promote k xs) = mset xs"
proof (cases "k < length xs")
  case True
  then have "xs = take k xs @ xs ! k # drop (Suc k) xs" by (rule id_take_nth_drop)
  then have "mset xs = mset (take k xs @ xs ! k # drop (Suc k) xs)" by simp
  with True show ?thesis by (simp add: promote_def)
qed (simp add: promote_def)

lemma index_of_first:
  "index_of p xs = Some k \<Longrightarrow> k < length xs \<and> p (xs ! k)"
  by (induction xs arbitrary: k) (auto split: if_splits)

lemma index_of_None: "index_of p xs = None \<longleftrightarrow> (\<forall>x \<in> set xs. \<not> p x)"
  by (induction xs) auto

lemma resolve_name_mem:
  "r \<in> set (resolve_name inst nb) \<Longrightarrow> ra_name r = fst nb"
  by (auto simp: resolve_name_def resolved_entry_def split: list.splits)

lemma resolve_name_primary:
  assumes "nb = (n, d)" "d \<noteq> []" "\<forall>g \<in> set d. snd g \<noteq> []" "inst n = Some i"
    and "\<exists>g \<in> set d. \<exists>h \<in> set (snd g). c_name (fst h) = ia_catalog i"
  shows "\<exists>r rs. resolve_name inst nb = r # rs \<and> \<not> ra_is_variant r \<and> ra_key r = n
    \<and> ia_catalog i \<in> set (ra_catalog r # ra_shadowed_by r)"
proof -
  let ?p = "\<lambda>g. list_ex (from_catalog (ia_catalog i)) (snd g)"
  from assms(5) have "\<exists>g \<in> set d. ?p g" by (auto simp: list_ex_iff from_catalog_def)
  then obtain k where k: "index_of ?p d = Some k" using index_of_None [of ?p d] by auto
  from index_of_first [OF k] have kd: "k < length d" "?p (d ! k)" by auto
  then obtain c m cl rest where es: "snd (d ! k) = (c, m, cl) # rest"
    using assms(3) by (metis list.exhaust nth_mem surj_pair)
  have "resolve_name inst nb =
      resolved_entry n False (snd (d ! k))
      @ concat (map (\<lambda>h. resolved_entry n True (snd h)) (take k d @ drop (Suc k) d))"
    using assms(1,4) k kd by (simp add: resolve_name_def primary_index_def promote_def)
  moreover have "ia_catalog i \<in> set (map (\<lambda>h. c_name (fst h)) (snd (d ! k)))"
    using kd(2) by (force simp: list_ex_iff from_catalog_def)
  ultimately show ?thesis
    using es by (auto simp: resolved_entry_def)
qed

lemma dict_get_list_mem: "es = dict_get_list d k \<Longrightarrow> es \<noteq> [] \<Longrightarrow> (k, es) \<in> set d"
  by (auto simp: dict_get_list_def dest: dict_get_in split: option.splits)

lemma collect_hits_groups:
  "(n, d) \<in> set (collect_hits l) \<Longrightarrow> d \<noteq> [] \<and> dict_ok d \<and> (\<forall>g \<in> set d. snd g \<noteq> [])"
proof (induction l arbitrary: n d rule: rev_induct)
  case (snoc x l)
  obtain m v h where x: "x = (m, v, h)" by (cases x) auto
  let ?H = "collect_hits l"
  let ?by = "dict_get_list ?H m"
  let ?new = "dict_set ?by v (dict_get_list ?by v @ [h])"
  have H: "collect_hits (l @ [x]) = dict_set ?H m ?new"
    by (simp add: collect_hits_def add_hit_def Let_def x)
  have old: "dict_ok ?by \<and> (\<forall>g \<in> set ?by. snd g \<noteq> [])"
    using snoc.IH [of m ?by] dict_get_list_mem [of ?by ?H m] by (cases "?by = []") auto
  have "dict_ok ?new \<and> (\<forall>g \<in> set ?new. snd g \<noteq> [])"
    using old by (auto dest!: dict_set_mem)
  moreover have "?new \<noteq> []" by simp
  moreover have "(n, d) = (m, ?new) \<or> (n, d) \<in> set ?H"
    using snoc.prems unfolding H by (rule dict_set_mem)
  ultimately show ?case using snoc.IH [of n d] by (metis prod.inject)
qed (simp add: collect_hits_def)

lemma collect_hits_mem:
  assumes "(n, d) \<in> set (collect_hits l)" "(v, es) \<in> set d"
  shows "es = group_hits l n v"
proof -
  have "dict_get (collect_hits l) n = Some d" by (rule dict_get_mem [OF collect_hits_ok assms(1)])
  moreover have "dict_get d v = Some es" using collect_hits_groups [OF assms(1)] assms(2) by (blast intro: dict_get_mem)
  ultimately show ?thesis using collect_hits_get [of l n v] by (simp add: dict_get_list_def)
qed

lemma collect_hits_found:
  assumes "group_hits l n v \<noteq> []"
  shows "\<exists>d. (n, d) \<in> set (collect_hits l) \<and> (v, group_hits l n v) \<in> set d"
proof -
  let ?d = "dict_get_list (collect_hits l) n"
  have g: "dict_get_list ?d v = group_hits l n v" by (rule collect_hits_get)
  then have "(v, group_hits l n v) \<in> set ?d" using assms dict_get_list_mem [of _ ?d v] by metis
  moreover have "(n, ?d) \<in> set (collect_hits l)" using calculation dict_get_list_mem [of ?d "collect_hits l" n] by (cases "?d = []") auto
  ultimately show ?thesis by blast
qed

subsection \<open>One entry per name and version\<close>

definition entry_id :: "resolved_addon \<Rightarrow> string \<times> string" where
  "entry_id r = (ra_name r, manifest_version (ra_manifest r))"

text \<open>The entry of a group of hits: the first of them, and the catalogues of the others.\<close>

definition entry_of :: "hit list \<Rightarrow> resolved_addon \<Rightarrow> bool" where
  "entry_of es r \<longleftrightarrow> (\<exists>c rest. es = (c, ra_manifest r, ra_clone r) # rest \<and> ra_catalog r = c_name c
     \<and> ra_shadowed_by r = map (\<lambda>h. c_name (fst h)) rest)"

lemma resolved_entry_of: "r \<in> set (resolved_entry n var es) \<Longrightarrow> ra_name r = n \<and> entry_of es r"
  by (auto simp: resolved_entry_def entry_of_def split: list.splits)

lemma resolve_name_of:
  assumes "r \<in> set (resolve_name inst (n, d))"
  shows "\<exists>g \<in> set d. ra_name r = n \<and> entry_of (snd g) r"
proof -
  let ?gs = "promote (primary_index (inst n) d) d"
  have "\<exists>g \<in> set ?gs. \<exists>var. r \<in> set (resolved_entry n var (snd g))"
    using assms by (cases ?gs) (auto simp: resolve_name_def)
  moreover have "set ?gs = set d" by (metis mset_promote set_mset_mset)
  ultimately show ?thesis using resolved_entry_of by metis
qed

lemma resolved_entry_id:
  assumes "es \<noteq> []" "\<forall>h \<in> set es. manifest_version (fst (snd h)) = v"
  shows "map entry_id (resolved_entry n var es) = [(n, v)]"
  using assms by (cases es) (auto simp: resolved_entry_def entry_id_def)

lemma resolve_name_ids:
  assumes "\<forall>g \<in> set d. snd g \<noteq> [] \<and> (\<forall>h \<in> set (snd g). manifest_version (fst (snd h)) = fst g)"
  shows "map entry_id (resolve_name inst (n, d)) = map (\<lambda>g. (n, fst g)) (promote (primary_index (inst n) d) d)"
proof -
  let ?gs = "promote (primary_index (inst n) d) d"
  have "\<forall>g \<in> set ?gs. snd g \<noteq> [] \<and> (\<forall>h \<in> set (snd g). manifest_version (fst (snd h)) = fst g)"
    using assms by (metis mset_promote set_mset_mset)
  then have each: "map entry_id (resolved_entry n var (snd g)) = [(n, fst g)]" if "g \<in> set ?gs" for g var
    using resolved_entry_id that by blast
  have "map entry_id (concat (map (\<lambda>h. resolved_entry n True (snd h)) gs)) = map (\<lambda>g. (n, fst g)) gs" if "set gs \<subseteq> set ?gs" for gs
    using that by (induction gs) (auto simp: each)
  then show ?thesis by (cases ?gs) (auto simp: resolve_name_def each)
qed

lemma distinct_promote: "distinct (map f (promote k xs)) \<longleftrightarrow> distinct (map f xs)"
proof -
  have "mset (map f (promote k xs)) = mset (map f xs)" unfolding mset_map mset_promote ..
  then show ?thesis by (rule mset_eq_imp_distinct_iff)
qed

lemma distinct_blocks:
  assumes "distinct (map fst H)" "\<forall>x \<in> set H. distinct (f x) \<and> (\<forall>y \<in> set (f x). fst y = fst x)"
  shows "distinct (concat (map f H))"
  using assms by (induction H) (auto, force)

lemma scanned_versions:
  assumes "scanned scan ws reg = Inr l" "h \<in> set (group_hits l n v)"
  shows "manifest_version (fst (snd h)) = v"
proof -
  from assms(2) obtain x where x: "x \<in> set l" "fst (snd x) = v" "h = snd (snd x)" by (auto simp: group_hits_def)
  from rmap_mem [OF assms(1) [unfolded scanned_def] x(1)] x(2,3) show ?thesis by (auto simp: manifest_hit_Inr)
qed

lemma group_versions:
  assumes "scanned scan ws reg = Inr l" "(n, d) \<in> set (collect_hits l)"
  shows "\<forall>g \<in> set d. snd g \<noteq> [] \<and> (\<forall>h \<in> set (snd g). manifest_version (fst (snd h)) = fst g)"
  using collect_hits_groups [OF assms(2)] collect_hits_mem [OF assms(2)] scanned_versions [OF assms(1)] by fastforce

lemma group_ids:
  assumes "scanned scan ws reg = Inr l" "x \<in> set (collect_hits l)"
  shows "map entry_id (resolve_name inst x) = map (\<lambda>g. (fst x, fst g)) (promote (primary_index (inst (fst x)) (snd x)) (snd x))"
  using resolve_name_ids [OF group_versions [OF assms(1)]] assms(2) by (metis prod.collapse)

lemma entry_ids_distinct:
  assumes "scanned scan ws reg = Inr l"
  shows "distinct (map entry_id (concat (map (resolve_name inst) (collect_hits l))))"
proof -
  have "distinct (concat (map (\<lambda>x. map entry_id (resolve_name inst x)) (collect_hits l)))"
  proof (rule distinct_blocks)
    show "distinct (map fst (collect_hits l))" using collect_hits_ok [of l] by (simp add: dict_ok_def)
    show "\<forall>x \<in> set (collect_hits l). distinct (map entry_id (resolve_name inst x))
        \<and> (\<forall>y \<in> set (map entry_id (resolve_name inst x)). fst y = fst x)"
    proof (intro ballI conjI)
      fix x assume x: "x \<in> set (collect_hits l)"
      have "distinct (map fst (snd x))" using collect_hits_groups [of "fst x" "snd x" l] x by (simp add: dict_ok_def)
      then have "distinct (map fst (promote (primary_index (inst (fst x)) (snd x)) (snd x)))"
        unfolding distinct_promote .
      then show "distinct (map entry_id (resolve_name inst x))"
        unfolding group_ids [OF assms x] by (simp add: distinct_map inj_on_def)
      show "fst y = fst x" if "y \<in> set (map entry_id (resolve_name inst x))" for y
        using that unfolding group_ids [OF assms x] by auto
    qed
  qed
  then show ?thesis by (simp add: map_concat comp_def)
qed

lemma entry_of_group:
  assumes "scanned scan ws reg = Inr l" "r \<in> set (concat (map (resolve_name inst) (collect_hits l)))"
  shows "entry_of (group_hits l (ra_name r) (manifest_version (ra_manifest r))) r"
proof -
  from assms(2) obtain n d where nd: "(n, d) \<in> set (collect_hits l)" "r \<in> set (resolve_name inst (n, d))" by auto
  from resolve_name_of [OF nd(2)] obtain g where g: "g \<in> set d" "ra_name r = n" "entry_of (snd g) r" by blast
  have "snd g = group_hits l n (fst g)" using collect_hits_mem [OF nd(1)] g(1) by (metis prod.collapse)
  moreover have "manifest_version (ra_manifest r) = fst g"
    using group_versions [OF assms(1) nd(1)] g(1,3) by (force simp: entry_of_def)
  ultimately show ?thesis using g(2,3) by simp
qed

lemma entry_ids_groups:
  assumes "scanned scan ws reg = Inr l"
  shows "(n, v) \<in> set (map entry_id (concat (map (resolve_name inst) (collect_hits l)))) \<longleftrightarrow> group_hits l n v \<noteq> []"
proof
  assume "(n, v) \<in> set (map entry_id (concat (map (resolve_name inst) (collect_hits l))))"
  then show "group_hits l n v \<noteq> []" using entry_of_group [OF assms] by (force simp: entry_id_def entry_of_def)
next
  assume "group_hits l n v \<noteq> []"
  from collect_hits_found [OF this] obtain d where d: "(n, d) \<in> set (collect_hits l)" "(v, group_hits l n v) \<in> set d" by blast
  have "(n, v) \<in> set (map entry_id (resolve_name inst (n, d)))"
    unfolding group_ids [OF assms d(1)] using d(2) by (force simp: set_mset_mset [symmetric] mset_promote simp del: set_mset_mset)
  with d(1) show "(n, v) \<in> set (map entry_id (concat (map (resolve_name inst) (collect_hits l))))" by force
qed

section \<open>Properties\<close>

text \<open>Whatever sequence of creations, changes and deletions the routes carry out, no two
  catalogues of the registry ever share a name, so a name identifies one catalogue.\<close>

theorem registry_names_stay_distinct:
  assumes "names_distinct st" "cat_step\<^sup>*\<^sup>* st st'"
  shows "names_distinct st'"
  using assms by (rule cats.steps_inv)

definition demo_cat :: "string \<Rightarrow> catalog" where
  "demo_cat n = \<lparr>c_name = n, c_type = Git, c_enabled = True, c_url = Some ''https://x'', c_ref = ''main'',
     c_auth = None, c_path = None\<rparr>"

definition demo_state :: "catalog list \<Rightarrow> cat_state" where
  "demo_state cs = \<lparr>cs_registry = \<lparr>r_version = 1, r_catalogs = cs\<rparr>, cs_audit = []\<rparr>"

theorem registry_names_stay_distinct_witness:
  "\<exists>st'. delete_catalog ''t'' ''u'' ''a'' (demo_state [demo_cat ''a'', demo_cat ''b'']) = Inr st'
    \<and> names_distinct st'"
proof -
  obtain st' where st': "delete_catalog ''t'' ''u'' ''a'' (demo_state [demo_cat ''a'', demo_cat ''b'']) = Inr st'"
    by (simp add: delete_catalog_def demo_state_def demo_cat_def)
  then have "cat_step\<^sup>*\<^sup>* (demo_state [demo_cat ''a'', demo_cat ''b'']) st'"
    by (blast intro: cat_step.deleted)
  moreover have "names_distinct (demo_state [demo_cat ''a'', demo_cat ''b''])"
    by (simp add: names_distinct_def demo_state_def demo_cat_def)
  ultimately show ?thesis using registry_names_stay_distinct st' by blast
qed

text \<open>A catalogue that has only the fields its type uses is read back from the file exactly as
  it was written.\<close>

theorem catalog_roundtrip:
  assumes "storable c"
  shows "catalog_from_dict (catalog_to_dict c) = Some c"
  using assms catalog_back_git catalog_back_local
  by (cases "c_type c") (auto simp: storable_def)

theorem catalog_roundtrip_witness:
  "catalog_from_dict (catalog_to_dict (demo_cat ''a'')) = Some (demo_cat ''a'')"
  by (rule catalog_roundtrip) (simp add: storable_def demo_cat_def)

text \<open>C37: Resolution drops nothing, merges nothing and invents nothing: there is exactly one entry for each add-on name and
  manifest version that the enabled catalogues ship, its catalogue, manifest and directory are those of the first catalogue
  of the registry that ships that name and version, and the catalogues it shadows are the others that do, in order. It
  raises exactly when an enabled catalogue ships a manifest that is no mapping.\<close>

theorem resolve_covers_every_hit:
  "case resolve_catalog_addons scan ws reg inst of
     Inl e \<Rightarrow> e = AttributeError \<and> (\<exists>c \<in> set (r_catalogs reg). c_enabled c \<and> (\<exists>(n, m) \<in> set (scan c). \<nexists>d. m = PDict d))
   | Inr R \<Rightarrow> (\<forall>c \<in> set (r_catalogs reg). c_enabled c \<longrightarrow> (\<forall>(n, m) \<in> set (scan c). \<exists>d. m = PDict d))
       \<and> distinct (map entry_id R) \<and> (\<forall>n v. (n, v) \<in> set (map entry_id R) \<longleftrightarrow> offered scan reg n v \<noteq> [])
       \<and> (\<forall>r \<in> set R. \<exists>c rest. offered scan reg (ra_name r) (manifest_version (ra_manifest r)) = (c, ra_manifest r) # rest
            \<and> ra_catalog r = c_name c \<and> ra_clone r = catalog_scan_path c ws \<and> ra_shadowed_by r = map (\<lambda>h. c_name (fst h)) rest)"
proof (cases "scanned scan ws reg")
  case (Inl e)
  then have "resolve_catalog_addons scan ws reg inst = Inl e" by (simp add: resolve_catalog_addons_def)
  moreover from rmap_Inl [OF Inl [unfolded scanned_def]] obtain c n m where "c \<in> set (r_catalogs reg)" "c_enabled c"
      "(n, m) \<in> set (scan c)" "manifest_hit ws (c, n, m) = Inl e" by auto
  moreover then have "e = AttributeError" "\<nexists>d. m = PDict d" by (auto simp: manifest_hit_def split: pyval.splits)
  ultimately show ?thesis by auto
next
  case (Inr l)
  let ?R = "concat (map (resolve_name inst) (collect_hits l))"
  have R: "resolve_catalog_addons scan ws reg inst = Inr ?R" using Inr by (simp add: resolve_catalog_addons_def)
  have maps: "\<forall>c \<in> set (r_catalogs reg). c_enabled c \<longrightarrow> (\<forall>(n, m) \<in> set (scan c). \<exists>d. m = PDict d)"
    using rmap_Inr_map [OF Inr [unfolded scanned_def]] by (force simp: manifest_hit_Inr)
  have "(n, v) \<in> set (map entry_id ?R) \<longleftrightarrow> offered scan reg n v \<noteq> []" for n v
    using entry_ids_groups [OF Inr, of n v] scanned_groups [OF Inr, of n v] by simp
  moreover have "\<exists>c rest. offered scan reg (ra_name r) (manifest_version (ra_manifest r)) = (c, ra_manifest r) # rest
      \<and> ra_catalog r = c_name c \<and> ra_clone r = catalog_scan_path c ws \<and> ra_shadowed_by r = map (\<lambda>h. c_name (fst h)) rest"
    if "r \<in> set ?R" for r
    using entry_of_group [OF Inr that] unfolding entry_of_def scanned_groups [OF Inr] by (auto simp: Cons_eq_map_conv comp_def)
  ultimately show ?thesis unfolding R using maps entry_ids_distinct [OF Inr] by simp
qed

text \<open>A catalogue of two: the same version shadows, another one is an entry of its own, and a disabled catalogue ships nothing.\<close>

theorem resolve_covers_every_hit_witness:
  "\<exists>r1 r2. resolve_catalog_addons (\<lambda>c. [(''n8n'', PDict [(''version'', PStr (if c_name c = ''c'' then ''2'' else ''1''))])]) ''/w''
      \<lparr>r_version = 1, r_catalogs = [demo_cat ''a'', demo_cat ''b'', demo_cat ''c'', (demo_cat ''d'')\<lparr>c_enabled := False\<rparr>]\<rparr> (\<lambda>_. None)
    = Inr [r1, r2] \<and> entry_id r1 \<noteq> entry_id r2 \<and> ra_catalog r1 = ''a'' \<and> ra_shadowed_by r1 = [''b''] \<and> ra_catalog r2 = ''c''"
proof -
  let ?scan = "\<lambda>c. [(''n8n'', PDict [(''version'', PStr (if c_name c = ''c'' then ''2'' else ''1''))])]"
  let ?reg = "\<lparr>r_version = 1, r_catalogs = [demo_cat ''a'', demo_cat ''b'', demo_cat ''c'', (demo_cat ''d'')\<lparr>c_enabled := False\<rparr>]\<rparr>"
  let ?res = "resolve_catalog_addons ?scan ''/w'' ?reg (\<lambda>_. None)"
  have "case ?res of Inr [r1, r2] \<Rightarrow> ra_catalog r1 = ''a'' \<and> ra_shadowed_by r1 = [''b''] \<and> ra_catalog r2 = ''c'' | _ \<Rightarrow> False" by code_simp
  then obtain r1 r2 where r: "?res = Inr [r1, r2]" "ra_catalog r1 = ''a''" "ra_shadowed_by r1 = [''b'']" "ra_catalog r2 = ''c''"
    by (cases ?res) (auto split: list.splits)
  have "distinct (map entry_id [r1, r2])" using resolve_covers_every_hit [where scan = ?scan and ws = "''/w''" and reg = ?reg and inst = "\<lambda>_. None"]
    unfolding r(1) by simp
  with r show ?thesis by auto
qed

text \<open>One manifest that is a list takes the resolution of every catalogue down, although the scan means to skip an add-on it
  cannot read.\<close>

lemma list_manifest_breaks_resolution:
  "resolve_catalog_addons (\<lambda>c. [(''n8n'', if c_name c = ''b'' then PList [PStr ''x''] else PDict [(''version'', PStr ''1'')])]) ''/w''
     \<lparr>r_version = 1, r_catalogs = [demo_cat ''a'', demo_cat ''b'']\<rparr> (\<lambda>_. None) = Inl AttributeError"
  by code_simp

text \<open>When the catalogue an add-on was installed from is enabled and still ships it, the entry
  under the add-on's plain name is the version group of that catalogue, whatever the registry order.\<close>

theorem resolve_promotes_installed:
  assumes "resolve_catalog_addons scan ws reg inst = Inr R" "inst n = Some i"
    and "c \<in> set (r_catalogs reg)" "c_enabled c" "(n, PDict m) \<in> set (scan c)" "c_name c = ia_catalog i"
  shows "\<exists>r \<in> set R. ra_key r = n \<and> ra_name r = n \<and> \<not> ra_is_variant r \<and> ia_catalog i \<in> set (ra_catalog r # ra_shadowed_by r)"
proof -
  from assms(1) obtain l where l: "scanned scan ws reg = Inr l" "R = concat (map (resolve_name inst) (collect_hits l))"
    by (auto simp: resolve_catalog_addons_def rbind_eq_Inr)
  let ?h = "(c, m, catalog_scan_path c ws)"
  have "(c, n, PDict m) \<in> set (concat (map (\<lambda>c. map (Pair c) (scan c)) (filter c_enabled (r_catalogs reg))))"
    using assms(3-5) by auto
  moreover have "manifest_hit ws (c, n, PDict m) = Inr (n, manifest_version m, ?h)" by (simp add: manifest_hit_def)
  ultimately have "(n, manifest_version m, ?h) \<in> set l"
    using rmap_Inr_map [OF l(1) [unfolded scanned_def]] by (metis (no_types, lifting) image_eqI list.set_map sum.sel(2))
  then have h: "?h \<in> set (group_hits l n (manifest_version m))" by (force simp: group_hits_def)
  then obtain d where d: "(n, d) \<in> set (collect_hits l)" "(manifest_version m, group_hits l n (manifest_version m)) \<in> set d"
    using collect_hits_found [of l n "manifest_version m"] by fastforce
  have "\<exists>g \<in> set d. \<exists>h \<in> set (snd g). c_name (fst h) = ia_catalog i"
    using d(2) h assms(6) by (intro bexI [OF _ d(2)] bexI [of _ ?h]) simp_all
  from resolve_name_primary [of "(n, d)" n d inst i, OF refl _ _ assms(2) this] collect_hits_groups [OF d(1)]
  obtain r rs where r: "resolve_name inst (n, d) = r # rs" "\<not> ra_is_variant r" "ra_key r = n"
    "ia_catalog i \<in> set (ra_catalog r # ra_shadowed_by r)" by blast
  then have mem: "r \<in> set (resolve_name inst (n, d))" by simp
  with d(1) have "r \<in> set R" unfolding l(2) by force
  with r(2-4) resolve_name_mem [OF mem] show ?thesis by auto
qed

theorem resolve_promotes_installed_witness:
  "\<exists>R. resolve_catalog_addons (\<lambda>c. [(''n8n'', PDict [(''version'', PStr (c_name c))])]) ''/w''
      \<lparr>r_version = 1, r_catalogs = [demo_cat ''b'', demo_cat ''a'']\<rparr>
      [''n8n'' \<mapsto> \<lparr>ia_catalog = ''a'', ia_manifest_version = ''1.9.0'', ia_managed = True\<rparr>] = Inr R
    \<and> (\<exists>r \<in> set R. ra_key r = ''n8n'' \<and> ra_name r = ''n8n'' \<and> \<not> ra_is_variant r
    \<and> ''a'' \<in> set (ra_catalog r # ra_shadowed_by r))"
proof -
  let ?i = "\<lparr>ia_catalog = ''a'', ia_manifest_version = ''1.9.0'', ia_managed = True\<rparr>"
  let ?scan = "\<lambda>c. [(''n8n'', PDict [(''version'', PStr (c_name c))])]"
  let ?reg = "\<lparr>r_version = 1, r_catalogs = [demo_cat ''b'', demo_cat ''a'']\<rparr>"
  let ?res = "resolve_catalog_addons ?scan ''/w'' ?reg [''n8n'' \<mapsto> ?i]"
  have "\<not> isl ?res" by (simp add: resolve_catalog_addons_def scanned_def demo_cat_def manifest_hit_def)
  then obtain R where R: "?res = Inr R" by (cases ?res) auto
  from resolve_promotes_installed [where i = ?i and n = "''n8n''" and c = "demo_cat ''a''" and m = "[(''version'', PStr ''a'')]", OF R]
  show ?thesis using R by (simp add: demo_cat_def)
qed

text \<open>An update is offered only for an add-on the manager installed and manages, and between two
  SemVer versions only when the catalogue's is strictly higher: a downgrade is never offered.\<close>

theorem update_available_never_downgrades:
  assumes "update_available installed v"
  shows "\<exists>i. installed = Some i \<and> ia_managed i
    \<and> (\<forall>r. compare (py_str_of v) (ia_manifest_version i) = Some r \<longrightarrow> 0 < r)"
  using assms
  by (auto simp: update_available_def is_newer_def split: option.splits if_splits)

definition demo_installed :: installed_addon where
  "demo_installed = \<lparr>ia_catalog = ''a'', ia_manifest_version = ''1.9.0'', ia_managed = True\<rparr>"

theorem update_available_never_downgrades_witness:
  "update_available (Some demo_installed) (PStr ''1.10.0'') \<and>
   (\<exists>i. Some demo_installed = Some i \<and> ia_managed i
    \<and> (\<forall>r. compare (py_str_of (PStr ''1.10.0'')) (ia_manifest_version i) = Some r \<longrightarrow> 0 < r))"
proof -
  have u: "update_available (Some demo_installed) (PStr ''1.10.0'')" by code_simp
  from update_available_never_downgrades [OF u] u show ?thesis by blast
qed

text \<open>A manifest whose version is a number, as YAML reads an unquoted \<open>1.0\<close>, is offered as an
  update of itself for ever: its text is what was recorded when it was installed, and a text never
  equals a number.\<close>

theorem numeric_version_always_outdated:
  assumes "ia_managed i" "key_of r = None" "ia_manifest_version i = py_str_of (PFloat r)"
  shows "update_available (Some i) (PFloat r)"
  using assms
  by (auto simp: update_available_def is_newer_def compare_def py_str_of_def split: option.splits)

theorem numeric_version_always_outdated_witness:
  "update_available (Some (demo_installed\<lparr>ia_manifest_version := ''1.0''\<rparr>)) (PFloat ''1.0'')"
proof (rule numeric_version_always_outdated)
  show "ia_managed (demo_installed\<lparr>ia_manifest_version := ''1.0''\<rparr>)" by (simp add: demo_installed_def)
  show "key_of ''1.0'' = None" by code_simp
  show "ia_manifest_version (demo_installed\<lparr>ia_manifest_version := ''1.0''\<rparr>) = py_str_of (PFloat ''1.0'')"
    by (simp add: py_str_of_def)
qed

definition inside :: "string \<Rightarrow> string \<Rightarrow> bool" where
  "inside workspace p \<longleftrightarrow> p = workspace \<or> startswith p (workspace @ ''/'')"

text \<open>The check of a local catalogue's path compares text, not path segments: a sibling of the
  workspace whose name continues the workspace's is accepted although it lies outside.\<close>

theorem local_path_accepts_sibling:
  "validate_local_path (\<lambda>p. p) (ws @ ''-other'') ws \<and> \<not> inside ws (ws @ ''-other'')"
proof -
  have "\<not> startswith (ws @ ''-other'') (ws @ ''/'')"
    by (simp add: startswith_append)
  then show ?thesis by (simp add: validate_local_path_def inside_def)
qed

end
