(* ===== verification/Job_Queue.thy ===== *)
theory Job_Queue
  imports Audit_Log
begin

text \<open>
  The single-flight job queue (\<open>src/src/app/core/jobs.py\<close>): a dictionary of jobs, the asyncio queue of
  ids, the worker task, and what it leaves behind (the index file, the job logs, the audit log, the
  calls of the listeners).

  The worker is a state machine: it waits for an id, runs one callback, records how it ended. What a
  callback does is not modelled; it ends by returning or by raising, which the environment chooses.
  \<open>stop\<close> asks for the worker to be cancelled and the cancellation takes effect later, as
  \<open>Task.cancel\<close> does. The files are assumed writable. A fresh jid is what \<open>uuid.uuid4\<close> gives, and the
  clock does not run backwards: both are premises of the step relation.
\<close>

section \<open>Data\<close>

datatype job_status = QUEUED | RUNNING | SUCCEEDED | FAILED

record job =
  j_id :: string
  j_action :: string
  j_target :: string
  j_user :: string
  j_created_at :: instant
  j_status :: job_status
  j_started_at :: "instant option"
  j_finished_at :: "instant option"
  j_exit_code :: "int option"
  j_params :: pyval

text \<open>The worker task: none or done, waiting in \<open>queue.get\<close>, or inside the callback of one job.\<close>

datatype worker = Stopped | Waiting | Busy string

record 'cb queue_state =
  q_jobs :: "(string, job) dict"
  q_callbacks :: "(string, 'cb) dict"
  q_queue :: "string list"
  q_worker :: worker
  q_cancelling :: bool
  q_listeners :: "string list"
  q_index :: "(string \<times> job_status) list"
  q_logs :: "(string \<times> string) list"
  q_audit :: "audit_entry list"
  q_notified :: "(string \<times> job) list"
  q_clock :: instant

section \<open>Operations\<close>

definition init_queue :: "instant \<Rightarrow> 'cb queue_state" where
  "init_queue now = \<lparr>q_jobs = [], q_callbacks = [], q_queue = [], q_worker = Stopped,
     q_cancelling = False, q_listeners = [], q_index = [], q_logs = [], q_audit = [],
     q_notified = [], q_clock = now\<rparr>"

definition start :: "'cb queue_state \<Rightarrow> 'cb queue_state" where
  "start q = (if q_worker q = Stopped then q\<lparr>q_worker := Waiting, q_cancelling := False\<rparr> else q)"

definition stop :: "'cb queue_state \<Rightarrow> 'cb queue_state" where
  "stop q = (if q_worker q = Stopped then q else q\<lparr>q_cancelling := True\<rparr>)"

definition add_finished_listener :: "string \<Rightarrow> 'cb queue_state \<Rightarrow> 'cb queue_state" where
  "add_finished_listener l q = q\<lparr>q_listeners := q_listeners q @ [l]\<rparr>"

definition append_index :: "job \<Rightarrow> 'cb queue_state \<Rightarrow> 'cb queue_state" where
  "append_index j q = q\<lparr>q_index := q_index q @ [(j_id j, j_status j)]\<rparr>"

definition notify_finished :: "job \<Rightarrow> 'cb queue_state \<Rightarrow> 'cb queue_state" where
  "notify_finished j q = q\<lparr>q_notified := q_notified q @ map (\<lambda>l. (l, j)) (q_listeners q)\<rparr>"

definition new_job :: "instant \<Rightarrow> string \<Rightarrow> string \<Rightarrow> string \<Rightarrow> string \<Rightarrow> pyval \<Rightarrow> job" where
  "new_job now jid action target user params =
     \<lparr>j_id = jid, j_action = action, j_target = target, j_user = user, j_created_at = now,
      j_status = QUEUED, j_started_at = None, j_finished_at = None, j_exit_code = None,
      j_params = params\<rparr>"

definition enqueue ::
  "instant \<Rightarrow> string \<Rightarrow> string \<Rightarrow> string \<Rightarrow> string \<Rightarrow> pyval \<Rightarrow> 'cb \<Rightarrow> 'cb queue_state
    \<Rightarrow> 'cb queue_state \<times> job" where
  "enqueue now jid action target user params cb q =
     (let j = new_job now jid action target user params;
          q1 = q\<lparr>q_jobs := dict_set (q_jobs q) jid j,
                 q_callbacks := dict_set (q_callbacks q) jid cb, q_clock := now\<rparr>;
          q2 = append_index j q1
      in (q2\<lparr>q_queue := q_queue q2 @ [jid]\<rparr>, j))"

definition get_job :: "'cb queue_state \<Rightarrow> string \<Rightarrow> job option" where
  "get_job q jid = dict_get (q_jobs q) jid"

definition list_jobs :: "nat \<Rightarrow> 'cb queue_state \<Rightarrow> job list" where
  "list_jobs limit q = take limit (sorted_desc j_created_at (map snd (q_jobs q)))"

definition unfinished :: "job \<Rightarrow> bool" where
  "unfinished j \<longleftrightarrow> j_status j \<in> {QUEUED, RUNNING}"

definition active_job :: "'cb queue_state \<Rightarrow> job option" where
  "active_job q = find_first unfinished (sorted_by j_created_at (map snd (q_jobs q)))"

definition read_log :: "'cb queue_state \<Rightarrow> string \<Rightarrow> nat \<Rightarrow> string list" where
  "read_log q jid offset = drop offset (map snd (filter (\<lambda>l. fst l = jid) (q_logs q)))"

section \<open>The worker\<close>

text \<open>
  One round up to the await of the callback: an id whose job or callback is gone is skipped.
\<close>

definition worker_take :: "instant \<Rightarrow> 'cb queue_state \<Rightarrow> 'cb queue_state option" where
  "worker_take now q =
     (case q_queue q of
        [] \<Rightarrow> None
      | jid # rest \<Rightarrow>
          let q1 = q\<lparr>q_queue := rest, q_callbacks := dict_del (q_callbacks q) jid, q_clock := now\<rparr>
          in (case (dict_get (q_jobs q) jid, dict_get (q_callbacks q) jid) of
                (Some j, Some cb) \<Rightarrow>
                  let j' = j\<lparr>j_status := RUNNING, j_started_at := Some now\<rparr>
                  in Some (append_index j'
                       (q1\<lparr>q_jobs := dict_set (q_jobs q1) jid j', q_worker := Busy jid\<rparr>))
              | _ \<Rightarrow> Some q1))"

text \<open>How a callback ended: it returned, or it raised an exception of a class with a text.\<close>

datatype outcome = Returned | Raised string string

definition job_error_entry :: "string \<Rightarrow> job \<Rightarrow> string \<Rightarrow> audit_entry" where
  "job_error_entry ts j exc =
     \<lparr>ae_ts = ts, ae_user = j_user j, ae_action = j_action j, ae_target = j_target j,
      ae_result = ''error'', ae_params = Some (PDict [(''error'', PStr exc)]), ae_job_id = Some (j_id j)\<rparr>"

definition finish_job ::
  "instant \<Rightarrow> string \<Rightarrow> string \<Rightarrow> outcome \<Rightarrow> 'cb queue_state \<Rightarrow> 'cb queue_state" where
  "finish_job now ts jid out q =
     (case dict_get (q_jobs q) jid of
        None \<Rightarrow> q
      | Some j \<Rightarrow>
          let (j1, q1) = (case out of
                Returned \<Rightarrow> (j\<lparr>j_status := SUCCEEDED, j_exit_code := Some 0\<rparr>, q)
              | Raised exc text \<Rightarrow>
                  (j\<lparr>j_status := FAILED, j_exit_code := Some 1\<rparr>,
                   q\<lparr>q_logs := q_logs q @ [(jid, ''--- ERROR: '' @ text @ '' ---'')],
                     q_audit := q_audit q @ [job_error_entry ts j exc]\<rparr>));
              j2 = j1\<lparr>j_finished_at := Some now\<rparr>
          in notify_finished j2 (append_index j2
               (q1\<lparr>q_jobs := dict_set (q_jobs q1) jid j2, q_worker := Waiting, q_clock := now\<rparr>)))"

text \<open>
  The cancellation reaching the worker. Inside a callback it is a \<open>CancelledError\<close>, which the worker
  does not catch: only its \<open>finally\<close> runs, so the job keeps the status \<open>RUNNING\<close>.
\<close>

definition cancel_worker :: "instant \<Rightarrow> 'cb queue_state \<Rightarrow> 'cb queue_state" where
  "cancel_worker now q =
     (case q_worker q of
        Stopped \<Rightarrow> q
      | Waiting \<Rightarrow> q\<lparr>q_worker := Stopped, q_clock := now\<rparr>
      | Busy jid \<Rightarrow>
          (case dict_get (q_jobs q) jid of
             None \<Rightarrow> q\<lparr>q_worker := Stopped, q_clock := now\<rparr>
           | Some j \<Rightarrow>
               let j' = j\<lparr>j_finished_at := Some now\<rparr>
               in append_index j'
                    (q\<lparr>q_jobs := dict_set (q_jobs q) jid j', q_worker := Stopped, q_clock := now\<rparr>)))"

inductive queue_step :: "'cb queue_state \<Rightarrow> 'cb queue_state \<Rightarrow> bool" where
  enqueued: "jid \<notin> set (dict_keys (q_jobs q)) \<Longrightarrow> q_clock q \<le> now \<Longrightarrow>
    queue_step q (fst (enqueue now jid action target user params cb q))"
| started: "queue_step q (start q)"
| stopped: "queue_step q (stop q)"
| listened: "queue_step q (add_finished_listener l q)"
| logged: "q_worker q = Busy jid \<Longrightarrow> queue_step q (q\<lparr>q_logs := q_logs q @ [(jid, line)]\<rparr>)"
| took: "q_worker q = Waiting \<Longrightarrow> q_clock q \<le> now \<Longrightarrow> worker_take now q = Some q' \<Longrightarrow> queue_step q q'"
| finished: "q_worker q = Busy jid \<Longrightarrow> q_clock q \<le> now \<Longrightarrow> queue_step q (finish_job now ts jid out q)"
| cancelled: "q_cancelling q \<Longrightarrow> q_clock q \<le> now \<Longrightarrow> queue_step q (cancel_worker now q)"

inductive is_init_queue :: "'cb queue_state \<Rightarrow> bool" where
  "is_init_queue (init_queue now)"

abbreviation reachable_queue :: "'cb queue_state \<Rightarrow> bool" where
  "reachable_queue \<equiv> reach is_init_queue queue_step"

section \<open>Invariant\<close>

text \<open>The ids in the order the index file records them as queued and as running.\<close>

definition ids_with :: "job_status \<Rightarrow> 'cb queue_state \<Rightarrow> string list" where
  "ids_with s q = map fst (filter (\<lambda>r. snd r = s) (q_index q))"

abbreviation enqueued_ids :: "'cb queue_state \<Rightarrow> string list" where
  "enqueued_ids q \<equiv> ids_with QUEUED q"

abbreviation started_ids :: "'cb queue_state \<Rightarrow> string list" where
  "started_ids q \<equiv> remdups (ids_with RUNNING q)"

text \<open>A job after it left the queue: running in the worker's hands, or over.\<close>

definition job_state_ok :: "worker \<Rightarrow> string \<Rightarrow> job \<Rightarrow> bool" where
  "job_state_ok w jid j \<longleftrightarrow>
     (if w = Busy jid then j_status j = RUNNING \<and> j_finished_at j = None \<and> j_exit_code j = None
      else j_finished_at j \<noteq> None
        \<and> ((j_status j = SUCCEEDED \<and> j_exit_code j = Some 0)
           \<or> (j_status j = FAILED \<and> j_exit_code j = Some 1)
           \<or> (j_status j = RUNNING \<and> j_exit_code j = None)))"

definition queue_inv :: "'cb queue_state \<Rightarrow> bool" where
  "queue_inv q \<longleftrightarrow>
     distinct (dict_keys (q_jobs q))
     \<and> enqueued_ids q = dict_keys (q_jobs q)
     \<and> enqueued_ids q = started_ids q @ q_queue q
     \<and> sorted (map (\<lambda>kv. j_created_at (snd kv)) (q_jobs q))
     \<and> (\<forall>kv \<in> set (q_jobs q). j_created_at (snd kv) \<le> q_clock q \<and> j_id (snd kv) = fst kv)
     \<and> (\<forall>jid \<in> set (q_queue q). \<exists>j cb. dict_get (q_jobs q) jid = Some j \<and> dict_get (q_callbacks q) jid = Some cb
          \<and> j_status j = QUEUED \<and> j_finished_at j = None \<and> j_exit_code j = None)
     \<and> (\<forall>jid \<in> set (started_ids q). \<exists>j. dict_get (q_jobs q) jid = Some j \<and> job_state_ok (q_worker q) jid j)
     \<and> (\<forall>jid. q_worker q = Busy jid \<longrightarrow> ids_with RUNNING q \<noteq> [] \<and> last (ids_with RUNNING q) = jid)"

lemma queue_invD:
  assumes "queue_inv q"
  shows "distinct (dict_keys (q_jobs q))"
    and "enqueued_ids q = dict_keys (q_jobs q)"
    and "enqueued_ids q = started_ids q @ q_queue q"
    and "sorted (map (\<lambda>kv. j_created_at (snd kv)) (q_jobs q))"
    and "\<And>kv. kv \<in> set (q_jobs q) \<Longrightarrow> j_created_at (snd kv) \<le> q_clock q \<and> j_id (snd kv) = fst kv"
    and "\<And>jid. jid \<in> set (q_queue q) \<Longrightarrow> \<exists>j cb. dict_get (q_jobs q) jid = Some j
          \<and> dict_get (q_callbacks q) jid = Some cb \<and> j_status j = QUEUED \<and> j_finished_at j = None
          \<and> j_exit_code j = None"
    and "\<And>jid. jid \<in> set (started_ids q) \<Longrightarrow>
          \<exists>j. dict_get (q_jobs q) jid = Some j \<and> job_state_ok (q_worker q) jid j"
    and "\<And>jid. q_worker q = Busy jid \<Longrightarrow> ids_with RUNNING q \<noteq> [] \<and> last (ids_with RUNNING q) = jid"
  using assms unfolding queue_inv_def by blast+

lemma ids_with_append:
  "q_index q' = q_index q @ [(jid, s')] \<Longrightarrow>
     ids_with s q' = ids_with s q @ (if s = s' then [jid] else [])"
  by (simp add: ids_with_def)

lemma ids_with_same: "q_index q' = q_index q \<Longrightarrow> ids_with s q' = ids_with s q"
  by (simp add: ids_with_def)

text \<open>The ids the worker has taken and the ids that wait are disjoint.\<close>

lemma started_not_queued:
  assumes "queue_inv q" "jid \<in> set (started_ids q)"
  shows "jid \<notin> set (q_queue q)"
  using queue_invD(1-3) [OF assms(1)] assms(2) by (metis IntI distinct_append empty_iff)

lemma busy_started:
  assumes "queue_inv q" "q_worker q = Busy jid"
  shows "jid \<in> set (started_ids q)"
  using queue_invD(8) [OF assms] by (metis last_in_set set_remdups)

text \<open>A step that touches neither jobs nor queue nor index, and does not wake or end a callback.\<close>

lemma queue_inv_frame:
  assumes inv: "queue_inv q"
    and same: "q_jobs q' = q_jobs q" "q_callbacks q' = q_callbacks q" "q_queue q' = q_queue q"
      "q_index q' = q_index q" "q_clock q \<le> q_clock q'"
    and w: "\<And>jid. q_worker q' = Busy jid \<longleftrightarrow> q_worker q = Busy jid"
  shows "queue_inv q'"
proof -
  note I = queue_invD [OF inv]
  have ids: "ids_with s q' = ids_with s q" for s by (rule ids_with_same [OF same(4)])
  have js: "job_state_ok (q_worker q') jid j = job_state_ok (q_worker q) jid j" for jid j
    by (simp add: job_state_ok_def w)
  show ?thesis
    unfolding queue_inv_def same(1-3) ids
  proof (intro conjI)
    show "\<forall>kv \<in> set (q_jobs q). j_created_at (snd kv) \<le> q_clock q' \<and> j_id (snd kv) = fst kv"
      using I(5) same(5) by (meson order_trans)
    show "\<forall>i \<in> set (started_ids q). \<exists>j. dict_get (q_jobs q) i = Some j \<and> job_state_ok (q_worker q') i j"
      using I(7) js by blast
    show "\<forall>i. q_worker q' = Busy i \<longrightarrow> ids_with RUNNING q \<noteq> [] \<and> last (ids_with RUNNING q) = i"
      using I(8) w by blast
  qed (use I(1-4,6) in blast)+
qed

lemma enqueue_inv:
  assumes inv: "queue_inv q" and new: "jid \<notin> set (dict_keys (q_jobs q))" and t: "q_clock q \<le> now"
  shows "queue_inv (fst (enqueue now jid action target user params cb q))" (is "queue_inv ?q")
proof -
  note I = queue_invD [OF inv]
  let ?j = "new_job now jid action target user params"
  have jobs: "q_jobs ?q = q_jobs q @ [(jid, ?j)]"
    using new by (simp add: enqueue_def append_index_def Let_def dict_set_append del: dict_set.simps)
  have get: "dict_get (q_jobs ?q) i = (if i = jid then Some ?j else dict_get (q_jobs q) i)" for i
    by (simp add: enqueue_def append_index_def Let_def)
  have cbs: "dict_get (q_callbacks ?q) i = (if i = jid then Some cb else dict_get (q_callbacks q) i)" for i
    by (simp add: enqueue_def append_index_def Let_def)
  have rest: "q_queue ?q = q_queue q @ [jid]" "q_worker ?q = q_worker q" "q_clock ?q = now"
    by (simp_all add: enqueue_def append_index_def Let_def)
  have "q_index ?q = q_index q @ [(jid, QUEUED)]"
    by (simp add: enqueue_def append_index_def Let_def new_job_def)
  note ids = ids_with_append [OF this]
  have notin: "jid \<notin> set (started_ids q)" "jid \<notin> set (q_queue q)"
    using new I(2,3) by (metis Un_iff set_append)+
  show ?thesis
    unfolding queue_inv_def
  proof (intro conjI)
    show "distinct (dict_keys (q_jobs ?q))" using I(1) new by (simp add: jobs)
    show "enqueued_ids ?q = dict_keys (q_jobs ?q)" using I(2) by (simp add: ids jobs)
    show "enqueued_ids ?q = started_ids ?q @ q_queue ?q" using I(3) by (simp add: ids rest)
    show "sorted (map (\<lambda>kv. j_created_at (snd kv)) (q_jobs ?q))"
      using I(4,5) t by (fastforce simp: jobs sorted_append new_job_def)
    show "\<forall>kv \<in> set (q_jobs ?q). j_created_at (snd kv) \<le> q_clock ?q \<and> j_id (snd kv) = fst kv"
      using I(5) t by (fastforce simp: jobs rest new_job_def)
    show "\<forall>i \<in> set (q_queue ?q). \<exists>j c. dict_get (q_jobs ?q) i = Some j \<and> dict_get (q_callbacks ?q) i = Some c
        \<and> j_status j = QUEUED \<and> j_finished_at j = None \<and> j_exit_code j = None"
      using I(6) by (auto simp: get cbs rest new_job_def)
    show "\<forall>i \<in> set (started_ids ?q). \<exists>j. dict_get (q_jobs ?q) i = Some j \<and> job_state_ok (q_worker ?q) i j"
      using I(7) notin by (auto simp: get rest ids)
    show "\<forall>i. q_worker ?q = Busy i \<longrightarrow> ids_with RUNNING ?q \<noteq> [] \<and> last (ids_with RUNNING ?q) = i"
      using I(8) by (simp add: rest ids)
  qed
qed

lemma worker_take_inv:
  assumes inv: "queue_inv q" and idle: "q_worker q = Waiting" and t: "q_clock q \<le> now"
    and take: "worker_take now q = Some q'"
  shows "queue_inv q'"
proof -
  note I = queue_invD [OF inv]
  from take obtain jid rest where qq: "q_queue q = jid # rest"
    by (auto simp: worker_take_def split: list.splits)
  with I(6) [of jid] obtain j cb where j: "dict_get (q_jobs q) jid = Some j"
    "dict_get (q_callbacks q) jid = Some cb" by auto
  let ?j = "j\<lparr>j_status := RUNNING, j_started_at := Some now\<rparr>"
  have q': "q' = append_index ?j (q\<lparr>q_queue := rest, q_callbacks := dict_del (q_callbacks q) jid,
      q_clock := now, q_jobs := dict_set (q_jobs q) jid ?j, q_worker := Busy jid\<rparr>)"
    using take qq j by (simp add: worker_take_def Let_def)
  have jid: "j_id j = jid" using I(5) dict_get_in [OF j(1)] by fastforce
  have keys: "dict_keys (q_jobs q') = dict_keys (q_jobs q)"
    using map_dict_set_same [OF j(1), of fst ?j] by (simp add: q' append_index_def)
  have created: "map (\<lambda>kv. j_created_at (snd kv)) (q_jobs q') = map (\<lambda>kv. j_created_at (snd kv)) (q_jobs q)"
    using map_dict_set_same [OF j(1), of "\<lambda>kv. j_created_at (snd kv)" ?j] by (simp add: q' append_index_def)
  have get: "dict_get (q_jobs q') i = (if i = jid then Some ?j else dict_get (q_jobs q) i)" for i
    by (simp add: q' append_index_def)
  have f: "q_queue q' = rest" "q_worker q' = Busy jid" "q_clock q' = now"
    "q_callbacks q' = dict_del (q_callbacks q) jid"
    by (simp_all add: q' append_index_def)
  have "q_index q' = q_index q @ [(jid, RUNNING)]" by (simp add: q' append_index_def jid)
  note ids = ids_with_append [OF this]
  have d: "distinct (started_ids q @ jid # rest)" using I(1-3) qq by metis
  then have new: "jid \<notin> set (ids_with RUNNING q)" "jid \<notin> set rest" by auto
  show ?thesis
    unfolding queue_inv_def
  proof (intro conjI)
    show "distinct (dict_keys (q_jobs q'))" using I(1) by (simp only: keys)
    show "enqueued_ids q' = dict_keys (q_jobs q')" using I(2) by (simp add: ids keys)
    show "enqueued_ids q' = started_ids q' @ q_queue q'"
      using I(3) qq new by (simp add: ids f remdups_snoc_new)
    show "sorted (map (\<lambda>kv. j_created_at (snd kv)) (q_jobs q'))" using I(4) by (simp only: created)
    show "\<forall>kv \<in> set (q_jobs q'). j_created_at (snd kv) \<le> q_clock q' \<and> j_id (snd kv) = fst kv"
    proof
      fix kv assume "kv \<in> set (q_jobs q')"
      then have "kv = (jid, ?j) \<or> kv \<in> set (q_jobs q)"
        using dict_set_mem [of "fst kv" "snd kv" "q_jobs q" jid ?j] by (simp add: q' append_index_def)
      then show "j_created_at (snd kv) \<le> q_clock q' \<and> j_id (snd kv) = fst kv"
        using I(5) [of kv] I(5) [OF dict_get_in [OF j(1)]] t by (auto simp: f)
    qed
    show "\<forall>i \<in> set (q_queue q'). \<exists>j c. dict_get (q_jobs q') i = Some j \<and> dict_get (q_callbacks q') i = Some c
        \<and> j_status j = QUEUED \<and> j_finished_at j = None \<and> j_exit_code j = None"
      using I(6) qq new by (auto simp: get f)
    show "\<forall>i \<in> set (started_ids q'). \<exists>j. dict_get (q_jobs q') i = Some j \<and> job_state_ok (q_worker q') i j"
      using I(6) [of jid] I(7) qq j(1) new idle by (auto simp: get ids f job_state_ok_def)
    show "\<forall>i. q_worker q' = Busy i \<longrightarrow> ids_with RUNNING q' \<noteq> [] \<and> last (ids_with RUNNING q') = i"
      by (simp add: ids f)
  qed
qed

text \<open>The worker letting go of its job, whatever the job ended with.\<close>

lemma release_inv:
  assumes inv: "queue_inv q" and busy: "q_worker q = Busy jid" and t: "q_clock q \<le> now"
    and j: "dict_get (q_jobs q) jid = Some j"
    and j': "j_id j' = j_id j" "j_created_at j' = j_created_at j" "job_state_ok w jid j'"
      "j_status j' \<noteq> QUEUED"
    and q': "q_jobs q' = dict_set (q_jobs q) jid j'" "q_callbacks q' = q_callbacks q"
      "q_queue q' = q_queue q" "q_index q' = q_index q @ [(jid, j_status j')]"
      "q_worker q' = w" "q_clock q' = now" and w: "\<forall>i. w \<noteq> Busy i"
  shows "queue_inv q'"
proof -
  note I = queue_invD [OF inv]
  note ids = ids_with_append [OF q'(4)]
  have keys: "dict_keys (q_jobs q') = dict_keys (q_jobs q)"
    using map_dict_set_same [OF j, of fst j'] by (simp add: q'(1))
  have created: "map (\<lambda>kv. j_created_at (snd kv)) (q_jobs q') = map (\<lambda>kv. j_created_at (snd kv)) (q_jobs q)"
    using map_dict_set_same [OF j, of "\<lambda>kv. j_created_at (snd kv)" j'] by (simp add: q'(1) j')
  have get: "dict_get (q_jobs q') i = (if i = jid then Some j' else dict_get (q_jobs q) i)" for i
    by (simp add: q'(1))
  have st: "started_ids q' = started_ids q"
    using I(8) [OF busy] by (simp add: ids remdups_snoc_last)
  have enq: "enqueued_ids q' = enqueued_ids q" using j'(4) by (simp add: ids)
  have nq: "jid \<notin> set (q_queue q)"
    using started_not_queued [OF inv] busy_started [OF inv busy] by blast
  show ?thesis
    unfolding queue_inv_def
  proof (intro conjI)
    show "distinct (dict_keys (q_jobs q'))" using I(1) by (simp only: keys)
    show "enqueued_ids q' = dict_keys (q_jobs q')" using I(2) by (simp only: enq keys)
    show "enqueued_ids q' = started_ids q' @ q_queue q'"
      using I(3) by (simp only: enq st q'(3))
    show "sorted (map (\<lambda>kv. j_created_at (snd kv)) (q_jobs q'))" using I(4) by (simp only: created)
    show "\<forall>kv \<in> set (q_jobs q'). j_created_at (snd kv) \<le> q_clock q' \<and> j_id (snd kv) = fst kv"
    proof
      fix kv assume "kv \<in> set (q_jobs q')"
      then have "kv = (jid, j') \<or> kv \<in> set (q_jobs q)"
        using dict_set_mem [of "fst kv" "snd kv" "q_jobs q" jid j'] by (simp add: q'(1))
      then show "j_created_at (snd kv) \<le> q_clock q' \<and> j_id (snd kv) = fst kv"
        using I(5) [of kv] I(5) [OF dict_get_in [OF j]] t by (auto simp: q' j')
    qed
    show "\<forall>i \<in> set (q_queue q'). \<exists>j c. dict_get (q_jobs q') i = Some j \<and> dict_get (q_callbacks q') i = Some c
        \<and> j_status j = QUEUED \<and> j_finished_at j = None \<and> j_exit_code j = None"
      using I(6) nq by (auto simp: get q'(2,3))
    show "\<forall>i \<in> set (started_ids q'). \<exists>j. dict_get (q_jobs q') i = Some j \<and> job_state_ok (q_worker q') i j"
    proof
      fix i assume "i \<in> set (started_ids q')"
      then have "i \<in> set (started_ids q)" by (simp add: st)
      from I(7) [OF this] j'(3) w show
        "\<exists>j. dict_get (q_jobs q') i = Some j \<and> job_state_ok (q_worker q') i j"
        by (auto simp: get q'(5) job_state_ok_def busy split: if_splits)
    qed
    show "\<forall>i. q_worker q' = Busy i \<longrightarrow> ids_with RUNNING q' \<noteq> [] \<and> last (ids_with RUNNING q') = i"
      using w by (simp add: q'(5))
  qed
qed

lemma busy_job:
  assumes "queue_inv q" "q_worker q = Busy jid"
  obtains j where "dict_get (q_jobs q) jid = Some j" "j_status j = RUNNING" "j_finished_at j = None"
    "j_exit_code j = None" "j_id j = jid"
proof -
  from queue_invD(7) [OF assms(1) busy_started [OF assms]] assms(2) obtain j
    where j: "dict_get (q_jobs q) jid = Some j" "job_state_ok (Busy jid) jid j" by auto
  moreover have "j_id j = jid" using queue_invD(5) [OF assms(1) dict_get_in [OF j(1)]] by simp
  ultimately show thesis by (intro that) (auto simp: job_state_ok_def)
qed

lemma finish_job_inv:
  assumes inv: "queue_inv q" and busy: "q_worker q = Busy jid" and t: "q_clock q \<le> now"
  shows "queue_inv (finish_job now ts jid out q)"
proof -
  obtain j where j: "dict_get (q_jobs q) jid = Some j" "j_status j = RUNNING" "j_finished_at j = None"
    "j_exit_code j = None" "j_id j = jid" by (rule busy_job [OF inv busy])
  show ?thesis
  proof (cases out)
    case Returned
    show ?thesis
      by (rule release_inv [OF inv busy t j(1),
            where j' = "j\<lparr>j_status := SUCCEEDED, j_exit_code := Some 0, j_finished_at := Some now\<rparr>"
            and w = Waiting])
        (simp_all add: finish_job_def j Returned notify_finished_def append_index_def job_state_ok_def Let_def)
  next
    case (Raised exc tx)
    show ?thesis
      by (rule release_inv [OF inv busy t j(1),
            where j' = "j\<lparr>j_status := FAILED, j_exit_code := Some 1, j_finished_at := Some now\<rparr>"
            and w = Waiting])
        (simp_all add: finish_job_def j Raised notify_finished_def append_index_def job_state_ok_def Let_def)
  qed
qed

lemma cancel_worker_inv:
  assumes inv: "queue_inv q" and t: "q_clock q \<le> now"
  shows "queue_inv (cancel_worker now q)"
proof (cases "q_worker q")
  case Stopped
  then show ?thesis using inv by (simp add: cancel_worker_def)
next
  case Waiting
  then show ?thesis using t by (intro queue_inv_frame [OF inv]) (simp_all add: cancel_worker_def)
next
  case (Busy jid)
  obtain j where j: "dict_get (q_jobs q) jid = Some j" "j_status j = RUNNING" "j_finished_at j = None"
    "j_exit_code j = None" "j_id j = jid" by (rule busy_job [OF inv Busy])
  show ?thesis
    by (rule release_inv [OF inv Busy t j(1), where j' = "j\<lparr>j_finished_at := Some now\<rparr>" and w = Stopped])
      (simp_all add: cancel_worker_def Busy j append_index_def job_state_ok_def Let_def)
qed

lemma queue_step_inv: "queue_step q q' \<Longrightarrow> queue_inv q \<Longrightarrow> queue_inv q'"
proof (induction rule: queue_step.induct)
  case (enqueued jid q now action target user params cb)
  then show ?case by (intro enqueue_inv)
next
  case (took q now q')
  then show ?case by (blast intro: worker_take_inv)
next
  case (finished q jid now ts out)
  then show ?case by (blast intro: finish_job_inv)
next
  case (cancelled q now)
  then show ?case by (blast intro: cancel_worker_inv)
next
  case (started q)
  from started.prems show ?case by (rule queue_inv_frame) (simp_all add: start_def)
next
  case (stopped q)
  from stopped.prems show ?case by (rule queue_inv_frame) (simp_all add: stop_def)
next
  case (listened q l)
  from listened.prems show ?case by (rule queue_inv_frame) (simp_all add: add_finished_listener_def)
next
  case (logged q jid line)
  from logged.prems show ?case by (rule queue_inv_frame) simp_all
qed

lemma is_init_queue_inv: "is_init_queue q \<Longrightarrow> queue_inv q"
  by (induction rule: is_init_queue.induct)
    (simp add: queue_inv_def init_queue_def ids_with_def job_state_ok_def)

interpretation jq: invariant_system is_init_queue queue_step queue_inv
  by unfold_locales (auto intro: is_init_queue_inv queue_step_inv)

section \<open>Properties\<close>

lemma sorted_by_jobs:
  assumes "queue_inv q"
  shows "sorted_by j_created_at (map snd (q_jobs q)) = map snd (q_jobs q)"
  using queue_invD(4) [OF assms] by (simp add: sort_key_id_if_sorted comp_def)

lemma values_at: "dict_ok d \<Longrightarrow> map snd d = map (\<lambda>k. the (dict_get d k)) (dict_keys d)"
  by (auto simp: dict_get_mem)

lemma find_first_append_none:
  "\<forall>x \<in> set xs. \<not> p x \<Longrightarrow> find_first p (xs @ ys) = find_first p ys"
  by (induction xs) (auto simp: find_first_def)

lemma remdups_last: "xs \<noteq> [] \<Longrightarrow> last (remdups xs) = last xs"
  by (induction xs) auto

text \<open>C4: At most one job is in the worker's hands: in every reachable state, two jobs that are
  running and not over are the same job.\<close>

theorem single_flight:
  assumes "reachable_queue q"
    and "dict_get (q_jobs q) a = Some j" "j_status j = RUNNING" "j_finished_at j = None"
    and "dict_get (q_jobs q) b = Some k" "j_status k = RUNNING" "j_finished_at k = None"
  shows "a = b"
proof -
  from assms(1) have inv: "queue_inv q" by (rule jq.reach_inv)
  have busy: "q_worker q = Busy i"
    if "dict_get (q_jobs q) i = Some m" "j_status m = RUNNING" "j_finished_at m = None" for i m
  proof -
    from that(1) have "i \<in> set (dict_keys (q_jobs q))" using dict_get_in by force
    then have "i \<in> set (started_ids q) \<or> i \<in> set (q_queue q)"
      using queue_invD(2,3) [OF inv] by (metis Un_iff set_append)
    then show ?thesis
      using queue_invD(6,7) [OF inv, of i] that by (auto simp: job_state_ok_def split: if_splits)
  qed
  from busy [OF assms(2-4)] busy [OF assms(5-7)] show ?thesis by simp
qed

definition demo_queue :: "unit queue_state" where
  "demo_queue = start (fst (enqueue 5 ''a'' ''backup'' ''t'' ''u'' (PDict []) () (init_queue 0)))"

definition demo_running :: "unit queue_state" where
  "demo_running = the (worker_take 6 demo_queue)"

lemmas demo_simps = demo_running_def demo_queue_def worker_take_def start_def enqueue_def
  init_queue_def append_index_def Let_def dict_get_def new_job_def

lemma demo_queue_reachable: "reachable_queue demo_queue"
  unfolding demo_queue_def
proof (rule reach.reach_step [OF reach.reach_step [OF reach.reach_init]])
  show "is_init_queue (init_queue 0)" by (rule is_init_queue.intros)
  show "queue_step (init_queue 0) (fst (enqueue 5 ''a'' ''backup'' ''t'' ''u'' (PDict []) () (init_queue 0)))"
    by (rule queue_step.enqueued) (simp_all add: init_queue_def)
qed (rule queue_step.started)

lemma demo_running_step: "worker_take 6 demo_queue = Some demo_running"
  by (simp add: demo_simps)

lemma demo_running_reachable: "reachable_queue demo_running"
  by (rule reach.reach_step [OF demo_queue_reachable], rule queue_step.took [OF _ _ demo_running_step])
    (simp_all add: demo_simps)

lemma demo_running_job:
  "dict_get (q_jobs demo_running) ''a'' =
     Some ((new_job 5 ''a'' ''backup'' ''t'' ''u'' (PDict []))\<lparr>j_status := RUNNING, j_started_at := Some 6\<rparr>)"
  by (simp add: demo_simps)

theorem single_flight_witness:
  "reachable_queue demo_running \<and> fst (last (q_jobs demo_running)) = fst (hd (q_jobs demo_running))"
proof -
  have "fst (last (q_jobs demo_running)) = ''a''" "fst (hd (q_jobs demo_running)) = ''a''"
    by (simp_all add: demo_simps)
  then show ?thesis
    using demo_running_reachable
      single_flight [OF demo_running_reachable _ _ _ demo_running_job,
        of "fst (last (q_jobs demo_running))"] demo_running_job
    by (simp add: new_job_def)
qed

text \<open>The queue is first in, first out, and runs every job once: in every reachable state the
  ids in the order they were queued are the ids in the order they were started, each once, followed
  by the ids that still wait.\<close>

theorem fifo_exactly_once:
  assumes "reachable_queue q"
  shows "enqueued_ids q = started_ids q @ q_queue q \<and> distinct (enqueued_ids q)"
proof -
  from assms have inv: "queue_inv q" by (rule jq.reach_inv)
  show ?thesis using queue_invD(1-3) [OF inv] by metis
qed

theorem fifo_exactly_once_witness:
  "enqueued_ids demo_running = started_ids demo_running @ q_queue demo_running
    \<and> distinct (enqueued_ids demo_running)"
  by (rule fifo_exactly_once [OF demo_running_reachable])

text \<open>The one answer to "is something in flight": while the worker runs a job and no earlier job
  was cut short by a shutdown, \<open>active_job\<close> is the job the worker holds, not one that waits.\<close>

theorem active_job_is_running_job:
  assumes "reachable_queue q" "q_worker q = Busy jid"
    and "\<forall>kv \<in> set (q_jobs q). j_status (snd kv) = RUNNING \<longrightarrow> j_finished_at (snd kv) = None"
  shows "active_job q = get_job q jid"
proof -
  from assms(1) have inv: "queue_inv q" by (rule jq.reach_inv)
  note I = queue_invD [OF inv]
  obtain j where j: "dict_get (q_jobs q) jid = Some j" "j_status j = RUNNING"
    by (rule busy_job [OF inv assms(2)])
  let ?st = "started_ids q"
  have "?st \<noteq> []" using busy_started [OF inv assms(2)] by (metis empty_iff empty_set)
  moreover have "last ?st = jid" using I(8) [OF assms(2)] remdups_last by metis
  ultimately have st: "?st = butlast ?st @ [jid]" by (metis append_butlast_last_id)
  have vals: "map snd (q_jobs q) = map (\<lambda>k. the (dict_get (q_jobs q) k)) (butlast ?st @ [jid] @ q_queue q)"
    using values_at [of "q_jobs q"] I(1-3) st by (metis append.assoc dict_ok_def)
  have "\<not> unfinished (the (dict_get (q_jobs q) i))" if "i \<in> set (butlast ?st)" for i
  proof -
    have "i \<noteq> jid" using that st by (metis distinct_append distinct_remdups disjoint_insert(1) empty_set list.simps(15) not_distinct_conv_prefix append_Nil)
    moreover have "i \<in> set ?st" using that by (rule in_set_butlastD)
    ultimately obtain m where m: "dict_get (q_jobs q) i = Some m" "j_finished_at m \<noteq> None"
        "j_status m \<noteq> QUEUED"
      using I(7) [of i] assms(2) by (auto simp: job_state_ok_def)
    then have "j_status m \<noteq> RUNNING" using assms(3) dict_get_in [OF m(1)] by force
    with m show ?thesis by (simp add: unfinished_def)
  qed
  then have "find_first unfinished (map snd (q_jobs q)) = Some j"
    unfolding vals map_append using j
    by (subst find_first_append_none) (auto simp: find_first_def unfinished_def)
  then show ?thesis by (simp add: active_job_def get_job_def sorted_by_jobs [OF inv] j)
qed

theorem active_job_is_running_job_witness:
  "active_job demo_running = get_job demo_running ''a''"
proof (rule active_job_is_running_job [OF demo_running_reachable])
  show "q_worker demo_running = Busy ''a''"
    by (simp add: demo_simps)
  show "\<forall>kv \<in> set (q_jobs demo_running). j_status (snd kv) = RUNNING \<longrightarrow> j_finished_at (snd kv) = None"
    by (simp add: demo_simps)
qed

text \<open>A job that failed leaves a trace: in one step its status, exit code and end are set, one
  audit entry with the class of the exception is written under the job's user and action, and the
  worker waits for the next job.\<close>

theorem failed_job_recorded:
  assumes "reachable_queue q" "q_worker q = Busy jid"
  shows "\<exists>j. get_job q jid = Some j
    \<and> get_job (finish_job now ts jid (Raised exc text) q) jid =
        Some (j\<lparr>j_status := FAILED, j_exit_code := Some 1, j_finished_at := Some now\<rparr>)
    \<and> q_audit (finish_job now ts jid (Raised exc text) q) = q_audit q @ [job_error_entry ts j exc]
    \<and> q_worker (finish_job now ts jid (Raised exc text) q) = Waiting"
proof -
  from assms(1) have inv: "queue_inv q" by (rule jq.reach_inv)
  obtain j where "dict_get (q_jobs q) jid = Some j" by (rule busy_job [OF inv assms(2)])
  then show ?thesis
    by (simp add: get_job_def finish_job_def notify_finished_def append_index_def Let_def)
qed

theorem failed_job_recorded_witness:
  "\<exists>j. get_job demo_running ''a'' = Some j
    \<and> get_job (finish_job 9 ''ts'' ''a'' (Raised ''CtlError'' ''boom'') demo_running) ''a'' =
        Some (j\<lparr>j_status := FAILED, j_exit_code := Some 1, j_finished_at := Some 9\<rparr>)
    \<and> q_audit (finish_job 9 ''ts'' ''a'' (Raised ''CtlError'' ''boom'') demo_running)
        = q_audit demo_running @ [job_error_entry ''ts'' j ''CtlError'']
    \<and> q_worker (finish_job 9 ''ts'' ''a'' (Raised ''CtlError'' ''boom'') demo_running) = Waiting"
  by (rule failed_job_recorded [OF demo_running_reachable])
    (simp add: demo_simps)

end
