(* ===== verification/Job_Server.thy ===== *)
theory Job_Server
  imports Job_Queue
begin

text \<open>
  What the job queue promises to the rest of the manager, without its files, times and callbacks: a server that serves
  one id at a time, in the order of arrival. The queue of \<open>src/src/app/core/jobs.py\<close> refines it, and from every state
  with a live worker the jobs that wait can all be carried out.
\<close>

section \<open>The specification\<close>

record server =
  srv_waiting :: "string list"
  srv_serving :: "string option"
  srv_over :: "string list"

inductive server_init :: "server \<Rightarrow> bool" where
  "server_init \<lparr>srv_waiting = [], srv_serving = None, srv_over = []\<rparr>"

definition known_ids :: "server \<Rightarrow> string list" where
  "known_ids a = srv_over a @ (case srv_serving a of None \<Rightarrow> [] | Some x \<Rightarrow> [x]) @ srv_waiting a"

inductive server_step :: "server \<Rightarrow> server \<Rightarrow> bool" where
  arrives: "x \<notin> set (known_ids a) \<Longrightarrow> server_step a (a\<lparr>srv_waiting := srv_waiting a @ [x]\<rparr>)"
| begins: "srv_serving a = None \<Longrightarrow> srv_waiting a = x # xs \<Longrightarrow>
    server_step a (a\<lparr>srv_waiting := xs, srv_serving := Some x\<rparr>)"
| ends: "srv_serving a = Some x \<Longrightarrow> server_step a (a\<lparr>srv_serving := None, srv_over := srv_over a @ [x]\<rparr>)"

inductive_cases server_stepE: "server_step a b"

text \<open>The specification itself: nothing is served twice or lost, and the order of arrival is kept.\<close>

lemma server_step_known: "server_step a b \<Longrightarrow> \<exists>new. known_ids b = known_ids a @ new"
  by (induction rule: server_step.induct) (auto simp: known_ids_def split: option.splits)

lemma server_step_distinct: "server_step a b \<Longrightarrow> distinct (known_ids a) \<Longrightarrow> distinct (known_ids b)"
  by (induction rule: server_step.induct) (auto simp: known_ids_def split: option.splits)

interpretation js: invariant_system server_init server_step "\<lambda>a. distinct (known_ids a)"
proof
  show "distinct (known_ids a)" if "server_init a" for a using that by cases (simp add: known_ids_def)
qed (rule server_step_distinct)

lemma server_steps_known: "server_step\<^sup>*\<^sup>* a b \<Longrightarrow> \<exists>new. known_ids b = known_ids a @ new"
proof (induction rule: rtranclp_induct)
  case (step b c)
  then show ?case using server_step_known [OF step(2)] by (metis append.assoc)
qed simp

section \<open>The queue as a server\<close>

definition serving :: "'cb queue_state \<Rightarrow> string option" where
  "serving q = (case q_worker q of Busy jid \<Rightarrow> Some jid | _ \<Rightarrow> None)"

definition server_of :: "'cb queue_state \<Rightarrow> server" where
  "server_of q = \<lparr>srv_waiting = q_queue q, srv_serving = serving q,
     srv_over = (if serving q = None then started_ids q else butlast (started_ids q))\<rparr>"

lemma started_split:
  assumes "queue_inv q"
  shows "started_ids q = srv_over (server_of q) @ (case serving q of None \<Rightarrow> [] | Some x \<Rightarrow> [x])"
proof (cases "serving q")
  case (Some jid)
  then have "q_worker q = Busy jid" by (simp add: serving_def split: worker.splits)
  then have "ids_with RUNNING q \<noteq> []" "last (ids_with RUNNING q) = jid" using queue_invD(8) [OF assms] by auto
  then have "started_ids q \<noteq> []" "last (started_ids q) = jid" by (auto simp: remdups_last)
  then have "started_ids q = butlast (started_ids q) @ [jid]" by (metis append_butlast_last_id)
  then show ?thesis using Some by (simp only: server_of_def server.select_convs option.simps if_False)
qed (simp add: server_of_def)

lemma known_of_queue:
  assumes "queue_inv q" shows "known_ids (server_of q) = enqueued_ids q"
proof -
  have "known_ids (server_of q) = (srv_over (server_of q) @ (case serving q of None \<Rightarrow> [] | Some x \<Rightarrow> [x])) @ q_queue q"
    unfolding known_ids_def server_of_def by (simp only: server.select_convs append.assoc)
  also have "\<dots> = started_ids q @ q_queue q" by (simp only: started_split [OF assms, symmetric])
  finally show ?thesis by (simp only: queue_invD(3) [OF assms])
qed

lemma server_of_same:
  "q_queue q' = q_queue q \<Longrightarrow> serving q' = serving q \<Longrightarrow> ids_with RUNNING q' = ids_with RUNNING q \<Longrightarrow>
     server_of q' = server_of q"
  by (simp add: server_of_def)

lemma enqueue_abs:
  assumes "queue_inv q" "jid \<notin> set (dict_keys (q_jobs q))"
  shows "server_step (server_of q) (server_of (fst (enqueue now jid action target user params cb q)))" (is "server_step _ (server_of ?q)")
proof -
  have i: "ids_with RUNNING ?q = ids_with RUNNING q"
    by (simp add: enqueue_def append_index_def Let_def new_job_def ids_with_def)
  have s: "serving ?q = serving q" "q_queue ?q = q_queue q @ [jid]"
    by (simp_all add: enqueue_def append_index_def Let_def serving_def)
  have e: "server_of ?q = (server_of q)\<lparr>srv_waiting := srv_waiting (server_of q) @ [jid]\<rparr>"
    by (simp add: server_of_def s i)
  have "jid \<notin> set (known_ids (server_of q))"
    using assms known_of_queue [OF assms(1)] queue_invD(2) [OF assms(1)] by metis
  then show ?thesis unfolding e by (rule arrives)
qed

lemma take_abs:
  assumes inv: "queue_inv q" and idle: "q_worker q = Waiting" and take: "worker_take now q = Some q'"
  shows "server_step (server_of q) (server_of q')"
proof -
  note I = queue_invD [OF inv]
  from take obtain jid rest where qq: "q_queue q = jid # rest"
    by (auto simp: worker_take_def split: list.splits)
  with I(6) [of jid] obtain j cb where j: "dict_get (q_jobs q) jid = Some j"
    "dict_get (q_callbacks q) jid = Some cb" by auto
  have jid: "j_id j = jid" using I(5) dict_get_in [OF j(1)] by fastforce
  have q': "q_queue q' = rest" "serving q' = Some jid" "ids_with RUNNING q' = ids_with RUNNING q @ [jid]"
    using take qq j jid by (auto simp: worker_take_def Let_def append_index_def serving_def ids_with_def)
  have "distinct (started_ids q @ jid # rest)" using I(1-3) qq by metis
  then have new: "jid \<notin> set (ids_with RUNNING q)" by simp
  have "serving q = None" using idle by (simp add: serving_def)
  then have "server_of q' = (server_of q)\<lparr>srv_waiting := rest, srv_serving := Some jid\<rparr>"
    using new by (simp add: server_of_def q' remdups_snoc_new)
  moreover have "srv_serving (server_of q) = None" "srv_waiting (server_of q) = jid # rest"
    using idle qq by (simp_all add: server_of_def serving_def)
  ultimately show ?thesis by (metis begins)
qed

text \<open>The worker lets go of its job, however that ended.\<close>

lemma release_abs:
  assumes inv: "queue_inv q" and busy: "q_worker q = Busy jid" and s: "s \<noteq> QUEUED"
    and q': "q_queue q' = q_queue q" "serving q' = None" "q_index q' = q_index q @ [(jid, s)]"
  shows "server_step (server_of q) (server_of q')"
proof -
  have sv: "serving q = Some jid" using busy by (simp add: serving_def)
  have "started_ids q' = started_ids q"
    using queue_invD(8) [OF inv busy] by (simp add: ids_with_append [OF q'(3)] remdups_snoc_last)
  also have "\<dots> = srv_over (server_of q) @ [jid]" using started_split [OF inv] sv by (simp only: option.simps)
  finally have st: "started_ids q' = srv_over (server_of q) @ [jid]" .
  obtain over where ov: "over = srv_over (server_of q)" by blast
  have "server_of q' = \<lparr>srv_waiting = q_queue q, srv_serving = None, srv_over = over @ [jid]\<rparr>"
    unfolding ov st [symmetric] by (simp add: server_of_def q')
  also have "\<dots> = (server_of q)\<lparr>srv_serving := None, srv_over := over @ [jid]\<rparr>" by (simp add: server_of_def)
  finally have "server_of q' = (server_of q)\<lparr>srv_serving := None, srv_over := srv_over (server_of q) @ [jid]\<rparr>" by (simp only: ov)
  moreover have "srv_serving (server_of q) = Some jid" using sv by (simp add: server_of_def)
  ultimately show ?thesis by (metis ends)
qed

lemma finish_abs:
  assumes inv: "queue_inv q" and busy: "q_worker q = Busy jid"
  shows "server_step (server_of q) (server_of (finish_job now ts jid out q))"
proof -
  obtain j where j: "dict_get (q_jobs q) jid = Some j" "j_id j = jid" by (rule busy_job [OF inv busy])
  show ?thesis
    by (rule release_abs [OF inv busy, where s = "case out of Returned \<Rightarrow> SUCCEEDED | Raised _ _ \<Rightarrow> FAILED"])
      (cases out; simp add: finish_job_def j notify_finished_def append_index_def Let_def serving_def)+
qed

lemma cancel_abs:
  assumes inv: "queue_inv q"
  shows "server_of (cancel_worker now q) = server_of q \<or> server_step (server_of q) (server_of (cancel_worker now q))"
proof (cases "q_worker q")
  case (Busy jid)
  obtain j where j: "dict_get (q_jobs q) jid = Some j" "j_status j = RUNNING" "j_id j = jid" by (rule busy_job [OF inv Busy])
  have "server_step (server_of q) (server_of (cancel_worker now q))"
    by (rule release_abs [OF inv Busy, where s = RUNNING])
      (simp_all add: cancel_worker_def Busy j append_index_def Let_def serving_def)
  then show ?thesis by blast
qed (auto intro!: server_of_same simp: cancel_worker_def serving_def ids_with_def)

lemma queue_step_abs:
  assumes "queue_inv q" "queue_step q q'"
  shows "server_of q' = server_of q \<or> server_step (server_of q) (server_of q')"
  using assms(2)
proof cases
  case (enqueued jid now action target user params cb)
  then show ?thesis using enqueue_abs [OF assms(1)] by blast
next
  case (took now)
  then show ?thesis using take_abs [OF assms(1)] by blast
next
  case (finished jid now ts out)
  then show ?thesis using finish_abs [OF assms(1)] by blast
next
  case (cancelled now)
  then show ?thesis using cancel_abs [OF assms(1)] by blast
qed (auto intro!: server_of_same simp: start_def stop_def add_finished_listener_def serving_def ids_with_def)

interpretation jr: refinement is_init_queue queue_step queue_inv server_init server_step server_of
proof
  show "server_init (server_of q)" if "is_init_queue q" for q :: "'a queue_state"
    using that by cases (simp add: server_of_def init_queue_def serving_def ids_with_def server_init.intros)
qed (rule queue_step_abs)

section \<open>Properties\<close>

text \<open>C2: The job queue refines a server that takes one job at a time in the order of arrival: every reachable state shows a
  reachable state of that server, every run of the queue from there is one of the server, and the ids known to the one
  are those queued in the other.\<close>

theorem queue_refines_server:
  assumes "reachable_queue q" "queue_step\<^sup>*\<^sup>* q q'"
  shows "reach server_init server_step (server_of q) \<and> server_step\<^sup>*\<^sup>* (server_of q) (server_of q')
    \<and> known_ids (server_of q) = enqueued_ids q
    \<and> (\<exists>later. known_ids (server_of q') = known_ids (server_of q) @ later)"
  using jr.reach_abs [OF assms(1)] jr.steps_abs [OF jq.reach_inv [OF assms(1)] assms(2)]
    known_of_queue [OF jq.reach_inv [OF assms(1)]] server_steps_known by blast

theorem queue_refines_server_witness:
  "server_step\<^sup>*\<^sup>* (server_of demo_queue) (server_of demo_running)
    \<and> server_of demo_queue = \<lparr>srv_waiting = [''a''], srv_serving = None, srv_over = []\<rparr>
    \<and> server_of demo_running = \<lparr>srv_waiting = [], srv_serving = Some ''a'', srv_over = []\<rparr>"
proof -
  have "queue_step demo_queue demo_running"
    by (rule queue_step.took [OF _ _ demo_running_step]) (simp_all add: demo_simps)
  then have "queue_step\<^sup>*\<^sup>* demo_queue demo_running" by (rule r_into_rtranclp [of queue_step])
  from queue_refines_server [OF demo_queue_reachable this]
  have "server_step\<^sup>*\<^sup>* (server_of demo_queue) (server_of demo_running)" by blast
  then show ?thesis
    by (simp only: simp_thms) (simp add: server_of_def serving_def ids_with_def demo_simps)
qed

text \<open>Nothing waits for ever: a callback that is running ends in one step, and a waiting worker takes the next.\<close>

lemma finish_frame:
  assumes "queue_inv q" "q_worker q = Busy jid"
  shows "q_worker (finish_job now ts jid out q) = Waiting" "q_queue (finish_job now ts jid out q) = q_queue q"
proof -
  obtain j where "dict_get (q_jobs q) jid = Some j" by (rule busy_job [OF assms])
  then show "q_worker (finish_job now ts jid out q) = Waiting" "q_queue (finish_job now ts jid out q) = q_queue q"
    by (cases out; simp add: finish_job_def notify_finished_def append_index_def Let_def)+
qed

lemma take_total:
  assumes "queue_inv q" "q_queue q = jid # rest"
  shows "\<exists>q'. worker_take now q = Some q' \<and> q_worker q' = Busy jid \<and> q_queue q' = rest"
  using queue_invD(6) [OF assms(1), of jid] assms(2)
  by (auto simp: worker_take_def Let_def append_index_def)

lemma idle_drains:
  assumes "queue_inv q" "q_worker q = Waiting"
  shows "\<exists>q'. queue_step\<^sup>*\<^sup>* q q' \<and> q_queue q' = [] \<and> q_worker q' = Waiting"
  using assms
proof (induction "q_queue q" arbitrary: q)
  case (Cons jid rest)
  obtain q1 where t: "worker_take (q_clock q) q = Some q1" "q_worker q1 = Busy jid" "q_queue q1 = rest"
    using take_total [OF Cons.prems(1) Cons.hyps(2) [symmetric], of "q_clock q"] by blast
  have s1: "queue_step q q1" by (rule queue_step.took [OF Cons.prems(2) order_refl t(1)])
  let ?q2 = "finish_job (q_clock q1) [] jid Returned q1"
  have s2: "queue_step q1 ?q2" by (rule queue_step.finished [OF t(2) order_refl])
  have i1: "queue_inv q1" using queue_step_inv [OF s1 Cons.prems(1)] .
  from finish_frame [OF i1 t(2), of "q_clock q1" "[]" Returned] t(3) Cons.hyps(1) [of ?q2] queue_step_inv [OF s2 i1]
  obtain q' where "queue_step\<^sup>*\<^sup>* ?q2 q'" "q_queue q' = []" "q_worker q' = Waiting" by auto
  with s1 s2 show ?case by (meson converse_rtranclp_into_rtranclp)
qed auto

text \<open>C35: The queue never gets stuck: from every reachable state, whatever has happened before (a stop, a cancelled job,
  failed jobs), it can go on to a state in which every job that was queued has been started and none waits.\<close>

theorem queue_never_stuck:
  assumes "reachable_queue q"
  shows "\<exists>q'. queue_step\<^sup>*\<^sup>* q q' \<and> q_queue q' = [] \<and> q_worker q' = Waiting \<and> set (enqueued_ids q) \<subseteq> set (started_ids q')"
proof -
  have inv: "queue_inv q" by (rule jq.reach_inv [OF assms])
  obtain q1 where q1: "queue_step\<^sup>*\<^sup>* q q1" "q_worker q1 = Waiting" "queue_inv q1"
  proof (cases "q_worker q")
    case Stopped
    have s: "queue_step q (start q)" by (rule queue_step.started)
    then have "queue_step\<^sup>*\<^sup>* q (start q)" by (rule r_into_rtranclp [of queue_step])
    then show thesis
      by (rule that) (use Stopped queue_step_inv [OF s inv] in \<open>simp_all add: start_def\<close>)
  next
    case Waiting
    then show thesis using that inv by blast
  next
    case (Busy jid)
    have s: "queue_step q (finish_job (q_clock q) [] jid Returned q)" by (rule queue_step.finished [OF Busy order_refl])
    then have "queue_step\<^sup>*\<^sup>* q (finish_job (q_clock q) [] jid Returned q)" by (rule r_into_rtranclp [of queue_step])
    then show thesis
      by (rule that) (use finish_frame [OF inv Busy] queue_step_inv [OF s inv] in simp_all)
  qed
  from idle_drains [OF q1(3,2)] obtain q' where q': "queue_step\<^sup>*\<^sup>* q1 q'" "q_queue q' = []" "q_worker q' = Waiting" by blast
  have run: "queue_step\<^sup>*\<^sup>* q q'" using q1(1) q'(1) by simp
  have inv': "queue_inv q'" by (rule jq.steps_inv [OF inv run])
  obtain later where "known_ids (server_of q') = known_ids (server_of q) @ later"
    using server_steps_known [OF jr.steps_abs [OF inv run]] by blast
  then have "set (enqueued_ids q) \<subseteq> set (enqueued_ids q')" using known_of_queue [OF inv] known_of_queue [OF inv'] by simp
  with queue_invD(3) [OF inv'] q' run show ?thesis by (metis append_Nil2)
qed

theorem queue_never_stuck_witness:
  "\<exists>q'. queue_step\<^sup>*\<^sup>* demo_queue q' \<and> q_queue q' = [] \<and> q_worker q' = Waiting
    \<and> set (enqueued_ids demo_queue) \<subseteq> set (started_ids q')"
  by (rule queue_never_stuck [OF demo_queue_reachable])

end
