(* ===== verification/Backups.thy ===== *)
theory Backups
  imports Py_Prelude
begin

text \<open>
  The backup catalogue (\<open>core/backups.py\<close>) and the reading of environment files
  (\<open>core/envfile.py\<close>). A file system is a function from paths to what they name. \<open>yaml.safe_load\<close> is
  the argument \<open>load\<close> (\<open>None\<close> when the text is not YAML), \<open>datetime.fromisoformat\<close> the argument
  \<open>fromiso\<close>, and the two conversions of a float are the arguments \<open>flt\<close> (\<open>float(v)\<close>) and \<open>trunc\<close>
  (\<open>int(x)\<close> on a float): floats are opaque, and no decision of the catalogue depends on one.
\<close>

section \<open>Environment files\<close>

definition env_line :: "(string, string) dict \<Rightarrow> string \<Rightarrow> (string, string) dict" where
  "env_line result raw_line =
     (let line = py_strip raw_line in
      if line = [] \<or> startswith line ''#'' \<or> CHR ''='' \<notin> set line then result
      else case partition_char (CHR ''='') line of (key, _, val) \<Rightarrow>
        dict_set result (py_strip key) (py_strip val))"

definition parse_env_text :: "string \<Rightarrow> (string, string) dict" where
  "parse_env_text text = foldl env_line [] (splitlines text)"

definition load_env_file :: "fs \<Rightarrow> string \<Rightarrow> py_exn + (string, string) dict" where
  "load_env_file files path =
     (if is_file files path then rbind (read_text files path) (\<lambda>t. Inr (parse_env_text t)) else Inr [])"

section \<open>Restore points\<close>

record restore_point =
  rp_id :: string
  rp_created_at :: string
  rp_size_mb :: pyval
  rp_result :: string
  rp_artifacts :: int
  rp_addons :: "string list"
  rp_papaia_version :: string
  rp_project :: string
  rp_scope :: "string list"

definition RESULT_OK :: string where "RESULT_OK = ''ok''"
definition RESULT_PARTIAL :: string where "RESULT_PARTIAL = ''partial''"
definition RESULT_FAILED :: string where "RESULT_FAILED = ''failed''"
definition INDEX_NAME :: string where "INDEX_NAME = ''backup.yaml''"
definition MANIFEST_NAME :: string where "MANIFEST_NAME = ''manifest.yaml''"

definition is_scoped :: "restore_point \<Rightarrow> bool" where
  "is_scoped p \<longleftrightarrow> rp_scope p \<noteq> []"

definition is_usable :: "restore_point \<Rightarrow> bool" where
  "is_usable p \<longleftrightarrow> rp_result p \<noteq> RESULT_FAILED"

text \<open>\<open>_ID_RE\<close>: a digit for each \<open>d\<close> of the picture, the mark itself for any other.\<close>

definition id_picture :: string where
  "id_picture = ''dddd-dd-dd_dd-dd-dd''"

definition id_shape :: "string \<Rightarrow> bool" where
  "id_shape s \<longleftrightarrow> list_all2 (\<lambda>p c. if p = CHR ''d'' then is_digit c else c = p) id_picture s"

definition is_valid_restore_point_id :: "string \<Rightarrow> bool" where
  "is_valid_restore_point_id s \<longleftrightarrow> match_dollar id_shape s"

definition resolve_backup_dir :: "fs \<Rightarrow> string \<Rightarrow> py_exn + string option" where
  "resolve_backup_dir files config_dir =
     rbind (load_env_file files (path_join config_dir ''.env'')) (\<lambda>env.
       Inr (case dict_get env ''PAPAIA_BACKUP_DIR'' of
              None \<Rightarrow> None
            | Some v \<Rightarrow> if v = [] then None else Some (path_of v)))"

definition is_reachable :: "fs \<Rightarrow> string option \<Rightarrow> bool" where
  "is_reachable files dir = (case dir of None \<Rightarrow> False | Some d \<Rightarrow> is_dir files d)"

text \<open>\<open>int(v)\<close>; on a text, surrounding space, a sign and single underscores between digits are allowed.\<close>

fun digits_ok :: "string \<Rightarrow> bool" where
  "digits_ok [] = False"
| "digits_ok [c] = is_digit c"
| "digits_ok (c # d # s) =
     (is_digit c \<and> (if d = CHR ''_'' then s \<noteq> [] \<and> hd s \<noteq> CHR ''_'' \<and> digits_ok s else digits_ok (d # s)))"

definition int_of_text :: "string \<Rightarrow> py_exn + int" where
  "int_of_text text =
     (let s = py_strip text;
          neg = startswith s ''-'';
          ds = (if neg \<or> startswith s ''+'' then tl s else s)
      in if digits_ok ds
         then Inr ((if neg then - 1 else 1) * int (int_of_digits (filter (\<lambda>c. c \<noteq> CHR ''_'') ds)))
         else Inl ValueError)"

definition py_int :: "(string \<Rightarrow> py_exn + int) \<Rightarrow> pyval \<Rightarrow> py_exn + int" where
  "py_int trunc v = (case v of
      PInt i \<Rightarrow> Inr i
    | PBool b \<Rightarrow> Inr (if b then 1 else 0)
    | PFloat r \<Rightarrow> trunc r
    | PStr s \<Rightarrow> int_of_text s
    | _ \<Rightarrow> Inl TypeError)"

definition soft :: "'a \<Rightarrow> py_exn + 'a \<Rightarrow> py_exn + 'a" where
  "soft d m = (case m of
      Inl e \<Rightarrow> if e = TypeError \<or> e = ValueError \<or> e = UnicodeDecodeError then Inr d else Inl e
    | Inr a \<Rightarrow> Inr a)"

definition as_int :: "(string \<Rightarrow> py_exn + int) \<Rightarrow> pyval \<Rightarrow> py_exn + int" where
  "as_int trunc v = soft 0 (py_int trunc v)"

definition as_float :: "(pyval \<Rightarrow> py_exn + pyval) \<Rightarrow> pyval \<Rightarrow> py_exn + pyval" where
  "as_float flt v = soft (PFloat ''0.0'') (flt v)"

definition restore_point_from_dict ::
  "(pyval \<Rightarrow> py_exn + pyval) \<Rightarrow> (string \<Rightarrow> py_exn + int) \<Rightarrow> (string, pyval) dict
    \<Rightarrow> py_exn + restore_point" where
  "restore_point_from_dict flt trunc raw =
     rbind (str_list (get_none raw ''addons'')) (\<lambda>addons.
     rbind (as_float flt (get_none raw ''size_mb'')) (\<lambda>size.
     rbind (as_int trunc (get_none raw ''artifacts'')) (\<lambda>artifacts.
     rbind (str_list (get_none raw ''scope'')) (\<lambda>scope.
       Inr \<lparr>rp_id = py_str_of (get_or raw ''id'' (PStr [])),
            rp_created_at = py_str_of (get_or raw ''created_at'' (PStr [])),
            rp_size_mb = size,
            rp_result = py_str_of (get_or raw ''result'' (PStr [])),
            rp_artifacts = artifacts,
            rp_addons = addons,
            rp_papaia_version = py_str_of (get_or raw ''papaia_version'' (PStr [])),
            rp_project = py_str_of (get_or raw ''project'' (PStr [])),
            rp_scope = scope\<rparr>))))"

text \<open>Reading a YAML file that fails soft: \<open>None\<close> is the warning and the early return.\<close>

definition read_yaml :: "(string \<Rightarrow> pyval option) \<Rightarrow> fs \<Rightarrow> string \<Rightarrow> py_exn + pyval option" where
  "read_yaml load files path =
     (case read_text files path of
        Inl e \<Rightarrow> if e = OSError then Inr None else Inl e
      | Inr t \<Rightarrow> Inr (map_option (\<lambda>v. py_or v (PDict [])) (load t)))"

definition mappings_of :: "pyval list \<Rightarrow> (string, pyval) dict list" where
  "mappings_of vs = concat (map (\<lambda>v. case v of PDict d \<Rightarrow> [d] | _ \<Rightarrow> []) vs)"

definition load_restore_points ::
  "(string \<Rightarrow> pyval option) \<Rightarrow> (pyval \<Rightarrow> py_exn + pyval) \<Rightarrow> (string \<Rightarrow> py_exn + int) \<Rightarrow> fs
    \<Rightarrow> string option \<Rightarrow> py_exn + restore_point list" where
  "load_restore_points load flt trunc files backup_dir =
     (case backup_dir of
        None \<Rightarrow> Inr []
      | Some d \<Rightarrow>
         let index_path = path_join d INDEX_NAME in
         if \<not> is_file files index_path then Inr []
         else rbind (read_yaml load files index_path) (\<lambda>raw. case raw of
             Some (PDict doc) \<Rightarrow>
               rbind (py_iter (py_or (get_none doc ''backups'') (PList []))) (\<lambda>entries.
               rbind (rmap (restore_point_from_dict flt trunc) (mappings_of entries)) (\<lambda>points.
                 Inr (sorted_desc rp_created_at points)))
           | _ \<Rightarrow> Inr []))"

definition restore_point_time :: "(string \<Rightarrow> iso_time option) \<Rightarrow> restore_point \<Rightarrow> instant option" where
  "restore_point_time fromiso p =
     (if rp_created_at p = [] then None
      else case fromiso (replace_char (CHR ''Z'') ''+00:00'' (rp_created_at p)) of
          None \<Rightarrow> None
        | Some (Aware t) \<Rightarrow> Some t
        | Some (Naive t) \<Rightarrow> Some t)"

definition newest_successful ::
  "(string \<Rightarrow> iso_time option) \<Rightarrow> restore_point list \<Rightarrow> restore_point option" where
  "newest_successful fromiso points =
     (let dated = concat (map (\<lambda>p.
            if rp_result p = RESULT_OK \<and> \<not> is_scoped p then
              (case restore_point_time fromiso p of None \<Rightarrow> [] | Some t \<Rightarrow> [(t, p)])
            else []) points)
      in map_option snd (max_by fst dated))"

definition count_older_than ::
  "(string \<Rightarrow> iso_time option) \<Rightarrow> restore_point list \<Rightarrow> int \<Rightarrow> instant \<Rightarrow> nat" where
  "count_older_than fromiso points days now =
     (let cutoff = now - days * us_day in
      length (filter (\<lambda>p. case restore_point_time fromiso p of None \<Rightarrow> False | Some t \<Rightarrow> t < cutoff) points))"

text \<open>What the readers of the catalogue need from the world, in one place.\<close>

record backup_env =
  be_load :: "string \<Rightarrow> pyval option"
  be_flt :: "pyval \<Rightarrow> py_exn + pyval"
  be_trunc :: "string \<Rightarrow> py_exn + int"
  be_fromiso :: "string \<Rightarrow> iso_time option"
  be_files :: fs

abbreviation points_in :: "backup_env \<Rightarrow> string option \<Rightarrow> py_exn + restore_point list" where
  "points_in E dir \<equiv> load_restore_points (be_load E) (be_flt E) (be_trunc E) (be_files E) dir"

definition last_successful_backup :: "backup_env \<Rightarrow> string option \<Rightarrow> py_exn + restore_point option" where
  "last_successful_backup E dir =
     rbind (points_in E dir) (\<lambda>points. Inr (newest_successful (be_fromiso E) points))"

definition last_backup_age :: "backup_env \<Rightarrow> string \<Rightarrow> instant \<Rightarrow> py_exn + timedelta option" where
  "last_backup_age E config_dir now =
     rbind (resolve_backup_dir (be_files E) config_dir) (\<lambda>dir.
     rbind (last_successful_backup E dir) (\<lambda>newest.
       Inr (case newest of
              None \<Rightarrow> None
            | Some p \<Rightarrow> map_option (\<lambda>taken. now - taken) (restore_point_time (be_fromiso E) p))))"

definition find_restore_point :: "backup_env \<Rightarrow> string option \<Rightarrow> string \<Rightarrow> py_exn + restore_point option" where
  "find_restore_point E dir rid =
     (if \<not> is_valid_restore_point_id rid then Inr None
      else rbind (points_in E dir) (\<lambda>points. Inr (find_first (\<lambda>p. rp_id p = rid) points)))"

definition snapshot_manifest ::
  "backup_env \<Rightarrow> string option \<Rightarrow> string \<Rightarrow> py_exn + (string, pyval) dict option" where
  "snapshot_manifest E dir rid =
     (case dir of
        None \<Rightarrow> Inr None
      | Some d \<Rightarrow>
         if \<not> is_valid_restore_point_id rid then Inr None
         else let manifest_path = path_join (path_join d rid) MANIFEST_NAME in
           if \<not> is_file (be_files E) manifest_path then Inr None
           else rbind (read_yaml (be_load E) (be_files E) manifest_path) (\<lambda>raw.
             Inr (case raw of Some (PDict doc) \<Rightarrow> Some doc | _ \<Rightarrow> None)))"

definition restore_point_to_dict :: "restore_point \<Rightarrow> (string, pyval) dict" where
  "restore_point_to_dict p =
     [(''id'', PStr (rp_id p)), (''created_at'', PStr (rp_created_at p)), (''size_mb'', rp_size_mb p),
      (''result'', PStr (rp_result p)), (''artifacts'', PInt (rp_artifacts p)),
      (''addons'', PList (map PStr (rp_addons p))), (''papaia_version'', PStr (rp_papaia_version p)),
      (''project'', PStr (rp_project p)), (''scope'', PList (map PStr (rp_scope p))),
      (''usable'', PBool (is_usable p))]"

section \<open>Lemmas\<close>

definition env_pair_ok :: "string \<times> string \<Rightarrow> bool" where
  "env_pair_ok kv \<longleftrightarrow> py_strip (fst kv) = fst kv \<and> py_strip (snd kv) = snd kv
     \<and> \<not> startswith (fst kv) ''#'' \<and> CHR ''='' \<notin> set (fst kv)
     \<and> list_all (\<lambda>c. \<not> is_linebreak c) (fst kv @ snd kv)"

definition env_text :: "(string \<times> string) list \<Rightarrow> string" where
  "env_text kvs = concat (map (\<lambda>kv. (fst kv @ ''='' @ snd kv) @ [LF]) kvs)"

lemma env_line_pair:
  assumes "env_pair_ok (k, v)"
  shows "env_line d (k @ ''='' @ v) = dict_set d k v"
proof -
  let ?l = "k @ ''='' @ v"
  from assms have k: "py_strip k = k" "CHR ''='' \<notin> set k" "\<not> startswith k ''#''" and v: "py_strip v = v"
    by (simp_all add: env_pair_ok_def)
  have "\<not> is_space (hd ?l)" using py_strip_fixed(1) [OF k(1)] by (cases "k = []") auto
  moreover have "\<not> is_space (last ?l)" using py_strip_fixed(2) [OF v] by (cases "v = []") auto
  ultimately have "py_strip ?l = ?l" by (intro py_strip_id) auto
  moreover have "\<not> startswith ?l ''#''" using k(3) by (cases k) auto
  ultimately show ?thesis
    using k v by (simp add: env_line_def partition_char_append)
qed

lemma id_shape_chars:
  "id_shape s \<Longrightarrow> s \<noteq> [] \<and> is_digit (hd s) \<and> (\<forall>c \<in> set s. is_digit c \<or> c = CHR ''-'' \<or> c = CHR ''_'')"
  by (auto simp: id_shape_def id_picture_def list_all2_Cons1)

lemma id_shape_length: "id_shape s \<Longrightarrow> length s = 19"
  by (auto simp: id_shape_def id_picture_def list_all2_Cons1)

lemma valid_id_cases:
  assumes "is_valid_restore_point_id s"
  obtains "id_shape s" | t where "s = t @ [LF]" "id_shape t"
  using assms by (auto simp: is_valid_restore_point_id_def match_dollar_def) (metis append_butlast_last_id)

lemma valid_id_chars:
  assumes "is_valid_restore_point_id s"
  shows "s \<noteq> []" "is_digit (hd s)" "CHR 0x2F \<notin> set s" "CHR ''.'' \<notin> set s" "CHR '' '' \<notin> set s"
  using assms
  by (cases rule: valid_id_cases; force dest!: id_shape_chars simp: is_digit_def hd_append)+

lemma newest_candidates:
  "(t, p) \<in> set (concat (map (\<lambda>p.
       if rp_result p = RESULT_OK \<and> \<not> is_scoped p then
         (case restore_point_time fromiso p of None \<Rightarrow> [] | Some t \<Rightarrow> [(t, p)])
       else []) points))
   \<longleftrightarrow> p \<in> set points \<and> rp_result p = RESULT_OK \<and> \<not> is_scoped p \<and> restore_point_time fromiso p = Some t"
  by (auto split: if_splits option.splits)

section \<open>Properties\<close>

text \<open>The restore point a schedule goes by is a whole-stack one whose run finished \<open>ok\<close> and whose time
  can be read, and no other such point of the catalogue is newer.\<close>

theorem newest_successful_sound:
  assumes "newest_successful fromiso points = Some p"
  shows "p \<in> set points \<and> rp_result p = RESULT_OK \<and> \<not> is_scoped p
    \<and> (\<exists>t. restore_point_time fromiso p = Some t \<and>
        (\<forall>r u. r \<in> set points \<and> rp_result r = RESULT_OK \<and> \<not> is_scoped r
            \<and> restore_point_time fromiso r = Some u \<longrightarrow> u \<le> t))"
proof -
  let ?c = "concat (map (\<lambda>p.
       if rp_result p = RESULT_OK \<and> \<not> is_scoped p then
         (case restore_point_time fromiso p of None \<Rightarrow> [] | Some t \<Rightarrow> [(t, p)])
       else []) points)"
  obtain t where t: "max_by fst ?c = Some (t, p)"
    using assms by (auto simp: newest_successful_def Let_def)
  have "u \<le> t" if "r \<in> set points \<and> rp_result r = RESULT_OK \<and> \<not> is_scoped r
            \<and> restore_point_time fromiso r = Some u" for r u
    using max_by_ge [OF t, of "(u, r)"] that newest_candidates by force
  then show ?thesis using max_by_mem [OF t] newest_candidates by blast
qed

definition demo_point :: "string \<Rightarrow> string \<Rightarrow> restore_point" where
  "demo_point t res = \<lparr>rp_id = t, rp_created_at = t, rp_size_mb = PFloat ''0.0'', rp_result = res,
     rp_artifacts = 0, rp_addons = [], rp_papaia_version = [], rp_project = [], rp_scope = []\<rparr>"

definition demo_days :: "string \<Rightarrow> iso_time option" where
  "demo_days s = (if str_isdigit s then Some (Aware (int (int_of_digits s) * us_day)) else None)"

theorem newest_successful_sound_witness:
  "let points = [demo_point ''9'' ''failed'', demo_point ''7'' ''ok'', demo_point ''5'' ''ok'']
   in newest_successful demo_days points = Some (demo_point ''7'' ''ok'')
    \<and> (\<exists>t. restore_point_time demo_days (demo_point ''7'' ''ok'') = Some t)"
proof -
  have "newest_successful demo_days
      [demo_point ''9'' ''failed'', demo_point ''7'' ''ok'', demo_point ''5'' ''ok'']
    = Some (demo_point ''7'' ''ok'')"
    by code_simp
  from this newest_successful_sound [OF this] show ?thesis unfolding Let_def by blast
qed

text \<open>An environment file written one \<open>KEY=value\<close> per line reads back as the same mapping: the first
  \<open>=\<close> separates, so a value may contain more of them, and a later assignment wins.\<close>

theorem parse_env_roundtrip:
  assumes "list_all env_pair_ok kvs"
  shows "parse_env_text (env_text kvs) = dict_of kvs"
proof -
  let ?ls = "map (\<lambda>kv. fst kv @ ''='' @ snd kv) kvs"
  have "\<forall>l \<in> set ?ls. \<forall>c \<in> set l. \<not> is_linebreak c"
    using assms by (auto simp: list_all_iff env_pair_ok_def is_linebreak_def)
  then have "splitlines (env_text kvs) = ?ls"
    using splitlines_lines [of ?ls] by (simp add: env_text_def comp_def)
  moreover have "foldl env_line d ?ls = foldl (\<lambda>d kv. dict_set d (fst kv) (snd kv)) d kvs" for d
    using assms by (induction kvs arbitrary: d) (auto simp: env_line_pair [simplified])
  ultimately show ?thesis by (simp add: parse_env_text_def dict_of_def)
qed

theorem parse_env_roundtrip_witness:
  "parse_env_text (env_text [(''A'', ''x=y z''), (''B'', []), (''A'', ''2'')]) = [(''A'', ''2''), (''B'', [])]"
proof -
  have "list_all env_pair_ok [(''A'', ''x=y z''), (''B'', []), (''A'', ''2'')]" by code_simp
  from parse_env_roundtrip [OF this] show ?thesis by (simp add: dict_of_def)
qed

text \<open>The check of a restore point id is not exact: \<open>$\<close> also matches before a final line feed, so
  every well-formed id with a line feed appended passes too.\<close>

theorem restore_point_id_accepts_newline:
  assumes "id_shape s"
  shows "is_valid_restore_point_id (s @ [LF])"
  using assms by (simp add: is_valid_restore_point_id_def match_dollar_def)

theorem restore_point_id_accepts_newline_witness:
  "is_valid_restore_point_id (''2026-07-01_03-00-00'' @ [LF])"
proof -
  have "id_shape ''2026-07-01_03-00-00''" by code_simp
  then show ?thesis by (rule restore_point_id_accepts_newline)
qed

end
