(* ===== verification/Runner.thy ===== *)
theory Runner
  imports Backups
begin

text \<open>
  The detached runner (\<open>core/runner.py\<close>): the containers that run a restore, a stack action or an
  upgrade beside the manager. The docker daemon is a parameter \<open>D\<close> with a state of its own: a call of
  the CLI with an argument vector, its streams merged or not, changes that state and either cannot be
  started, runs into the time limit, or ends with an exit code and decoded output. \<open>json.loads\<close> is the
  argument \<open>loads\<close>. An error is a \<open>RunnerError\<close>, by its cause instead of its translated text, or
  another exception of Python.
\<close>

section \<open>Data\<close>

record runner_kind =
  label_value :: string
  name_prefix :: string

definition SELF_LABEL :: string where "SELF_LABEL = ''de.fidonis.module=papaia-manager''"
definition RUNNER_LABEL_KEY :: string where "RUNNER_LABEL_KEY = ''de.fidonis.module''"
definition TARGET_LABEL_KEY :: string where "TARGET_LABEL_KEY = ''de.fidonis.runner-target''"
definition PRUNE_LABEL_KEY :: string where "PRUNE_LABEL_KEY = ''de.fidonis.upgrade-prune-images''"

definition RESTORE_KIND :: runner_kind where
  "RESTORE_KIND = \<lparr>label_value = ''papaia-restore'', name_prefix = ''papaia-restore-''\<rparr>"

definition STACK_KIND :: runner_kind where
  "STACK_KIND = \<lparr>label_value = ''papaia-stack'', name_prefix = ''papaia-stack-''\<rparr>"

definition UPGRADE_KIND :: runner_kind where
  "UPGRADE_KIND = \<lparr>label_value = ''papaia-upgrade'', name_prefix = ''papaia-upgrade-''\<rparr>"

definition STACK_ACTIONS :: "string list" where
  "STACK_ACTIONS = [''start'', ''stop'', ''restart'']"

definition LOG_TAIL_LINES :: nat where "LOG_TAIL_LINES = 500"
definition UPGRADE_LOG_TAIL_LINES :: nat where "UPGRADE_LOG_TAIL_LINES = 2000"

definition UPGRADE_WITH_PRUNE :: string where
  "UPGRADE_WITH_PRUNE = concat (map (\<lambda>l. l @ [LF])
     [''cfg=$1; ws=$2; shift 2'',
      [CHR 0x22] @ ''$@'' @ [CHR 0x22],
      ''rc=$?'',
      ''if [ '' @ [CHR 0x22] @ ''$rc'' @ [CHR 0x22] @ '' -eq 0 ]; then'',
      ''    python -m app.core.images prune --config-dir '' @ [CHR 0x22] @ ''$cfg'' @ [CHR 0x22]
        @ '' --workspace-dir '' @ [CHR 0x22] @ ''$ws'' @ [CHR 0x22] @ '' ||'',
      ''        echo '' @ [CHR 0x22] @ ''[papaia-manager] Image cleanup skipped -- it could not be started'' @ [CHR 0x22],
      ''fi'',
      ''exit '' @ [CHR 0x22] @ ''$rc'' @ [CHR 0x22]])"

record container_spec =
  cs_image :: string
  cs_binds :: "string list"
  cs_user :: string
  cs_group_add :: "string list"
  cs_extra_hosts :: "string list"

record runner_status =
  rs_name :: string
  rs_target :: string
  rs_status :: string
  rs_exit_code :: "int option"
  rs_started_at :: string
  rs_finished_at :: string
  rs_prune_images :: bool

definition is_running :: "runner_status \<Rightarrow> bool" where
  "is_running s \<longleftrightarrow> rs_status s \<in> {''created'', ''running'', ''restarting'', ''paused''}"

definition succeeded :: "runner_status \<Rightarrow> bool" where
  "succeeded s \<longleftrightarrow> \<not> is_running s \<and> rs_exit_code s = Some 0"

definition runner_name :: "string \<Rightarrow> runner_kind \<Rightarrow> string" where
  "runner_name target kind = name_prefix kind @ target"

definition papaia_ctl_path :: "string \<Rightarrow> string" where
  "papaia_ctl_path workspace_dir = path_join (path_join (path_join workspace_dir ''papaia'') ''tools'') ''papaia-ctl''"

section \<open>The docker command line\<close>

datatype docker_reply = NotStarted | TimedOut | Exited int string string

type_synonym 'd docker = "bool \<Rightarrow> string list \<Rightarrow> 'd \<Rightarrow> docker_reply \<times> 'd"

datatype runner_fault =
    NodeRefused string
  | CannotInvoke
  | DockerTimeout string
  | DockerFailed string string
  | NoManagerContainer
  | ManyManagerContainers nat
  | NoContainer
  | UnexpectedShape
  | NoImage
  | ExitedEarly
  | StillRunning string

datatype run_error = RunnerError runner_fault | Raise py_exn

type_synonym ('d, 'a) io = "'d \<Rightarrow> (run_error + 'a) \<times> 'd"

definition io_ret :: "'a \<Rightarrow> ('d, 'a) io" where
  "io_ret a d = (Inr a, d)"

definition io_lift :: "run_error + 'a \<Rightarrow> ('d, 'a) io" where
  "io_lift r d = (r, d)"

definition io_bind :: "('d, 'a) io \<Rightarrow> ('a \<Rightarrow> ('d, 'b) io) \<Rightarrow> ('d, 'b) io" where
  "io_bind m f d = (case m d of (Inl e, d') \<Rightarrow> (Inl e, d') | (Inr a, d') \<Rightarrow> f a d')"

fun io_map :: "('a \<Rightarrow> ('d, 'b) io) \<Rightarrow> 'a list \<Rightarrow> ('d, 'b list) io" where
  "io_map f [] = io_ret []"
| "io_map f (x # xs) = io_bind (f x) (\<lambda>y. io_bind (io_map f xs) (\<lambda>ys. io_ret (y # ys)))"

definition raising :: "py_exn + 'a \<Rightarrow> run_error + 'a" where
  "raising r = (case r of Inl e \<Rightarrow> Inl (Raise e) | Inr a \<Rightarrow> Inr a)"

definition docker_cmd :: "'d docker \<Rightarrow> string list \<Rightarrow> string option \<Rightarrow> bool \<Rightarrow> ('d, string) io" where
  "docker_cmd D args node merge_stderr d =
     (case node of
        Some n \<Rightarrow> (Inl (RunnerError (NodeRefused n)), d)
      | None \<Rightarrow>
         (case D merge_stderr args d of
            (NotStarted, d') \<Rightarrow> (Inl (RunnerError CannotInvoke), d')
          | (TimedOut, d') \<Rightarrow> (Inl (RunnerError (DockerTimeout (hd args))), d')
          | (Exited code out err, d') \<Rightarrow>
             if code \<noteq> 0 then
               let text = py_strip (if merge_stderr then out else err);
                   detail = (if text = [] then ''exit code '' @ str_of_int code else text)
               in (Inl (RunnerError (DockerFailed (hd args) detail)), d')
             else (Inr out, d')))"

abbreviation docker :: "'d docker \<Rightarrow> string list \<Rightarrow> ('d, string) io" where
  "docker D args \<equiv> docker_cmd D args None False"

definition json_of :: "(string \<Rightarrow> pyval option) \<Rightarrow> string \<Rightarrow> run_error + pyval" where
  "json_of loads text = (case loads text of None \<Rightarrow> Inl (Raise ValueError) | Some v \<Rightarrow> Inr v)"

definition listed_ids :: "string \<Rightarrow> string list" where
  "listed_ids listing = filter (\<lambda>l. l \<noteq> []) (map py_strip (splitlines listing))"

section \<open>Cloning the manager's container\<close>

definition spec_from_inspect :: "pyval \<Rightarrow> run_error + container_spec" where
  "spec_from_inspect payload =
     (case payload of
        PList (entry # _) \<Rightarrow>
          (case entry of
             PDict e \<Rightarrow>
               let host_config = py_or (get_none e ''HostConfig'') (PDict []);
                   config = py_or (get_none e ''Config'') (PDict [])
               in rbind (raising (py_get config ''Image'')) (\<lambda>img.
                  let image = py_str_of (py_or (py_or img (get_none e ''Image'')) (PStr []))
                  in if image = [] then Inl (RunnerError NoImage)
                     else rbind (raising (py_get host_config ''Binds'')) (\<lambda>b.
                       rbind (raising (str_list b)) (\<lambda>binds.
                       rbind (raising (py_get config ''User'')) (\<lambda>u.
                       rbind (raising (py_get host_config ''GroupAdd'')) (\<lambda>g.
                       rbind (raising (str_list g)) (\<lambda>groups.
                       rbind (raising (py_get host_config ''ExtraHosts'')) (\<lambda>h.
                       rbind (raising (str_list h)) (\<lambda>hosts.
                         Inr \<lparr>cs_image = image, cs_binds = binds,
                              cs_user = py_str_of (py_or u (PStr [])),
                              cs_group_add = groups, cs_extra_hosts = hosts\<rparr>))))))))
           | _ \<Rightarrow> Inl (RunnerError UnexpectedShape))
      | _ \<Rightarrow> Inl (RunnerError NoContainer))"

definition self_spec :: "'d docker \<Rightarrow> (string \<Rightarrow> pyval option) \<Rightarrow> ('d, container_spec) io" where
  "self_spec D loads =
     io_bind (docker D [''ps'', ''--filter'', ''label='' @ SELF_LABEL, ''--format'', [CHR 0x7B, CHR 0x7B] @ ''.ID'' @ [CHR 0x7D, CHR 0x7D]])
       (\<lambda>listing. let ids = listed_ids listing in
          if ids = [] then io_lift (Inl (RunnerError NoManagerContainer))
          else if length ids > 1 then io_lift (Inl (RunnerError (ManyManagerContainers (length ids))))
          else io_bind (docker D [''inspect'', hd ids]) (\<lambda>out.
            io_lift (rbind (json_of loads out) spec_from_inspect)))"

section \<open>Argument vectors\<close>

definition base_run_args ::
  "container_spec \<Rightarrow> string \<Rightarrow> runner_kind \<Rightarrow> string \<Rightarrow> string list \<Rightarrow> string list" where
  "base_run_args spec name kind target extra_labels =
     [''run'', ''--detach'', ''--name'', name,
      ''--label'', RUNNER_LABEL_KEY @ ''='' @ label_value kind,
      ''--label'', TARGET_LABEL_KEY @ ''='' @ target,
      ''--restart'', ''no'']
     @ concat (map (\<lambda>l. [''--label'', l]) extra_labels)
     @ concat (map (\<lambda>b. [''--volume'', b]) (cs_binds spec))
     @ (if cs_user spec \<noteq> [] then [''--user'', cs_user spec] else [])
     @ concat (map (\<lambda>g. [''--group-add'', g]) (cs_group_add spec))
     @ concat (map (\<lambda>h. [''--add-host'', h]) (cs_extra_hosts spec))
     @ [cs_image spec]"

definition build_run_args ::
  "container_spec \<Rightarrow> string \<Rightarrow> string \<Rightarrow> string \<Rightarrow> string \<Rightarrow> bool \<Rightarrow> run_error + string list" where
  "build_run_args spec restore_point workspace_dir config_dir backup_dir restart_clean =
     (if \<not> is_valid_restore_point_id restore_point then Inl (Raise ValueError)
      else Inr (base_run_args spec (runner_name restore_point RESTORE_KIND) RESTORE_KIND restore_point []
        @ [''bash'', papaia_ctl_path workspace_dir, ''restore'', ''--config-dir='' @ config_dir,
           ''--backup-dir='' @ backup_dir, ''--restore-point='' @ restore_point, ''-y'']
        @ (if restart_clean then [''--restart-clean''] else [])))"

definition stack_command :: "string \<Rightarrow> string \<Rightarrow> string \<Rightarrow> bool \<Rightarrow> string list" where
  "stack_command action ctl config_dir clean_up =
     (let stop = ''bash '' @ ctl @ '' stop --config-dir='' @ config_dir @ (if clean_up then '' --clean-up'' else []);
          start = ''bash '' @ ctl @ '' start --config-dir='' @ config_dir
      in if action = ''restart'' then [''bash'', ''-c'', stop @ '' && '' @ start]
         else [''bash'', ''-c'', if action = ''stop'' then stop else start])"

definition build_stack_run_args ::
  "container_spec \<Rightarrow> string \<Rightarrow> string \<Rightarrow> string \<Rightarrow> bool \<Rightarrow> run_error + string list" where
  "build_stack_run_args spec action workspace_dir config_dir clean_up =
     (if action \<notin> set STACK_ACTIONS then Inl (Raise ValueError)
      else if clean_up \<and> action = ''start'' then Inl (Raise ValueError)
      else Inr (base_run_args spec (runner_name action STACK_KIND) STACK_KIND action []
        @ stack_command action (papaia_ctl_path workspace_dir) config_dir clean_up))"

definition is_valid_target_version :: "string \<Rightarrow> bool" where
  "is_valid_target_version v \<longleftrightarrow>
     (let ps = split_char (CHR ''.'') v in length ps = 3 \<and> list_all str_isdigit ps)"

definition build_upgrade_run_args ::
  "container_spec \<Rightarrow> string \<Rightarrow> string \<Rightarrow> string \<Rightarrow> bool \<Rightarrow> bool \<Rightarrow> bool \<Rightarrow> run_error + string list" where
  "build_upgrade_run_args spec target_version workspace_dir config_dir force no_backup prune_images =
     (if \<not> is_valid_target_version target_version then Inl (Raise ValueError)
      else
        let args = base_run_args spec (runner_name target_version UPGRADE_KIND) UPGRADE_KIND target_version
              (if prune_images then [PRUNE_LABEL_KEY @ ''=true''] else []);
            ctl = [''bash'', papaia_ctl_path workspace_dir, ''upgrade'', ''--config-dir='' @ config_dir,
                   ''--version='' @ target_version, ''-y'']
              @ (if force then [''--force''] else []) @ (if no_backup then [''--no-backup''] else [])
        in Inr (if \<not> prune_images then args @ ctl
                else args @ [''bash'', ''-c'', UPGRADE_WITH_PRUNE, ''papaia-upgrade'', config_dir, workspace_dir]
                  @ ctl))"

section \<open>Finding a runner again\<close>

definition exit_code_of :: "pyval \<Rightarrow> string \<Rightarrow> int option" where
  "exit_code_of v status =
     (if status = ''running'' then None
      else case v of PInt i \<Rightarrow> Some i | PBool b \<Rightarrow> Some (if b then 1 else 0) | _ \<Rightarrow> None)"

definition status_from_inspect :: "pyval \<Rightarrow> runner_kind \<Rightarrow> run_error + runner_status" where
  "status_from_inspect payload kind =
     (case payload of
        PList (PDict entry # _) \<Rightarrow>
          let state = py_or (get_none entry ''State'') (PDict []) in
          rbind (raising (py_get (py_or (get_none entry ''Config'') (PDict [])) ''Labels'')) (\<lambda>ls.
          let labels = py_or ls (PDict []);
              name = lstrip_char (CHR 0x2F) (py_str_of (py_or (get_none entry ''Name'') (PStr [])))
          in rbind (raising (py_get labels TARGET_LABEL_KEY)) (\<lambda>t.
             rbind (raising (py_get labels ''de.fidonis.restore-point'')) (\<lambda>old.
             let labelled = py_str_of (py_or (py_or t old) (PStr []));
                 target = (if labelled = [] \<and> startswith name (name_prefix kind)
                           then drop (length (name_prefix kind)) name else labelled)
             in rbind (raising (py_get state ''Status'')) (\<lambda>st.
                let status = py_str_of (py_or st (PStr ''unknown'')) in
                rbind (raising (py_get state ''ExitCode'')) (\<lambda>code.
                rbind (raising (py_get state ''StartedAt'')) (\<lambda>started.
                rbind (raising (py_get state ''FinishedAt'')) (\<lambda>finished.
                rbind (raising (py_get labels PRUNE_LABEL_KEY)) (\<lambda>prune.
                  Inr \<lparr>rs_name = name, rs_target = target, rs_status = status,
                       rs_exit_code = exit_code_of code status,
                       rs_started_at = py_str_of (py_or started (PStr [])),
                       rs_finished_at = py_str_of (py_or finished (PStr [])),
                       rs_prune_images = (prune = PStr ''true'')\<rparr>))))))))
      | _ \<Rightarrow> Inl (RunnerError UnexpectedShape))"

definition pick_runner :: "runner_status list \<Rightarrow> runner_status" where
  "pick_runner statuses =
     (let running = filter is_running statuses in
      if running \<noteq> [] then hd running else last (sorted_by rs_started_at statuses))"

definition find_runner ::
  "'d docker \<Rightarrow> (string \<Rightarrow> pyval option) \<Rightarrow> runner_kind \<Rightarrow> ('d, runner_status option) io" where
  "find_runner D loads kind =
     io_bind (docker D [''ps'', ''--all'', ''--filter'',
         ''label='' @ RUNNER_LABEL_KEY @ ''='' @ label_value kind, ''--format'',
         [CHR 0x7B, CHR 0x7B] @ ''.ID'' @ [CHR 0x7D, CHR 0x7D]])
       (\<lambda>listing. let ids = listed_ids listing in
          if ids = [] then io_ret None
          else io_bind (io_map (\<lambda>cid. io_bind (docker D [''inspect'', cid]) (\<lambda>out.
                  io_lift (rbind (json_of loads out) (\<lambda>p. status_from_inspect p kind)))) ids)
                (\<lambda>statuses. io_ret (Some (pick_runner statuses))))"

section \<open>Starting, reading and clearing a runner\<close>

definition launch ::
  "'d docker \<Rightarrow> (string \<Rightarrow> pyval option) \<Rightarrow> (container_spec \<Rightarrow> run_error + string list) \<Rightarrow> runner_kind
    \<Rightarrow> ('d, runner_status) io" where
  "launch D loads build kind =
     io_bind (self_spec D loads) (\<lambda>spec.
     io_bind (io_lift (build spec)) (\<lambda>args.
     io_bind (docker D args) (\<lambda>_.
     io_bind (find_runner D loads kind) (\<lambda>status.
       case status of None \<Rightarrow> io_lift (Inl (RunnerError ExitedEarly)) | Some s \<Rightarrow> io_ret s))))"

definition start_upgrade ::
  "'d docker \<Rightarrow> (string \<Rightarrow> pyval option) \<Rightarrow> string \<Rightarrow> string \<Rightarrow> string \<Rightarrow> bool \<Rightarrow> bool \<Rightarrow> bool
    \<Rightarrow> ('d, runner_status) io" where
  "start_upgrade D loads target_version workspace_dir config_dir force no_backup prune_images =
     launch D loads
       (\<lambda>spec. build_upgrade_run_args spec target_version workspace_dir config_dir force no_backup prune_images)
       UPGRADE_KIND"

definition start_restore ::
  "'d docker \<Rightarrow> (string \<Rightarrow> pyval option) \<Rightarrow> string \<Rightarrow> string \<Rightarrow> string \<Rightarrow> string \<Rightarrow> bool
    \<Rightarrow> ('d, runner_status) io" where
  "start_restore D loads restore_point workspace_dir config_dir backup_dir restart_clean =
     launch D loads
       (\<lambda>spec. build_run_args spec restore_point workspace_dir config_dir backup_dir restart_clean)
       RESTORE_KIND"

definition start_stack_action ::
  "'d docker \<Rightarrow> (string \<Rightarrow> pyval option) \<Rightarrow> string \<Rightarrow> string \<Rightarrow> string \<Rightarrow> bool \<Rightarrow> ('d, runner_status) io" where
  "start_stack_action D loads action workspace_dir config_dir clean_up =
     launch D loads (\<lambda>spec. build_stack_run_args spec action workspace_dir config_dir clean_up) STACK_KIND"

definition runner_log :: "'d docker \<Rightarrow> string \<Rightarrow> nat \<Rightarrow> ('d, string) io" where
  "runner_log D name tail d =
     (case docker_cmd D [''logs'', ''--tail'', str_of_nat tail, name] None True d of
        (Inl (RunnerError _), d') \<Rightarrow> (Inr [], d')
      | (r, d') \<Rightarrow> (r, d'))"

definition clear_runner :: "'d docker \<Rightarrow> (string \<Rightarrow> pyval option) \<Rightarrow> string \<Rightarrow> runner_kind \<Rightarrow> ('d, unit) io" where
  "clear_runner D loads name kind =
     io_bind (find_runner D loads kind) (\<lambda>status.
       if (case status of None \<Rightarrow> False | Some s \<Rightarrow> rs_name s = name \<and> is_running s)
       then io_lift (Inl (RunnerError (StillRunning name)))
       else io_bind (docker D [''rm'', name]) (\<lambda>_. io_ret ()))"

definition status_to_dict :: "runner_status option \<Rightarrow> string \<Rightarrow> string \<Rightarrow> (string, pyval) dict" where
  "status_to_dict status log target_key =
     (case status of
        None \<Rightarrow> [(''active'', PBool False), (''runner'', PNone)]
      | Some s \<Rightarrow> dict_of
         [(''active'', PBool True), (''runner'', PStr (rs_name s)), (target_key, PStr (rs_target s)),
          (''status'', PStr (rs_status s)), (''running'', PBool (is_running s)),
          (''succeeded'', PBool (succeeded s)),
          (''exit_code'', (case rs_exit_code s of None \<Rightarrow> PNone | Some i \<Rightarrow> PInt i)),
          (''started_at'', PStr (rs_started_at s)), (''finished_at'', PStr (rs_finished_at s)),
          (''prune_images'', PBool (rs_prune_images s)), (''log'', PStr log)])"

section \<open>Lemmas\<close>

lemmas io_defs = io_bind_def io_ret_def io_lift_def

lemma io_map_pure:
  "\<forall>x \<in> set xs. f x d = (Inr (g x), d) \<Longrightarrow> io_map f xs d = (Inr (map g xs), d)"
  by (induction xs) (simp_all add: io_defs)

lemma pick_runner_mem: "statuses \<noteq> [] \<Longrightarrow> pick_runner statuses \<in> set statuses"
proof (cases "filter is_running statuses = []")
  case True
  moreover assume "statuses \<noteq> []"
  then have "last (sorted_by rs_started_at statuses) \<in> set (sorted_by rs_started_at statuses)"
    by (metis last_in_set length_0_conv length_sort)
  ultimately show ?thesis by (simp add: pick_runner_def)
next
  case False
  then have "hd (filter is_running statuses) \<in> set (filter is_running statuses)" by (rule hd_in_set)
  with False show ?thesis by (simp add: pick_runner_def)
qed

lemma pick_runner_running:
  assumes "s \<in> set statuses" "is_running s"
  shows "is_running (pick_runner statuses)"
proof -
  have ne: "filter is_running statuses \<noteq> []" using assms by (auto simp: filter_empty_conv)
  then have "hd (filter is_running statuses) \<in> set (filter is_running statuses)" by (rule hd_in_set)
  with ne show ?thesis by (simp add: pick_runner_def Let_def)
qed

lemma pick_runner_newest:
  assumes "\<forall>s \<in> set statuses. \<not> is_running s" "s \<in> set statuses"
  shows "rs_started_at s \<le> rs_started_at (pick_runner statuses)"
proof -
  let ?l = "sorted_by rs_started_at statuses"
  have "pick_runner statuses = last ?l" using assms(1) by (simp add: pick_runner_def)
  moreover have "s \<in> set ?l" using assms(2) by simp
  then obtain i where "i < length ?l" "?l ! i = s" by (metis in_set_conv_nth)
  moreover have "sorted (map rs_started_at ?l)" by simp
  ultimately show ?thesis
    using sorted_nth_mono [of "map rs_started_at ?l" i "length ?l - 1"]
    by (simp add: last_conv_nth) (metis One_nat_def Suc_pred assms(2) diff_less in_set_conv_nth
        last_conv_nth length_greater_0_conv length_map length_pos_if_in_set length_sort less_Suc_eq_le nth_map zero_less_one)
qed

text \<open>
  What docker keeps of a \<open>run\<close>: the labels are the values of its \<open>--label\<close> flags, and the flags end at
  the first word that is none, the image.
\<close>

definition value_flags :: "string list" where
  "value_flags = [''--name'', ''--restart'', ''--volume'', ''--user'', ''--group-add'', ''--add-host'']"

fun run_labels :: "string list \<Rightarrow> (string \<times> pyval) list" where
  "run_labels (f # v # rest) =
     (if f = ''run'' \<or> f = ''--detach'' then run_labels (v # rest)
      else if f = ''--label'' then
        (case partition_char (CHR ''='') v of (k, _, x) \<Rightarrow> (k, PStr x)) # run_labels rest
      else if f \<in> set value_flags then run_labels rest
      else [])"
| "run_labels rest = []"

definition inspected :: "string \<Rightarrow> string list \<Rightarrow> (string, pyval) dict \<Rightarrow> pyval" where
  "inspected name args state =
     PList [PDict [(''Name'', PStr (''/'' @ name)), (''State'', PDict state),
       (''Config'', PDict [(''Labels'', PDict (dict_of (run_labels args)))])]]"

lemma run_labels_skip:
  "f \<in> set value_flags \<Longrightarrow> run_labels (concat (map (\<lambda>b. [f, b]) bs) @ rest) = run_labels rest"
  by (induction bs) (auto simp: value_flags_def)

lemma run_labels_image:
  assumes "\<not> startswith img ''-''" "img \<noteq> ''run''"
  shows "run_labels (img # rest) = []"
proof -
  have dash: "startswith f ''-''" if "f \<in> set (''--detach'' # ''--label'' # value_flags)" for f
    using that by (auto simp: value_flags_def)
  have "img \<notin> set (''--detach'' # ''--label'' # value_flags)" using dash assms(1) by blast
  with assms(2) show ?thesis by (cases rest) simp_all
qed

lemma label_pairs:
  "partition_char (CHR ''='') (RUNNER_LABEL_KEY @ ''='' @ v) = (RUNNER_LABEL_KEY, True, v)"
  "partition_char (CHR ''='') (TARGET_LABEL_KEY @ ''='' @ v) = (TARGET_LABEL_KEY, True, v)"
  "partition_char (CHR ''='') (PRUNE_LABEL_KEY @ ''='' @ v) = (PRUNE_LABEL_KEY, True, v)"
  by (simp_all add: RUNNER_LABEL_KEY_def TARGET_LABEL_KEY_def PRUNE_LABEL_KEY_def)

lemma run_labels_base:
  assumes "\<not> startswith (cs_image spec) ''-''" "cs_image spec \<noteq> ''run''"
  shows "run_labels (base_run_args spec name kind target extra @ cmd) =
    [(RUNNER_LABEL_KEY, PStr (label_value kind)), (TARGET_LABEL_KEY, PStr target)]
    @ map (\<lambda>l. case partition_char (CHR ''='') l of (k, _, x) \<Rightarrow> (k, PStr x)) extra"
proof -
  have flag: "run_labels (f # v # rest) = run_labels rest" if "f \<in> set value_flags" for f v rest
    using that by (auto simp: value_flags_def)
  have lab: "run_labels (''--label'' # v # rest)
      = (case partition_char (CHR ''='') v of (k, _, x) \<Rightarrow> (k, PStr x)) # run_labels rest" for v rest
    by simp
  have labs: "run_labels (concat (map (\<lambda>l. [''--label'', l]) ls) @ rest)
      = map (\<lambda>l. case partition_char (CHR ''='') l of (k, _, x) \<Rightarrow> (k, PStr x)) ls @ run_labels rest" for ls rest
    by (induction ls) auto
  have run: "run_labels (''run'' # ''--detach'' # x # rest) = run_labels (x # rest)" for x rest
    by simp
  have mem: "''--name'' \<in> set value_flags" "''--restart'' \<in> set value_flags" "''--volume'' \<in> set value_flags"
      "''--user'' \<in> set value_flags" "''--group-add'' \<in> set value_flags" "''--add-host'' \<in> set value_flags"
    by (simp_all add: value_flags_def)
  show ?thesis
    unfolding base_run_args_def append.assoc append_Cons append_Nil run flag [OF mem(1)] lab
      flag [OF mem(2)] labs run_labels_skip [OF mem(3)]
    using mem assms label_pairs
    by (cases "cs_user spec = []") (simp_all add: run_labels_skip flag run_labels_image del: run_labels.simps)
qed

section \<open>Properties\<close>

text \<open>A runner's name tells its kind and its target: two runners of the three kinds have the same
  name only when both agree. Docker refuses a second container of one name, so this makes one runner
  per kind and target.\<close>

theorem runner_name_injective:
  assumes "k1 \<in> {RESTORE_KIND, STACK_KIND, UPGRADE_KIND}" "k2 \<in> {RESTORE_KIND, STACK_KIND, UPGRADE_KIND}"
  shows "runner_name t1 k1 = runner_name t2 k2 \<longleftrightarrow> k1 = k2 \<and> t1 = t2"
  using assms by (auto simp: runner_name_def RESTORE_KIND_def STACK_KIND_def UPGRADE_KIND_def)

theorem runner_name_injective_witness:
  "runner_name ''stop'' STACK_KIND \<noteq> runner_name ''stop'' RESTORE_KIND"
  using runner_name_injective [of STACK_KIND RESTORE_KIND "''stop''" "''stop''"]
  by (simp add: STACK_KIND_def RESTORE_KIND_def)

text \<open>An upgrade runner that is found again, by a manager that was replaced meanwhile, still says
  what it was started for: the name, the pinned version and the request to remove images are read
  back from what docker keeps of the argument vector.\<close>

theorem upgrade_runner_found_again:
  assumes "build_upgrade_run_args spec v ws cfg force no_backup prune = Inr args"
    and "\<not> startswith (cs_image spec) ''-''" "cs_image spec \<noteq> ''run''"
  shows "\<exists>s. status_from_inspect (inspected (runner_name v UPGRADE_KIND) args state) UPGRADE_KIND = Inr s
    \<and> rs_name s = runner_name v UPGRADE_KIND \<and> rs_target s = v \<and> rs_prune_images s = prune"
proof -
  have valid: "is_valid_target_version v" using assms(1)
    by (auto simp: build_upgrade_run_args_def split: if_splits)
  then have v: "v \<noteq> []" by (auto simp: is_valid_target_version_def)
  have labels: "run_labels args =
      [(RUNNER_LABEL_KEY, PStr (label_value UPGRADE_KIND)), (TARGET_LABEL_KEY, PStr v)]
      @ (if prune then [(PRUNE_LABEL_KEY, PStr ''true'')] else [])"
    using assms(1) valid run_labels_base [OF assms(2,3)]
    by (auto simp: build_upgrade_run_args_def label_pairs [simplified] Let_def split: if_splits)
  show ?thesis
    using v unfolding inspected_def labels
    by (auto simp: status_from_inspect_def get_or_def dict_get_def py_or_def py_get_def raising_def
        Let_def dict_of_def RUNNER_LABEL_KEY_def TARGET_LABEL_KEY_def PRUNE_LABEL_KEY_def py_str_of_def
        lstrip_char_def runner_name_def UPGRADE_KIND_def)
qed

definition demo_spec :: container_spec where
  "demo_spec = \<lparr>cs_image = ''manager:1'', cs_binds = [''/a:/a'', ''--label''], cs_user = ''1000'',
     cs_group_add = [''999''], cs_extra_hosts = []\<rparr>"

theorem upgrade_runner_found_again_witness:
  "\<exists>args s. build_upgrade_run_args demo_spec ''1.10.2'' ''/ws'' ''/cfg'' False False True = Inr args
    \<and> status_from_inspect (inspected ''papaia-upgrade-1.10.2'' args []) UPGRADE_KIND = Inr s
    \<and> rs_target s = ''1.10.2'' \<and> rs_prune_images s"
proof -
  have "is_valid_target_version ''1.10.2''" by code_simp
  then obtain args where args:
      "build_upgrade_run_args demo_spec ''1.10.2'' ''/ws'' ''/cfg'' False False True = Inr args"
    by (simp add: build_upgrade_run_args_def Let_def)
  have "runner_name ''1.10.2'' UPGRADE_KIND = ''papaia-upgrade-1.10.2''" by code_simp
  moreover have "\<not> startswith (cs_image demo_spec) ''-''" "cs_image demo_spec \<noteq> ''run''" by (code_simp, code_simp)
  ultimately show ?thesis using upgrade_runner_found_again [OF args, of "[]"] args by auto
qed

text \<open>Success is never read off a container that still runs, although docker reports exit code 0
  for it: a status that counts as success has a final state and the exit code 0 in the report.\<close>

theorem runner_success_is_final:
  assumes "status_from_inspect (PList (PDict entry # others)) kind = Inr s" "succeeded s"
    and "get_none entry ''State'' = PDict st"
  shows "get_none st ''Status'' \<notin> PStr ` {''created'', ''running'', ''restarting'', ''paused''}
    \<and> get_none st ''ExitCode'' \<in> {PInt 0, PBool False}"
proof -
  have st: "py_or (PDict st) (PDict []) = PDict st" by (auto simp: py_or_def)
  have status: "rs_status s = py_str_of (py_or (get_none st ''Status'') (PStr ''unknown''))"
    and code: "rs_exit_code s = exit_code_of (get_none st ''ExitCode'') (rs_status s)"
    using assms(1) by (auto simp: status_from_inspect_def assms(3) st Let_def rbind_eq_Inr py_get_def raising_def)
  have final: "rs_status s \<notin> {''created'', ''running'', ''restarting'', ''paused''}"
    using assms(2) by (simp add: succeeded_def is_running_def)
  then have "get_none st ''Status'' \<notin> PStr ` {''created'', ''running'', ''restarting'', ''paused''}"
    using status by (auto simp: py_or_def py_str_of_def)
  moreover have "get_none st ''ExitCode'' \<in> {PInt 0, PBool False}"
    using assms(2) code
    by (auto simp: succeeded_def exit_code_of_def split: pyval.splits if_splits)
  ultimately show ?thesis by blast
qed

theorem runner_success_is_final_witness:
  "\<exists>s. status_from_inspect (PList [PDict [(''State'', PDict [(''Status'', PStr ''exited''), (''ExitCode'', PInt 0)])]])
      RESTORE_KIND = Inr s \<and> succeeded s
    \<and> get_none [(''Status'', PStr ''exited''), (''ExitCode'', PInt 0)] ''ExitCode'' \<in> {PInt 0, PBool False}"
proof -
  let ?st = "[(''Status'', PStr ''exited''), (''ExitCode'', PInt 0)]"
  let ?e = "[(''State'', PDict ?st)]"
  obtain s where s: "status_from_inspect (PList [PDict ?e]) RESTORE_KIND = Inr s" "succeeded s"
    by (simp add: status_from_inspect_def get_or_def dict_get_def py_or_def py_get_def raising_def Let_def
        succeeded_def is_running_def exit_code_of_def py_str_of_def)
  have "get_none ?e ''State'' = PDict ?st" by (simp add: get_or_def dict_get_def)
  from runner_success_is_final [OF s this] s show ?thesis by blast
qed

text \<open>A version that is no release version reaches docker in no form: the request ends in an error
  and the daemon has seen only the two reads that find the manager's own container.\<close>

theorem bad_version_never_launched:
  assumes "\<not> is_valid_target_version v"
  shows "snd (start_upgrade D loads v ws cfg force no_backup prune d) = snd (self_spec D loads d)
    \<and> (\<exists>e. fst (start_upgrade D loads v ws cfg force no_backup prune d) = Inl e)"
  using assms
  by (auto simp: start_upgrade_def launch_def io_defs build_upgrade_run_args_def
      split: prod.splits sum.splits)

theorem bad_version_never_launched_witness:
  "snd (start_upgrade (\<lambda>m args n. (NotStarted, Suc n)) (\<lambda>s. None) (''1.2.0'' @ [LF]) ''/ws'' ''/cfg'' False False False 0) = 1"
proof -
  have "\<not> is_valid_target_version (''1.2.0'' @ [LF])" by code_simp
  from bad_version_never_launched [OF this, of "\<lambda>m args n. (NotStarted, Suc n)" "\<lambda>s. None" "''/ws''" "''/cfg''" False False False 0]
  show ?thesis by (simp add: self_spec_def io_defs docker_cmd_def)
qed

text \<open>While any runner of a kind still runs, the lookup answers with a running one, whatever finished
  runners of earlier operations are still on the host; when none runs, with the one started last.\<close>

theorem find_runner_prefers_running:
  assumes "docker D [''ps'', ''--all'', ''--filter'', ''label='' @ RUNNER_LABEL_KEY @ ''='' @ label_value kind,
        ''--format'', [CHR 0x7B, CHR 0x7B] @ ''.ID'' @ [CHR 0x7D, CHR 0x7D]] d = (Inr listing, d)"
    and "\<forall>cid \<in> set (listed_ids listing). \<exists>out p. docker D [''inspect'', cid] d = (Inr out, d)
        \<and> loads out = Some p \<and> status_from_inspect p kind = Inr (st cid)"
    and "listed_ids listing \<noteq> []"
  shows "\<exists>s. find_runner D loads kind d = (Inr (Some s), d) \<and> s \<in> st ` set (listed_ids listing)
    \<and> (if \<exists>cid \<in> set (listed_ids listing). is_running (st cid) then is_running s
       else \<forall>cid \<in> set (listed_ids listing). rs_started_at (st cid) \<le> rs_started_at s)"
proof -
  let ?f = "\<lambda>cid. io_bind (docker D [''inspect'', cid]) (\<lambda>out.
                  io_lift (rbind (json_of loads out) (\<lambda>p. status_from_inspect p kind)))"
  let ?sts = "map st (listed_ids listing)"
  have "\<forall>cid \<in> set (listed_ids listing). ?f cid d = (Inr (st cid), d)"
    using assms(2) by (fastforce simp: io_defs json_of_def)
  then have "io_map ?f (listed_ids listing) d = (Inr ?sts, d)" by (rule io_map_pure)
  then have "find_runner D loads kind d = (Inr (Some (pick_runner ?sts)), d)"
    unfolding find_runner_def using assms(1,3) by (simp add: io_bind_def io_ret_def Let_def)
  moreover have "pick_runner ?sts \<in> set ?sts" using assms(3) by (intro pick_runner_mem) simp
  moreover have "is_running (pick_runner ?sts)" if "cid \<in> set (listed_ids listing)" "is_running (st cid)" for cid
    using that by (intro pick_runner_running) auto
  moreover have "rs_started_at (st cid) \<le> rs_started_at (pick_runner ?sts)"
    if "cid \<in> set (listed_ids listing)" "\<not> (\<exists>cid \<in> set (listed_ids listing). is_running (st cid))" for cid
    using that by (intro pick_runner_newest) auto
  ultimately show ?thesis by auto
qed

definition demo_docker :: "unit docker" where
  "demo_docker m args u =
     (Exited 0 (if hd args = ''ps'' then ''aa'' @ [LF] @ ''bb'' else last args) [], u)"

definition demo_inspect :: "string \<Rightarrow> pyval option" where
  "demo_inspect out = Some (PList [PDict [(''State'',
     PDict [(''Status'', PStr (if out = ''bb'' then ''running'' else ''exited'')), (''StartedAt'', PStr out)])]])"

theorem find_runner_prefers_running_witness:
  "\<exists>s. find_runner demo_docker demo_inspect STACK_KIND () = (Inr (Some s), ()) \<and> is_running s"
proof -
  let ?listing = "''aa'' @ [LF] @ ''bb''"
  let ?st = "\<lambda>cid. \<lparr>rs_name = [], rs_target = [], rs_status = (if cid = ''bb'' then ''running'' else ''exited''),
      rs_exit_code = None, rs_started_at = cid, rs_finished_at = [], rs_prune_images = False\<rparr>"
  have ids: "listed_ids ?listing = [''aa'', ''bb'']" by code_simp
  have ps: "docker demo_docker [''ps'', ''--all'', ''--filter'', ''label='' @ RUNNER_LABEL_KEY @ ''='' @ label_value STACK_KIND,
        ''--format'', [CHR 0x7B, CHR 0x7B] @ ''.ID'' @ [CHR 0x7D, CHR 0x7D]] () = (Inr ?listing, ())"
    by (simp add: docker_cmd_def demo_docker_def)
  have seen: "\<forall>cid \<in> set (listed_ids ?listing). \<exists>out p. docker demo_docker [''inspect'', cid] () = (Inr out, ())
        \<and> demo_inspect out = Some p \<and> status_from_inspect p STACK_KIND = Inr (?st cid)"
    unfolding ids
    by (simp add: docker_cmd_def demo_docker_def demo_inspect_def status_from_inspect_def get_or_def dict_get_def
        py_or_def py_get_def raising_def Let_def exit_code_of_def py_str_of_def lstrip_char_def STACK_KIND_def)
  have "\<exists>cid \<in> set (listed_ids ?listing). is_running (?st cid)" unfolding ids by (simp add: is_running_def)
  moreover have "listed_ids ?listing \<noteq> []" unfolding ids by simp
  ultimately show ?thesis using find_runner_prefers_running [OF ps seen] by (metis (no_types, lifting))
qed

end
