(* ===== verification/Cron.thy ===== *)
theory Cron
  imports Py_Prelude
begin

text \<open>
  Cron expressions, their cadence and the editor's presets (the first half of \<open>core/schedule.py\<close>).
  APScheduler's \<open>CronTrigger\<close> and the IANA zone database are parameters, the record \<open>cron_lib\<close>: which
  fields the constructor of a trigger accepts, which zone names exist, and the next fire time after an
  instant. A datetime in a zone is its instant with its wall-clock reading.
\<close>

section \<open>Data\<close>

datatype schedule_error =
    BadZone string
  | BadWeekday string
  | BadStep string
  | BackwardsRange string
  | StepNeedsRange string
  | NotFiveFields
  | BadField nat string
  | BothDays
  | TriggerRefused
  | TooRare
  | BadTime
  | UnknownWeekday string
  | NoWeekday
  | BadHours
  | UnknownMode string
  | TooOften timedelta
  | RetentionTooShort int
  | FieldError string string

record cron_fields =
  cf_minute :: string
  cf_hour :: string
  cf_day :: string
  cf_month :: string
  cf_day_of_week :: string

record zoned =
  z_instant :: instant
  z_wall :: int

record cron_lib =
  cl_accepts :: "cron_fields \<Rightarrow> bool"
  cl_zone :: "string \<Rightarrow> bool"
  cl_fire :: "cron_fields \<Rightarrow> string \<Rightarrow> zoned option \<Rightarrow> instant \<Rightarrow> zoned option"

definition DEFAULT_CRON :: string where "DEFAULT_CRON = ''0 3 * * *''"
definition MIN_INTERVAL :: timedelta where "MIN_INTERVAL = us_hour"
definition CADENCE_HORIZON :: timedelta where "CADENCE_HORIZON = 800 * us_day"
definition CADENCE_SAMPLES :: nat where "CADENCE_SAMPLES = 2000"

definition WEEKDAYS :: "string list" where
  "WEEKDAYS = [''mon'', ''tue'', ''wed'', ''thu'', ''fri'', ''sat'', ''sun'']"

definition WEEKDAY_LABELS :: "(string, string) dict" where
  "WEEKDAY_LABELS = [(''mon'', ''Monday''), (''tue'', ''Tuesday''), (''wed'', ''Wednesday''),
     (''thu'', ''Thursday''), (''fri'', ''Friday''), (''sat'', ''Saturday''), (''sun'', ''Sunday'')]"

definition HOURLY_CHOICES :: "int list" where
  "HOURLY_CHOICES = [1, 2, 3, 4, 6, 8, 12]"

definition WEEKDAY_NUMBER :: "(string, nat) dict" where
  "WEEKDAY_NUMBER = [(''sun'', 0), (''mon'', 1), (''tue'', 2), (''wed'', 3), (''thu'', 4), (''fri'', 5), (''sat'', 6)]"

section \<open>Zones\<close>

text \<open>\<open>_TZ_NAME\<close>: one to three words of letters, digits, \<open>_\<close>, \<open>+\<close> and \<open>-\<close>, separated by slashes.\<close>

definition tz_char :: "char \<Rightarrow> bool" where
  "tz_char c \<longleftrightarrow> is_upper c \<or> is_lower c \<or> is_digit c \<or> c \<in> {CHR ''_'', CHR ''+'', CHR ''-''}"

definition tz_shape :: "string \<Rightarrow> bool" where
  "tz_shape s \<longleftrightarrow>
     (let ws = split_char (CHR 0x2F) s in length ws \<le> 3 \<and> list_all (\<lambda>w. w \<noteq> [] \<and> list_all tz_char w) ws)"

definition zone :: "cron_lib \<Rightarrow> string \<Rightarrow> schedule_error + string" where
  "zone L name =
     (if \<not> match_dollar tz_shape name then Inl (BadZone name)
      else if cl_zone L name then Inr name else Inl (BadZone name))"

definition default_timezone :: "cron_lib \<Rightarrow> string \<Rightarrow> string" where
  "default_timezone L TZ =
     (let name = py_strip TZ in
      if name \<noteq> [] then (case zone L name of Inl _ \<Rightarrow> ''UTC'' | Inr _ \<Rightarrow> name) else ''UTC'')"

section \<open>Expressions\<close>

definition expression :: "cron_fields \<Rightarrow> string" where
  "expression f =
     cf_minute f @ '' '' @ cf_hour f @ '' '' @ cf_day f @ '' '' @ cf_month f @ '' '' @ cf_day_of_week f"

definition weekday_number :: "string \<Rightarrow> schedule_error + nat" where
  "weekday_number token =
     (case dict_get WEEKDAY_NUMBER (py_lower token) of
        Some n \<Rightarrow> Inr n
      | None \<Rightarrow> if str_isdigit token \<and> int_of_digits token \<le> 7 then Inr (int_of_digits token)
                else Inl (BadWeekday token))"

text \<open>\<open>range(low, high + 1, step)\<close>.\<close>

definition py_range :: "nat \<Rightarrow> nat \<Rightarrow> nat \<Rightarrow> nat list" where
  "py_range low high step = filter (\<lambda>d. (d - low) mod step = 0) [low ..< Suc high]"

definition weekday_step :: "string \<Rightarrow> bool \<Rightarrow> string \<Rightarrow> schedule_error + nat" where
  "weekday_step part slash raw_step =
     (if slash then
        (if \<not> str_isdigit raw_step \<or> int_of_digits raw_step < 1 then Inl (BadStep part)
         else Inr (int_of_digits raw_step))
      else Inr 1)"

definition weekday_bounds :: "string \<Rightarrow> string \<Rightarrow> bool \<Rightarrow> schedule_error + (nat \<times> nat)" where
  "weekday_bounds part body slash =
     (if body = ''*'' then Inr (0, 6)
      else if CHR ''-'' \<in> set body then
        (case partition_char (CHR ''-'') body of (first, _, lst) \<Rightarrow>
           rbind (weekday_number first) (\<lambda>low. rbind (weekday_number lst) (\<lambda>high0.
             let high = (if high0 = 0 \<and> low > 0 then 7 else high0) in
             if low > high then Inl (BackwardsRange body) else Inr (low, high))))
      else if slash then Inl (StepNeedsRange part)
      else rbind (weekday_number body) (\<lambda>n. Inr (n, n)))"

definition weekday_part :: "string \<Rightarrow> schedule_error + nat list" where
  "weekday_part part =
     (case partition_char (CHR 0x2F) part of (body, slash, raw_step) \<Rightarrow>
        rbind (weekday_step part slash raw_step) (\<lambda>step.
        rbind (weekday_bounds part body slash) (\<lambda>(low, high).
          Inr (map (\<lambda>d. d mod 7) (py_range low high step)))))"

definition weekday_names :: "nat list \<Rightarrow> string" where
  "weekday_names chosen =
     (if length (remdups chosen) = 7 then ''*''
      else join '','' (filter (\<lambda>name. the (dict_get WEEKDAY_NUMBER name) \<in> set chosen) WEEKDAYS))"

definition normalise_weekdays :: "string \<Rightarrow> schedule_error + string" where
  "normalise_weekdays field =
     (if field = ''*'' then Inr ''*''
      else rbind (rmap weekday_part (split_char (CHR '','') field)) (\<lambda>days.
        Inr (weekday_names (concat days))))"

definition plain_field :: "string \<Rightarrow> bool" where
  "plain_field s \<longleftrightarrow> s \<noteq> [] \<and> list_all (\<lambda>c. is_digit c \<or> c \<in> {CHR ''*'', CHR 0x2F, CHR '','', CHR ''-''}) s"

text \<open>The first of the numbered fields that is not plain; the number stands for its label.\<close>

fun bad_field :: "nat \<Rightarrow> string list \<Rightarrow> (nat \<times> string) option" where
  "bad_field n [] = None"
| "bad_field n (p # ps) = (if match_dollar plain_field p then bad_field (Suc n) ps else Some (n, p))"

definition make_trigger :: "cron_lib \<Rightarrow> cron_fields \<Rightarrow> schedule_error + cron_fields" where
  "make_trigger L f = (if cl_accepts L f then Inr f else Inl TriggerRefused)"

definition parse_fields :: "cron_lib \<Rightarrow> string \<Rightarrow> schedule_error + cron_fields" where
  "parse_fields L text =
     (case split_ws text of
        [minute, hour, day, month, dow] \<Rightarrow>
          (case bad_field 0 [minute, hour, day, month] of
             Some (n, p) \<Rightarrow> Inl (BadField n p)
           | None \<Rightarrow>
              rbind (normalise_weekdays dow) (\<lambda>days.
              let f = \<lparr>cf_minute = minute, cf_hour = hour, cf_day = day, cf_month = month,
                       cf_day_of_week = days\<rparr>
              in if day \<noteq> ''*'' \<and> days \<noteq> ''*'' then Inl BothDays
                 else make_trigger L f))
      | _ \<Rightarrow> Inl NotFiveFields)"

definition build_trigger :: "cron_lib \<Rightarrow> string \<Rightarrow> string \<Rightarrow> schedule_error + (cron_fields \<times> string)" where
  "build_trigger L text timezone =
     rbind (parse_fields L text) (\<lambda>f. rbind (zone L timezone) (\<lambda>tz.
       rbind (make_trigger L f) (\<lambda>t. Inr (t, tz))))"

section \<open>Runs and their cadence\<close>

definition after_run :: "zoned \<Rightarrow> instant" where
  "after_run run = z_instant run + us_second"

text \<open>
  The loop of \<open>next_runs\<close> and of \<open>analyse_cadence\<close>: at most \<open>n\<close> more runs, each one the trigger's next
  after the one before, until there is none or it lies past the limit.
\<close>

fun collect_runs ::
  "(zoned option \<Rightarrow> instant \<Rightarrow> zoned option) \<Rightarrow> instant option \<Rightarrow> nat \<Rightarrow> zoned option \<Rightarrow> instant
    \<Rightarrow> zoned list" where
  "collect_runs fire limit 0 previous current = []"
| "collect_runs fire limit (Suc n) previous current =
     (case fire previous current of
        None \<Rightarrow> []
      | Some upcoming \<Rightarrow>
         if (case limit of None \<Rightarrow> False | Some h \<Rightarrow> z_instant upcoming > h) then []
         else upcoming # collect_runs fire limit n (Some upcoming) (after_run upcoming))"

definition next_runs :: "cron_lib \<Rightarrow> string \<Rightarrow> string \<Rightarrow> nat \<Rightarrow> instant \<Rightarrow> schedule_error + instant list" where
  "next_runs L text timezone n now =
     rbind (zone L timezone) (\<lambda>tz.
     rbind (rbind (parse_fields L text) (make_trigger L)) (\<lambda>trigger.
       Inr (map z_instant (collect_runs (cl_fire L trigger tz) None n None now))))"

record cadence =
  shortest :: timedelta
  longest :: timedelta

definition gaps :: "(zoned \<Rightarrow> int) \<Rightarrow> zoned list \<Rightarrow> timedelta list" where
  "gaps reading runs = map (\<lambda>(earlier, later). reading later - reading earlier) (zip runs (tl runs))"

definition min_list_of :: "int list \<Rightarrow> int" where
  "min_list_of xs = foldl min (hd xs) (tl xs)"

definition max_list_of :: "int list \<Rightarrow> int" where
  "max_list_of xs = foldl max (hd xs) (tl xs)"

definition cadence_of_runs :: "zoned list \<Rightarrow> cadence" where
  "cadence_of_runs runs =
     (let elapsed = gaps z_instant runs; wall_clock = gaps z_wall runs
      in \<lparr>shortest = min_list_of elapsed,
          longest = max_list_of (map (\<lambda>(wall, real). min wall real) (zip wall_clock elapsed))\<rparr>)"

definition analyse_cadence :: "cron_lib \<Rightarrow> string \<Rightarrow> string \<Rightarrow> instant \<Rightarrow> schedule_error + cadence" where
  "analyse_cadence L text timezone now =
     rbind (zone L timezone) (\<lambda>tz.
     rbind (rbind (parse_fields L text) (make_trigger L)) (\<lambda>trigger.
     let runs = collect_runs (cl_fire L trigger tz) (Some (now + CADENCE_HORIZON)) CADENCE_SAMPLES None now
     in if length runs < 2 then Inl TooRare else Inr (cadence_of_runs runs)))"

text \<open>
  The memo of \<open>cadence_of\<close>: an answer is the one of the moment it was first asked for, \<open>asked\<close>.
\<close>

definition cadence_of ::
  "cron_lib \<Rightarrow> (string \<Rightarrow> string \<Rightarrow> instant) \<Rightarrow> string \<Rightarrow> string \<Rightarrow> schedule_error + cadence" where
  "cadence_of L asked text timezone = analyse_cadence L text timezone (asked text timezone)"

text \<open>
  The quotient is a float in the code. It is at most 1600 and any excess over a whole number is at least
  a microsecond of a day, far above the spacing of floats there, so the ceiling is that of the exact
  quotient.
\<close>

definition min_retention_days :: "cadence \<Rightarrow> int" where
  "min_retention_days c = max 1 (- ((- (2 * longest c)) div us_day))"

section \<open>Presets\<close>

datatype preset_mode = Daily | Weekly | Hourly | Custom

record preset =
  pr_mode :: preset_mode
  pr_time :: string
  pr_weekdays :: "string list"
  pr_every_hours :: int
  pr_cron :: string

definition preset_defaults :: preset where
  "preset_defaults = \<lparr>pr_mode = Custom, pr_time = ''03:00'', pr_weekdays = [], pr_every_hours = 6, pr_cron = []\<rparr>"

text \<open>\<open>_TIME\<close>: an hour of one or two digits below 24, a colon, and a minute of two digits below 60.\<close>

definition clock :: "string \<Rightarrow> schedule_error + (nat \<times> nat)" where
  "clock text =
     (case partition_char (CHR '':'') (py_strip text) of (h, found, m) \<Rightarrow>
        if found \<and> str_isdigit h \<and> length h \<le> 2 \<and> int_of_digits h < 24
          \<and> str_isdigit m \<and> length m = 2 \<and> int_of_digits m < 60
        then Inr (int_of_digits h, int_of_digits m) else Inl BadTime)"

definition compile_preset ::
  "string \<Rightarrow> string \<Rightarrow> string list \<Rightarrow> int \<Rightarrow> string \<Rightarrow> schedule_error + string" where
  "compile_preset mode time weekdays every_hours cron =
     (if mode = ''custom'' then Inr (join '' '' (split_ws cron))
      else rbind (clock time) (\<lambda>(hour, minute).
        let m = str_of_nat minute; h = str_of_nat hour in
        if mode = ''daily'' then Inr (m @ '' '' @ h @ '' * * *'')
        else if mode = ''weekly'' then
          let picked = map py_lower weekdays;
              unknown = filter (\<lambda>d. d \<notin> set WEEKDAYS) picked
          in if unknown \<noteq> [] then Inl (UnknownWeekday (hd (sort unknown)))
             else if picked = [] then Inl NoWeekday
             else Inr (m @ '' '' @ h @ '' * * ''
               @ (if length (remdups picked) = 7 then ''*''
                  else join '','' (filter (\<lambda>d. d \<in> set picked) WEEKDAYS)))
        else if mode = ''hourly'' then
          (if every_hours \<notin> set HOURLY_CHOICES then Inl BadHours
           else Inr (m @ '' '' @ (if every_hours = 1 then ''*'' else ''*/'' @ str_of_int every_hours) @ '' * * *''))
        else Inl (UnknownMode mode)))"

text \<open>\<open>re.fullmatch(r"\*/(\d+)", hour)\<close>.\<close>

definition hour_step :: "string \<Rightarrow> int option" where
  "hour_step s = (if startswith s ''*/'' \<and> str_isdigit (drop 2 s) then Some (int (int_of_digits (drop 2 s))) else None)"

definition read_preset :: "cron_lib \<Rightarrow> string \<Rightarrow> preset" where
  "read_preset L text =
     (case parse_fields L text of
        Inl _ \<Rightarrow> preset_defaults\<lparr>pr_mode := Custom, pr_cron := text\<rparr>
      | Inr f \<Rightarrow>
         let plain = (cf_day f = ''*'' \<and> cf_month f = ''*'');
             one_minute = str_isdigit (cf_minute f);
             mm = pad2 (int_of_digits (cf_minute f))
         in if plain \<and> one_minute \<and> str_isdigit (cf_hour f) then
              let time = pad2 (int_of_digits (cf_hour f)) @ '':'' @ mm in
              if cf_day_of_week f = ''*'' then preset_defaults\<lparr>pr_mode := Daily, pr_time := time\<rparr>
              else preset_defaults\<lparr>pr_mode := Weekly, pr_time := time,
                     pr_weekdays := split_char (CHR '','') (cf_day_of_week f)\<rparr>
            else if plain \<and> one_minute \<and> cf_day_of_week f = ''*'' \<and> cf_hour f = ''*'' then
              preset_defaults\<lparr>pr_mode := Hourly, pr_time := ''00:'' @ mm, pr_every_hours := 1\<rparr>
            else if plain \<and> one_minute \<and> cf_day_of_week f = ''*''
                \<and> (case hour_step (cf_hour f) of None \<Rightarrow> False | Some n \<Rightarrow> n \<in> set HOURLY_CHOICES) then
              preset_defaults\<lparr>pr_mode := Hourly, pr_time := ''00:'' @ mm,
                 pr_every_hours := the (hour_step (cf_hour f))\<rparr>
            else preset_defaults\<lparr>pr_mode := Custom, pr_cron := expression f\<rparr>)"

definition describe :: "i18n \<Rightarrow> cron_lib \<Rightarrow> string \<Rightarrow> string" where
  "describe I L text =
     (let p = read_preset L text in
      case pr_mode p of
        Daily \<Rightarrow> tr I ''Every day at %(time)s'' [(''time'', pr_time p)]
      | Weekly \<Rightarrow>
         (let days = join '', '' (map (\<lambda>d. tr I (the (dict_get WEEKDAY_LABELS d)) []) (pr_weekdays p))
          in tr I ''Every %(days)s at %(time)s'' [(''days'', days), (''time'', pr_time p)])
      | Hourly \<Rightarrow>
         ntr I ''Every hour at :%(minute)s'' ''Every %(hours)d hours at :%(minute)s'' (pr_every_hours p)
           [(''hours'', str_of_int (pr_every_hours p)), (''minute'', drop 3 (pr_time p))]
      | Custom \<Rightarrow> tr I ''Custom schedule (%(cron)s)'' [(''cron'', pr_cron p)])"

section \<open>Lemmas on weekdays\<close>

abbreviation day_number :: "string \<Rightarrow> nat" where
  "day_number name \<equiv> the (dict_get WEEKDAY_NUMBER name)"

lemma weekday_facts:
  "list_all (\<lambda>n. weekday_part n = Inr [day_number n] \<and> py_lower n = n \<and> CHR '','' \<notin> set n
     \<and> n \<noteq> [] \<and> list_all (\<lambda>c. \<not> is_space c) n \<and> day_number n < 7) WEEKDAYS"
  by code_simp

lemma weekday_fact:
  assumes "n \<in> set WEEKDAYS"
  shows "weekday_part n = Inr [day_number n]" "py_lower n = n" "CHR '','' \<notin> set n" "n \<noteq> []"
    "\<forall>c \<in> set n. \<not> is_space c" "day_number n < 7"
  using weekday_facts assms by (auto simp: list_all_iff)

lemma day_numbers: "distinct (map day_number WEEKDAYS)" "set (map day_number WEEKDAYS) = {..<7}" "distinct WEEKDAYS"
  by (code_simp, auto simp: WEEKDAYS_def WEEKDAY_NUMBER_def dict_get_def) 

lemma day_number_inj: "inj_on day_number (set WEEKDAYS)"
  using day_numbers(1) by (simp add: distinct_map)

lemma weekday_number_bound: "weekday_number t = Inr n \<Longrightarrow> n \<le> 7"
  by (auto simp: weekday_number_def WEEKDAY_NUMBER_def dict_get_def split: option.splits if_splits)

lemma weekday_bounds_ordered: "weekday_bounds part body slash = Inr (low, high) \<Longrightarrow> low \<le> high"
  by (auto simp: weekday_bounds_def rbind_eq_Inr Let_def split: if_splits prod.splits)

lemma weekday_part_days:
  assumes "weekday_part part = Inr ds"
  shows "ds \<noteq> []" "set ds \<subseteq> {..<7}"
proof -
  obtain low high step where ds: "ds = map (\<lambda>d. d mod 7) (py_range low high step)" and "low \<le> high"
    using assms weekday_bounds_ordered
    by (fastforce simp: weekday_part_def rbind_eq_Inr split: prod.splits)
  then have "low \<in> set (py_range low high step)" by (cases "low = high") (auto simp: py_range_def)
  with ds show "ds \<noteq> []" by auto
  show "set ds \<subseteq> {..<7}" using ds by auto
qed

lemma filter_names:
  assumes "set ws \<subseteq> set WEEKDAYS"
  shows "filter (\<lambda>n. day_number n \<in> day_number ` set ws) WEEKDAYS = filter (\<lambda>n. n \<in> set ws) WEEKDAYS"
  using day_number_inj assms by (intro filter_cong) (auto simp: inj_on_def)

lemma filter_full: "length (filter P xs) = length xs \<Longrightarrow> filter P xs = xs"
  by (metis filter_True length_filter_less less_irrefl)

lemma length_WEEKDAYS: "length WEEKDAYS = 7"
  by (simp add: WEEKDAYS_def)

lemma join_names_space:
  assumes "set ws \<subseteq> set WEEKDAYS"
  shows "\<forall>c \<in> set (join '','' ws). \<not> is_space c"
  using join_chars [of _ "'',''" ws] weekday_fact(5) assms by fastforce

lemma join_not_Nil: "w \<noteq> [] \<Longrightarrow> join sep (w # ws) \<noteq> []"
  by (cases ws) auto

lemma join_names_not_star:
  assumes "ws \<noteq> []" "set ws \<subseteq> set WEEKDAYS"
  shows "join '','' ws \<noteq> ''*''"
proof -
  obtain w vs where ws: "ws = w # vs" using assms(1) by (cases ws) auto
  then have "hd (join '','' ws) = hd w" "w \<noteq> []"
    using weekday_fact(4) [of w] assms(2) by (cases vs; auto)+
  moreover have "hd w \<noteq> CHR ''*''" using assms(2) ws by (auto simp: WEEKDAYS_def)
  ultimately show ?thesis by auto
qed

lemma normalise_names:
  assumes "ws = filter P WEEKDAYS" "ws \<noteq> []" "ws \<noteq> WEEKDAYS"
  shows "normalise_weekdays (join '','' ws) = Inr (join '','' ws)"
proof -
  have sub: "set ws \<subseteq> set WEEKDAYS" using assms(1) by auto
  have dist: "distinct (map day_number ws)"
    using day_numbers(1) assms(1) by (simp add: distinct_map_filter)
  have own: "filter (\<lambda>n. n \<in> set ws) WEEKDAYS = ws"
    unfolding assms(1) by (rule filter_cong) auto
  have "length ws \<noteq> 7"
    using assms(1,3) filter_full [of P WEEKDAYS] by (auto simp: length_WEEKDAYS)
  then have names: "weekday_names (map day_number ws) = join '','' ws"
    using filter_names [OF sub] dist own
    by (simp add: weekday_names_def distinct_remdups_id)
  have "split_char (CHR '','') (join '','' ws) = ws"
    using sub weekday_fact(3) assms(2) by (intro split_char_join) auto
  moreover have "rmap weekday_part ws = Inr (map (\<lambda>n. [day_number n]) ws)"
    using sub weekday_fact(1) by (intro rmap_pure) auto
  ultimately show ?thesis
    using join_names_not_star [OF assms(2) sub] names by (simp add: normalise_weekdays_def)
qed

lemma weekday_names_shape:
  assumes "chosen \<noteq> []" "set chosen \<subseteq> {..<7}"
  shows "weekday_names chosen = ''*'' \<or>
    (\<exists>P. weekday_names chosen = join '','' (filter P WEEKDAYS) \<and> filter P WEEKDAYS \<noteq> []
       \<and> filter P WEEKDAYS \<noteq> WEEKDAYS)"
proof (cases "length (remdups chosen) = 7")
  case False
  let ?P = "\<lambda>n. day_number n \<in> set chosen"
  obtain d where "d \<in> set chosen" using assms(1) by (metis last_in_set)
  then have "d \<in> set (map day_number WEEKDAYS)" unfolding day_numbers(2) using assms(2) by blast
  then have "\<exists>n \<in> set WEEKDAYS. day_number n = d" by auto
  then have ne: "filter ?P WEEKDAYS \<noteq> []" using \<open>d \<in> set chosen\<close> by (auto simp: filter_empty_conv)
  have "filter ?P WEEKDAYS \<noteq> WEEKDAYS"
  proof
    assume "filter ?P WEEKDAYS = WEEKDAYS"
    then have "\<forall>n \<in> set WEEKDAYS. ?P n" by (simp only: filter_id_conv)
    then have "set (map day_number WEEKDAYS) \<subseteq> set chosen" by auto
    then have "{..<7} \<subseteq> set chosen" unfolding day_numbers(2) .
    then have "set chosen = {..<7}" using assms(2) by blast
    then have "card (set chosen) = 7" by simp
    with False show False by (simp add: length_remdups_card_conv)
  qed
  with ne False show ?thesis by (auto simp: weekday_names_def)
qed (simp add: weekday_names_def)

lemma normalise_weekdays_stable:
  assumes "normalise_weekdays t = Inr g"
  shows "normalise_weekdays g = Inr g \<and> g \<noteq> [] \<and> (\<forall>c \<in> set g. \<not> is_space c)"
proof (cases "g = ''*''")
  case True
  then show ?thesis by (simp add: normalise_weekdays_def)
next
  case False
  then obtain days where days: "rmap weekday_part (split_char (CHR '','') t) = Inr days"
      "g = weekday_names (concat days)"
    using assms by (auto simp: normalise_weekdays_def rbind_eq_Inr split: if_splits)
  have part: "\<exists>part. weekday_part part = Inr ds" if "ds \<in> set days" for ds
    using rmap_mem [OF days(1) that] by blast
  have "days \<noteq> []" using rmap_length [OF days(1)] by (metis length_0_conv split_char_not_Nil)
  then have "concat days \<noteq> []" "set (concat days) \<subseteq> {..<7}"
    using part weekday_part_days by (auto simp: neq_Nil_conv) blast+
  from weekday_names_shape [OF this] False days(2) obtain P where
      P: "g = join '','' (filter P WEEKDAYS)" "filter P WEEKDAYS \<noteq> []" "filter P WEEKDAYS \<noteq> WEEKDAYS"
    by auto
  have sub: "set (filter P WEEKDAYS) \<subseteq> set WEEKDAYS" by auto
  have "g \<noteq> []" using P(1,2) weekday_fact(4) by (metis sub join_not_Nil list.set_intros(1) neq_Nil_conv subsetD)
  then show ?thesis using normalise_names [OF refl P(2,3)] join_names_space [OF sub] P(1) by simp
qed

section \<open>Lemmas on expressions\<close>

lemma expression_join:
  "expression f = join '' '' [cf_minute f, cf_hour f, cf_day f, cf_month f, cf_day_of_week f]"
  by (simp add: expression_def)

lemma parse_fields_join:
  assumes "\<forall>w \<in> {a, b, c, d, e}. w \<noteq> [] \<and> (\<forall>x \<in> set w. \<not> is_space x)"
  shows "parse_fields L (join '' '' [a, b, c, d, e]) =
    (case bad_field 0 [a, b, c, d] of
       Some (n, p) \<Rightarrow> Inl (BadField n p)
     | None \<Rightarrow> rbind (normalise_weekdays e) (\<lambda>days.
         if c \<noteq> ''*'' \<and> days \<noteq> ''*'' then Inl BothDays
         else make_trigger L \<lparr>cf_minute = a, cf_hour = b, cf_day = c, cf_month = d, cf_day_of_week = days\<rparr>))"
proof -
  have "split_ws (join '' '' [a, b, c, d, e]) = [a, b, c, d, e]"
    using assms by (intro split_ws_join) auto
  then show ?thesis unfolding parse_fields_def by (simp add: Let_def)
qed

lemma parse_fields_Inr:
  assumes "parse_fields L text = Inr f"
  obtains dow where "split_ws text = [cf_minute f, cf_hour f, cf_day f, cf_month f, dow]"
    "bad_field 0 [cf_minute f, cf_hour f, cf_day f, cf_month f] = None"
    "normalise_weekdays dow = Inr (cf_day_of_week f)"
    "\<not> (cf_day f \<noteq> ''*'' \<and> cf_day_of_week f \<noteq> ''*'')" "cl_accepts L f"
  using assms
  by (auto simp: parse_fields_def make_trigger_def rbind_eq_Inr Let_def simp del: bad_field.simps
      split: list.splits option.splits if_splits)

lemma parse_fields_again:
  assumes "parse_fields L text = Inr f"
  shows "parse_fields L (expression f) = Inr f"
proof -
  obtain dow where w: "split_ws text = [cf_minute f, cf_hour f, cf_day f, cf_month f, dow]"
      and plain: "bad_field 0 [cf_minute f, cf_hour f, cf_day f, cf_month f] = None"
      and dow: "normalise_weekdays dow = Inr (cf_day_of_week f)"
      and rest: "\<not> (cf_day f \<noteq> ''*'' \<and> cf_day_of_week f \<noteq> ''*'')" "cl_accepts L f"
    using assms by (rule parse_fields_Inr)
  have "w \<noteq> [] \<and> (\<forall>x \<in> set w. \<not> is_space x)"
      if "w \<in> {cf_minute f, cf_hour f, cf_day f, cf_month f, cf_day_of_week f}" for w
    using that split_ws_parts [of w "text"] w normalise_weekdays_stable [OF dow] by auto
  then have words: "\<forall>w \<in> {cf_minute f, cf_hour f, cf_day f, cf_month f, cf_day_of_week f}.
      w \<noteq> [] \<and> (\<forall>x \<in> set w. \<not> is_space x)" by blast
  have nz: "normalise_weekdays (cf_day_of_week f) = Inr (cf_day_of_week f)"
    using normalise_weekdays_stable [OF dow] by blast
  have eta: "\<lparr>cf_minute = cf_minute f, cf_hour = cf_hour f, cf_day = cf_day f, cf_month = cf_month f,
      cf_day_of_week = cf_day_of_week f\<rparr> = f" by simp
  show ?thesis
    unfolding expression_join parse_fields_join [OF words] plain nz option.case rbind_Inr eta
    using rest by (simp add: make_trigger_def)
qed

section \<open>Lemmas on runs\<close>

lemma foldl_min_le: "foldl min a xs \<le> (a::int) \<and> (\<forall>x \<in> set xs. foldl min a xs \<le> x)"
  by (induction xs arbitrary: a) (auto, (metis min.bounded_iff)+)

lemma foldl_max_ge: "(a::int) \<le> foldl max a xs \<and> (\<forall>x \<in> set xs. x \<le> foldl max a xs)"
  by (induction xs arbitrary: a) (auto, (metis max.bounded_iff)+)

lemma min_list_of_le: "x \<in> set xs \<Longrightarrow> min_list_of xs \<le> x"
  by (cases xs) (auto simp: min_list_of_def foldl_min_le)

lemma max_list_of_ge: "x \<in> set xs \<Longrightarrow> x \<le> max_list_of xs"
  by (cases xs) (auto simp: max_list_of_def foldl_max_ge)

lemma collect_runs_numeral:
  "collect_runs fire limit (numeral k) previous current =
     (case fire previous current of
        None \<Rightarrow> []
      | Some upcoming \<Rightarrow>
         if (case limit of None \<Rightarrow> False | Some h \<Rightarrow> z_instant upcoming > h) then []
         else upcoming # collect_runs fire limit (pred_numeral k) (Some upcoming) (after_run upcoming))"
  by (simp add: numeral_eq_Suc)

lemma gaps_nth: "Suc i < length runs \<Longrightarrow> gaps rd runs ! i = rd (runs ! Suc i) - rd (runs ! i)"
  by (simp add: gaps_def nth_tl)

lemma gaps_length: "length (gaps rd runs) = length runs - 1"
  by (simp add: gaps_def)

section \<open>Properties\<close>

text \<open>What is stored is stable: an accepted expression, written out in its normalised form, is accepted
  again and gives the same fields, so a schedule survives being saved and read.\<close>

theorem parse_fields_stable:
  assumes "parse_fields L text = Inr f"
  shows "parse_fields L (expression f) = Inr f"
  using assms by (rule parse_fields_again)

definition demo_lib :: cron_lib where
  "demo_lib = \<lparr>cl_accepts = (\<lambda>f. True), cl_zone = (\<lambda>n. n = ''UTC''),
     cl_fire = (\<lambda>f tz p now. let t = (now div us_day + 1) * us_day in Some \<lparr>z_instant = t, z_wall = t\<rparr>)\<rparr>"

theorem parse_fields_stable_witness:
  "parse_fields demo_lib ''0 3 * * mon,wed,fri''
     = Inr \<lparr>cf_minute = ''0'', cf_hour = ''3'', cf_day = ''*'', cf_month = ''*'', cf_day_of_week = ''mon,wed,fri''\<rparr>"
proof -
  let ?f = "\<lparr>cf_minute = ''0'', cf_hour = ''3'', cf_day = ''*'', cf_month = ''*'', cf_day_of_week = ''mon,wed,fri''\<rparr>"
  have "parse_fields demo_lib ''0  3 * *  1-5/2'' = Inr ?f" by code_simp
  from parse_fields_stable [OF this] show ?thesis by (simp add: expression_def)
qed

text \<open>Weekday numbers mean what they mean in a crontab: 0 and 7 are Sunday, 1 is Monday, and so on.\<close>

theorem weekday_numbers_are_cron:
  assumes "n \<le> 7"
  shows "normalise_weekdays (str_of_nat n) = Inr (WEEKDAYS ! ((n + 6) mod 7))"
proof -
  have "list_all (\<lambda>n. normalise_weekdays (str_of_nat n) = Inr (WEEKDAYS ! ((n + 6) mod 7))) [0,1,2,3,4,5,6,7]"
    by code_simp
  moreover have "n \<in> set [0,1,2,3,4,5,6,7]" using assms by (simp, arith)
  ultimately show ?thesis by (auto simp only: list_all_iff)
qed

theorem weekday_numbers_are_cron_witness: "normalise_weekdays (str_of_nat 7) = Inr (WEEKDAYS ! 6)"
  using weekday_numbers_are_cron [of 7] by simp

text \<open>The two figures of a cadence bound every sampled gap: no two consecutive runs are closer than the
  shortest one in elapsed time, and none are further apart than the longest one by the smaller of the
  wall-clock and the elapsed reading.\<close>

theorem cadence_bounds_gaps:
  assumes "Suc i < length runs"
  shows "shortest (cadence_of_runs runs) \<le> z_instant (runs ! Suc i) - z_instant (runs ! i)
    \<and> min (z_wall (runs ! Suc i) - z_wall (runs ! i)) (z_instant (runs ! Suc i) - z_instant (runs ! i))
      \<le> longest (cadence_of_runs runs)"
proof -
  let ?e = "gaps z_instant runs" and ?w = "gaps z_wall runs"
  have i: "i < length ?e" "i < length ?w" using assms by (auto simp: gaps_length)
  have "min_list_of ?e \<le> ?e ! i" using i by (intro min_list_of_le) simp
  moreover have "min (?w ! i) (?e ! i) \<in> set (map (\<lambda>(wall, real). min wall real) (zip ?w ?e))"
    using i by (force simp: set_zip in_set_conv_nth)
  then have "min (?w ! i) (?e ! i) \<le> max_list_of (map (\<lambda>(wall, real). min wall real) (zip ?w ?e))"
    by (rule max_list_of_ge)
  ultimately show ?thesis by (simp add: cadence_of_runs_def Let_def gaps_nth [OF assms])
qed

theorem cadence_bounds_gaps_witness:
  "let runs = [\<lparr>z_instant = 0, z_wall = 0\<rparr>, \<lparr>z_instant = 3, z_wall = 2\<rparr>, \<lparr>z_instant = 5, z_wall = 5\<rparr>]
   in shortest (cadence_of_runs runs) = 2 \<and> longest (cadence_of_runs runs) = 2
     \<and> shortest (cadence_of_runs runs) \<le> z_instant (runs ! Suc 0) - z_instant (runs ! 0)"
proof -
  let ?runs = "[\<lparr>z_instant = 0, z_wall = 0\<rparr>, \<lparr>z_instant = 3, z_wall = 2\<rparr>, \<lparr>z_instant = 5, z_wall = 5\<rparr>]"
  have "shortest (cadence_of_runs ?runs) = 2" "longest (cadence_of_runs ?runs) = 2" by (code_simp, code_simp)
  moreover have "Suc 0 < length ?runs" by simp
  ultimately show ?thesis using cadence_bounds_gaps [of 0 ?runs] by (simp add: Let_def)
qed

section \<open>The preset round trip\<close>

text \<open>The name the editor submits for a mode.\<close>

definition mode_name :: "preset_mode \<Rightarrow> string" where
  "mode_name m = (case m of Daily \<Rightarrow> ''daily'' | Weekly \<Rightarrow> ''weekly'' | Hourly \<Rightarrow> ''hourly'' | Custom \<Rightarrow> ''custom'')"

definition compile_again :: "preset \<Rightarrow> schedule_error + string" where
  "compile_again p = compile_preset (mode_name (pr_mode p)) (pr_time p) (pr_weekdays p) (pr_every_hours p) (pr_cron p)"

lemma clock_Inr: "clock t = Inr (h, m) \<Longrightarrow> h < 24 \<and> m < 60"
  by (auto simp: clock_def split: prod.splits if_splits)

lemma pad2_digits: "list_all is_digit (pad2 n)"
  using str_of_nat_digits [of n] by (simp add: pad2_def is_digit_def del: str_of_nat.simps)

lemma str_of_nat_small: "n < 10 \<Longrightarrow> str_of_nat n = [digit_char n]"
  by (subst str_of_nat.simps) simp

lemma pad2_length: "n < 100 \<Longrightarrow> length (pad2 n) = 2"
  by (auto simp: pad2_def str_of_nat_small) (subst str_of_nat.simps, simp add: str_of_nat_small)

lemma pad2_facts:
  shows "str_isdigit (pad2 n)" "CHR '':'' \<notin> set (pad2 n)" "\<forall>c \<in> set (pad2 n). \<not> is_space c"
proof -
  show "str_isdigit (pad2 n)" using pad2_digits str_of_nat_nonempty [of n]
    by (simp add: str_isdigit_def pad2_def del: str_of_nat.simps)
  show "CHR '':'' \<notin> set (pad2 n)" using pad2_digits [of n] by (auto simp: list_all_iff is_digit_def)
  show "\<forall>c \<in> set (pad2 n). \<not> is_space c" using pad2_digits by (rule digits_not_space)
qed

lemma clock_pad2:
  assumes "h < 24" "m < 60"
  shows "clock (pad2 h @ '':'' @ pad2 m) = Inr (h, m)"
proof -
  have "\<forall>c \<in> set (pad2 h @ '':'' @ pad2 m). \<not> is_space c"
    using pad2_facts(3) [of h] pad2_facts(3) [of m] by auto
  then have "py_strip (pad2 h @ '':'' @ pad2 m) = pad2 h @ '':'' @ pad2 m" by (rule py_strip_clean)
  moreover have "partition_char (CHR '':'') (pad2 h @ '':'' @ pad2 m) = (pad2 h, True, pad2 m)"
    using pad2_facts(2) [of h] by (simp add: partition_char_append)
  ultimately show ?thesis using assms by (simp add: clock_def pad2_facts pad2_length)
qed

lemma parse_simple:
  assumes "parse_fields L (join '' '' [str_of_nat m, hour, ''*'', ''*'', dow]) = Inr f"
    and "hour \<noteq> [] \<and> (\<forall>x \<in> set hour. \<not> is_space x)" "dow \<noteq> [] \<and> (\<forall>x \<in> set dow. \<not> is_space x)"
  shows "cf_minute f = str_of_nat m \<and> cf_hour f = hour \<and> cf_day f = ''*'' \<and> cf_month f = ''*''
    \<and> normalise_weekdays dow = Inr (cf_day_of_week f)"
proof -
  have m: "str_of_nat m \<noteq> [] \<and> (\<forall>x \<in> set (str_of_nat m). \<not> is_space x)"
    using str_of_nat_nonempty str_of_nat_not_space by blast
  have "\<forall>w \<in> {str_of_nat m, hour, ''*'', ''*'', dow}. w \<noteq> [] \<and> (\<forall>x \<in> set w. \<not> is_space x)"
    using m assms(2,3) by auto
  from assms(1) [unfolded parse_fields_join [OF this]] show ?thesis
    by (auto simp: make_trigger_def rbind_eq_Inr simp del: bad_field.simps str_of_nat.simps
        split: option.splits if_splits)
qed

lemma again_daily:
  assumes "parse_fields L (join '' '' [str_of_nat m, str_of_nat h, ''*'', ''*'', ''*'']) = Inr f" "h < 24" "m < 60"
  shows "compile_again (read_preset L (join '' '' [str_of_nat m, str_of_nat h, ''*'', ''*'', ''*'']))
    = Inr (str_of_nat m @ '' '' @ str_of_nat h @ '' * * *'')"
proof -
  have "str_of_nat h \<noteq> [] \<and> (\<forall>x \<in> set (str_of_nat h). \<not> is_space x)"
    using str_of_nat_nonempty str_of_nat_not_space by blast
  from parse_simple [OF assms(1) this] have "cf_minute f = str_of_nat m" "cf_hour f = str_of_nat h"
      "cf_day f = ''*''" "cf_month f = ''*''" "cf_day_of_week f = ''*''"
    by (auto simp: normalise_weekdays_def)
  then show ?thesis unfolding compile_again_def read_preset_def assms(1)
    by (simp add: preset_defaults_def mode_name_def compile_preset_def
        clock_pad2 [OF assms(2,3), simplified] Let_def)
qed

lemma again_weekly:
  assumes "parse_fields L (join '' '' [str_of_nat m, str_of_nat h, ''*'', ''*'', join '','' ws]) = Inr f" "h < 24" "m < 60"
    and ws: "ws = filter P WEEKDAYS" "ws \<noteq> []" "ws \<noteq> WEEKDAYS"
  shows "compile_again (read_preset L (join '' '' [str_of_nat m, str_of_nat h, ''*'', ''*'', join '','' ws]))
    = Inr (str_of_nat m @ '' '' @ str_of_nat h @ '' * * '' @ join '','' ws)"
proof -
  have h: "str_of_nat h \<noteq> [] \<and> (\<forall>x \<in> set (str_of_nat h). \<not> is_space x)"
    using str_of_nat_nonempty str_of_nat_not_space by blast
  have sub: "set ws \<subseteq> set WEEKDAYS" using ws(1) by auto
  have nz: "normalise_weekdays (join '','' ws) = Inr (join '','' ws)" by (rule normalise_names [OF ws])
  from parse_simple [OF assms(1) h] normalise_weekdays_stable [OF nz] nz
  have f: "cf_minute f = str_of_nat m" "cf_hour f = str_of_nat h"
      "cf_day f = ''*''" "cf_month f = ''*''" "cf_day_of_week f = join '','' ws"
    by simp_all
  have split: "split_char (CHR '','') (join '','' ws) = ws"
    using sub weekday_fact(3) ws(2) by (intro split_char_join) auto
  have low: "map py_lower ws = ws" using sub weekday_fact(2) by (intro map_idI) auto
  have known: "filter (\<lambda>d. d \<notin> set WEEKDAYS) ws = []" using sub by (auto simp: filter_empty_conv)
  have own: "filter (\<lambda>d. d \<in> set ws) WEEKDAYS = ws" unfolding ws(1) by (rule filter_cong) auto
  have "distinct ws" using day_numbers(3) ws(1) by simp
  moreover have "length ws \<noteq> 7"
    using ws(1,3) filter_full [of P WEEKDAYS] by (auto simp: length_WEEKDAYS)
  ultimately have len: "length (remdups ws) \<noteq> 7" by (simp add: distinct_remdups_id)
  show ?thesis unfolding compile_again_def read_preset_def assms(1)
    using join_names_not_star [OF ws(2) sub] ws(2) len
    by (simp add: f preset_defaults_def mode_name_def compile_preset_def split low known own
        clock_pad2 [OF assms(2,3), simplified] Let_def)
qed

lemma again_hourly:
  assumes "parse_fields L (join '' '' [str_of_nat m, hour, ''*'', ''*'', ''*'']) = Inr f" "m < 60"
    and "n \<in> set HOURLY_CHOICES" "hour = (if n = 1 then ''*'' else ''*/'' @ str_of_int n)"
  shows "compile_again (read_preset L (join '' '' [str_of_nat m, hour, ''*'', ''*'', ''*'']))
    = Inr (str_of_nat m @ '' '' @ hour @ '' * * *'')"
proof -
  have n: "str_of_int n = str_of_nat (nat n)" "0 < n" using assms(3) by (auto simp: str_of_int_def HOURLY_CHOICES_def)
  have hour: "hour \<noteq> [] \<and> (\<forall>x \<in> set hour. \<not> is_space x)"
    using assms(4) n str_of_nat_not_space by auto
  from parse_simple [OF assms(1) hour]
  have f: "cf_minute f = str_of_nat m" "cf_hour f = hour"
      "cf_day f = ''*''" "cf_month f = ''*''" "cf_day_of_week f = ''*''"
    by (auto simp: normalise_weekdays_def)
  have notdigit: "\<not> str_isdigit hour" using assms(4) by (auto simp: str_isdigit_def is_digit_def)
  have step: "hour_step hour = Some n" if "n \<noteq> 1"
    using that assms(4) n by (simp add: hour_step_def)
  have "pad2 0 = ''00''" by code_simp
  with clock_pad2 [of 0 m] assms(2) have clock: "clock (''00:'' @ pad2 m) = Inr (0, m)" by simp
  show ?thesis unfolding compile_again_def read_preset_def assms(1)
    using notdigit step assms(3,4) clock
    by (auto simp: f preset_defaults_def mode_name_def compile_preset_def Let_def)
qed

text \<open>What the editor shows for a schedule it made is that schedule: the preset read back from a compiled
  expression compiles to the same expression, in every mode the editor offers.\<close>

theorem preset_roundtrip:
  assumes "compile_preset mode t days n cron = Inr e" "mode \<noteq> ''custom''" "parse_fields L e = Inr f"
  shows "compile_again (read_preset L e) = Inr e"
proof -
  obtain h m where hm: "clock t = Inr (h, m)"
    using assms(1,2) by (auto simp: compile_preset_def rbind_eq_Inr)
  then have bound: "h < 24" "m < 60" using clock_Inr by blast+
  let ?m = "str_of_nat m" and ?h = "str_of_nat h"
  let ?names = "filter (\<lambda>d. d \<in> set (map py_lower days)) WEEKDAYS"
  consider (daily) "e = join '' '' [?m, ?h, ''*'', ''*'', ''*'']"
    | (weekly) "e = join '' '' [?m, ?h, ''*'', ''*'', join '','' ?names]"
        "set (map py_lower days) \<subseteq> set WEEKDAYS" "days \<noteq> []" "length (remdups (map py_lower days)) \<noteq> 7"
    | (hourly) "e = join '' '' [?m, if n = 1 then ''*'' else ''*/'' @ str_of_int n, ''*'', ''*'', ''*'']"
        "n \<in> set HOURLY_CHOICES"
    using assms(1,2) hm
    by (auto simp: compile_preset_def Let_def filter_empty_conv split: if_splits)
  then show ?thesis
  proof cases
    case daily
    then show ?thesis using again_daily [OF assms(3) [unfolded daily] bound] by simp
  next
    case weekly
    have ne: "?names \<noteq> []" using weekly(2,3) by (cases days) (auto simp: filter_empty_conv)
    have "?names \<noteq> WEEKDAYS"
    proof
      assume "?names = WEEKDAYS"
      then have "set WEEKDAYS \<subseteq> set (map py_lower days)" by (simp only: filter_id_conv) blast
      then have "set (map py_lower days) = set WEEKDAYS" using weekly(2) by blast
      then have "card (set (map py_lower days)) = 7"
        using distinct_card [OF day_numbers(3)] by (simp add: length_WEEKDAYS)
      with weekly(4) show False by (simp add: length_remdups_card_conv)
    qed
    from again_weekly [OF assms(3) [unfolded weekly(1)] bound refl ne this] weekly(1) show ?thesis by simp
  next
    case hourly
    then show ?thesis using again_hourly [OF assms(3) [unfolded hourly(1)] bound(2) hourly(2) refl] by simp
  qed
qed

theorem preset_roundtrip_witness:
  "compile_again (read_preset demo_lib ''30 4 * * mon,fri'') = Inr ''30 4 * * mon,fri''"
proof -
  have "compile_preset ''weekly'' ''4:30'' [''Fri'', ''mon''] 6 [] = Inr ''30 4 * * mon,fri''" by code_simp
  moreover have "parse_fields demo_lib ''30 4 * * mon,fri'' = Inr \<lparr>cf_minute = ''30'', cf_hour = ''4'',
      cf_day = ''*'', cf_month = ''*'', cf_day_of_week = ''mon,fri''\<rparr>" by code_simp
  ultimately show ?thesis using preset_roundtrip by blast
qed

end
