(* ===== verification/Schedule.thy ===== *)
theory Schedule
  imports Cron Backups
begin

text \<open>
  The backup schedule (the second half of \<open>core/schedule.py\<close>): its validation, its file, and what the
  page and the scheduler ask about it and the catalogue. What pydantic makes of the submitted fields
  (the type of each field, or its complaint) is the record \<open>fields_in\<close>: a field is absent, refused with a
  message, or a value of its type. The checks the class itself declares are modelled: the ranges, the
  validators and the model validator. \<open>yaml\<close> and \<open>strftime\<close> are parameters.
\<close>

section \<open>Data\<close>

datatype run_on_startup = Never | IfMissed

record backup_schedule =
  bs_enabled :: bool
  bs_cron :: string
  bs_timezone :: string
  bs_retention_days :: "int option"
  bs_misfire_grace_seconds :: int
  bs_run_on_startup :: run_on_startup

type_synonym 'a submitted = "(string + 'a) option"

record fields_in =
  fi_enabled :: "bool submitted"
  fi_cron :: "string submitted"
  fi_timezone :: "string submitted"
  fi_retention_days :: "int option submitted"
  fi_misfire_grace_seconds :: "int submitted"
  fi_run_on_startup :: "run_on_startup submitted"
  fi_unknown :: "string list"

text \<open>The surroundings of a schedule: the cron library, the \<open>TZ\<close> variable and the memo of \<open>cadence_of\<close>.\<close>

record sched_env =
  se_lib :: cron_lib
  se_TZ :: string
  se_asked :: "string \<Rightarrow> string \<Rightarrow> instant"

definition SCHEDULE_NAME :: string where "SCHEDULE_NAME = ''schedule.yaml''"

abbreviation cad :: "sched_env \<Rightarrow> string \<Rightarrow> string \<Rightarrow> schedule_error + cadence" where
  "cad S \<equiv> cadence_of (se_lib S) (se_asked S)"

section \<open>Validation\<close>

text \<open>One field: its default when absent (defaults are not validated), else its checks.\<close>

definition field :: "string \<Rightarrow> 'a \<Rightarrow> ('a \<Rightarrow> schedule_error + 'a) \<Rightarrow> 'a submitted \<Rightarrow> schedule_error + 'a" where
  "field name dflt check v =
     (case v of
        None \<Rightarrow> Inr dflt
      | Some (Inl msg) \<Rightarrow> Inl (FieldError name msg)
      | Some (Inr a) \<Rightarrow> check a)"

definition in_range :: "string \<Rightarrow> int \<Rightarrow> int \<Rightarrow> int \<Rightarrow> schedule_error + int" where
  "in_range name lo hi n = (if lo \<le> n \<and> n \<le> hi then Inr n else Inl (FieldError name ''range''))"

definition retention_range :: "int option \<Rightarrow> schedule_error + int option" where
  "retention_range r =
     (case r of None \<Rightarrow> Inr None | Some n \<Rightarrow> rbind (in_range ''retention_days'' 1 3650 n) (\<lambda>n. Inr (Some n)))"

definition normalise_cron :: "cron_lib \<Rightarrow> string \<Rightarrow> schedule_error + string" where
  "normalise_cron L v = rbind (parse_fields L v) (\<lambda>f. Inr (expression f))"

definition known_timezone :: "cron_lib \<Rightarrow> string \<Rightarrow> schedule_error + string" where
  "known_timezone L v = rbind (zone L v) (\<lambda>_. Inr v)"

definition check_cadence :: "sched_env \<Rightarrow> backup_schedule \<Rightarrow> schedule_error + backup_schedule" where
  "check_cadence S s =
     rbind (cad S (bs_cron s) (bs_timezone s)) (\<lambda>c.
       if shortest c < MIN_INTERVAL then Inl (TooOften (shortest c))
       else case bs_retention_days s of
           None \<Rightarrow> Inr s
         | Some r \<Rightarrow> if r < min_retention_days c then Inl (RetentionTooShort (min_retention_days c)) else Inr s)"

text \<open>The fields in the order of the class: the first complaint is the one that is reported.\<close>

definition build_schedule :: "sched_env \<Rightarrow> fields_in \<Rightarrow> schedule_error + backup_schedule" where
  "build_schedule S fi =
     rbind (field ''enabled'' True Inr (fi_enabled fi)) (\<lambda>enabled.
     rbind (field ''cron'' DEFAULT_CRON (normalise_cron (se_lib S)) (fi_cron fi)) (\<lambda>cron.
     rbind (field ''timezone'' (default_timezone (se_lib S) (se_TZ S)) (known_timezone (se_lib S)) (fi_timezone fi)) (\<lambda>tz.
     rbind (field ''retention_days'' None retention_range (fi_retention_days fi)) (\<lambda>ret.
     rbind (field ''misfire_grace_seconds'' 3600 (in_range ''misfire_grace_seconds'' 60 86400)
         (fi_misfire_grace_seconds fi)) (\<lambda>grace.
     rbind (field ''run_on_startup'' IfMissed Inr (fi_run_on_startup fi)) (\<lambda>startup.
       case fi_unknown fi of
         k # _ \<Rightarrow> Inl (FieldError k ''extra'')
       | [] \<Rightarrow> check_cadence S \<lparr>bs_enabled = enabled, bs_cron = cron, bs_timezone = tz,
            bs_retention_days = ret, bs_misfire_grace_seconds = grace, bs_run_on_startup = startup\<rparr>))))))"

section \<open>The file\<close>

definition schedule_path :: "string \<Rightarrow> string" where
  "schedule_path config_dir = path_join (path_join config_dir ''manager'') SCHEDULE_NAME"

datatype load_error = CannotRead | NotAMapping | Invalid schedule_error

record schedule_load =
  sl_schedule :: "backup_schedule option"
  sl_error :: "load_error option"

definition no_schedule :: "load_error option \<Rightarrow> schedule_load" where
  "no_schedule e = \<lparr>sl_schedule = None, sl_error = e\<rparr>"

text \<open>
  \<open>coerce\<close> is pydantic's reading of a mapping and \<open>load\<close> is \<open>yaml.safe_load\<close>. A text that is not UTF-8
  raises \<open>UnicodeDecodeError\<close>, which no clause catches; a directory at the path is an \<open>OSError\<close>.
\<close>

definition load_schedule ::
  "sched_env \<Rightarrow> ((string, pyval) dict \<Rightarrow> fields_in) \<Rightarrow> (string \<Rightarrow> pyval option) \<Rightarrow> fs \<Rightarrow> string
    \<Rightarrow> py_exn + schedule_load" where
  "load_schedule S coerce load files config_dir =
     (case files (schedule_path config_dir) of
        Absent \<Rightarrow> Inr (no_schedule None)
      | Dir \<Rightarrow> Inr (no_schedule (Some CannotRead))
      | Unreadable \<Rightarrow> Inr (no_schedule (Some CannotRead))
      | NotUtf8 \<Rightarrow> Inl UnicodeDecodeError
      | Text t \<Rightarrow>
         (case load t of
            None \<Rightarrow> Inr (no_schedule (Some CannotRead))
          | Some PNone \<Rightarrow> Inr (no_schedule None)
          | Some (PDict raw) \<Rightarrow>
             (case build_schedule S (coerce raw) of
                Inl e \<Rightarrow> Inr (no_schedule (Some (Invalid e)))
              | Inr s \<Rightarrow> Inr \<lparr>sl_schedule = Some s, sl_error = None\<rparr>)
          | Some _ \<Rightarrow> Inr (no_schedule (Some NotAMapping))))"

definition model_dump :: "backup_schedule \<Rightarrow> (string, pyval) dict" where
  "model_dump s =
     [(''enabled'', PBool (bs_enabled s)), (''cron'', PStr (bs_cron s)), (''timezone'', PStr (bs_timezone s)),
      (''retention_days'', (case bs_retention_days s of None \<Rightarrow> PNone | Some n \<Rightarrow> PInt n)),
      (''misfire_grace_seconds'', PInt (bs_misfire_grace_seconds s)),
      (''run_on_startup'', PStr (case bs_run_on_startup s of Never \<Rightarrow> ''never'' | IfMissed \<Rightarrow> ''if_missed''))]"



definition delete_schedule :: "string \<Rightarrow> fs \<Rightarrow> bool \<times> fs" where
  "delete_schedule config_dir files =
     (if files (schedule_path config_dir) = Absent then (False, files)
      else (True, files(schedule_path config_dir := Absent)))"

section \<open>Questions about a schedule and the catalogue\<close>

definition humanize :: "i18n \<Rightarrow> timedelta \<Rightarrow> string" where
  "humanize I span =
     (let seconds = max 0 (span div us_second);
          days = seconds div 86400;
          hours = seconds mod 86400 div 3600;
          minutes = seconds mod 3600 div 60;
          day_text = (\<lambda>n. ntr I ''%(count)d day'' ''%(count)d days'' n [(''count'', str_of_int n)]);
          hour_text = (\<lambda>n. ntr I ''%(count)d hour'' ''%(count)d hours'' n [(''count'', str_of_int n)]);
          minute_text = (\<lambda>n. ntr I ''%(count)d minute'' ''%(count)d minutes'' n [(''count'', str_of_int n)]);
          pair = (\<lambda>a b. tr I ''%(first)s %(second)s'' [(''first'', a), (''second'', b)])
      in if days \<noteq> 0 then
           (if days \<ge> 7 \<or> hours = 0 then day_text days else pair (day_text days) (hour_text hours))
         else if hours \<noteq> 0 then
           (if minutes = 0 then hour_text hours else pair (hour_text hours) (minute_text minutes))
         else if minutes \<noteq> 0 then minute_text minutes
         else tr I ''under a minute'' [])"

text \<open>\<open>timedelta * 1.5\<close>: the microseconds times three halves, rounded to the even neighbour.\<close>

definition times_three_halves :: "timedelta \<Rightarrow> timedelta" where
  "times_three_halves d =
     (let q = (3 * d) div 2; r = (3 * d) mod 2 in if r = 0 then q else if even q then q else q + 1)"

definition overdue_after :: "sched_env \<Rightarrow> backup_schedule \<Rightarrow> schedule_error + timedelta" where
  "overdue_after S s = rbind (cad S (bs_cron s) (bs_timezone s)) (\<lambda>c. Inr (times_three_halves (longest c)))"

definition newest_time :: "(string \<Rightarrow> iso_time option) \<Rightarrow> restore_point list \<Rightarrow> instant option" where
  "newest_time fromiso points =
     (case newest_successful fromiso points of None \<Rightarrow> None | Some p \<Rightarrow> restore_point_time fromiso p)"

definition catchup_due ::
  "sched_env \<Rightarrow> (string \<Rightarrow> iso_time option) \<Rightarrow> backup_schedule \<Rightarrow> restore_point list \<Rightarrow> instant
    \<Rightarrow> schedule_error + bool" where
  "catchup_due S fromiso s points now =
     (case newest_time fromiso points of
        None \<Rightarrow> Inr True
      | Some taken \<Rightarrow> rbind (overdue_after S s) (\<lambda>limit. Inr (now - taken > limit)))"

datatype skip_reason = NoGoodPoint | OverduePoint timedelta timedelta

record retention_plan =
  rpl_days :: "int option"
  rpl_skipped :: "skip_reason option"

definition plan_retention ::
  "sched_env \<Rightarrow> (string \<Rightarrow> iso_time option) \<Rightarrow> backup_schedule \<Rightarrow> restore_point list \<Rightarrow> instant
    \<Rightarrow> schedule_error + retention_plan" where
  "plan_retention S fromiso s points now =
     (case bs_retention_days s of
        None \<Rightarrow> Inr \<lparr>rpl_days = None, rpl_skipped = None\<rparr>
      | Some days \<Rightarrow>
         (case newest_time fromiso points of
            None \<Rightarrow> Inr \<lparr>rpl_days = None, rpl_skipped = Some NoGoodPoint\<rparr>
          | Some taken \<Rightarrow>
             rbind (overdue_after S s) (\<lambda>limit.
               let age = now - taken in
               if age > limit then Inr \<lparr>rpl_days = None, rpl_skipped = Some (OverduePoint age limit)\<rparr>
               else Inr \<lparr>rpl_days = Some days, rpl_skipped = None\<rparr>)))"

definition skip_text :: "i18n \<Rightarrow> skip_reason \<Rightarrow> string" where
  "skip_text I r =
     (case r of
        NoGoodPoint \<Rightarrow> tr I ''there is no successful restore point yet'' []
      | OverduePoint age limit \<Rightarrow>
          tr I ''the newest successful restore point is %(age)s old (more than %(limit)s)''
            [(''age'', humanize I age), (''limit'', humanize I limit)])"

record schedule_status =
  ss_last_ok_at :: "instant option"
  ss_age :: "timedelta option"
  ss_latest_result :: string
  ss_overdue_after :: "timedelta option"
  ss_overdue :: bool
  ss_next_run :: "instant option"

text \<open>\<open>datetime.min\<close> in UTC, in microseconds from 1970: the key of an entry without a time.\<close>

definition datetime_min :: instant where
  "datetime_min = - 62135596800 * us_second"

definition evaluate ::
  "sched_env \<Rightarrow> (string \<Rightarrow> iso_time option) \<Rightarrow> backup_schedule option \<Rightarrow> restore_point list \<Rightarrow> instant
    \<Rightarrow> instant option \<Rightarrow> schedule_error + schedule_status" where
  "evaluate S fromiso schedule points now next_run =
     (let last_ok_at = newest_time fromiso points;
          age = map_option (\<lambda>t. now - t) last_ok_at;
          latest = max_by (\<lambda>p. case restore_point_time fromiso p of None \<Rightarrow> datetime_min | Some t \<Rightarrow> t) points
      in rbind (case schedule of
                  Some s \<Rightarrow> if bs_enabled s then rbind (overdue_after S s) (\<lambda>l. Inr (Some l)) else Inr None
                | None \<Rightarrow> Inr None) (\<lambda>limit.
         Inr \<lparr>ss_last_ok_at = last_ok_at, ss_age = age,
              ss_latest_result = (case latest of None \<Rightarrow> [] | Some p \<Rightarrow> rp_result p),
              ss_overdue_after = limit,
              ss_overdue = (case limit of None \<Rightarrow> False
                | Some l \<Rightarrow> (case age of None \<Rightarrow> points \<noteq> [] | Some a \<Rightarrow> a > l)),
              ss_next_run = next_run\<rparr>))"

section \<open>The state the page shows\<close>

datatype state_error = PyError py_exn | SchedError schedule_error

definition py_part :: "py_exn + 'a \<Rightarrow> state_error + 'a" where
  "py_part r = (case r of Inl e \<Rightarrow> Inl (PyError e) | Inr a \<Rightarrow> Inr a)"

definition sched_part :: "schedule_error + 'a \<Rightarrow> state_error + 'a" where
  "sched_part r = (case r of Inl e \<Rightarrow> Inl (SchedError e) | Inr a \<Rightarrow> Inr a)"

record schedule_state =
  st_load :: schedule_load
  st_status :: schedule_status
  st_timezone :: string
  st_description :: string
  st_preset :: "preset option"
  st_next_run_text :: "string option"
  st_next_runs_text :: "string list"
  st_last_ok_text :: "string option"
  st_age_text :: "string option"
  st_overdue_after_text :: "string option"
  st_would_delete :: "nat option"
  st_retention_note :: "string option"
  st_backup_dir_reachable :: bool

text \<open>\<open>fmt t tz\<close> is \<open>strftime\<close> of an instant read in a zone.\<close>

definition format_moment ::
  "cron_lib \<Rightarrow> (instant \<Rightarrow> string \<Rightarrow> string) \<Rightarrow> instant \<Rightarrow> string \<Rightarrow> schedule_error + string" where
  "format_moment L fmt moment timezone = rbind (zone L timezone) (\<lambda>tz. Inr (fmt moment tz))"

definition optionally :: "('a \<Rightarrow> 'e + 'b) \<Rightarrow> 'a option \<Rightarrow> 'e + 'b option" where
  "optionally f v = (case v of None \<Rightarrow> Inr None | Some a \<Rightarrow> rbind (f a) (\<lambda>b. Inr (Some b)))"

definition read_state ::
  "sched_env \<Rightarrow> i18n \<Rightarrow> backup_env \<Rightarrow> ((string, pyval) dict \<Rightarrow> fields_in) \<Rightarrow> (instant \<Rightarrow> string \<Rightarrow> string)
    \<Rightarrow> string \<Rightarrow> instant option \<Rightarrow> instant \<Rightarrow> state_error + schedule_state" where
  "read_state S I E coerce fmt config_dir next_run moment =
     rbind (py_part (load_schedule S coerce (be_load E) (be_files E) config_dir)) (\<lambda>load.
     let current = sl_schedule load; L = se_lib S in
     rbind (py_part (resolve_backup_dir (be_files E) config_dir)) (\<lambda>backup_dir.
     rbind (py_part (points_in E backup_dir)) (\<lambda>points.
     let tz = (case current of Some s \<Rightarrow> bs_timezone s | None \<Rightarrow> default_timezone L (se_TZ S)) in
     rbind (sched_part (evaluate S (be_fromiso E) current points moment next_run)) (\<lambda>status.
     rbind (case current of
              Some s \<Rightarrow>
                (case bs_retention_days s of
                   Some days \<Rightarrow>
                     rbind (sched_part (plan_retention S (be_fromiso E) s points moment)) (\<lambda>plan.
                       Inr (Some (count_older_than (be_fromiso E) points days moment),
                            map_option (\<lambda>r. tr I ''Not applied at the moment: %(reason)s.''
                              [(''reason'', skip_text I r)]) (rpl_skipped plan)))
                 | None \<Rightarrow> Inr (None, None))
            | None \<Rightarrow> Inr (None, None)) (\<lambda>(would_delete, retention_note).
     rbind (sched_part (optionally (\<lambda>t. format_moment L fmt t tz) next_run)) (\<lambda>next_run_text.
     rbind (case current of
              Some s \<Rightarrow> if bs_enabled s then
                  sched_part (rbind (next_runs L (bs_cron s) tz 3 moment) (rmap (\<lambda>t. format_moment L fmt t tz)))
                else Inr []
            | None \<Rightarrow> Inr []) (\<lambda>next_runs_text.
     rbind (sched_part (optionally (\<lambda>t. format_moment L fmt t tz) (ss_last_ok_at status))) (\<lambda>last_ok_text.
       Inr \<lparr>st_load = load, st_status = status, st_timezone = tz,
            st_description = (case current of Some s \<Rightarrow> describe I L (bs_cron s) | None \<Rightarrow> []),
            st_preset = map_option (\<lambda>s. read_preset L (bs_cron s)) current,
            st_next_run_text = next_run_text, st_next_runs_text = next_runs_text,
            st_last_ok_text = last_ok_text, st_age_text = map_option (humanize I) (ss_age status),
            st_overdue_after_text = map_option (humanize I) (ss_overdue_after status),
            st_would_delete = would_delete, st_retention_note = retention_note,
            st_backup_dir_reachable = is_reachable (be_files E) backup_dir\<rparr>))))))))"

definition opt_str :: "string option \<Rightarrow> pyval" where
  "opt_str v = (case v of None \<Rightarrow> PNone | Some s \<Rightarrow> PStr s)"

definition state_to_dict :: "(load_error \<Rightarrow> string) \<Rightarrow> schedule_state \<Rightarrow> (string, pyval) dict" where
  "state_to_dict error_text st =
     [(''configured'', PBool (sl_schedule (st_load st) \<noteq> None)),
      (''error'', opt_str (map_option error_text (sl_error (st_load st)))),
      (''schedule'', (case sl_schedule (st_load st) of None \<Rightarrow> PNone | Some s \<Rightarrow> PDict (model_dump s))),
      (''description'', PStr (st_description st)),
      (''preset'', (case st_preset st of None \<Rightarrow> PNone | Some p \<Rightarrow> PDict
         [(''mode'', PStr (mode_name (pr_mode p))), (''time'', PStr (pr_time p)),
          (''weekdays'', PList (map PStr (pr_weekdays p))), (''every_hours'', PInt (pr_every_hours p)),
          (''cron'', PStr (pr_cron p))])),
      (''timezone'', PStr (st_timezone st)),
      (''next_run'', opt_str (st_next_run_text st)),
      (''next_runs'', PList (map PStr (st_next_runs_text st))),
      (''last_successful_backup'', opt_str (st_last_ok_text st)),
      (''age'', opt_str (st_age_text st)),
      (''overdue'', PBool (ss_overdue (st_status st))),
      (''overdue_after'', opt_str (st_overdue_after_text st)),
      (''latest_result'', PStr (ss_latest_result (st_status st))),
      (''retention'', PDict
         [(''would_delete'', (case st_would_delete st of None \<Rightarrow> PNone | Some n \<Rightarrow> PInt (int n))),
          (''note'', opt_str (st_retention_note st))]),
      (''backup_dir_reachable'', PBool (st_backup_dir_reachable st))]"

section \<open>Lemmas\<close>

lemma check_cadence_Inr:
  "check_cadence S s = Inr s' \<longleftrightarrow> s' = s \<and>
     (\<exists>c. cad S (bs_cron s) (bs_timezone s) = Inr c \<and> MIN_INTERVAL \<le> shortest c \<and>
       (case bs_retention_days s of None \<Rightarrow> True | Some r \<Rightarrow> min_retention_days c \<le> r))"
  by (cases "cad S (bs_cron s) (bs_timezone s)"; cases "bs_retention_days s") (auto simp: check_cadence_def)

lemma cad_Inr:
  "cad S cron tz = Inr c \<Longrightarrow> zone (se_lib S) tz = Inr tz \<and> (\<exists>f. parse_fields (se_lib S) cron = Inr f)"
  by (auto simp: cadence_of_def analyse_cadence_def rbind_eq_Inr zone_def split: if_splits)

lemma min_retention_days_enough: "2 * longest c \<le> min_retention_days c * us_day"
proof -
  let ?l = "2 * longest c"
  have "((- ?l) div us_day) * us_day + (- ?l) mod us_day = - ?l" by (rule div_mult_mod_eq)
  moreover have "0 \<le> (- ?l) mod us_day" by simp
  ultimately have "?l \<le> - ((- ?l) div us_day) * us_day" by linarith
  also have "\<dots> \<le> min_retention_days c * us_day" by (intro mult_right_mono) (auto simp: min_retention_days_def)
  finally show ?thesis .
qed

lemma times_three_halves_le: "times_three_halves d \<le> max 0 (2 * d)"
  by (auto simp: times_three_halves_def Let_def max_def) presburger+

lemma default_cron_normal: "parse_fields L DEFAULT_CRON = Inr f \<Longrightarrow> expression f = DEFAULT_CRON"
proof -
  have "split_ws DEFAULT_CRON = [''0'', ''3'', ''*'', ''*'', ''*'']" by code_simp
  moreover assume "parse_fields L DEFAULT_CRON = Inr f"
  ultimately show ?thesis
    by (auto simp: parse_fields_def normalise_weekdays_def make_trigger_def Let_def expression_def DEFAULT_CRON_def
        simp del: bad_field.simps split: option.splits if_splits)
qed


lemma field_Inr:
  "field name dflt check v = Inr a \<longleftrightarrow> (v = None \<and> a = dflt) \<or> (\<exists>x. v = Some (Inr x) \<and> check x = Inr a)"
  by (auto simp: field_def split: option.splits sum.splits)

lemma build_schedule_parts:
  assumes "build_schedule S fi = Inr s"
  shows "check_cadence S s = Inr s"
    and "normalise_cron (se_lib S) (bs_cron s) = Inr (bs_cron s)"
    and "known_timezone (se_lib S) (bs_timezone s) = Inr (bs_timezone s)"
    and "case bs_retention_days s of None \<Rightarrow> True | Some r \<Rightarrow> 1 \<le> r \<and> r \<le> 3650"
    and "60 \<le> bs_misfire_grace_seconds s \<and> bs_misfire_grace_seconds s \<le> 86400"
proof -
  obtain enabled cron tz ret grace startup where
      cron: "field ''cron'' DEFAULT_CRON (normalise_cron (se_lib S)) (fi_cron fi) = Inr cron"
      and ret: "field ''retention_days'' None retention_range (fi_retention_days fi) = Inr ret"
      and grace: "field ''misfire_grace_seconds'' 3600 (in_range ''misfire_grace_seconds'' 60 86400)
         (fi_misfire_grace_seconds fi) = Inr grace"
      and chk: "check_cadence S \<lparr>bs_enabled = enabled, bs_cron = cron, bs_timezone = tz,
            bs_retention_days = ret, bs_misfire_grace_seconds = grace, bs_run_on_startup = startup\<rparr> = Inr s"
    using assms unfolding build_schedule_def
    by (elim rbindE) (rule that, assumption+, cases "fi_unknown fi", simp_all)
  have s: "s = \<lparr>bs_enabled = enabled, bs_cron = cron, bs_timezone = tz,
            bs_retention_days = ret, bs_misfire_grace_seconds = grace, bs_run_on_startup = startup\<rparr>"
    using chk check_cadence_Inr by blast
  show "check_cadence S s = Inr s" using chk s by simp
  obtain c where "cad S cron tz = Inr c" using chk by (auto simp: check_cadence_Inr)
  then have z: "zone (se_lib S) tz = Inr tz" and "\<exists>f. parse_fields (se_lib S) cron = Inr f"
    using cad_Inr by blast+
  then obtain f where f: "parse_fields (se_lib S) cron = Inr f" by blast
  have "expression f = cron"
  proof (cases "fi_cron fi = None")
    case True
    then show ?thesis using cron f default_cron_normal by (simp add: field_def)
  next
    case False
    then obtain x g where "parse_fields (se_lib S) x = Inr g" "cron = expression g"
      using cron by (auto simp: field_Inr normalise_cron_def rbind_eq_Inr)
    then show ?thesis using parse_fields_again f by auto
  qed
  then show "normalise_cron (se_lib S) (bs_cron s) = Inr (bs_cron s)" using f s by (simp add: normalise_cron_def)
  show "known_timezone (se_lib S) (bs_timezone s) = Inr (bs_timezone s)" using z s by (simp add: known_timezone_def)
  show "case bs_retention_days s of None \<Rightarrow> True | Some r \<Rightarrow> 1 \<le> r \<and> r \<le> 3650"
    using ret s by (auto simp: field_Inr retention_range_def in_range_def split: option.splits if_splits)
  show "60 \<le> bs_misfire_grace_seconds s \<and> bs_misfire_grace_seconds s \<le> 86400"
    using grace s by (auto simp: field_Inr in_range_def split: if_splits)
qed


section \<open>Properties\<close>

text \<open>C1: The schedule cannot delete its own safety net: when a run is handed a retention, the newest
  successful restore point is inside it, so pruning at that number of days leaves it in place.\<close>

theorem retention_keeps_newest_good:
  assumes "build_schedule S fi = Inr s" "plan_retention S fromiso s points now = Inr plan"
    and "rpl_days plan = Some days"
  shows "\<exists>p t. newest_successful fromiso points = Some p \<and> restore_point_time fromiso p = Some t
    \<and> now - days * us_day \<le> t"
proof -
  have days: "bs_retention_days s = Some days"
    using assms(2,3)
    by (auto simp: plan_retention_def Let_def rbind_eq_Inr split: option.splits if_splits)
  obtain t limit where t: "newest_time fromiso points = Some t" and limit: "overdue_after S s = Inr limit"
      and age: "now - t \<le> limit"
    using assms(2,3) days
    by (auto simp: plan_retention_def Let_def rbind_eq_Inr split: option.splits if_splits)
  obtain c where c: "cad S (bs_cron s) (bs_timezone s) = Inr c" "min_retention_days c \<le> days"
    using build_schedule_parts(1) [OF assms(1)] days by (auto simp: check_cadence_Inr)
  have "limit = times_three_halves (longest c)" using limit c(1) by (simp add: overdue_after_def)
  then have "limit \<le> max 0 (2 * longest c)" using times_three_halves_le by simp
  moreover have "2 * longest c \<le> days * us_day"
    using min_retention_days_enough [of c] mult_right_mono [OF c(2), of us_day] by linarith
  moreover have "1 \<le> days" using build_schedule_parts(4) [OF assms(1)] days by simp
  ultimately have "now - days * us_day \<le> t" using age by linarith
  then show ?thesis using t by (auto simp: newest_time_def split: option.splits)
qed

definition demo_env :: sched_env where
  "demo_env = \<lparr>se_lib = demo_lib\<lparr>cl_fire := (\<lambda>f tz p now. if now < 4 * us_day
        then (let t = (now div us_day + 1) * us_day in Some \<lparr>z_instant = t, z_wall = t\<rparr>) else None)\<rparr>,
     se_TZ = [], se_asked = (\<lambda>e tz. 0)\<rparr>"

definition demo_fields :: fields_in where
  "demo_fields = \<lparr>fi_enabled = None, fi_cron = Some (Inr ''0 0 * * *''), fi_timezone = None,
     fi_retention_days = Some (Inr (Some 14)), fi_misfire_grace_seconds = None, fi_run_on_startup = None,
     fi_unknown = []\<rparr>"

definition demo_schedule :: backup_schedule where
  "demo_schedule = \<lparr>bs_enabled = True, bs_cron = ''0 0 * * *'', bs_timezone = ''UTC'',
     bs_retention_days = Some 14, bs_misfire_grace_seconds = 3600, bs_run_on_startup = IfMissed\<rparr>"

lemma demo_cadence: "cad demo_env ''0 0 * * *'' ''UTC'' = Inr \<lparr>shortest = us_day, longest = us_day\<rparr>"
proof -
  have z: "zone (se_lib demo_env) ''UTC'' = Inr ''UTC''" by code_simp
  have p: "parse_fields (se_lib demo_env) ''0 0 * * *'' = Inr \<lparr>cf_minute = ''0'', cf_hour = ''0'', cf_day = ''*'',
      cf_month = ''*'', cf_day_of_week = ''*''\<rparr>" by code_simp
  show ?thesis
    unfolding cadence_of_def analyse_cadence_def z p rbind_Inr
    by (simp add: CADENCE_SAMPLES_def collect_runs_numeral demo_env_def demo_lib_def make_trigger_def CADENCE_HORIZON_def after_run_def Let_def
        cadence_of_runs_def gaps_def min_list_of_def max_list_of_def)
qed

lemma demo_build: "build_schedule demo_env demo_fields = Inr demo_schedule"
proof -
  have n: "normalise_cron (se_lib demo_env) ''0 0 * * *'' = Inr ''0 0 * * *''" by code_simp
  have d: "default_timezone (se_lib demo_env) (se_TZ demo_env) = ''UTC''" by code_simp
  have "check_cadence demo_env demo_schedule = Inr demo_schedule"
    by (simp add: check_cadence_Inr demo_schedule_def demo_cadence MIN_INTERVAL_def min_retention_days_def)
  then show ?thesis
    by (simp add: build_schedule_def demo_fields_def field_def n d retention_range_def in_range_def demo_schedule_def)
qed

theorem retention_keeps_newest_good_witness:
  "\<exists>p t. newest_successful demo_days [demo_point ''9'' ''ok''] = Some p \<and> restore_point_time demo_days p = Some t
    \<and> 10 * us_day - 14 * us_day \<le> t"
proof -
  have t: "newest_time demo_days [demo_point ''9'' ''ok''] = Some (9 * us_day)" by code_simp
  have "plan_retention demo_env demo_days demo_schedule [demo_point ''9'' ''ok''] (10 * us_day)
      = Inr \<lparr>rpl_days = Some 14, rpl_skipped = None\<rparr>"
    unfolding plan_retention_def t
    by (simp add: demo_schedule_def overdue_after_def demo_cadence times_three_halves_def)
  from retention_keeps_newest_good [OF demo_build this] show ?thesis by simp
qed

text \<open>An accepted schedule runs at most once an hour and its retention covers two runs: it is at least
  twice the longest gap.\<close>

theorem accepted_schedule_bounds:
  assumes "build_schedule S fi = Inr s"
  shows "\<exists>c. cadence_of (se_lib S) (se_asked S) (bs_cron s) (bs_timezone s) = Inr c
    \<and> us_hour \<le> shortest c
    \<and> (case bs_retention_days s of None \<Rightarrow> True | Some r \<Rightarrow> 2 * longest c \<le> r * us_day \<and> 1 \<le> r \<and> r \<le> 3650)"
proof -
  obtain c where c: "cad S (bs_cron s) (bs_timezone s) = Inr c" "us_hour \<le> shortest c"
      "case bs_retention_days s of None \<Rightarrow> True | Some r \<Rightarrow> min_retention_days c \<le> r"
    using build_schedule_parts(1) [OF assms] by (auto simp: check_cadence_Inr MIN_INTERVAL_def)
  have "2 * longest c \<le> r * us_day" if "min_retention_days c \<le> r" for r
    using min_retention_days_enough [of c] mult_right_mono [OF that, of us_day] by linarith
  with c build_schedule_parts(4) [OF assms] show ?thesis by (auto split: option.splits)
qed

theorem accepted_schedule_bounds_witness:
  "\<exists>c. cadence_of (se_lib demo_env) (se_asked demo_env) ''0 0 * * *'' ''UTC'' = Inr c \<and> us_hour \<le> shortest c
    \<and> 2 * longest c \<le> 14 * us_day"
  using accepted_schedule_bounds [OF demo_build] by (auto simp: demo_schedule_def)

text \<open>The page and the scheduler agree: for an enabled schedule and a catalogue with entries, the strip says
  overdue exactly when a catch-up run is due.\<close>

theorem overdue_iff_catchup:
  assumes "evaluate S fromiso (Some s) points now next_run = Inr st" "catchup_due S fromiso s points now = Inr due"
    and "bs_enabled s" "points \<noteq> []"
  shows "ss_overdue st \<longleftrightarrow> due"
  using assms
  by (auto simp: evaluate_def catchup_due_def Let_def rbind_eq_Inr split: option.splits)

theorem overdue_iff_catchup_witness:
  "\<exists>st. evaluate demo_env demo_days (Some demo_schedule) [demo_point ''7'' ''ok''] (9 * us_day) None = Inr st
    \<and> ss_overdue st"
proof -
  have t: "newest_time demo_days [demo_point ''7'' ''ok''] = Some (7 * us_day)" by code_simp
  have l: "overdue_after demo_env demo_schedule = Inr (times_three_halves us_day)"
    by (simp add: overdue_after_def demo_schedule_def demo_cadence)
  have "catchup_due demo_env demo_days demo_schedule [demo_point ''7'' ''ok''] (9 * us_day) = Inr True"
    unfolding catchup_due_def t l by (simp add: times_three_halves_def)
  moreover have "bs_enabled demo_schedule" by (simp add: demo_schedule_def)
  moreover obtain st where st:
      "evaluate demo_env demo_days (Some demo_schedule) [demo_point ''7'' ''ok''] (9 * us_day) None = Inr st"
    using \<open>bs_enabled demo_schedule\<close> by (simp add: evaluate_def t l)
  ultimately show ?thesis using overdue_iff_catchup [OF st] by auto
qed













end
