(* ===== verification/Scheduler.thy ===== *)
theory Scheduler
  imports Schedule Runner Job_Queue
begin

text \<open>
  Starting a backup (\<open>core/backup_run.py\<close>) and the in-process scheduler (\<open>core/scheduler.py\<close>).
  APScheduler's memory store is a dictionary from job ids to timers: a cron timer stays, a date timer is
  gone once it fired. When a timer is due is APScheduler's business, so the step relation lets any
  stored timer fire at any time. \<open>fire\<close> is split where it awaits, since other steps may come there: before it
  has asked docker for a restore or an upgrade (what it knows then is kept in \<open>sc_looking\<close>) and before it has read
  the catalogue and queues the job (\<open>sc_inflight\<close>).
\<close>

section \<open>Starting a backup\<close>

record blocking =
  bl_label :: string
  bl_target :: string

definition blocking_runner :: "'d docker \<Rightarrow> (string \<Rightarrow> pyval option) \<Rightarrow> ('d, blocking option) io" where
  "blocking_runner D loads d =
     (case io_bind (find_runner D loads RESTORE_KIND) (\<lambda>r.
            io_bind (find_runner D loads UPGRADE_KIND) (\<lambda>u. io_ret [(r, ''restore''), (u, ''upgrade'')])) d of
        (Inl (RunnerError _), d') \<Rightarrow> (Inr None, d')
      | (Inl (Raise e), d') \<Rightarrow> (Inl (Raise e), d')
      | (Inr candidates, d') \<Rightarrow>
          (Inr (map_option (\<lambda>(r, label). \<lparr>bl_label = label, bl_target = rs_target (the r)\<rparr>)
             (find_first (\<lambda>(r, label). case r of None \<Rightarrow> False | Some s \<Rightarrow> is_running s) candidates)), d'))"

definition backup_flags :: "string \<Rightarrow> int option \<Rightarrow> string list" where
  "backup_flags backup_dir retention_days =
     (''--backup-dir='' @ backup_dir)
     # (case retention_days of None \<Rightarrow> [] | Some n \<Rightarrow> [''--retention-period-days='' @ str_of_int n])"

definition MANUAL :: string where "MANUAL = ''manual''"
definition SCHEDULE :: string where "SCHEDULE = ''schedule''"

text \<open>The callback of a backup job: what it closes over.\<close>

record backup_cb =
  cb_note :: "string option"
  cb_trigger :: string
  cb_flags :: "string list"
  cb_user :: string
  cb_target :: string
  cb_params :: "(string, pyval) dict"

definition backup_params :: "int option \<Rightarrow> string \<Rightarrow> string option \<Rightarrow> (string, pyval) dict" where
  "backup_params retention_days trigger node =
     [(''retention_days'', (case retention_days of None \<Rightarrow> PNone | Some n \<Rightarrow> PInt n))]
     @ (if trigger \<noteq> MANUAL then [(''trigger'', PStr trigger)] else [])
     @ (case node of None \<Rightarrow> [] | Some n \<Rightarrow> if n = [] then [] else [(''node'', PStr n)])"

definition node_flag :: "string option \<Rightarrow> string list" where
  "node_flag node = (case node of None \<Rightarrow> [] | Some n \<Rightarrow> if n = [] then [] else [''--only=node:'' @ n])"

definition enqueue_backup ::
  "instant \<Rightarrow> string \<Rightarrow> string \<Rightarrow> string \<Rightarrow> int option \<Rightarrow> string \<Rightarrow> string option \<Rightarrow> string option
    \<Rightarrow> backup_cb queue_state \<Rightarrow> backup_cb queue_state \<times> job" where
  "enqueue_backup now jid backup_dir user retention_days trigger note node q =
     (let flags = backup_flags backup_dir retention_days @ node_flag node;
          params = backup_params retention_days trigger node;
          cb = \<lparr>cb_note = note, cb_trigger = trigger, cb_flags = flags, cb_user = user,
                cb_target = backup_dir, cb_params = params\<rparr>
      in enqueue now jid ''backup'' backup_dir user
           (PDict (filter (\<lambda>kv. fst kv \<noteq> ''trigger'') params)) cb q)"

text \<open>
  Running the callback: the lines papaia-ctl wrote, and whether it then raised. The audit entry and the
  last line come only after a run that did not raise.
\<close>

definition run_backup_cb ::
  "string \<Rightarrow> string \<Rightarrow> backup_cb \<Rightarrow> string list \<Rightarrow> outcome \<Rightarrow> string list \<times> audit_entry list" where
  "run_backup_cb ts jid cb ctl_lines out =
     (let head = (case cb_note cb of None \<Rightarrow> [] | Some n \<Rightarrow> if n = [] then [] else [''['' @ cb_trigger cb @ ''] '' @ n])
            @ [''[ctl] papaia-ctl backup '' @ join '' '' (cb_flags cb)]
      in case out of
           Raised _ _ \<Rightarrow> (head @ ctl_lines, [])
         | Returned \<Rightarrow> (head @ ctl_lines @ [''[info] done''],
             [\<lparr>ae_ts = ts, ae_user = cb_user cb, ae_action = ''backup'', ae_target = cb_target cb,
               ae_result = ''ok'', ae_params = Some (PDict (cb_params cb)), ae_job_id = Some jid\<rparr>]))"

section \<open>The scheduler's state\<close>

datatype timer = CronTimer cron_fields string int | DateTimer instant nat

definition JOB_ID :: string where "JOB_ID = ''backup-schedule''"
definition RETRY_JOB_ID :: string where "RETRY_JOB_ID = ''backup-schedule-retry''"
definition CATCHUP_JOB_ID :: string where "CATCHUP_JOB_ID = ''backup-schedule-catchup''"
definition SCHEDULER_USER :: string where "SCHEDULER_USER = ''scheduler''"
definition CATCHUP_DELAY :: timedelta where "CATCHUP_DELAY = 120 * us_second"
definition RETRY_DELAY :: timedelta where "RETRY_DELAY = 10 * us_minute"
definition MAX_ATTEMPTS :: nat where "MAX_ATTEMPTS = 6"

record sched_state =
  sc_store :: "(string, timer) dict"
  sc_running :: bool
  sc_stopping :: bool
  sc_queue :: "backup_cb queue_state"
  sc_audit :: "audit_entry list"
  sc_looking :: "(nat \<times> backup_schedule \<times> string) list"
  sc_inflight :: "(backup_schedule \<times> string) list"

text \<open>What the scheduler reads at one moment.\<close>

record 'd sched_world =
  w_env :: sched_env
  w_backup :: backup_env
  w_coerce :: "(string, pyval) dict \<Rightarrow> fields_in"
  w_config_dir :: string
  w_docker :: "'d docker"
  w_loads :: "string \<Rightarrow> pyval option"
  w_i18n :: i18n
  w_now :: instant
  w_ts :: string

datatype fire_error = FirePy py_exn | FireRun run_error | FireSched schedule_error

definition of_py :: "py_exn + 'a \<Rightarrow> fire_error + 'a" where
  "of_py r = (case r of Inl e \<Rightarrow> Inl (FirePy e) | Inr a \<Rightarrow> Inr a)"

definition of_sched :: "schedule_error + 'a \<Rightarrow> fire_error + 'a" where
  "of_sched r = (case r of Inl e \<Rightarrow> Inl (FireSched e) | Inr a \<Rightarrow> Inr a)"

abbreviation loaded :: "'d sched_world \<Rightarrow> py_exn + schedule_load" where
  "loaded W \<equiv> load_schedule (w_env W) (w_coerce W) (be_load (w_backup W)) (be_files (w_backup W)) (w_config_dir W)"

definition running :: "sched_state \<Rightarrow> bool" where
  "running st \<longleftrightarrow> sc_running st \<and> \<not> sc_stopping st"

definition shutdown :: "sched_state \<Rightarrow> sched_state" where
  "shutdown st =
     (if sc_stopping st then st else st\<lparr>sc_stopping := True, sc_running := False\<rparr>)"

definition remove :: "string \<Rightarrow> (string, timer) dict \<Rightarrow> (string, timer) dict" where
  "remove job_id store = (if dict_get store job_id \<noteq> None then dict_del store job_id else store)"

definition apply_schedule ::
  "cron_lib \<Rightarrow> backup_schedule option \<Rightarrow> sched_state \<Rightarrow> (schedule_error + unit) \<times> sched_state" where
  "apply_schedule L current st =
     (let store = remove CATCHUP_JOB_ID (remove RETRY_JOB_ID (sc_store st)) in
      case current of
        Some s \<Rightarrow>
          if bs_enabled s then
            (case build_trigger L (bs_cron s) (bs_timezone s) of
               Inl e \<Rightarrow> (Inl e, st\<lparr>sc_store := store\<rparr>)
             | Inr (f, tz) \<Rightarrow>
                 (Inr (), st\<lparr>sc_store := dict_set store JOB_ID (CronTimer f tz (bs_misfire_grace_seconds s))\<rparr>))
          else (Inr (), st\<lparr>sc_store := remove JOB_ID store\<rparr>)
      | None \<Rightarrow> (Inr (), st\<lparr>sc_store := remove JOB_ID store\<rparr>))"

definition reload :: "'d sched_world \<Rightarrow> sched_state \<Rightarrow> (fire_error + schedule_load) \<times> sched_state" where
  "reload W st =
     (case loaded W of
        Inl e \<Rightarrow> (Inl (FirePy e), st)
      | Inr l \<Rightarrow>
         (case apply_schedule (se_lib (w_env W)) (sl_schedule l) st of
            (Inl e, st') \<Rightarrow> (Inl (FireSched e), st')
          | (Inr _, st') \<Rightarrow> (Inr l, st')))"

section \<open>Firing\<close>

datatype fire_result = Started | Retry | GaveUp | Disabled

definition skip_entry :: "string \<Rightarrow> nat \<Rightarrow> string \<Rightarrow> string option \<Rightarrow> audit_entry" where
  "skip_entry ts attempt reason backup_dir =
     \<lparr>ae_ts = ts, ae_user = SCHEDULER_USER, ae_action = ''backup.schedule.skip'',
      ae_target = (case backup_dir of None \<Rightarrow> [] | Some d \<Rightarrow> d), ae_result = ''skipped'',
      ae_params = Some (PDict [(''reason'', PStr reason), (''attempt'', PInt (int attempt)),
        (''gave_up'', PBool (attempt \<ge> MAX_ATTEMPTS))]), ae_job_id = None\<rparr>"

definition skip ::
  "instant \<Rightarrow> string \<Rightarrow> nat \<Rightarrow> string \<Rightarrow> string option \<Rightarrow> sched_state \<Rightarrow> fire_result \<times> sched_state" where
  "skip now ts attempt reason backup_dir st =
     (let st1 = st\<lparr>sc_audit := sc_audit st @ [skip_entry ts attempt reason backup_dir]\<rparr> in
      if attempt \<ge> MAX_ATTEMPTS then (GaveUp, st1)
      else (Retry, st1\<lparr>sc_store := dict_set (sc_store st1) RETRY_JOB_ID (DateTimer (now + RETRY_DELAY) (attempt + 1))\<rparr>))"

text \<open>\<open>fire\<close> up to the await of the docker lookups: the schedule and the backup directory.\<close>

definition fire_begin ::
  "'d sched_world \<Rightarrow> nat \<Rightarrow> sched_state \<Rightarrow> (fire_error + fire_result option) \<times> sched_state" where
  "fire_begin W attempt st =
     (case of_py (loaded W) of
        Inl e \<Rightarrow> (Inl e, st)
      | Inr l \<Rightarrow>
         (case sl_schedule l of
            None \<Rightarrow> (Inr (Some Disabled), st)
          | Some s \<Rightarrow>
             if \<not> bs_enabled s then (Inr (Some Disabled), st)
             else
               (case of_py (resolve_backup_dir (be_files (w_backup W)) (w_config_dir W)) of
                  Inl e \<Rightarrow> (Inl e, st)
                | Inr backup_dir \<Rightarrow>
                   if \<not> is_reachable (be_files (w_backup W)) backup_dir
                   then (case skip (w_now W) (w_ts W) attempt ''the backup directory is not reachable'' backup_dir st of
                           (r, st') \<Rightarrow> (Inr (Some r), st'))
                   else (Inr None, st\<lparr>sc_looking := sc_looking st @ [(attempt, s, the backup_dir)]\<rparr>))))"

text \<open>From the answers of docker to the await before the catalogue is read: a restore, an upgrade or a job in the way.\<close>

definition fire_look ::
  "'d sched_world \<Rightarrow> nat \<Rightarrow> backup_schedule \<Rightarrow> string \<Rightarrow> sched_state \<Rightarrow> 'd
    \<Rightarrow> (fire_error + fire_result option) \<times> sched_state \<times> 'd" where
  "fire_look W attempt s backup_dir st d =
     (case blocking_runner (w_docker W) (w_loads W) d of
        (Inl e, d') \<Rightarrow> (Inl (FireRun e), st, d')
      | (Inr (Some b), d') \<Rightarrow>
          (case skip (w_now W) (w_ts W) attempt (''a '' @ bl_label b @ '' of '' @ bl_target b @ '' is still running'')
                  (Some backup_dir) st of
             (r, st') \<Rightarrow> (Inr (Some r), st', d'))
      | (Inr None, d') \<Rightarrow>
          (case active_job (sc_queue st) of
             Some a \<Rightarrow>
               (case skip (w_now W) (w_ts W) attempt (''a '' @ j_action a @ '' job is already running'') (Some backup_dir) st of
                  (r, st') \<Rightarrow> (Inr (Some r), st', d'))
           | None \<Rightarrow> (Inr None, st\<lparr>sc_inflight := sc_inflight st @ [(s, backup_dir)]\<rparr>, d')))"

text \<open>The rest of \<open>fire\<close>: the catalogue, the retention and the job.\<close>

definition fire_finish ::
  "'d sched_world \<Rightarrow> string \<Rightarrow> backup_schedule \<Rightarrow> string \<Rightarrow> sched_state
    \<Rightarrow> (fire_error + fire_result) \<times> sched_state" where
  "fire_finish W jid s backup_dir st =
     (case rbind (of_py (points_in (w_backup W) (Some backup_dir))) (\<lambda>points.
             of_sched (plan_retention (w_env W) (be_fromiso (w_backup W)) s points (w_now W))) of
        Inl e \<Rightarrow> (Inl e, st)
      | Inr plan \<Rightarrow>
          let note = (case rpl_skipped plan of None \<Rightarrow> None
                | Some r \<Rightarrow> if skip_text (w_i18n W) r = [] then None
                            else Some (''retention not applied: '' @ skip_text (w_i18n W) r))
          in (Inr Started, st\<lparr>sc_queue := fst (enqueue_backup (w_now W) jid backup_dir SCHEDULER_USER
                 (rpl_days plan) SCHEDULE note None (sc_queue st))\<rparr>))"

section \<open>Catching up and starting\<close>

definition schedule_catchup :: "'d sched_world \<Rightarrow> sched_state \<Rightarrow> (fire_error + unit) \<times> sched_state" where
  "schedule_catchup W st =
     (case rbind (of_py (loaded W)) (\<lambda>l.
        case sl_schedule l of
          Some s \<Rightarrow>
            if bs_enabled s \<and> bs_run_on_startup s = IfMissed then
              rbind (of_py (resolve_backup_dir (be_files (w_backup W)) (w_config_dir W))) (\<lambda>dir.
              rbind (of_py (points_in (w_backup W) dir)) (\<lambda>points.
                of_sched (rbind (catchup_due (w_env W) (be_fromiso (w_backup W)) s points (w_now W)) (\<lambda>due.
                  if due then rbind (overdue_after (w_env W) s) (\<lambda>_. Inr True) else Inr False))))
            else Inr False
        | None \<Rightarrow> Inr False) of
       Inl e \<Rightarrow> (Inl e, st)
     | Inr False \<Rightarrow> (Inr (), st)
     | Inr True \<Rightarrow> (Inr (), st\<lparr>sc_store :=
          dict_set (sc_store st) CATCHUP_JOB_ID (DateTimer (w_now W + CATCHUP_DELAY) 1)\<rparr>))"

definition start_scheduler :: "'d sched_world \<Rightarrow> sched_state \<Rightarrow> (fire_error + unit) \<times> sched_state" where
  "start_scheduler W st =
     (case reload W (st\<lparr>sc_running := True\<rparr>) of
        (Inl e, st') \<Rightarrow> (Inl e, st')
      | (Inr _, st') \<Rightarrow> schedule_catchup W st')"

text \<open>The next fire time of a stored timer is APScheduler's answer \<open>fires\<close>.\<close>

definition next_run_time :: "(timer \<Rightarrow> instant option) \<Rightarrow> sched_state \<Rightarrow> instant option" where
  "next_run_time fires st = (case dict_get (sc_store st) JOB_ID of None \<Rightarrow> None | Some t \<Rightarrow> fires t)"

section \<open>The step relation\<close>

definition init_sched :: "backup_cb queue_state \<Rightarrow> sched_state" where
  "init_sched q = \<lparr>sc_store = [], sc_running = False, sc_stopping = False, sc_queue = q, sc_audit = [], sc_looking = [],
     sc_inflight = []\<rparr>"

definition timer_attempt :: "timer \<Rightarrow> nat" where
  "timer_attempt t = (case t of CronTimer _ _ _ \<Rightarrow> 1 | DateTimer _ n \<Rightarrow> n)"

definition take_timer :: "string \<Rightarrow> timer \<Rightarrow> sched_state \<Rightarrow> sched_state" where
  "take_timer k t st = (case t of CronTimer _ _ _ \<Rightarrow> st | DateTimer _ _ \<Rightarrow> st\<lparr>sc_store := dict_del (sc_store st) k\<rparr>)"

inductive sched_step :: "sched_env \<Rightarrow> 'd docker \<Rightarrow> sched_state \<Rightarrow> sched_state \<Rightarrow> bool"
  for S :: sched_env and D :: "'d docker" where
  booted: "w_env W = S \<Longrightarrow> w_docker W = D \<Longrightarrow> \<not> sc_running st \<Longrightarrow> sched_step S D st (snd (start_scheduler W st))"
| reloaded: "w_env W = S \<Longrightarrow> w_docker W = D \<Longrightarrow> sched_step S D st (snd (reload W st))"
| fired: "w_env W = S \<Longrightarrow> w_docker W = D \<Longrightarrow> running st \<Longrightarrow> dict_get (sc_store st) k = Some t \<Longrightarrow>
    fire_begin W (timer_attempt t) (take_timer k t st) = (r, st') \<Longrightarrow> sched_step S D st st'"
| looked: "w_env W = S \<Longrightarrow> w_docker W = D \<Longrightarrow> (n, s, dir) \<in> set (sc_looking st) \<Longrightarrow>
    fire_look W n s dir st d = (r, st', d') \<Longrightarrow>
    sched_step S D st (st'\<lparr>sc_looking := remove1 (n, s, dir) (sc_looking st')\<rparr>)"
| went: "w_env W = S \<Longrightarrow> w_docker W = D \<Longrightarrow> (s, dir) \<in> set (sc_inflight st) \<Longrightarrow>
    jid \<notin> set (dict_keys (q_jobs (sc_queue st))) \<Longrightarrow> q_clock (sc_queue st) \<le> w_now W \<Longrightarrow>
    fire_finish W jid s dir st = (r, st') \<Longrightarrow>
    sched_step S D st (st'\<lparr>sc_inflight := remove1 (s, dir) (sc_inflight st')\<rparr>)"
| worked: "queue_step (sc_queue st) q' \<Longrightarrow> sched_step S D st (st\<lparr>sc_queue := q'\<rparr>)"
| stopped: "sched_step S D st (shutdown st)"

inductive is_init_sched :: "sched_state \<Rightarrow> bool" where
  "is_init_queue q \<Longrightarrow> is_init_sched (init_sched q)"

abbreviation reachable_sched :: "sched_env \<Rightarrow> 'd docker \<Rightarrow> sched_state \<Rightarrow> bool" where
  "reachable_sched S D \<equiv> reach is_init_sched (sched_step S D)"

section \<open>The timer store\<close>

text \<open>
  What the scheduler relies on in APScheduler's store: an added job is found under its id and replaces
  the one before, a removed one is not found, and no other id is touched.
\<close>

locale timer_store =
  fixes get :: "'s \<Rightarrow> string \<Rightarrow> 't option"
    and put :: "'s \<Rightarrow> string \<Rightarrow> 't \<Rightarrow> 's"
    and drop_job :: "string \<Rightarrow> 's \<Rightarrow> 's"
  assumes get_put: "get (put st k v) j = (if j = k then Some v else get st j)"
    and get_drop: "get (drop_job k st) j = (if j = k then None else get st j)"
begin

lemma get_purged: "get (drop_job a (drop_job b (drop_job c st))) j = (if j \<in> {a, b, c} then None else get st j)"
  by (simp add: get_drop)

lemma get_purged_put:
  "get (put (drop_job b (drop_job c st)) a v) j =
     (if j = a then Some v else if j \<in> {b, c} then None else get st j)"
  by (simp add: get_put get_drop)

end

interpretation store: timer_store dict_get dict_set remove
  by unfold_locales (simp_all add: remove_def)

section \<open>Invariant\<close>

definition timer_ok :: "string \<Rightarrow> timer \<Rightarrow> bool" where
  "timer_ok k t =
     (case t of
        CronTimer _ _ _ \<Rightarrow> k = JOB_ID
      | DateTimer _ n \<Rightarrow> (k = RETRY_JOB_ID \<and> 2 \<le> n \<and> n \<le> MAX_ATTEMPTS) \<or> (k = CATCHUP_JOB_ID \<and> n = 1))"

definition store_ok :: "(string, timer) dict \<Rightarrow> bool" where
  "store_ok store \<longleftrightarrow> (\<forall>k t. dict_get store k = Some t \<longrightarrow> timer_ok k t)"

definition sched_inv :: "sched_env \<Rightarrow> sched_state \<Rightarrow> bool" where
  "sched_inv S st \<longleftrightarrow> store_ok (sc_store st) \<and> reachable_queue (sc_queue st)
     \<and> (\<forall>(n, s, dir) \<in> set (sc_looking st). 1 \<le> n \<and> bs_enabled s \<and> (\<exists>fi. build_schedule S fi = Inr s))
     \<and> (\<forall>(s, dir) \<in> set (sc_inflight st). bs_enabled s \<and> (\<exists>fi. build_schedule S fi = Inr s))"

lemma job_ids: "JOB_ID \<noteq> RETRY_JOB_ID" "JOB_ID \<noteq> CATCHUP_JOB_ID" "RETRY_JOB_ID \<noteq> CATCHUP_JOB_ID"
  by (simp_all add: JOB_ID_def RETRY_JOB_ID_def CATCHUP_JOB_ID_def)

lemma store_ok_put: "store_ok store \<Longrightarrow> timer_ok k t \<Longrightarrow> store_ok (dict_set store k t)"
  by (simp add: store_ok_def)

lemma store_ok_remove: "store_ok store \<Longrightarrow> store_ok (remove k store)"
  by (auto simp: store_ok_def store.get_drop)

lemma store_ok_del: "store_ok store \<Longrightarrow> store_ok (dict_del store k)"
  by (auto simp: store_ok_def)

lemma sched_inv_frame:
  assumes "sched_inv S st" "store_ok (sc_store st')" "sc_queue st' = sc_queue st" "sc_inflight st' = sc_inflight st"
    and "sc_looking st' = sc_looking st"
  shows "sched_inv S st'"
  using assms by (simp add: sched_inv_def)

lemma apply_schedule_frame:
  "sc_queue (snd (apply_schedule L c st)) = sc_queue st"
  "sc_inflight (snd (apply_schedule L c st)) = sc_inflight st" "sc_looking (snd (apply_schedule L c st)) = sc_looking st"
  "store_ok (sc_store st) \<Longrightarrow> store_ok (sc_store (snd (apply_schedule L c st)))"
  by (auto simp: apply_schedule_def Let_def timer_ok_def intro!: store_ok_put store_ok_remove
      split: option.splits sum.splits)

lemma reload_frame:
  "sc_queue (snd (reload W st)) = sc_queue st"
  "sc_inflight (snd (reload W st)) = sc_inflight st" "sc_looking (snd (reload W st)) = sc_looking st"
  "store_ok (sc_store st) \<Longrightarrow> store_ok (sc_store (snd (reload W st)))"
proof -
  have "snd (reload W st) = st \<or> (\<exists>c. snd (reload W st) = snd (apply_schedule (se_lib (w_env W)) c st))"
    by (auto simp: reload_def split: sum.splits prod.splits) (metis snd_conv)+
  then show "sc_queue (snd (reload W st)) = sc_queue st" "sc_inflight (snd (reload W st)) = sc_inflight st"
      "sc_looking (snd (reload W st)) = sc_looking st"
      "store_ok (sc_store st) \<Longrightarrow> store_ok (sc_store (snd (reload W st)))"
    using apply_schedule_frame by metis+
qed

lemma schedule_catchup_frame:
  "sc_queue (snd (schedule_catchup W st)) = sc_queue st"
  "sc_inflight (snd (schedule_catchup W st)) = sc_inflight st" "sc_looking (snd (schedule_catchup W st)) = sc_looking st"
  "store_ok (sc_store st) \<Longrightarrow> store_ok (sc_store (snd (schedule_catchup W st)))"
proof -
  have "snd (schedule_catchup W st) = st \<or> (\<exists>t. snd (schedule_catchup W st) =
      st\<lparr>sc_store := dict_set (sc_store st) CATCHUP_JOB_ID (DateTimer t 1)\<rparr>)"
    unfolding schedule_catchup_def by (auto split: sum.splits bool.splits)
  then show "sc_queue (snd (schedule_catchup W st)) = sc_queue st"
      "sc_inflight (snd (schedule_catchup W st)) = sc_inflight st" "sc_looking (snd (schedule_catchup W st)) = sc_looking st"
      "store_ok (sc_store st) \<Longrightarrow> store_ok (sc_store (snd (schedule_catchup W st)))"
    by (auto intro!: store_ok_put simp: timer_ok_def)
qed

lemma start_scheduler_inv:
  assumes "sched_inv S st"
  shows "sched_inv S (snd (start_scheduler W st))"
proof -
  let ?r = "reload W (st\<lparr>sc_running := True\<rparr>)"
  have "snd (start_scheduler W st) = snd ?r \<or> snd (start_scheduler W st) = snd (schedule_catchup W (snd ?r))"
    by (auto simp: start_scheduler_def split: prod.splits sum.splits)
  moreover have "sched_inv S (snd ?r)"
    by (rule sched_inv_frame [OF assms]) (use assms in \<open>simp_all add: reload_frame sched_inv_def\<close>)
  moreover have "sched_inv S (snd (schedule_catchup W (snd ?r)))"
    by (rule sched_inv_frame [OF \<open>sched_inv S (snd ?r)\<close>])
      (use \<open>sched_inv S (snd ?r)\<close> in \<open>simp_all add: schedule_catchup_frame sched_inv_def\<close>)
  ultimately show ?thesis by metis
qed

lemma loaded_schedule:
  assumes "loaded W = Inr l" "sl_schedule l = Some s"
  shows "\<exists>fi. build_schedule (w_env W) fi = Inr s"
  using assms by (auto simp: load_schedule_def no_schedule_def split: fs_entry.splits option.splits pyval.splits sum.splits)

lemma skip_frame:
  assumes "skip now ts attempt reason dir st = (r, st')" "1 \<le> attempt"
  shows "sc_queue st' = sc_queue st" "sc_inflight st' = sc_inflight st" "sc_looking st' = sc_looking st"
    "store_ok (sc_store st) \<Longrightarrow> store_ok (sc_store st')"
  using assms by (auto simp: skip_def Let_def timer_ok_def split: if_splits intro!: store_ok_put)

lemma take_timer_frame:
  "sc_queue (take_timer k t st) = sc_queue st" "sc_inflight (take_timer k t st) = sc_inflight st"
  "sc_looking (take_timer k t st) = sc_looking st"
  "store_ok (sc_store st) \<Longrightarrow> store_ok (sc_store (take_timer k t st))"
  by (auto simp: take_timer_def store_ok_del split: timer.splits)

lemma timer_attempt_ok: "timer_ok k t \<Longrightarrow> 1 \<le> timer_attempt t \<and> timer_attempt t \<le> MAX_ATTEMPTS"
  by (auto simp: timer_ok_def timer_attempt_def MAX_ATTEMPTS_def split: timer.splits)

lemma skip_inv:
  assumes "sched_inv S st" "skip now ts attempt reason dir st = (r, st')" "1 \<le> attempt"
  shows "sched_inv S st'"
  using assms(1) skip_frame [OF assms(2,3)] by (intro sched_inv_frame [OF assms(1)]) (simp_all add: sched_inv_def)

lemma fire_begin_cases:
  assumes "fire_begin W attempt st = (r, st')"
  shows "st' = st \<or> (\<exists>r' reason dir. skip (w_now W) (w_ts W) attempt reason dir st = (r', st'))
    \<or> (\<exists>s dir. r = Inr None \<and> bs_enabled s \<and> (\<exists>fi. build_schedule (w_env W) fi = Inr s)
         \<and> st' = st\<lparr>sc_looking := sc_looking st @ [(attempt, s, dir)]\<rparr>)"
  using assms loaded_schedule
  by (fastforce simp: fire_begin_def of_py_def split: sum.splits option.splits if_splits prod.splits)

lemma fire_begin_inv:
  assumes inv: "sched_inv S st" and "w_env W = S" "1 \<le> attempt" and fire: "fire_begin W attempt st = (r, st')"
  shows "sched_inv S st'"
proof -
  have "sched_inv S (st\<lparr>sc_looking := sc_looking st @ [(attempt, s, dir)]\<rparr>)"
    if "bs_enabled s" "\<exists>fi. build_schedule S fi = Inr s" for s dir
    using inv assms(3) that by (auto simp: sched_inv_def)
  then show ?thesis using fire_begin_cases [OF fire] inv assms(2) skip_inv [OF inv _ assms(3)] by blast
qed

lemma fire_look_cases:
  assumes "fire_look W n s dir st d = (r, st', d')"
  shows "st' = st \<or> (\<exists>r' reason. r = Inr (Some r') \<and> skip (w_now W) (w_ts W) n reason (Some dir) st = (r', st'))
    \<or> (r = Inr None \<and> active_job (sc_queue st) = None \<and> st' = st\<lparr>sc_inflight := sc_inflight st @ [(s, dir)]\<rparr>)"
  using assms by (fastforce simp: fire_look_def split: sum.splits option.splits prod.splits)

lemma ball_remove1: "\<forall>y \<in> set xs. P y \<Longrightarrow> \<forall>y \<in> set (remove1 x xs). P y"
  by (meson notin_set_remove1)

lemma looking_removed: "sched_inv S st \<Longrightarrow> sched_inv S (st\<lparr>sc_looking := remove1 x (sc_looking st)\<rparr>)"
  unfolding sched_inv_def using ball_remove1 by (metis (no_types, lifting) sched_state.ext_inject sched_state.surjective sched_state.update_convs(6))

lemma fire_look_inv:
  assumes inv: "sched_inv S st" and x: "(n, s, dir) \<in> set (sc_looking st)" and look: "fire_look W n s dir st d = (r, st', d')"
  shows "sched_inv S (st'\<lparr>sc_looking := remove1 (n, s, dir) (sc_looking st')\<rparr>)"
proof -
  have s: "1 \<le> n" "bs_enabled s" "\<exists>fi. build_schedule S fi = Inr s" using inv x by (auto simp: sched_inv_def)
  have "sched_inv S (st\<lparr>sc_inflight := sc_inflight st @ [(s, dir)]\<rparr>)" using inv s by (auto simp: sched_inv_def)
  then have "sched_inv S st'" using fire_look_cases [OF look] inv skip_inv [OF inv _ s(1)] by blast
  then show ?thesis by (rule looking_removed)
qed

lemma fire_finish_cases:
  assumes "fire_finish W jid s dir st = (r, st')"
  shows "st' = st \<or> (\<exists>days note. r = Inr Started \<and> st' = st\<lparr>sc_queue := fst (enqueue_backup (w_now W) jid dir
      SCHEDULER_USER days SCHEDULE note None (sc_queue st))\<rparr>)"
  using assms by (auto simp: fire_finish_def Let_def split: sum.splits)

lemma fire_finish_inv:
  assumes inv: "sched_inv S st" and new: "jid \<notin> set (dict_keys (q_jobs (sc_queue st)))"
    and clock: "q_clock (sc_queue st) \<le> w_now W" and "fire_finish W jid s dir st = (r, st')"
  shows "sched_inv S (st'\<lparr>sc_inflight := remove1 x (sc_inflight st')\<rparr>)"
proof -
  have rq: "reachable_queue (sc_queue st)" using inv by (simp add: sched_inv_def)
  have en: "reachable_queue (fst (enqueue_backup (w_now W) jid dir SCHEDULER_USER days SCHEDULE remark None (sc_queue st)))"
    for days remark
    unfolding enqueue_backup_def Let_def
    by (rule reach_step [OF rq]) (rule queue_step.enqueued [OF new clock])
  have rem: "\<forall>(s, dir) \<in> set (remove1 x (sc_inflight st)). bs_enabled s \<and> (\<exists>fi. build_schedule S fi = Inr s)"
    using inv unfolding sched_inv_def by (intro ball_remove1) blast
  from fire_finish_cases [OF assms(4)] show ?thesis
  proof (elim disjE exE conjE)
    assume "st' = st"
    then show ?thesis using inv rem by (simp only: sched_inv_def) simp
  next
    fix days remark
    assume "st' = st\<lparr>sc_queue := fst (enqueue_backup (w_now W) jid dir SCHEDULER_USER days SCHEDULE remark None (sc_queue st))\<rparr>"
    then show ?thesis using inv rem en [of days remark] by (simp only: sched_inv_def) simp
  qed
qed

lemma sched_step_inv:
  assumes "sched_step S D st st'" "sched_inv S st"
  shows "sched_inv S st'"
  using assms
proof (induction rule: sched_step.induct)
  case (booted W st)
  then show ?case by (intro start_scheduler_inv)
next
  case (reloaded W st)
  show ?case
    by (rule sched_inv_frame [OF reloaded.prems])
      (use reloaded.prems in \<open>simp_all add: reload_frame sched_inv_def\<close>)
next
  case (fired W st k t r st')
  have "timer_ok k t" using fired by (auto simp: sched_inv_def store_ok_def)
  then have "1 \<le> timer_attempt t" using timer_attempt_ok by blast
  moreover have "sched_inv S (take_timer k t st)"
    by (rule sched_inv_frame [OF fired.prems])
      (use fired.prems in \<open>simp_all add: take_timer_frame sched_inv_def\<close>)
  ultimately show ?case by (intro fire_begin_inv [OF _ fired.hyps(1) _ fired.hyps(5)])
next
  case (looked W n s dir st d r st' d')
  then show ?case by (intro fire_look_inv)
next
  case (went W s dir st jid r st')
  then show ?case by (intro fire_finish_inv)
next
  case (worked st q')
  then show ?case by (auto simp: sched_inv_def intro: reach_step)
next
  case (stopped st)
  then show ?case by (simp add: sched_inv_def shutdown_def)
qed

lemma is_init_sched_inv: "is_init_sched st \<Longrightarrow> sched_inv S st"
  by (induction rule: is_init_sched.induct) (auto simp: sched_inv_def init_sched_def store_ok_def intro: reach_init)

interpretation sched: invariant_system is_init_sched "sched_step S D" "sched_inv S"
  for S :: sched_env and D :: "'d docker"
  by unfold_locales (auto intro: is_init_sched_inv sched_step_inv)

section \<open>Properties\<close>

text \<open>C18: A blocked run is retried a bounded number of times: in every reachable state the retry that is
  planned is at most the sixth attempt, and the sixth blocked attempt plans none.\<close>

theorem retries_bounded:
  assumes "reachable_sched S D st" "dict_get (sc_store st) RETRY_JOB_ID = Some t"
  shows "\<exists>at n. t = DateTimer at n \<and> 2 \<le> n \<and> n \<le> MAX_ATTEMPTS
    \<and> (n = MAX_ATTEMPTS \<longrightarrow>
        fst (skip now ts n reason dir (take_timer RETRY_JOB_ID t st)) = GaveUp
        \<and> dict_get (sc_store (snd (skip now ts n reason dir (take_timer RETRY_JOB_ID t st)))) RETRY_JOB_ID = None)"
proof -
  have "sched_inv S st" using assms(1) by (rule sched.reach_inv)
  then have "timer_ok RETRY_JOB_ID t" using assms(2) by (simp add: sched_inv_def store_ok_def)
  then show ?thesis using job_ids
    by (auto simp: timer_ok_def skip_def take_timer_def Let_def split: timer.splits)
qed

definition demo_world :: "unit sched_world" where
  "demo_world = \<lparr>w_env = demo_env,
     w_backup = \<lparr>be_load = (\<lambda>t. Some (PDict [])), be_flt = (\<lambda>v. Inl TypeError), be_trunc = (\<lambda>v. Inl ValueError),
       be_fromiso = demo_days,
       be_files = (\<lambda>p. if p = ''/cfg/manager/schedule.yaml'' then Text [] else Absent)\<rparr>,
     w_coerce = (\<lambda>d. demo_fields), w_config_dir = ''/cfg'', w_docker = demo_docker, w_loads = demo_inspect,
     w_i18n = \<lparr>tr = (\<lambda>m a. m), ntr = (\<lambda>m p n a. m)\<rparr>, w_now = 7, w_ts = ''ts''\<rparr>"

lemma demo_loaded: "loaded demo_world = Inr \<lparr>sl_schedule = Some demo_schedule, sl_error = None\<rparr>"
proof -
  have "schedule_path ''/cfg'' = ''/cfg/manager/schedule.yaml''" by code_simp
  then show ?thesis by (simp add: load_schedule_def demo_world_def demo_build)
qed

lemma demo_dir: "resolve_backup_dir (be_files (w_backup demo_world)) (w_config_dir demo_world) = Inr None"
proof -
  have "path_join ''/cfg'' ''.env'' = ''/cfg/.env''" by code_simp
  then show ?thesis by (simp add: resolve_backup_dir_def load_env_file_def is_file_def demo_world_def)
qed

lemma demo_trigger: "build_trigger (se_lib demo_env) ''0 0 * * *'' ''UTC'' =
    Inr (\<lparr>cf_minute = ''0'', cf_hour = ''0'', cf_day = ''*'', cf_month = ''*'', cf_day_of_week = ''*''\<rparr>, ''UTC'')"
  by code_simp

definition demo_start :: sched_state where
  "demo_start = (init_sched (init_queue 0))\<lparr>sc_running := True,
     sc_store := [(JOB_ID, CronTimer \<lparr>cf_minute = ''0'', cf_hour = ''0'', cf_day = ''*'', cf_month = ''*'',
        cf_day_of_week = ''*''\<rparr> ''UTC'' 3600), (CATCHUP_JOB_ID, DateTimer (7 + CATCHUP_DELAY) 1)]\<rparr>"

definition demo_retry :: sched_state where
  "demo_retry = demo_start\<lparr>sc_store := sc_store demo_start @ [(RETRY_JOB_ID, DateTimer (7 + RETRY_DELAY) 2)],
     sc_audit := [skip_entry ''ts'' 1 ''the backup directory is not reachable'' None]\<rparr>"

lemma demo_boot: "snd (start_scheduler demo_world (init_sched (init_queue 0))) = demo_start"
proof -
  have w: "w_env demo_world = demo_env" by (simp add: demo_world_def)
  have due: "catchup_due demo_env F demo_schedule [] n = Inr True" for F n
    by (simp add: catchup_due_def newest_time_def newest_successful_def)
  have over: "overdue_after demo_env demo_schedule = Inr (times_three_halves us_day)"
    by (simp add: overdue_after_def demo_schedule_def demo_cadence)
  have re: "reload demo_world ((init_sched (init_queue 0))\<lparr>sc_running := True\<rparr>) =
      (Inr \<lparr>sl_schedule = Some demo_schedule, sl_error = None\<rparr>, (init_sched (init_queue 0))\<lparr>sc_running := True,
        sc_store := [(JOB_ID, CronTimer \<lparr>cf_minute = ''0'', cf_hour = ''0'', cf_day = ''*'', cf_month = ''*'',
        cf_day_of_week = ''*''\<rparr> ''UTC'' 3600)]\<rparr>)"
    unfolding reload_def demo_loaded
    by (simp add: w apply_schedule_def demo_trigger demo_schedule_def init_sched_def remove_def Let_def)
  show ?thesis
    unfolding start_scheduler_def re schedule_catchup_def demo_loaded
    using job_ids by (simp add: of_py_def of_sched_def demo_dir due over w load_restore_points_def demo_start_def
        demo_schedule_def [THEN arg_cong, of bs_enabled] demo_schedule_def [THEN arg_cong, of bs_run_on_startup]
        demo_world_def [THEN arg_cong, of w_now])
qed

lemma demo_fire: "fire_begin demo_world 1 demo_start = (Inr (Some Retry), demo_retry)"
proof -
  have "fire_begin demo_world 1 demo_start =
      (case skip (w_now demo_world) (w_ts demo_world) 1 ''the backup directory is not reachable'' None demo_start of
         (r, st') \<Rightarrow> (Inr (Some r), st'))"
    unfolding fire_begin_def demo_loaded demo_dir
    by (simp add: of_py_def is_reachable_def demo_schedule_def [THEN arg_cong, of bs_enabled])
  then show ?thesis
    using job_ids by (simp add: skip_def MAX_ATTEMPTS_def demo_retry_def demo_start_def init_sched_def Let_def numeral_2_eq_2
        demo_world_def [THEN arg_cong, of w_now] demo_world_def [THEN arg_cong, of w_ts])
qed

lemma demo_retry_reachable: "reachable_sched demo_env demo_docker demo_retry"
proof -
  have w: "w_env demo_world = demo_env" "w_docker demo_world = demo_docker" by (simp_all add: demo_world_def)
  have i: "reachable_sched demo_env demo_docker (init_sched (init_queue 0))"
    by (intro reach_init is_init_sched.intros is_init_queue.intros)
  have "sched_step demo_env demo_docker (init_sched (init_queue 0)) demo_start"
    using sched_step.booted [of demo_world, OF w, of "init_sched (init_queue 0)"]
    by (simp add: demo_boot) (simp add: init_sched_def)
  moreover have "sched_step demo_env demo_docker demo_start demo_retry"
  proof -
    let ?t = "CronTimer \<lparr>cf_minute = ''0'', cf_hour = ''0'', cf_day = ''*'', cf_month = ''*'',
        cf_day_of_week = ''*''\<rparr> ''UTC'' 3600"
    have "running demo_start" "dict_get (sc_store demo_start) JOB_ID = Some ?t"
      by (simp_all add: running_def demo_start_def init_sched_def dict_get_def)
    moreover have "fire_begin demo_world (timer_attempt ?t) (take_timer JOB_ID ?t demo_start) =
        (Inr (Some Retry), demo_retry)"
      using demo_fire by (simp add: timer_attempt_def take_timer_def)
    ultimately show ?thesis by (rule sched_step.fired [OF w])
  qed
  ultimately show ?thesis using i reach_step by metis
qed

theorem retries_bounded_witness:
  "\<exists>at n. dict_get (sc_store demo_retry) RETRY_JOB_ID = Some (DateTimer at n) \<and> 2 \<le> n \<and> n \<le> MAX_ATTEMPTS"
proof -
  have "dict_get (sc_store demo_retry) RETRY_JOB_ID = Some (DateTimer (7 + RETRY_DELAY) 2)"
    using job_ids by (simp add: demo_retry_def demo_start_def dict_get_def)
  from retries_bounded [OF demo_retry_reachable this] this show ?thesis by blast
qed

text \<open>A schedule that was removed or switched off is silent: loading it leaves no timer of any kind, a
  retry or a catch-up included, and a run that was already due finds nothing to do.\<close>

theorem removed_schedule_silent:
  assumes "reachable_sched S D st"
    and "loaded W = Inr l" "case sl_schedule l of None \<Rightarrow> True | Some s \<Rightarrow> \<not> bs_enabled s"
  shows "dict_get (sc_store (snd (reload W st))) k = None
    \<and> fire_begin W attempt st = (Inr (Some Disabled), st)"
proof -
  have "sched_inv S st" using assms(1) by (rule sched.reach_inv)
  then have "store_ok (sc_store st)" by (simp add: sched_inv_def)
  then have "timer_ok k t" if "dict_get (sc_store st) k = Some t" for t using that by (simp add: store_ok_def)
  then have known: "k \<in> {JOB_ID, CATCHUP_JOB_ID, RETRY_JOB_ID}" if "dict_get (sc_store st) k \<noteq> None"
    using that by (auto simp: timer_ok_def split: timer.splits)
  have "snd (reload W st) = st\<lparr>sc_store := remove JOB_ID (remove CATCHUP_JOB_ID (remove RETRY_JOB_ID (sc_store st)))\<rparr>"
    using assms(2,3) by (auto simp: reload_def apply_schedule_def Let_def split: option.splits)
  then have "dict_get (sc_store (snd (reload W st))) k = None" 
    using known by (cases "dict_get (sc_store st) k") (auto simp: store.get_purged)
  moreover have "fire_begin W attempt st = (Inr (Some Disabled), st)"
    using assms(2,3) by (auto simp: fire_begin_def of_py_def split: option.splits)
  ultimately show ?thesis by simp
qed

theorem removed_schedule_silent_witness:
  "dict_get (sc_store (snd (reload (demo_world\<lparr>w_config_dir := ''/none''\<rparr>) demo_retry))) RETRY_JOB_ID = None"
proof -
  have "schedule_path ''/none'' = ''/none/manager/schedule.yaml''" by code_simp
  then have "loaded (demo_world\<lparr>w_config_dir := ''/none''\<rparr>) = Inr (no_schedule None)"
    by (simp add: load_schedule_def demo_world_def)
  from removed_schedule_silent [OF demo_retry_reachable this] show ?thesis by (simp add: no_schedule_def)
qed









end
