(* ===== verification/Restore_Scope.thy ===== *)
theory Restore_Scope
  imports Py_Prelude
begin

text \<open>
  What a restore point offers to restore (\<open>core/restore_scope.py\<close>): the presentation tables, the groups
  built from a manifest, what a selection costs, and the progress markers of a restore. A manifest is a
  decoded mapping; a value of the wrong shape raises as it does in the code.
\<close>

section \<open>Data\<close>

record presentation =
  ps_label :: string
  ps_summary :: string
  ps_advanced :: bool
  ps_requires_config :: bool
  ps_hazards :: "string list"

record scope_item =
  si_selector :: string
  si_label :: string
  si_kind :: string
  si_target :: string
  si_advanced :: bool

record scope_group =
  sg_selector :: string
  sg_kind :: string
  sg_name :: string
  sg_label :: string
  sg_summary :: string
  sg_profiles :: "string list"
  sg_hazards :: "string list"
  sg_advanced :: bool
  sg_requires_config :: bool
  sg_items :: "scope_item list"
  sg_archives :: nat

definition CONFIG_SELECTOR :: string where "CONFIG_SELECTOR = ''config''"

definition volume_label :: "string \<Rightarrow> bool \<Rightarrow> presentation" where
  "volume_label label advanced = \<lparr>ps_label = label, ps_summary = [], ps_advanced = advanced,
     ps_requires_config = False, ps_hazards = []\<rparr>"

definition MODULES :: "(string, presentation) dict" where
  "MODULES =
     [(''keycloak'', \<lparr>ps_label = ''Keycloak'', ps_summary = ''Logins, users and realm data'',
        ps_advanced = False, ps_requires_config = True,
        ps_hazards = [''The realm carries every service'' @ [CHR 0x27] @ ''s client secret and is imported only on first ''
          @ ''start. Restoring the database on its own would leave those secrets out of step ''
          @ ''with the live configuration and no sign-in would work, this panel included, so ''
          @ ''the stack configuration is restored with it.'',
          ''Every active session ends. You will have to sign in again.'']\<rparr>),
      (''librechat'', \<lparr>ps_label = ''LibreChat'', ps_summary = ''Conversations, uploads, search index and embeddings'',
        ps_advanced = False, ps_requires_config = False,
        ps_hazards = [''Conversations, the search index, the embeddings and the uploaded files ''
          @ ''reference each other by id. Restoring the whole module keeps them consistent; ''
          @ ''picking single volumes below can leave hits on deleted conversations, empty ''
          @ ''retrieval results, or file records with no file.'']\<rparr>),
      (''litellm'', \<lparr>ps_label = ''LiteLLM'', ps_summary = ''Model routing, virtual keys and spend'',
        ps_advanced = False, ps_requires_config = False,
        ps_hazards = [''Every virtual key issued since the snapshot stops working. Their holders get ''
          @ ''401 until the keys are reissued.'']\<rparr>),
      (''localai'', \<lparr>ps_label = ''LocalAI'', ps_summary = ''Local accounts and downloaded models'',
        ps_advanced = False, ps_requires_config = False,
        ps_hazards = [''Restoring the local account store can bring back accounts that were deleted ''
          @ ''since the snapshot.'']\<rparr>),
      (''searxng'', \<lparr>ps_label = ''SearXNG'', ps_summary = ''Search settings and cache'',
        ps_advanced = True, ps_requires_config = False,
        ps_hazards = [''The settings file itself is mounted over this volume from the configuration ''
          @ ''directory, so restoring it changes less than it looks like.'']\<rparr>)]"

definition VOLUMES :: "(string, presentation) dict" where
  "VOLUMES =
     [(''keycloak-postgresql'', volume_label ''Users and realm'' False),
      (''librechat-mongodb'', volume_label ''Conversations'' False),
      (''librechat-meilisearch'', volume_label ''Search index'' False),
      (''librechat-vectordb'', volume_label ''Embeddings'' False),
      (''librechat-uploads'', volume_label ''Uploaded files'' False),
      (''librechat-images'', volume_label ''Generated images'' False),
      (''litellm-postgresql'', volume_label ''Keys, budgets and spend'' False),
      (''localai-data'', volume_label ''Local accounts and generated data'' False),
      (''localai-models'', volume_label ''Downloaded model weights'' True),
      (''searxng_config'', volume_label ''Settings volume'' True)]"

definition HIDDEN_VOLUMES :: "string list" where
  "HIDDEN_VOLUMES = [''librechat-logs'', ''litellm-prometheus'', ''searxng_data'']"

definition CONFIG_PRESENTATION :: presentation where
  "CONFIG_PRESENTATION = \<lparr>ps_label = ''Stack configuration'',
     ps_summary = ''Environment files, rendered service configs, proxy database and certificates'',
     ps_advanced = False, ps_requires_config = True,
     ps_hazards = [''The configuration archive covers the whole bundle and cannot be unpacked in part, ''
       @ ''and every core service bind-mounts individual files out of it -- so all containers ''
       @ ''have to be removed and recreated for the restored files to be picked up.'',
       ''Because that includes this panel, the operation runs in its own container and this ''
       @ ''page is unreachable while it does.'']\<rparr>"

section \<open>Building the groups\<close>

abbreviation msg :: "i18n \<Rightarrow> string \<Rightarrow> string" where
  "msg I m \<equiv> tr I m []"

abbreviation text_of :: "(string, pyval) dict \<Rightarrow> string \<Rightarrow> string" where
  "text_of raw k \<equiv> py_str_of (get_or raw k (PStr []))"

definition volume_key :: "string \<Rightarrow> string \<Rightarrow> string" where
  "volume_key target project =
     (let prefix = project @ ''_'' in
      if project \<noteq> [] \<and> startswith target prefix then drop (length prefix) target else target)"

definition title_of :: "string \<Rightarrow> string" where
  "title_of name =
     (let t = capitalize (py_strip (replace_char (CHR ''_'') '' '' (replace_char (CHR ''-'') '' '' name)))
      in if t = [] then name else t)"

definition artifact_selector :: "(string, pyval) dict \<Rightarrow> string" where
  "artifact_selector raw =
     (let module = text_of raw ''module'' in
      if module = [] \<or> get_none raw ''kind'' = PStr ''configdir'' then []
      else (if startswith (text_of raw ''owner'') ''addon:'' then ''addon'' else ''module'') @ '':'' @ module)"

definition new_group :: "i18n \<Rightarrow> bool \<Rightarrow> string \<Rightarrow> string \<Rightarrow> scope_group" where
  "new_group I is_addon module selector =
     (let known = (if is_addon then None else dict_get MODULES module) in
      \<lparr>sg_selector = selector, sg_kind = (if is_addon then ''addon'' else ''module''), sg_name = module,
       sg_label = (case known of Some k \<Rightarrow> msg I (ps_label k) | None \<Rightarrow> title_of module),
       sg_summary = (case known of Some k \<Rightarrow> msg I (ps_summary k) | None \<Rightarrow> msg I ''Application data and documents''),
       sg_profiles = [],
       sg_hazards = (case known of Some k \<Rightarrow> map (msg I) (ps_hazards k) | None \<Rightarrow> []),
       sg_advanced = (case known of Some k \<Rightarrow> ps_advanced k | None \<Rightarrow> False),
       sg_requires_config = (case known of Some k \<Rightarrow> ps_requires_config k | None \<Rightarrow> False),
       sg_items = [], sg_archives = 0\<rparr>)"

definition config_group :: "i18n \<Rightarrow> scope_group" where
  "config_group I =
     \<lparr>sg_selector = CONFIG_SELECTOR, sg_kind = ''config'', sg_name = CONFIG_SELECTOR,
      sg_label = msg I (ps_label CONFIG_PRESENTATION), sg_summary = msg I (ps_summary CONFIG_PRESENTATION),
      sg_profiles = [], sg_hazards = map (msg I) (ps_hazards CONFIG_PRESENTATION), sg_advanced = False,
      sg_requires_config = True, sg_items = [], sg_archives = 0\<rparr>"

definition add_profile :: "string list \<Rightarrow> pyval \<Rightarrow> string list" where
  "add_profile profiles p =
     (if truthy p \<and> py_str_of p \<notin> set profiles then profiles @ [py_str_of p] else profiles)"

definition volume_item :: "i18n \<Rightarrow> string \<Rightarrow> string \<Rightarrow> scope_item" where
  "volume_item I target key =
     \<lparr>si_selector = ''volume:'' @ target,
      si_label = (case dict_get VOLUMES key of Some v \<Rightarrow> msg I (ps_label v) | None \<Rightarrow> title_of key),
      si_kind = ''volume'', si_target = target,
      si_advanced = (case dict_get VOLUMES key of Some v \<Rightarrow> ps_advanced v | None \<Rightarrow> False)\<rparr>"

text \<open>One artifact of the manifest. \<open>group_after\<close> is what a module or add-on artifact makes of its group.\<close>

definition group_after ::
  "i18n \<Rightarrow> string \<Rightarrow> (string, pyval) dict \<Rightarrow> scope_group \<Rightarrow> py_exn + scope_group" where
  "group_after I core_project raw g =
     rbind (py_iter (py_or (get_none raw ''profiles'') (PList []))) (\<lambda>ps.
       let g1 = g\<lparr>sg_profiles := foldl add_profile (sg_profiles g) ps, sg_archives := sg_archives g + 1\<rparr>;
           target = text_of raw ''target'';
           key = volume_key target (py_str_of (py_or (get_none raw ''project'') (PStr core_project)))
       in Inr (if text_of raw ''kind'' \<noteq> ''volume'' \<or> key \<in> set HIDDEN_VOLUMES then g1
               else g1\<lparr>sg_items := sg_items g1 @ [volume_item I target key]\<rparr>))"

definition scope_step ::
  "i18n \<Rightarrow> string \<Rightarrow> (string, scope_group) dict \<Rightarrow> pyval \<Rightarrow> py_exn + (string, scope_group) dict" where
  "scope_step I core_project groups v =
     (case v of
        PDict raw \<Rightarrow>
          if text_of raw ''kind'' = ''configdir'' then
            (let g = (case dict_get groups CONFIG_SELECTOR of Some g \<Rightarrow> g | None \<Rightarrow> config_group I)
             in Inr (dict_set groups CONFIG_SELECTOR (g\<lparr>sg_archives := sg_archives g + 1\<rparr>)))
          else if text_of raw ''module'' = [] then Inr groups
          else
            let is_addon = startswith (text_of raw ''owner'') ''addon:'';
                selector = artifact_selector raw;
                g = (case dict_get groups selector of
                       Some g \<Rightarrow> g | None \<Rightarrow> new_group I is_addon (text_of raw ''module'') selector)
            in rbind (group_after I core_project raw g) (\<lambda>g'. Inr (dict_set groups selector g'))
      | _ \<Rightarrow> Inr groups)"

definition node_of :: "pyval \<Rightarrow> string" where
  "node_of v = (case v of PDict raw \<Rightarrow> py_str_of (py_or (get_none raw ''node'') (PStr [])) | _ \<Rightarrow> [])"

text \<open>The artifacts of one node, the groups they belong to, and the node's own group.\<close>

definition node_members :: "pyval list \<Rightarrow> (string, scope_group) dict \<Rightarrow> string \<Rightarrow> scope_group list" where
  "node_members artifacts groups node =
     dedup (concat (map (\<lambda>v. case v of
         PDict raw \<Rightarrow> if node_of v = node then
             (case dict_get groups (artifact_selector raw) of Some g \<Rightarrow> [g] | None \<Rightarrow> []) else []
       | _ \<Rightarrow> []) artifacts))"

definition node_group :: "i18n \<Rightarrow> pyval list \<Rightarrow> (string, scope_group) dict \<Rightarrow> string \<Rightarrow> scope_group" where
  "node_group I artifacts groups name =
     (let members = node_members artifacts groups name in
      \<lparr>sg_selector = ''node:'' @ name, sg_kind = ''node'', sg_name = name,
       sg_label = tr I ''Node %(name)s'' [(''name'', name)],
       sg_summary = msg I ''All data of this node. No other node is touched.'',
       sg_profiles = sort (remdups (concat (map sg_profiles members))),
       sg_hazards = dedup (concat (map sg_hazards members)),
       sg_advanced = False,
       sg_requires_config = list_ex sg_requires_config members,
       sg_items = [], sg_archives = length (filter (\<lambda>v. node_of v = name) artifacts)\<rparr>)"

definition node_groups ::
  "i18n \<Rightarrow> pyval list \<Rightarrow> string \<Rightarrow> (string, scope_group) dict \<Rightarrow> scope_group list" where
  "node_groups I artifacts controller groups =
     map (node_group I artifacts groups)
       (sort (remdups (filter (\<lambda>n. n \<noteq> [] \<and> n \<noteq> controller) (map node_of artifacts))))"

definition kind_rank :: "string \<Rightarrow> nat" where
  "kind_rank k = (if k = ''config'' then 0 else if k = ''module'' then 1 else if k = ''addon'' then 2
     else if k = ''node'' then 3 else 4)"

definition build_groups ::
  "i18n \<Rightarrow> (string, pyval) dict option \<Rightarrow> string \<Rightarrow> py_exn + scope_group list" where
  "build_groups I manifest controller =
     (case manifest of
        None \<Rightarrow> Inr []
      | Some m \<Rightarrow>
         if m = [] then Inr []
         else
           let core_project = py_str_of (py_or (get_none m ''core_project'') (PStr [])) in
           rbind (py_iter (py_or (get_none m ''artifacts'') (PList []))) (\<lambda>artifacts.
           rbind (rfold (scope_step I core_project) [] artifacts) (\<lambda>groups.
             Inr (sorted_by (\<lambda>g. (kind_rank (sg_kind g), sg_advanced g, py_lower (sg_label g)))
                    (map snd groups @ node_groups I artifacts controller groups)))))"

section \<open>Selections\<close>

definition has_selectable_groups :: "scope_group list \<Rightarrow> bool" where
  "has_selectable_groups groups \<longleftrightarrow> list_ex (\<lambda>g. sg_kind g = ''module'' \<or> sg_kind g = ''addon'') groups"

definition allowed_selectors :: "scope_group list \<Rightarrow> string set" where
  "allowed_selectors groups =
     {CONFIG_SELECTOR} \<union> set (concat (map (\<lambda>g. sg_selector g # map si_selector (sg_items g)) groups))"

definition group_chosen :: "string list \<Rightarrow> scope_group \<Rightarrow> bool" where
  "group_chosen selected g \<longleftrightarrow>
     sg_selector g \<in> set selected \<or> list_ex (\<lambda>i. si_selector i \<in> set selected) (sg_items g)"

definition requires_full_restore :: "scope_group list \<Rightarrow> string list \<Rightarrow> bool" where
  "requires_full_restore groups selected \<longleftrightarrow>
     CONFIG_SELECTOR \<in> set selected
     \<or> list_ex (\<lambda>g. sg_requires_config g \<and> group_chosen selected g) groups"

definition selected_profiles :: "scope_group list \<Rightarrow> string list \<Rightarrow> string list" where
  "selected_profiles groups selected =
     sort (remdups (concat (map sg_profiles
       (filter (\<lambda>g. (sg_kind g = ''module'' \<or> sg_kind g = ''node'') \<and> group_chosen selected g) groups))))"

definition selected_addons :: "scope_group list \<Rightarrow> string list \<Rightarrow> string list" where
  "selected_addons groups selected =
     sort (map sg_name (filter (\<lambda>g. sg_kind g = ''addon'' \<and> group_chosen selected g) groups))"

section \<open>Progress markers\<close>

record restore_step =
  rst_phase :: string
  rst_subject :: string
  rst_state :: string

definition STEP_PREFIX :: string where "STEP_PREFIX = ''RESTORE-STEP'' @ [TAB]"

definition phase_label :: "restore_step \<Rightarrow> string" where
  "phase_label s =
     (case dict_get [(''teardown'', ''Stopping''), (''artifact'', ''Restoring''), (''restart'', ''Starting'')] (rst_phase s) of
        Some l \<Rightarrow> l | None \<Rightarrow> rst_phase s)"

definition step_done :: "restore_step \<Rightarrow> bool" where "step_done s \<longleftrightarrow> rst_state s = ''ok''"
definition step_failed :: "restore_step \<Rightarrow> bool" where "step_failed s \<longleftrightarrow> rst_state s \<in> {''failed'', ''in-use''}"
definition step_running :: "restore_step \<Rightarrow> bool" where "step_running s \<longleftrightarrow> rst_state s = ''begin''"

definition step_of_line :: "string \<Rightarrow> restore_step option" where
  "step_of_line line =
     (if \<not> startswith line STEP_PREFIX then None
      else case map py_strip (split_char TAB (drop (length STEP_PREFIX) line)) of
          [phase, subject, state] \<Rightarrow> Some \<lparr>rst_phase = phase, rst_subject = subject, rst_state = state\<rparr>
        | _ \<Rightarrow> None)"

text \<open>The two variables of the loop: the keys in order, and the latest state of each.\<close>

definition track_step ::
  "(string \<times> string) list \<times> (string \<times> string, string) dict \<Rightarrow> string
    \<Rightarrow> (string \<times> string) list \<times> (string \<times> string, string) dict" where
  "track_step acc line =
     (case step_of_line line of
        None \<Rightarrow> acc
      | Some s \<Rightarrow>
         let key = (rst_phase s, rst_subject s) in
         (if dict_get (snd acc) key = None then fst acc @ [key] else fst acc,
          dict_set (snd acc) key (rst_state s)))"

definition parse_steps :: "string \<Rightarrow> restore_step list" where
  "parse_steps log =
     (let (order, latest) = foldl track_step ([], []) (splitlines log) in
      map (\<lambda>k. \<lparr>rst_phase = fst k, rst_subject = snd k, rst_state = the (dict_get latest k)\<rparr>) order)"

definition strip_steps :: "string \<Rightarrow> string" where
  "strip_steps log = join [LF] (filter (\<lambda>l. \<not> startswith l STEP_PREFIX) (splitlines log))"

definition group_to_dict :: "scope_group \<Rightarrow> (string, pyval) dict" where
  "group_to_dict g =
     [(''selector'', PStr (sg_selector g)), (''kind'', PStr (sg_kind g)), (''name'', PStr (sg_name g)),
      (''label'', PStr (sg_label g)), (''summary'', PStr (sg_summary g)),
      (''profiles'', PList (map PStr (sort (sg_profiles g)))), (''hazards'', PList (map PStr (sg_hazards g))),
      (''advanced'', PBool (sg_advanced g)), (''requires_config'', PBool (sg_requires_config g)),
      (''archives'', PInt (int (sg_archives g))),
      (''items'', PList (map (\<lambda>i. PDict [(''selector'', PStr (si_selector i)), (''label'', PStr (si_label i)),
         (''kind'', PStr (si_kind i)), (''target'', PStr (si_target i)), (''advanced'', PBool (si_advanced i))])
         (sg_items g)))]"

section \<open>Lemmas: how groups grow\<close>

abbreviation KEYCLOAK :: string where "KEYCLOAK \<equiv> ''module:keycloak''"

definition group_grows :: "scope_group \<Rightarrow> scope_group \<Rightarrow> bool" where
  "group_grows g g' \<longleftrightarrow> set (sg_items g) \<subseteq> set (sg_items g') \<and> sg_requires_config g' = sg_requires_config g
     \<and> sg_selector g' = sg_selector g"

definition keycloak_guarded :: "(string, scope_group) dict \<Rightarrow> bool" where
  "keycloak_guarded groups \<longleftrightarrow>
     (\<forall>g. dict_get groups KEYCLOAK = Some g \<longrightarrow> sg_requires_config g \<and> sg_selector g = KEYCLOAK)"

lemma group_grows_refl [simp]: "group_grows g g"
  by (simp add: group_grows_def)

lemma group_grows_trans: "group_grows a b \<Longrightarrow> group_grows b c \<Longrightarrow> group_grows a c"
  by (auto simp: group_grows_def)

lemma group_after_grows: "group_after I p raw g = Inr g' \<Longrightarrow> group_grows g g'"
  by (auto simp: group_after_def rbind_eq_Inr group_grows_def Let_def split: if_splits)

definition group_for :: "i18n \<Rightarrow> (string, scope_group) dict \<Rightarrow> (string, pyval) dict \<Rightarrow> scope_group" where
  "group_for I groups raw =
     (case dict_get groups (artifact_selector raw) of
        Some g \<Rightarrow> g
      | None \<Rightarrow> new_group I (startswith (text_of raw ''owner'') ''addon:'') (text_of raw ''module'') (artifact_selector raw))"

lemma scope_step_module:
  assumes "scope_step I p groups (PDict raw) = Inr groups'" "\<not> (text_of raw ''kind'' = ''configdir'' \<or> text_of raw ''module'' = [])"
  shows "\<exists>g'. group_after I p raw (group_for I groups raw) = Inr g' \<and> groups' = dict_set groups (artifact_selector raw) g'"
proof -
  have "rbind (group_after I p raw (group_for I groups raw)) (\<lambda>g'. Inr (dict_set groups (artifact_selector raw) g')) = Inr groups'"
    using assms by (simp add: scope_step_def Let_def group_for_def)
  then show ?thesis by (elim rbindE) simp
qed

lemma group_after_item:
  assumes "group_after I p raw g = Inr g'" "text_of raw ''kind'' = ''volume''"
    and "volume_key (text_of raw ''target'') (py_str_of (py_or (get_none raw ''project'') (PStr p))) \<notin> set HIDDEN_VOLUMES"
  shows "\<exists>i \<in> set (sg_items g'). si_selector i = ''volume:'' @ text_of raw ''target''"
  using assms unfolding group_after_def by (elim rbindE) (auto simp: Let_def volume_item_def)

lemma scope_step_grows:
  assumes "scope_step I p groups v = Inr groups'" "dict_get groups k = Some g"
  shows "\<exists>g'. dict_get groups' k = Some g' \<and> group_grows g g'"
proof (cases v)
  case (PDict raw)
  show ?thesis
  proof (cases "text_of raw ''kind'' = ''configdir'' \<or> text_of raw ''module'' = []")
    case True
    then show ?thesis using assms PDict
      by (auto simp: scope_step_def Let_def group_grows_def split: if_splits option.splits)
  next
    case False
    let ?g = "group_for I groups raw"
    obtain g' where g': "group_after I p raw ?g = Inr g'" "groups' = dict_set groups (artifact_selector raw) g'"
      using assms(1) PDict False scope_step_module by blast
    then show ?thesis using group_after_grows [OF g'(1)] assms(2) by (auto simp: group_for_def split: option.splits)
  qed
qed (use assms in \<open>auto simp: scope_step_def\<close>)

lemma scope_fold_grows:
  "rfold (scope_step I p) groups vs = Inr groups' \<Longrightarrow> dict_get groups k = Some g \<Longrightarrow>
    \<exists>g'. dict_get groups' k = Some g' \<and> group_grows g g'"
proof (induction vs arbitrary: groups g)
  case Nil
  then show ?case by auto
next
  case (Cons v vs)
  then obtain mid where "scope_step I p groups v = Inr mid" "rfold (scope_step I p) mid vs = Inr groups'"
    by (auto simp: rbind_eq_Inr)
  with Cons scope_step_grows [OF this(1) Cons.prems(2)] show ?case by (meson group_grows_trans)
qed

lemma keycloak_presentation: "\<exists>p. dict_get MODULES ''keycloak'' = Some p \<and> ps_requires_config p"
proof -
  have "map_option ps_requires_config (dict_get MODULES ''keycloak'') = Some True" by code_simp
  then show ?thesis by auto
qed

lemma new_keycloak_group:
  "sg_requires_config (new_group I False ''keycloak'' sel)" "sg_selector (new_group I b m sel) = sel"
  using keycloak_presentation by (auto simp: new_group_def Let_def)

lemma keycloak_artifact:
  assumes "artifact_selector raw = KEYCLOAK"
  shows "text_of raw ''module'' = ''keycloak''" "\<not> startswith (text_of raw ''owner'') ''addon:''"
  using assms by (auto simp: artifact_selector_def Let_def split: if_splits)

lemma scope_step_guarded:
  assumes "scope_step I p groups v = Inr groups'" "keycloak_guarded groups"
  shows "keycloak_guarded groups'"
proof (cases v)
  case (PDict raw)
  show ?thesis
  proof (cases "text_of raw ''kind'' = ''configdir'' \<or> text_of raw ''module'' = []")
    case True
    then show ?thesis using assms PDict
      by (auto simp: scope_step_def Let_def keycloak_guarded_def CONFIG_SELECTOR_def split: if_splits)
  next
    case False
    let ?g = "group_for I groups raw"
    obtain g' where g': "group_after I p raw ?g = Inr g'" "groups' = dict_set groups (artifact_selector raw) g'"
      using assms(1) PDict False scope_step_module by blast
    have "sg_requires_config ?g \<and> sg_selector ?g = KEYCLOAK" if "artifact_selector raw = KEYCLOAK"
      using that assms(2) keycloak_artifact [OF that]
      by (auto simp: group_for_def keycloak_guarded_def new_keycloak_group split: option.splits)
    then show ?thesis using group_after_grows [OF g'(1)] g'(2) assms(2)
      by (auto simp: keycloak_guarded_def group_grows_def)
  qed
qed (use assms in \<open>auto simp: scope_step_def\<close>)

lemma scope_fold_guarded:
  "rfold (scope_step I p) groups vs = Inr groups' \<Longrightarrow> keycloak_guarded groups \<Longrightarrow> keycloak_guarded groups'"
  by (induction vs arbitrary: groups) (auto simp: rbind_eq_Inr dest: scope_step_guarded)

lemma scope_step_adds:
  assumes "scope_step I p groups (PDict raw) = Inr groups'" "artifact_selector raw = KEYCLOAK"
    and "text_of raw ''kind'' \<noteq> ''configdir''"
  shows "\<exists>g. dict_get groups' KEYCLOAK = Some g \<and>
    (text_of raw ''kind'' = ''volume'' \<and>
     volume_key (text_of raw ''target'') (py_str_of (py_or (get_none raw ''project'') (PStr p))) \<notin> set HIDDEN_VOLUMES
     \<longrightarrow> (\<exists>i \<in> set (sg_items g). si_selector i = ''volume:'' @ text_of raw ''target''))"
proof -
  have "\<not> (text_of raw ''kind'' = ''configdir'' \<or> text_of raw ''module'' = [])"
    using assms(3) keycloak_artifact(1) [OF assms(2)] by simp
  from scope_step_module [OF assms(1) this] obtain g' where
    g': "group_after I p raw (group_for I groups raw) = Inr g'" "groups' = dict_set groups (artifact_selector raw) g'"
    by blast
  then have "dict_get groups' KEYCLOAK = Some g'" using assms(2) by simp
  with group_after_item [OF g'(1)] show ?thesis by blast
qed

lemma node_member:
  assumes "PDict raw \<in> set artifacts" "dict_get d (artifact_selector raw) = Some g"
  shows "g \<in> set (node_members artifacts d (node_of (PDict raw)))"
  unfolding node_members_def set_dedup set_concat set_map image_image
  by (rule UN_I [OF assms(1)]) (simp add: assms(2))

lemma rfold_split_mem:
  assumes "rfold f s xs = Inr t" "x \<in> set xs"
  obtains ys zs a b where "xs = ys @ x # zs" "rfold f s ys = Inr a" "f a x = Inr b" "rfold f b zs = Inr t"
proof -
  obtain ys zs where "xs = ys @ x # zs" using assms(2) by (meson split_list)
  then show ?thesis using that assms(1) by (auto simp: rfold_append rbind_eq_Inr)
qed

section \<open>Properties\<close>

text \<open>C8: Keycloak never comes back alone: whichever selector reaches its data, the module's, a volume's or
  that of the node it runs on, the selection is carried out as a whole-stack restore, which brings the
  configuration with the client secrets.\<close>

theorem keycloak_needs_full_restore:
  assumes "build_groups I (Some m) controller = Inr groups"
    and "get_none m ''artifacts'' = PList artifacts" "PDict raw \<in> set artifacts"
    and "artifact_selector raw = ''module:keycloak''" "text_of raw ''kind'' \<noteq> ''configdir''"
    and "sel \<in> set selected"
    and "sel = ''module:keycloak''
      \<or> (text_of raw ''kind'' = ''volume'' \<and> sel = ''volume:'' @ text_of raw ''target''
         \<and> volume_key (text_of raw ''target'')
             (py_str_of (py_or (get_none raw ''project'') (py_or (get_none m ''core_project'') (PStr [])))) \<notin> set HIDDEN_VOLUMES)
      \<or> (sel = ''node:'' @ node_of (PDict raw) \<and> node_of (PDict raw) \<noteq> [] \<and> node_of (PDict raw) \<noteq> controller)"
  shows "requires_full_restore groups selected"
proof -
  let ?p = "py_str_of (py_or (get_none m ''core_project'') (PStr []))"
  have ne: "m \<noteq> []" using assms(2) by (auto simp: get_or_def)
  have arts: "artifacts \<noteq> []" using assms(3) by auto
  have "py_iter (py_or (get_none m ''artifacts'') (PList [])) = Inr artifacts"
    using assms(2) arts by (simp add: py_or_def py_iter_def)
  then have "rbind (rfold (scope_step I ?p) [] artifacts) (\<lambda>d.
      Inr (sorted_by (\<lambda>g. (kind_rank (sg_kind g), sg_advanced g, py_lower (sg_label g)))
        (map snd d @ node_groups I artifacts controller d))) = Inr groups"
    using assms(1) ne by (simp add: build_groups_def Let_def)
  then obtain d where fold: "rfold (scope_step I ?p) [] artifacts = Inr d"
      and groups: "set groups = set (map snd d @ node_groups I artifacts controller d)"
    by (elim rbindE) auto
  obtain ys zs a b where "artifacts = ys @ PDict raw # zs" "rfold (scope_step I ?p) [] ys = Inr a"
      and st: "scope_step I ?p a (PDict raw) = Inr b" "rfold (scope_step I ?p) b zs = Inr d"
    by (rule rfold_split_mem [OF fold assms(3)])
  obtain g where g: "dict_get d KEYCLOAK = Some g" "sg_requires_config g" "sg_selector g = KEYCLOAK"
      "text_of raw ''kind'' = ''volume'' \<and> sel = ''volume:'' @ text_of raw ''target''
         \<and> volume_key (text_of raw ''target'')
             (py_str_of (py_or (get_none raw ''project'') (PStr ?p))) \<notin> set HIDDEN_VOLUMES
       \<longrightarrow> (\<exists>i \<in> set (sg_items g). si_selector i = sel)"
  proof -
    obtain g0 where g0: "dict_get b KEYCLOAK = Some g0" "text_of raw ''kind'' = ''volume'' \<and>
        volume_key (text_of raw ''target'') (py_str_of (py_or (get_none raw ''project'') (PStr ?p))) \<notin> set HIDDEN_VOLUMES
        \<longrightarrow> (\<exists>i \<in> set (sg_items g0). si_selector i = ''volume:'' @ text_of raw ''target'')"
      using scope_step_adds [OF st(1) assms(4,5)] by blast
    obtain g where "dict_get d KEYCLOAK = Some g" "group_grows g0 g"
      using scope_fold_grows [OF st(2) g0(1)] by blast
    moreover have "keycloak_guarded d"
      using scope_fold_guarded [OF fold] by (simp add: keycloak_guarded_def)
    ultimately show ?thesis using that g0(2) by (auto simp: keycloak_guarded_def group_grows_def)
  qed
  have project: "py_str_of (py_or (get_none raw ''project'') (py_or (get_none m ''core_project'') (PStr []))) =
      py_str_of (py_or (get_none raw ''project'') (PStr ?p))"
    by (auto simp: py_or_def py_str_of_def)
  have mem: "g \<in> set groups" using dict_get_in [OF g(1)] groups by force
  from assms(7) consider "sel = KEYCLOAK \<or> (\<exists>i \<in> set (sg_items g). si_selector i = sel)"
    | (node) "sel = ''node:'' @ node_of (PDict raw)" "node_of (PDict raw) \<noteq> []" "node_of (PDict raw) \<noteq> controller"
    using g(4) project by auto
  then show ?thesis
  proof cases
    case 1
    then have "group_chosen selected g" using assms(6) g(3) by (auto simp: group_chosen_def list_ex_iff)
    with mem g(2) show ?thesis by (auto simp: requires_full_restore_def list_ex_iff)
  next
    case node
    let ?n = "node_group I artifacts d (node_of (PDict raw))"
    have "node_of (PDict raw) \<in> set (map node_of artifacts)" using assms(3) by (metis image_eqI list.set_map)
    then have "?n \<in> set groups" using groups node(2,3) by (simp add: node_groups_def)
    moreover have "g \<in> set (node_members artifacts d (node_of (PDict raw)))"
      using node_member [OF assms(3)] assms(4) g(1) by simp
    then have "sg_requires_config ?n" using g(2) by (auto simp: node_group_def Let_def list_ex_iff)
    moreover have "group_chosen selected ?n" using node assms(6) by (simp add: group_chosen_def node_group_def Let_def)
    ultimately show ?thesis by (auto simp: requires_full_restore_def list_ex_iff)
  qed
qed

definition demo_tr :: i18n where
  "demo_tr = \<lparr>tr = (\<lambda>m a. m), ntr = (\<lambda>m p n a. m)\<rparr>"

definition demo_artifact :: "(string, pyval) dict" where
  "demo_artifact = [(''kind'', PStr ''volume''), (''module'', PStr ''keycloak''), (''target'', PStr ''core_keycloak-postgresql''),
     (''node'', PStr ''edge''), (''profiles'', PList [PStr ''auth''])]"

theorem keycloak_needs_full_restore_witness:
  "\<exists>groups. build_groups demo_tr (Some [(''core_project'', PStr ''core''), (''artifacts'', PList [PDict demo_artifact])]) ''ctrl''
     = Inr groups \<and> requires_full_restore groups [''node:edge'']"
proof -
  let ?m = "[(''core_project'', PStr ''core''), (''artifacts'', PList [PDict demo_artifact])]"
  have "\<not> (case build_groups demo_tr (Some ?m) ''ctrl'' of Inl e \<Rightarrow> True | Inr g \<Rightarrow> False)" by code_simp
  then obtain groups where g: "build_groups demo_tr (Some ?m) ''ctrl'' = Inr groups" by (auto split: sum.splits)
  have a: "get_none ?m ''artifacts'' = PList [PDict demo_artifact]" by (simp add: get_or_def dict_get_def)
  have b: "artifact_selector demo_artifact = ''module:keycloak''" by code_simp
  have c: "text_of demo_artifact ''kind'' \<noteq> ''configdir''" by code_simp
  have d: "node_of (PDict demo_artifact) = ''edge''" by code_simp
  have "requires_full_restore groups [''node:edge'']"
    by (rule keycloak_needs_full_restore [OF g a _ b c]) (auto simp: d)
  with g show ?thesis by blast
qed

text \<open>The markers of a log, in order, and the key a marker is about.\<close>

definition markers :: "string list \<Rightarrow> restore_step list" where
  "markers ls = concat (map (\<lambda>l. case step_of_line l of None \<Rightarrow> [] | Some s \<Rightarrow> [s]) ls)"

abbreviation step_key :: "restore_step \<Rightarrow> string \<times> string" where
  "step_key s \<equiv> (rst_phase s, rst_subject s)"

lemma markers_snoc: "markers (ls @ [l]) = markers ls @ (case step_of_line l of None \<Rightarrow> [] | Some s \<Rightarrow> [s])"
  by (simp add: markers_def)

lemma track_steps:
  "fst (foldl track_step ([], []) ls) = dedup (map step_key (markers ls))
   \<and> (\<forall>k. dict_get (snd (foldl track_step ([], []) ls)) k =
        (if k \<in> step_key ` set (markers ls)
         then Some (rst_state (last (filter (\<lambda>m. step_key m = k) (markers ls)))) else None))"
proof (induction ls rule: rev_induct)
  case Nil
  then show ?case by (simp add: markers_def dedup_def)
next
  case (snoc l ls)
  show ?case
  proof (cases "step_of_line l")
    case None
    with snoc show ?thesis by (simp add: markers_snoc track_step_def)
  next
    case (Some s)
    then show ?thesis
      using snoc by (auto simp: markers_snoc track_step_def Let_def dedup_snoc)
  qed
qed

text \<open>The checklist is the newest state of each step: every step appears once, in the order the log first
  mentions it, with the state of its last marker.\<close>

theorem parse_steps_latest:
  "map step_key (parse_steps log) = dedup (map step_key (markers (splitlines log)))
   \<and> list_all (\<lambda>s. s = last (filter (\<lambda>m. step_key m = step_key s) (markers (splitlines log)))) (parse_steps log)"
proof -
  let ?ms = "markers (splitlines log)"
  let ?acc = "foldl track_step ([], []) (splitlines log)"
  have steps: "parse_steps log = map (\<lambda>k. \<lparr>rst_phase = fst k, rst_subject = snd k, rst_state = the (dict_get (snd ?acc) k)\<rparr>)
      (dedup (map step_key ?ms))"
    using track_steps [of "splitlines log"] by (simp add: parse_steps_def case_prod_beta)
  have "\<lparr>rst_phase = fst k, rst_subject = snd k, rst_state = the (dict_get (snd ?acc) k)\<rparr>
      = last (filter (\<lambda>m. step_key m = k) ?ms)" if "k \<in> step_key ` set ?ms" for k
  proof -
    have "filter (\<lambda>m. step_key m = k) ?ms \<noteq> []" using that by (auto simp: filter_empty_conv)
    then have "last (filter (\<lambda>m. step_key m = k) ?ms) \<in> set (filter (\<lambda>m. step_key m = k) ?ms)" by (rule last_in_set)
    then have "step_key (last (filter (\<lambda>m. step_key m = k) ?ms)) = k" by simp
    moreover have "dict_get (snd ?acc) k = Some (rst_state (last (filter (\<lambda>m. step_key m = k) ?ms)))"
      using track_steps [THEN conjunct2, THEN spec, of "splitlines log" k] that by simp
    moreover obtain r where "last (filter (\<lambda>m. step_key m = k) ?ms) = r" by simp
    ultimately show ?thesis by (cases r) auto
  qed
  then have "\<forall>k \<in> set (dedup (map step_key ?ms)).
      \<lparr>rst_phase = fst k, rst_subject = snd k, rst_state = the (dict_get (snd ?acc) k)\<rparr>
      = last (filter (\<lambda>m. step_key m = k) ?ms)" by simp
  then show ?thesis unfolding steps list_all_iff by (simp add: comp_def)
qed

end
