(* ===== verification/Inventory.thy ===== *)
theory Inventory
  imports Backups
begin

text \<open>
  The declared target state: which containers the deployment is meant to run (\<open>core/inventory.py\<close>), and the
  merged status of an add-on (\<open>core/state.py\<close>).

  Compose files are read with a YAML loader that is a parameter (\<open>None\<close> for a text that is not YAML). Sets of
  profiles are sets; where the source iterates one, the order is immaterial and the model takes the sorted one.
\<close>

section \<open>Helpers of pathlib and str\<close>

definition removeprefix :: "string \<Rightarrow> string \<Rightarrow> string" where
  "removeprefix p s = (if startswith s p then drop (length p) s else s)"

text \<open>\<open>Path(s).name\<close>.\<close>

definition path_name :: "string \<Rightarrow> string" where
  "path_name s =
     (let parts = filter (\<lambda>p. p \<noteq> [] \<and> p \<noteq> ''.'') (split_char (CHR 0x2F) s) in if parts = [] then [] else last parts)"

section \<open>Declared services\<close>

definition UNGROUPED_MODULE :: string where "UNGROUPED_MODULE = ''other''"
definition SELF_PROFILE :: string where "SELF_PROFILE = ''manager''"
definition LINK_PROFILE :: string where "LINK_PROFILE = ''link-gateway''"

definition module_display_name :: "string \<Rightarrow> string" where
  "module_display_name label = (if label \<noteq> [] then removeprefix ''papaia-'' label else UNGROUPED_MODULE)"

record expected_service =
  ex_service :: string
  ex_module :: string
  ex_role :: string
  ex_profiles :: "string set"

definition profiles_in :: "(string, string) dict \<Rightarrow> string set" where
  "profiles_in env =
     set (filter (\<lambda>p. p \<noteq> []) (map py_strip (split_char (CHR '','')
       (case dict_get env ''COMPOSE_PROFILES'' of None \<Rightarrow> [] | Some v \<Rightarrow> v))))"

definition active_profiles :: "fs \<Rightarrow> string \<Rightarrow> py_exn + string set" where
  "active_profiles files config_dir =
     rbind (load_env_file files (path_join config_dir ''.env'')) (\<lambda>env. Inr (profiles_in env))"

section \<open>Reading Compose files\<close>

type_synonym yaml = "string \<Rightarrow> pyval option"

definition load_yaml :: "yaml \<Rightarrow> fs \<Rightarrow> string \<Rightarrow> py_exn + (string, pyval) dict option" where
  "load_yaml load files path =
     (case read_text files path of
        Inl OSError \<Rightarrow> Inr None
      | Inl e \<Rightarrow> Inl e
      | Inr t \<Rightarrow> Inr (case load t of Some (PDict d) \<Rightarrow> Some d | _ \<Rightarrow> None))"

definition entry_paths :: "string \<Rightarrow> pyval \<Rightarrow> string list" where
  "entry_paths base entry =
     (let raw = (case entry of PDict d \<Rightarrow> get_none d ''path'' | _ \<Rightarrow> entry);
          items = (case raw of PList xs \<Rightarrow> xs | _ \<Rightarrow> [raw])
      in concat (map (\<lambda>i. case i of PStr s \<Rightarrow> [path_join base s] | _ \<Rightarrow> []) items))"

definition include_paths :: "(string, pyval) dict \<Rightarrow> string \<Rightarrow> py_exn + string list" where
  "include_paths document base =
     rbind (py_iter (py_or (get_none document ''include'') (PList []))) (\<lambda>entries.
       Inr (concat (map (entry_paths base) entries)))"

definition services_of :: "(string, pyval) dict option \<Rightarrow> (string \<times> (string, pyval) dict) list" where
  "services_of document =
     (case py_or (get_none (case document of None \<Rightarrow> [] | Some d \<Rightarrow> d) ''services'') (PDict []) of
        PDict ss \<Rightarrow> concat (map (\<lambda>(name, body). case body of PDict b \<Rightarrow> [(name, b)] | _ \<Rightarrow> []) ss)
      | _ \<Rightarrow> [])"

definition profiles_of :: "(string, pyval) dict \<Rightarrow> string set" where
  "profiles_of body =
     (case py_or (get_none body ''profiles'') (PList []) of
        PList xs \<Rightarrow> set (concat (map (\<lambda>p. case p of PStr s \<Rightarrow> [s] | _ \<Rightarrow> []) xs))
      | _ \<Rightarrow> {})"

definition label_pair :: "pyval \<Rightarrow> (string \<times> string) list" where
  "label_pair item =
     (case partition_char (CHR ''='') (py_str_of item) of
        (key, _, value) \<Rightarrow> if py_strip key \<noteq> [] then [(py_strip key, py_strip value)] else [])"

definition labels_of :: "(string, pyval) dict \<Rightarrow> (string, string) dict" where
  "labels_of body =
     (case get_none body ''labels'' of
        PDict d \<Rightarrow> dict_of (map (\<lambda>(k, v). (k, py_str_of v)) d)
      | PList xs \<Rightarrow> dict_of (concat (map label_pair xs))
      | _ \<Rightarrow> [])"

definition expected_of :: "string \<Rightarrow> (string, pyval) dict \<Rightarrow> string \<Rightarrow> expected_service" where
  "expected_of service body fallback =
     (let labels = labels_of body
      in \<lparr>ex_service = service,
          ex_module = (case dict_get labels ''de.fidonis.module'' of
              None \<Rightarrow> fallback | Some m \<Rightarrow> if m \<noteq> [] then module_display_name m else fallback),
          ex_role = (case dict_get labels ''de.fidonis.role'' of None \<Rightarrow> [] | Some r \<Rightarrow> r),
          ex_profiles = profiles_of body\<rparr>)"

definition enabled_by :: "string set \<Rightarrow> (string, pyval) dict \<Rightarrow> bool" where
  "enabled_by profiles body \<longleftrightarrow> profiles_of body = {} \<or> profiles_of body \<inter> profiles \<noteq> {}"

definition fragment_services :: "string set \<Rightarrow> (string, pyval) dict option \<Rightarrow> expected_service list" where
  "fragment_services profiles document =
     map (\<lambda>(service, body). expected_of service body UNGROUPED_MODULE)
       (filter (\<lambda>(service, body). enabled_by profiles body) (services_of document))"

definition core_inventory :: "yaml \<Rightarrow> fs \<Rightarrow> string \<Rightarrow> string set \<Rightarrow> py_exn + expected_service list" where
  "core_inventory load files workspace_dir profiles =
     (let base = path_join (path_join workspace_dir ''papaia'') ''src''
      in rbind (load_yaml load files (path_join base ''docker-compose.yml'')) (\<lambda>document.
           case document of
             None \<Rightarrow> Inr []
           | Some d \<Rightarrow>
               rbind (include_paths d base) (\<lambda>fragments.
               rbind (rmap (load_yaml load files) fragments) (\<lambda>documents.
                 Inr (concat (map (fragment_services profiles) documents))))))"

definition add_member :: "string \<Rightarrow> (string, string set) dict \<Rightarrow> string \<Rightarrow> (string, string set) dict" where
  "add_member m groups p =
     dict_set groups p (insert m (case dict_get groups p of None \<Rightarrow> {} | Some ms \<Rightarrow> ms))"

definition group_modules :: "expected_service list \<Rightarrow> (string, string set) dict" where
  "group_modules expected =
     foldl (\<lambda>groups item. foldl (add_member (ex_module item)) groups (sorted_list_of_set (ex_profiles item))) [] expected"

definition core_groups :: "yaml \<Rightarrow> fs \<Rightarrow> string \<Rightarrow> string set \<Rightarrow> py_exn + (string, string set) dict" where
  "core_groups load files workspace_dir profiles =
     rbind (core_inventory load files workspace_dir profiles) (\<lambda>expected. Inr (group_modules expected))"

definition addon_inventory :: "yaml \<Rightarrow> fs \<Rightarrow> string \<Rightarrow> string \<Rightarrow> py_exn + expected_service list" where
  "addon_inventory load files addon_path fallback =
     rbind (load_yaml load files (path_join addon_path ''docker-compose.yml'')) (\<lambda>document.
       Inr (map (\<lambda>(service, body). expected_of service body fallback) (services_of document)))"

section \<open>The deployment and the status of an add-on\<close>

datatype addon_status = AVAILABLE | INSTALLED | ADDON_RUNNING | INACTIVE | UNMANAGED

definition compute_status ::
  "string \<Rightarrow> (string, pyval) dict option \<Rightarrow> bool \<Rightarrow> string set \<Rightarrow> string \<Rightarrow> addon_status" where
  "compute_status name entry installed running_projects workspace_dir =
     (case entry of
        None \<Rightarrow> AVAILABLE
      | Some e \<Rightarrow>
          if \<not> truthy (get_or e ''active'' (PBool False)) then INACTIVE
          else let deploy_path = py_str_of (get_or e ''path'' (PStr []));
                   managed_prefix = path_join (path_join workspace_dir ''addons'') ''_managed''
               in if installed \<and> \<not> startswith deploy_path managed_prefix then UNMANAGED
                  else if (if deploy_path \<noteq> [] then path_name deploy_path else name) \<in> running_projects
                  then ADDON_RUNNING else INSTALLED)"

definition load_deployment_yaml :: "yaml \<Rightarrow> fs \<Rightarrow> string \<Rightarrow> py_exn + pyval" where
  "load_deployment_yaml load files config_dir =
     (let path = path_join config_dir ''deployment.yaml''
      in if files path = Absent then Inr (PDict [])
         else rbind (read_text files path) (\<lambda>t.
           case load t of None \<Rightarrow> Inl YAMLError | Some v \<Rightarrow> Inr (py_or v (PDict []))))"

text \<open>An entry must be a mapping; one without a name is left out.\<close>

definition named_entry :: "pyval \<Rightarrow> py_exn + (string \<times> (string, pyval) dict) list" where
  "named_entry entry =
     (case entry of
        PDict e \<Rightarrow> Inr (if truthy (get_none e ''name'') then [(py_str_of (get_none e ''name''), e)] else [])
      | _ \<Rightarrow> Inl AttributeError)"

definition deployment_addons_by_name :: "pyval \<Rightarrow> py_exn + (string \<times> (string, pyval) dict) list" where
  "deployment_addons_by_name deployment =
     rbind (py_get deployment ''addons'') (\<lambda>addons.
     rbind (py_iter (py_or addons (PList []))) (\<lambda>entries.
     rbind (rmap named_entry entries) (\<lambda>named. Inr (dict_of (concat named)))))"

section \<open>Which groups are offered\<close>

lemma dict_get_add_members:
  "dict_get (foldl (add_member m) g ps) p =
     (if p \<in> set ps then Some (insert m (case dict_get g p of None \<Rightarrow> {} | Some ms \<Rightarrow> ms)) else dict_get g p)"
  by (induction ps arbitrary: g) (auto simp: add_member_def)

definition members_of :: "expected_service list \<Rightarrow> string \<Rightarrow> string set" where
  "members_of expected p = ex_module ` {x \<in> set expected. p \<in> ex_profiles x}"

lemma members_of_snoc:
  "members_of (xs @ [x]) p = (if p \<in> ex_profiles x then insert (ex_module x) (members_of xs p) else members_of xs p)"
  by (auto simp: members_of_def)

lemma group_modules_get:
  assumes "\<forall>x \<in> set expected. finite (ex_profiles x)"
  shows "dict_get (group_modules expected) p =
    (if members_of expected p = {} then None else Some (members_of expected p))"
  using assms
proof (induction expected rule: rev_induct)
  case (snoc x xs)
  then have "dict_get (group_modules xs) p = (if members_of xs p = {} then None else Some (members_of xs p))" by simp
  then show ?case using snoc.prems
    by (simp add: group_modules_def dict_get_add_members members_of_snoc)
qed (simp add: group_modules_def members_of_def)

lemma finite_profiles_of [simp]: "finite (profiles_of body)"
  unfolding profiles_of_def by (cases "py_or (get_none body ''profiles'') (PList [])") (simp_all only: pyval.case finite_set finite.emptyI)

lemma fragment_services_mem:
  assumes "x \<in> set (fragment_services profiles document)"
  shows "finite (ex_profiles x)" and "ex_profiles x = {} \<or> ex_profiles x \<inter> profiles \<noteq> {}"
  using assms by (auto simp: fragment_services_def expected_of_def enabled_by_def Let_def)

lemma core_inventory_mem:
  assumes "core_inventory load files ws profiles = Inr expected" "x \<in> set expected"
  shows "finite (ex_profiles x)" and "ex_profiles x = {} \<or> ex_profiles x \<inter> profiles \<noteq> {}"
proof -
  from assms obtain doc where "x \<in> set (fragment_services profiles doc)"
    by (auto simp: core_inventory_def Let_def rbind_eq_Inr split: option.splits)
  then show "finite (ex_profiles x)" and "ex_profiles x = {} \<or> ex_profiles x \<inter> profiles \<noteq> {}"
    by (rule fragment_services_mem)+
qed

text \<open>Every service of the target state is one an active profile enables or one without a profile, and the groups
  are exactly the profiles those services declare, each with exactly the modules of the services that declare it.\<close>

theorem core_groups_exact:
  assumes "core_inventory load files ws profiles = Inr expected"
  shows "(\<forall>x \<in> set expected. ex_profiles x = {} \<or> ex_profiles x \<inter> profiles \<noteq> {})
    \<and> (\<exists>groups. core_groups load files ws profiles = Inr groups \<and>
        (\<forall>p. dict_get groups p = (if members_of expected p = {} then None else Some (members_of expected p))))"
proof -
  have "\<forall>x \<in> set expected. finite (ex_profiles x)" using core_inventory_mem(1) [OF assms] by blast
  then have "dict_get (group_modules expected) p =
      (if members_of expected p = {} then None else Some (members_of expected p))" for p
    by (rule group_modules_get)
  then show ?thesis using core_inventory_mem(2) [OF assms] assms by (auto simp: core_groups_def)
qed

text \<open>A demonstration workspace: one fragment whose search service belongs to two profiles.\<close>

definition demo_yaml :: yaml where
  "demo_yaml t =
     (if t = ''root'' then Some (PDict [(''include'', PList [PStr ''search.yml''])])
      else if t = ''search'' then Some (PDict [(''services'', PDict
         [(''searxng'', PDict [(''profiles'', PList [PStr ''websearch'', PStr ''research'']),
            (''labels'', PDict [(''de.fidonis.module'', PStr ''papaia-searxng'')])])])])
      else None)"

definition demo_tree :: fs where
  "demo_tree p =
     (if p = ''/ws/papaia/src/docker-compose.yml'' then Text ''root''
      else if p = ''/ws/papaia/src/search.yml'' then Text ''search'' else Absent)"

definition demo_expected :: "expected_service list" where
  "demo_expected = [\<lparr>ex_service = ''searxng'', ex_module = ''searxng'', ex_role = [], ex_profiles = {''websearch'', ''research''}\<rparr>]"

lemma demo_inventory: "core_inventory demo_yaml demo_tree ''/ws'' {''websearch''} = Inr demo_expected"
  by code_simp

theorem core_groups_exact_witness:
  "\<exists>groups. core_groups demo_yaml demo_tree ''/ws'' {''websearch''} = Inr groups
    \<and> dict_get groups ''websearch'' = Some {''searxng''} \<and> dict_get groups ''other'' = None"
proof -
  have m: "members_of demo_expected ''websearch'' = {''searxng''}" "members_of demo_expected ''other'' = {}"
    by (auto simp: members_of_def demo_expected_def)
  from core_groups_exact [OF demo_inventory] obtain groups where
    g: "core_groups demo_yaml demo_tree ''/ws'' {''websearch''} = Inr groups"
      "\<And>p. dict_get groups p = (if members_of demo_expected p = {} then None else Some (members_of demo_expected p))"
    by blast
  show ?thesis by (intro exI [of _ groups] conjI) (simp_all add: g m)
qed

text \<open>A profile that is not active can still be offered: a service that an active profile enables brings every other
  profile it declares into the groups.\<close>

theorem inactive_profile_offered:
  assumes "core_inventory load files ws profiles = Inr expected"
    and "x \<in> set expected" "q \<in> ex_profiles x" "q \<notin> profiles"
  shows "\<exists>groups ms. core_groups load files ws profiles = Inr groups \<and> dict_get groups q = Some ms \<and> ex_module x \<in> ms"
proof -
  have f: "\<forall>x \<in> set expected. finite (ex_profiles x)" using core_inventory_mem(1) [OF assms(1)] by blast
  have "ex_module x \<in> members_of expected q" using assms(2,3) by (auto simp: members_of_def)
  then show ?thesis using group_modules_get [OF f, of q] assms(1) by (auto simp: core_groups_def)
qed

theorem inactive_profile_offered_witness:
  "\<exists>groups ms. core_groups demo_yaml demo_tree ''/ws'' {''websearch''} = Inr groups
    \<and> dict_get groups ''research'' = Some ms \<and> ''searxng'' \<in> ms"
  using inactive_profile_offered [OF demo_inventory, of "hd demo_expected" "''research''"]
  by (simp add: demo_expected_def)

end
