(* ===== verification/Services.thy ===== *)
theory Services
  imports Inventory
begin

text \<open>
  Live status of the stack's containers (\<open>core/services.py\<close>): reading \<open>docker ps\<close> and the core's merged status
  report, folding in the declared target state of theory \<open>Inventory\<close>, aggregating health over modules and groups,
  and the cached snapshot the pages share.

  The answers of docker and of the core's \<open>status\<close> command are arguments: the text, or \<open>None\<close> when there is no
  answer. JSON and YAML readers are parameters. The module-level cache is the state of \<open>load_snapshot\<close>.
\<close>

section \<open>Health\<close>

datatype service_health = MISSING | STOPPED | UNHEALTHY | STARTING | UNKNOWN | COMPLETED | HEALTHY

fun health_value :: "service_health \<Rightarrow> string" where
  "health_value MISSING = ''missing''"
| "health_value STOPPED = ''stopped''"
| "health_value UNHEALTHY = ''unhealthy''"
| "health_value STARTING = ''starting''"
| "health_value UNKNOWN = ''unknown''"
| "health_value COMPLETED = ''completed''"
| "health_value HEALTHY = ''healthy''"

definition all_health :: "service_health list" where
  "all_health = [MISSING, STOPPED, UNHEALTHY, STARTING, UNKNOWN, COMPLETED, HEALTHY]"

fun SEVERITY :: "service_health \<Rightarrow> nat" where
  "SEVERITY MISSING = 0"
| "SEVERITY STOPPED = 1"
| "SEVERITY UNHEALTHY = 2"
| "SEVERITY STARTING = 3"
| "SEVERITY UNKNOWN = 4"
| "SEVERITY COMPLETED = 5"
| "SEVERITY HEALTHY = 6"

text \<open>\<open>min(xs, key=...)\<close>: the first of the least ones.\<close>

fun least_severe :: "service_health \<Rightarrow> service_health list \<Rightarrow> service_health" where
  "least_severe h [] = h"
| "least_severe h (x # xs) = least_severe (if SEVERITY x < SEVERITY h then x else h) xs"

definition worst :: "service_health list \<Rightarrow> service_health" where
  "worst items =
     (if items = [] then UNKNOWN
      else case filter (\<lambda>v. v \<noteq> COMPLETED) items of
          [] \<Rightarrow> COMPLETED
        | h # hs \<Rightarrow> least_severe h hs)"

section \<open>Containers, modules, groups, nodes\<close>

record service_container =
  ct_name :: string
  ct_service :: string
  ct_role :: string
  ct_state :: string
  ct_status_text :: string
  ct_ports :: "string list"
  ct_health :: service_health

definition container_sort_key :: "service_container \<Rightarrow> string" where
  "container_sort_key c = (if ct_name c \<noteq> [] then ct_name c else ct_service c)"

record service_module =
  sm_name :: string
  sm_containers :: "service_container list"
  sm_profiles :: "string list"
  sm_addon :: string
  sm_node :: string

definition new_module :: "string \<Rightarrow> service_module" where
  "new_module name = \<lparr>sm_name = name, sm_containers = [], sm_profiles = [], sm_addon = [], sm_node = []\<rparr>"

definition module_health :: "service_module \<Rightarrow> service_health" where
  "module_health m = worst (map ct_health (sm_containers m))"

definition health_count :: "service_health \<Rightarrow> service_module \<Rightarrow> nat" where
  "health_count h m = length (filter (\<lambda>c. ct_health c = h) (sm_containers m))"

definition summary :: "i18n \<Rightarrow> service_module \<Rightarrow> string" where
  "summary I m =
     (let total = length (sm_containers m); missing = health_count MISSING m; stopped = health_count STOPPED m;
          args = (\<lambda>n. [(''count'', str_of_nat n), (''total'', str_of_nat total)])
      in if missing = total \<and> total \<noteq> 0 then tr I ''not deployed'' []
         else if missing \<noteq> 0 \<and> stopped \<noteq> 0 then
           tr I ''%(count)s of %(total)s containers missing or stopped'' (args (missing + stopped))
         else if missing \<noteq> 0 then tr I ''%(count)s of %(total)s containers not deployed'' (args missing)
         else if stopped \<noteq> 0 then tr I ''%(count)s of %(total)s containers stopped'' (args stopped)
         else if module_health m = UNHEALTHY then tr I ''healthcheck failing'' []
         else if module_health m = STARTING then tr I ''starting'' []
         else if module_health m = COMPLETED then tr I ''completed'' []
         else ntr I ''%(total)s container'' ''%(total)s containers'' (int total) [(''total'', str_of_nat total)])"

record service_group =
  sg_name :: string
  sg_modules :: "string list"
  sg_containers :: nat
  sg_health :: service_health
  sg_selectable :: bool

record node_health =
  nh_name :: string
  nh_reachable :: bool
  nh_reason :: string
  nh_version :: string

record stack_snapshot =
  sk_core :: "service_module list"
  sk_addons :: "service_module list"
  sk_running_projects :: "string set"
  sk_groups :: "service_group list"
  sk_nodes :: "node_health list"

definition empty_snapshot :: stack_snapshot where
  "empty_snapshot = \<lparr>sk_core = [], sk_addons = [], sk_running_projects = {}, sk_groups = [], sk_nodes = []\<rparr>"

definition unreachable_nodes :: "stack_snapshot \<Rightarrow> node_health list" where
  "unreachable_nodes s = filter (\<lambda>n. \<not> nh_reachable n) (sk_nodes s)"

definition overall_health :: "service_module list \<Rightarrow> service_health" where
  "overall_health modules = worst (map module_health modules)"

definition count_by_health :: "service_module list \<Rightarrow> (service_health, nat) dict" where
  "count_by_health modules =
     foldl (\<lambda>counts m. dict_set counts (module_health m)
         (case dict_get counts (module_health m) of None \<Rightarrow> 0 | Some n \<Rightarrow> n + 1))
       (map (\<lambda>h. (h, 0)) all_health) modules"

definition worst_first :: "service_module list \<Rightarrow> service_module list" where
  "worst_first modules = sorted_by (\<lambda>m. (SEVERITY (module_health m), sm_name m)) modules"

section \<open>Reading docker's answers\<close>

definition derive_health :: "string \<Rightarrow> string \<Rightarrow> service_health" where
  "derive_health state status_text =
     (if state = ''running'' then
        (if contains status_text ''(unhealthy)'' then UNHEALTHY
         else if contains status_text ''(health: starting)'' then STARTING
         else HEALTHY)
      else if state = ''created'' then STARTING
      else if state = ''restarting'' then UNHEALTHY
      else if state = ''exited'' then (if startswith status_text ''Exited (0)'' then COMPLETED else STOPPED)
      else if state \<in> {''paused'', ''dead'', ''removing''} then STOPPED
      else UNKNOWN)"

text \<open>The matches of \<open>:(\d+)->\<close>, from left to right.\<close>

function host_ports :: "string \<Rightarrow> string list" where
  "host_ports [] = []"
| "host_ports (c # cs) =
     (if c = CHR '':'' \<and> takeWhile is_digit cs \<noteq> [] \<and> startswith (dropWhile is_digit cs) ''->''
      then takeWhile is_digit cs # host_ports (drop 2 (dropWhile is_digit cs))
      else host_ports cs)"
  by pat_completeness auto
termination
proof (relation "measure length")
  fix c cs
  have "length (drop 2 (dropWhile is_digit cs)) \<le> length cs"
    using length_dropWhile_le [of is_digit cs] by simp
  then show "(drop 2 (dropWhile is_digit cs), c # cs) \<in> measure length" by simp
qed auto

definition parse_ports :: "string \<Rightarrow> string list" where
  "parse_ports raw = dedup (host_ports raw)"

definition parse_ps_line :: "string \<Rightarrow> (string \<times> string \<times> service_container) option" where
  "parse_ps_line line =
     (case map py_strip (split_char TAB line) of
        [name, state, status_text, project, service, module, role, ports] \<Rightarrow>
          if name = [] then None
          else Some (project, module_display_name module,
            \<lparr>ct_name = name, ct_service = (if service \<noteq> [] then service else name), ct_role = role,
             ct_state = state, ct_status_text = status_text, ct_ports = parse_ports ports,
             ct_health = derive_health state status_text\<rparr>)
      | _ \<Rightarrow> None)"

type_synonym grouped = "(string, (string, service_module) dict) dict"

definition add_container :: "service_container \<Rightarrow> service_module \<Rightarrow> service_module" where
  "add_container c m = m\<lparr>sm_containers := sm_containers m @ [c]\<rparr>"

definition put_container :: "(string, service_module) dict \<Rightarrow> string \<Rightarrow> service_container \<Rightarrow> (string, service_module) dict" where
  "put_container modules name c =
     dict_set modules name (add_container c (case dict_get modules name of None \<Rightarrow> new_module name | Some m \<Rightarrow> m))"

definition add_line :: "grouped \<Rightarrow> string \<times> string \<times> service_container \<Rightarrow> grouped" where
  "add_line grouped parsed =
     (case parsed of (project, module_name, c) \<Rightarrow>
        dict_set grouped project
          (put_container (case dict_get grouped project of None \<Rightarrow> [] | Some ms \<Rightarrow> ms) module_name c))"

definition parsed_lines :: "string \<Rightarrow> (string \<times> string \<times> service_container) list" where
  "parsed_lines out =
     concat (map (\<lambda>l. case parse_ps_line l of None \<Rightarrow> [] | Some p \<Rightarrow> [p])
       (filter (\<lambda>l. py_strip l \<noteq> []) (splitlines out)))"

definition parse_ps_output :: "string \<Rightarrow> (string, service_module list) dict" where
  "parse_ps_output out =
     map (\<lambda>(project, modules). (project, worst_first (map snd modules))) (foldl add_line [] (parsed_lines out))"

section \<open>Folding in the target state\<close>

definition placeholder :: "expected_service \<Rightarrow> service_container" where
  "placeholder item =
     \<lparr>ct_name = [], ct_service = ex_service item, ct_role = ex_role item, ct_state = ''missing'',
      ct_status_text = ''not deployed'', ct_ports = [], ct_health = MISSING\<rparr>"

definition reported_services :: "service_module list \<Rightarrow> string set" where
  "reported_services modules = set (map ct_service (concat (map sm_containers modules)))"

definition expect :: "string set \<Rightarrow> (string, service_module) dict \<Rightarrow> expected_service \<Rightarrow> (string, service_module) dict" where
  "expect seen by_name item =
     (if ex_service item \<in> seen then by_name else put_container by_name (ex_module item) (placeholder item))"

definition declared_profiles :: "expected_service list \<Rightarrow> string \<Rightarrow> string set" where
  "declared_profiles expected m = \<Union> (set (map ex_profiles (filter (\<lambda>x. ex_module x = m) expected)))"

definition finish_module :: "expected_service list \<Rightarrow> string \<Rightarrow> service_module \<Rightarrow> service_module" where
  "finish_module expected addon m =
     m\<lparr>sm_containers := sorted_by container_sort_key (sm_containers m),
       sm_profiles := sorted_list_of_set (declared_profiles expected (sm_name m)), sm_addon := addon\<rparr>"

definition merge_expected :: "service_module list \<Rightarrow> expected_service list \<Rightarrow> string \<Rightarrow> service_module list" where
  "merge_expected modules expected addon =
     (let by_name = dict_of (map (\<lambda>m. (sm_name m, m)) modules);
          merged = foldl (expect (reported_services modules)) by_name expected
      in worst_first (map (\<lambda>kv. finish_module expected addon (snd kv)) merged))"

section \<open>Groups\<close>

definition add_profile_member ::
  "service_module \<Rightarrow> (string, service_module list) dict \<Rightarrow> string \<Rightarrow> (string, service_module list) dict" where
  "add_profile_member m members p =
     dict_set members p ((case dict_get members p of None \<Rightarrow> [] | Some ms \<Rightarrow> ms) @ [m])"

definition profile_members :: "service_module list \<Rightarrow> (string, service_module list) dict" where
  "profile_members modules = foldl (\<lambda>members m. foldl (add_profile_member m) members (sm_profiles m)) [] modules"

definition group_of :: "string \<Rightarrow> service_module list \<Rightarrow> service_group" where
  "group_of profile found =
     \<lparr>sg_name = profile, sg_modules = sort (map sm_name found),
      sg_containers = sum_list (map (\<lambda>m. length (sm_containers m)) found),
      sg_health = worst (map module_health found),
      sg_selectable = (profile \<notin> {SELF_PROFILE, LINK_PROFILE})\<rparr>"

definition service_groups :: "service_module list \<Rightarrow> service_group list" where
  "service_groups modules =
     sorted_by (\<lambda>g. (SEVERITY (sg_health g), sg_name g))
       (map (\<lambda>(profile, found). group_of profile found) (profile_members modules))"

section \<open>Restart policies\<close>

definition inspect_pair :: "string \<Rightarrow> (string \<times> string) list" where
  "inspect_pair line =
     (case map py_strip (split_char TAB line) of
        [name, policy] \<Rightarrow> if name \<noteq> [] then [(removeprefix ''/'' name, policy)] else []
      | _ \<Rightarrow> [])"

definition parse_inspect_output :: "string \<Rightarrow> (string, string) dict" where
  "parse_inspect_output out =
     dict_of (concat (map inspect_pair (filter (\<lambda>l. py_strip l \<noteq> []) (splitlines out))))"

definition SERVICE_RESTART_POLICIES :: "string list" where
  "SERVICE_RESTART_POLICIES = [''always'', ''unless-stopped'']"

definition judge_container :: "(string, string) dict \<Rightarrow> service_container \<Rightarrow> service_container" where
  "judge_container policies c =
     (if ct_health c = COMPLETED \<and>
         (case dict_get policies (ct_name c) of None \<Rightarrow> False | Some p \<Rightarrow> p \<in> set SERVICE_RESTART_POLICIES)
      then c\<lparr>ct_health := STOPPED\<rparr> else c)"

definition apply_restart_policies :: "service_module list \<Rightarrow> (string, string) dict \<Rightarrow> service_module list" where
  "apply_restart_policies modules policies =
     worst_first (map (\<lambda>m. m\<lparr>sm_containers := map (judge_container policies) (sm_containers m)\<rparr>) modules)"

section \<open>The snapshot of one host\<close>

definition compose_project :: "fs \<Rightarrow> string \<Rightarrow> py_exn + string" where
  "compose_project files config_dir =
     rbind (load_env_file files (path_join config_dir ''.env'')) (\<lambda>env.
       Inr (case dict_get env ''COMPOSE_PROJECT_NAME'' of
              Some v \<Rightarrow> if v \<noteq> [] then v else ''papaia'' | None \<Rightarrow> ''papaia''))"

definition addon_project ::
  "yaml \<Rightarrow> fs \<Rightarrow> string \<Rightarrow> string \<times> (string, pyval) dict \<Rightarrow> py_exn + (string \<times> expected_service list) list" where
  "addon_project load files workspace_dir named =
     (case named of (name, entry) \<Rightarrow>
        let raw_path = py_str_of (get_or entry ''path'' (PStr []))
        in if \<not> truthy (get_or entry ''active'' (PBool False)) \<or> raw_path = [] then Inr []
           else let path = (if startswith raw_path ''/'' then path_of raw_path else path_join workspace_dir raw_path)
                in rbind (addon_inventory load files path name) (\<lambda>inv. Inr [(path_name path, inv)]))"

definition addon_projects ::
  "yaml \<Rightarrow> fs \<Rightarrow> string \<Rightarrow> string \<Rightarrow> py_exn + (string, expected_service list) dict" where
  "addon_projects load files config_dir workspace_dir =
     rbind (load_deployment_yaml load files config_dir) (\<lambda>deployment.
     rbind (deployment_addons_by_name deployment) (\<lambda>addons.
     rbind (rmap (addon_project load files workspace_dir) addons) (\<lambda>projects.
       Inr (dict_of (concat projects)))))"

definition modules_in :: "(string, service_module list) dict \<Rightarrow> string \<Rightarrow> service_module list" where
  "modules_in by_project p = (case dict_get by_project p of None \<Rightarrow> [] | Some ms \<Rightarrow> ms)"

definition has_running :: "service_module list \<Rightarrow> bool" where
  "has_running modules \<longleftrightarrow> (\<exists>m \<in> set modules. \<exists>c \<in> set (sm_containers m). ct_state c = ''running'')"

definition snapshot_of ::
  "string \<Rightarrow> expected_service list \<Rightarrow> (string, expected_service list) dict \<Rightarrow> string \<Rightarrow> stack_snapshot" where
  "snapshot_of core_project expected_core projects out =
     (let by_project = parse_ps_output out;
          core = merge_expected (modules_in by_project core_project) expected_core [];
          addons = concat (map (\<lambda>(project, expected). merge_expected (modules_in by_project project) expected project)
                     (sorted_by fst projects))
      in \<lparr>sk_core = core, sk_addons = addons,
          sk_running_projects = set (map fst (filter (\<lambda>(p, ms). p \<noteq> [] \<and> has_running ms) by_project)),
          sk_groups = service_groups core, sk_nodes = []\<rparr>)"

definition build_snapshot :: "yaml \<Rightarrow> fs \<Rightarrow> string \<Rightarrow> string \<Rightarrow> string \<Rightarrow> py_exn + stack_snapshot" where
  "build_snapshot load files config_dir workspace_dir out =
     rbind (compose_project files config_dir) (\<lambda>core_project.
     rbind (active_profiles files config_dir) (\<lambda>profiles.
     rbind (core_inventory load files workspace_dir profiles) (\<lambda>expected_core.
     rbind (addon_projects load files config_dir workspace_dir) (\<lambda>projects.
       Inr (snapshot_of core_project expected_core projects out)))))"

section \<open>The report of a distributed installation\<close>

definition text_at :: "(string, pyval) dict \<Rightarrow> string \<Rightarrow> string" where
  "text_at d k = py_str_of (py_or (get_none d k) (PStr []))"

definition health_named :: "pyval \<Rightarrow> service_health" where
  "health_named v =
     (case find_first (\<lambda>h. health_value h = py_str_of v) all_health of None \<Rightarrow> UNKNOWN | Some h \<Rightarrow> h)"

definition container_from_report :: "pyval \<Rightarrow> py_exn + service_container list" where
  "container_from_report raw =
     (case raw of
        PDict d \<Rightarrow> rbind (str_list (get_none d ''host_ports'')) (\<lambda>ports.
          Inr [\<lparr>ct_name = text_at d ''name'', ct_service = text_at d ''service'', ct_role = text_at d ''role'',
                ct_state = text_at d ''state'', ct_status_text = text_at d ''status_text'', ct_ports = ports,
                ct_health = health_named (get_none d ''health'')\<rparr>])
      | _ \<Rightarrow> Inr [])"

definition module_from_report :: "(string, pyval) dict \<Rightarrow> py_exn + service_module" where
  "module_from_report entry =
     rbind (py_iter (py_or (get_none entry ''containers'') (PList []))) (\<lambda>raws.
     rbind (rmap container_from_report raws) (\<lambda>containers.
     rbind (str_list (get_none entry ''profiles'')) (\<lambda>profiles.
       Inr \<lparr>sm_name = text_at entry ''name'',
            sm_containers = sorted_by container_sort_key (concat containers), sm_profiles = profiles,
            sm_addon = (if get_none entry ''kind'' = PStr ''addon'' then text_at entry ''compose_project'' else []),
            sm_node = text_at entry ''node''\<rparr>)))"

definition dicts_of :: "pyval list \<Rightarrow> (string, pyval) dict list" where
  "dicts_of vs = concat (map (\<lambda>v. case v of PDict d \<Rightarrow> [d] | _ \<Rightarrow> []) vs)"

definition entry_running :: "(string, pyval) dict \<Rightarrow> py_exn + string list" where
  "entry_running entry =
     (if \<not> truthy (get_none entry ''compose_project'') then Inr []
      else rbind (py_iter (py_or (get_none entry ''containers'') (PList []))) (\<lambda>cs.
        Inr (if \<exists>c \<in> set (dicts_of cs). get_none c ''state'' = PStr ''running''
             then [py_str_of (get_none entry ''compose_project'')] else [])))"

definition node_from_report :: "(string, pyval) dict \<Rightarrow> node_health" where
  "node_from_report entry =
     \<lparr>nh_name = text_at entry ''name'', nh_reachable = truthy (get_none entry ''reachable''),
      nh_reason = text_at entry ''reason'', nh_version = text_at entry ''papaia_version''\<rparr>"

definition parse_status_report :: "(string \<Rightarrow> pyval option) \<Rightarrow> string \<Rightarrow> py_exn + stack_snapshot" where
  "parse_status_report loads out =
     (case loads out of
        Some (PDict document) \<Rightarrow>
          (case get_none document ''modules'' of
             PList raws \<Rightarrow>
               rbind (rmap module_from_report (dicts_of raws)) (\<lambda>modules.
               rbind (rmap entry_running (dicts_of raws)) (\<lambda>running.
               rbind (py_iter (py_or (get_none document ''nodes'') (PList []))) (\<lambda>nodes.
                 let core = filter (\<lambda>m. sm_addon m = []) modules; addons = filter (\<lambda>m. sm_addon m \<noteq> []) modules
                 in Inr \<lparr>sk_core = worst_first core, sk_addons = worst_first addons,
                         sk_running_projects = set (concat running), sk_groups = service_groups core,
                         sk_nodes = map node_from_report (dicts_of nodes)\<rparr>)))
           | _ \<Rightarrow> Inl ValueError)
      | _ \<Rightarrow> Inl ValueError)"

section \<open>The cached reading\<close>

record snapshot_cache =
  ca_cache :: "(int \<times> stack_snapshot) option"
  ca_failed_at :: "int option"

record services_env =
  sv_yaml :: yaml
  sv_json :: "string \<Rightarrow> pyval option"
  sv_files :: fs
  sv_config_dir :: string
  sv_workspace_dir :: string
  sv_distributed :: bool
  sv_ps :: "string option"
  sv_inspect :: "string list \<Rightarrow> string option"
  sv_status :: "string option"

definition CACHE_TTL :: timedelta where "CACHE_TTL = 5 * us_second"
definition STATUS_TTL :: timedelta where "STATUS_TTL = 30 * us_second"
definition STATUS_FAILURE_TTL :: timedelta where "STATUS_FAILURE_TTL = 15 * us_second"

definition query_restart_policies :: "services_env \<Rightarrow> string list \<Rightarrow> (string, string) dict" where
  "query_restart_policies E names =
     (if names = [] then []
      else case sv_inspect E names of None \<Rightarrow> [] | Some out \<Rightarrow> parse_inspect_output out)"

text \<open>\<open>later\<close> is the clock when the answer is there.\<close>

definition ask_status :: "services_env \<Rightarrow> int \<Rightarrow> snapshot_cache \<Rightarrow> (py_exn + stack_snapshot) \<times> snapshot_cache" where
  "ask_status E later ca =
     (case (case sv_status E of None \<Rightarrow> Inl ValueError | Some out \<Rightarrow> parse_status_report (sv_json E) out) of
        Inl ValueError \<Rightarrow> (Inr empty_snapshot, ca\<lparr>ca_failed_at := Some later\<rparr>)
      | Inl e \<Rightarrow> (Inl e, ca)
      | Inr s \<Rightarrow> (Inr s, \<lparr>ca_cache = Some (later, s), ca_failed_at = None\<rparr>))"

definition fresh_cache :: "timedelta \<Rightarrow> int \<Rightarrow> snapshot_cache \<Rightarrow> stack_snapshot option" where
  "fresh_cache ttl now ca =
     (case ca_cache ca of Some (at, s) \<Rightarrow> if now - at < ttl then Some s else None | None \<Rightarrow> None)"

definition load_distributed ::
  "services_env \<Rightarrow> int \<Rightarrow> int \<Rightarrow> snapshot_cache \<Rightarrow> (py_exn + stack_snapshot) \<times> snapshot_cache" where
  "load_distributed E now later ca =
     (case fresh_cache STATUS_TTL now ca of
        Some s \<Rightarrow> (Inr s, ca)
      | None \<Rightarrow>
          if (case ca_failed_at ca of Some f \<Rightarrow> now - f < STATUS_FAILURE_TTL | None \<Rightarrow> False)
          then (Inr empty_snapshot, ca)
          else ask_status E later ca)"

definition completed_names :: "stack_snapshot \<Rightarrow> string list" where
  "completed_names s =
     map ct_name (filter (\<lambda>c. ct_health c = COMPLETED) (concat (map sm_containers (sk_core s @ sk_addons s))))"

definition judge_snapshot :: "(string, string) dict \<Rightarrow> stack_snapshot \<Rightarrow> stack_snapshot" where
  "judge_snapshot policies s =
     (let core = apply_restart_policies (sk_core s) policies
      in s\<lparr>sk_core := core, sk_addons := apply_restart_policies (sk_addons s) policies,
           sk_groups := service_groups core\<rparr>)"

definition load_snapshot ::
  "services_env \<Rightarrow> int \<Rightarrow> int \<Rightarrow> snapshot_cache \<Rightarrow> (py_exn + stack_snapshot) \<times> snapshot_cache" where
  "load_snapshot E now later ca =
     (case fresh_cache CACHE_TTL now ca of
        Some s \<Rightarrow> (Inr s, ca)
      | None \<Rightarrow>
          if sv_distributed E then load_distributed E now later ca
          else (case sv_ps E of
                  None \<Rightarrow> (Inr empty_snapshot, ca)
                | Some out \<Rightarrow>
                    (case build_snapshot (sv_yaml E) (sv_files E) (sv_config_dir E) (sv_workspace_dir E) out of
                       Inl e \<Rightarrow> (Inl e, ca)
                     | Inr s \<Rightarrow>
                         let judged = judge_snapshot (query_restart_policies E (completed_names s)) s
                         in (Inr judged, ca\<lparr>ca_cache := Some (now, judged)\<rparr>))))"

definition invalidate_snapshot :: "snapshot_cache \<Rightarrow> snapshot_cache" where
  "invalidate_snapshot ca = \<lparr>ca_cache = None, ca_failed_at = None\<rparr>"

section \<open>By node\<close>

definition project_rank :: "service_module list \<Rightarrow> service_module \<Rightarrow> nat" where
  "project_rank ordered m = length (takeWhile (\<lambda>a. a \<noteq> sm_addon m) (dedup (map sm_addon ordered)))"

definition node_section :: "service_module list \<Rightarrow> service_module list \<Rightarrow> service_module list" where
  "node_section core addons =
     worst_first core @ sorted_by (project_rank (worst_first addons)) (worst_first addons)"

definition modules_by_node :: "stack_snapshot \<Rightarrow> (string \<times> service_module list \<times> nat) list" where
  "modules_by_node s =
     (let listed = map nh_name (sk_nodes s);
          order = listed @ sorted_list_of_set (set (map sm_node (sk_core s @ sk_addons s)) - set listed)
      in concat (map (\<lambda>name.
           let core = filter (\<lambda>m. sm_node m = name) (sk_core s); addons = filter (\<lambda>m. sm_node m = name) (sk_addons s)
           in if core \<noteq> [] \<or> addons \<noteq> [] then [(name, node_section core addons, length (service_groups core))] else [])
         order))"

definition owner_nodes :: "stack_snapshot \<Rightarrow> string \<Rightarrow> string list" where
  "owner_nodes s grp =
     (let nodes = sorted_list_of_set (set (map sm_node (filter (\<lambda>m. grp \<in> set (sm_profiles m) \<and> sm_node m \<noteq> []) (sk_core s))))
      in if nodes \<noteq> [] then nodes else [[]])"

definition add_owner :: "string \<Rightarrow> (string, string list) dict \<Rightarrow> string \<Rightarrow> (string, string list) dict" where
  "add_owner grp owners node =
     dict_set owners node ((case dict_get owners node of None \<Rightarrow> [] | Some gs \<Rightarrow> gs) @ [grp])"

definition group_owners :: "stack_snapshot \<Rightarrow> string set \<Rightarrow> (string, string list) dict" where
  "group_owners s groups =
     foldl (\<lambda>owners g. foldl (add_owner g) owners (owner_nodes s g)) [] (sorted_list_of_set groups)"

section \<open>Lemmas: aggregated health\<close>

lemma SEVERITY_inj [simp]: "SEVERITY a = SEVERITY b \<longleftrightarrow> a = b"
  by (cases a; cases b) simp_all

lemma least_severe_mem: "least_severe h xs \<in> set (h # xs)"
  by (induction h xs rule: least_severe.induct) (auto split: if_splits)

lemma least_severe_le: "x \<in> set (h # xs) \<Longrightarrow> SEVERITY (least_severe h xs) \<le> SEVERITY x"
proof (induction h xs arbitrary: x rule: least_severe.induct)
  case (2 h y ys)
  let ?k = "if SEVERITY y < SEVERITY h then y else h"
  have k: "SEVERITY ?k \<le> SEVERITY y" "SEVERITY ?k \<le> SEVERITY h" by auto
  have "SEVERITY (least_severe ?k ys) \<le> SEVERITY ?k" using "2.IH" by simp
  moreover have "SEVERITY (least_severe ?k ys) \<le> SEVERITY x" if "x \<in> set ys" using "2.IH" that by simp
  ultimately show ?case using "2.prems" k by (auto intro: order_trans)
qed simp

text \<open>\<open>worst\<close> by what it is: nothing known, everything over, or the most severe of what is neither.\<close>

lemma worst_cases:
  shows "xs = [] \<Longrightarrow> worst xs = UNKNOWN"
    and "xs \<noteq> [] \<Longrightarrow> set xs \<subseteq> {COMPLETED} \<Longrightarrow> worst xs = COMPLETED"
    and "h \<in> set xs \<Longrightarrow> h \<noteq> COMPLETED \<Longrightarrow>
      worst xs \<in> set xs \<and> worst xs \<noteq> COMPLETED \<and> SEVERITY (worst xs) \<le> SEVERITY h"
proof -
  show "xs = [] \<Longrightarrow> worst xs = UNKNOWN" by (simp add: worst_def)
  show "worst xs = COMPLETED" if "xs \<noteq> []" "set xs \<subseteq> {COMPLETED}"
  proof -
    have "filter (\<lambda>v. v \<noteq> COMPLETED) xs = []" using that(2) by (auto simp: filter_empty_conv)
    with that(1) show ?thesis by (simp add: worst_def)
  qed
  show "worst xs \<in> set xs \<and> worst xs \<noteq> COMPLETED \<and> SEVERITY (worst xs) \<le> SEVERITY h"
    if "h \<in> set xs" "h \<noteq> COMPLETED"
  proof -
    from that have ne: "h \<in> set (filter (\<lambda>v. v \<noteq> COMPLETED) xs)" by simp
    then obtain k ks where kk: "filter (\<lambda>v. v \<noteq> COMPLETED) xs = k # ks" by (cases "filter (\<lambda>v. v \<noteq> COMPLETED) xs") auto
    with that(1) have w: "worst xs = least_severe k ks" by (auto simp: worst_def)
    have "least_severe k ks \<in> set (filter (\<lambda>v. v \<noteq> COMPLETED) xs)" using least_severe_mem [of k ks] kk by simp
    moreover have "SEVERITY (least_severe k ks) \<le> SEVERITY h" using least_severe_le [of h k ks] ne kk by simp
    ultimately show ?thesis by (simp add: w)
  qed
qed

lemma worst_characterised:
  assumes "w \<in> set xs" "w \<noteq> COMPLETED" "\<And>h. h \<in> set xs \<Longrightarrow> h \<noteq> COMPLETED \<Longrightarrow> SEVERITY w \<le> SEVERITY h"
  shows "worst xs = w"
proof -
  have "worst xs \<in> set xs" "worst xs \<noteq> COMPLETED" "SEVERITY (worst xs) \<le> SEVERITY w"
    using worst_cases(3) [OF assms(1,2)] by auto
  moreover from this assms(3) have "SEVERITY w \<le> SEVERITY (worst xs)" by blast
  ultimately show ?thesis by (metis SEVERITY_inj order_antisym)
qed

lemma worst_nested:
  assumes "\<forall>g \<in> set gs. g \<noteq> []"
  shows "worst (map worst gs) = worst (concat gs)"
proof (cases "\<exists>g \<in> set gs. \<exists>h \<in> set g. h \<noteq> COMPLETED")
  case False
  show ?thesis
  proof (cases "gs = []")
    case True
    then show ?thesis by (simp add: worst_cases(1))
  next
    case ne: False
    have "worst g = COMPLETED" if "g \<in> set gs" for g
      using worst_cases(2) [of g] assms False that by auto
    then have "set (map worst gs) \<subseteq> {COMPLETED}" by auto
    moreover have "set (concat gs) \<subseteq> {COMPLETED}" using False by auto
    moreover have "concat gs \<noteq> []" using ne assms by (cases gs) auto
    ultimately show ?thesis using ne worst_cases(2) by simp
  qed
next
  case True
  then obtain g h where gh: "g \<in> set gs" "h \<in> set g" "h \<noteq> COMPLETED" by blast
  let ?w = "worst (concat gs)"
  have c: "?w \<in> set (concat gs)" "?w \<noteq> COMPLETED"
    using worst_cases(3) [of h "concat gs"] gh by auto
  then obtain g' where g': "g' \<in> set gs" "?w \<in> set g'" by auto
  have le: "SEVERITY ?w \<le> SEVERITY k" if "k \<in> set (concat gs)" "k \<noteq> COMPLETED" for k
    using worst_cases(3) [OF that] by simp
  have "worst g' = ?w"
    by (rule worst_characterised) (use g' c(2) le in auto)
  then have mem: "?w \<in> set (map worst gs)" using g'(1) by (metis image_eqI set_map)
  show ?thesis
  proof (rule worst_characterised [OF mem c(2)])
    fix k assume k: "k \<in> set (map worst gs)" "k \<noteq> COMPLETED"
    then obtain f where f: "f \<in> set gs" "k = worst f" by auto
    have "\<not> set f \<subseteq> {COMPLETED}" using assms f k(2) worst_cases(2) by metis
    then obtain j where "j \<in> set f" "j \<noteq> COMPLETED" by blast
    with worst_cases(3) f(2) have "k \<in> set f" by metis
    then show "SEVERITY ?w \<le> SEVERITY k" using le k(2) f(1) by auto
  qed
qed

text \<open>Aggregating in two steps is aggregating in one: the health of a section, taken over its modules, is the worst
  over all its containers, so no nesting of modules hides or invents a fault.\<close>

theorem overall_health_flat:
  assumes "\<forall>m \<in> set modules. sm_containers m \<noteq> []"
  shows "overall_health modules = worst (map ct_health (concat (map sm_containers modules)))"
proof -
  have "overall_health modules = worst (map worst (map (\<lambda>m. map ct_health (sm_containers m)) modules))"
    by (simp add: overall_health_def module_health_def [abs_def] comp_def)
  also have "\<dots> = worst (concat (map (\<lambda>m. map ct_health (sm_containers m)) modules))"
    by (rule worst_nested) (use assms in auto)
  finally show ?thesis by (simp add: map_concat comp_def)
qed

section \<open>Lemmas: every container is accounted for\<close>

definition module_items :: "string \<times> service_module \<Rightarrow> (string \<times> service_container) list" where
  "module_items km = map (\<lambda>c. (sm_name (snd km), c)) (sm_containers (snd km))"

definition names_ok :: "(string, service_module) dict \<Rightarrow> bool" where
  "names_ok ms \<longleftrightarrow> (\<forall>k m. dict_get ms k = Some m \<longrightarrow> sm_name m = k)"

lemma names_ok_put: "names_ok ms \<Longrightarrow> names_ok (put_container ms n c)"
  by (auto simp: names_ok_def put_container_def add_container_def new_module_def split: option.splits)

lemma put_container_items:
  assumes "names_ok ms"
  shows "mset (concat (map module_items (put_container ms n c))) = add_mset (n, c) (mset (concat (map module_items ms)))"
proof -
  let ?old = "case dict_get ms n of None \<Rightarrow> new_module n | Some m \<Rightarrow> m"
  have nm: "sm_name ?old = n" using assms by (auto simp: names_ok_def new_module_def split: option.splits)
  have old: "mset (case dict_get ms n of None \<Rightarrow> [] | Some u \<Rightarrow> module_items (n, u)) = mset (module_items (n, ?old))"
    by (simp add: module_items_def new_module_def split: option.splits)
  have "mset (module_items (n, add_container c ?old)) = add_mset (n, c) (mset (module_items (n, ?old)))"
    using nm by (simp add: module_items_def add_container_def)
  with mset_concat_dict_set [of module_items ms n "add_container c ?old"] old show ?thesis
    by (simp add: put_container_def)
qed

definition project_items :: "string \<times> (string, service_module) dict \<Rightarrow> (string \<times> string \<times> service_container) list" where
  "project_items pm = map (\<lambda>nc. (fst pm, nc)) (concat (map module_items (snd pm)))"

lemma add_line_items:
  assumes "\<And>p ms. dict_get g p = Some ms \<Longrightarrow> names_ok ms"
  shows "mset (concat (map project_items (add_line g l))) = add_mset l (mset (concat (map project_items g)))"
    and "dict_get (add_line g l) p = Some ms \<Longrightarrow> names_ok ms"
proof -
  obtain q n c where l: "l = (q, n, c)" by (cases l)
  let ?old = "case dict_get g q of None \<Rightarrow> [] | Some ms \<Rightarrow> ms"
  have ok: "names_ok ?old" using assms by (auto simp: names_ok_def split: option.splits)
  have "mset (project_items (q, put_container ?old n c)) = add_mset (q, n, c) (mset (project_items (q, ?old)))"
    by (simp add: project_items_def put_container_items [OF ok])
  moreover have "mset (case dict_get g q of None \<Rightarrow> [] | Some u \<Rightarrow> project_items (q, u)) = mset (project_items (q, ?old))"
    by (simp add: project_items_def split: option.splits)
  ultimately show "mset (concat (map project_items (add_line g l))) = add_mset l (mset (concat (map project_items g)))"
    using mset_concat_dict_set [of project_items g q "put_container ?old n c"] by (simp add: add_line_def l)
  show "names_ok ms" if "dict_get (add_line g l) p = Some ms"
    using that names_ok_put [OF ok] assms by (auto simp: add_line_def l split: if_splits)
qed

lemma fold_lines_items:
  "mset (concat (map project_items (foldl add_line [] ls))) = mset ls
   \<and> (\<forall>p ms. dict_get (foldl add_line [] ls) p = Some ms \<longrightarrow> names_ok ms)"
proof (induction ls rule: rev_induct)
  case (snoc l ls)
  then have inv: "\<And>p ms. dict_get (foldl add_line [] ls) p = Some ms \<Longrightarrow> names_ok ms" by blast
  show ?case using snoc add_line_items [OF inv, where l = l] by auto
qed simp

lemma mset_worst_first [simp]: "mset (worst_first ms) = mset ms"
  by (simp add: worst_first_def)

lemma mset_concat_map_cong: "mset xs = mset ys \<Longrightarrow> mset (concat (map f xs)) = mset (concat (map f ys))"
  by (metis mset_concat mset_map sum_mset_sum_list)

text \<open>A container as the page files it: its project, its module and itself.\<close>

definition filed :: "(string, service_module list) dict \<Rightarrow> (string \<times> string \<times> service_container) list" where
  "filed by_project =
     concat (map (\<lambda>(p, ms). concat (map (\<lambda>m. map (\<lambda>c. (p, sm_name m, c)) (sm_containers m)) ms)) by_project)"

lemma filed_parse: "mset (filed (parse_ps_output out)) = mset (concat (map project_items (foldl add_line [] (parsed_lines out))))"
proof -
  have "mset (filed (map (\<lambda>(p, ms). (p, worst_first (map snd ms))) g)) = mset (concat (map project_items g))"
    for g :: grouped
  proof (induction g)
    case (Cons pm g)
    obtain p ms where pm: "pm = (p, ms)" by (cases pm)
    have "mset (concat (map (\<lambda>m. map (\<lambda>c. (p, sm_name m, c)) (sm_containers m)) (worst_first (map snd ms))))
        = mset (concat (map (\<lambda>m. map (\<lambda>c. (p, sm_name m, c)) (sm_containers m)) (map snd ms)))"
      by (rule mset_concat_map_cong) simp
    also have "\<dots> = mset (project_items (p, ms))"
      by (simp add: project_items_def module_items_def map_concat comp_def)
    finally show ?case using Cons by (simp add: filed_def pm)
  qed (simp add: filed_def)
  then show ?thesis by (simp add: parse_ps_output_def)
qed

text \<open>Reading \<open>docker ps\<close> loses and duplicates nothing: what the projects and modules hold, container by container
  and each under the project and module of its line, is what the readable lines say.\<close>

theorem parse_ps_output_complete: "mset (filed (parse_ps_output out)) = mset (parsed_lines out)"
  using fold_lines_items [of "parsed_lines out"] by (simp add: filed_parse)

definition items_in :: "service_module list \<Rightarrow> (string \<times> service_container) list" where
  "items_in ms = concat (map (\<lambda>m. map (\<lambda>c. (sm_name m, c)) (sm_containers m)) ms)"

lemma fold_expect_items:
  assumes "names_ok d"
  shows "mset (concat (map module_items (foldl (expect seen) d xs))) = mset (concat (map module_items d))
      + mset (map (\<lambda>x. (ex_module x, placeholder x)) (filter (\<lambda>x. ex_service x \<notin> seen) xs))"
  using assms
proof (induction xs arbitrary: d)
  case (Cons x xs)
  show ?case using Cons.IH [of d] Cons.IH [of "put_container d (ex_module x) (placeholder x)"] Cons.prems
    by (simp add: expect_def names_ok_put put_container_items)
qed simp

lemma finish_module_items: "mset (module_items (k, finish_module xs a m)) = mset (module_items (k, m))"
  by (simp add: module_items_def finish_module_def)

lemma items_in_finish:
  "mset (items_in (map (\<lambda>kv. finish_module xs a (snd kv)) d)) = mset (concat (map module_items d))"
proof (induction d)
  case (Cons kv d)
  then show ?case using finish_module_items [of "fst kv" xs a "snd kv"]
    by (simp add: items_in_def module_items_def)
qed (simp add: items_in_def)

text \<open>C14: The services page shows the target state against the live one and nothing is lost: the merged modules hold every
  container docker reported, in its module, and one placeholder for every declared service it did not report,
  in the module that declares it.\<close>

theorem merge_expected_accounts:
  assumes "distinct (map sm_name modules)"
  shows "mset (items_in (merge_expected modules expected addon)) = mset (items_in modules)
    + mset (map (\<lambda>x. (ex_module x, placeholder x)) (filter (\<lambda>x. ex_service x \<notin> reported_services modules) expected))"
proof -
  let ?d = "map (\<lambda>m. (sm_name m, m)) modules"
  have d: "dict_of ?d = ?d" by (rule dict_of_distinct) (use assms in \<open>simp add: comp_def\<close>)
  have ok: "names_ok ?d" by (auto simp: names_ok_def dict_get_def dest: map_of_SomeD)
  have "mset (items_in (merge_expected modules expected addon))
      = mset (concat (map module_items (foldl (expect (reported_services modules)) ?d expected)))"
    unfolding items_in_finish [where xs = expected and a = addon, symmetric] items_in_def
    by (rule mset_concat_map_cong) (simp add: merge_expected_def d)
  also have "\<dots> = mset (concat (map module_items ?d))
    + mset (map (\<lambda>x. (ex_module x, placeholder x)) (filter (\<lambda>x. ex_service x \<notin> reported_services modules) expected))"
    by (rule fold_expect_items [OF ok])
  also have "concat (map module_items ?d) = items_in modules"
    by (simp add: items_in_def module_items_def comp_def)
  finally show ?thesis .
qed

definition demo_container :: "string \<Rightarrow> string \<Rightarrow> service_health \<Rightarrow> service_container" where
  "demo_container name state h =
     \<lparr>ct_name = name, ct_service = name, ct_role = [], ct_state = state, ct_status_text = [], ct_ports = [], ct_health = h\<rparr>"

definition demo_module :: "string \<Rightarrow> service_container list \<Rightarrow> service_module" where
  "demo_module name cs = (new_module name)\<lparr>sm_containers := cs\<rparr>"

theorem overall_health_flat_witness:
  "overall_health [demo_module ''localai'' [demo_container ''init'' ''exited'' COMPLETED, demo_container ''engine'' ''running'' HEALTHY],
      demo_module ''keycloak'' [demo_container ''keycloak'' ''exited'' STOPPED]] = STOPPED"
  by (subst overall_health_flat, simp add: demo_module_def, code_simp)

theorem merge_expected_accounts_witness:
  "mset (items_in (merge_expected [demo_module ''searxng'' [demo_container ''searxng'' ''running'' HEALTHY]] demo_expected []))
     = {#(''searxng'', demo_container ''searxng'' ''running'' HEALTHY)#}"
proof -
  let ?ms = "[demo_module ''searxng'' [demo_container ''searxng'' ''running'' HEALTHY]]"
  have "distinct (map sm_name ?ms)" by simp
  from merge_expected_accounts [OF this, of demo_expected "[]"] show ?thesis
    by (simp add: items_in_def demo_module_def new_module_def reported_services_def demo_expected_def demo_container_def)
qed

text \<open>Not knowing is not an outage: when neither docker nor the core's status answers, the reading is the one still
  in the cache or an empty one, never a stack full of missing services, and the cached reading is not replaced.\<close>

theorem silent_docker_invents_nothing:
  assumes "sv_ps E = None" "sv_status E = None"
  shows "\<exists>s ca'. load_snapshot E now later ca = (Inr s, ca') \<and> ca_cache ca' = ca_cache ca
    \<and> (s = empty_snapshot \<or> (\<exists>at. ca_cache ca = Some (at, s)))"
  using assms
  by (auto simp: load_snapshot_def load_distributed_def ask_status_def fresh_cache_def
      split: option.splits if_splits)

definition demo_env :: services_env where
  "demo_env = \<lparr>sv_yaml = demo_yaml, sv_json = (\<lambda>_. None), sv_files = demo_tree, sv_config_dir = ''/cfg'',
     sv_workspace_dir = ''/ws'', sv_distributed = True, sv_ps = None, sv_inspect = (\<lambda>_. None), sv_status = None\<rparr>"

theorem silent_docker_invents_nothing_witness:
  "\<exists>s ca'. load_snapshot demo_env 0 1 \<lparr>ca_cache = None, ca_failed_at = None\<rparr> = (Inr s, ca') \<and> s = empty_snapshot"
  using silent_docker_invents_nothing [of demo_env 0 1 "\<lparr>ca_cache = None, ca_failed_at = None\<rparr>"]
  by (auto simp: demo_env_def)

section \<open>Lemmas: who runs a group\<close>

definition listed :: "(string, string list) dict \<Rightarrow> string \<Rightarrow> string list" where
  "listed owners n = (case dict_get owners n of None \<Rightarrow> [] | Some gs \<Rightarrow> gs)"

lemma listed_add_owners:
  "distinct ns \<Longrightarrow> listed (foldl (add_owner g) ow ns) n = listed ow n @ (if n \<in> set ns then [g] else [])"
  by (induction ns arbitrary: ow) (auto simp: listed_def add_owner_def split: option.splits)

lemma distinct_owner_nodes: "distinct (owner_nodes s g)"
  by (simp add: owner_nodes_def Let_def)

lemma listed_group_owners_list:
  "listed (foldl (\<lambda>owners g. foldl (add_owner g) owners (owner_nodes s g)) ow gs) n
     = listed ow n @ filter (\<lambda>g. n \<in> set (owner_nodes s g)) gs"
  by (induction gs arbitrary: ow) (auto simp: listed_add_owners distinct_owner_nodes)

text \<open>Every group of a request is handed to exactly the nodes that run it, and to the core's own choice (the empty
  name) when no known node does; no group is dropped and none is listed twice for a node.\<close>

theorem group_owners_exact:
  assumes "finite groups"
  shows "set (listed (group_owners s groups) n) = {g \<in> groups. n \<in> set (owner_nodes s g)}
    \<and> distinct (listed (group_owners s groups) n)
    \<and> (\<forall>g \<in> groups. owner_nodes s g \<noteq> [])"
proof -
  have "listed (group_owners s groups) n = filter (\<lambda>g. n \<in> set (owner_nodes s g)) (sorted_list_of_set groups)"
    unfolding group_owners_def listed_group_owners_list by (simp add: listed_def)
  moreover have "owner_nodes s g \<noteq> []" for g by (simp add: owner_nodes_def Let_def)
  ultimately show ?thesis using assms by auto
qed

lemma distinct_singleton: "set xs = {x} \<Longrightarrow> distinct xs \<Longrightarrow> xs = [x]"
  by (cases xs; cases "tl xs") auto

theorem group_owners_exact_witness:
  "listed (group_owners empty_snapshot {''websearch''}) [] = [''websearch'']"
proof -
  have "set (listed (group_owners empty_snapshot {''websearch''}) []) = {''websearch''}
      \<and> distinct (listed (group_owners empty_snapshot {''websearch''}) [])"
    using group_owners_exact [of "{''websearch''}" empty_snapshot "[]"]
    by (auto simp: owner_nodes_def empty_snapshot_def)
  then show ?thesis by (intro distinct_singleton) blast+
qed

end
