(* ===== verification/Notify_Model.thy ===== *)
theory Notify_Model
  imports Py_Prelude
begin

text \<open>
  The events, the recipients and the rules a recipient is checked against
  (\<open>core/notifications/model.py\<close>, and the address check of \<open>core/mail/probe.py\<close>).

  A refusal is a value of \<open>notify_error\<close>, one constructor for each sentence of the source. The
  URL splitter of the standard library is written out for the code points below 128; the one part of
  it that is a parameter is the reading of an address in square brackets (\<open>ipaddress\<close>). The
  validators a model runs on construction are functions from the raw value to the checked one, as
  pydantic runs them: field by field, then the model's own check.
\<close>

section \<open>Events, severities, kinds\<close>

datatype event = JOB_FAILED | BACKUP_OVERDUE | SERVICE_UNHEALTHY | UPDATE_AVAILABLE | CERT_EXPIRING

fun event_value :: "event \<Rightarrow> string" where
  "event_value JOB_FAILED = ''job_failed''"
| "event_value BACKUP_OVERDUE = ''backup_overdue''"
| "event_value SERVICE_UNHEALTHY = ''service_unhealthy''"
| "event_value UPDATE_AVAILABLE = ''update_available''"
| "event_value CERT_EXPIRING = ''cert_expiring''"

datatype severity = SevInfo | SevWarning | SevError

fun severity_value :: "severity \<Rightarrow> string" where
  "severity_value SevInfo = ''info''"
| "severity_value SevWarning = ''warning''"
| "severity_value SevError = ''error''"

datatype target_kind = EMAIL | WEBHOOK

record event_info =
  ei_event :: event
  ei_label :: string
  ei_short :: string
  ei_description :: string
  ei_severity :: severity

definition CATALOGUE :: "event_info list" where
  "CATALOGUE =
    [\<lparr>ei_event = JOB_FAILED, ei_label = ''Job failed'', ei_short = ''Job'' @ [LF] @ ''failed'',
      ei_description = ''a job ended with an error'', ei_severity = SevError\<rparr>,
     \<lparr>ei_event = BACKUP_OVERDUE, ei_label = ''Backup overdue'', ei_short = ''Backup'' @ [LF] @ ''overdue'',
      ei_description = ''no good backup within the schedule'', ei_severity = SevError\<rparr>,
     \<lparr>ei_event = SERVICE_UNHEALTHY, ei_label = ''Service unhealthy'',
      ei_short = ''Service'' @ [LF] @ ''unhealthy'',
      ei_description = ''a container stopped or reports unhealthy'', ei_severity = SevError\<rparr>,
     \<lparr>ei_event = UPDATE_AVAILABLE, ei_label = ''Update available'',
      ei_short = ''Update'' @ [LF] @ ''available'',
      ei_description = ''a newer papAIa or add-on version exists'', ei_severity = SevInfo\<rparr>,
     \<lparr>ei_event = CERT_EXPIRING, ei_label = ''Certificate expiring'',
      ei_short = ''Certificate'' @ [LF] @ ''expiring'',
      ei_description = ''a TLS certificate runs out soon'', ei_severity = SevWarning\<rparr>]"

definition INFO_BY_EVENT :: "(event, event_info) dict" where
  "INFO_BY_EVENT = dict_of (map (\<lambda>i. (ei_event i, i)) CATALOGUE)"

section \<open>Splitting a URL\<close>

record url_parts =
  u_scheme :: string
  u_netloc :: string
  u_path :: string
  u_query :: string

text \<open>\<open>s.rpartition(c)\<close>: at the last occurrence; without one everything is the last part.\<close>

definition rpartition_char :: "char \<Rightarrow> string \<Rightarrow> string \<times> bool \<times> string" where
  "rpartition_char c s =
     (case partition_char c (rev s) of
        (b, True, a) \<Rightarrow> (rev a, True, rev b)
      | (_, False, _) \<Rightarrow> ([], False, s))"

definition is_alpha :: "char \<Rightarrow> bool" where
  "is_alpha c \<longleftrightarrow> is_upper c \<or> is_lower c"

definition is_scheme_part :: "char \<Rightarrow> bool" where
  "is_scheme_part c \<longleftrightarrow> is_alpha c \<or> is_digit c \<or> c \<in> set ''+-.''"

definition split_scheme :: "string \<Rightarrow> string \<times> string" where
  "split_scheme url =
     (case partition_char (CHR '':'') url of
        (head, True, rest) \<Rightarrow>
          if head \<noteq> [] \<and> is_alpha (hd head) \<and> list_all is_scheme_part head then (py_lower head, rest)
          else ([], url)
      | (_, False, _) \<Rightarrow> ([], url))"

text \<open>
  \<open>urlsplit(url)\<close> of CPython 3.12. \<open>bracketed\<close> says whether a network location with both brackets is
  one \<open>ipaddress\<close> accepts.
\<close>

definition urlsplit :: "(string \<Rightarrow> bool) \<Rightarrow> string \<Rightarrow> py_exn + url_parts" where
  "urlsplit bracketed text =
     (let url = filter (\<lambda>c. c \<notin> {TAB, CR, LF}) (dropWhile (\<lambda>c. code_of c \<le> (32::nat)) text);
          (scheme, rest) = split_scheme url;
          (netloc, tail) =
            (if startswith rest ''//'' then
               (takeWhile (\<lambda>c. c \<notin> set ''/?#'') (drop 2 rest), dropWhile (\<lambda>c. c \<notin> set ''/?#'') (drop 2 rest))
             else ([], rest));
          opened = CHR 0x5B \<in> set netloc; closed = CHR 0x5D \<in> set netloc
      in if opened \<noteq> closed then Inl ValueError
         else if opened \<and> closed \<and> \<not> bracketed netloc then Inl ValueError
         else let before = fst (partition_char (CHR 0x23) tail);
                  (path, _, query) = partition_char (CHR ''?'') before
              in Inr \<lparr>u_scheme = scheme, u_netloc = netloc, u_path = path, u_query = query\<rparr>)"

definition userinfo :: "url_parts \<Rightarrow> string option \<times> string option" where
  "userinfo u =
     (case rpartition_char (CHR 0x40) (u_netloc u) of
        (info, True, _) \<Rightarrow>
          (case partition_char (CHR '':'') info of
             (name, True, pw) \<Rightarrow> (Some name, Some pw)
           | (name, False, _) \<Rightarrow> (Some name, None))
      | (_, False, _) \<Rightarrow> (None, None))"

definition hostinfo :: "url_parts \<Rightarrow> string \<times> string option" where
  "hostinfo u =
     (let host = snd (snd (rpartition_char (CHR 0x40) (u_netloc u)));
          (_, opened, inner) = partition_char (CHR 0x5B) host;
          (name, port) =
            (if opened then
               (let (n, _, after) = partition_char (CHR 0x5D) inner
                in (n, snd (snd (partition_char (CHR '':'') after))))
             else (let (n, _, p) = partition_char (CHR '':'') host in (n, p)))
      in (name, if port = [] then None else Some port))"

definition hostname :: "url_parts \<Rightarrow> string option" where
  "hostname u =
     (let name = fst (hostinfo u)
      in if name = [] then None
         else (case partition_char (CHR 0x25) name of
                 (h, percent, zone) \<Rightarrow> Some (py_lower h @ (if percent then CHR 0x25 # zone else []))))"

definition port :: "url_parts \<Rightarrow> py_exn + nat option" where
  "port u =
     (case snd (hostinfo u) of
        None \<Rightarrow> Inr None
      | Some p \<Rightarrow> if str_isdigit p \<and> int_of_digits p \<le> 65535 then Inr (Some (int_of_digits p)) else Inl ValueError)"

section \<open>The rules\<close>

datatype notify_error =
    EnterName | NameTooLong
  | EnterUrl | UrlTooLong | UrlInvalid | UrlScheme | UrlNoHost | UrlLogin
  | BadAddress | BadId | TooManyRecipients | SameId | SameName
  | OutOfRange string

definition MAX_RECIPIENTS :: nat where "MAX_RECIPIENTS = 50"
definition MAX_NAME_LENGTH :: nat where "MAX_NAME_LENGTH = 60"
definition MAX_URL_LENGTH :: nat where "MAX_URL_LENGTH = 2048"

definition validate_name :: "string \<Rightarrow> notify_error + string" where
  "validate_name value =
     (let name = join '' '' (split_ws value)
      in if name = [] then Inl EnterName
         else if length name > MAX_NAME_LENGTH then Inl NameTooLong
         else Inr name)"

definition validate_webhook_url :: "(string \<Rightarrow> bool) \<Rightarrow> string \<Rightarrow> notify_error + string" where
  "validate_webhook_url bracketed value =
     (let url = py_strip value
      in if url = [] then Inl EnterUrl
         else if length url > MAX_URL_LENGTH \<or> list_ex (\<lambda>c. is_space c \<or> code_of c < (32::nat)) url then Inl UrlTooLong
         else case urlsplit bracketed url of
             Inl _ \<Rightarrow> Inl UrlInvalid
           | Inr parts \<Rightarrow>
              (case port parts of
                 Inl _ \<Rightarrow> Inl UrlInvalid
               | Inr _ \<Rightarrow>
                   if u_scheme parts \<notin> {''http'', ''https''} then Inl UrlScheme
                   else if hostname parts = None then Inl UrlNoHost
                   else if fst (userinfo parts) \<noteq> None \<or> snd (userinfo parts) \<noteq> None
                        \<or> CHR 0x40 \<in> set (u_netloc parts) then Inl UrlLogin
                   else Inr url))"

text \<open>
  \<open>^[A-Za-z0-9._%+-]{1,64}@[A-Za-z0-9.-]{1,253}\.[A-Za-z]{2,63}$\<close>. None of the classes has an \<open>@\<close> and the
  last one has no dot, so the first \<open>@\<close> and the last dot are where the pattern divides the text.
\<close>

definition is_local_char :: "char \<Rightarrow> bool" where
  "is_local_char c \<longleftrightarrow> is_alpha c \<or> is_digit c \<or> c \<in> set ''._%+-''"

definition is_domain_char :: "char \<Rightarrow> bool" where
  "is_domain_char c \<longleftrightarrow> is_alpha c \<or> is_digit c \<or> c \<in> set ''.-''"

definition address_shape :: "string \<Rightarrow> bool" where
  "address_shape s \<longleftrightarrow>
     (case partition_char (CHR 0x40) s of
        (local, found, rest) \<Rightarrow>
          (case rpartition_char (CHR ''.'') rest of
             (domain, dot, tld) \<Rightarrow>
               found \<and> dot \<and> 1 \<le> length local \<and> length local \<le> 64 \<and> list_all is_local_char local
               \<and> 1 \<le> length domain \<and> length domain \<le> 253 \<and> list_all is_domain_char domain
               \<and> 2 \<le> length tld \<and> length tld \<le> 63 \<and> list_all is_alpha tld))"

definition validate_recipient :: "string \<Rightarrow> py_exn + string" where
  "validate_recipient value =
     (let address = py_strip value
      in if length address > 254 \<or> \<not> match_dollar address_shape address then Inl ValueError
         else Inr address)"

definition validate_target :: "(string \<Rightarrow> bool) \<Rightarrow> target_kind \<Rightarrow> string \<Rightarrow> notify_error + string" where
  "validate_target bracketed kind value =
     (case kind of
        EMAIL \<Rightarrow> (case validate_recipient value of Inl _ \<Rightarrow> Inl BadAddress | Inr a \<Rightarrow> Inr a)
      | WEBHOOK \<Rightarrow> validate_webhook_url bracketed value)"

definition validate_events :: "event list \<Rightarrow> event list" where
  "validate_events values = filter (\<lambda>e. e \<in> set values) (map ei_event CATALOGUE)"

text \<open>Where a webhook goes without the part that authorises it. The ellipsis is its three UTF-8 bytes.\<close>

definition mask_url :: "(string \<Rightarrow> bool) \<Rightarrow> string \<Rightarrow> py_exn + string" where
  "mask_url bracketed url =
     rbind (urlsplit bracketed url) (\<lambda>parts.
     rbind (port parts) (\<lambda>p.
       let host = (case hostname parts of None \<Rightarrow> [] | Some h \<Rightarrow> h);
           shown_host = (if CHR '':'' \<in> set host then [CHR 0x5B] @ host @ [CHR 0x5D] else host);
           shown = u_scheme parts @ ''://'' @ shown_host
             @ (case p of Some n \<Rightarrow> if n \<noteq> 0 then '':'' @ str_of_nat n else [] | None \<Rightarrow> [])
       in if list_ex (\<lambda>c. c \<noteq> CHR ''/'') (u_path parts) \<or> u_query parts \<noteq> []
          then Inr (shown @ ''/'' @ [CHR 0xE2, CHR 0x80, CHR 0xA6]) else Inr shown))"

section \<open>Recipients and the configuration\<close>

record recipient =
  rc_id :: string
  rc_name :: string
  rc_kind :: target_kind
  rc_target :: string
  rc_enabled :: bool
  rc_events :: "event list"

text \<open>\<open>^[a-z0-9][a-z0-9-]{0,31}$\<close>.\<close>

definition recipient_id_shape :: "string \<Rightarrow> bool" where
  "recipient_id_shape s \<longleftrightarrow>
     s \<noteq> [] \<and> length s \<le> 32 \<and> (is_lower (hd s) \<or> is_digit (hd s))
     \<and> list_all (\<lambda>c. is_lower c \<or> is_digit c \<or> c = CHR ''-'') s"

definition check_recipient :: "(string \<Rightarrow> bool) \<Rightarrow> recipient \<Rightarrow> notify_error + recipient" where
  "check_recipient bracketed r =
     (if \<not> match_dollar recipient_id_shape (rc_id r) then Inl BadId
      else rbind (validate_name (rc_name r)) (\<lambda>name.
           rbind (validate_target bracketed (rc_kind r) (rc_target r)) (\<lambda>target.
             Inr (r\<lparr>rc_name := name, rc_target := target, rc_events := validate_events (rc_events r)\<rparr>))))"

definition display_target :: "(string \<Rightarrow> bool) \<Rightarrow> recipient \<Rightarrow> py_exn + string" where
  "display_target bracketed r =
     (case rc_kind r of WEBHOOK \<Rightarrow> mask_url bracketed (rc_target r) | EMAIL \<Rightarrow> Inr (rc_target r))"

record event_settings =
  es_check_interval_minutes :: int
  es_debounce_minutes :: int
  es_cert_lead_days :: int

definition default_event_settings :: event_settings where
  "default_event_settings =
     \<lparr>es_check_interval_minutes = 5, es_debounce_minutes = 30, es_cert_lead_days = 14\<rparr>"

definition check_event_settings :: "event_settings \<Rightarrow> notify_error + event_settings" where
  "check_event_settings s =
     (if es_check_interval_minutes s < 1 \<or> 60 < es_check_interval_minutes s
      then Inl (OutOfRange ''check_interval_minutes'')
      else if es_debounce_minutes s < 1 \<or> 1440 < es_debounce_minutes s then Inl (OutOfRange ''debounce_minutes'')
      else if es_cert_lead_days s < 1 \<or> 90 < es_cert_lead_days s then Inl (OutOfRange ''cert_lead_days'')
      else Inr s)"

record notifications_config =
  nc_version :: int
  nc_settings :: event_settings
  nc_recipients :: "recipient list"

definition default_config :: notifications_config where
  "default_config = \<lparr>nc_version = 1, nc_settings = default_event_settings, nc_recipients = []\<rparr>"

text \<open>\<open>NotificationsConfig.model_validate\<close> of a configuration's own dump.\<close>

definition check_config :: "(string \<Rightarrow> bool) \<Rightarrow> notifications_config \<Rightarrow> notify_error + notifications_config" where
  "check_config bracketed c =
     rbind (check_event_settings (nc_settings c)) (\<lambda>s.
     rbind (rmap (check_recipient bracketed) (nc_recipients c)) (\<lambda>rs.
       if length rs > MAX_RECIPIENTS then Inl TooManyRecipients
       else if card (set (map rc_id rs)) \<noteq> length rs then Inl SameId
       else if card (set (map (\<lambda>r. py_lower (rc_name r)) rs)) \<noteq> length rs then Inl SameName
       else Inr (c\<lparr>nc_settings := s, nc_recipients := rs\<rparr>)))"

definition find_recipient :: "notifications_config \<Rightarrow> string \<Rightarrow> recipient option" where
  "find_recipient c i = List.find (\<lambda>r. rc_id r = i) (nc_recipients c)"

definition subscribed_to :: "notifications_config \<Rightarrow> event \<Rightarrow> recipient list" where
  "subscribed_to c e = filter (\<lambda>r. rc_enabled r \<and> e \<in> set (rc_events r)) (nc_recipients c)"

section \<open>Checking twice is checking once\<close>

lemma py_strip_twice [py_str]: "py_strip (py_strip s) = py_strip s"
proof (cases "py_strip s = []")
  case False
  let ?d = "dropWhile is_space s"
  have t: "py_strip s = rev (dropWhile is_space (rev ?d))" by (simp add: py_strip_def)
  from False t have d: "dropWhile is_space (rev ?d) \<noteq> []" by auto
  then have "\<not> is_space (hd (dropWhile is_space (rev ?d)))" by (rule hd_dropWhile)
  then have l: "\<not> is_space (last (py_strip s))" using d t by (simp add: last_rev)
  obtain pre where "rev ?d = pre @ dropWhile is_space (rev ?d)" by (metis takeWhile_dropWhile_id)
  then have "?d = py_strip s @ rev pre" using t by (metis rev_append rev_rev_ident)
  then have "hd (py_strip s) = hd ?d" "?d \<noteq> []" using False by auto
  then have "\<not> is_space (hd (py_strip s))" by (simp add: hd_dropWhile)
  with l False show ?thesis by (intro py_strip_id)
qed simp

lemma validate_name_again: "validate_name v = Inr n \<Longrightarrow> validate_name n = Inr n"
  by (auto simp: validate_name_def Let_def split_ws_normal split: if_splits)

lemma validate_webhook_url_again:
  "validate_webhook_url b v = Inr u \<Longrightarrow> u = py_strip v \<and> validate_webhook_url b u = Inr u"
  by (auto simp: validate_webhook_url_def Let_def py_strip_twice split: if_splits sum.splits)

lemma validate_target_again: "validate_target b k v = Inr t \<Longrightarrow> validate_target b k t = Inr t"
  by (auto simp: validate_target_def validate_recipient_def Let_def py_strip_twice
      dest: validate_webhook_url_again split: target_kind.splits sum.splits if_splits)

lemma validate_events_again [simp]: "validate_events (validate_events es) = validate_events es"
  by (auto simp: validate_events_def intro: filter_cong)

lemma check_recipient_again:
  assumes "check_recipient b r = Inr r'"
  shows "check_recipient b r' = Inr r'" and "rc_id r' = rc_id r"
  using assms by (auto simp: check_recipient_def rbind_eq_Inr validate_name_again validate_target_again
      split: if_splits)

lemma rmap_again:
  assumes "rmap f xs = Inr ys" "\<And>x y. f x = Inr y \<Longrightarrow> f y = Inr y"
  shows "rmap f ys = Inr ys"
  using assms(1)
proof (induction xs arbitrary: ys)
  case (Cons x xs)
  then show ?case by (auto simp: rbind_eq_Inr dest: assms(2))
qed simp

lemma check_event_settings_same: "check_event_settings s = Inr s' \<Longrightarrow> s' = s"
  by (auto simp: check_event_settings_def split: if_splits)

lemma check_config_again:
  assumes "check_config b c = Inr c'"
  shows "check_config b c' = Inr c'"
proof -
  from assms obtain s rs where p: "check_event_settings (nc_settings c) = Inr s"
      "rmap (check_recipient b) (nc_recipients c) = Inr rs"
      "\<not> length rs > MAX_RECIPIENTS" "card (set (map rc_id rs)) = length rs"
      "card (set (map (\<lambda>r. py_lower (rc_name r)) rs)) = length rs"
      "c' = c\<lparr>nc_settings := s, nc_recipients := rs\<rparr>"
    by (auto simp: check_config_def rbind_eq_Inr split: if_splits)
  have "rmap (check_recipient b) rs = Inr rs"
    using p(2) by (rule rmap_again) (rule check_recipient_again(1))
  moreover have "check_event_settings s = Inr s" using p(1) check_event_settings_same by auto
  ultimately show ?thesis using p(3-6) by (simp add: check_config_def)
qed

text \<open>What every checked configuration satisfies.\<close>

definition config_ok :: "notifications_config \<Rightarrow> bool" where
  "config_ok c \<longleftrightarrow>
     length (nc_recipients c) \<le> 50
     \<and> distinct (map rc_id (nc_recipients c))
     \<and> distinct (map (\<lambda>r. py_lower (rc_name r)) (nc_recipients c))
     \<and> list_all (\<lambda>r. rc_name r \<noteq> [] \<and> length (rc_name r) \<le> 60 \<and> sorted (map (\<lambda>e. length (takeWhile (\<lambda>i. ei_event i \<noteq> e) CATALOGUE)) (rc_events r))
          \<and> distinct (rc_events r)) (nc_recipients c)"

lemma validate_events_ordered:
  "distinct (validate_events es) \<and>
   sorted (map (\<lambda>e. length (takeWhile (\<lambda>i. ei_event i \<noteq> e) CATALOGUE)) (validate_events es))"
  by (simp add: validate_events_def CATALOGUE_def)

lemma check_recipient_ok:
  "check_recipient b r = Inr r' \<Longrightarrow> rc_name r' \<noteq> [] \<and> length (rc_name r') \<le> 60
     \<and> rc_events r' = validate_events (rc_events r)"
  by (auto simp: check_recipient_def rbind_eq_Inr validate_name_def MAX_NAME_LENGTH_def Let_def
      split: if_splits)

lemma check_config_ok: 
  assumes "check_config b c = Inr c'"
  shows "config_ok c'"
proof -
  from assms obtain rs where p: "rmap (check_recipient b) (nc_recipients c) = Inr rs"
      "length rs \<le> MAX_RECIPIENTS" "card (set (map rc_id rs)) = length rs"
      "card (set (map (\<lambda>r. py_lower (rc_name r)) rs)) = length rs" "nc_recipients c' = rs"
    by (auto simp: check_config_def rbind_eq_Inr split: if_splits)
  have "distinct (map rc_id rs)" "distinct (map (\<lambda>r. py_lower (rc_name r)) rs)"
    by (rule card_distinct, use p(3,4) in simp)+
  moreover have "rc_name r \<noteq> [] \<and> length (rc_name r) \<le> 60 \<and> (\<exists>es. rc_events r = validate_events es)"
    if "r \<in> set rs" for r
    using rmap_mem [OF p(1) that] check_recipient_ok by blast
  ultimately show ?thesis using p(2,5) validate_events_ordered
    by (force simp: config_ok_def MAX_RECIPIENTS_def list_all_iff)
qed

section \<open>What an accepted webhook URL looks like\<close>

definition authority :: "string \<Rightarrow> string" where
  "authority rest = takeWhile (\<lambda>c. c \<notin> set ''/?#'') rest"

lemma hostname_no_netloc: "u_netloc u = [] \<Longrightarrow> hostname u = None"
  by (simp add: hostname_def hostinfo_def rpartition_char_def)

lemma split_scheme_found:
  assumes "split_scheme url = (scheme, rest)" "scheme \<noteq> []"
  shows "\<exists>head. url = head @ CHR '':'' # rest \<and> scheme = py_lower head"
  using assms by (auto simp: split_scheme_def dest!: partition_char_found split: prod.splits bool.splits if_splits)

lemma urlsplit_plain:
  assumes "urlsplit b url = Inr parts" "list_all (\<lambda>c. \<not> is_space c \<and> 32 \<le> code_of c) url"
    and "u_scheme parts \<noteq> []" "u_netloc parts \<noteq> []"
  shows "\<exists>head rest. url = head @ ''://'' @ rest \<and> u_scheme parts = py_lower head
    \<and> u_netloc parts = authority rest"
proof -
  have printable: "32 < code_of c \<and> c \<notin> {TAB, CR, LF}" if "c \<in> set url" for c
  proof -
    have c: "\<not> is_space c" "32 \<le> code_of c" using that assms(2) by (auto simp: list_all_iff)
    from c have "code_of c \<noteq> 32" by (auto simp: is_space_def)
    then show ?thesis using c by auto
  qed
  have "dropWhile (\<lambda>c. code_of c \<le> (32::nat)) url = url"
  proof (cases url)
    case (Cons a l)
    with printable [of a] show ?thesis by simp
  qed simp
  moreover have "filter (\<lambda>c. c \<notin> {TAB, CR, LF}) url = url"
    using printable by (simp add: filter_id_conv)
  ultimately have clean: "filter (\<lambda>c. c \<notin> {TAB, CR, LF}) (dropWhile (\<lambda>c. code_of c \<le> (32::nat)) url) = url"
    by simp
  obtain scheme rest where sp: "split_scheme url = (scheme, rest)" by fastforce
  from assms(1) have u: "u_scheme parts = scheme"
      "u_netloc parts = (if startswith rest ''//'' then authority (drop 2 rest) else [])"
    unfolding urlsplit_def Let_def clean sp
    by (auto simp: authority_def split: if_splits prod.splits)
  with assms(4) have "startswith rest ''//''" by (simp split: if_splits)
  then obtain rest' where r: "rest = ''//'' @ rest'" by (auto simp: startswith_append)
  from split_scheme_found [OF sp] u(1) assms(3) obtain head where
    "url = head @ CHR '':'' # rest" "scheme = py_lower head" by auto
  with r u show ?thesis by (intro exI [of _ head] exI [of _ rest']) simp
qed

text \<open>An accepted webhook URL is the text that was entered, trimmed; it names \<open>http\<close> or \<open>https\<close>, has a network
  location, and that location carries no login, so no password is stored or sent with it.\<close>

theorem webhook_url_shape:
  assumes "validate_webhook_url b value = Inr url"
  shows "url = py_strip value \<and> length url \<le> 2048 \<and>
    (\<exists>scheme rest. url = scheme @ ''://'' @ rest \<and> py_lower scheme \<in> {''http'', ''https''}
       \<and> authority rest \<noteq> [] \<and> CHR 0x40 \<notin> set (authority rest))"
proof -
  from assms obtain parts where p: "urlsplit b url = Inr parts" "url = py_strip value"
      "length url \<le> MAX_URL_LENGTH" "list_all (\<lambda>c. \<not> is_space c \<and> 32 \<le> code_of c) url"
      "u_scheme parts \<in> {''http'', ''https''}" "hostname parts \<noteq> None" "CHR 0x40 \<notin> set (u_netloc parts)"
    by (auto simp: validate_webhook_url_def Let_def list_ex_iff list_all_iff not_less
        split: if_splits sum.splits)
  have "u_scheme parts \<noteq> []" "u_netloc parts \<noteq> []"
    using p(5,6) hostname_no_netloc by auto
  from urlsplit_plain [OF p(1,4) this] obtain head rest where h: "url = head @ ''://'' @ rest"
      "u_scheme parts = py_lower head" "u_netloc parts = authority rest" by blast
  show ?thesis
    using p(2,3,5,7) h \<open>u_netloc parts \<noteq> []\<close>
    by (intro conjI exI [of _ head] exI [of _ rest]) (simp_all add: MAX_URL_LENGTH_def)
qed

theorem webhook_url_shape_witness:
  "validate_webhook_url (\<lambda>_. False) '' https://hooks.example.org/T1?k=v '' = Inr ''https://hooks.example.org/T1?k=v''
   \<and> validate_webhook_url (\<lambda>_. False) ''https://me:pw@hooks.example.org/'' = Inl UrlLogin
   \<and> (\<exists>scheme rest. ''https://hooks.example.org/T1?k=v'' = scheme @ ''://'' @ rest \<and> authority rest \<noteq> [])"
proof -
  have a: "validate_webhook_url (\<lambda>_. False) '' https://hooks.example.org/T1?k=v '' = Inr ''https://hooks.example.org/T1?k=v''"
    by code_simp
  have b: "validate_webhook_url (\<lambda>_. False) ''https://me:pw@hooks.example.org/'' = Inl UrlLogin"
    by code_simp
  from a b webhook_url_shape [OF a] show ?thesis by blast
qed

end
