(* ===== verification/Ctl.thy ===== *)
theory Ctl
  imports Notify_Model Catalogs Inventory Runner
begin

text \<open>
  The front end of \<open>papaia-ctl\<close> (\<open>core/ctl.py\<close>): the allow-lists, the flags built from a request, the command lines and
  environments of the child processes, and the reader that turns their output into log lines.

  A refusal is a value of \<open>ctl_refusal\<close>, one constructor for each sentence of the source. Starting a process is the
  argument \<open>proc\<close>; the two UTF-8 decoders are the fields of \<open>line_codec\<close>. The output of a child is the list of the chunks
  its pipe delivers.
\<close>

section \<open>Allow-lists\<close>

definition ALLOWED_VERBS :: "string set" where
  "ALLOWED_VERBS =
     {''install'', ''start'', ''stop'', ''remove'', ''uninstall'', ''check'', ''upgrade'', ''rollback''}"

definition ALLOWED_CORE_VERBS :: "string set" where
  "ALLOWED_CORE_VERBS =
     {''backup'', ''backup-delete'', ''start'', ''stop'', ''restore-scoped'', ''keycloak-role-sync''}"

definition ALLOWED_PY_COMMANDS :: "string set" where
  "ALLOWED_PY_COMMANDS =
     {''upgrade-resolve'', ''upgrade-plan'', ''addon-check'', ''doctor'', ''render-preview'', ''module-info'',
      ''node-list'', ''node-keyscan''}"

definition NODE_READ_VERBS :: "string set" where
  "NODE_READ_VERBS = {''ping'', ''version'', ''status'', ''doctor'', ''links''}"

definition NODE_CORE_VERBS :: "(string, string) dict" where
  "NODE_CORE_VERBS = [(''start'', ''compose-up''), (''stop'', ''compose-stop'')]"

definition ALLOWED_PY_WRITE_COMMANDS :: "string set" where
  "ALLOWED_PY_WRITE_COMMANDS = {''setup'', ''module-purge''}"

definition ALLOWED_NODE_COMMANDS :: "string set" where
  "ALLOWED_NODE_COMMANDS =
     {''node-register'', ''node-unregister'', ''node-pin'', ''node-join-bundle'', ''node-push''}"

definition MODULE_SETUP_FLAGS :: "(string, string) dict" where
  "MODULE_SETUP_FLAGS =
     [(''localai'', ''--enable-local-ai''), (''web-search'', ''--enable-web-search''), (''rag'', ''--enable-rag'')]"

definition MODULE_URL_FLAGS :: "(string, string) dict" where
  "MODULE_URL_FLAGS = [(''localai'', ''--localai-host''), (''rag'', ''--qdrant-host'')]"

definition MODULE_URL_LENGTH :: nat where "MODULE_URL_LENGTH = 253"

definition PURGE_MODULES :: "string set" where
  "PURGE_MODULES = {''localai'', ''web-search'', ''rag'', ''mail''}"

definition LOCALAI_VARIANTS :: "string list" where
  "LOCALAI_VARIANTS = [''cpu'', ''nvidia-cuda-12'', ''nvidia-cuda-13'', ''intel'', ''hipblas'']"

definition SMTP_SECURITY_MODES :: "string list" where
  "SMTP_SECURITY_MODES = [''starttls'', ''tls'', ''none'']"

definition SMTP_PASSWORD_ENV :: string where "SMTP_PASSWORD_ENV = ''PAPAIA_SMTP_PASSWORD''"
definition SETUP_TIMEOUT_SECONDS :: nat where "SETUP_TIMEOUT_SECONDS = 120"
definition TIMEOUT_EXIT_CODE :: int where "TIMEOUT_EXIT_CODE = 124"
definition MAX_LINE_BYTES :: nat where "MAX_LINE_BYTES = 1024 * 1024"
definition TRUNCATION_MARKER :: string where "TRUNCATION_MARKER = ''... [truncated]''"
definition MAX_SELECTORS :: nat where "MAX_SELECTORS = 32"

datatype ctl_refusal =
    BadVerb string | BadAddonName string | NoNodeVerb string | BadCommand string
  | NoGroup | BadProfile string | OwnProfile string | LinkingProfile string | UnknownProfile string
  | NoSelection | TooManySelectors nat | BadSelector string | OwnSelector string | UnknownSelector string
  | NotSingleLine string | SwitchOffAlone | NothingToStore | NoLoginTakesNone | MissingSmtp | BadSecurity | BadPort
  | UrlLength | UrlCharacters | UrlNotValid | UrlNotHttp | UrlExtras
  | NotSwitchable string | NoPublicUrl string | OffNoUrl | OnlyLocalAI | OffNoVariant | BadVariant
  | NotPurgeable string | NothingToPurge

text \<open>What a call raises: a \<open>ValueError\<close> before anything runs, or a \<open>CtlError\<close> with its message and exit code.\<close>

datatype ctl_fault = Refused ctl_refusal | CtlError string int

section \<open>Flags\<close>

definition profile_name :: "string \<Rightarrow> bool" where
  "profile_name s \<longleftrightarrow> match_dollar slug_body s"

definition check_profile :: "string set \<Rightarrow> string \<Rightarrow> ctl_refusal + string" where
  "check_profile allowed name =
     (if \<not> profile_name name then Inl (BadProfile name)
      else if name = SELF_PROFILE then Inl (OwnProfile name)
      else if name = LINK_PROFILE then Inl (LinkingProfile name)
      else if name \<notin> allowed then Inl (UnknownProfile name)
      else Inr name)"

definition profiles_flag :: "string list \<Rightarrow> string set \<Rightarrow> ctl_refusal + string" where
  "profiles_flag names allowed =
     (let ordered = sorted_list_of_set (set names)
      in if ordered = [] then Inl NoGroup
         else rbind (rmap (check_profile allowed) ordered) (\<lambda>ns. Inr (''--profiles='' @ join '','' ns)))"

definition module_selector :: "string \<Rightarrow> bool" where
  "module_selector s \<longleftrightarrow>
     list_ex (\<lambda>kind. startswith s (kind @ '':'') \<and> slug_body (drop (length kind + 1) s)) [''module'', ''addon'', ''node'']"

definition is_volume_head :: "char \<Rightarrow> bool" where
  "is_volume_head c \<longleftrightarrow> is_alpha c \<or> is_digit c"

definition volume_body :: "string \<Rightarrow> bool" where
  "volume_body s \<longleftrightarrow>
     (case s of
        [] \<Rightarrow> False
      | c # cs \<Rightarrow> is_volume_head c \<and> list_all (\<lambda>d. is_volume_head d \<or> d \<in> set ''_.-'') cs \<and> length cs \<le> 127)"

definition volume_selector :: "string \<Rightarrow> bool" where
  "volume_selector s \<longleftrightarrow> startswith s ''volume:'' \<and> volume_body (drop 7 s)"

definition check_selector :: "string set \<Rightarrow> string \<Rightarrow> ctl_refusal + string" where
  "check_selector allowed selector =
     (if \<not> (match_dollar module_selector selector \<or> match_dollar volume_selector selector) then Inl (BadSelector selector)
      else if selector = ''module:'' @ SELF_PROFILE then Inl (OwnSelector selector)
      else if selector \<notin> allowed then Inl (UnknownSelector selector)
      else Inr selector)"

definition selection_flag :: "string list \<Rightarrow> string set \<Rightarrow> ctl_refusal + string" where
  "selection_flag selectors allowed =
     (let ordered = sorted_list_of_set (set selectors)
      in if ordered = [] then Inl NoSelection
         else if length ordered > MAX_SELECTORS then Inl (TooManySelectors (length ordered))
         else rbind (rmap (check_selector allowed) ordered) (\<lambda>ss. Inr (''--only='' @ join '','' ss)))"

record smtp_setup =
  ss_enable :: "bool option"
  ss_host :: "string option"
  ss_port :: "int option"
  ss_security :: "string option"
  ss_user :: "string option"
  ss_no_auth :: bool
  ss_sender :: "string option"
  ss_sender_name :: "string option"
  ss_password :: "string option"

definition plain :: "string \<Rightarrow> string \<Rightarrow> ctl_refusal + string" where
  "plain label value =
     (if value = [] \<or> list_ex (\<lambda>c. code_of c < 32 \<or> code_of c = 127) value then Inl (NotSingleLine label) else Inr value)"

definition given_text :: "string option \<Rightarrow> bool" where
  "given_text v \<longleftrightarrow> v \<noteq> None \<and> v \<noteq> Some []"

definition all_unset :: "smtp_setup \<Rightarrow> bool" where
  "all_unset s \<longleftrightarrow>
     ss_host s = None \<and> ss_port s = None \<and> ss_security s = None \<and> ss_user s = None \<and> ss_sender s = None
     \<and> ss_sender_name s = None \<and> ss_password s = None"

definition enable_flags :: "bool option \<Rightarrow> string list" where
  "enable_flags e =
     (case e of None \<Rightarrow> [] | Some b \<Rightarrow> [''--enable-smtp='' @ (if b then ''true'' else ''false'')])"

definition login_flags :: "smtp_setup \<Rightarrow> ctl_refusal + string list" where
  "login_flags s =
     (if ss_no_auth s then Inr [''--smtp-no-auth'']
      else case ss_user s of
          Some u \<Rightarrow> if u = [] then Inr [] else rbind (plain ''login'' u) (\<lambda>v. Inr [''--smtp-user='' @ v])
        | None \<Rightarrow> Inr [])"

definition smtp_setup_flags :: "smtp_setup \<Rightarrow> ctl_refusal + string list" where
  "smtp_setup_flags s =
     (if ss_enable s = Some False then
        (if ss_no_auth s \<or> \<not> all_unset s then Inl SwitchOffAlone else Inr (enable_flags (ss_enable s)))
      else if \<not> ss_no_auth s \<and> all_unset s then
        (if ss_enable s = None then Inl NothingToStore else Inr (enable_flags (ss_enable s)))
      else if ss_no_auth s \<and> (given_text (ss_user s) \<or> given_text (ss_password s)) then Inl NoLoginTakesNone
      else case (ss_host s, ss_security s, ss_port s, ss_sender s) of
          (Some host, Some security, Some pnum, Some sender) \<Rightarrow>
            if security \<notin> set SMTP_SECURITY_MODES then Inl BadSecurity
            else if \<not> (1 \<le> pnum \<and> pnum \<le> 65535) then Inl BadPort
            else rbind (plain ''host'' host) (\<lambda>h.
                 rbind (login_flags s) (\<lambda>login.
                 rbind (plain ''sender address'' sender) (\<lambda>from.
                 rbind (case ss_sender_name s of
                          None \<Rightarrow> Inr []
                        | Some n \<Rightarrow> rbind (plain ''sender name'' n) (\<lambda>v. Inr [''--smtp-from-name='' @ v])) (\<lambda>name.
                 Inr (enable_flags (ss_enable s)
                      @ [''--smtp-host='' @ h, ''--smtp-port='' @ str_of_int pnum, ''--smtp-security='' @ security]
                      @ login @ [''--smtp-from='' @ from] @ name)))))
        | _ \<Rightarrow> Inl MissingSmtp)"

record module_setup =
  mu_module :: string
  mu_enable :: bool
  mu_variant :: "string option"
  mu_public_url :: "string option"

text \<open>The characters the \<open>.env\<close> file would read as something else: number sign, dollar, quotes, backslash, backquote.\<close>

definition env_unsafe :: "char list" where
  "env_unsafe = [CHR 0x23, CHR 0x24, CHR 0x22, CHR 0x27, CHR 0x5C, CHR 0x60]"

definition rstrip_char :: "char \<Rightarrow> string \<Rightarrow> string" where
  "rstrip_char c s = rev (dropWhile (\<lambda>d. d = c) (rev s))"

definition public_url :: "(string \<Rightarrow> bool) \<Rightarrow> string \<Rightarrow> ctl_refusal + string" where
  "public_url bracketed value =
     (let text = py_strip value
      in if text = [] \<or> length text > MODULE_URL_LENGTH then Inl UrlLength
         else if list_ex (\<lambda>c. code_of c < 33 \<or> code_of c = 127 \<or> c \<in> set env_unsafe) text then Inl UrlCharacters
         else case urlsplit bracketed text of
             Inl _ \<Rightarrow> Inl UrlNotValid
           | Inr parts \<Rightarrow>
               (case port parts of
                  Inl _ \<Rightarrow> Inl UrlNotValid
                | Inr _ \<Rightarrow>
                    if u_scheme parts \<notin> {''http'', ''https''} \<or> hostname parts = None then Inl UrlNotHttp
                    else if fst (userinfo parts) \<noteq> None \<or> snd (userinfo parts) \<noteq> None \<or> u_query parts \<noteq> [] then Inl UrlExtras
                    else Inr (if u_path parts \<in> {[], ''/''} then rstrip_char (CHR 0x2F) text else text)))"

definition module_setup_flags :: "(string \<Rightarrow> bool) \<Rightarrow> module_setup \<Rightarrow> ctl_refusal + string list" where
  "module_setup_flags bracketed s =
     (case dict_get MODULE_SETUP_FLAGS (mu_module s) of
        None \<Rightarrow> Inl (NotSwitchable (mu_module s))
      | Some flag \<Rightarrow>
          rbind (case mu_public_url s of
                   None \<Rightarrow> Inr []
                 | Some url \<Rightarrow>
                     (case dict_get MODULE_URL_FLAGS (mu_module s) of
                        None \<Rightarrow> Inl (NoPublicUrl (mu_module s))
                      | Some url_flag \<Rightarrow>
                          if \<not> mu_enable s then Inl OffNoUrl
                          else rbind (public_url bracketed url) (\<lambda>u. Inr [url_flag @ ''='' @ u]))) (\<lambda>urls.
          let flags = (flag @ (if mu_enable s then ''=true'' else ''=false'')) # urls
          in if mu_module s \<noteq> ''localai'' then (if mu_variant s \<noteq> None then Inl OnlyLocalAI else Inr flags)
             else if \<not> mu_enable s then (if mu_variant s \<noteq> None then Inl OffNoVariant else Inr flags)
             else (case mu_variant s of
                     Some v \<Rightarrow> if v \<in> set LOCALAI_VARIANTS then Inr (flags @ [''--localai-variant='' @ v]) else Inl BadVariant
                   | None \<Rightarrow> Inl BadVariant)))"

definition purge_module :: "string \<Rightarrow> ctl_refusal + string" where
  "purge_module name = (if name \<in> PURGE_MODULES then Inr name else Inl (NotPurgeable name))"

definition module_purge_flags :: "string \<Rightarrow> bool \<Rightarrow> bool \<Rightarrow> ctl_refusal + string list" where
  "module_purge_flags name data config =
     (if \<not> (data \<or> config) then Inl NothingToPurge
      else rbind (purge_module name) (\<lambda>m.
        Inr ((''--module='' @ m) # (if data then [''--data''] else []) @ (if config then [''--config''] else []))))"

section \<open>Command lines and environments\<close>

type_synonym env = "(string, string) dict"

definition with_config_dir :: "env \<Rightarrow> string \<Rightarrow> env" where
  "with_config_dir environ config_dir = dict_set environ ''PAPAIA_CONFIG_DIR'' config_dir"

text \<open>\<open>dict.update\<close>.\<close>

definition dict_update :: "('k, 'v) dict \<Rightarrow> ('k, 'v) dict \<Rightarrow> ('k, 'v) dict" where
  "dict_update d more_entries = foldl (\<lambda>m kv. dict_set m (fst kv) (snd kv)) d more_entries"

definition addon_verb_cmd ::
  "env \<Rightarrow> string \<Rightarrow> string \<Rightarrow> string \<Rightarrow> string \<Rightarrow> string list \<Rightarrow> env \<Rightarrow> ctl_refusal + string list \<times> env" where
  "addon_verb_cmd environ verb name workspace_dir config_dir extra_flags env_override =
     (if verb \<notin> ALLOWED_VERBS then Inl (BadVerb verb)
      else if \<not> match_dollar slug_body name then Inl (BadAddonName name)
      else Inr ([''bash'', papaia_ctl_path workspace_dir, ''addon'', verb, name, ''--config-dir='' @ config_dir] @ extra_flags,
                dict_update (with_config_dir environ config_dir) env_override))"

definition repo_root_of :: "string \<Rightarrow> string" where
  "repo_root_of workspace_dir = path_join workspace_dir ''papaia''"

definition node_exec_cmd :: "string \<Rightarrow> string list \<Rightarrow> string \<Rightarrow> string \<Rightarrow> string list" where
  "node_exec_cmd node words workspace_dir config_dir =
     [''python3'', ''-m'', ''lib.cli'', ''--repo-root'', repo_root_of workspace_dir, ''--config-dir'', config_dir,
      ''node-exec'', ''--name='' @ node] @ words"

definition py_env :: "env \<Rightarrow> string \<Rightarrow> string \<Rightarrow> env" where
  "py_env environ workspace_dir config_dir =
     (let tools = path_join (repo_root_of workspace_dir) ''tools'';
          env = with_config_dir (dict_del environ SMTP_PASSWORD_ENV) config_dir;
          existing = (case dict_get env ''PYTHONPATH'' of None \<Rightarrow> [] | Some v \<Rightarrow> v)
      in dict_set env ''PYTHONPATH'' (if existing = [] then tools else tools @ '':'' @ existing))"

definition core_verb_cmd ::
  "env \<Rightarrow> string \<Rightarrow> string \<Rightarrow> string \<Rightarrow> string list \<Rightarrow> string option \<Rightarrow> ctl_refusal + string list \<times> env" where
  "core_verb_cmd environ verb workspace_dir config_dir extra_flags node =
     (if verb \<notin> ALLOWED_CORE_VERBS then Inl (BadVerb verb)
      else case node of
          Some n \<Rightarrow>
            (case dict_get NODE_CORE_VERBS verb of
               None \<Rightarrow> Inl (NoNodeVerb verb)
             | Some word \<Rightarrow> Inr (node_exec_cmd n (word # extra_flags) workspace_dir config_dir, py_env environ workspace_dir config_dir))
        | None \<Rightarrow>
            Inr ([''bash'', papaia_ctl_path workspace_dir, verb, ''--config-dir='' @ config_dir] @ extra_flags,
                 with_config_dir environ config_dir))"

definition py_cmd :: "string \<Rightarrow> string \<Rightarrow> string \<Rightarrow> string option \<Rightarrow> string list \<Rightarrow> string list" where
  "py_cmd command workspace_dir config_dir repo_root extra_flags =
     [''python3'', ''-m'', ''lib.cli'', ''--repo-root'',
      (case repo_root of Some r \<Rightarrow> if r = [] then repo_root_of workspace_dir else r | None \<Rightarrow> repo_root_of workspace_dir),
      ''--config-dir'', config_dir, command] @ extra_flags"

text \<open>How a child ended: it could not be started, it outlived its limit and was killed, or it exited.\<close>

datatype child = NotInvoked string | Killed | Ended "int option" string string

type_synonym 'w spawn = "string list \<times> env \<Rightarrow> nat option \<Rightarrow> 'w \<Rightarrow> child \<times> 'w"

type_synonym py_answer = "int \<times> string \<times> string"

text \<open>What \<open>_run_py\<close> makes of the end of the child.\<close>

definition child_answer :: "string \<Rightarrow> nat option \<Rightarrow> child \<Rightarrow> ctl_fault + py_answer" where
  "child_answer command limit c =
     (case c of
        NotInvoked e \<Rightarrow> Inl (CtlError (''cannot invoke the core's python entry point: '' @ e) 1)
      | Killed \<Rightarrow>
          Inl (CtlError (''python3 -m lib.cli '' @ command @ '' timed out after ''
                 @ (case limit of Some n \<Rightarrow> str_of_nat n | None \<Rightarrow> []) @ ''s'') TIMEOUT_EXIT_CODE)
      | Ended code out err \<Rightarrow> Inr (case code of Some n \<Rightarrow> n | None \<Rightarrow> 1, out, err))"

definition run_py ::
  "'w spawn \<Rightarrow> env \<Rightarrow> string \<Rightarrow> string \<Rightarrow> string \<Rightarrow> string option \<Rightarrow> string list \<Rightarrow> nat option \<Rightarrow> env \<Rightarrow> 'w
    \<Rightarrow> (ctl_fault + py_answer) \<times> 'w" where
  "run_py proc environ command workspace_dir config_dir repo_root extra_flags limit env_extra w =
     map_prod (child_answer command limit) (\<lambda>w'. w')
       (proc (py_cmd command workspace_dir config_dir repo_root extra_flags,
              dict_update (py_env environ workspace_dir config_dir) env_extra) limit w)"

definition refused :: "ctl_refusal \<Rightarrow> 'w \<Rightarrow> (ctl_fault + 'a) \<times> 'w" where
  "refused e w = (Inl (Refused e), w)"

definition run_py_cli ::
  "'w spawn \<Rightarrow> env \<Rightarrow> string \<Rightarrow> string \<Rightarrow> string \<Rightarrow> string option \<Rightarrow> string list \<Rightarrow> nat option \<Rightarrow> string option \<Rightarrow> 'w
    \<Rightarrow> (ctl_fault + py_answer) \<times> 'w" where
  "run_py_cli proc environ command workspace_dir config_dir repo_root extra_flags limit node w =
     (case node of
        Some n \<Rightarrow>
          if command \<notin> NODE_READ_VERBS then refused (BadCommand command) w
          else run_py proc environ ''node-exec'' workspace_dir config_dir None [''--name='' @ n, command] limit [] w
      | None \<Rightarrow>
          if command \<notin> ALLOWED_PY_COMMANDS then refused (BadCommand command) w
          else run_py proc environ command workspace_dir config_dir repo_root extra_flags limit [] w)"

definition run_smtp_setup ::
  "'w spawn \<Rightarrow> env \<Rightarrow> smtp_setup \<Rightarrow> string \<Rightarrow> string \<Rightarrow> 'w \<Rightarrow> (ctl_fault + py_answer) \<times> 'w" where
  "run_smtp_setup proc environ spec workspace_dir config_dir w =
     (case smtp_setup_flags spec of
        Inl e \<Rightarrow> refused e w
      | Inr flags \<Rightarrow>
          run_py proc environ ''setup'' workspace_dir config_dir None flags (Some SETUP_TIMEOUT_SECONDS)
            [(SMTP_PASSWORD_ENV, case ss_password spec of None \<Rightarrow> [] | Some p \<Rightarrow> p)] w)"

definition run_module_setup ::
  "'w spawn \<Rightarrow> env \<Rightarrow> (string \<Rightarrow> bool) \<Rightarrow> module_setup \<Rightarrow> string \<Rightarrow> string \<Rightarrow> 'w \<Rightarrow> (ctl_fault + py_answer) \<times> 'w" where
  "run_module_setup proc environ bracketed spec workspace_dir config_dir w =
     (case module_setup_flags bracketed spec of
        Inl e \<Rightarrow> refused e w
      | Inr flags \<Rightarrow> run_py proc environ ''setup'' workspace_dir config_dir None flags (Some SETUP_TIMEOUT_SECONDS) [] w)"

definition run_module_info ::
  "'w spawn \<Rightarrow> env \<Rightarrow> string \<Rightarrow> string \<Rightarrow> string \<Rightarrow> 'w \<Rightarrow> (ctl_fault + py_answer) \<times> 'w" where
  "run_module_info proc environ name workspace_dir config_dir w =
     (case purge_module name of
        Inl e \<Rightarrow> refused e w
      | Inr m \<Rightarrow>
          run_py_cli proc environ ''module-info'' workspace_dir config_dir None [''--module='' @ m]
            (Some SETUP_TIMEOUT_SECONDS) None w)"

definition run_module_purge ::
  "'w spawn \<Rightarrow> env \<Rightarrow> string \<Rightarrow> bool \<Rightarrow> bool \<Rightarrow> string \<Rightarrow> string \<Rightarrow> 'w \<Rightarrow> (ctl_fault + py_answer) \<times> 'w" where
  "run_module_purge proc environ name data config workspace_dir config_dir w =
     (case module_purge_flags name data config of
        Inl e \<Rightarrow> refused e w
      | Inr flags \<Rightarrow> run_py proc environ ''module-purge'' workspace_dir config_dir None flags (Some SETUP_TIMEOUT_SECONDS) [] w)"

definition run_node_command ::
  "'w spawn \<Rightarrow> env \<Rightarrow> string \<Rightarrow> string \<Rightarrow> string \<Rightarrow> string list \<Rightarrow> nat option \<Rightarrow> 'w \<Rightarrow> (ctl_fault + py_answer) \<times> 'w" where
  "run_node_command proc environ command workspace_dir config_dir extra_flags limit w =
     (if command \<notin> ALLOWED_NODE_COMMANDS then refused (BadCommand command) w
      else run_py proc environ command workspace_dir config_dir None extra_flags limit [] w)"

section \<open>Reading the output line by line\<close>

record line_codec =
  lc_decode :: "string \<Rightarrow> string"
  lc_partial :: "string \<Rightarrow> string"

definition py_rstrip :: "string \<Rightarrow> string" where
  "py_rstrip s = rev (dropWhile is_space (rev s))"

definition clip_line :: "line_codec \<Rightarrow> string \<Rightarrow> string" where
  "clip_line K head = lc_partial K head @ TRUNCATION_MARKER"

definition whole_line :: "line_codec \<Rightarrow> string \<Rightarrow> string" where
  "whole_line K line = py_rstrip (lc_decode K line)"

text \<open>The local variables of the reader, and \<open>pending.find(b"\n", search_from)\<close>.\<close>

record line_reader =
  lr_pending :: string
  lr_search_from :: nat
  lr_dropping :: bool

definition find_newline :: "string \<Rightarrow> nat \<Rightarrow> nat option" where
  "find_newline s from =
     (if LF \<in> set (drop from s) then Some (from + length (takeWhile (\<lambda>c. c \<noteq> LF) (drop from s))) else None)"

lemma find_newline_bound: "find_newline s from = Some i \<Longrightarrow> i < length s"
proof -
  assume a: "find_newline s from = Some i"
  then have "LF \<in> set (drop from s)" "i = from + length (takeWhile (\<lambda>c. c \<noteq> LF) (drop from s))"
    by (auto simp: find_newline_def split: if_splits)
  moreover from this have "length (takeWhile (\<lambda>c. c \<noteq> LF) (drop from s)) < length (drop from s)"
    by (metis (mono_tags, lifting) length_takeWhile_le nat_less_le set_takeWhileD takeWhile_eq_take take_all_iff order_refl)
  ultimately show ?thesis by simp
qed

function drain :: "line_codec \<Rightarrow> string \<Rightarrow> nat \<Rightarrow> bool \<Rightarrow> string list \<times> line_reader" where
  "drain K pending search_from dropping =
     (case find_newline pending search_from of
        None \<Rightarrow>
          if dropping then ([], \<lparr>lr_pending = [], lr_search_from = 0, lr_dropping = True\<rparr>)
          else if length pending > MAX_LINE_BYTES
          then ([clip_line K (take MAX_LINE_BYTES pending)], \<lparr>lr_pending = [], lr_search_from = 0, lr_dropping = True\<rparr>)
          else ([], \<lparr>lr_pending = pending, lr_search_from = length pending, lr_dropping = False\<rparr>)
      | Some i \<Rightarrow>
          (case drain K (drop (i + 1) pending) 0 False of
             (lines, r) \<Rightarrow>
               if dropping then (lines, r)
               else ((let line = take i pending
                      in if length line > MAX_LINE_BYTES then clip_line K (take MAX_LINE_BYTES line) else whole_line K line)
                     # lines, r)))"
  by pat_completeness auto

termination
  by (relation "measure (\<lambda>(K, pending, from, dropping). length pending)") (auto dest: find_newline_bound)

declare drain.simps [simp del]

fun stream_chunks :: "line_codec \<Rightarrow> string list \<Rightarrow> line_reader \<Rightarrow> string list" where
  "stream_chunks K [] r =
     (if lr_pending r \<noteq> [] \<and> \<not> lr_dropping r then [whole_line K (lr_pending r)] else [])"
| "stream_chunks K (raw # chunks) r =
     (case drain K (lr_pending r @ raw) (lr_search_from r) (lr_dropping r) of
        (lines, r') \<Rightarrow> lines @ stream_chunks K chunks r')"

definition new_reader :: line_reader where
  "new_reader = \<lparr>lr_pending = [], lr_search_from = 0, lr_dropping = False\<rparr>"

text \<open>
  \<open>_stream_subprocess\<close>: the lines it yields, then how it ends. \<open>output\<close> is what the pipe delivers up to the empty read that
  ends the loop.
\<close>

definition stream_subprocess :: "line_codec \<Rightarrow> string list \<Rightarrow> int option \<Rightarrow> string list \<times> (ctl_fault + unit)" where
  "stream_subprocess K output code =
     (stream_chunks K (takeWhile (\<lambda>raw. raw \<noteq> []) output) new_reader,
      if code = Some 0 then Inr ()
      else let c = (case code of Some n \<Rightarrow> n | None \<Rightarrow> 1)
           in Inl (CtlError (''papaia-ctl exited with code '' @ str_of_int c) c))"

section \<open>What the reader computes\<close>

text \<open>
  The reference: the whole output split at its line feeds, a last line without one included when it is not empty, and each
  line shown whole or, past the limit, by its head and the marker.
\<close>

definition show_line :: "line_codec \<Rightarrow> string \<Rightarrow> string" where
  "show_line K line =
     (if length line > MAX_LINE_BYTES then clip_line K (take MAX_LINE_BYTES line) else whole_line K line)"

definition output_lines :: "string \<Rightarrow> string list" where
  "output_lines s = (let parts = split_char LF s in if last parts = [] then butlast parts else parts)"

lemma output_lines_Nil [simp]: "output_lines [] = []"
  by (simp add: output_lines_def)

lemma output_lines_append: "LF \<notin> set line \<Longrightarrow> output_lines (line @ LF # rest) = line # output_lines rest"
  by (simp add: output_lines_def split_char_append Let_def)

lemma output_lines_last: "LF \<notin> set line \<Longrightarrow> output_lines line = (if line = [] then [] else [line])"
  by (simp add: output_lines_def split_char_clean Let_def)

lemma find_newline_None:
  "LF \<notin> set (take from s) \<Longrightarrow> find_newline s from = None \<longleftrightarrow> LF \<notin> set s"
  by (metis (no_types, lifting) Un_iff append_take_drop_id find_newline_def option.distinct(1) set_append)

lemma takeWhile_until: "c \<notin> set a \<Longrightarrow> takeWhile (\<lambda>d. d \<noteq> c) (a @ c # z) = a"
  by (induction a) auto

lemma find_newline_Some:
  assumes "LF \<notin> set (take from s)" "find_newline s from = Some i"
  shows "s = take i s @ LF # drop (i + 1) s" "LF \<notin> set (take i s)"
proof -
  from assms(2) have lf: "LF \<in> set (drop from s)"
      and i: "i = from + length (takeWhile (\<lambda>c. c \<noteq> LF) (drop from s))"
    by (auto simp: find_newline_def split: if_splits)
  from split_list_first [OF lf] obtain a z where az: "drop from s = a @ LF # z" "LF \<notin> set a" by blast
  then have "takeWhile (\<lambda>c. c \<noteq> LF) (drop from s) = a" by (simp add: takeWhile_until)
  with i have ia: "i = from + length a" by simp
  have "from \<le> length s" using lf by (cases "from \<le> length s") auto
  moreover have "s = (take from s @ a) @ LF # z" using az(1) by (metis append.assoc append_take_drop_id)
  ultimately have s: "take i s = take from s @ a" "drop (i + 1) s = z"
    using ia by (metis append_eq_conv_conj length_append length_take min.absorb2,
      metis append_eq_conv_conj length_append length_take min.absorb2 drop_Suc_Cons Suc_eq_plus1 drop_drop drop0
        add.commute plus_1_eq_Suc)
  then show "s = take i s @ LF # drop (i + 1) s" using \<open>s = (take from s @ a) @ LF # z\<close> by simp
  show "LF \<notin> set (take i s)" using s(1) assms(1) az(2) by auto
qed

text \<open>What the reader still owes for the bytes it holds and the bytes \<open>more_bytes\<close> that come.\<close>

definition owed :: "line_codec \<Rightarrow> line_reader \<Rightarrow> string \<Rightarrow> string list" where
  "owed K r more_bytes =
     (if lr_dropping r
      then (case find_newline (lr_pending r @ more_bytes) 0 of
              None \<Rightarrow> []
            | Some i \<Rightarrow> map (show_line K) (output_lines (drop (i + 1) (lr_pending r @ more_bytes))))
      else map (show_line K) (output_lines (lr_pending r @ more_bytes)))"

definition reader_ok :: "line_reader \<Rightarrow> bool" where
  "reader_ok r \<longleftrightarrow> LF \<notin> set (lr_pending r) \<and> length (lr_pending r) \<le> MAX_LINE_BYTES
     \<and> lr_search_from r \<le> length (lr_pending r) \<and> (lr_dropping r \<longrightarrow> lr_pending r = [])"

lemma show_line_long: "length a > MAX_LINE_BYTES \<Longrightarrow> show_line K (a @ b) = clip_line K (take MAX_LINE_BYTES a)"
  by (simp add: show_line_def)

lemma owed_split:
  assumes "LF \<notin> set (take from p)" "find_newline p from = Some i"
  shows "owed K \<lparr>lr_pending = p, lr_search_from = from, lr_dropping = False\<rparr> m
      = show_line K (take i p) # owed K \<lparr>lr_pending = drop (i + 1) p, lr_search_from = 0, lr_dropping = False\<rparr> m"
    and "owed K \<lparr>lr_pending = p, lr_search_from = from, lr_dropping = True\<rparr> m
      = owed K \<lparr>lr_pending = drop (i + 1) p, lr_search_from = 0, lr_dropping = False\<rparr> m"
proof -
  note split = find_newline_Some [OF assms]
  have whole: "p @ m = take i p @ LF # (drop (i + 1) p @ m)" using split(1) by (metis append.assoc append_Cons)
  have "output_lines (p @ m) = take i p # output_lines (drop (i + 1) p @ m)"
    unfolding whole by (rule output_lines_append [OF split(2)])
  then show "owed K \<lparr>lr_pending = p, lr_search_from = from, lr_dropping = False\<rparr> m
      = show_line K (take i p) # owed K \<lparr>lr_pending = drop (i + 1) p, lr_search_from = 0, lr_dropping = False\<rparr> m"
    by (simp add: owed_def)
  have len: "length (take i p) = i" using find_newline_bound [OF assms(2)] by simp
  have "find_newline (p @ m) 0 = Some i"
    unfolding whole using takeWhile_until [OF split(2)] len by (simp add: find_newline_def)
  moreover have "drop (i + 1) (p @ m) = drop (i + 1) p @ m" using find_newline_bound [OF assms(2)] by simp
  ultimately show "owed K \<lparr>lr_pending = p, lr_search_from = from, lr_dropping = True\<rparr> m
      = owed K \<lparr>lr_pending = drop (i + 1) p, lr_search_from = 0, lr_dropping = False\<rparr> m"
    by (simp add: owed_def)
qed

text \<open>One pass over the bytes at hand yields lines it owed and leaves a bounded rest.\<close>

lemma drain_owed:
  assumes "drain K pending search_from dropping = (lines, r)" "LF \<notin> set (take search_from pending)"
  shows "owed K \<lparr>lr_pending = pending, lr_search_from = search_from, lr_dropping = dropping\<rparr> m = lines @ owed K r m
    \<and> reader_ok r"
  using assms
proof (induction K pending search_from dropping arbitrary: lines r rule: drain.induct)
  case (1 K pending search_from dropping)
  show ?case
  proof (cases "find_newline pending search_from")
    case None
    then have no: "LF \<notin> set pending" using find_newline_None [OF 1(3)] by simp
    show ?thesis
    proof (cases "dropping \<or> length pending > MAX_LINE_BYTES")
      case True
      have skip: "owed K \<lparr>lr_pending = pending, lr_search_from = search_from, lr_dropping = True\<rparr> m
          = owed K \<lparr>lr_pending = [], lr_search_from = 0, lr_dropping = True\<rparr> m"
      proof (cases "LF \<in> set m")
        case True
        from split_list_first [OF this] obtain a z where m: "m = a @ LF # z" "LF \<notin> set a" by blast
        then show ?thesis using no takeWhile_until [of LF a z] takeWhile_until [of LF "pending @ a" z]
          by (simp add: owed_def find_newline_def)
      qed (use no in \<open>simp add: owed_def find_newline_def\<close>)
      have long: "owed K \<lparr>lr_pending = pending, lr_search_from = search_from, lr_dropping = False\<rparr> m
          = clip_line K (take MAX_LINE_BYTES pending) # owed K \<lparr>lr_pending = [], lr_search_from = 0, lr_dropping = True\<rparr> m"
        if "length pending > MAX_LINE_BYTES"
      proof (cases "LF \<in> set m")
        case True
        from split_list_first [OF this] obtain a z where m: "m = a @ LF # z" "LF \<notin> set a" by blast
        then have "output_lines (pending @ m) = (pending @ a) # output_lines z"
          using no output_lines_append [of "pending @ a" z] by simp
        then show ?thesis using m that takeWhile_until [of LF a z]
          by (simp add: owed_def find_newline_def show_line_long)
      next
        case False
        then have "output_lines (pending @ m) = [pending @ m]" using no that output_lines_last [of "pending @ m"] by auto
        then show ?thesis using False that by (simp add: owed_def find_newline_def show_line_long)
      qed
      show ?thesis
        using 1(2) None True skip long by (auto simp: drain.simps [of K pending] reader_ok_def split: if_splits)
    qed (use 1(2) None no in \<open>auto simp: drain.simps [of K pending] reader_ok_def owed_def\<close>)
  next
    case (Some i)
    obtain ls r1 where d: "drain K (drop (i + 1) pending) 0 False = (ls, r1)" by fastforce
    with 1(1) [OF Some d] show ?thesis
      using 1(2) Some owed_split [OF 1(3) Some]
      by (auto simp: drain.simps [of K pending] show_line_def split: if_splits)
  qed
qed

lemma reader_ok_take:
  assumes "reader_ok r"
  shows "LF \<notin> set (take (lr_search_from r) (lr_pending r @ raw))"
  using assms by (auto simp: reader_ok_def dest: in_set_takeD)

lemma reader_ok_new: "reader_ok new_reader"
  by (simp add: reader_ok_def new_reader_def)

lemma stream_owed: "reader_ok r \<Longrightarrow> stream_chunks K chunks r = owed K r (concat chunks)"
proof (induction chunks arbitrary: r)
  case Nil
  then show ?case
    by (auto simp: owed_def reader_ok_def find_newline_def output_lines_last show_line_def)
next
  case (Cons raw chunks)
  obtain ls r1 where d: "drain K (lr_pending r @ raw) (lr_search_from r) (lr_dropping r) = (ls, r1)" by fastforce
  note step = drain_owed [OF d reader_ok_take [OF Cons.prems], of "concat chunks"]
  have "owed K \<lparr>lr_pending = lr_pending r @ raw, lr_search_from = lr_search_from r, lr_dropping = lr_dropping r\<rparr> (concat chunks)
      = owed K r (concat (raw # chunks))" by (simp add: owed_def cong: option.case_cong)
  then show ?case using d step Cons.IH by simp
qed

lemma stream_equals_lines:
  "fst (stream_subprocess K output code)
     = map (show_line K) (output_lines (concat (takeWhile (\<lambda>raw. raw \<noteq> []) output)))"
  by (simp add: stream_subprocess_def stream_owed [OF reader_ok_new]) (simp add: owed_def new_reader_def)

text \<open>C31: 
  However the pipe cuts the output into chunks, and wherever an over-long line ends, the reader yields exactly the lines of
  the whole output: nothing is lost, split or joined, only the tail of a line past the limit is replaced by the marker.
\<close>

theorem stream_equals_split:
  "fst (stream_subprocess K output code)
     = map (show_line K) (output_lines (concat (takeWhile (\<lambda>raw. raw \<noteq> []) output)))"
  by (rule stream_equals_lines)

text \<open>The reader after some chunks.\<close>

fun reader_after :: "line_codec \<Rightarrow> string list \<Rightarrow> line_reader \<Rightarrow> line_reader" where
  "reader_after K [] r = r"
| "reader_after K (raw # chunks) r =
     reader_after K chunks (snd (drain K (lr_pending r @ raw) (lr_search_from r) (lr_dropping r)))"

lemma reader_after_ok: "reader_ok r \<Longrightarrow> reader_ok (reader_after K chunks r)"
proof (induction chunks arbitrary: r)
  case (Cons raw chunks)
  obtain ls r1 where d: "drain K (lr_pending r @ raw) (lr_search_from r) (lr_dropping r) = (ls, r1)" by fastforce
  with drain_owed [OF d reader_ok_take [OF Cons.prems]] Cons.IH show ?case by simp
qed simp

lemma py_rstrip_length: "length (py_rstrip s) \<le> length s"
  by (simp add: py_rstrip_def) (metis length_dropWhile_le length_rev)

text \<open>
  An endless line costs neither memory nor log: between two reads at most \<open>MAX_LINE_BYTES\<close> bytes are held, and no line that
  is yielded has more characters than that and the marker, for decoders that make at most one character of a byte.
\<close>

theorem stream_bounded:
  assumes "\<And>s. length (lc_decode K s) \<le> length s" "\<And>s. length (lc_partial K s) \<le> length s"
  shows "length (lr_pending (reader_after K chunks new_reader)) \<le> MAX_LINE_BYTES
    \<and> (\<forall>line \<in> set (fst (stream_subprocess K chunks code)). length line \<le> MAX_LINE_BYTES + length TRUNCATION_MARKER)"
proof
  show "length (lr_pending (reader_after K chunks new_reader)) \<le> MAX_LINE_BYTES"
    using reader_after_ok [OF reader_ok_new, of K chunks] by (simp add: reader_ok_def)
  have "length (show_line K l) \<le> MAX_LINE_BYTES + length TRUNCATION_MARKER" for l
  proof (cases "length l > MAX_LINE_BYTES")
    case True
    then show ?thesis using assms(2) [of "take MAX_LINE_BYTES l"] by (simp add: show_line_def clip_line_def)
  next
    case False
    have "length (whole_line K l) \<le> length l"
      unfolding whole_line_def by (rule le_trans [OF py_rstrip_length assms(1)])
    then show ?thesis using False by (simp add: show_line_def)
  qed
  then show "\<forall>line \<in> set (fst (stream_subprocess K chunks code)). length line \<le> MAX_LINE_BYTES + length TRUNCATION_MARKER"
    by (auto simp: stream_equals_lines)
qed

section \<open>Flags name what was checked\<close>

text \<open>
  Both flags are built the same way: every name passes a check that gives it back, and the names are joined by commas. What
  the flag names can then be read off it again.
\<close>

locale checked_flag =
  fixes check :: "string \<Rightarrow> ctl_refusal + string" and good :: "string \<Rightarrow> bool"
  assumes check_gives: "check x = Inr y \<Longrightarrow> y = x \<and> good x \<and> CHR '','' \<notin> set x"
begin

lemma checked_names: "rmap check xs = Inr ys \<Longrightarrow> ys = xs \<and> list_all good xs \<and> (\<forall>x \<in> set xs. CHR '','' \<notin> set x)"
proof (induction xs arbitrary: ys)
  case (Cons x xs)
  from Cons.prems obtain y ys' where y: "check x = Inr y" "rmap check xs = Inr ys'" "ys = y # ys'"
    by (auto elim!: rbindE)
  then show ?case using check_gives [OF y(1)] Cons.IH [OF y(2)] by simp
qed simp

lemma flag_exact:
  assumes "rbind (rmap check xs) (\<lambda>ns. Inr (prefix_text @ join '','' ns)) = Inr flag" "xs \<noteq> []"
  shows "\<exists>names. flag = prefix_text @ names \<and> split_char (CHR '','') names = xs" "list_all good xs"
proof -
  from assms(1) obtain ys where ys: "rmap check xs = Inr ys" "flag = prefix_text @ join '','' ys" by (auto elim!: rbindE)
  then show "\<exists>names. flag = prefix_text @ names \<and> split_char (CHR '','') names = xs"
    using checked_names [OF ys(1)] assms(2) by (auto simp: split_char_join)
  show "list_all good xs" using checked_names [OF ys(1)] by simp
qed

end

lemma slug_no_comma: "match_dollar slug_body s \<Longrightarrow> CHR '','' \<notin> set s"
proof -
  have *: "slug_body t \<Longrightarrow> CHR '','' \<notin> set t" for t
    by (cases t) (auto simp: slug_body_def is_slug_head_def is_slug_char_def is_lower_def is_digit_def list_all_iff)
  assume "match_dollar slug_body s"
  then show ?thesis
    using * [of s] * [of "butlast s"] by (cases s rule: rev_cases) (auto simp: match_dollar_def)
qed

lemma selector_no_comma:
  assumes "match_dollar module_selector s \<or> match_dollar volume_selector s"
  shows "CHR '','' \<notin> set s"
proof -
  have slug: "slug_body t \<Longrightarrow> CHR '','' \<notin> set t" for t using slug_no_comma by (simp add: match_dollar_def)
  have vol: "volume_body t \<Longrightarrow> CHR '','' \<notin> set t" for t
    by (cases t) (auto simp: volume_body_def is_volume_head_def is_alpha_def is_upper_def is_lower_def is_digit_def list_all_iff)
  have m: "module_selector t \<Longrightarrow> CHR '','' \<notin> set t" for t
    by (auto simp: module_selector_def startswith_append dest: slug)
  have v: "volume_selector t \<Longrightarrow> CHR '','' \<notin> set t" for t
    by (auto simp: volume_selector_def startswith_append dest: vol)
  show ?thesis
    using assms m [of s] m [of "butlast s"] v [of s] v [of "butlast s"]
    by (cases s rule: rev_cases) (auto simp: match_dollar_def)
qed

interpretation profile_flag: checked_flag "check_profile allowed"
  "\<lambda>n. n \<in> allowed \<and> n \<noteq> SELF_PROFILE \<and> n \<noteq> LINK_PROFILE"
  by unfold_locales (auto simp: check_profile_def profile_name_def dest: slug_no_comma split: if_splits)

interpretation selector_flag: checked_flag "check_selector allowed" "\<lambda>n. n \<in> allowed \<and> n \<noteq> ''module:'' @ SELF_PROFILE"
  by unfold_locales
    (auto simp: check_selector_def dest: selector_no_comma [OF disjI1] selector_no_comma [OF disjI2] split: if_splits)

text \<open>
  A flag that is built names exactly the groups that were asked for, each of them offered by this deployment and none of
  them the panel's own group or the one that links the nodes.
\<close>

theorem profiles_flag_exact:
  assumes "profiles_flag names allowed = Inr flag"
  shows "(\<exists>rest. flag = ''--profiles='' @ rest \<and> split_char (CHR '','') rest = sorted_list_of_set (set names))
    \<and> names \<noteq> [] \<and> set names \<subseteq> allowed - {''manager'', ''link-gateway''}"
proof -
  from assms have ne: "names \<noteq> []" and r: "rbind (rmap (check_profile allowed) (sorted_list_of_set (set names)))
      (\<lambda>ns. Inr (''--profiles='' @ join '','' ns)) = Inr flag"
    by (auto simp: profiles_flag_def Let_def split: if_splits)
  note exact = profile_flag.flag_exact [OF r]
  from ne have "sorted_list_of_set (set names) \<noteq> []" by (metis List.finite_set set_empty sorted_list_of_set.set_sorted_key_list_of_set)
  with exact ne show ?thesis by (auto simp: list_all_iff SELF_PROFILE_def LINK_PROFILE_def)
qed

text \<open>The same for what a restore is limited to, with at most \<open>MAX_SELECTORS\<close> selectors and never the panel itself.\<close>

theorem selection_flag_exact:
  assumes "selection_flag selectors allowed = Inr flag"
  shows "(\<exists>rest. flag = ''--only='' @ rest \<and> split_char (CHR '','') rest = sorted_list_of_set (set selectors))
    \<and> selectors \<noteq> [] \<and> card (set selectors) \<le> MAX_SELECTORS \<and> set selectors \<subseteq> allowed - {''module:manager''}"
proof -
  from assms have ne: "selectors \<noteq> []" and few: "length (sorted_list_of_set (set selectors)) \<le> MAX_SELECTORS"
      and r: "rbind (rmap (check_selector allowed) (sorted_list_of_set (set selectors)))
      (\<lambda>ns. Inr (''--only='' @ join '','' ns)) = Inr flag"
    by (auto simp: selection_flag_def Let_def split: if_splits)
  note exact = selector_flag.flag_exact [OF r]
  from ne have "sorted_list_of_set (set selectors) \<noteq> []" by (metis List.finite_set set_empty sorted_list_of_set.set_sorted_key_list_of_set)
  with exact ne few show ?thesis by (auto simp: list_all_iff SELF_PROFILE_def)
qed

section \<open>The password of the mail server\<close>

lemma login_flags_password [simp]: "login_flags (s\<lparr>ss_password := p\<rparr>) = login_flags s"
  by (simp add: login_flags_def)

lemma smtp_flags_password:
  assumes "p \<noteq> []" "q \<noteq> []"
  shows "smtp_setup_flags (s\<lparr>ss_password := Some p\<rparr>) = smtp_setup_flags (s\<lparr>ss_password := Some q\<rparr>)"
  using assms
  by (cases "ss_host s"; cases "ss_security s"; cases "ss_port s"; cases "ss_sender s")
    (simp_all add: smtp_setup_flags_def all_unset_def given_text_def)

lemma py_env_no_password: "dict_get (py_env environ workspace_dir config_dir) SMTP_PASSWORD_ENV = None"
  by (simp add: py_env_def with_config_dir_def SMTP_PASSWORD_ENV_def Let_def)

text \<open>
  The password of the mail server reaches the core in the environment of the child and nowhere else: the command line, the
  rest of the environment and the limit are fixed before the password is known, and a password the manager's own
  environment happens to carry is not passed on.
\<close>

theorem smtp_password_only_in_env:
  "\<exists>flags env. dict_get env SMTP_PASSWORD_ENV = None \<and>
     (\<forall>p. p \<noteq> [] \<longrightarrow> run_smtp_setup proc environ (spec\<lparr>ss_password := Some p\<rparr>) workspace_dir config_dir w =
        (case flags of
           Inl e \<Rightarrow> (Inl (Refused e), w)
         | Inr fs \<Rightarrow> map_prod (child_answer ''setup'' (Some SETUP_TIMEOUT_SECONDS)) (\<lambda>w'. w')
                     (proc (py_cmd ''setup'' workspace_dir config_dir None fs, dict_set env SMTP_PASSWORD_ENV p)
                        (Some SETUP_TIMEOUT_SECONDS) w)))"
proof (intro exI conjI allI impI)
  let ?flags = "smtp_setup_flags (spec\<lparr>ss_password := Some ''x''\<rparr>)" and ?env = "py_env environ workspace_dir config_dir"
  show "dict_get ?env SMTP_PASSWORD_ENV = None" by (rule py_env_no_password)
  fix p :: string
  assume "p \<noteq> []"
  then have "smtp_setup_flags (spec\<lparr>ss_password := Some p\<rparr>) = ?flags" by (rule smtp_flags_password) simp
  then show "run_smtp_setup proc environ (spec\<lparr>ss_password := Some p\<rparr>) workspace_dir config_dir w =
        (case ?flags of
           Inl e \<Rightarrow> (Inl (Refused e), w)
         | Inr fs \<Rightarrow> map_prod (child_answer ''setup'' (Some SETUP_TIMEOUT_SECONDS)) (\<lambda>w'. w')
                     (proc (py_cmd ''setup'' workspace_dir config_dir None fs, dict_set ?env SMTP_PASSWORD_ENV p)
                        (Some SETUP_TIMEOUT_SECONDS) w))"
    by (simp add: run_smtp_setup_def refused_def run_py_def dict_update_def split: sum.splits)
qed

section \<open>Examples\<close>

definition demo_codec :: line_codec where
  "demo_codec = \<lparr>lc_decode = (\<lambda>s. s), lc_partial = (\<lambda>s. s)\<rparr>"

lemma stream_bounded_witness:
  "length (lr_pending (reader_after demo_codec [''ab'', [CHR ''c'', LF, CHR ''d'']] new_reader)) \<le> MAX_LINE_BYTES
   \<and> list_all (\<lambda>line. length line \<le> MAX_LINE_BYTES + length TRUNCATION_MARKER)
       (fst (stream_subprocess demo_codec [''ab'', [CHR ''c'', LF, CHR ''d'']] (Some 0)))"
  unfolding list_all_iff by (rule stream_bounded) (simp_all add: demo_codec_def)

lemma profiles_flag_exact_witness:
  "(\<exists>rest. ''--profiles=librechat,rag'' = ''--profiles='' @ rest
      \<and> split_char (CHR '','') rest = sorted_list_of_set (set [''rag'', ''librechat'', ''rag'']))
   \<and> [''rag'', ''librechat'', ''rag''] \<noteq> []
   \<and> set [''rag'', ''librechat'', ''rag''] \<subseteq> {''rag'', ''librechat'', ''manager''} - {''manager'', ''link-gateway''}"
  by (rule profiles_flag_exact [of _ "{''rag'', ''librechat'', ''manager''}"]) code_simp

lemma selection_flag_exact_witness:
  "(\<exists>rest. ''--only=addon:a,volume:B_1'' = ''--only='' @ rest
      \<and> split_char (CHR '','') rest = sorted_list_of_set (set [''volume:B_1'', ''addon:a'']))
   \<and> [''volume:B_1'', ''addon:a''] \<noteq> [] \<and> card (set [''volume:B_1'', ''addon:a'']) \<le> MAX_SELECTORS
   \<and> set [''volume:B_1'', ''addon:a''] \<subseteq> {''volume:B_1'', ''addon:a''} - {''module:manager''}"
  by (rule selection_flag_exact [of _ "{''volume:B_1'', ''addon:a''}"]) code_simp

definition demo_smtp :: smtp_setup where
  "demo_smtp = \<lparr>ss_enable = Some True, ss_host = Some ''mail.example.org'', ss_port = Some 587, ss_security = Some ''tls'',
     ss_user = Some ''u'', ss_no_auth = False, ss_sender = Some ''a@b.c'', ss_sender_name = None, ss_password = None\<rparr>"

lemma smtp_password_only_in_env_witness:
  "\<exists>flags env. dict_get env SMTP_PASSWORD_ENV = None \<and>
     run_smtp_setup (\<lambda>call limit w. (Ended (Some 0) [] [], call # w)) [(SMTP_PASSWORD_ENV, ''other'')]
       (demo_smtp\<lparr>ss_password := Some ''secret''\<rparr>) ''/w'' ''/c'' []
     = (case flags of
           Inl e \<Rightarrow> (Inl (Refused e), [])
         | Inr fs \<Rightarrow> (Inr (0, [], []), [(py_cmd ''setup'' ''/w'' ''/c'' None fs, dict_set env SMTP_PASSWORD_ENV ''secret'')]))"
  using smtp_password_only_in_env [of "\<lambda>call limit w. (Ended (Some 0) [] [], call # w)"
      "[(SMTP_PASSWORD_ENV, ''other'')]" demo_smtp "''/w''" "''/c''" "[]"]
  by (fastforce simp: child_answer_def split: sum.splits)

end
