(* ===== verification/Nodes.thy ===== *)
theory Nodes
  imports Ctl
begin

text \<open>
  The nodes of a distributed installation (\<open>core/nodes.py\<close>): the registry, the runs a \<open>start\<close> or \<open>stop\<close> of one profile
  takes, the executor of a node, the upgrade lock, the cached overview of the Nodes page and the commands that change the
  set of nodes.

  The core's own reading of the topology (\<open>lib.topology\<close>) is the field \<open>ne_placement\<close>, starting a process is \<open>ne_proc\<close> over a
  world that the calls thread through. The link probes of the overview run side by side in the code; none reads what
  another writes, and they are asked one after the other here.
\<close>

section \<open>The registry\<close>

record placement =
  pl_service_of_profile :: "string \<Rightarrow> string"
  pl_node_of :: "string \<Rightarrow> string"
  pl_active_services :: "string set \<Rightarrow> string set"

record 'w nodes_env =
  ne_i18n :: i18n
  ne_yaml :: yaml
  ne_json :: "string \<Rightarrow> pyval option"
  ne_files :: fs
  ne_config_dir :: string
  ne_workspace_dir :: string
  ne_placement :: "placement option"
  ne_environ :: env
  ne_proc :: "'w spawn"

datatype nodes_fault = NodeError string | NodeCtl ctl_fault | NodeRaise py_exn

definition DISTRIBUTED :: string where "DISTRIBUTED = ''distributed''"
definition LOCAL_EXECUTOR :: string where "LOCAL_EXECUTOR = ''local''"

text \<open>\<open>^[a-z][a-z0-9-]{0,30}\Z\<close> and \<open>^SHA256:[A-Za-z0-9+/]{43}=?\Z\<close>.\<close>

definition valid_node_name :: "string \<Rightarrow> bool" where
  "valid_node_name s \<longleftrightarrow>
     (case s of [] \<Rightarrow> False | c # cs \<Rightarrow> is_lower c \<and> list_all is_slug_char cs \<and> length cs \<le> 30)"

definition valid_fingerprint :: "string \<Rightarrow> bool" where
  "valid_fingerprint s \<longleftrightarrow>
     startswith s ''SHA256:''
     \<and> (let t = drop 7 s; digest = take 43 t
         in length digest = 43 \<and> list_all (\<lambda>c. is_alpha c \<or> is_digit c \<or> c \<in> {CHR ''+'', CHR 0x2F}) digest
            \<and> (drop 43 t = [] \<or> drop 43 t = ''=''))"

definition topology :: "'w nodes_env \<Rightarrow> (string, pyval) dict" where
  "topology E =
     (case load_deployment_yaml (ne_yaml E) (ne_files E) (ne_config_dir E) of
        Inr (PDict d) \<Rightarrow> (case get_none d ''topology'' of PDict block \<Rightarrow> block | _ \<Rightarrow> [])
      | _ \<Rightarrow> [])"

definition is_distributed :: "'w nodes_env \<Rightarrow> bool" where
  "is_distributed E \<longleftrightarrow> get_none (topology E) ''mode'' = PStr DISTRIBUTED"

record node_ref =
  nr_name :: string
  nr_address :: string
  nr_executor :: string
  nr_controller :: bool

definition is_remote :: "node_ref \<Rightarrow> bool" where
  "is_remote n \<longleftrightarrow> nr_executor n \<noteq> LOCAL_EXECUTOR"

text \<open>\<open>str(d.get(key) or default)\<close>.\<close>

definition text_or :: "(string, pyval) dict \<Rightarrow> string \<Rightarrow> string \<Rightarrow> string" where
  "text_or d key otherwise = py_str_of (py_or (get_none d key) (PStr otherwise))"

definition controller_name :: "'w nodes_env \<Rightarrow> string" where
  "controller_name E = text_or (topology E) ''controller'' []"

definition node_ref_of :: "string \<Rightarrow> string \<times> pyval \<Rightarrow> py_exn + string \<times> node_ref" where
  "node_ref_of controller entry =
     (case py_or (snd entry) (PDict []) of
        PDict body \<Rightarrow>
          Inr (fst entry, \<lparr>nr_name = fst entry, nr_address = text_or body ''address'' [],
                nr_executor = text_or body ''executor'' ''ssh'', nr_controller = (fst entry = controller)\<rparr>)
      | _ \<Rightarrow> Inl AttributeError)"

definition node_registry :: "'w nodes_env \<Rightarrow> py_exn + (string, node_ref) dict" where
  "node_registry E =
     (if \<not> is_distributed E then Inr []
      else case get_none (topology E) ''nodes'' of
          PDict raw \<Rightarrow> rbind (rmap (node_ref_of (controller_name E)) raw) (\<lambda>entries. Inr (dict_of entries))
        | _ \<Rightarrow> Inr [])"

definition HOOK_SERVICES :: "string list" where "HOOK_SERVICES = [''nginx'', ''keycloak'']"

definition profile_node :: "'w nodes_env \<Rightarrow> string \<Rightarrow> string" where
  "profile_node E profile =
     (if \<not> is_distributed E then []
      else case ne_placement E of
          None \<Rightarrow> []
        | Some P \<Rightarrow> let service = pl_service_of_profile P profile in if service = [] then [] else pl_node_of P service)"

section \<open>The runs of a profile\<close>

definition flag_profile :: "string list \<Rightarrow> string" where
  "flag_profile flags =
     (case find_first (\<lambda>f. startswith f ''--profiles='') flags of
        None \<Rightarrow> [] | Some f \<Rightarrow> removeprefix ''--profiles='' f)"

definition add_hook_node :: "placement \<Rightarrow> string set \<Rightarrow> string list \<Rightarrow> string \<Rightarrow> string list" where
  "add_hook_node P active owners hook =
     (let node = pl_node_of P hook
      in if hook \<in> active \<and> node \<noteq> [] \<and> node \<notin> set owners then owners @ [node] else owners)"

definition on_node :: "string list \<Rightarrow> string \<Rightarrow> string list" where
  "on_node flags node = flags @ [''--node='' @ node]"

definition profile_runs :: "'w nodes_env \<Rightarrow> string \<Rightarrow> string list \<Rightarrow> py_exn + string list list" where
  "profile_runs E verb flags =
     (let profile = flag_profile flags in
      if verb \<notin> {''start'', ''stop''} \<or> profile = [] \<or> CHR '','' \<in> set profile
         \<or> list_ex (\<lambda>f. startswith f ''--node='') flags then Inr [flags]
      else if \<not> is_distributed E then Inr [flags]
      else case ne_placement E of
          None \<Rightarrow> Inr [flags]
        | Some P \<Rightarrow>
            let service = pl_service_of_profile P profile;
                owner = (if service = [] then [] else pl_node_of P service)
            in if owner = [] then Inr [flags]
               else if verb = ''start'' then
                 rbind (active_profiles (ne_files E) (ne_config_dir E)) (\<lambda>profiles.
                   Inr (map (on_node flags)
                     (foldl (add_hook_node P (pl_active_services P (insert profile profiles))) [owner] HOOK_SERVICES)))
               else Inr [on_node flags owner])"

section \<open>Executors\<close>

datatype executor = LocalExecutor | SshExecutor string

definition executor_for :: "'w nodes_env \<Rightarrow> string \<Rightarrow> nodes_fault + executor" where
  "executor_for E name =
     (case node_registry E of
        Inl e \<Rightarrow> Inl (NodeRaise e)
      | Inr nodes \<Rightarrow>
          if nodes = [] then Inr LocalExecutor
          else (case dict_get nodes name of
                  None \<Rightarrow> Inl (NodeError (tr (ne_i18n E) (''no node named '' @ [CHR 0x27] @ ''%(name)s'' @ [CHR 0x27]) [(''name'', name)]))
                | Some n \<Rightarrow> Inr (if is_remote n then SshExecutor name else LocalExecutor)))"

definition last_line :: "string \<Rightarrow> string" where
  "last_line text =
     (let lines = filter (\<lambda>l. l \<noteq> []) (map py_strip (splitlines text))
      in if lines = [] then [] else take 300 (removeprefix ''ERROR: '' (last lines)))"

definition either_text :: "string \<Rightarrow> string \<Rightarrow> string" where
  "either_text a b = (if a = [] then b else a)"

section \<open>The upgrade lock\<close>

definition LOCK_FILE :: string where "LOCK_FILE = ''upgrade.lock''"

text \<open>\<open>json.loads(path.read_text())\<close> where an \<open>OSError\<close> or a \<open>ValueError\<close> is caught.\<close>

definition read_json :: "'w nodes_env \<Rightarrow> string \<Rightarrow> pyval option" where
  "read_json E path = (case read_text (ne_files E) path of Inl _ \<Rightarrow> None | Inr t \<Rightarrow> ne_json E t)"

definition unfinished_upgrade :: "'w nodes_env \<Rightarrow> (string, pyval) dict \<Rightarrow> string" where
  "unfinished_upgrade E data =
     (let versions = [(''source'', py_str_of (get_or data ''from'' (PStr ''?''))),
                      (''target'', py_str_of (get_or data ''to'' (PStr ''?'')))];
          point = get_none data ''restore_point''
      in if truthy point
         then tr (ne_i18n E) ''An upgrade from %(source)s to %(target)s has not finished. Run it again, or restore its restore point %(restore_point)s.''
                (versions @ [(''restore_point'', py_str_of point)])
         else tr (ne_i18n E) ''An upgrade from %(source)s to %(target)s has not finished, and it took no restore point. Run it again, or clear the lock with papaia-ctl start --addons --unlock on the host papaia-manager runs on.''
                versions)"

definition node_release :: "'w nodes_env \<Rightarrow> string \<Rightarrow> pyval" where
  "node_release E name =
     (case read_json E (path_join (path_join (path_join (ne_config_dir E) ''nodes'') name) ''state.json'') of
        Some (PDict state) \<Rightarrow> get_none state ''release''
      | _ \<Rightarrow> PNone)"

definition behind_node :: "'w nodes_env \<Rightarrow> string \<Rightarrow> node_ref \<Rightarrow> bool" where
  "behind_node E version n \<longleftrightarrow>
     is_remote n \<and> truthy (node_release E (nr_name n)) \<and> node_release E (nr_name n) \<noteq> PStr version"

text \<open>\<open>current\<close> is what \<open>upgrade.current_version\<close> gives: the version of the checkout and the recorded one.\<close>

definition lock_reason :: "'w nodes_env \<Rightarrow> string \<times> string \<Rightarrow> py_exn + string" where
  "lock_reason E current =
     rbind (node_registry E) (\<lambda>known.
       if known = [] then Inr []
       else let lock = path_join (ne_config_dir E) LOCK_FILE
            in if is_file (ne_files E) lock then
                 (case read_json E lock of
                    None \<Rightarrow> Inr (unfinished_upgrade E [])
                  | Some (PDict data) \<Rightarrow> Inr (unfinished_upgrade E data)
                  | Some _ \<Rightarrow> Inl AttributeError)
               else let version = either_text (fst current) (snd current);
                        behind = filter (behind_node E version) (map snd known)
                    in Inr (if version = [] \<or> behind = [] then []
                            else tr (ne_i18n E) ''The controller runs %(version)s, but these nodes do not: %(nodes)s. Move all nodes together with an upgrade.''
                                   [(''version'', version),
                                    (''nodes'', join '', '' (map (\<lambda>n. nr_name n @ '' ('' @ py_str_of (node_release E (nr_name n)) @ '')'') behind))]))"

section \<open>The overview\<close>

record link_state =
  lk_peer :: string
  lk_ok :: bool
  lk_reason :: string

record node_state =
  nd_name :: string
  nd_address :: string
  nd_executor :: string
  nd_controller :: bool
  nd_services :: "string list"
  nd_host_key_pinned :: bool
  nd_reachable :: bool
  nd_reason :: string
  nd_version :: string
  nd_links :: "link_state list"
  nd_links_known :: bool
  nd_no_bundle :: bool

definition links_ok :: "node_state \<Rightarrow> bool" where
  "links_ok n \<longleftrightarrow> nd_links_known n \<and> nd_links n \<noteq> [] \<and> list_all lk_ok (nd_links n)"

definition no_links :: "node_state \<Rightarrow> bool" where
  "no_links n \<longleftrightarrow> nd_links_known n \<and> nd_links n = []"

definition link_of :: "(string, pyval) dict \<Rightarrow> link_state" where
  "link_of item = \<lparr>lk_peer = py_str_of (get_or item ''peer'' (PStr [])), lk_ok = truthy (get_none item ''ok''),
                   lk_reason = text_or item ''reason'' []\<rparr>"

definition dict_items :: "pyval list \<Rightarrow> (string, pyval) dict list" where
  "dict_items vs = concat (map (\<lambda>v. case v of PDict d \<Rightarrow> [d] | _ \<Rightarrow> []) vs)"

definition links_from_answer :: "(string \<Rightarrow> pyval option) \<Rightarrow> string \<Rightarrow> link_state list option" where
  "links_from_answer loads text =
     (let lines = splitlines (py_strip text)
      in if lines = [] then None
         else (case loads (last lines) of
                 Some (PDict data) \<Rightarrow>
                   (case get_none data ''links'' of PList links \<Rightarrow> Some (map link_of (dict_items links)) | _ \<Rightarrow> None)
               | _ \<Rightarrow> None))"

definition LINKS_LIMIT_SECONDS :: nat where "LINKS_LIMIT_SECONDS = 45"
definition CHECK_LIMIT_SECONDS :: nat where "CHECK_LIMIT_SECONDS = 60"
definition OVERVIEW_TTL :: timedelta where "OVERVIEW_TTL = 30 * us_second"

abbreviation node_py_cli ::
  "'w nodes_env \<Rightarrow> string \<Rightarrow> string list \<Rightarrow> nat \<Rightarrow> string option \<Rightarrow> 'w \<Rightarrow> (ctl_fault + py_answer) \<times> 'w" where
  "node_py_cli E command flags limit node \<equiv>
     run_py_cli (ne_proc E) (ne_environ E) command (ne_workspace_dir E) (ne_config_dir E) None flags (Some limit) node"

definition links :: "'w nodes_env \<Rightarrow> string \<Rightarrow> 'w \<Rightarrow> link_state list option \<times> 'w" where
  "links E name w =
     (case node_py_cli E ''links'' [] LINKS_LIMIT_SECONDS (Some name) w of
        (Inr (code, out, _), w') \<Rightarrow> (if code = 0 then links_from_answer (ne_json E) out else None, w')
      | (_, w') \<Rightarrow> (None, w'))"

text \<open>\<open>tuple(str(s) for s in row.get("services") or [])\<close> raises for a value that cannot be iterated.\<close>

definition make_node_state :: "(string, pyval) dict \<Rightarrow> link_state list option \<Rightarrow> py_exn + node_state" where
  "make_node_state row found =
     (let check = (case get_none row ''check'' of PDict c \<Rightarrow> c | _ \<Rightarrow> []);
          reachable = truthy (get_none check ''reachable'')
      in rbind (py_iter (py_or (get_none row ''services'') (PList []))) (\<lambda>services.
         Inr \<lparr>nd_name = py_str_of (get_or row ''name'' (PStr [])), nd_address = py_str_of (get_or row ''address'' (PStr [])),
              nd_executor = py_str_of (get_or row ''executor'' (PStr [])), nd_controller = truthy (get_none row ''controller''),
              nd_services = map py_str_of services, nd_host_key_pinned = truthy (get_none row ''host_key_pinned''),
              nd_reachable = reachable, nd_reason = text_or check ''reason'' [],
              nd_version = py_str_of (py_or (py_or (get_none check ''papaia_version'') (get_none row ''release'')) (PStr [])),
              nd_links = (case found of None \<Rightarrow> [] | Some ls \<Rightarrow> ls), nd_links_known = (found \<noteq> None),
              nd_no_bundle = (reachable \<and> \<not> truthy (get_none row ''controller'') \<and> \<not> truthy (get_none check ''bundle_version''))\<rparr>))"

definition node_state_of :: "'w nodes_env \<Rightarrow> (string, pyval) dict \<Rightarrow> 'w \<Rightarrow> (py_exn + node_state) \<times> 'w" where
  "node_state_of E row w =
     (let check = (case get_none row ''check'' of PDict c \<Rightarrow> c | _ \<Rightarrow> []);
          (found, w') = (if truthy (get_none check ''reachable'')
                         then links E (py_str_of (get_or row ''name'' (PStr []))) w else (None, w))
      in (make_node_state row found, w'))"

fun node_states :: "'w nodes_env \<Rightarrow> (string, pyval) dict list \<Rightarrow> 'w \<Rightarrow> (py_exn + node_state list) \<times> 'w" where
  "node_states E [] w = (Inr [], w)"
| "node_states E (row # rows) w =
     (case node_state_of E row w of
        (r, w1) \<Rightarrow> (case node_states E rows w1 of (rs, w2) \<Rightarrow> (rbind r (\<lambda>n. rbind rs (\<lambda>ns. Inr (n # ns))), w2)))"

type_synonym overview_cache = "(instant \<times> node_state list) option"

definition node_list :: "'w nodes_env \<Rightarrow> 'w \<Rightarrow> (ctl_fault + py_answer) \<times> 'w" where
  "node_list E w =
     (case node_py_cli E ''node-list'' [''--json'', ''--check''] CHECK_LIMIT_SECONDS None w of
        (Inr (code, out, err), w') \<Rightarrow>
          if code \<noteq> 0 then node_py_cli E ''node-list'' [''--json''] CHECK_LIMIT_SECONDS None w' else (Inr (code, out, err), w')
      | failed \<Rightarrow> failed)"

text \<open>\<open>now\<close> is the clock at the call and \<open>later\<close> when the answers are in. A node list that is not a list raises.\<close>

definition overview ::
  "'w nodes_env \<Rightarrow> instant \<Rightarrow> instant \<Rightarrow> bool \<Rightarrow> overview_cache \<Rightarrow> 'w \<Rightarrow> (nodes_fault + node_state list) \<times> overview_cache \<times> 'w" where
  "overview E now later fresh cache w =
     (case (if fresh then None
            else case cache of Some (at, ns) \<Rightarrow> if now - at < OVERVIEW_TTL then Some ns else None | None \<Rightarrow> None) of
        Some ns \<Rightarrow> (Inr ns, cache, w)
      | None \<Rightarrow>
          (case node_list E w of
             (Inl e, w1) \<Rightarrow> (Inl (NodeCtl e), cache, w1)
           | (Inr (code, out, err), w1) \<Rightarrow>
               if code \<noteq> 0 then
                 (Inl (NodeError (either_text (last_line (either_text err out))
                         (tr (ne_i18n E) ''the core could not list the nodes'' []))), cache, w1)
               else (case ne_json E out of
                       None \<Rightarrow> (Inl (NodeError (tr (ne_i18n E) ''the core's node list is unreadable'' [])), cache, w1)
                     | Some v \<Rightarrow>
                         (case py_iter v of
                            Inl e \<Rightarrow> (Inl (NodeRaise e), cache, w1)
                          | Inr rows \<Rightarrow>
                              (case node_states E (dict_items rows) w1 of
                                 (Inl e, w2) \<Rightarrow> (Inl (NodeRaise e), cache, w2)
                               | (Inr ns, w2) \<Rightarrow> (Inr ns, Some (later, ns), w2))))))"

section \<open>Changing the set of nodes\<close>

record host_key =
  hk_kind :: string
  hk_fingerprint :: string

definition host_key_line :: "string \<Rightarrow> host_key list" where
  "host_key_line line =
     (case split_char TAB (py_strip line) of
        [tag, kind, print] \<Rightarrow> if tag = ''HOSTKEY'' then [\<lparr>hk_kind = kind, hk_fingerprint = print\<rparr>] else []
      | _ \<Rightarrow> [])"

definition host_keys :: "'w nodes_env \<Rightarrow> string \<Rightarrow> 'w \<Rightarrow> (nodes_fault + host_key list) \<times> 'w" where
  "host_keys E name w =
     (case node_py_cli E ''node-keyscan'' [''--name='' @ name] CHECK_LIMIT_SECONDS None w of
        (Inl e, w') \<Rightarrow> (Inl (NodeCtl e), w')
      | (Inr (code, out, err), w') \<Rightarrow>
          if code \<noteq> 0
          then (Inl (NodeError (either_text (last_line (either_text err out)) (tr (ne_i18n E) ''the node offered no host key'' []))), w')
          else (Inr (concat (map host_key_line (splitlines out))), w'))"

text \<open>A \<open>CtlError\<close> of \<open>run_node_command\<close> leaves \<open>_write\<close> before the cache is dropped.\<close>

definition node_write ::
  "'w nodes_env \<Rightarrow> string \<Rightarrow> string list \<Rightarrow> overview_cache \<Rightarrow> 'w \<Rightarrow> (nodes_fault + string \<times> string) \<times> overview_cache \<times> 'w" where
  "node_write E command flags cache w =
     (case run_node_command (ne_proc E) (ne_environ E) command (ne_workspace_dir E) (ne_config_dir E) flags (Some 120) w of
        (Inl e, w') \<Rightarrow> (Inl (NodeCtl e), cache, w')
      | (Inr (code, out, err), w') \<Rightarrow>
          (if code \<noteq> 0
           then Inl (NodeError (either_text (last_line (either_text err out))
                       (tr (ne_i18n E) ''%(command)s failed'' [(''command'', command)])))
           else Inr (out, err), None, w'))"

definition join_archive_path :: "string \<Rightarrow> string \<Rightarrow> string" where
  "join_archive_path config_dir name =
     rstrip_char (CHR 0x2F) config_dir @ ''/nodes/'' @ name @ ''/papaia-join-'' @ name @ ''.tar.gz''"

definition join_commands :: "string \<Rightarrow> node_state \<Rightarrow> string" where
  "join_commands config_dir n =
     ''scp '' @ join_archive_path config_dir (nd_name n) @ '' root@'' @ nd_address n @ '':'' @ [LF]
     @ ''tar -xzf papaia-join-'' @ nd_name n @ ''.tar.gz && sudo ./papaia-join-'' @ nd_name n @ ''/install.sh''"

record new_node =
  nn_name :: string
  nn_address :: string
  nn_ssh_user :: string
  nn_ssh_port :: int
  nn_root :: string

definition register_flags :: "new_node \<Rightarrow> string list" where
  "register_flags n =
     [''--name='' @ nn_name n, ''--address='' @ nn_address n]
     @ (if nn_ssh_user n = [] then [] else [''--ssh-user='' @ nn_ssh_user n])
     @ (if nn_ssh_port n = 0 then [] else [''--ssh-port='' @ str_of_int (nn_ssh_port n)])
     @ (if nn_root n = [] then [] else [''--root='' @ nn_root n])"

definition add_node ::
  "'w nodes_env \<Rightarrow> new_node \<Rightarrow> overview_cache \<Rightarrow> 'w \<Rightarrow> (nodes_fault + string) \<times> overview_cache \<times> 'w" where
  "add_node E n cache w =
     (case node_write E ''node-register'' (register_flags n) cache w of
        (Inl e, c1, w1) \<Rightarrow> (Inl e, c1, w1)
      | (Inr _, c1, w1) \<Rightarrow>
          let archive = join_archive_path (ne_config_dir E) (nn_name n)
          in (case node_write E ''node-join-bundle'' [''--name='' @ nn_name n, ''--output='' @ archive] c1 w1 of
                (Inl e, c2, w2) \<Rightarrow> (Inl e, c2, w2)
              | (Inr _, c2, w2) \<Rightarrow> (Inr archive, c2, w2)))"

definition remove_node ::
  "'w nodes_env \<Rightarrow> string \<Rightarrow> overview_cache \<Rightarrow> 'w \<Rightarrow> (nodes_fault + string list) \<times> overview_cache \<times> 'w" where
  "remove_node E name cache w =
     (case node_write E ''node-unregister'' [''--name='' @ name] cache w of
        (Inl e, c1, w1) \<Rightarrow> (Inl e, c1, w1)
      | (Inr (out, err), c1, w1) \<Rightarrow>
          (Inr (map (removeprefix ''WARNING: '')
             (filter (\<lambda>l. \<not> startswith l ''Node '') (filter (\<lambda>l. l \<noteq> []) (map py_strip (splitlines err @ splitlines out))))), c1, w1))"

definition put_bundle :: "'w nodes_env \<Rightarrow> executor \<Rightarrow> 'w \<Rightarrow> (nodes_fault + unit) \<times> 'w" where
  "put_bundle E x w =
     (case x of
        LocalExecutor \<Rightarrow> (Inr (), w)
      | SshExecutor node \<Rightarrow>
          (case run_node_command (ne_proc E) (ne_environ E) ''node-push'' (ne_workspace_dir E) (ne_config_dir E)
                  [''--name='' @ node] (Some 300) w of
             (Inl e, w') \<Rightarrow> (Inl (NodeCtl e), w')
           | (Inr (code, out, err), w') \<Rightarrow>
               (if code \<noteq> 0
                then Inl (NodeError (either_text (last_line (either_text err out)) (tr (ne_i18n E) ''node-push failed'' [])))
                else Inr (), w')))"

definition send_bundle ::
  "'w nodes_env \<Rightarrow> string \<Rightarrow> overview_cache \<Rightarrow> 'w \<Rightarrow> (nodes_fault + unit) \<times> overview_cache \<times> 'w" where
  "send_bundle E name cache w =
     (case executor_for E name of
        Inl e \<Rightarrow> (Inl e, None, w)
      | Inr x \<Rightarrow> (case put_bundle E x w of (r, w') \<Rightarrow> (r, None, w')))"

definition pin_host_key ::
  "'w nodes_env \<Rightarrow> string \<Rightarrow> string \<Rightarrow> overview_cache \<Rightarrow> 'w \<Rightarrow> (nodes_fault + unit) \<times> overview_cache \<times> 'w" where
  "pin_host_key E name print cache w =
     (case node_write E ''node-pin'' [''--name='' @ name, ''--fingerprint='' @ print] cache w of
        (Inl e, c, w') \<Rightarrow> (Inl e, c, w')
      | (Inr _, c, w') \<Rightarrow> (Inr (), c, w'))"

section \<open>Which nodes a run visits\<close>

lemma hook_nodes:
  assumes "distinct owners" "[] \<notin> set owners" "owners \<noteq> []"
  shows "\<exists>rest. foldl (add_hook_node P active) owners hooks = owners @ rest \<and> distinct (owners @ rest)
    \<and> set (owners @ rest) = set owners \<union> {pl_node_of P h | h. h \<in> set hooks \<and> h \<in> active \<and> pl_node_of P h \<noteq> []}
    \<and> [] \<notin> set (owners @ rest)"
  using assms
proof (induction hooks arbitrary: owners)
  case Nil
  show ?case by (rule exI [of _ "[]"]) (use Nil in auto)
next
  case (Cons h hooks)
  show ?case
  proof (cases "h \<in> active \<and> pl_node_of P h \<noteq> [] \<and> pl_node_of P h \<notin> set owners")
    case True
    with Cons.prems have "distinct (owners @ [pl_node_of P h])" "[] \<notin> set (owners @ [pl_node_of P h])"
        "owners @ [pl_node_of P h] \<noteq> []" by auto
    from Cons.IH [OF this] obtain rest where r: "foldl (add_hook_node P active) (owners @ [pl_node_of P h]) hooks
          = (owners @ [pl_node_of P h]) @ rest" "distinct ((owners @ [pl_node_of P h]) @ rest)"
        "set ((owners @ [pl_node_of P h]) @ rest) = set (owners @ [pl_node_of P h])
          \<union> {pl_node_of P h | h. h \<in> set hooks \<and> h \<in> active \<and> pl_node_of P h \<noteq> []}"
        "[] \<notin> set ((owners @ [pl_node_of P h]) @ rest)" by blast
    have "add_hook_node P active owners h = owners @ [pl_node_of P h]" using True by (simp add: add_hook_node_def Let_def)
    then show ?thesis by (intro exI [of _ "pl_node_of P h # rest"]) (use True r in auto)
  next
    case False
    then have "add_hook_node P active owners h = owners" by (auto simp: add_hook_node_def Let_def)
    then have "foldl (add_hook_node P active) owners (h # hooks) = foldl (add_hook_node P active) owners hooks" by simp
    moreover have "{pl_node_of P k | k. k \<in> set (h # hooks) \<and> k \<in> active \<and> pl_node_of P k \<noteq> []} \<union> set owners
        = {pl_node_of P k | k. k \<in> set hooks \<and> k \<in> active \<and> pl_node_of P k \<noteq> []} \<union> set owners"
      using False by auto
    ultimately show ?thesis using Cons.IH [OF Cons.prems] by (simp add: Un_commute)
  qed
qed

text \<open>
  In a distributed installation, a \<open>stop\<close> of one profile runs on the node that owns it and nowhere else. A \<open>start\<close> runs there
  first and then once on every other node that has an active hook service (the proxy, Keycloak). Each run is the request
  with one node added, and no node is visited twice.
\<close>

theorem profile_runs_visit:
  assumes "is_distributed E" "ne_placement E = Some P" "verb \<in> {''start'', ''stop''}"
    and "profile = flag_profile flags" "profile \<noteq> []" "CHR '','' \<notin> set profile" "\<not> list_ex (\<lambda>f. startswith f ''--node='') flags"
    and "profile_node E profile \<noteq> []" "active_profiles (ne_files E) (ne_config_dir E) = Inr profiles"
  shows "\<exists>nodes. profile_runs E verb flags = Inr (map (on_node flags) nodes) \<and> distinct nodes
    \<and> hd nodes = profile_node E profile
    \<and> set nodes = insert (profile_node E profile)
        {pl_node_of P h | h. verb = ''start'' \<and> h \<in> set HOOK_SERVICES
           \<and> h \<in> pl_active_services P (insert profile profiles) \<and> pl_node_of P h \<noteq> []}"
proof -
  let ?owner = "profile_node E profile"
  have owner: "?owner = (if pl_service_of_profile P profile = [] then [] else pl_node_of P (pl_service_of_profile P profile))"
    using assms(1,2) by (simp add: profile_node_def Let_def)
  obtain rest where r: "foldl (add_hook_node P (pl_active_services P (insert profile profiles))) [?owner] HOOK_SERVICES
        = [?owner] @ rest" "distinct ([?owner] @ rest)"
      "set ([?owner] @ rest) = set [?owner] \<union> {pl_node_of P h | h. h \<in> set HOOK_SERVICES
         \<and> h \<in> pl_active_services P (insert profile profiles) \<and> pl_node_of P h \<noteq> []}"
    using hook_nodes [of "[?owner]" P "pl_active_services P (insert profile profiles)" HOOK_SERVICES] assms(8) by auto
  show ?thesis
  proof (cases "verb = ''start''")
    case True
    then have "profile_runs E verb flags = Inr (map (on_node flags) ([?owner] @ rest))"
      using assms owner r(1) by (simp add: profile_runs_def Let_def split: if_splits)
    then show ?thesis using r(2,3) True by (intro exI [of _ "[?owner] @ rest"]) auto
  next
    case False
    then have "profile_runs E verb flags = Inr (map (on_node flags) [?owner])"
      using assms owner by (simp add: profile_runs_def Let_def split: if_splits)
    then show ?thesis using False by (intro exI [of _ "[?owner]"]) auto
  qed
qed

text \<open>On a single host a request runs as it is, once.\<close>

lemma profile_runs_single: "\<not> is_distributed E \<Longrightarrow> profile_runs E verb flags = Inr [flags]"
  by (simp add: profile_runs_def Let_def)

lemma profile_runs_nonempty: "profile_runs E verb flags = Inr runs \<Longrightarrow> runs \<noteq> []"
  by (auto simp: profile_runs_def HOOK_SERVICES_def add_hook_node_def Let_def elim!: rbindE split: if_splits option.splits)

lemma profile_runs_mem: "profile_runs E verb flags = Inr runs \<Longrightarrow> run \<in> set runs \<Longrightarrow> run = flags \<or> (\<exists>node. run = on_node flags node)"
  by (auto simp: profile_runs_def Let_def elim!: rbindE split: if_splits option.splits)

section \<open>The cache of the overview\<close>

text \<open>
  A change that the core answered, with success or with an error, drops the cached overview: the next reading asks the core
  again. A change that ran into its time limit does not, although the core may have carried it out: for half a minute the
  page shows the list from before.
\<close>

theorem timed_out_change_keeps_overview:
  assumes "command \<in> ALLOWED_NODE_COMMANDS"
    and "ne_proc E (py_cmd command (ne_workspace_dir E) (ne_config_dir E) None flags,
                    py_env (ne_environ E) (ne_workspace_dir E) (ne_config_dir E)) (Some 120) w = (c, w')"
    and "now - at < OVERVIEW_TTL"
  shows "(case node_write E command flags (Some (at, ns)) w of
           (r, cache, w1) \<Rightarrow> if c = Killed then overview E now later False cache w1 = (Inr ns, Some (at, ns), w')
                            else (\<exists>code out err. c = Ended code out err) \<longrightarrow> cache = None)"
  using assms
  by (cases c) (auto simp: node_write_def run_node_command_def run_py_def dict_update_def child_answer_def overview_def)

section \<open>Examples\<close>

definition demo_placement :: placement where
  "demo_placement = \<lparr>pl_service_of_profile = (\<lambda>p. p), pl_node_of = (\<lambda>s. if s = ''rag'' then ''b'' else ''a''),
     pl_active_services = (\<lambda>ps. ps \<union> {''nginx'', ''keycloak''})\<rparr>"

definition demo_nodes :: "unit nodes_env" where
  "demo_nodes = \<lparr>ne_i18n = \<lparr>tr = \<lambda>m a. ''!'' @ m, ntr = \<lambda>m p n a. m\<rparr>,
     ne_yaml = (\<lambda>t. Some (PDict [(''topology'', PDict [(''mode'', PStr ''distributed''),
        (''nodes'', PDict [(''a'', PDict [(''executor'', PStr ''local'')]), (''b'', PDict [])])])])),
     ne_json = (\<lambda>t. None), ne_files = (\<lambda>p. if p = ''/c/deployment.yaml'' then Text [] else Absent),
     ne_config_dir = ''/c'', ne_workspace_dir = ''/w'',
     ne_placement = Some demo_placement,
     ne_environ = [], ne_proc = (\<lambda>call limit w. (Killed, w))\<rparr>"

lemma demo_distributed: "is_distributed demo_nodes" "profile_node demo_nodes ''rag'' = ''b''"
  by code_simp+

lemma profile_runs_visit_witness:
  "\<exists>nodes. profile_runs demo_nodes ''start'' [''--profiles=rag''] = Inr (map (on_node [''--profiles=rag'']) nodes) \<and> distinct nodes
     \<and> hd nodes = ''b'' \<and> set nodes = {''a'', ''b''}"
proof -
  have h: "ne_placement demo_nodes = Some demo_placement" "flag_profile [''--profiles=rag''] = ''rag''"
      "active_profiles (ne_files demo_nodes) (ne_config_dir demo_nodes) = Inr {}"
      "\<not> list_ex (\<lambda>f. startswith f ''--node='') [''--profiles=rag'']"
    by (simp add: demo_nodes_def, code_simp, simp add: demo_nodes_def active_profiles_def load_env_file_def is_file_def
      path_join_def path_of_def profiles_in_def, code_simp)
  have nodes: "pl_node_of demo_placement ''nginx'' = ''a''" "pl_node_of demo_placement ''keycloak'' = ''a''"
      "pl_active_services demo_placement (insert ''rag'' {}) = {''rag'', ''nginx'', ''keycloak''}"
    by (auto simp: demo_placement_def)
  have visited: "{pl_node_of demo_placement h | h. ''start'' = ''start'' \<and> h \<in> set HOOK_SERVICES
      \<and> h \<in> pl_active_services demo_placement (insert ''rag'' {}) \<and> pl_node_of demo_placement h \<noteq> []} = {''a''}"
    unfolding nodes(3) HOOK_SERVICES_def using nodes(1,2) by force
  have "\<exists>nodes. profile_runs demo_nodes ''start'' [''--profiles=rag''] = Inr (map (on_node [''--profiles=rag'']) nodes)
      \<and> distinct nodes \<and> hd nodes = profile_node demo_nodes ''rag'' \<and> set nodes = insert (profile_node demo_nodes ''rag'')
        {pl_node_of demo_placement h | h. ''start'' = ''start'' \<and> h \<in> set HOOK_SERVICES
           \<and> h \<in> pl_active_services demo_placement (insert ''rag'' {}) \<and> pl_node_of demo_placement h \<noteq> []}"
    by (rule profile_runs_visit [OF demo_distributed(1) h(1) _ h(2) [symmetric] _ _ h(4) _ h(3)])
      (simp_all add: demo_distributed(2))
  then show ?thesis unfolding visited demo_distributed(2) by (simp only: insert_commute)
qed

lemma timed_out_change_keeps_overview_witness:
  "(case node_write demo_nodes ''node-unregister'' [''--name=b''] (Some (0, [])) () of
      (r, cache, w1) \<Rightarrow> if Killed = Killed then overview demo_nodes 5 6 False cache w1 = (Inr [], Some (0, []), ())
                       else (\<exists>code out err. Killed = Ended code out err) \<longrightarrow> cache = None)"
  by (rule timed_out_change_keeps_overview) (simp_all add: ALLOWED_NODE_COMMANDS_def demo_nodes_def OVERVIEW_TTL_def)

end
