(* ===== verification/Mail.thy ===== *)
theory Mail
  imports Ctl
begin

text \<open>
  The settings of the mail relay (\<open>core/mail/settings.py\<close>): the validators, what the core stored and the check of a
  request to change it.

  A refusal is a value of \<open>mail_error\<close>, one constructor for each sentence. The environment files are read from \<open>fs\<close>; the
  bytes of the module's file and the size of the password file come beside it, and SHA-256 is the argument \<open>sha\<close>.
\<close>

section \<open>Rules\<close>

definition RELAY_PROFILE :: string where "RELAY_PROFILE = ''smtp''"

definition SECURITY_MODES :: "string list" where
  "SECURITY_MODES = [''starttls'', ''tls'', ''none'']"

definition DEFAULT_PORTS :: "(string, int) dict" where
  "DEFAULT_PORTS = [(''starttls'', 587), (''tls'', 465), (''none'', 25)]"

definition KEY_HOST :: string where "KEY_HOST = ''SMTP_RELAY_UPSTREAM_HOST''"
definition KEY_PORT :: string where "KEY_PORT = ''SMTP_RELAY_UPSTREAM_PORT''"
definition KEY_SECURITY :: string where "KEY_SECURITY = ''SMTP_RELAY_UPSTREAM_SECURITY''"
definition KEY_USER :: string where "KEY_USER = ''SMTP_RELAY_UPSTREAM_USER''"
definition KEY_FROM :: string where "KEY_FROM = ''SMTP_RELAY_FROM_ADDRESS''"
definition KEY_FROM_NAME :: string where "KEY_FROM_NAME = ''SMTP_RELAY_FROM_NAME''"
definition DEFAULT_FROM_NAME :: string where "DEFAULT_FROM_NAME = ''papAIa''"
definition MAX_PASSWORD_LENGTH :: nat where "MAX_PASSWORD_LENGTH = 512"

datatype mail_error =
    BadMailHost string | BadMailPort string | BadMailSecurity string | EnvUnsafe string
  | BadMailLogin | BadMailAddress string | BadSenderName
  | PasswordLength | PasswordLines | PasswordSpaces
  | LoginUnencrypted | LoginNeedsPassword | PasswordElsewhere | PasswordNeedsLogin

definition is_alnum :: "char \<Rightarrow> bool" where
  "is_alnum c \<longleftrightarrow> is_alpha c \<or> is_digit c"

text \<open>\<open>[A-Za-z0-9](?:[inner]{0,n}[A-Za-z0-9])?\<close>: ends are letters or digits, at most \<open>n + 2\<close> characters.\<close>

definition bounded_name :: "(char \<Rightarrow> bool) \<Rightarrow> nat \<Rightarrow> string \<Rightarrow> bool" where
  "bounded_name inner n s \<longleftrightarrow>
     s \<noteq> [] \<and> is_alnum (hd s) \<and> is_alnum (last s) \<and> list_all inner s \<and> length s \<le> n + 2"

definition host_shape :: "string \<Rightarrow> bool" where
  "host_shape = bounded_name (\<lambda>c. is_alnum c \<or> c \<in> set ''.-'') 251"

definition label_shape :: "string \<Rightarrow> bool" where
  "label_shape = bounded_name (\<lambda>c. is_alnum c \<or> c = CHR ''-'') 61"

definition sender_shape :: "string \<Rightarrow> bool" where
  "sender_shape s \<longleftrightarrow>
     (case partition_char (CHR 0x40) s of
        (local_part, at, domain) \<Rightarrow>
          at \<and> local_part \<noteq> [] \<and> length local_part \<le> 64
          \<and> list_all (\<lambda>c. is_alnum c \<or> c \<in> {CHR ''.'', CHR ''_'', CHR 0x25, CHR ''+'', CHR ''-''}) local_part
          \<and> length (split_char (CHR ''.'') domain) \<ge> 2 \<and> list_all label_shape (split_char (CHR ''.'') domain))"

definition validate_host :: "string \<Rightarrow> mail_error + string" where
  "validate_host value =
     (let host = py_strip value
      in if host = [] \<or> \<not> match_dollar host_shape host then Inl (BadMailHost value) else Inr host)"

text \<open>The port of a request is a number or a text.\<close>

datatype port_input = PortNumber int | PortText string

definition port_str :: "port_input \<Rightarrow> string" where
  "port_str p = (case p of PortNumber n \<Rightarrow> str_of_int n | PortText t \<Rightarrow> t)"

definition validate_port :: "port_input \<Rightarrow> mail_error + int" where
  "validate_port value =
     (let n = (case int_of_text (port_str value) of Inl _ \<Rightarrow> 0 | Inr m \<Rightarrow> m)
      in if 1 \<le> n \<and> n \<le> 65535 then Inr n else Inl (BadMailPort (port_str value)))"

definition validate_security :: "string \<Rightarrow> mail_error + string" where
  "validate_security value =
     (let mode = py_lower (py_strip value) in if mode \<in> set SECURITY_MODES then Inr mode else Inl (BadMailSecurity value))"

definition mail_control :: "char \<Rightarrow> bool" where
  "mail_control c \<longleftrightarrow> code_of c < 32 \<or> code_of c = 127"

definition env_safe :: "string \<Rightarrow> string \<Rightarrow> mail_error + string" where
  "env_safe label value =
     (let text = py_strip value
      in if list_ex (\<lambda>c. mail_control c \<or> c \<in> set env_unsafe) text then Inl (EnvUnsafe label) else Inr text)"

definition validate_user :: "string \<Rightarrow> mail_error + string" where
  "validate_user value =
     rbind (env_safe ''The mail server login'' value) (\<lambda>user.
       if length user > 256 \<or> CHR '':'' \<in> set user then Inl BadMailLogin else Inr user)"

definition validate_address :: "string \<Rightarrow> mail_error + string" where
  "validate_address value =
     rbind (env_safe ''The sender address'' value) (\<lambda>address.
       if match_dollar sender_shape address then Inr address else Inl (BadMailAddress value))"

definition validate_display_name :: "string \<Rightarrow> mail_error + string" where
  "validate_display_name value =
     rbind (env_safe ''The sender name'' value) (\<lambda>name.
       if name = [] \<or> length name > 80 then Inl BadSenderName else Inr name)"

definition validate_password :: "string \<Rightarrow> mail_error + string" where
  "validate_password value =
     (if value = [] \<or> length value > MAX_PASSWORD_LENGTH then Inl PasswordLength
      else if list_ex (\<lambda>c. c \<in> set value) [CR, LF, CHR 0x00] then Inl PasswordLines
      else if value \<noteq> py_strip value then Inl PasswordSpaces
      else Inr value)"

section \<open>What the core stored\<close>

record relay_settings =
  rl_profile_on :: bool
  rl_host :: string
  rl_port :: "int option"
  rl_security :: string
  rl_user :: string
  rl_from_address :: string
  rl_from_name :: string
  rl_has_password :: bool
  rl_revision :: string

definition configured :: "relay_settings \<Rightarrow> bool" where
  "configured s \<longleftrightarrow> rl_host s \<noteq> [] \<and> rl_from_address s \<noteq> []"

definition default_port :: "string \<Rightarrow> int" where
  "default_port mode = (case dict_get DEFAULT_PORTS mode of Some p \<Rightarrow> p | None \<Rightarrow> 0)"

definition effective_port :: "relay_settings \<Rightarrow> int" where
  "effective_port s = (case rl_port s of Some p \<Rightarrow> p | None \<Rightarrow> default_port (rl_security s))"

definition module_env_path :: "string \<Rightarrow> string" where
  "module_env_path config_dir = path_join (path_join config_dir ''infra/smtp-relay'') ''.env''"

text \<open>The bytes of the module's environment file and the size of the password file, \<open>None\<close> when they cannot be read.\<close>

record mail_bytes =
  mb_module :: "string option"
  mb_password_size :: "nat option"

definition mail_revision :: "(string \<Rightarrow> string) \<Rightarrow> mail_bytes \<Rightarrow> bool \<Rightarrow> string" where
  "mail_revision sha b profile_on =
     sha ((case mb_module b of Some m \<Rightarrow> m | None \<Rightarrow> [])
          @ CHR 0x00 # (if profile_on then ''on'' else ''off'')
          @ (case mb_password_size b of Some n \<Rightarrow> str_of_nat n | None \<Rightarrow> ''-1''))"

definition env_value :: "(string, string) dict \<Rightarrow> string \<Rightarrow> string" where
  "env_value env key = py_strip (case dict_get env key of Some v \<Rightarrow> v | None \<Rightarrow> [])"

definition relay_settings_from ::
  "(string \<Rightarrow> string) \<Rightarrow> mail_bytes \<Rightarrow> (string, string) dict \<Rightarrow> (string, string) dict \<Rightarrow> relay_settings" where
  "relay_settings_from sha b root env =
     (let raw_port = env_value env KEY_PORT; security = py_lower (env_value env KEY_SECURITY);
          on = RELAY_PROFILE \<in> profiles_in root; name = env_value env KEY_FROM_NAME
      in \<lparr>rl_profile_on = on, rl_host = env_value env KEY_HOST,
          rl_port = (if str_isdigit raw_port then Some (int (int_of_digits raw_port)) else None),
          rl_security = (if security \<in> set SECURITY_MODES then security else ''starttls''),
          rl_user = env_value env KEY_USER, rl_from_address = env_value env KEY_FROM,
          rl_from_name = (if name = [] then DEFAULT_FROM_NAME else name),
          rl_has_password = (case mb_password_size b of Some n \<Rightarrow> n > 0 | None \<Rightarrow> False),
          rl_revision = mail_revision sha b on\<rparr>)"

definition load_mail_settings ::
  "(string \<Rightarrow> string) \<Rightarrow> mail_bytes \<Rightarrow> fs \<Rightarrow> string \<Rightarrow> py_exn + relay_settings" where
  "load_mail_settings sha b files config_dir =
     rbind (load_env_file files (path_join config_dir ''.env'')) (\<lambda>root.
     rbind (load_env_file files (module_env_path config_dir)) (\<lambda>env.
     Inr (relay_settings_from sha b root env)))"

section \<open>A request to change it\<close>

record mail_input =
  mi_host :: string
  mi_port :: int
  mi_security :: string
  mi_user :: string
  mi_from_address :: string
  mi_from_name :: string
  mi_password :: "string option"

definition password_action :: "mail_input \<Rightarrow> relay_settings \<Rightarrow> string" where
  "password_action data current =
     (if mi_user data = [] then (if rl_has_password current then ''removed'' else ''none'')
      else if given_text (mi_password data) then ''set'' else ''kept'')"

definition stored_secret_applies :: "relay_settings \<Rightarrow> string \<Rightarrow> int \<Rightarrow> string \<Rightarrow> bool" where
  "stored_secret_applies current host pnum user \<longleftrightarrow>
     rl_has_password current \<and> rl_user current \<noteq> [] \<and> rl_user current = user
     \<and> py_lower (rl_host current) = py_lower host \<and> effective_port current = pnum"

record mail_request =
  mr_host :: string
  mr_port :: "port_input option"
  mr_security :: string
  mr_user :: "string option"
  mr_from_address :: string
  mr_from_name :: "string option"
  mr_password :: "string option"

definition some_text :: "string option \<Rightarrow> bool" where
  "some_text v \<longleftrightarrow> (case v of Some s \<Rightarrow> py_strip s \<noteq> [] | None \<Rightarrow> False)"

definition check_login :: "relay_settings \<Rightarrow> mail_input \<Rightarrow> mail_error + mail_input" where
  "check_login current data =
     (if mi_user data \<noteq> [] then
        (if mi_security data = ''none'' then Inl LoginUnencrypted
         else if mi_password data = None then
           (if \<not> rl_has_password current then Inl LoginNeedsPassword
            else if \<not> stored_secret_applies current (mi_host data) (mi_port data) (mi_user data) then Inl PasswordElsewhere
            else Inr data)
         else Inr data)
      else if mi_password data \<noteq> None then Inl PasswordNeedsLogin
      else Inr data)"

definition validate_input :: "mail_request \<Rightarrow> relay_settings \<Rightarrow> mail_error + mail_input" where
  "validate_input r current =
     rbind (validate_security (mr_security r)) (\<lambda>mode.
     rbind (validate_host (mr_host r)) (\<lambda>host.
     rbind (case mr_port r of
              None \<Rightarrow> Inr (default_port mode)
            | Some p \<Rightarrow> if py_strip (port_str p) = [] then Inr (default_port mode) else validate_port p) (\<lambda>pnum.
     rbind (if some_text (mr_user r) then validate_user (the (mr_user r)) else Inr []) (\<lambda>user.
     rbind (validate_address (mr_from_address r)) (\<lambda>sender.
     rbind (validate_display_name (if some_text (mr_from_name r) then the (mr_from_name r) else DEFAULT_FROM_NAME)) (\<lambda>name.
     rbind (case mr_password r of
              None \<Rightarrow> Inr None
            | Some p \<Rightarrow> if p = [] then Inr None else rbind (validate_password p) (\<lambda>v. Inr (Some v))) (\<lambda>pw.
     check_login current
       \<lparr>mi_host = host, mi_port = pnum, mi_security = mode, mi_user = user, mi_from_address = sender,
        mi_from_name = name, mi_password = pw\<rparr>)))))))"

definition settings_json :: "relay_settings \<Rightarrow> (string, pyval) dict" where
  "settings_json s =
     [(''enabled'', PBool (rl_profile_on s)), (''configured'', PBool (configured s)), (''host'', PStr (rl_host s)),
      (''port'', PInt (effective_port s)), (''security'', PStr (rl_security s)), (''user'', PStr (rl_user s)),
      (''login'', PBool (rl_user s \<noteq> [])), (''has_password'', PBool (rl_has_password s)),
      (''from_address'', PStr (rl_from_address s)), (''from_name'', PStr (rl_from_name s)), (''revision'', PStr (rl_revision s))]"

text \<open>\<open>setup_spec\<close> of \<open>core/mail/service.py\<close>: every value named; a relay that is off stays off.\<close>

definition setup_spec :: "mail_input \<Rightarrow> bool \<Rightarrow> smtp_setup" where
  "setup_spec data relay_on =
     \<lparr>ss_enable = (if relay_on then Some True else None), ss_host = Some (mi_host data), ss_port = Some (mi_port data),
      ss_security = Some (mi_security data), ss_user = (if mi_user data = [] then None else Some (mi_user data)),
      ss_no_auth = (mi_user data = []), ss_sender = Some (mi_from_address data),
      ss_sender_name = Some (mi_from_name data), ss_password = mi_password data\<rparr>"

section \<open>What a checked request is\<close>

definition clean :: "string \<Rightarrow> bool" where
  "clean s \<longleftrightarrow> py_strip s = s \<and> list_all (\<lambda>c. \<not> mail_control c \<and> c \<notin> set env_unsafe) s"

definition mail_input_ok :: "mail_input \<Rightarrow> bool" where
  "mail_input_ok data \<longleftrightarrow>
     clean (mi_host data) \<and> mi_host data \<noteq> [] \<and> 1 \<le> mi_port data \<and> mi_port data \<le> 65535
     \<and> mi_security data \<in> set SECURITY_MODES \<and> clean (mi_user data)
     \<and> clean (mi_from_address data) \<and> mi_from_address data \<noteq> [] \<and> clean (mi_from_name data) \<and> mi_from_name data \<noteq> []
     \<and> (mi_user data = [] \<longrightarrow> mi_password data = None) \<and> mi_password data \<noteq> Some []
     \<and> (mi_user data \<noteq> [] \<longrightarrow> mi_security data \<noteq> ''none'')"

lemma env_safe_clean: "env_safe label value = Inr s \<Longrightarrow> clean s"
  by (auto simp: env_safe_def clean_def Let_def list_all_iff list_ex_iff split: if_splits)

lemma host_char_clean: "is_alnum c \<or> c \<in> set ''.-'' \<Longrightarrow> \<not> mail_control c \<and> c \<notin> set env_unsafe"
  by (auto simp: is_alnum_def is_alpha_def is_upper_def is_lower_def is_digit_def mail_control_def env_unsafe_def)

lemma validate_host_clean:
  assumes "validate_host v = Inr h"
  shows "clean h \<and> h \<noteq> []"
proof -
  from assms have h: "h = py_strip v" "h \<noteq> []" "host_shape h"
    by (auto simp: validate_host_def Let_def match_dollar_strip split: if_splits)
  then have "\<forall>c \<in> set h. is_alnum c \<or> c \<in> set ''.-''" by (simp add: host_shape_def bounded_name_def list_all_iff)
  then show ?thesis using h(1,2) host_char_clean by (auto simp only: clean_def py_strip_idem list_all_iff)
qed

lemma default_port_range: "mode \<in> set SECURITY_MODES \<Longrightarrow> 1 \<le> default_port mode \<and> default_port mode \<le> 65535"
  by (auto simp: SECURITY_MODES_def default_port_def DEFAULT_PORTS_def dict_get_def)

lemma validate_inputE:
  assumes "validate_input r current = Inr data"
  shows "mail_input_ok data \<and> check_login current data = Inr data"
proof -
  from assms obtain mode host pnum user sender name pw where
    v: "validate_security (mr_security r) = Inr mode" "validate_host (mr_host r) = Inr host"
      "(case mr_port r of None \<Rightarrow> Inr (default_port mode)
          | Some p \<Rightarrow> if py_strip (port_str p) = [] then Inr (default_port mode) else validate_port p) = Inr pnum"
      "(if some_text (mr_user r) then validate_user (the (mr_user r)) else Inr []) = Inr user"
      "validate_address (mr_from_address r) = Inr sender"
      "validate_display_name (if some_text (mr_from_name r) then the (mr_from_name r) else DEFAULT_FROM_NAME) = Inr name"
      "(case mr_password r of None \<Rightarrow> Inr None
          | Some p \<Rightarrow> if p = [] then Inr None else rbind (validate_password p) (\<lambda>v. Inr (Some v))) = Inr pw"
    and c: "check_login current \<lparr>mi_host = host, mi_port = pnum, mi_security = mode, mi_user = user,
        mi_from_address = sender, mi_from_name = name, mi_password = pw\<rparr> = Inr data"
    unfolding validate_input_def by (auto elim!: rbindE)
  have d: "data = \<lparr>mi_host = host, mi_port = pnum, mi_security = mode, mi_user = user,
      mi_from_address = sender, mi_from_name = name, mi_password = pw\<rparr>"
    using c by (auto simp: check_login_def split: if_splits)
  have mode: "mode \<in> set SECURITY_MODES" using v(1) by (auto simp: validate_security_def Let_def split: if_splits)
  have port: "1 \<le> pnum" "pnum \<le> 65535"
    using v(3) default_port_range [OF mode] by (auto simp: validate_port_def Let_def split: option.splits if_splits)
  have user: "clean user"
    using v(4) by (auto simp: validate_user_def clean_def elim!: rbindE dest!: env_safe_clean split: if_splits)
  have sender: "clean sender" "sender \<noteq> []"
    using v(5) by (auto simp: validate_address_def match_dollar_def sender_shape_def elim!: rbindE dest!: env_safe_clean split: if_splits)
  have name: "clean name" "name \<noteq> []"
    using v(6) by (auto simp: validate_display_name_def elim!: rbindE dest!: env_safe_clean split: if_splits)
  have pw: "pw \<noteq> Some []" using v(7) by (auto simp: validate_password_def elim!: rbindE split: option.splits if_splits)
  have login: "user = [] \<longrightarrow> pw = None" "user \<noteq> [] \<longrightarrow> mode \<noteq> ''none''"
    using c by (auto simp: check_login_def split: if_splits)
  show ?thesis
    using validate_host_clean [OF v(2)] mode port user sender name pw login c d by (simp add: mail_input_ok_def)
qed

text \<open>C33: 
  A stored password goes nowhere else: a request that is accepted with a login and without a password is for the host, the
  port and the login the password was stored with, and a login is never sent to a server without encryption.
\<close>

theorem stored_password_stays_put:
  assumes "validate_input r current = Inr data" "mi_user data \<noteq> []"
  shows "mi_security data \<noteq> ''none''
    \<and> (mi_password data = None \<longrightarrow>
         rl_has_password current \<and> rl_user current = mi_user data \<and> py_lower (rl_host current) = py_lower (mi_host data)
         \<and> effective_port current = mi_port data)"
  using validate_inputE [OF assms(1)] assms(2)
  by (auto simp: mail_input_ok_def check_login_def stored_secret_applies_def split: if_splits)

lemma plain_clean: "clean s \<Longrightarrow> s \<noteq> [] \<Longrightarrow> plain label s = Inr s"
  by (auto simp: plain_def clean_def mail_control_def list_all_iff list_ex_iff)

text \<open>
  A checked request is well formed for the next component: whatever \<open>validate_input\<close> accepts, the front end of
  \<open>papaia-ctl\<close> turns into options without a refusal, with the relay on or off.
\<close>

theorem validated_request_is_wellformed:
  assumes "validate_input r current = Inr data"
  shows "mail_input_ok data \<and> (\<exists>flags. smtp_setup_flags (setup_spec data relay_on) = Inr flags)"
proof -
  have ok: "mail_input_ok data" using validate_inputE [OF assms] by blast
  then have "login_flags (setup_spec data relay_on)
      = Inr (if mi_user data = [] then [''--smtp-no-auth''] else [''--smtp-user='' @ mi_user data])"
    by (simp add: login_flags_def setup_spec_def mail_input_ok_def plain_clean)
  with ok show ?thesis
    by (auto simp: smtp_setup_flags_def mail_input_ok_def plain_clean SECURITY_MODES_def SMTP_SECURITY_MODES_def
        all_unset_def given_text_def setup_spec_def)
qed

section \<open>The settings survive the environment file\<close>

text \<open>The core writes \<open>KEY=value\<close> lines without quotes.\<close>

definition env_lines :: "(string \<times> string) list \<Rightarrow> string" where
  "env_lines pairs = concat (map (\<lambda>l. l @ [LF]) (map (\<lambda>(k, v). k @ ''='' @ v) pairs))"

definition key_ok :: "string \<Rightarrow> bool" where
  "key_ok k \<longleftrightarrow> k \<noteq> [] \<and> hd k \<noteq> CHR 0x23 \<and> (\<forall>c \<in> set k. \<not> is_space c \<and> c \<noteq> CHR ''='')"

definition value_ok :: "string \<Rightarrow> bool" where
  "value_ok v \<longleftrightarrow> py_strip v = v \<and> (\<forall>c \<in> set v. \<not> is_linebreak c)"

lemma linebreak_space: "is_linebreak c \<Longrightarrow> is_space c"
  by (auto simp: is_linebreak_def is_space_def Let_def)

lemma stored_line_pair:
  assumes "key_ok k" "value_ok v"
  shows "env_line d (k @ ''='' @ v) = dict_set d k v"
proof -
  have k: "k \<noteq> []" "\<not> is_space (hd k)" using assms(1) by (auto simp: key_ok_def)
  have "\<not> is_space (last (k @ ''='' @ v))"
    using assms(2) py_strip_fixed(2) [of v] by (cases "v = []") (auto simp: value_ok_def is_space_def)
  then have strip: "py_strip (k @ ''='' @ v) = k @ ''='' @ v" using k by (intro py_strip_id) auto
  have "partition_char (CHR ''='') (k @ ''='' @ v) = (k, True, v)"
    using assms(1) partition_char_append [of "CHR ''=''" k v] by (auto simp: key_ok_def)
  moreover have "py_strip k = k" using assms(1) by (auto simp: key_ok_def intro: py_strip_clean)
  moreover have "\<not> startswith (k @ ''='' @ v) ''#''" using assms(1) by (cases k) (auto simp: key_ok_def)
  ultimately show ?thesis using assms(2) by (simp add: env_line_def strip value_ok_def del: append.simps)
qed

lemma parse_env_lines:
  assumes "\<forall>(k, v) \<in> set pairs. key_ok k \<and> value_ok v"
  shows "parse_env_text (env_lines pairs) = dict_of pairs"
proof -
  let ?ls = "map (\<lambda>(k, v). k @ ''='' @ v) pairs"
  have "\<forall>l \<in> set ?ls. \<forall>c \<in> set l. \<not> is_linebreak c"
  proof -
    have "\<not> is_linebreak (CHR ''='')" by (simp add: is_linebreak_def)
    then show ?thesis using assms by (fastforce simp: key_ok_def value_ok_def dest: linebreak_space)
  qed
  then have lines: "splitlines (env_lines pairs) = ?ls" unfolding env_lines_def by (rule splitlines_lines)
  have "foldl env_line d ?ls = foldl (\<lambda>m kv. dict_set m (fst kv) (snd kv)) d pairs" for d
    using assms
  proof (induction pairs arbitrary: d)
    case (Cons p ps)
    then show ?case using stored_line_pair [of "fst p" "snd p" d] by (auto simp: case_prod_beta simp del: append.simps)
  qed simp
  then show ?thesis by (simp add: parse_env_text_def lines dict_of_def)
qed

definition stored_pairs :: "mail_input \<Rightarrow> (string \<times> string) list" where
  "stored_pairs data =
     [(KEY_HOST, mi_host data), (KEY_PORT, str_of_int (mi_port data)), (KEY_SECURITY, mi_security data),
      (KEY_USER, mi_user data), (KEY_FROM, mi_from_address data), (KEY_FROM_NAME, mi_from_name data)]"

lemmas relay_keys = KEY_HOST_def KEY_PORT_def KEY_SECURITY_def KEY_USER_def KEY_FROM_def KEY_FROM_NAME_def

lemma clean_value_ok: "clean s \<Longrightarrow> value_ok s"
  by (auto simp: clean_def value_ok_def mail_control_def is_linebreak_def list_all_iff Let_def)

lemma digits_value_ok: "value_ok (str_of_nat n)"
  unfolding value_ok_def using str_of_nat_not_space linebreak_space by (metis py_strip_clean)

lemma stored_pairs_ok:
  assumes "mail_input_ok data"
  shows "\<forall>(k, v) \<in> set (stored_pairs data). key_ok k \<and> value_ok v"
proof -
  have "str_of_int (mi_port data) = str_of_nat (nat (mi_port data))" using assms by (simp add: str_of_int_def mail_input_ok_def)
  then have "value_ok (str_of_int (mi_port data))" by (simp add: digits_value_ok)
  moreover have "value_ok (mi_security data)"
    using assms by (auto simp: mail_input_ok_def SECURITY_MODES_def value_ok_def py_strip_def is_space_def is_linebreak_def)
  moreover have "key_ok k" if "k \<in> {KEY_HOST, KEY_PORT, KEY_SECURITY, KEY_USER, KEY_FROM, KEY_FROM_NAME}" for k
    using that by (auto simp: relay_keys key_ok_def is_space_def)
  ultimately show ?thesis using assms by (auto simp: stored_pairs_def mail_input_ok_def clean_value_ok)
qed

text \<open>
  Every setting of an accepted request survives the round trip through the environment file: what the core writes for it, one
  \<open>KEY=value\<close> line each, is read back as the same host, port, security, login, address and name.
\<close>

theorem relay_settings_roundtrip:
  assumes "validate_input r current = Inr data" "files (module_env_path config_dir) = Text (env_lines (stored_pairs data))"
    and "load_env_file files (path_join config_dir ''.env'') = Inr root"
  shows "\<exists>s. load_mail_settings sha b files config_dir = Inr s \<and> rl_host s = mi_host data
    \<and> effective_port s = mi_port data \<and> rl_security s = mi_security data \<and> rl_user s = mi_user data
    \<and> rl_from_address s = mi_from_address data \<and> rl_from_name s = mi_from_name data"
proof -
  have ok: "mail_input_ok data" using validate_inputE [OF assms(1)] by blast
  have env: "load_env_file files (module_env_path config_dir) = Inr (dict_of (stored_pairs data))"
    using assms(2) parse_env_lines [OF stored_pairs_ok [OF ok]] by (simp add: load_env_file_def is_file_def read_text_def)
  have port: "str_of_int (mi_port data) = str_of_nat (nat (mi_port data))" "0 \<le> mi_port data"
    using ok by (simp_all add: str_of_int_def mail_input_ok_def)
  have get: "env_value (dict_of (stored_pairs data)) KEY_HOST = mi_host data"
      "env_value (dict_of (stored_pairs data)) KEY_PORT = str_of_nat (nat (mi_port data))"
      "env_value (dict_of (stored_pairs data)) KEY_SECURITY = mi_security data"
      "env_value (dict_of (stored_pairs data)) KEY_USER = mi_user data"
      "env_value (dict_of (stored_pairs data)) KEY_FROM = mi_from_address data"
      "env_value (dict_of (stored_pairs data)) KEY_FROM_NAME = mi_from_name data"
    using stored_pairs_ok [OF ok] port(1)
    by (simp_all add: stored_pairs_def dict_of_def env_value_def relay_keys value_ok_def dict_get_def)
  have "py_lower (mi_security data) = mi_security data"
    using ok by (auto simp: mail_input_ok_def SECURITY_MODES_def py_lower_def lower_char_def is_upper_def)
  then have "relay_settings_from sha b root (dict_of (stored_pairs data)) = s \<Longrightarrow>
      rl_host s = mi_host data \<and> effective_port s = mi_port data \<and> rl_security s = mi_security data
      \<and> rl_user s = mi_user data \<and> rl_from_address s = mi_from_address data \<and> rl_from_name s = mi_from_name data" for s
    using ok port(2) by (auto simp: relay_settings_from_def get effective_port_def mail_input_ok_def Let_def)
  then show ?thesis using assms(3) env by (simp add: load_mail_settings_def)
qed

section \<open>Examples\<close>

definition demo_relay :: relay_settings where
  "demo_relay = \<lparr>rl_profile_on = True, rl_host = ''Mail.example.org'', rl_port = None, rl_security = ''tls'', rl_user = ''u'',
     rl_from_address = ''a@b.c'', rl_from_name = ''n'', rl_has_password = True, rl_revision = []\<rparr>"

definition demo_request :: mail_request where
  "demo_request = \<lparr>mr_host = '' mail.example.org'', mr_port = Some (PortText ''465''), mr_security = ''TLS'',
     mr_user = Some ''u'', mr_from_address = ''a@b.c'', mr_from_name = None, mr_password = None\<rparr>"

definition demo_input :: mail_input where
  "demo_input = \<lparr>mi_host = ''mail.example.org'', mi_port = 465, mi_security = ''tls'', mi_user = ''u'',
     mi_from_address = ''a@b.c'', mi_from_name = ''papAIa'', mi_password = None\<rparr>"

lemma demo_validated: "validate_input demo_request demo_relay = Inr demo_input"
  by code_simp

lemma stored_password_stays_put_witness:
  "mi_security demo_input \<noteq> ''none'' \<and> rl_has_password demo_relay \<and> rl_user demo_relay = mi_user demo_input
   \<and> py_lower (rl_host demo_relay) = py_lower (mi_host demo_input) \<and> effective_port demo_relay = mi_port demo_input"
proof -
  have "mi_password demo_input = None" "mi_user demo_input \<noteq> []" by (simp_all add: demo_input_def)
  then show ?thesis using stored_password_stays_put [OF demo_validated] by blast
qed

lemma validated_request_is_wellformed_witness:
  "mail_input_ok demo_input \<and> (\<exists>flags. smtp_setup_flags (setup_spec demo_input False) = Inr flags)"
  by (rule validated_request_is_wellformed [OF demo_validated])

definition demo_relay_files :: fs where
  "demo_relay_files p = (if p = module_env_path ''/c'' then Text (env_lines (stored_pairs demo_input)) else Absent)"

lemma relay_settings_roundtrip_witness:
  "\<exists>s. load_mail_settings (\<lambda>x. x) \<lparr>mb_module = None, mb_password_size = None\<rparr> demo_relay_files ''/c'' = Inr s
     \<and> rl_host s = mi_host demo_input \<and> effective_port s = mi_port demo_input \<and> rl_security s = mi_security demo_input
     \<and> rl_user s = mi_user demo_input \<and> rl_from_address s = mi_from_address demo_input
     \<and> rl_from_name s = mi_from_name demo_input"
proof (rule relay_settings_roundtrip [OF demo_validated])
  show "demo_relay_files (module_env_path ''/c'') = Text (env_lines (stored_pairs demo_input))"
    by (simp add: demo_relay_files_def)
  have "path_join ''/c'' ''.env'' \<noteq> module_env_path ''/c''" by code_simp
  then show "load_env_file demo_relay_files (path_join ''/c'' ''.env'') = Inr []"
    by (simp add: load_env_file_def is_file_def demo_relay_files_def)
qed

end
