(* ===== verification/Modules.thy ===== *)
theory Modules
  imports Nodes Mail
begin

text \<open>
  The optional modules of the core (\<open>core/config/modules.py\<close>): which are on, which the Modules tab may switch, and the
  checks of a request to switch one on or off.

  A refusal is a value of \<open>module_error\<close>, one constructor for each sentence. The files, the YAML reader and the process front
  end come in \<open>nodes_env\<close>; SHA-256, the bytes of the mail settings and the test for bracketed hosts in \<open>modules_lib\<close>.
\<close>

section \<open>The modules\<close>

definition KEY_VARIANT :: string where "KEY_VARIANT = ''LOCALAI_IMAGE_VARIANT''"
definition DEFAULT_VARIANT :: string where "DEFAULT_VARIANT = ''cpu''"
definition HOST_ONLY_VARIANTS :: "string list" where "HOST_ONLY_VARIANTS = [''vulkan'']"

definition SCOPE_KEEP :: string where "SCOPE_KEEP = ''keep''"
definition SCOPE_DATA :: string where "SCOPE_DATA = ''data''"
definition SCOPE_ALL :: string where "SCOPE_ALL = ''all''"
definition SCOPES :: "string list" where "SCOPES = [SCOPE_KEEP, SCOPE_DATA, SCOPE_ALL]"

definition RAG_CONFLICTING_ADDONS :: "string set" where
  "RAG_CONFLICTING_ADDONS = {''qdrant'', ''qdrant-connect'', ''qdrant-ingest''}"

record module_def =
  md_name :: string
  md_profile :: string
  md_title :: string
  md_switchable :: bool
  md_link :: string
  md_link_needs_module :: bool
  md_recreate :: "string list"
  md_needs_core_modules :: bool

definition MODULES :: "module_def list" where
  "MODULES =
     [\<lparr>md_name = ''localai'', md_profile = ''localai'', md_title = ''LocalAI'', md_switchable = True, md_link = [],
       md_link_needs_module = False, md_recreate = [], md_needs_core_modules = False\<rparr>,
      \<lparr>md_name = ''web-search'', md_profile = ''librechat-websearch'', md_title = ''Web Search'', md_switchable = True,
       md_link = [], md_link_needs_module = False, md_recreate = [], md_needs_core_modules = False\<rparr>,
      \<lparr>md_name = ''rag'', md_profile = ''rag'', md_title = ''RAG System'', md_switchable = True, md_link = ''/connections'',
       md_link_needs_module = True, md_recreate = [''librechat''], md_needs_core_modules = True\<rparr>,
      \<lparr>md_name = ''mail'', md_profile = ''smtp'', md_title = ''Mail Relay'', md_switchable = True, md_link = ''/mail/server'',
       md_link_needs_module = False, md_recreate = [], md_needs_core_modules = True\<rparr>,
      \<lparr>md_name = ''manager'', md_profile = ''manager'', md_title = ''papaia-manager'', md_switchable = False, md_link = [],
       md_link_needs_module = False, md_recreate = [], md_needs_core_modules = False\<rparr>]"

definition switchable :: "string \<Rightarrow> module_def option" where
  "switchable name = find_first (\<lambda>m. md_switchable m \<and> md_name m = name) MODULES"

record modules_lib =
  mo_sha256 :: "string \<Rightarrow> string"
  mo_mail_bytes :: mail_bytes
  mo_bracketed :: "string \<Rightarrow> bool"

datatype module_error =
    CannotSwitch | OnlyLocalAITakes | ChooseVariant | HostVariant string | UnknownVariant
  | TakesNoUrl | BadPublicUrl ctl_refusal
  | CoreTooOld | NotInCore string string | RagClash "string list" | NoMailServer
  | ChooseScope | KeepOnly | CannotDelete | TypeName string

datatype module_fault = ModuleError module_error | ModuleRaise py_exn

abbreviation env_path :: "'w nodes_env \<Rightarrow> string" where
  "env_path E \<equiv> path_join (ne_config_dir E) ''.env''"

definition mfault :: "py_exn + 'a \<Rightarrow> module_fault + 'a" where
  "mfault r = (case r of Inl e \<Rightarrow> Inl (ModuleRaise e) | Inr a \<Rightarrow> Inr a)"

section \<open>What is on\<close>

definition active :: "'w nodes_env \<Rightarrow> py_exn + string set" where
  "active E = rbind (load_env_file (ne_files E) (env_path E)) (\<lambda>env. Inr (profiles_in env))"

definition stored_variant :: "'w nodes_env \<Rightarrow> py_exn + string" where
  "stored_variant E =
     rbind (load_env_file (ne_files E) (env_path E)) (\<lambda>env.
       Inr (either_text (env_value env KEY_VARIANT) DEFAULT_VARIANT))"

definition modules_revision :: "modules_lib \<Rightarrow> 'w nodes_env \<Rightarrow> py_exn + string" where
  "modules_revision L E =
     rbind (load_env_file (ne_files E) (env_path E)) (\<lambda>env.
       Inr (take 16 (mo_sha256 L (join '','' (sorted_list_of_set (profiles_in env)) @ [LF]
              @ (case dict_get env KEY_VARIANT of Some v \<Rightarrow> v | None \<Rightarrow> [])))))"

definition service_count :: "'w nodes_env \<Rightarrow> string \<Rightarrow> py_exn + nat \<times> nat" where
  "service_count E profile =
     rbind (core_inventory (ne_yaml E) (ne_files E) (ne_workspace_dir E) {profile}) (\<lambda>all_items.
       let items = filter (\<lambda>i. profile \<in> ex_profiles i) all_items
       in Inr (length items, card (ex_module ` set items)))"

definition core_manages_modules :: "'w nodes_env \<Rightarrow> bool" where
  "core_manages_modules E \<longleftrightarrow>
     is_file (ne_files E) (path_join (path_join (ne_workspace_dir E) ''papaia'') ''tools/lib/modules.py'')"

text \<open>A \<open>YAMLError\<close> is no \<open>ValueError\<close>, and a document that is not a mapping has no \<open>get\<close>: both are raised.\<close>

definition active_addon :: "pyval \<Rightarrow> string list" where
  "active_addon entry =
     (case entry of PDict e \<Rightarrow> if truthy (get_none e ''active'') then [py_str_of (get_none e ''name'')] else [] | _ \<Rightarrow> [])"

definition conflicting_addons :: "'w nodes_env \<Rightarrow> py_exn + string list" where
  "conflicting_addons E =
     (case load_deployment_yaml (ne_yaml E) (ne_files E) (ne_config_dir E) of
        Inl e \<Rightarrow> if e \<in> {OSError, ValueError, UnicodeDecodeError} then Inr [] else Inl e
      | Inr deployment \<Rightarrow>
          rbind (py_get deployment ''addons'') (\<lambda>addons.
          rbind (py_iter (py_or addons (PList []))) (\<lambda>entries.
            Inr (sorted_list_of_set (set (concat (map active_addon entries)) \<inter> RAG_CONFLICTING_ADDONS)))))"

definition relay_settings_of :: "modules_lib \<Rightarrow> 'w nodes_env \<Rightarrow> py_exn + relay_settings" where
  "relay_settings_of L E = load_mail_settings (mo_sha256 L) (mo_mail_bytes L) (ne_files E) (ne_config_dir E)"

definition relay_configured :: "modules_lib \<Rightarrow> 'w nodes_env \<Rightarrow> py_exn + bool" where
  "relay_configured L E = rbind (relay_settings_of L E) (\<lambda>s. Inr (configured s))"

definition mail_defaults :: "modules_lib \<Rightarrow> 'w nodes_env \<Rightarrow> py_exn + (string, pyval) dict" where
  "mail_defaults L E =
     rbind (relay_settings_of L E) (\<lambda>s.
       Inr (map (\<lambda>k. (k, get_none (settings_json s) k))
         [''host'', ''port'', ''security'', ''user'', ''login'', ''has_password'', ''from_address'', ''from_name'']))"

record module_row =
  mw_name :: string
  mw_enabled :: bool
  mw_switchable :: bool
  mw_supported :: bool
  mw_problem :: string
  mw_link :: string
  mw_services :: nat
  mw_modules :: nat
  mw_node :: string
  mw_variant :: "string option"
  mw_configured :: "bool option"
  mw_can_delete :: bool
  mw_keep_only :: string

definition KEEP_ONLY_TEXT :: string where
  "KEEP_ONLY_TEXT = ''On a distributed installation the data and the settings stay: deleting them is not supported across nodes yet.''"

definition module_row_of ::
  "modules_lib \<Rightarrow> 'w nodes_env \<Rightarrow> string set \<Rightarrow> string \<Rightarrow> module_def \<Rightarrow> py_exn + module_row" where
  "module_row_of L E on variant m =
     rbind (service_count E (md_profile m)) (\<lambda>(services, modules).
     rbind (if md_name m = ''mail'' then rbind (relay_configured L E) (\<lambda>c. Inr (Some c)) else Inr None) (\<lambda>conf.
       let enabled = md_profile m \<in> on;
           shipped = services > 0 \<or> \<not> md_switchable m;
           supported = shipped \<and> (core_manages_modules E \<or> \<not> md_needs_core_modules m)
       in Inr \<lparr>mw_name = md_name m, mw_enabled = enabled, mw_switchable = (md_switchable m \<and> (supported \<or> enabled)),
            mw_supported = supported,
            mw_problem = (if md_switchable m \<and> \<not> supported
                          then tr (ne_i18n E) ''This papAIa core is too old to switch it from here.'' [] else []),
            mw_link = (if enabled \<or> \<not> md_link_needs_module m then md_link m else []),
            mw_services = services, mw_modules = modules, mw_node = profile_node E (md_profile m),
            mw_variant = (if md_name m = ''localai'' then Some variant else None), mw_configured = conf,
            mw_can_delete = (core_manages_modules E \<and> md_name m \<in> PURGE_MODULES),
            mw_keep_only = (if is_distributed E \<and> md_name m \<in> PURGE_MODULES then tr (ne_i18n E) KEEP_ONLY_TEXT [] else [])\<rparr>))"

definition modules_state :: "modules_lib \<Rightarrow> 'w nodes_env \<Rightarrow> py_exn + module_row list" where
  "modules_state L E =
     rbind (active E) (\<lambda>on. rbind (stored_variant E) (\<lambda>variant. rmap (module_row_of L E on variant) MODULES))"

section \<open>Checking a request\<close>

definition validate_enable :: "string \<Rightarrow> string option \<Rightarrow> module_error + string option" where
  "validate_enable name variant =
     (if switchable name = None then Inl CannotSwitch
      else if name \<noteq> ''localai'' then (if variant \<noteq> None then Inl OnlyLocalAITakes else Inr None)
      else case variant of
          None \<Rightarrow> Inl ChooseVariant
        | Some v \<Rightarrow>
            if v \<in> set HOST_ONLY_VARIANTS then Inl (HostVariant v)
            else if v \<notin> set LOCALAI_VARIANTS then Inl UnknownVariant
            else Inr (Some v))"

definition validate_public_url :: "modules_lib \<Rightarrow> string \<Rightarrow> string option \<Rightarrow> module_error + string option" where
  "validate_public_url L name value =
     (if \<not> some_text value then Inr None
      else if dict_get MODULE_URL_FLAGS name = None then Inl TakesNoUrl
      else case public_url (mo_bracketed L) (the value) of
          Inl e \<Rightarrow> Inl (BadPublicUrl e)
        | Inr u \<Rightarrow> Inr (Some u))"

definition check_enable :: "modules_lib \<Rightarrow> 'w nodes_env \<Rightarrow> string \<Rightarrow> bool \<Rightarrow> module_fault + unit" where
  "check_enable L E name mail_given =
     (case switchable name of
        None \<Rightarrow> Inl (ModuleRaise KeyError)
      | Some m \<Rightarrow>
          if md_needs_core_modules m \<and> \<not> core_manages_modules E then Inl (ModuleError CoreTooOld)
          else rbind (mfault (service_count E (md_profile m))) (\<lambda>(services, _).
               if services = 0 then Inl (ModuleError (NotInCore (md_title m) (md_profile m)))
               else rbind (if name = ''rag'' then mfault (conflicting_addons E) else Inr []) (\<lambda>clash.
                    if clash \<noteq> [] then Inl (ModuleError (RagClash clash))
                    else if name = ''mail'' \<and> \<not> mail_given then
                      rbind (mfault (relay_configured L E)) (\<lambda>c. if c then Inr () else Inl (ModuleError NoMailServer))
                    else Inr ())))"

definition validate_scope :: "'w nodes_env \<Rightarrow> string \<Rightarrow> string \<Rightarrow> string option \<Rightarrow> module_error + string" where
  "validate_scope E name scope confirm =
     (if scope \<notin> set SCOPES then Inl ChooseScope
      else if scope = SCOPE_KEEP then Inr scope
      else if is_distributed E then Inl KeepOnly
      else if \<not> core_manages_modules E then Inl CannotDelete
      else if py_strip (case confirm of Some c \<Rightarrow> c | None \<Rightarrow> []) \<noteq> name then Inl (TypeName name)
      else Inr scope)"

datatype module_answer = Unavailable string | Available "(string, pyval) dict"

definition module_info ::
  "'w nodes_env \<Rightarrow> string \<Rightarrow> 'w \<Rightarrow> (module_fault + module_answer) \<times> 'w" where
  "module_info E name w =
     (if switchable name = None then (Inl (ModuleError CannotSwitch), w)
      else if \<not> core_manages_modules E
      then (Inr (Unavailable (tr (ne_i18n E) ''This papAIa core can't delete a module's data.'' [])), w)
      else case run_module_info (ne_proc E) (ne_environ E) name (ne_workspace_dir E) (ne_config_dir E) w of
          (Inl (CtlError msg _), w') \<Rightarrow>
            (Inr (Unavailable (tr (ne_i18n E) ''The core did not answer: %(exc)s'' [(''exc'', msg)])), w')
        | (Inl (Refused _), w') \<Rightarrow> (Inl (ModuleRaise ValueError), w')
        | (Inr (code, out, err), w') \<Rightarrow>
            (Inr (if code \<noteq> 0 then
                    Unavailable (take 300 (py_strip (removeprefix ''ERROR:''
                      (case filter (\<lambda>l. l \<noteq> []) (map py_strip (splitlines (either_text err out))) of [] \<Rightarrow> [] | l # _ \<Rightarrow> l))))
                  else case ne_json E out of
                      Some (PDict document) \<Rightarrow> Available document
                    | _ \<Rightarrow> Unavailable (tr (ne_i18n E) ''The core's answer could not be read.'' [])), w'))"

section \<open>What the checks show\<close>

text \<open>
  Switching the RAG system on asks \<open>deployment.yaml\<close> for clashing add-ons. A file that cannot be read gives no clash, but one
  that is not YAML leaves the check with an exception that is no refusal: the request ends as a server error.
\<close>

theorem broken_deployment_breaks_enable:
  assumes "core_manages_modules E" "service_count E ''rag'' = Inr (Suc n, k)"
    and "ne_files E (path_join (ne_config_dir E) ''deployment.yaml'') = Text t" "ne_yaml E t = None"
  shows "check_enable L E ''rag'' mail_given = Inl (ModuleRaise YAMLError)"
  using assms
  by (simp add: check_enable_def switchable_def MODULES_def find_first_def mfault_def conflicting_addons_def
      load_deployment_yaml_def read_text_def)

text \<open>
  Every module the page can switch has exactly one way to be switched by \<open>setup\<close>, and is one the core can purge: a request
  whose module and variant were accepted is turned into options without a refusal, on as well as off.
\<close>

theorem switch_request_is_wellformed:
  assumes "validate_enable name variant = Inr v" "name \<noteq> ''mail''"
  shows "name \<in> PURGE_MODULES
    \<and> (\<exists>flags. module_setup_flags bracketed \<lparr>mu_module = name, mu_enable = True, mu_variant = v, mu_public_url = None\<rparr> = Inr flags)
    \<and> (\<exists>flags. module_setup_flags bracketed \<lparr>mu_module = name, mu_enable = False, mu_variant = None, mu_public_url = None\<rparr> = Inr flags)"
proof -
  from assms have "name \<in> {''localai'', ''web-search'', ''rag''}"
    by (auto simp: validate_enable_def switchable_def MODULES_def find_first_def split: if_splits)
  with assms(1) show ?thesis
    by (auto simp: validate_enable_def PURGE_MODULES_def module_setup_flags_def MODULE_SETUP_FLAGS_def dict_get_def Let_def
        split: if_splits option.splits)
qed

lemma switch_request_is_wellformed_witness:
  "''localai'' \<in> PURGE_MODULES
    \<and> (\<exists>flags. module_setup_flags (\<lambda>n. True) \<lparr>mu_module = ''localai'', mu_enable = True, mu_variant = Some ''intel'',
          mu_public_url = None\<rparr> = Inr flags)
    \<and> (\<exists>flags. module_setup_flags (\<lambda>n. True) \<lparr>mu_module = ''localai'', mu_enable = False, mu_variant = None,
          mu_public_url = None\<rparr> = Inr flags)"
  by (rule switch_request_is_wellformed [of _ "Some ''intel''"]) (code_simp, simp)

definition demo_modules_env :: "unit nodes_env" where
  "demo_modules_env = \<lparr>ne_i18n = \<lparr>tr = \<lambda>m a. m, ntr = \<lambda>m p n a. m\<rparr>,
     ne_yaml = (\<lambda>t. if t = ''root'' then Some (PDict [(''include'', PList [PStr ''rag.yml''])])
        else if t = ''rag'' then Some (PDict [(''services'', PDict [(''qdrant'', PDict [(''profiles'', PList [PStr ''rag''])])])])
        else None),
     ne_json = (\<lambda>t. None),
     ne_files = (\<lambda>p. if p = ''/c/deployment.yaml'' then Text ''{'' else if p = ''/w/papaia/tools/lib/modules.py'' then Text []
        else if p = ''/w/papaia/src/docker-compose.yml'' then Text ''root''
        else if p = ''/w/papaia/src/rag.yml'' then Text ''rag'' else Absent),
     ne_config_dir = ''/c'', ne_workspace_dir = ''/w'', ne_placement = None, ne_environ = [],
     ne_proc = (\<lambda>call limit w. (Killed, w))\<rparr>"

lemma broken_deployment_breaks_enable_witness:
  "check_enable \<lparr>mo_sha256 = \<lambda>s. s, mo_mail_bytes = \<lparr>mb_module = None, mb_password_size = None\<rparr>, mo_bracketed = \<lambda>n. True\<rparr>
     demo_modules_env ''rag'' False = Inl (ModuleRaise YAMLError)"
proof (rule broken_deployment_breaks_enable)
  show "core_manages_modules demo_modules_env" by code_simp
  show "service_count demo_modules_env ''rag'' = Inr (Suc 0, 1)" by code_simp
  show "ne_files demo_modules_env (path_join (ne_config_dir demo_modules_env) ''deployment.yaml'') = Text ''{''" by code_simp
  show "ne_yaml demo_modules_env ''{'' = None" by code_simp
qed

end
