(* ===== verification/Overlay.thy ===== *)
theory Overlay
  imports Inventory "HOL-Library.Sublist"
begin

text \<open>
  The customer overlay and its history (\<open>core/config/overlay.py\<close>, \<open>core/config/history.py\<close>): which files the editor
  offers, reading, checking, the compare-and-swap that replaces or removes a file, and the saved versions.

  Bytes are a \<open>string\<close>, one character per byte, and a text stands for its UTF-8 encoding. SHA-256, \<open>yaml.safe_load\<close>,
  \<open>strftime\<close>, \<open>strptime\<close> and the order in which a directory is listed are fields of \<open>overlay_lib\<close>. Every system call
  that can fail asks \<open>faults\<close> for its \<open>OSError\<close>. The host edits the same files while the manager works, and no lock keeps
  it out: \<open>race\<close> holds what it does between two system calls of one operation.
\<close>

section \<open>Targets\<close>

record overlay_target =
  ot_key :: string
  ot_label :: string
  ot_path :: string
  ot_profile :: string
  ot_description :: string

definition MAX_BYTES :: nat where "MAX_BYTES = 256 * 1024"
definition DEFAULT_MODE :: nat where "DEFAULT_MODE = 384"

definition OTHER_RENDER_TARGETS :: "string list" where
  "OTHER_RENDER_TARGETS =
     [''ai/litellm/prometheus.yml'', ''ai/localai/models.txt'', ''ai/localai/models'',
      ''infra/keycloak/keycloak.conf'', ''infra/keycloak/themes/papaia'']"

definition TARGETS :: "overlay_target list" where
  "TARGETS =
     [\<lparr>ot_key = ''librechat'', ot_label = ''LibreChat'', ot_path = ''ai/librechat/librechat.yaml'',
       ot_profile = ''librechat'',
       ot_description = ''Endpoints, memory and web search settings of the chat interface.''\<rparr>,
      \<lparr>ot_key = ''litellm'', ot_label = ''LiteLLM'', ot_path = ''ai/litellm/config.yaml'',
       ot_profile = ''litellm'', ot_description = ''Models and routing of the LLM gateway.''\<rparr>,
      \<lparr>ot_key = ''searxng'', ot_label = ''SearXNG'', ot_path = ''services/searxng/settings.yml'',
       ot_profile = ''librechat-websearch'',
       ot_description = ''Engines and search behaviour of the meta-search.''\<rparr>]"

section \<open>The disk and what can go wrong\<close>

text \<open>
  What is at the path of an overlay file: nothing, a file with its bytes, time of change and mode, a symbolic link and a
  file that cannot be read (with the text of the \<open>OSError\<close>); the last two with the mode \<open>stat\<close> reports.
\<close>

datatype overlay_entry = NoFile | Plain string instant nat | Link nat | Broken string nat

datatype history_entry = Saved string | Unopened string | NotAFile

record disk =
  dk_overlay :: "string \<Rightarrow> overlay_entry"
  dk_history :: "string \<Rightarrow> (string, history_entry) dict option"

datatype io_call =
  MakeParent | StageOpen | StageWrite | Rename | Remove | RemoveStaged
| MakeHistory | SaveOpen | SaveWrite | SaveRename | RemoveVersion string

record faults =
  ft_error :: "io_call \<Rightarrow> string option"
  ft_partial :: string

record race =
  rc_before :: "disk \<Rightarrow> disk"
  rc_check :: "disk \<Rightarrow> disk"
  rc_after :: "disk \<Rightarrow> disk"

datatype yaml_answer = Document pyval | YamlFailed "string option" "(int \<times> int) option"

record overlay_lib =
  ol_i18n :: i18n
  ol_sha256 :: "string \<Rightarrow> string"
  ol_yaml :: "string \<Rightarrow> yaml_answer"
  ol_strftime :: "instant \<Rightarrow> string"
  ol_strptime :: "string \<Rightarrow> instant option"
  ol_listdir :: "string list \<Rightarrow> string list"

abbreviation ol_tr :: "overlay_lib \<Rightarrow> string \<Rightarrow> (string, string) dict \<Rightarrow> string" where
  "ol_tr L \<equiv> tr (ol_i18n L)"

section \<open>Reading and checking\<close>

text \<open>An \<open>OverlayError\<close> is its message.\<close>

definition target :: "overlay_lib \<Rightarrow> string \<Rightarrow> string + overlay_target" where
  "target L key =
     (case find_first (\<lambda>t. ot_key t = key) TARGETS of
        None \<Rightarrow> Inl (ol_tr L ''Unknown overlay file.'' [])
      | Some t \<Rightarrow> Inr t)"

definition overlay_dir :: "string \<Rightarrow> string" where
  "overlay_dir config_dir = path_join config_dir ''overlay''"

definition overlay_path :: "overlay_lib \<Rightarrow> string \<Rightarrow> string \<Rightarrow> string + string" where
  "overlay_path L config_dir key =
     rbind (target L key) (\<lambda>t. Inr (path_join (overlay_dir config_dir) (ot_path t)))"

definition revision_of :: "overlay_lib \<Rightarrow> string option \<Rightarrow> string" where
  "revision_of L raw = (case raw of None \<Rightarrow> [] | Some b \<Rightarrow> ol_sha256 L b)"

record problem =
  pb_message :: string
  pb_line :: "int option"
  pb_column :: "int option"

record overlay_file =
  of_key :: string
  of_exists :: bool
  of_raw :: "string option"
  of_revision :: string
  of_modified :: "instant option"

definition of_size :: "overlay_file \<Rightarrow> nat" where
  "of_size f = (case of_raw f of None \<Rightarrow> 0 | Some b \<Rightarrow> length b)"

definition overlay_read :: "overlay_lib \<Rightarrow> string \<Rightarrow> string \<Rightarrow> disk \<Rightarrow> string + overlay_file" where
  "overlay_read L config_dir key d =
     rbind (overlay_path L config_dir key) (\<lambda>path.
       case dk_overlay d path of
         Link _ \<Rightarrow> Inl (ol_tr L ''This overlay file is a symbolic link. Edit it on the host.'' [])
       | NoFile \<Rightarrow> Inr \<lparr>of_key = key, of_exists = False, of_raw = None, of_revision = [], of_modified = None\<rparr>
       | Broken e _ \<Rightarrow> Inl (ol_tr L ''The overlay file can't be read (%(value)s).'' [(''value'', e)])
       | Plain raw t _ \<Rightarrow>
           Inr \<lparr>of_key = key, of_exists = True, of_raw = Some raw, of_revision = revision_of L (Some raw),
                of_modified = Some t\<rparr>)"

definition just_problem :: "string \<Rightarrow> problem" where
  "just_problem m = \<lparr>pb_message = m, pb_line = None, pb_column = None\<rparr>"

definition overlay_check :: "overlay_lib \<Rightarrow> string \<Rightarrow> problem list" where
  "overlay_check L content =
     (if length content > MAX_BYTES
      then [just_problem (ol_tr L ''The file is larger than %(value)s KiB.'' [(''value'', str_of_nat (MAX_BYTES div 1024))])]
      else if CHR 0x00 \<in> set content then [just_problem (ol_tr L ''The file contains a NUL character.'' [])]
      else case ol_yaml L content of
          YamlFailed p mark \<Rightarrow>
            let msg = (case p of None \<Rightarrow> ol_tr L ''invalid YAML'' [] | Some m \<Rightarrow> if m = [] then ol_tr L ''invalid YAML'' [] else m)
            in (case mark of
                  Some (line, column) \<Rightarrow> [\<lparr>pb_message = msg, pb_line = Some (line + 1), pb_column = Some (column + 1)\<rparr>]
                | None \<Rightarrow> [just_problem msg])
        | Document PNone \<Rightarrow> []
        | Document (PDict _) \<Rightarrow> []
        | Document _ \<Rightarrow>
            [\<lparr>pb_message = ol_tr L ''The top level must be a mapping (key: value).'' [],
              pb_line = Some 1, pb_column = Some 1\<rparr>])"

text \<open>\<open>summary\<close> is only called for a draft without problems; a \<open>YAMLError\<close> leaves it as it is.\<close>

definition overlay_summary :: "overlay_lib \<Rightarrow> string \<Rightarrow> py_exn + string" where
  "overlay_summary L content =
     (case ol_yaml L content of
        YamlFailed _ _ \<Rightarrow> Inl YAMLError
      | Document v \<Rightarrow>
          let n = (case v of PDict m \<Rightarrow> length m | _ \<Rightarrow> 0)
          in Inr (if n = 0 then ol_tr L ''empty overlay (changes nothing)'' []
                  else ntr (ol_i18n L) ''top level is a mapping with %(count)s key''
                         ''top level is a mapping with %(count)s keys'' (int n) [(''count'', str_of_nat n)]))"

section \<open>Compare and swap\<close>

definition mode_at :: "overlay_entry \<Rightarrow> nat option" where
  "mode_at e = (case e of NoFile \<Rightarrow> None | Plain _ _ m \<Rightarrow> Some m | Link m \<Rightarrow> Some m | Broken _ m \<Rightarrow> Some m)"

definition put_entry :: "string \<Rightarrow> overlay_entry \<Rightarrow> disk \<Rightarrow> disk" where
  "put_entry path e d = d\<lparr>dk_overlay := (dk_overlay d)(path := e)\<rparr>"

text \<open>\<open>path.with_name\<close> of the temporary file: the last component gets a leading dot and a suffix.\<close>

definition staged_path :: "string \<Rightarrow> string" where
  "staged_path path =
     (let name = path_name path
      in take (length path - length name) path @ ''.'' @ name @ ''.manager-tmp'')"

text \<open>\<open>_stage\<close>: the temporary file is removed and created anew. What a failed write leaves is \<open>ft_partial\<close>.\<close>

definition stage :: "faults \<Rightarrow> instant \<Rightarrow> string \<Rightarrow> string \<Rightarrow> nat \<Rightarrow> disk \<Rightarrow> (string + unit) \<times> disk" where
  "stage F now tmp data mode d =
     (case ft_error F RemoveStaged of
        Some e \<Rightarrow> (Inl e, d)
      | None \<Rightarrow>
          let d0 = put_entry tmp NoFile d
          in (case ft_error F StageOpen of
                Some e \<Rightarrow> (Inl e, d0)
              | None \<Rightarrow>
                  (case ft_error F StageWrite of
                     Some e \<Rightarrow> (Inl e, put_entry tmp (Plain (ft_partial F) now mode) d0)
                   | None \<Rightarrow> (Inr (), put_entry tmp (Plain data now mode) d0))))"

text \<open>The part of \<open>write\<close> between its comparison and the \<open>finally\<close>.\<close>

definition swap_in ::
  "faults \<Rightarrow> instant \<Rightarrow> string \<Rightarrow> string \<Rightarrow> bool \<Rightarrow> disk \<Rightarrow> (string + unit) \<times> disk" where
  "swap_in F now path data existed d =
     (case ft_error F MakeParent of
        Some e \<Rightarrow> (Inl e, d)
      | None \<Rightarrow>
          (case (if existed then mode_at (dk_overlay d path) else Some DEFAULT_MODE) of
             None \<Rightarrow> (Inl ''No such file or directory'', d)
           | Some mode \<Rightarrow>
               (case stage F now (staged_path path) data mode d of
                  (Inl e, d1) \<Rightarrow> (Inl e, d1)
                | (Inr _, d1) \<Rightarrow>
                    (case ft_error F Rename of
                       Some e \<Rightarrow> (Inl e, d1)
                     | None \<Rightarrow> (Inr (), put_entry (staged_path path) NoFile (put_entry path (Plain data now mode) d1))))))"

definition clear_staged :: "faults \<Rightarrow> string \<Rightarrow> disk \<Rightarrow> disk" where
  "clear_staged F path d = (if ft_error F RemoveStaged = None then put_entry (staged_path path) NoFile d else d)"

definition overlay_write ::
  "overlay_lib \<Rightarrow> faults \<Rightarrow> race \<Rightarrow> instant \<Rightarrow> string \<Rightarrow> string \<Rightarrow> string \<Rightarrow> string \<Rightarrow> disk
    \<Rightarrow> (string + overlay_file option) \<times> disk" where
  "overlay_write L F R now config_dir key data expected d =
     (case overlay_path L config_dir key of
        Inl e \<Rightarrow> (Inl e, d)
      | Inr path \<Rightarrow>
          (case overlay_read L config_dir key d of
             Inl e \<Rightarrow> (Inl e, d)
           | Inr current \<Rightarrow>
               if of_revision current \<noteq> expected then (Inr None, d)
               else (case swap_in F now path data (of_exists current) (rc_check R d) of
                   (Inl e, d1) \<Rightarrow>
                     (Inl (ol_tr L ''The overlay file can't be written (%(value)s).'' [(''value'', e)]), clear_staged F path d1)
                 | (Inr _, d1) \<Rightarrow>
                     let d2 = rc_after R (clear_staged F path d1)
                     in (rbind (overlay_read L config_dir key d2) (\<lambda>f. Inr (Some f)), d2))))"

definition overlay_delete ::
  "overlay_lib \<Rightarrow> faults \<Rightarrow> race \<Rightarrow> string \<Rightarrow> string \<Rightarrow> string \<Rightarrow> disk \<Rightarrow> (string + bool) \<times> disk" where
  "overlay_delete L F R config_dir key expected d =
     (case overlay_path L config_dir key of
        Inl e \<Rightarrow> (Inl e, d)
      | Inr path \<Rightarrow>
          (case overlay_read L config_dir key d of
             Inl e \<Rightarrow> (Inl e, d)
           | Inr current \<Rightarrow>
               if of_revision current \<noteq> expected then (Inr False, d)
               else (let d1 = rc_check R d
                     in case ft_error F Remove of
                          Some e \<Rightarrow> (Inl (ol_tr L ''The overlay file can't be removed (%(value)s).'' [(''value'', e)]), d1)
                        | None \<Rightarrow> (Inr True, put_entry path NoFile d1))))"

text \<open>
  What else is under \<open>overlay/\<close>: \<open>tree\<close> is the listing \<open>rglob\<close> gives, a path relative to the directory and whether it is
  a file, \<open>None\<close> when there is no such directory. Paths sort by their components.
\<close>

definition other_note :: "overlay_lib \<Rightarrow> string \<Rightarrow> string" where
  "other_note L rel =
     (if rel \<in> set OTHER_RENDER_TARGETS \<or> list_ex (\<lambda>t. startswith rel (t @ ''/'')) OTHER_RENDER_TARGETS
      then ol_tr L ''used by the render, not editable here'' [] else ol_tr L ''ignored by the render'' [])"

definition other_files :: "overlay_lib \<Rightarrow> (string \<times> bool) list option \<Rightarrow> (string \<times> string) list" where
  "other_files L tree =
     (case tree of
        None \<Rightarrow> []
      | Some entries \<Rightarrow>
          [(rel, other_note L rel).
             (rel, file) \<leftarrow> sorted_by (\<lambda>e. split_char (CHR 0x2F) (fst e)) entries,
             file \<and> \<not> startswith (path_name rel) ''.'' \<and> rel \<notin> ot_path ` set TARGETS])"

section \<open>History\<close>

definition KEEP :: nat where "KEEP = 20"
definition HISTORY_EVENTS :: "string list" where "HISTORY_EVENTS = [''apply'', ''discard'', ''rollback'']"
definition SUFFIX :: string where "SUFFIX = ''.bak''"

definition stamp_picture :: string where "stamp_picture = ''ddddddddTddddddZ''"

definition stamp_shape :: "string \<Rightarrow> bool" where
  "stamp_shape s \<longleftrightarrow> list_all2 (\<lambda>p c. if p = CHR ''d'' then is_digit c else c = p) stamp_picture s"

text \<open>
  \<open>_ID_RE\<close> gives the stamp, the event and the counter. Its \<open>$\<close> also matches before a line feed at the very end.
\<close>

definition id_counter :: "string \<Rightarrow> string option option" where
  "id_counter rest =
     (if rest = [] then Some None
      else if hd rest = CHR ''-'' \<and> str_isdigit (tl rest) \<and> length (tl rest) \<le> 3 then Some (Some (tl rest))
      else None)"

definition id_groups :: "string \<Rightarrow> (string \<times> string \<times> string option) option" where
  "id_groups s =
     (if stamp_shape (take 16 s) \<and> startswith (drop 16 s) ''-'' then
        (case find_first (startswith (drop 17 s)) HISTORY_EVENTS of
           None \<Rightarrow> None
         | Some e \<Rightarrow> map_option (\<lambda>c. (take 16 s, e, c)) (id_counter (drop (17 + length e) s)))
      else None)"

definition match_id :: "string \<Rightarrow> (string \<times> string \<times> string option) option" where
  "match_id s = id_groups (if s \<noteq> [] \<and> last s = LF then butlast s else s)"

definition valid_id :: "string \<Rightarrow> bool" where
  "valid_id s \<longleftrightarrow> match_id s \<noteq> None"

definition removesuffix :: "string \<Rightarrow> string \<Rightarrow> string" where
  "removesuffix s suf = (if suf \<noteq> [] \<and> suffix suf s then take (length s - length suf) s else s)"

record version =
  vn_id :: string
  vn_when :: instant
  vn_event :: string
  vn_size :: nat
  vn_revision :: string

definition history_dir :: "overlay_lib \<Rightarrow> string \<Rightarrow> string \<Rightarrow> string + string" where
  "history_dir L config_dir key =
     rbind (target L key) (\<lambda>_. Inr (path_join (path_join (path_join config_dir ''manager'') ''overlay-history'') key))"

text \<open>The name of the \<open>n\<close>-th version of a second and the first number that is free.\<close>

definition numbered_id :: "string \<Rightarrow> nat \<Rightarrow> string" where
  "numbered_id base n = (if n = 0 then base else base @ ''-'' @ str_of_nat n)"

lemma numbered_id_inj: "numbered_id base m = numbered_id base n \<longleftrightarrow> m = n"
  by (auto simp: numbered_id_def)

function free_number :: "string \<Rightarrow> string list \<Rightarrow> nat \<Rightarrow> nat" where
  "free_number base names n =
     (if numbered_id base n @ SUFFIX \<in> set names then free_number base names (n + 1) else n)"
  by auto

termination
proof (relation "measure (\<lambda>(base, names, n). card {m. n \<le> m \<and> numbered_id base m @ SUFFIX \<in> set names})")
  fix base and names :: "string list" and n
  assume used: "numbered_id base n @ SUFFIX \<in> set names"
  let ?taken = "\<lambda>n. {m. n \<le> m \<and> numbered_id base m @ SUFFIX \<in> set names}"
  have "finite (?taken n)"
    by (rule finite_imageD [where f = "\<lambda>m. numbered_id base m @ SUFFIX"], rule finite_subset [of _ "set names"])
      (auto simp: inj_on_def numbered_id_inj)
  moreover have "?taken (n + 1) \<subset> ?taken n"
  proof
    show "?taken (n + 1) \<subseteq> ?taken n" by auto
    have "n \<in> ?taken n" "n \<notin> ?taken (n + 1)" using used by auto
    then show "?taken (n + 1) \<noteq> ?taken n" by blast
  qed
  ultimately show "((base, names, n + 1), base, names, n)
      \<in> measure (\<lambda>(base, names, n). card {m. n \<le> m \<and> numbered_id base m @ SUFFIX \<in> set names})"
    by (simp add: psubset_card_mono)
qed simp

declare free_number.simps [simp del]

definition history_at :: "disk \<Rightarrow> string \<Rightarrow> (string, history_entry) dict" where
  "history_at d dir = (case dk_history d dir of None \<Rightarrow> [] | Some h \<Rightarrow> h)"

definition put_history :: "string \<Rightarrow> (string, history_entry) dict \<Rightarrow> disk \<Rightarrow> disk" where
  "put_history dir h d = d\<lparr>dk_history := (dk_history d)(dir := Some h)\<rparr>"

definition version_order :: "string \<Rightarrow> string \<times> nat" where
  "version_order name =
     (case match_id (removesuffix name SUFFIX) of
        None \<Rightarrow> ([], 0)
      | Some (stamp, _, c) \<Rightarrow> (stamp, case c of None \<Rightarrow> 0 | Some ds \<Rightarrow> int_of_digits ds))"

definition is_version :: "(string, history_entry) dict \<Rightarrow> string \<Rightarrow> bool" where
  "is_version h name \<longleftrightarrow>
     (case dict_get h name of Some (Saved _) \<Rightarrow> True | Some (Unopened _) \<Rightarrow> True | _ \<Rightarrow> False)
     \<and> valid_id (removesuffix name SUFFIX)"

definition ordered :: "overlay_lib \<Rightarrow> (string, history_entry) dict \<Rightarrow> string list" where
  "ordered L h = sorted_desc version_order (filter (is_version h) (ol_listdir L (dict_keys h)))"

definition unlink_version :: "faults \<Rightarrow> (string, history_entry) dict \<Rightarrow> string \<Rightarrow> (string, history_entry) dict" where
  "unlink_version F h name = (if ft_error F (RemoveVersion name) = None then dict_del h name else h)"

definition prune_history :: "overlay_lib \<Rightarrow> faults \<Rightarrow> nat \<Rightarrow> string \<Rightarrow> disk \<Rightarrow> disk" where
  "prune_history L F n dir d =
     (case dk_history d dir of
        None \<Rightarrow> d
      | Some h \<Rightarrow> put_history dir (foldl (unlink_version F) h (drop n (ordered L h))) d)"

text \<open>The \<open>try\<close> of \<open>save\<close>: the copy is staged, flushed and renamed.\<close>

definition store_version ::
  "overlay_lib \<Rightarrow> faults \<Rightarrow> string \<Rightarrow> string \<Rightarrow> string \<Rightarrow> disk \<Rightarrow> (string + string) \<times> disk" where
  "store_version L F dir base data d =
     (case ft_error F MakeHistory of
        Some e \<Rightarrow> (Inl e, d)
      | None \<Rightarrow>
          let h = history_at d dir;
              vid = numbered_id base (free_number base (dict_keys h) 0);
              staged = ''.'' @ vid @ ''.tmp''
          in (case (if staged \<in> set (dict_keys h) then Some ''File exists'' else ft_error F SaveOpen) of
                Some e \<Rightarrow> (Inl e, put_history dir h d)
              | None \<Rightarrow>
                  (case ft_error F SaveWrite of
                     Some e \<Rightarrow> (Inl e, put_history dir (dict_set h staged (Saved (ft_partial F))) d)
                   | None \<Rightarrow>
                       (case ft_error F SaveRename of
                          Some e \<Rightarrow> (Inl e, put_history dir (dict_set h staged (Saved data)) d)
                        | None \<Rightarrow> (Inr vid, put_history dir (dict_set h (vid @ SUFFIX) (Saved data)) d)))))"

datatype history_fault = Overlay_Error string | Value_Error string

definition history_save ::
  "overlay_lib \<Rightarrow> faults \<Rightarrow> instant \<Rightarrow> string \<Rightarrow> string \<Rightarrow> string \<Rightarrow> string \<Rightarrow> disk
    \<Rightarrow> (history_fault + string) \<times> disk" where
  "history_save L F now config_dir key data event d =
     (if event \<notin> set HISTORY_EVENTS
      then (Inl (Value_Error (ol_tr L ''unknown event %(event)r'' [(''event'', event)])), d)
      else case history_dir L config_dir key of
          Inl e \<Rightarrow> (Inl (Overlay_Error e), d)
        | Inr dir \<Rightarrow>
            (case store_version L F dir (ol_strftime L now @ ''-'' @ event) data d of
               (Inl e, d1) \<Rightarrow>
                 (Inl (Overlay_Error (ol_tr L
                    ''The previous version can't be saved (%(value)s); nothing was changed.'' [(''value'', e)])), d1)
             | (Inr vid, d1) \<Rightarrow> (Inr vid, prune_history L F KEEP dir d1)))"

text \<open>\<open>_parse\<close>: the stamp has the right shape here, but \<open>strptime\<close> still refuses one that is no date.\<close>

definition parse_version :: "overlay_lib \<Rightarrow> (string, history_entry) dict \<Rightarrow> string \<Rightarrow> py_exn + version option" where
  "parse_version L h name =
     (let vid = removesuffix name SUFFIX
      in case match_id vid of
           None \<Rightarrow> Inr None
         | Some (stamp, event, _) \<Rightarrow>
             if \<not> suffix SUFFIX name then Inr None
             else (case dict_get h name of
                 Some (Saved data) \<Rightarrow>
                   (case ol_strptime L stamp of
                      None \<Rightarrow> Inl ValueError
                    | Some t \<Rightarrow> Inr (Some \<lparr>vn_id = vid, vn_when = t, vn_event = event, vn_size = length data,
                                       vn_revision = revision_of L (Some data)\<rparr>))
               | _ \<Rightarrow> Inr None))"

definition history_versions :: "overlay_lib \<Rightarrow> string \<Rightarrow> disk \<Rightarrow> py_exn + version list" where
  "history_versions L dir d =
     rbind (rmap (parse_version L (history_at d dir)) (ordered L (history_at d dir)))
       (\<lambda>vs. Inr (List.map_filter (\<lambda>v. v) vs))"

definition history_read :: "overlay_lib \<Rightarrow> string \<Rightarrow> string \<Rightarrow> string \<Rightarrow> disk \<Rightarrow> string + string" where
  "history_read L config_dir key vid d =
     (if \<not> valid_id vid then Inl (ol_tr L ''Unknown version.'' [])
      else rbind (history_dir L config_dir key) (\<lambda>dir.
        case dict_get (history_at d dir) (vid @ SUFFIX) of
          Some (Saved data) \<Rightarrow> Inr data
        | Some (Unopened e) \<Rightarrow> Inl (ol_tr L ''The version can't be read (%(value)s).'' [(''value'', e)])
        | Some NotAFile \<Rightarrow> Inl (ol_tr L ''The version can't be read (%(value)s).'' [(''value'', ''Is a directory'')])
        | None \<Rightarrow> Inl (ol_tr L ''Unknown version.'' [])))"

section \<open>The saved versions\<close>

text \<open>A listing of a directory names every entry once, in any order.\<close>

definition listing_ok :: "overlay_lib \<Rightarrow> bool" where
  "listing_ok L \<longleftrightarrow> (\<forall>names. mset (ol_listdir L names) = mset names)"

lemma listing_set: "listing_ok L \<Longrightarrow> set (ol_listdir L names) = set names"
  by (metis listing_ok_def mset_eq_setD)

lemma is_version_key: "is_version h name \<Longrightarrow> name \<in> set (dict_keys h)"
  using dict_get_keys [of h name] by (auto simp: is_version_def)

lemma set_ordered: "listing_ok L \<Longrightarrow> set (ordered L h) = {v. is_version h v}"
  using is_version_key by (fastforce simp: ordered_def listing_set)

lemma distinct_ordered: "listing_ok L \<Longrightarrow> dict_ok h \<Longrightarrow> distinct (ordered L h)"
  unfolding ordered_def dict_ok_def listing_ok_def
  by (metis distinct_filter mset_eq_imp_distinct_iff mset_sorted_desc)

lemma dict_get_unlinked:
  "dict_get (foldl (unlink_version F) h names) name =
     (if name \<in> set names \<and> ft_error F (RemoveVersion name) = None then None else dict_get h name)"
  by (induction names arbitrary: h) (auto simp: unlink_version_def)

lemma history_at_put [simp]: "history_at (put_history dir h d) dir = h"
  by (simp add: history_at_def put_history_def)

lemma history_after_prune:
  "dict_get (history_at (prune_history L F n dir d) dir) name =
     (if name \<in> set (drop n (ordered L (history_at d dir))) \<and> ft_error F (RemoveVersion name) = None then None
      else dict_get (history_at d dir) name)"
  by (cases "dk_history d dir") (auto simp: prune_history_def history_at_def put_history_def dict_get_unlinked ordered_def
      listing_set is_version_def sorted_desc_def split: option.splits)

text \<open>
  Pruning keeps exactly the newest versions: with no fault in the way, the versions that are left are the first \<open>n\<close> of the
  order the page shows, none of them is older than one that went, and every other entry of the directory stays as it was.
\<close>

theorem prune_keeps_newest:
  assumes "listing_ok L" "dict_ok (history_at d dir)" "\<forall>name. ft_error F (RemoveVersion name) = None"
  shows "{v. is_version (history_at (prune_history L F n dir d) dir) v} = set (take n (ordered L (history_at d dir)))
    \<and> card {v. is_version (history_at (prune_history L F n dir d) dir) v}
        = min n (card {v. is_version (history_at d dir) v})
    \<and> (\<forall>v w. is_version (history_at (prune_history L F n dir d) dir) v \<and> is_version (history_at d dir) w
          \<and> \<not> is_version (history_at (prune_history L F n dir d) dir) w \<longrightarrow> version_order w \<le> version_order v)
    \<and> (\<forall>name. \<not> is_version (history_at d dir) name \<longrightarrow>
          dict_get (history_at (prune_history L F n dir d) dir) name = dict_get (history_at d dir) name)"
proof -
  let ?h = "history_at d dir" and ?h' = "history_at (prune_history L F n dir d) dir"
  let ?vs = "ordered L ?h"
  have set: "set ?vs = {v. is_version ?h v}" and dist: "distinct ?vs"
    using assms(1,2) by (simp_all add: set_ordered distinct_ordered)
  have get: "dict_get ?h' name = (if name \<in> set (drop n ?vs) then None else dict_get ?h name)" for name
    using assms(3) by (simp add: history_after_prune)
  have split: "set ?vs = set (take n ?vs) \<union> set (drop n ?vs)" "set (take n ?vs) \<inter> set (drop n ?vs) = {}"
    using dist by (metis append_take_drop_id set_append, metis append_take_drop_id distinct_append)
  have kept: "{v. is_version ?h' v} = set (take n ?vs)"
  proof -
    have "is_version ?h' v \<longleftrightarrow> is_version ?h v \<and> v \<notin> set (drop n ?vs)" for v by (auto simp: is_version_def get)
    then show ?thesis using set split by auto
  qed
  moreover have "card (set (take n ?vs)) = min n (card {v. is_version ?h v})"
    using dist set by (metis distinct_card distinct_take length_take min.commute)
  moreover have "version_order w \<le> version_order v" if "v \<in> set (take n ?vs)" "w \<in> set ?vs" "w \<notin> set (take n ?vs)" for v w
  proof -
    from that(2,3) split have "w \<in> set (drop n ?vs)" by auto
    then obtain j where j: "n \<le> j" "j < length ?vs" "?vs ! j = w"
      by (auto simp: in_set_conv_nth) (metis add.commute le_add2 less_diff_conv)
    from that(1) obtain i where i: "i < n" "i < length ?vs" "?vs ! i = v" by (auto simp: in_set_conv_nth)
    then show ?thesis
      using j sorted_desc_nth [of i j "filter (is_version ?h) (ol_listdir L (dict_keys ?h))" version_order]
      by (simp add: ordered_def)
  qed
  moreover have "\<forall>name. \<not> is_version ?h name \<longrightarrow> dict_get ?h' name = dict_get ?h name"
    using set set_drop_subset [of n ?vs] by (auto simp: get)
  ultimately show ?thesis using set by (metis (mono_tags, lifting) mem_Collect_eq)
qed

lemma free_number_free: "numbered_id base (free_number base names n) @ SUFFIX \<notin> set names"
  by (induction base names n rule: free_number.induct) (simp add: free_number.simps)

lemma free_number_used:
  "n \<le> m \<Longrightarrow> m < free_number base names n \<Longrightarrow> numbered_id base m @ SUFFIX \<in> set names"
proof (induction base names n rule: free_number.induct)
  case (1 base names n)
  then show ?case by (cases "m = n") (auto simp: free_number.simps [of base names n] split: if_splits)
qed

lemma free_number_bound: "free_number base names 0 \<le> length names"
proof -
  have "(\<lambda>m. numbered_id base m @ SUFFIX) ` {..< free_number base names 0} \<subseteq> set names"
    using free_number_used [of 0] by auto
  then have "card ((\<lambda>m. numbered_id base m @ SUFFIX) ` {..< free_number base names 0}) \<le> card (set names)"
    by (intro card_mono) auto
  also have "\<dots> \<le> length names" by (rule card_length)
  finally show ?thesis by (simp add: card_image inj_on_def numbered_id_inj)
qed

lemma removesuffix_append [simp]: "removesuffix (s @ SUFFIX) SUFFIX = s"
  by (simp add: removesuffix_def suffix_def SUFFIX_def)

lemma stamp_length: "stamp_shape s \<Longrightarrow> length s = 16"
  by (auto simp: stamp_shape_def stamp_picture_def dest: list_all2_lengthD)

lemma str_of_nat_length: "n < 1000 \<Longrightarrow> length (str_of_nat n) \<le> 3"
  by (simp add: str_of_nat.simps [of n] str_of_nat.simps [of "n div 10"] str_of_nat.simps [of "n div 10 div 10"])

lemma id_groups_numbered:
  assumes "stamp_shape stamp" "event \<in> set HISTORY_EVENTS" "n < 1000"
  shows "id_groups (numbered_id (stamp @ ''-'' @ event) n)
    = Some (stamp, event, if n = 0 then None else Some (str_of_nat n))"
proof -
  have e: "find_first (startswith (event @ rest)) HISTORY_EVENTS = Some event" for rest
    using assms(2) by (auto simp: HISTORY_EVENTS_def find_first_def)
  have len: "length stamp = 16" by (rule stamp_length [OF assms(1)])
  have "id_groups ((stamp @ ''-'' @ event) @ rest) = map_option (\<lambda>c. (stamp, event, c)) (id_counter rest)" for rest
    using assms(1) len e [of rest] by (simp add: id_groups_def)
  note groups = this [of "[]"] this [of "CHR ''-'' # str_of_nat n"]
  show ?thesis
    using groups str_of_nat_length [OF assms(3)] by (simp add: numbered_id_def id_counter_def del: str_of_nat.simps)
qed

lemma last_numbered:
  assumes "event \<in> set HISTORY_EVENTS"
  shows "last (numbered_id (stamp @ ''-'' @ event) n) \<noteq> LF"
proof (cases "n = 0")
  case False
  have "last (str_of_nat n) \<in> set (str_of_nat n)" by (simp add: str_of_nat_nonempty)
  then have "\<not> is_space (last (str_of_nat n))" by (rule str_of_nat_not_space)
  then show ?thesis using False by (auto simp: numbered_id_def str_of_nat_nonempty is_space_def)
qed (use assms in \<open>auto simp: HISTORY_EVENTS_def numbered_id_def\<close>)

lemma match_id_numbered:
  assumes "stamp_shape stamp" "event \<in> set HISTORY_EVENTS" "n < 1000"
  shows "match_id (numbered_id (stamp @ ''-'' @ event) n)
    = Some (stamp, event, if n = 0 then None else Some (str_of_nat n))"
  using id_groups_numbered [OF assms] last_numbered [OF assms(2)] by (simp add: match_id_def)

lemma version_order_numbered:
  assumes "stamp_shape stamp" "event \<in> set HISTORY_EVENTS" "n < 1000"
  shows "version_order (numbered_id (stamp @ ''-'' @ event) n @ SUFFIX) = (stamp, n)"
  using match_id_numbered [OF assms] by (simp add: version_order_def)

text \<open>What a save that returns an id has done, before old versions are pruned.\<close>

lemma history_saveE:
  assumes "history_save L F now config_dir key data event d = (Inr vid, d')"
  obtains dir n where "history_dir L config_dir key = Inr dir" "event \<in> set HISTORY_EVENTS"
    "n = free_number (ol_strftime L now @ ''-'' @ event) (dict_keys (history_at d dir)) 0"
    "vid = numbered_id (ol_strftime L now @ ''-'' @ event) n"
    "d' = prune_history L F KEEP dir (put_history dir (dict_set (history_at d dir) (vid @ SUFFIX) (Saved data)) d)"
  using assms unfolding history_save_def store_version_def Let_def
  by (auto split: if_splits sum.splits option.splits prod.splits)

lemma is_version_set_other: "y \<noteq> x \<Longrightarrow> is_version (dict_set h x e) y \<longleftrightarrow> is_version h y"
  by (simp add: is_version_def)

lemma card_versions:
  assumes "listing_ok L" "dict_ok h"
  shows "length (filter P (filter (is_version h) (ol_listdir L (dict_keys h)))) = card {v. is_version h v \<and> P v}"
proof -
  have "distinct (ol_listdir L (dict_keys h))"
    using assms by (metis dict_ok_def listing_ok_def mset_eq_imp_distinct_iff)
  moreover have "set (filter P (filter (is_version h) (ol_listdir L (dict_keys h)))) = {v. is_version h v \<and> P v}"
    using is_version_key by (fastforce simp: listing_set [OF assms(1)])
  ultimately show ?thesis by (metis distinct_card distinct_filter)
qed

lemma new_version_is_version:
  assumes "stamp_shape stamp" "event \<in> set HISTORY_EVENTS" "n < 1000"
    and "x = numbered_id (stamp @ ''-'' @ event) n @ SUFFIX"
  shows "is_version (dict_set h x (Saved data)) x"
  using match_id_numbered [OF assms(1-3)] by (simp add: is_version_def valid_id_def assms(4))

text \<open>
  A saved version can be read back byte for byte under the id the save returned, as long as fewer than \<open>KEEP\<close> versions of
  the target carry a stamp at least as late (and the directory has fewer than a thousand entries, which keeps the counter of
  an id within its three digits).
\<close>

theorem saved_version_readable:
  assumes "listing_ok L" "stamp_shape (ol_strftime L now)" "history_dir L config_dir key = Inr dir"
    and "dict_ok (history_at d dir)" "length (history_at d dir) < 1000"
    and "history_save L F now config_dir key data event d = (Inr vid, d')"
    and "card {v. is_version (history_at d dir) v \<and> version_order (vid @ SUFFIX) \<le> version_order v} < KEEP"
  shows "history_read L config_dir key vid d' = Inr data"
proof -
  let ?h = "history_at d dir" and ?x = "vid @ SUFFIX"
  let ?h1 = "dict_set ?h ?x (Saved data)"
  from assms(6) obtain n where ev: "event \<in> set HISTORY_EVENTS"
      and n: "n = free_number (ol_strftime L now @ ''-'' @ event) (dict_keys ?h) 0"
      and vid: "vid = numbered_id (ol_strftime L now @ ''-'' @ event) n"
      and d': "d' = prune_history L F KEEP dir (put_history dir ?h1 d)"
    by (rule history_saveE) (use assms(3) in auto)
  have small: "n < 1000" using free_number_bound [of _ "dict_keys ?h"] assms(5) unfolding n length_map by (rule le_less_trans)
  have new: "?x \<notin> set (dict_keys ?h)" unfolding vid n by (rule free_number_free)
  have ver: "is_version ?h1 ?x" by (rule new_version_is_version [OF assms(2) ev small]) (simp add: vid)
  have ok: "dict_ok ?h1" using assms(4) by simp
  have "card {v. is_version ?h1 v \<and> v \<noteq> ?x \<and> version_order ?x \<le> version_order v}
      = card {v. is_version ?h v \<and> version_order ?x \<le> version_order v}"
    using new is_version_key [of ?h ?x] by (intro arg_cong [where f = card] Collect_cong) (metis is_version_set_other)
  then have "length (filter (\<lambda>v. v \<noteq> ?x \<and> version_order ?x \<le> version_order v)
      (filter (is_version ?h1) (ol_listdir L (dict_keys ?h1)))) < KEEP"
    using assms(7) by (simp only: card_versions [OF assms(1) ok])
  moreover have "?x \<in> set (filter (is_version ?h1) (ol_listdir L (dict_keys ?h1)))"
    using ver is_version_key [OF ver] by (simp add: listing_set [OF assms(1)])
  moreover have "distinct (filter (is_version ?h1) (ol_listdir L (dict_keys ?h1)))"
    using distinct_ordered [OF assms(1) ok] by (metis mset_eq_imp_distinct_iff mset_sorted_desc ordered_def)
  ultimately have "?x \<in> set (take KEEP (ordered L ?h1))" unfolding ordered_def by (intro sorted_desc_take)
  then have "?x \<notin> set (drop KEEP (ordered L ?h1))"
    using distinct_ordered [OF assms(1) ok] by (metis IntI append_take_drop_id distinct_append empty_iff)
  moreover have "valid_id vid" using match_id_numbered [OF assms(2) ev small] by (simp add: valid_id_def vid)
  ultimately show ?thesis using assms(3) by (simp add: history_read_def d' history_after_prune)
qed

text \<open>
  Pruning goes by the stamps alone, so a clock that was set back makes a save drop the version it has just written: when
  \<open>KEEP\<close> versions carry a later stamp, the id it returns names nothing and the bytes are gone.
\<close>

theorem set_back_clock_loses_version:
  assumes "listing_ok L" "stamp_shape (ol_strftime L now)" "history_dir L config_dir key = Inr dir"
    and "dict_ok (history_at d dir)" "length (history_at d dir) < 1000" "\<forall>name. ft_error F (RemoveVersion name) = None"
    and "history_save L F now config_dir key data event d = (Inr vid, d')"
    and "KEEP \<le> card {v. is_version (history_at d dir) v \<and> version_order (vid @ SUFFIX) < version_order v}"
  shows "history_read L config_dir key vid d' = Inl (ol_tr L ''Unknown version.'' [])"
proof -
  let ?h = "history_at d dir" and ?x = "vid @ SUFFIX"
  let ?h1 = "dict_set ?h ?x (Saved data)"
  from assms(7) obtain n where ev: "event \<in> set HISTORY_EVENTS"
      and n: "n = free_number (ol_strftime L now @ ''-'' @ event) (dict_keys ?h) 0"
      and vid: "vid = numbered_id (ol_strftime L now @ ''-'' @ event) n"
      and d': "d' = prune_history L F KEEP dir (put_history dir ?h1 d)"
    by (rule history_saveE) (use assms(3) in auto)
  have small: "n < 1000" using free_number_bound [of _ "dict_keys ?h"] assms(5) unfolding n length_map by (rule le_less_trans)
  have ver: "is_version ?h1 ?x" by (rule new_version_is_version [OF assms(2) ev small]) (simp add: vid)
  have ok: "dict_ok ?h1" using assms(4) by simp
  have "{v. is_version ?h v \<and> version_order ?x < version_order v}
      = {v. is_version ?h1 v \<and> version_order ?x < version_order v}"
    by (intro Collect_cong) (metis is_version_set_other less_irrefl)
  then have "KEEP \<le> length (filter (\<lambda>v. version_order ?x < version_order v)
      (filter (is_version ?h1) (ol_listdir L (dict_keys ?h1))))"
    using assms(8) by (simp only: card_versions [OF assms(1) ok])
  moreover have "?x \<in> set (filter (is_version ?h1) (ol_listdir L (dict_keys ?h1)))"
    using ver is_version_key [OF ver] by (simp add: listing_set [OF assms(1)])
  ultimately have "?x \<in> set (drop KEEP (ordered L ?h1))" unfolding ordered_def by (rule sorted_desc_drop [rotated])
  then show ?thesis using assms(3,6) by (simp add: history_read_def d' history_after_prune)
qed

section \<open>Compare and swap\<close>

lemma dk_overlay_put [simp]: "dk_overlay (put_entry p e d) = (dk_overlay d)(p := e)"
  by (simp add: put_entry_def)

lemma dk_history_put [simp]: "dk_history (put_entry p e d) = dk_history d"
  by (simp add: put_entry_def)

lemma staged_path_longer: "length (staged_path p) > length p"
  by (auto simp: staged_path_def Let_def)

lemma staged_path_other [simp]: "staged_path p \<noteq> p" "p \<noteq> staged_path p"
  using staged_path_longer [of p] by fastforce+

definition entry_bytes :: "overlay_entry \<Rightarrow> string option" where
  "entry_bytes e = (case e of Plain raw _ _ \<Rightarrow> Some raw | _ \<Rightarrow> None)"

lemma overlay_read_raw:
  assumes "overlay_read L config_dir key d = Inr f" "overlay_path L config_dir key = Inr path"
  shows "of_raw f = entry_bytes (dk_overlay d path)" "of_revision f = revision_of L (of_raw f)"
    "of_exists f \<longleftrightarrow> of_raw f \<noteq> None"
  using assms by (auto simp: overlay_read_def revision_of_def entry_bytes_def split: overlay_entry.splits)

lemma overlay_read_plain:
  "overlay_path L config_dir key = Inr path \<Longrightarrow> dk_overlay d path = Plain raw t m \<Longrightarrow>
     \<exists>f. overlay_read L config_dir key d = Inr f \<and> of_raw f = Some raw \<and> of_revision f = ol_sha256 L raw"
  by (simp add: overlay_read_def revision_of_def)

text \<open>A swap touches the file and its temporary neighbour only, and the file only when it succeeds.\<close>

lemma swap_in_frame:
  assumes "swap_in F now path data existed d = (r, d')"
  shows "dk_history d' = dk_history d"
    and "p \<noteq> path \<Longrightarrow> p \<noteq> staged_path path \<Longrightarrow> dk_overlay d' p = dk_overlay d p"
    and "r = Inr () \<Longrightarrow> entry_bytes (dk_overlay d' path) = Some data"
    and "r = Inl e \<Longrightarrow> dk_overlay d' path = dk_overlay d path"
  using assms by (auto simp: swap_in_def stage_def Let_def entry_bytes_def split: option.splits if_splits prod.splits sum.splits)

lemma clear_staged_frame [simp]:
  "dk_history (clear_staged F path d) = dk_history d" "dk_overlay (clear_staged F path d) path = dk_overlay d path"
  "p \<noteq> staged_path path \<Longrightarrow> dk_overlay (clear_staged F path d) p = dk_overlay d p"
  by (simp_all add: clear_staged_def)

text \<open>
  \<open>write\<close>: a file with another revision is left alone and nothing else on the disk changes; a write that fails leaves the
  file as the host had it; one that succeeds has put the bytes in place before the host can act again.
\<close>

lemma overlay_write_cases:
  assumes "overlay_write L F R now config_dir key data expected d = (r, d')" "overlay_path L config_dir key = Inr path"
    and "overlay_read L config_dir key d = Inr current"
  obtains (changed) "of_revision current \<noteq> expected" "r = Inr None" "d' = d"
  | (failed) e where "of_revision current = expected" "r = Inl e" "dk_overlay d' path = dk_overlay (rc_check R d) path"
      "dk_history d' = dk_history (rc_check R d)"
  | (swapped) d1 where "of_revision current = expected" "d' = rc_after R d1"
      "entry_bytes (dk_overlay d1 path) = Some data" "dk_history d1 = dk_history (rc_check R d)"
      "r = rbind (overlay_read L config_dir key d') (\<lambda>f. Inr (Some f))"
proof (cases "of_revision current = expected")
  case True
  obtain q d1 where s: "swap_in F now path data (of_exists current) (rc_check R d) = (q, d1)" by fastforce
  note frame = swap_in_frame [OF s]
  show ?thesis
  proof (cases q)
    case (Inl e)
    with assms True s have "r = Inl (ol_tr L ''The overlay file can't be written (%(value)s).'' [(''value'', e)])"
        "d' = clear_staged F path d1" by (auto simp: overlay_write_def)
    then show ?thesis using True frame(1) frame(4) [OF Inl] failed by simp
  next
    case (Inr u)
    with assms True s have "d' = rc_after R (clear_staged F path d1)"
        "r = rbind (overlay_read L config_dir key d') (\<lambda>f. Inr (Some f))" by (auto simp: overlay_write_def Let_def)
    then show ?thesis using True frame(1) frame(3) Inr swapped by simp
  qed
qed (use assms changed in \<open>auto simp: overlay_write_def\<close>)

lemma overlay_delete_cases:
  assumes "overlay_delete L F R config_dir key expected d = (r, d')" "overlay_path L config_dir key = Inr path"
    and "overlay_read L config_dir key d = Inr current"
  obtains (changed) "of_revision current \<noteq> expected" "r = Inr False" "d' = d"
  | (failed) e where "of_revision current = expected" "r = Inl e" "d' = rc_check R d"
  | (removed) "of_revision current = expected" "r = Inr True" "d' = put_entry path NoFile (rc_check R d)"
  using assms by (auto simp: overlay_delete_def Let_def split: option.splits if_splits)

section \<open>Examples\<close>

definition demo_overlay_lib :: overlay_lib where
  "demo_overlay_lib = \<lparr>ol_i18n = \<lparr>tr = \<lambda>m a. m, ntr = \<lambda>m p n a. m\<rparr>, ol_sha256 = (\<lambda>b. CHR ''#'' # b),
     ol_yaml = (\<lambda>b. Document (PDict [])), ol_strftime = (\<lambda>t. if t < 5 then ''20260101T000000Z'' else ''20260102T000000Z''),
     ol_strptime = (\<lambda>s. Some 0), ol_listdir = (\<lambda>names. names)\<rparr>"

definition demo_faults :: faults where
  "demo_faults = \<lparr>ft_error = (\<lambda>c. None), ft_partial = []\<rparr>"

definition demo_versions :: "(string, history_entry) dict" where
  "demo_versions = map (\<lambda>n. (numbered_id (''20260102T000000Z'' @ ''-'' @ ''apply'') n @ SUFFIX, Saved ''a'')) [0..<20]"

definition demo_history_dir :: string where
  "demo_history_dir = ''/c/manager/overlay-history/litellm''"

definition demo_disk :: "(string, history_entry) dict \<Rightarrow> disk" where
  "demo_disk h = \<lparr>dk_overlay = (\<lambda>p. NoFile), dk_history = (\<lambda>dir. if dir = demo_history_dir then Some h else None)\<rparr>"

definition demo_pair :: "(string, history_entry) dict" where
  "demo_pair = [(''20260101T000000Z-apply.bak'', Saved ''old''), (''20260102T000000Z-apply.bak'', Saved ''new'')]"

lemma demo_listing: "listing_ok demo_overlay_lib"
  by (simp add: listing_ok_def demo_overlay_lib_def)

lemma demo_history_at: "history_at (demo_disk h) demo_history_dir = h"
  by (simp add: history_at_def demo_disk_def)

lemma demo_stamps: "stamp_shape ''20260101T000000Z''" "stamp_shape ''20260102T000000Z''"
  by (simp_all add: stamp_shape_def stamp_picture_def is_digit_def)

lemma demo_strftime: "ol_strftime demo_overlay_lib 7 = ''20260102T000000Z''" "ol_strftime demo_overlay_lib 3 = ''20260101T000000Z''"
  by (simp_all add: demo_overlay_lib_def)

lemma demo_version_order: "n < 1000 \<Longrightarrow>
    version_order (numbered_id (''20260102T000000Z'' @ ''-'' @ ''apply'') n @ SUFFIX) = (''20260102T000000Z'', n)"
  by (rule version_order_numbered) (auto simp: demo_stamps HISTORY_EVENTS_def)

lemma demo_versions_ok: "dict_ok demo_versions"
  by (simp add: dict_ok_def demo_versions_def comp_def distinct_map inj_on_def numbered_id_inj del: upt_rec_numeral)

lemma demo_versions_are: "n < 20 \<Longrightarrow> is_version demo_versions (numbered_id (''20260102T000000Z'' @ ''-'' @ ''apply'') n @ SUFFIX)"
proof -
  assume n: "n < 20"
  let ?x = "numbered_id (''20260102T000000Z'' @ ''-'' @ ''apply'') n @ SUFFIX"
  have "(?x, Saved ''a'') \<in> set demo_versions" using n by (auto simp: demo_versions_def simp del: upt_rec_numeral)
  then have "dict_get demo_versions ?x = Some (Saved ''a'')" by (rule dict_get_mem [OF demo_versions_ok])
  then show ?thesis
    using match_id_numbered [OF demo_stamps(2), of "''apply''" n] n
    by (simp add: is_version_def valid_id_def HISTORY_EVENTS_def del: append.simps)
qed

lemma demo_history_dir_of: "history_dir demo_overlay_lib ''/c'' ''litellm'' = Inr demo_history_dir"
  by code_simp

lemma prune_keeps_newest_witness:
  "listing_ok demo_overlay_lib \<and> dict_ok (history_at (demo_disk demo_pair) demo_history_dir)
   \<and> (\<forall>name. ft_error demo_faults (RemoveVersion name) = None)
   \<and> {v. is_version (history_at (prune_history demo_overlay_lib demo_faults 1 demo_history_dir (demo_disk demo_pair))
            demo_history_dir) v} = {''20260102T000000Z-apply.bak''}"
proof -
  have h: "listing_ok demo_overlay_lib" "dict_ok (history_at (demo_disk demo_pair) demo_history_dir)"
      "\<forall>name. ft_error demo_faults (RemoveVersion name) = None"
    by (simp_all add: demo_listing demo_history_at demo_pair_def dict_ok_def demo_faults_def)
  have "take 1 (ordered demo_overlay_lib (history_at (demo_disk demo_pair) demo_history_dir))
      = [''20260102T000000Z-apply.bak'']"
    unfolding demo_history_at by code_simp
  then show ?thesis using prune_keeps_newest [OF h, of 1] h by simp
qed

lemma demo_save:
  assumes "numbered_id (ol_strftime demo_overlay_lib now @ ''-'' @ ''discard'') 0 @ SUFFIX \<notin> set (dict_keys h)"
    and "''.'' @ numbered_id (ol_strftime demo_overlay_lib now @ ''-'' @ ''discard'') 0 @ ''.tmp'' \<notin> set (dict_keys h)"
  shows "history_save demo_overlay_lib demo_faults now ''/c'' ''litellm'' ''new'' ''discard'' (demo_disk h)
    = (Inr (ol_strftime demo_overlay_lib now @ ''-'' @ ''discard''),
       snd (history_save demo_overlay_lib demo_faults now ''/c'' ''litellm'' ''new'' ''discard'' (demo_disk h)))"
  using assms
  by (simp add: history_save_def HISTORY_EVENTS_def demo_history_dir_of store_version_def demo_history_at demo_faults_def
      free_number.simps [of _ _ 0] numbered_id_def)

lemma saved_version_readable_witness:
  "history_read demo_overlay_lib ''/c'' ''litellm'' ''20260102T000000Z-discard''
     (snd (history_save demo_overlay_lib demo_faults 7 ''/c'' ''litellm'' ''new'' ''discard'' (demo_disk []))) = Inr ''new''"
  using saved_version_readable [OF demo_listing _ demo_history_dir_of _ _ demo_save [of 7 "[]"]]
  by (simp add: demo_strftime demo_stamps demo_history_at is_version_def KEEP_def)

lemma set_back_clock_loses_version_witness:
  "history_read demo_overlay_lib ''/c'' ''litellm'' ''20260101T000000Z-discard''
     (snd (history_save demo_overlay_lib demo_faults 3 ''/c'' ''litellm'' ''new'' ''discard'' (demo_disk demo_versions)))
   = Inl (ol_tr demo_overlay_lib ''Unknown version.'' [])"
proof -
  let ?x = "''20260101T000000Z'' @ ''-'' @ ''discard''"
  let ?name = "\<lambda>n. numbered_id (''20260102T000000Z'' @ ''-'' @ ''apply'') n @ SUFFIX"
  let ?later = "{v. is_version demo_versions v \<and> version_order (?x @ SUFFIX) < version_order v}"
  have x: "version_order (?x @ SUFFIX) = (''20260101T000000Z'', 0)"
    using version_order_numbered [OF demo_stamps(1), of "''discard''" 0]
    by (simp add: numbered_id_def HISTORY_EVENTS_def)
  have earlier: "(''20260101T000000Z'', 0) < (''20260102T000000Z'', n)" for n :: nat by code_simp
  have "?name ` {..<20} \<subseteq> ?later" using earlier by (auto simp only: x demo_version_order demo_versions_are lessThan_iff)
  moreover have "finite ?later" by (rule finite_subset [of _ "set (dict_keys demo_versions)"]) (auto dest: is_version_key)
  moreover have "card (?name ` {..<20}) = KEEP" by (simp add: card_image inj_on_def numbered_id_inj KEEP_def del: append.simps)
  ultimately have "KEEP \<le> card ?later" by (elim subst) (rule card_mono)
  moreover have "numbered_id ?x 0 @ SUFFIX \<notin> set (dict_keys demo_versions)"
      "''.'' @ numbered_id ?x 0 @ ''.tmp'' \<notin> set (dict_keys demo_versions)"
    by (auto simp: demo_versions_def numbered_id_def simp del: upt_rec_numeral split: if_splits)
  moreover have fine: "\<forall>name. ft_error demo_faults (RemoveVersion name) = None" by (simp add: demo_faults_def)
  moreover have len: "length demo_versions < 1000" by (simp add: demo_versions_def del: upt_rec_numeral)
  ultimately show ?thesis
    using set_back_clock_loses_version [OF demo_listing _ demo_history_dir_of _ _ _ demo_save [of 3 demo_versions]]
    by (simp only: demo_strftime demo_stamps demo_history_at demo_versions_ok fine len simp_thms append.simps)
qed

end
