(* ===== verification/Config_Jobs.thy ===== *)
theory Config_Jobs
  imports Modules Overlay Services Job_Queue
begin

text \<open>
  The jobs behind the Modules and Overlay tabs and the Mail page (\<open>core/config/service.py\<close>, \<open>core/mail/service.py\<close>): the
  steps they share (a \<open>setup\<close>, a verb on every node it concerns, the wait for healthy containers), switching a module on and
  off, and the sequence that replaces or removes an overlay file and takes it back when the start fails.

  A job is a function of the job's state to its result and its new state; \<open>None\<close> stands for a job that never returns. The
  state holds the log, the audit entries, the command lines that were run and the site: the disk with the overlay files and
  the rest of the world. A command changes the site, so the host can edit a file while it runs.
\<close>

section \<open>The job's state\<close>

record 'w site =
  st_disk :: disk
  st_world :: 'w

record 'w job_run =
  jr_log :: "string list"
  jr_audit :: "audit_entry list"
  jr_calls :: "string list list"
  jr_site :: "'w site"

text \<open>
  What a step reads in a given site: the nodes and files (\<open>ce_nodes\<close>), docker (\<open>ce_services\<close>), the clocks. \<open>ce_stream\<close> runs a
  streaming child and gives the chunks of its pipe and its exit code; \<open>ce_fault\<close> and \<open>ce_race\<close> are the faults and host edits
  of the first write and (\<open>True\<close>) of the one that takes it back.
\<close>

record 'w config_env =
  ce_lib :: overlay_lib
  ce_modules :: "'w site \<Rightarrow> modules_lib"
  ce_nodes :: "'w site \<Rightarrow> 'w site nodes_env"
  ce_services :: "'w site \<Rightarrow> services_env"
  ce_stream :: "string list \<times> env \<Rightarrow> 'w site \<Rightarrow> (string list \<times> int option) \<times> 'w site"
  ce_codec :: line_codec
  ce_now :: "'w site \<Rightarrow> instant"
  ce_stamp :: "'w site \<Rightarrow> string"
  ce_clock :: "'w site \<Rightarrow> timedelta"
  ce_look :: "'w site \<Rightarrow> 'w site"
  ce_sleep :: "timedelta \<Rightarrow> 'w site \<Rightarrow> 'w site"
  ce_fault :: "bool \<Rightarrow> 'w site \<Rightarrow> faults"
  ce_race :: "bool \<Rightarrow> race"
  ce_config_dir :: string
  ce_job_id :: string

datatype config_error =
    SetupRefused string | Conflict string | StepFailed string | RolledBack string | NotHealthy string
  | PurgeFailed string | HookNodesFailed string | RealmNotUpdated string
  | JobOverlay string | JobValue string | JobCtl ctl_fault | JobRaise py_exn

type_synonym ('w, 'a) job = "'w job_run \<Rightarrow> ((config_error + 'a) \<times> 'w job_run) option"

definition jret :: "'a \<Rightarrow> ('w, 'a) job" where
  "jret a j = Some (Inr a, j)"

definition jfail :: "config_error \<Rightarrow> ('w, 'a) job" where
  "jfail e j = Some (Inl e, j)"

definition jbind :: "('w, 'a) job \<Rightarrow> ('a \<Rightarrow> ('w, 'b) job) \<Rightarrow> ('w, 'b) job" where
  "jbind m f j =
     (case m j of
        None \<Rightarrow> None
      | Some (Inl e, j') \<Rightarrow> Some (Inl e, j')
      | Some (Inr a, j') \<Rightarrow> f a j')"

definition jlog :: "string \<Rightarrow> ('w, unit) job" where
  "jlog line j = Some (Inr (), j\<lparr>jr_log := jr_log j @ [line]\<rparr>)"

definition jlogs :: "string list \<Rightarrow> ('w, unit) job" where
  "jlogs lines j = Some (Inr (), j\<lparr>jr_log := jr_log j @ lines\<rparr>)"

definition jlift :: "py_exn + 'a \<Rightarrow> ('w, 'a) job" where
  "jlift r j = Some (case r of Inl e \<Rightarrow> Inl (JobRaise e) | Inr a \<Rightarrow> Inr a, j)"

definition jsite :: "('w site \<Rightarrow> 'a) \<Rightarrow> ('w, 'a) job" where
  "jsite f j = Some (Inr (f (jr_site j)), j)"

abbreviation jmsg :: "'w config_env \<Rightarrow> string \<Rightarrow> (string, string) dict \<Rightarrow> string" where
  "jmsg E \<equiv> tr (ol_i18n (ce_lib E))"

definition jaudit ::
  "'w config_env \<Rightarrow> string \<Rightarrow> string \<Rightarrow> string \<Rightarrow> (string, pyval) dict \<Rightarrow> string \<Rightarrow> ('w, unit) job" where
  "jaudit E user action subject params outcome j =
     Some (Inr (), j\<lparr>jr_audit := jr_audit j @
       [\<lparr>ae_ts = ce_stamp E (jr_site j), ae_user = user, ae_action = action, ae_target = subject, ae_result = outcome,
         ae_params = Some (PDict params), ae_job_id = Some (ce_job_id E)\<rparr>]\<rparr>)"

section \<open>Sentences\<close>

definition SENTENCE_LIMIT :: nat where "SENTENCE_LIMIT = 700"

definition nonblank_lines :: "string \<Rightarrow> string list" where
  "nonblank_lines text = filter (\<lambda>l. l \<noteq> []) (map py_strip (splitlines text))"

definition error_sentence :: "nat \<Rightarrow> string \<Rightarrow> string option" where
  "error_sentence limit text =
     (case filter (\<lambda>l. startswith l ''ERROR'') (nonblank_lines text) of
        [] \<Rightarrow> None
      | l # _ \<Rightarrow> Some (take limit (py_strip (removeprefix ''ERROR:'' l))))"

definition first_sentence :: "nat \<Rightarrow> string \<Rightarrow> string option" where
  "first_sentence limit text = (case nonblank_lines text of [] \<Rightarrow> None | l # _ \<Rightarrow> Some (take limit l))"

text \<open>\<open>refusal\<close>, with the limit of the module it is in: 700 for the jobs here and 300 for the mail job.\<close>

definition refusal :: "nat \<Rightarrow> int \<Rightarrow> string \<Rightarrow> string \<Rightarrow> string" where
  "refusal limit code out err =
     (case error_sentence limit err of Some s \<Rightarrow> s | None \<Rightarrow>
      (case error_sentence limit out of Some s \<Rightarrow> s | None \<Rightarrow>
       (case first_sentence limit err of Some s \<Rightarrow> s | None \<Rightarrow>
        (case first_sentence limit out of Some s \<Rightarrow> s | None \<Rightarrow> ''setup exited with status '' @ str_of_int code))))"

definition last_problem :: "string list \<Rightarrow> string" where
  "last_problem lines =
     (let cleaned = filter (\<lambda>l. l \<noteq> []) (map py_strip lines);
          errors = filter (\<lambda>l. contains l ''ERROR'') cleaned;
          pick = (if errors \<noteq> [] then last errors else if cleaned \<noteq> [] then last cleaned else ''the step failed'')
      in take SENTENCE_LIMIT (py_strip (removeprefix ''ERROR:'' pick)))"

text \<open>\<open>s.replace(old, new)\<close> for a non-empty \<open>old\<close>, and \<open>s.split(sep, 1)[0]\<close>.\<close>

function replace_text :: "string \<Rightarrow> string \<Rightarrow> string \<Rightarrow> string" where
  "replace_text old new s =
     (if s = [] \<or> old = [] then s
      else if startswith s old then new @ replace_text old new (drop (length old) s)
      else hd s # replace_text old new (tl s))"
  by auto

termination
  by (relation "measure (\<lambda>(old, new, s). length s)") auto

declare replace_text.simps [simp del]

fun before_text :: "string \<Rightarrow> string \<Rightarrow> string" where
  "before_text sep [] = []"
| "before_text sep (c # s) = (if startswith (c # s) sep then [] else c # before_text sep s)"

definition scrub :: "string \<Rightarrow> string option \<Rightarrow> string" where
  "scrub line secret =
     (case secret of None \<Rightarrow> line | Some p \<Rightarrow> if p = [] then line else replace_text p ''***'' line)"

definition realm_problem :: "string \<Rightarrow> string option" where
  "realm_problem line =
     (if \<not> (contains line ''Keycloak role sync skipped'' \<or> contains line ''Keycloak role sync failed'')
         \<or> contains line ''AUTH_PROVIDER is not internal_keycloak'' then None
      else Some (take 300 (before_text ''. Once Keycloak is healthy'' (py_strip (removeprefix ''[!]'' (py_strip line))))))"

section \<open>Steps\<close>

datatype setup_request = SetupModule module_setup | SetupSmtp smtp_setup

definition setup_secret :: "setup_request \<Rightarrow> string option" where
  "setup_secret spec = (case spec of SetupSmtp s \<Rightarrow> ss_password s | SetupModule _ \<Rightarrow> None)"

text \<open>A call of the core's Python entry point: its command line goes on record, and it changes the site.\<close>

definition jcall ::
  "string \<Rightarrow> ('w site \<Rightarrow> (ctl_fault + py_answer) \<times> 'w site) \<Rightarrow> ('w, py_answer) job" where
  "jcall name call j =
     (case call (jr_site j) of
        (r, s) \<Rightarrow> Some (case r of Inl e \<Rightarrow> Inl (JobCtl e) | Inr a \<Rightarrow> Inr a,
                       j\<lparr>jr_site := s, jr_calls := jr_calls j @ [[name]]\<rparr>))"

definition call_setup :: "'w config_env \<Rightarrow> setup_request \<Rightarrow> 'w site \<Rightarrow> (ctl_fault + py_answer) \<times> 'w site" where
  "call_setup E spec s =
     (let N = ce_nodes E s
      in case spec of
           SetupSmtp t \<Rightarrow> run_smtp_setup (ne_proc N) (ne_environ N) t (ne_workspace_dir N) (ne_config_dir N) s
         | SetupModule t \<Rightarrow>
             run_module_setup (ne_proc N) (ne_environ N) (mo_bracketed (ce_modules E s)) t (ne_workspace_dir N) (ne_config_dir N) s)"

definition shown_output :: "string option \<Rightarrow> string \<Rightarrow> string \<Rightarrow> string list" where
  "shown_output secret out err =
     map (\<lambda>l. scrub (py_rstrip l) secret) (filter (\<lambda>l. py_strip l \<noteq> []) (splitlines out @ splitlines err))"

definition setup_step :: "'w config_env \<Rightarrow> nat \<Rightarrow> string \<Rightarrow> setup_request \<Rightarrow> ('w, unit) job" where
  "setup_step E limit headline spec =
     jbind (jlog headline) (\<lambda>_.
     jbind (jcall ''setup'' (call_setup E spec)) (\<lambda>(code, out, err).
     jbind (jlogs (shown_output (setup_secret spec) out err)) (\<lambda>_.
       if code = 0 then jret ()
       else jfail (SetupRefused (scrub (refusal limit code out err) (setup_secret spec))))))"

definition setup_headline :: "setup_request \<Rightarrow> string" where
  "setup_headline spec =
     (case spec of
        SetupSmtp _ \<Rightarrow> ''[ctl] papaia-ctl setup (options of mail only)''
      | SetupModule t \<Rightarrow> ''[ctl] papaia-ctl setup (options of '' @ mu_module t @ '' only)'')"

definition config_setup :: "'w config_env \<Rightarrow> setup_request \<Rightarrow> ('w, unit) job" where
  "config_setup E spec = setup_step E SENTENCE_LIMIT (setup_headline spec) spec"

text \<open>\<open>run_core_verb\<close> read to its end: the lines it gave and, after a non-zero exit, the \<open>CtlError\<close>.\<close>

definition stream_verb ::
  "'w config_env \<Rightarrow> string \<Rightarrow> string list \<Rightarrow> ('w, string list \<times> (ctl_fault + unit)) job" where
  "stream_verb E verb flags j =
     (let N = ce_nodes E (jr_site j)
      in case core_verb_cmd (ne_environ N) verb (ne_workspace_dir N) (ne_config_dir N) flags None of
           Inl e \<Rightarrow> Some (Inl (JobCtl (Refused e)), j)
         | Inr cmd \<Rightarrow>
             (case ce_stream E cmd (jr_site j) of
                ((chunks, code), s) \<Rightarrow>
                  let (lines, ended) = stream_subprocess (ce_codec E) chunks code
                  in Some (Inr (lines, ended),
                       j\<lparr>jr_site := s, jr_log := jr_log j @ lines, jr_calls := jr_calls j @ [verb # flags]\<rparr>)))"

definition command_text :: "string \<Rightarrow> string list \<Rightarrow> string" where
  "command_text verb flags = py_rstrip (''papaia-ctl '' @ verb @ '' '' @ join '' '' flags)"

definition ctl_text :: "ctl_fault \<Rightarrow> string" where
  "ctl_text e = (case e of CtlError m _ \<Rightarrow> m | Refused _ \<Rightarrow> [])"

fun verb_runs ::
  "'w config_env \<Rightarrow> string \<Rightarrow> bool \<Rightarrow> nat \<Rightarrow> string list list \<Rightarrow> string list \<Rightarrow> ('w, string list) job" where
  "verb_runs E verb collect index [] skipped = jret skipped"
| "verb_runs E verb collect index (run # runs) skipped =
     jbind (jlog (''[ctl] '' @ command_text verb run)) (\<lambda>_.
     jbind (stream_verb E verb run) (\<lambda>(lines, ended).
       case ended of
         Inr _ \<Rightarrow> verb_runs E verb collect (index + 1) runs skipped
       | Inl exc \<Rightarrow>
           let problem = either_text (last_problem lines) (ctl_text exc)
           in if collect \<and> index > 0 then
                jbind (jlog (''[warn] '' @ command_text verb run @ '' failed ('' @ problem @ ''); the change stays'')) (\<lambda>_.
                  verb_runs E verb collect (index + 1) runs (skipped @ [command_text verb run]))
              else jfail (StepFailed (jmsg E ''papaia-ctl %(verb)s: %(value)s'' [(''verb'', verb), (''value'', problem)]))))"

text \<open>\<open>_verb\<close>. \<open>skipped\<close> is the list it may add to, \<open>None\<close> for a call without one.\<close>

definition verb_step :: "'w config_env \<Rightarrow> string \<Rightarrow> string list \<Rightarrow> string list option \<Rightarrow> ('w, string list) job" where
  "verb_step E verb flags skipped =
     jbind (jsite (\<lambda>s. profile_runs (ce_nodes E s) verb flags)) (\<lambda>r.
     jbind (jlift r) (\<lambda>runs.
       verb_runs E verb (skipped \<noteq> None) 0 runs (case skipped of None \<Rightarrow> [] | Some l \<Rightarrow> l)))"

definition hook_nodes_failed :: "'w config_env \<Rightarrow> string list \<Rightarrow> config_error" where
  "hook_nodes_failed E skipped =
     HookNodesFailed (jmsg E ''The change is in place, but a node that only runs its hooks did not take part. Once it answers, run: %(value)s''
       [(''value'', join ''; '' skipped)])"

definition GOOD :: "service_health set" where "GOOD = {HEALTHY, COMPLETED}"
definition HEALTH_TIMEOUT :: timedelta where "HEALTH_TIMEOUT = 90 * us_second"
definition HEALTH_INTERVAL :: timedelta where "HEALTH_INTERVAL = 3 * us_second"

text \<open>The reading of docker, just invalidated, and the group of a profile in it.\<close>

definition look_at :: "'w config_env \<Rightarrow> 'w site \<Rightarrow> py_exn + stack_snapshot" where
  "look_at E s = fst (load_snapshot (ce_services E s) (ce_clock E s) (ce_clock E s)
                        (invalidate_snapshot \<lparr>ca_cache = None, ca_failed_at = None\<rparr>))"

definition group_named :: "string \<Rightarrow> stack_snapshot \<Rightarrow> service_group option" where
  "group_named profile snapshot = find_first (\<lambda>g. sg_name g = profile) (sk_groups snapshot)"

definition group_state :: "service_group option \<Rightarrow> string" where
  "group_state g = (case g of Some x \<Rightarrow> health_value (sg_health x) | None \<Rightarrow> ''not reported'')"

partial_function (option) wait_loop ::
  "'w config_env \<Rightarrow> string \<Rightarrow> timedelta \<Rightarrow> timedelta \<Rightarrow> 'w job_run \<Rightarrow> ((config_error + string option) \<times> 'w job_run) option" where
  "wait_loop E profile deadline pause j =
     (let j1 = j\<lparr>jr_site := ce_look E (jr_site j)\<rparr>
      in case look_at E (jr_site j) of
           Inl e \<Rightarrow> Some (Inl (JobRaise e), j1)
         | Inr snapshot \<Rightarrow>
             if sk_groups snapshot = [] then
               Some (Inr None, j1\<lparr>jr_log := jr_log j1 @ [''[info] health not checked: Docker did not report any containers'']\<rparr>)
             else if (case group_named profile snapshot of Some g \<Rightarrow> sg_health g \<in> GOOD | None \<Rightarrow> False) then
               Some (Inr None, j1\<lparr>jr_log := jr_log j1 @ [''[info] '' @ profile @ '': healthy'']\<rparr>)
             else if ce_clock E (jr_site j1) \<ge> deadline then
               Some (Inr (Some (''The '' @ profile @ '' containers are '' @ group_state (group_named profile snapshot) @ ''.'')), j1)
             else wait_loop E profile deadline pause
                    (j1\<lparr>jr_log := jr_log j1 @ [''[info] '' @ profile @ '': '' @ group_state (group_named profile snapshot) @ '', waiting''],
                        jr_site := ce_sleep E pause (jr_site j1)\<rparr>))"

definition wait_healthy :: "'w config_env \<Rightarrow> string \<Rightarrow> ('w, string option) job" where
  "wait_healthy E profile j = wait_loop E profile (ce_clock E (jr_site j) + HEALTH_TIMEOUT) HEALTH_INTERVAL j"

section \<open>Modules\<close>

definition setup_request_for ::
  "string \<Rightarrow> bool \<Rightarrow> string option \<Rightarrow> string option \<Rightarrow> mail_input option \<Rightarrow> setup_request" where
  "setup_request_for module enable variant url mail =
     (if module = ''mail'' then
        SetupSmtp (case mail of
           Some data \<Rightarrow> setup_spec data True
         | None \<Rightarrow> \<lparr>ss_enable = Some enable, ss_host = None, ss_port = None, ss_security = None, ss_user = None,
                    ss_no_auth = False, ss_sender = None, ss_sender_name = None, ss_password = None\<rparr>)
      else SetupModule \<lparr>mu_module = module, mu_enable = enable, mu_variant = variant, mu_public_url = url\<rparr>)"

definition profile_flag_of :: "string \<Rightarrow> string" where
  "profile_flag_of profile = ''--profiles='' @ profile"

fun recreate :: "'w config_env \<Rightarrow> string list \<Rightarrow> string list \<Rightarrow> ('w, string list) job" where
  "recreate E [] skipped = jret skipped"
| "recreate E (profile # profiles) skipped =
     jbind (verb_step E ''stop'' [''--clean-up'', profile_flag_of profile] None) (\<lambda>_.
     jbind (verb_step E ''start'' [profile_flag_of profile] (Some skipped)) (\<lambda>skipped'.
       recreate E profiles skipped'))"

text \<open>
  \<open>run_verb\<close> of the mail service: the first sentence of the output that says the realm was not updated. A \<open>CtlError\<close> leaves it
  as it is.
\<close>

fun mail_runs :: "'w config_env \<Rightarrow> string \<Rightarrow> string list list \<Rightarrow> string option \<Rightarrow> ('w, string option) job" where
  "mail_runs E verb [] found = jret found"
| "mail_runs E verb (run # runs) found =
     jbind (jlog (''[ctl] '' @ command_text verb run)) (\<lambda>_.
     jbind (stream_verb E verb run) (\<lambda>(lines, ended).
       case ended of
         Inl exc \<Rightarrow> jfail (JobCtl exc)
       | Inr _ \<Rightarrow>
           mail_runs E verb runs
             (foldl (\<lambda>p line. if given_text p then p else realm_problem line) found lines)))"

definition mail_run_verb :: "'w config_env \<Rightarrow> string \<Rightarrow> string list \<Rightarrow> ('w, string option) job" where
  "mail_run_verb E verb flags =
     jbind (jsite (\<lambda>s. profile_runs (ce_nodes E s) verb flags)) (\<lambda>r.
     jbind (jlift r) (\<lambda>runs. mail_runs E verb runs None))"

definition start_module :: "'w config_env \<Rightarrow> string \<Rightarrow> string \<Rightarrow> ('w, string option \<times> string list) job" where
  "start_module E module flag =
     (if module \<noteq> ''mail'' then jbind (verb_step E ''start'' [flag] (Some [])) (\<lambda>skipped. jret (None, skipped))
      else jbind (mail_run_verb E ''start'' [flag]) (\<lambda>realm. jret (realm, [])))"

definition lower_first :: "string \<Rightarrow> (string, string) dict" where
  "lower_first problem = [(''value'', py_lower (take 1 problem)), (''value2'', drop 1 problem)]"

text \<open>\<open>try: m except StepFailedError as exc: h(exc)\<close>.\<close>

definition on_step_failed :: "('w, 'a) job \<Rightarrow> (string \<Rightarrow> ('w, 'a) job) \<Rightarrow> ('w, 'a) job" where
  "on_step_failed m h j =
     (case m j of Some (Inl (StepFailed msg), j') \<Rightarrow> h msg j' | r \<Rightarrow> r)"

definition no_relay :: relay_settings where
  "no_relay = \<lparr>rl_profile_on = False, rl_host = [], rl_port = None, rl_security = ''starttls'', rl_user = [],
     rl_from_address = [], rl_from_name = DEFAULT_FROM_NAME, rl_has_password = False, rl_revision = []\<rparr>"

definition text_value :: "string option \<Rightarrow> pyval" where
  "text_value v = (case v of None \<Rightarrow> PNone | Some t \<Rightarrow> PStr t)"

definition mail_params :: "mail_input \<Rightarrow> relay_settings \<Rightarrow> (string, pyval) dict" where
  "mail_params data current =
     [(''host'', PStr (mi_host data)), (''port'', PInt (mi_port data)), (''security'', PStr (mi_security data)),
      (''login'', PBool (mi_user data \<noteq> [])), (''from_address'', PStr (mi_from_address data)),
      (''login_change'', PStr (password_action data current))]"

definition enable_params ::
  "string \<Rightarrow> string option \<Rightarrow> string option \<Rightarrow> mail_input option \<Rightarrow> relay_settings option \<Rightarrow> (string, pyval) dict" where
  "enable_params module variant url mail current_mail =
     [(''module'', PStr module), (''variant'', text_value variant)]
     @ (case url of None \<Rightarrow> [] | Some u \<Rightarrow> [(''public_url'', PStr u)])
     @ (case mail of None \<Rightarrow> []
        | Some data \<Rightarrow> mail_params data (case current_mail of Some c \<Rightarrow> c | None \<Rightarrow> no_relay))"

text \<open>The end of the job that switches a module on: what is said when the change is only partly in place.\<close>

definition enable_end ::
  "'w config_env \<Rightarrow> module_def \<Rightarrow> string option \<Rightarrow> string option \<Rightarrow> string list \<Rightarrow> ('w, unit) job" where
  "enable_end E m realm found skipped =
     (if given_text realm then
        jfail (RealmNotUpdated (jmsg E ''The relay is running, but Keycloak was not given its mail server (%(realm)s). Switch it off and on again once that is fixed.''
          [(''realm'', the realm)]))
      else if given_text found then
        jfail (NotHealthy (jmsg E ''%(title)s is switched on, but %(value)s%(value2)s Check the service log, or switch it off again.''
          ((''title'', md_title m) # lower_first (the found))))
      else if skipped \<noteq> [] then jfail (hook_nodes_failed E skipped)
      else jlog ''[info] done'')"

definition enable_callback ::
  "'w config_env \<Rightarrow> string \<Rightarrow> string option \<Rightarrow> string \<Rightarrow> string option \<Rightarrow> mail_input option \<Rightarrow> relay_settings option \<Rightarrow> ('w, unit) job" where
  "enable_callback E module variant user url mail current_mail =
     (case switchable module of
        None \<Rightarrow> jfail (JobRaise KeyError)
      | Some m \<Rightarrow>
          let params = enable_params module variant url mail current_mail;
              entry = jaudit E user ''config.module.enable'' (''module:'' @ module) params
          in jbind (config_setup E (setup_request_for module True variant url mail)) (\<lambda>_.
             jbind (on_step_failed
                (jbind (start_module E module (profile_flag_of (md_profile m))) (\<lambda>(realm, skipped).
                 jbind (recreate E (md_recreate m) skipped) (\<lambda>skipped'. jret (realm, skipped'))))
                (\<lambda>msg. jbind (entry ''partial'') (\<lambda>_.
                   jfail (StepFailed (jmsg E ''%(exc)s %(title)s is switched on in the configuration but did not start. Fix the cause and start it from the Services page, or switch it off here.''
                     [(''exc'', msg), (''title'', md_title m)]))))) (\<lambda>(realm, skipped).
             jbind (wait_healthy E (md_profile m)) (\<lambda>found.
             jbind (entry (if given_text found \<or> given_text realm \<or> skipped \<noteq> [] then ''partial'' else ''ok'')) (\<lambda>_.
               enable_end E m realm found skipped)))))"

definition KEYCLOAK_PROFILE :: string where "KEYCLOAK_PROFILE = ''keycloak''"

definition sync_realm :: "'w config_env \<Rightarrow> ('w, unit) job" where
  "sync_realm E =
     jbind (jsite (\<lambda>s. profile_node (ce_nodes E s) KEYCLOAK_PROFILE)) (\<lambda>node.
     jbind (if node = [] then jret {}
            else jbind (jsite (\<lambda>s. active_profiles (ne_files (ce_nodes E s)) (ne_config_dir (ce_nodes E s)))) jlift) (\<lambda>profiles.
       if node = [] \<or> KEYCLOAK_PROFILE \<notin> profiles
       then jbind (verb_step E ''keycloak-role-sync'' [] None) (\<lambda>_. jret ())
       else (\<lambda>j. case mail_run_verb E ''start'' [profile_flag_of KEYCLOAK_PROFILE, ''--node='' @ node] j of
               None \<Rightarrow> None
             | Some (Inl (JobCtl (CtlError msg code)), j') \<Rightarrow>
                 jfail (StepFailed (jmsg E ''papaia-ctl %(verb)s: %(value)s'' [(''verb'', ''start''), (''value'', msg)])) j'
             | Some (Inl e, j') \<Rightarrow> Some (Inl e, j')
             | Some (Inr None, j') \<Rightarrow> Some (Inr (), j')
             | Some (Inr (Some p), j') \<Rightarrow>
                 jfail (StepFailed (jmsg E ''The relay is off, but the realm still names it: %(value)s'' [(''value'', p)])) j')))"

definition call_purge :: "'w config_env \<Rightarrow> string \<Rightarrow> bool \<Rightarrow> bool \<Rightarrow> 'w site \<Rightarrow> (ctl_fault + py_answer) \<times> 'w site" where
  "call_purge E module data config s =
     (let N = ce_nodes E s
      in run_module_purge (ne_proc N) (ne_environ N) module data config (ne_workspace_dir N) (ne_config_dir N) s)"

definition purge_step ::
  "'w config_env \<Rightarrow> module_def \<Rightarrow> bool \<Rightarrow> string \<Rightarrow> (string, pyval) dict \<Rightarrow> ('w, unit) job" where
  "purge_step E m config user params =
     (let what = (if config then ''data and settings'' else ''data'')
      in jbind (jlog (''[ctl] module-purge '' @ md_name m @ '': deleting its '' @ what)) (\<lambda>_.
         jbind (jcall ''module-purge'' (call_purge E (md_name m) True config)) (\<lambda>(code, out, err).
         jbind (jlogs (shown_output None out err)) (\<lambda>_.
           if code = 0 then jret ()
           else jbind (jaudit E user ''config.module.disable'' (''module:'' @ md_name m) params ''partial'') (\<lambda>_.
             jfail (PurgeFailed (jmsg E ''%(title)s is off, but its %(what)s could not be deleted: %(value)s''
               [(''title'', md_title m), (''what'', what), (''value'', refusal SENTENCE_LIMIT code out err)])))))))"

definition disable_callback :: "'w config_env \<Rightarrow> string \<Rightarrow> string \<Rightarrow> string \<Rightarrow> ('w, unit) job" where
  "disable_callback E module scope user =
     (case switchable module of
        None \<Rightarrow> jfail (JobRaise KeyError)
      | Some m \<Rightarrow>
          let flag = profile_flag_of (md_profile m);
              delete_data = scope \<in> {SCOPE_DATA, SCOPE_ALL};
              delete_config = (scope = SCOPE_ALL);
              params = [(''module'', PStr module), (''scope'', PStr scope)]
          in jbind (jsite (\<lambda>s. active (ce_nodes E s))) (\<lambda>on.
             jbind (jlift on) (\<lambda>profiles.
             jbind (if md_profile m \<in> profiles
                    then jbind (verb_step E ''stop'' ([''--clean-up''] @ (if delete_data then [''--volumes''] else []) @ [flag]) None)
                           (\<lambda>_. jret ())
                    else jret ()) (\<lambda>_.
             jbind (config_setup E (setup_request_for module False None None None)) (\<lambda>_.
             jbind (if module = ''mail'' then sync_realm E else jret ()) (\<lambda>_.
             jbind (recreate E (md_recreate m) []) (\<lambda>skipped.
             jbind (if delete_data then purge_step E m delete_config user params else jret ()) (\<lambda>_.
             jbind (jaudit E user ''config.module.disable'' (''module:'' @ module) params (if skipped \<noteq> [] then ''partial'' else ''ok'')) (\<lambda>_.
               if skipped \<noteq> [] then jfail (hook_nodes_failed E skipped) else jlog ''[info] done'')))))))))"

section \<open>The Mail page\<close>

definition mail_apply_callback :: "'w config_env \<Rightarrow> mail_input \<Rightarrow> relay_settings \<Rightarrow> string \<Rightarrow> ('w, unit) job" where
  "mail_apply_callback E data current user =
     (let action = (if rl_profile_on current then ''mail.update'' else ''mail.settings'');
          params = mail_params data current
      in jbind (setup_step E 300 ''[ctl] papaia-ctl setup (mail relay options only)''
                  (SetupSmtp (setup_spec data (rl_profile_on current)))) (\<lambda>_.
         if \<not> rl_profile_on current then
           jbind (jlog ''[info] the relay is off; the settings apply when it is switched on'') (\<lambda>_.
           jbind (jaudit E user action ''smtp-relay'' params ''ok'') (\<lambda>_. jlog ''[info] done''))
         else
           jbind (mail_run_verb E ''start'' [profile_flag_of RELAY_PROFILE]) (\<lambda>found.
             case found of
               Some p \<Rightarrow>
                 jbind (jaudit E user action ''smtp-relay'' (params @ [(''realm'', PStr ''not updated'')]) ''partial'') (\<lambda>_.
                   jfail (RealmNotUpdated (jmsg E ''The relay is running, but Keycloak was not given its mail server (%(problem)s). Apply again once that is fixed.''
                     [(''problem'', p)])))
             | None \<Rightarrow> jbind (jaudit E user action ''smtp-relay'' params ''ok'') (\<lambda>_. jlog ''[info] done''))))"

section \<open>Overlay\<close>

definition EVENT_ACTION :: "(string, string) dict" where
  "EVENT_ACTION =
     [(''apply'', ''config.overlay.apply''), (''discard'', ''config.overlay.discard''), (''rollback'', ''config.overlay.rollback'')]"

definition set_disk :: "disk \<Rightarrow> 'w job_run \<Rightarrow> 'w job_run" where
  "set_disk d j = j\<lparr>jr_site := (jr_site j)\<lparr>st_disk := d\<rparr>\<rparr>"

abbreviation jdisk :: "'w job_run \<Rightarrow> disk" where
  "jdisk j \<equiv> st_disk (jr_site j)"

text \<open>
  Writing (\<open>Some\<close>) or removing (\<open>None\<close>) the file when it still has the revision \<open>expected\<close>: whether it was done, and the
  revision the file then has. \<open>back\<close> tells the first write from the one that takes it back.
\<close>

definition put_overlay ::
  "'w config_env \<Rightarrow> bool \<Rightarrow> string \<Rightarrow> string option \<Rightarrow> string \<Rightarrow> ('w, bool \<times> string) job" where
  "put_overlay E back key content expected j =
     (let F = ce_fault E back (jr_site j); R = ce_race E back; d = rc_before R (jdisk j)
      in case content of
           None \<Rightarrow>
             (case overlay_delete (ce_lib E) F R (ce_config_dir E) key expected d of
                (Inl e, d') \<Rightarrow> Some (Inl (JobOverlay e), set_disk d' j)
              | (Inr done_ok, d') \<Rightarrow> Some (Inr (done_ok, []), set_disk d' j))
         | Some data \<Rightarrow>
             (case overlay_write (ce_lib E) F R (ce_now E (jr_site j)) (ce_config_dir E) key data expected d of
                (Inl e, d') \<Rightarrow> Some (Inl (JobOverlay e), set_disk d' j)
              | (Inr None, d') \<Rightarrow> Some (Inr (False, []), set_disk d' j)
              | (Inr (Some f), d') \<Rightarrow> Some (Inr (True, of_revision f), set_disk d' j)))"

definition save_previous :: "'w config_env \<Rightarrow> string \<Rightarrow> string option \<Rightarrow> string \<Rightarrow> ('w, string option) job" where
  "save_previous E key raw event j =
     (case raw of
        None \<Rightarrow> Some (Inr None, j\<lparr>jr_log := jr_log j @ [''[backup] there was no overlay file; nothing to save'']\<rparr>)
      | Some data \<Rightarrow>
          (case history_save (ce_lib E) (ce_fault E False (jr_site j)) (ce_now E (jr_site j)) (ce_config_dir E) key data event (jdisk j) of
             (Inl (Overlay_Error e), d) \<Rightarrow> Some (Inl (JobOverlay e), set_disk d j)
           | (Inl (Value_Error e), d) \<Rightarrow> Some (Inl (JobValue e), set_disk d j)
           | (Inr vid, d) \<Rightarrow>
               Some (Inr (Some vid), (set_disk d j)\<lparr>jr_log := jr_log j @ [''[backup] previous version saved as '' @ vid]\<rparr>)))"

definition restore_end :: "'w config_env \<Rightarrow> string \<Rightarrow> ('w, unit) job" where
  "restore_end E flag =
     on_step_failed
       (jbind (verb_step E ''start'' [flag] None) (\<lambda>_. jlog ''[rollback] the group was started with the previous overlay''))
       (\<lambda>msg. jlog (''[rollback] the group did not start again either: '' @ msg))"

text \<open>\<open>_restore\<close>: only an \<open>OverlayError\<close> of the write and a \<open>StepFailedError\<close> of the start are caught.\<close>

definition restore_overlay :: "'w config_env \<Rightarrow> string \<Rightarrow> string option \<Rightarrow> string \<Rightarrow> string \<Rightarrow> ('w, unit) job" where
  "restore_overlay E key previous written_revision flag =
     jbind (jlog ''[rollback] putting the previous overlay back'') (\<lambda>_ j.
       case put_overlay E True key previous written_revision j of
         Some (Inl (JobOverlay e), j') \<Rightarrow> jlog (''[rollback] the previous file could not be restored: '' @ e) j'
       | Some (Inr (restored, _), j') \<Rightarrow>
           (if restored then restore_end E flag j' else jlog ''[rollback] the file changed meanwhile; left as it is'' j')
       | Some (Inl e, j') \<Rightarrow> Some (Inl e, j')
       | None \<Rightarrow> None)"

definition overlay_params ::
  "string option \<Rightarrow> string \<Rightarrow> string \<Rightarrow> string option \<Rightarrow> string option \<Rightarrow> (string, pyval) dict" where
  "overlay_params content before after saved version =
     [(''bytes'', PInt (case content of None \<Rightarrow> 0 | Some c \<Rightarrow> int (length c))), (''revision_before'', PStr (take 7 before)),
      (''revision_after'', PStr (take 7 after)), (''version_saved'', text_value saved)]
     @ (case version of None \<Rightarrow> [] | Some v \<Rightarrow> [(''version_restored'', PStr v)])"

text \<open>The containers that read the file are recreated; \<open>previous\<close> and \<open>written\<close> are for taking the change back.\<close>

definition apply_and_check ::
  "'w config_env \<Rightarrow> overlay_target \<Rightarrow> string option \<Rightarrow> string \<Rightarrow> (string, pyval) dict \<Rightarrow> string \<Rightarrow> string \<Rightarrow> string \<Rightarrow> ('w, unit) job" where
  "apply_and_check E t previous written params event action user =
     (let flag = profile_flag_of (ot_profile t); subject = ''overlay:'' @ ot_key t
      in jbind (on_step_failed
           (jbind (verb_step E ''stop'' [''--clean-up'', flag] None) (\<lambda>_. verb_step E ''start'' [flag] (Some [])))
           (\<lambda>msg. jbind (restore_overlay E (ot_key t) previous written flag) (\<lambda>_.
              jbind (jaudit E user ''config.overlay.rollback.auto'' subject (params @ [(''failed_event'', PStr event)]) ''error'') (\<lambda>_.
                jfail (RolledBack (jmsg E ''%(label)s did not start with the new overlay, so the previous version was put back. (%(exc)s)''
                  [(''label'', ot_label t), (''exc'', msg)])))))) (\<lambda>skipped.
         jbind (wait_healthy E (ot_profile t)) (\<lambda>found.
         jbind (jaudit E user action subject params (if given_text found \<or> skipped \<noteq> [] then ''partial'' else ''ok'')) (\<lambda>_.
           if given_text found then
             jfail (NotHealthy (jmsg E ''The overlay is in place, but %(value)s%(value2)s The previous version is in Versions if you want to go back.''
               (lower_first (the found))))
           else if skipped \<noteq> [] then jfail (hook_nodes_failed E skipped)
           else jlog ''[info] done''))))"

definition overlay_job ::
  "'w config_env \<Rightarrow> overlay_target \<Rightarrow> string option \<Rightarrow> string \<Rightarrow> string \<Rightarrow> string \<Rightarrow> string \<Rightarrow> string option \<Rightarrow> ('w, unit) job" where
  "overlay_job E t content expected event action user version j =
     (case overlay_read (ce_lib E) (ce_config_dir E) (ot_key t) (jdisk j) of
        Inl e \<Rightarrow> Some (Inl (JobOverlay e), j)
      | Inr current \<Rightarrow>
          if of_revision current \<noteq> expected
          then jfail (Conflict (jmsg E ''The overlay file changed after the page loaded it. Nothing was changed.'' [])) j
          else jbind (save_previous E (ot_key t) (of_raw current) event) (\<lambda>saved.
               jbind (put_overlay E False (ot_key t) content (of_revision current)) (\<lambda>(written_ok, new_revision).
                 if \<not> written_ok
                 then jfail (Conflict (jmsg E ''The overlay file changed while the job ran. Nothing was changed.'' []))
                 else jbind (jlog (if content = None then ''[info] overlay file removed'' else ''[info] overlay file written'')) (\<lambda>_.
                      jbind (jsite (\<lambda>s. active (ce_nodes E s))) (\<lambda>on.
                      jbind (jlift on) (\<lambda>profiles.
                        let params = overlay_params content (of_revision current) new_revision saved version
                        in if ot_profile t \<notin> profiles then
                             jbind (jlog (''[info] '' @ ot_label t @ '' is not switched on; the file applies the next time it starts'')) (\<lambda>_.
                               jaudit E user action (''overlay:'' @ ot_key t) (params @ [(''restarted'', PBool False)]) ''ok'')
                           else apply_and_check E t (of_raw current) new_revision (params @ [(''restarted'', PBool True)])
                                  event action user))))) j)"

definition overlay_callback ::
  "'w config_env \<Rightarrow> string \<Rightarrow> string option \<Rightarrow> string \<Rightarrow> string \<Rightarrow> string \<Rightarrow> string option \<Rightarrow> ('w, unit) job" where
  "overlay_callback E key content expected event user version =
     (case target (ce_lib E) key of
        Inl e \<Rightarrow> jfail (JobOverlay e)
      | Inr t \<Rightarrow>
          (case dict_get EVENT_ACTION event of
             None \<Rightarrow> jfail (JobRaise KeyError)
           | Some action \<Rightarrow> overlay_job E t content expected event action user version))"

end
