(* ===== verification/Config_Safe.thy ===== *)
theory Config_Safe
  imports Config_Jobs
begin

text \<open>
  What the configuration jobs guarantee: a secret never reaches the log, the wait for healthy containers ends, an edit on the
  host is never overwritten unseen, what is replaced can be recovered, a failed start puts the previous overlay back, and
  switching a module off with its data kept deletes nothing.

  \<open>job_frame\<close> is the interface the frame arguments share: a property of the job's state that no command, log line or wait
  changes is kept by every step built from them. It is interpreted for the commands that were run, for the history and for
  the overlay file.
\<close>

section \<open>Scrubbing\<close>

lemma contains_iff: "contains s p \<longleftrightarrow> (\<exists>a b. s = a @ p @ b)"
proof (induction s)
  case (Cons c s)
  have "contains (c # s) p \<longleftrightarrow> (\<exists>t. c # s = p @ t) \<or> (\<exists>a b. s = a @ p @ b)" using Cons by (simp add: startswith_append)
  also have "\<dots> \<longleftrightarrow> (\<exists>a b. c # s = a @ p @ b)"
  proof
    assume "(\<exists>t. c # s = p @ t) \<or> (\<exists>a b. s = a @ p @ b)"
    then show "\<exists>a b. c # s = a @ p @ b" by (metis append_Cons append_Nil)
  next
    assume "\<exists>a b. c # s = a @ p @ b"
    then obtain a b where ab: "c # s = a @ p @ b" by blast
    then show "(\<exists>t. c # s = p @ t) \<or> (\<exists>a b. s = a @ p @ b)" by (cases a) auto
  qed
  finally show ?case .
qed auto

lemma replace_text_prefix:
  assumes "startswith (replace_text old new s) q" "new \<noteq> []" "set q \<inter> set new = {}"
  shows "startswith s q"
  using assms
proof (induction old new s arbitrary: q rule: replace_text.induct)
  case (1 old new s)
  show ?case
  proof (cases "s = [] \<or> old = [] \<or> q = []")
    case True
    then show ?thesis using 1(3) by (cases "q = []") (auto simp: replace_text.simps [of old new s])
  next
    case False
    show ?thesis
    proof (cases "startswith s old")
      case True
      then have "startswith (new @ replace_text old new (drop (length old) s)) q"
        using 1(3) False by (simp add: replace_text.simps [of old new s])
      then have "hd new = hd q" using False 1(4) by (cases new; cases q) auto
      then show ?thesis using False 1(4,5) by (cases new; cases q) auto
    next
      case no: False
      then have "startswith (hd s # replace_text old new (tl s)) q"
        using 1(3) False by (simp add: replace_text.simps [of old new s])
      then obtain r where r: "q = hd s # r" "startswith (replace_text old new (tl s)) r"
        using False by (cases q) auto
      then show ?thesis using 1(2) [OF _ no r(2) 1(4)] False 1(5) by (cases s) auto
    qed
  qed
qed

lemma replace_text_hides:
  assumes "old \<noteq> []" "new \<noteq> []" "set old \<inter> set new = {}"
  shows "\<not> contains (replace_text old new s) old"
  using assms
proof (induction old new s rule: replace_text.induct)
  case (1 old new s)
  show ?case
  proof (cases "s = []")
    case True
    then show ?thesis using 1(3) by (simp add: replace_text.simps)
  next
    case False
    show ?thesis
    proof (cases "startswith s old")
      case True
      let ?r = "replace_text old new (drop (length old) s)"
      have IH: "\<not> contains ?r old" using 1 False True by simp
      have "\<not> contains (pre @ ?r) old" if "set pre \<subseteq> set new" for pre
        using that
      proof (induction pre)
        case (Cons c pre)
        then show ?case using 1(3,5) by (cases old) auto
      qed (simp add: IH)
      then show ?thesis using False True 1(3) by (simp add: replace_text.simps [of old new s])
    next
      case no: False
      have "\<not> startswith (hd s # replace_text old new (tl s)) old"
      proof
        assume a: "startswith (hd s # replace_text old new (tl s)) old"
        with 1(3) obtain r where r: "old = hd s # r" "startswith (replace_text old new (tl s)) r" by (cases old) auto
        have "startswith (tl s) r" by (rule replace_text_prefix [OF r(2) 1(4)]) (use 1(5) r(1) in auto)
        then show False using no False r(1) by (cases s) auto
      qed
      then show ?thesis using 1 False no by (simp add: replace_text.simps [of old new s])
    qed
  qed
qed

text \<open>
  The password of the mail server does not reach the job log: no line that \<open>setup\<close> wrote is shown with the password in it,
  wherever and however often it occurs (for a password without an asterisk, the character it is replaced by).
\<close>

theorem setup_log_hides_password:
  assumes "secret \<noteq> []" "CHR ''*'' \<notin> set secret"
  shows "\<forall>line \<in> set (shown_output (Some secret) out err). \<not> contains line secret"
  using replace_text_hides [of secret "''***''"] assms by (auto simp: shown_output_def scrub_def)

lemma setup_log_hides_password_witness:
  "list_all (\<lambda>line. \<not> contains line ''pw'') (shown_output (Some ''pw'') (''login pwpw'' @ [LF] @ ''ok'') ''ERROR: pw is wrong'')"
  unfolding list_all_iff by (rule setup_log_hides_password) simp_all

text \<open>The sentence of a refusal is cut before it is scrubbed, so a password at the cut is not recognised.\<close>

theorem cut_password_is_shown:
  assumes "error_sentence limit err = Some (pre @ shown)" "secret = shown @ rest" "rest \<noteq> []"
    and "\<not> contains (pre @ shown) secret"
  shows "scrub (refusal limit code out err) (Some secret) = pre @ shown"
proof -
  have keep: "replace_text secret ''***'' s = s" if "\<not> contains s secret" for s
    using that
  proof (induction s)
    case (Cons c s)
    then show ?case by (simp add: replace_text.simps [of secret "''***''" "c # s"])
  qed (simp add: replace_text.simps)
  have "refusal limit code out err = pre @ shown" using assms(1) by (simp add: refusal_def)
  then show ?thesis using keep [OF assms(4)] assms(2,3) by (simp add: scrub_def)
qed

section \<open>The wait ends\<close>

definition clock_advances :: "'w config_env \<Rightarrow> bool" where
  "clock_advances E \<longleftrightarrow>
     (\<forall>s. ce_clock E s \<le> ce_clock E (ce_look E s)) \<and> (\<forall>s p. ce_clock E s + p \<le> ce_clock E (ce_sleep E p s))"

lemma closer_to_deadline:
  "(a :: int) \<le> b \<Longrightarrow> b + p \<le> c \<Longrightarrow> \<not> b \<ge> d \<Longrightarrow> p > 0 \<Longrightarrow> nat (d - c) < nat (d - a)"
  by simp

lemma wait_loop_returns:
  assumes "clock_advances E" "pause > 0"
  shows "\<exists>r. wait_loop E profile deadline pause j = Some r"
proof (induction "nat (deadline - ce_clock E (jr_site j))" arbitrary: j rule: less_induct)
  case less
  let ?j1 = "j\<lparr>jr_site := ce_look E (jr_site j)\<rparr>"
  show ?case
  proof (cases "ce_clock E (jr_site ?j1) \<ge> deadline")
    case True
    then show ?thesis
      by (subst wait_loop.simps) (auto simp: Let_def split: sum.splits)
  next
    case False
    let ?next = "\<lambda>l. ?j1\<lparr>jr_log := l, jr_site := ce_sleep E pause (jr_site ?j1)\<rparr>"
    have look: "ce_clock E (jr_site j) \<le> ce_clock E (jr_site ?j1)" using assms(1) by (simp add: clock_advances_def)
    have "ce_clock E (jr_site ?j1) + pause \<le> ce_clock E (jr_site (?next l))" for l
      using assms(1) by (simp add: clock_advances_def)
    from closer_to_deadline [OF look this False assms(2)]
    have "nat (deadline - ce_clock E (jr_site (?next l))) < nat (deadline - ce_clock E (jr_site j))" for l .
    from less [OF this] have "\<exists>r. wait_loop E profile deadline pause (?next l) = Some r" for l .
    then show ?thesis
      by (subst wait_loop.simps) (auto simp: Let_def split: sum.splits)
  qed
qed

text \<open>C39: 
  The wait for healthy containers always ends: while the clock goes on at least as fast as the job sleeps, it returns a
  verdict, whatever docker reports.
\<close>

theorem wait_healthy_returns:
  assumes "clock_advances E"
  shows "\<exists>r j'. wait_healthy E profile j = Some (r, j')"
  using wait_loop_returns [OF assms, of HEALTH_INTERVAL] by (auto simp: wait_healthy_def HEALTH_INTERVAL_def)

section \<open>Frames\<close>

definition jkeeps :: "('w job_run \<Rightarrow> bool) \<Rightarrow> ('w, 'a) job \<Rightarrow> bool" where
  "jkeeps P m \<longleftrightarrow> (\<forall>j r j'. P j \<longrightarrow> m j = Some (r, j') \<longrightarrow> P j')"

lemma jkeepsD: "jkeeps P m \<Longrightarrow> P j \<Longrightarrow> m j = Some (r, j') \<Longrightarrow> P j'"
  by (auto simp: jkeeps_def)

lemma jkeeps_pure [simp]: "jkeeps P (jret a)" "jkeeps P (jfail e)" "jkeeps P (jlift r)" "jkeeps P (jsite f)"
  by (auto simp: jkeeps_def jret_def jfail_def jlift_def jsite_def)

lemma jbind_Some:
  "jbind m f j = Some (r, j') \<longleftrightarrow>
     (\<exists>e. m j = Some (Inl e, j') \<and> r = Inl e) \<or> (\<exists>a j1. m j = Some (Inr a, j1) \<and> f a j1 = Some (r, j'))"
  unfolding jbind_def by (auto split: option.splits prod.splits sum.splits)

lemma on_step_failed_Some:
  "on_step_failed m h j = Some (r, j') \<longleftrightarrow>
     (\<exists>msg j1. m j = Some (Inl (StepFailed msg), j1) \<and> h msg j1 = Some (r, j'))
     \<or> m j = Some (r, j') \<and> (\<forall>msg. r \<noteq> Inl (StepFailed msg))"
  unfolding on_step_failed_def by (auto split: option.splits prod.splits sum.splits config_error.splits)

lemma jkeeps_bind: "jkeeps P m \<Longrightarrow> (\<And>a. jkeeps P (f a)) \<Longrightarrow> jkeeps P (jbind m f)"
  unfolding jkeeps_def jbind_Some by blast

lemma jkeeps_catch: "jkeeps P m \<Longrightarrow> (\<And>e. jkeeps P (h e)) \<Longrightarrow> jkeeps P (on_step_failed m h)"
  unfolding jkeeps_def on_step_failed_Some by blast

locale job_frame =
  fixes E :: "'w config_env" and P :: "'w job_run \<Rightarrow> bool" and cmd_ok :: "string list \<Rightarrow> bool"
  assumes P_log [simp]: "P (j\<lparr>jr_log := l\<rparr>) \<longleftrightarrow> P j" and P_audit [simp]: "P (j\<lparr>jr_audit := a\<rparr>) \<longleftrightarrow> P j"
    and P_stream: "cmd_ok (verb # flags) \<Longrightarrow> P j \<Longrightarrow> stream_verb E verb flags j = Some (r, j') \<Longrightarrow> P j'"
    and P_look: "P j \<Longrightarrow> P (j\<lparr>jr_site := ce_look E (jr_site j)\<rparr>)"
    and P_sleep: "P j \<Longrightarrow> P (j\<lparr>jr_site := ce_sleep E p (jr_site j)\<rparr>)"
    and cmd_node: "cmd_ok (verb # flags) \<Longrightarrow> cmd_ok (verb # on_node flags node)"
begin

lemma keeps_log [simp]: "jkeeps P (jlog l)" "jkeeps P (jlogs ls)" "jkeeps P (jaudit E u a t p res)"
  by (auto simp: jkeeps_def jlog_def jlogs_def jaudit_def)

lemma keeps_stream: "cmd_ok (verb # run) \<Longrightarrow> jkeeps P (stream_verb E verb run)"
  using P_stream by (auto simp: jkeeps_def)

lemma keeps_runs: "list_all (\<lambda>run. cmd_ok (verb # run)) runs \<Longrightarrow> jkeeps P (verb_runs E verb collect index runs skipped)"
proof (induction runs arbitrary: index skipped)
  case (Cons run runs)
  then show ?case
    by (auto intro!: jkeeps_bind keeps_stream split: sum.splits simp: Let_def)
qed simp

lemma keeps_verb:
  assumes "cmd_ok (verb # flags)"
  shows "jkeeps P (verb_step E verb flags skipped)"
  unfolding jkeeps_def
proof (intro allI impI)
  fix j r j'
  assume j: "P j" "verb_step E verb flags skipped j = Some (r, j')"
  show "P j'"
  proof (cases "profile_runs (ce_nodes E (jr_site j)) verb flags")
    case (Inl e)
    then show ?thesis using j by (auto simp: verb_step_def jbind_Some jsite_def jlift_def)
  next
    case (Inr runs)
    have "list_all (\<lambda>run. cmd_ok (verb # run)) runs"
      using profile_runs_mem [OF Inr] assms cmd_node by (auto simp: list_all_iff)
    then show ?thesis
      using j Inr by (auto simp: verb_step_def jbind_Some jsite_def jlift_def intro: jkeepsD [OF keeps_runs])
  qed
qed

lemma keeps_recreate:
  assumes "\<And>profile. cmd_ok [''stop'', ''--clean-up'', profile_flag_of profile]" "\<And>profile. cmd_ok [''start'', profile_flag_of profile]"
  shows "jkeeps P (recreate E profiles skipped)"
  by (induction profiles arbitrary: skipped) (auto intro!: jkeeps_bind keeps_verb assms)

lemma keeps_mail_runs: "list_all (\<lambda>run. cmd_ok (verb # run)) runs \<Longrightarrow> jkeeps P (mail_runs E verb runs found)"
  by (induction runs arbitrary: found) (auto intro!: jkeeps_bind keeps_stream split: sum.splits)

lemma keeps_mail_verb:
  assumes "cmd_ok (verb # flags)"
  shows "jkeeps P (mail_run_verb E verb flags)"
  unfolding jkeeps_def
proof (intro allI impI)
  fix j r j'
  assume j: "P j" "mail_run_verb E verb flags j = Some (r, j')"
  show "P j'"
  proof (cases "profile_runs (ce_nodes E (jr_site j)) verb flags")
    case (Inl e)
    then show ?thesis using j by (auto simp: mail_run_verb_def jbind_Some jsite_def jlift_def)
  next
    case (Inr runs)
    have "list_all (\<lambda>run. cmd_ok (verb # run)) runs"
      using profile_runs_mem [OF Inr] assms cmd_node by (auto simp: list_all_iff)
    then show ?thesis
      using j Inr by (auto simp: mail_run_verb_def jbind_Some jsite_def jlift_def intro: jkeepsD [OF keeps_mail_runs])
  qed
qed

lemma keeps_wait_loop:
  assumes "wait_loop E profile deadline pause j = Some y" "P j"
  shows "P (snd y)"
proof -
  have "E = E \<longrightarrow> P j \<longrightarrow> P (snd y)"
  proof (rule wait_loop.raw_induct [where P = "\<lambda>E' profile deadline pause j y. E' = E \<longrightarrow> P j \<longrightarrow> P (snd y)", OF _ assms(1)], intro impI)
    fix f E' profile deadline pause j y
    assume IH: "\<And>E' profile deadline pause j y. f E' profile deadline pause j = Some y \<Longrightarrow> E' = E \<longrightarrow> P j \<longrightarrow> P (snd y)"
      and body: "(let j1 = j\<lparr>jr_site := ce_look E' (jr_site j)\<rparr>
      in case look_at E' (jr_site j) of
           Inl e \<Rightarrow> Some (Inl (JobRaise e), j1)
         | Inr snapshot \<Rightarrow>
             if sk_groups snapshot = [] then
               Some (Inr None, j1\<lparr>jr_log := jr_log j1 @ [''[info] health not checked: Docker did not report any containers'']\<rparr>)
             else if (case group_named profile snapshot of Some g \<Rightarrow> sg_health g \<in> GOOD | None \<Rightarrow> False) then
               Some (Inr None, j1\<lparr>jr_log := jr_log j1 @ [''[info] '' @ profile @ '': healthy'']\<rparr>)
             else if ce_clock E' (jr_site j1) \<ge> deadline then
               Some (Inr (Some (''The '' @ profile @ '' containers are '' @ group_state (group_named profile snapshot) @ ''.'')), j1)
             else f E' profile deadline pause
                    (j1\<lparr>jr_log := jr_log j1 @ [''[info] '' @ profile @ '': '' @ group_state (group_named profile snapshot) @ '', waiting''],
                        jr_site := ce_sleep E' pause (jr_site j1)\<rparr>)) = Some y"
      and E': "E' = E" and Pj: "P j"
    let ?j1 = "j\<lparr>jr_site := ce_look E (jr_site j)\<rparr>"
    have look: "P ?j1" using P_look [OF Pj] .
    have next_ok: "P (?j1\<lparr>jr_log := l, jr_site := ce_sleep E pause (jr_site ?j1)\<rparr>)" for l
      using P_sleep [of "?j1\<lparr>jr_log := l\<rparr>" pause] look by simp
    show "P (snd y)"
      using body look IH [OF _, of E _ _ _ _ y] next_ok unfolding E' Let_def
      by (auto split: sum.splits if_splits)
  qed
  then show ?thesis using assms(2) by simp
qed

lemma keeps_wait: "jkeeps P (wait_healthy E profile)"
  using keeps_wait_loop unfolding jkeeps_def wait_healthy_def by fastforce

end

locale setup_frame = job_frame +
  assumes P_setup: "P j \<Longrightarrow> P (j\<lparr>jr_site := snd (call_setup E spec (jr_site j)), jr_calls := jr_calls j @ [[''setup'']]\<rparr>)"
begin

lemma keeps_setup: "jkeeps P (setup_step E limit headline spec)"
proof -
  have "jkeeps P (jcall ''setup'' (call_setup E spec))"
    using P_setup by (auto simp: jkeeps_def jcall_def split: prod.splits) (metis snd_conv)
  then show ?thesis by (auto simp: setup_step_def intro!: jkeeps_bind)
qed

end

section \<open>Switching a module off\<close>

text \<open>A command that keeps every volume and every file of a module.\<close>

definition keeps_data :: "string list \<Rightarrow> bool" where
  "keeps_data cmd \<longleftrightarrow> ''--volumes'' \<notin> set cmd \<and> take 1 cmd \<noteq> [''module-purge'']"

lemma stream_verb_calls:
  "stream_verb E verb flags j = Some (r, j') \<Longrightarrow> jr_calls j' = jr_calls j \<or> jr_calls j' = jr_calls j @ [verb # flags]"
  by (auto simp: stream_verb_def Let_def split: sum.splits prod.splits)

interpretation kept: setup_frame E "\<lambda>j. list_all keeps_data (jr_calls j)" keeps_data for E
  by unfold_locales (auto simp: keeps_data_def on_node_def dest: stream_verb_calls)

lemma keeps_sync_realm: "jkeeps (\<lambda>j. list_all keeps_data (jr_calls j)) (sync_realm E)"
proof -
  let ?P = "\<lambda>j. list_all keeps_data (jr_calls j)"
  have "jkeeps ?P (mail_run_verb E ''start'' [profile_flag_of KEYCLOAK_PROFILE, ''--node='' @ node])" for node
    by (rule kept.keeps_mail_verb) (simp add: keeps_data_def profile_flag_of_def)
  note run = jkeepsD [OF this]
  have "jkeeps ?P (\<lambda>j. case mail_run_verb E ''start'' [profile_flag_of KEYCLOAK_PROFILE, ''--node='' @ node] j of
               None \<Rightarrow> None
             | Some (Inl (JobCtl (CtlError msg code)), j') \<Rightarrow> jfail (f msg) j'
             | Some (Inl e, j') \<Rightarrow> Some (Inl e, j')
             | Some (Inr None, j') \<Rightarrow> Some (Inr (), j')
             | Some (Inr (Some p), j') \<Rightarrow> jfail (g p) j')" for node and f g :: "string \<Rightarrow> config_error"
    unfolding jkeeps_def jfail_def
    by (auto split: option.splits prod.splits sum.splits config_error.splits ctl_fault.splits dest: run)
  then show ?thesis
    unfolding sync_realm_def
    by (auto intro!: jkeeps_bind kept.keeps_verb simp: keeps_data_def)
qed

text \<open>C32: 
  Switching a module off with its data kept deletes nothing: whatever the job meets, none of the commands it runs removes a
  volume or purges the module's files.
\<close>

theorem keep_deletes_nothing:
  assumes "disable_callback E module SCOPE_KEEP user j = Some (r, j')" "jr_calls j = []"
  shows "\<forall>cmd \<in> set (jr_calls j'). ''--volumes'' \<notin> set cmd \<and> take 1 cmd \<noteq> [''module-purge'']"
proof -
  have "jkeeps (\<lambda>j. list_all keeps_data (jr_calls j)) (disable_callback E module SCOPE_KEEP user)"
    unfolding disable_callback_def config_setup_def Let_def
    by (auto split: option.split intro!: jkeeps_bind kept.keeps_verb kept.keeps_setup kept.keeps_recreate keeps_sync_realm
        simp: keeps_data_def profile_flag_of_def SCOPE_KEEP_def SCOPE_DATA_def SCOPE_ALL_def)
  from jkeepsD [OF this _ assms(1)] assms(2) show ?thesis by (simp add: list_all_iff keeps_data_def)
qed

section \<open>Switching the relay on\<close>

text \<open>
  The start of the mail relay ends with the \<open>CtlError\<close> of \<open>run_verb\<close>, which the job does not catch: the module is switched on in
  the configuration by then, but unlike for every other module no audit entry is written and the sentence that says so is
  missing.
\<close>

lemma failed_relay_start_unrecorded:
  assumes "config_setup E (setup_request_for ''mail'' True variant url mail) j = Some (Inr (), j1)" "switchable ''mail'' = Some m"
    and "mail_run_verb E ''start'' [profile_flag_of (md_profile m)] j1 = Some (Inl (JobCtl e), j2)"
  shows "enable_callback E ''mail'' variant user url mail current_mail j = Some (Inl (JobCtl e), j2)"
  using assms by (simp add: enable_callback_def Let_def jbind_def on_step_failed_def start_module_def)

lemma failed_module_start_recorded:
  assumes "config_setup E (setup_request_for module True variant url mail) j = Some (Inr (), j1)" "switchable module = Some m"
    and "module \<noteq> ''mail''" "verb_step E ''start'' [profile_flag_of (md_profile m)] (Some []) j1 = Some (Inl (StepFailed msg), j2)"
  shows "\<exists>text j'. enable_callback E module variant user url mail current_mail j = Some (Inl (StepFailed text), j')
    \<and> butlast (jr_audit j') = jr_audit j2 \<and> ae_action (last (jr_audit j')) = ''config.module.enable''
    \<and> ae_result (last (jr_audit j')) = ''partial''"
  using assms by (simp add: enable_callback_def Let_def jbind_def on_step_failed_def start_module_def jaudit_def jfail_def)

section \<open>Replacing an overlay\<close>

text \<open>No command, reading of docker or pause changes the overlay files or their history, and nobody edits them on the host.\<close>

definition host_quiet :: "'w config_env \<Rightarrow> bool" where
  "host_quiet E \<longleftrightarrow>
     (\<forall>cmd s. st_disk (snd (ce_stream E cmd s)) = st_disk s) \<and> (\<forall>s. st_disk (ce_look E s) = st_disk s)
     \<and> (\<forall>p s. st_disk (ce_sleep E p s) = st_disk s)
     \<and> (\<forall>back d. rc_before (ce_race E back) d = d \<and> rc_check (ce_race E back) d = d \<and> rc_after (ce_race E back) d = d)"

lemma stream_verb_disk:
  assumes "stream_verb E verb flags j = Some (r, j')" "host_quiet E"
  shows "jdisk j' = jdisk j"
proof -
  have "st_disk s = st_disk (jr_site j)" if "ce_stream E cmd (jr_site j) = (x, s)" for cmd x s
    using assms(2) that unfolding host_quiet_def by (metis snd_conv)
  then show ?thesis
    using assms(1) by (auto simp: stream_verb_def Let_def split: sum.splits prod.splits)
qed

interpretation quiet: job_frame E "\<lambda>j. host_quiet E \<longrightarrow> jdisk j = d" "\<lambda>cmd. True" for E d
  by unfold_locales (auto simp: stream_verb_disk, auto simp: host_quiet_def)

lemma verb_step_disk:
  assumes "verb_step E verb flags skipped j = Some (r, j')" "host_quiet E"
  shows "jdisk j' = jdisk j"
  using jkeepsD [OF quiet.keeps_verb [OF TrueI, of E "jdisk j"] _ assms(1)] assms(2) by simp

lemma wait_healthy_disk:
  assumes "wait_healthy E profile j = Some (r, j')" "host_quiet E"
  shows "jdisk j' = jdisk j"
  using jkeepsD [OF quiet.keeps_wait [of E "jdisk j"] _ assms(1)] assms(2) by simp

lemma jdisk_set [simp]: "jdisk (set_disk d j) = d"
  by (simp add: set_disk_def)

lemma jdisk_log [simp]: "jdisk (j\<lparr>jr_log := l\<rparr>) = jdisk j" "jdisk (j\<lparr>jr_audit := a\<rparr>) = jdisk j"
  by simp_all

lemma put_overlay_total:
  "\<exists>q j'. put_overlay E b key content expected j = Some (q, j') \<and> (\<forall>e. q = Inl e \<longrightarrow> (\<exists>m. e = JobOverlay m))"
  by (auto simp: put_overlay_def Let_def split: option.splits prod.splits sum.splits)

lemma put_overlay_error: "put_overlay E b key content expected j = Some (Inl e, j') \<Longrightarrow> \<exists>m. e = JobOverlay m"
  using put_overlay_total [of E b key content expected j] by auto

text \<open>Putting bytes in place or removing the file, on a quiet host: it is refused, it fails with the file as it was, or it is done.\<close>

lemma put_overlay_cases:
  assumes "put_overlay E back key content expected j = Some (r, j')" "host_quiet E"
    and "overlay_path (ce_lib E) (ce_config_dir E) key = Inr path"
    and "overlay_read (ce_lib E) (ce_config_dir E) key (jdisk j) = Inr current"
  obtains (changed) "of_revision current \<noteq> expected" "r = Inr (False, [])" "jdisk j' = jdisk j"
  | (failed) e where "of_revision current = expected" "r = Inl (JobOverlay e)" "dk_overlay (jdisk j') path = dk_overlay (jdisk j) path"
      "dk_history (jdisk j') = dk_history (jdisk j)"
  | (placed) revision f where "of_revision current = expected" "r = Inr (True, revision)"
      "overlay_read (ce_lib E) (ce_config_dir E) key (jdisk j') = Inr f" "of_raw f = content" "dk_history (jdisk j') = dk_history (jdisk j)"
      "revision = revision_of (ce_lib E) content"
proof -
  let ?L = "ce_lib E" and ?R = "ce_race E back" and ?F = "ce_fault E back (jr_site j)" and ?dir = "ce_config_dir E"
  have R [simp]: "rc_before ?R d = d" "rc_check ?R d = d" "rc_after ?R d = d" for d
    using assms(2) by (auto simp: host_quiet_def)
  show ?thesis
  proof (cases content)
    case None
    obtain q d where q: "overlay_delete ?L ?F ?R ?dir key expected (jdisk j) = (q, d)" by fastforce
    with assms(1) None have out: "jdisk j' = d" "r = (case q of Inl e \<Rightarrow> Inl (JobOverlay e) | Inr b \<Rightarrow> Inr (b, []))"
      by (auto simp: put_overlay_def Let_def split: sum.splits)
    show ?thesis
      by (rule overlay_delete_cases [OF q assms(3,4)])
        (use out None assms(3) in \<open>auto simp: overlay_read_def revision_of_def intro: changed failed placed\<close>)
  next
    case (Some data)
    obtain q d where q: "overlay_write ?L ?F ?R (ce_now E (jr_site j)) ?dir key data expected (jdisk j) = (q, d)" by fastforce
    with assms(1) Some have out: "jdisk j' = d"
        "r = (case q of Inl e \<Rightarrow> Inl (JobOverlay e) | Inr None \<Rightarrow> Inr (False, []) | Inr (Some f) \<Rightarrow> Inr (True, of_revision f))"
      by (auto simp: put_overlay_def Let_def split: sum.splits option.splits)
    show ?thesis
    proof (cases rule: overlay_write_cases [OF q assms(3,4)])
      case (3 d1)
      then have bytes: "entry_bytes (dk_overlay d path) = Some data" by simp
      then obtain t m where "dk_overlay d path = Plain data t m" by (auto simp: entry_bytes_def split: overlay_entry.splits)
      from overlay_read_plain [OF assms(3) this] obtain f where
        "overlay_read ?L ?dir key d = Inr f" "of_raw f = Some data" "of_revision f = ol_sha256 ?L data" by blast
      then show ?thesis using 3 out Some by (auto simp: revision_of_def intro: placed)
    qed (use out Some in \<open>auto intro: changed failed\<close>)
  qed
qed

lemma put_overlay_no_fault:
  assumes "put_overlay E back key content expected j = Some (Inl e, j')" "host_quiet E"
    and "overlay_read (ce_lib E) (ce_config_dir E) key (jdisk j) = Inr current"
    and "\<And>call. ft_error (ce_fault E back (jr_site j)) call = None"
  shows False
proof -
  let ?R = "ce_race E back" and ?F = "ce_fault E back (jr_site j)" and ?dir = "ce_config_dir E"
  have R: "rc_before ?R d = d" "rc_check ?R d = d" "rc_after ?R d = d" for d
    using assms(2) by (auto simp: host_quiet_def)
  from assms(3) obtain path where path: "overlay_path (ce_lib E) ?dir key = Inr path"
    by (auto simp: overlay_read_def elim: rbindE)
  have swap: "fst (swap_in ?F now path data (of_exists current) (jdisk j)) = Inr ()" for now data
    using overlay_read_raw [OF assms(3) path]
    by (auto simp: swap_in_def stage_def assms(4) mode_at_def entry_bytes_def Let_def split: option.splits overlay_entry.splits)
  show False
  proof (cases content)
    case None
    then show ?thesis using assms(1) path R by (auto simp: put_overlay_def overlay_delete_def assms(3,4) Let_def split: if_splits)
  next
    case (Some data)
    obtain d1 where s: "swap_in ?F (ce_now E (jr_site j)) path data (of_exists current) (jdisk j) = (Inr (), d1)"
      using swap [of "ce_now E (jr_site j)" data] by (metis prod.collapse)
    from swap_in_frame(3) [OF s] have "entry_bytes (dk_overlay (clear_staged ?F path d1) path) = Some data" by simp
    then obtain t m where "dk_overlay (clear_staged ?F path d1) path = Plain data t m"
      by (auto simp: entry_bytes_def split: overlay_entry.splits)
    from overlay_read_plain [OF path this] obtain f where
      "overlay_read (ce_lib E) ?dir key (clear_staged ?F path d1) = Inr f" by blast
    then show ?thesis
      using assms(1) Some s path R by (auto simp: put_overlay_def overlay_write_def assms(3) Let_def split: if_splits)
  qed
qed

text \<open>Saving the previous version touches nothing but the history.\<close>

lemma history_save_overlay: "history_save L F now config_dir key data event d = (r, d') \<Longrightarrow> dk_overlay d' = dk_overlay d"
  by (auto simp: history_save_def store_version_def prune_history_def put_history_def Let_def
      split: if_splits sum.splits option.splits prod.splits)

lemma save_previous_cases:
  assumes "save_previous E key raw event j = Some (q, j1)"
  shows "dk_overlay (jdisk j1) = dk_overlay (jdisk j)" "jr_calls j1 = jr_calls j" "jr_audit j1 = jr_audit j"
    and "q = Inl e \<Longrightarrow> (\<exists>m. e = JobOverlay m) \<or> (\<exists>m. e = JobValue m)"
    and "q = Inr saved \<Longrightarrow> raw = Some data \<Longrightarrow>
      \<exists>vid. history_save (ce_lib E) (ce_fault E False (jr_site j)) (ce_now E (jr_site j)) (ce_config_dir E) key data event (jdisk j)
              = (Inr vid, jdisk j1)"
  using assms
  by (auto simp: save_previous_def set_disk_def dest: history_save_overlay split: option.splits prod.splits sum.splits history_fault.splits)

lemma restore_end_disk:
  assumes "restore_end E flag j = Some (r, j')" "host_quiet E"
  shows "jdisk j' = jdisk j"
  using assms verb_step_disk [OF _ assms(2)]
  by (fastforce simp: restore_end_def on_step_failed_Some jbind_Some jlog_def)

text \<open>
  Taking the change back, on a quiet host where the file still has the bytes \<open>content\<close>: the file has the previous bytes, or
  the write failed and it keeps the new ones; the history stays as it is.
\<close>

lemma restore_overlay_disk:
  assumes "restore_overlay E key previous (revision_of (ce_lib E) content) flag j = Some (r, j')" "host_quiet E"
    and "overlay_path (ce_lib E) (ce_config_dir E) key = Inr path"
    and "overlay_read (ce_lib E) (ce_config_dir E) key (jdisk j) = Inr current" "of_raw current = content"
  shows "dk_history (jdisk j') = dk_history (jdisk j)"
    and "(\<And>s call. ft_error (ce_fault E True s) call = None) \<Longrightarrow> entry_bytes (dk_overlay (jdisk j') path) = previous"
proof -
  let ?j = "j\<lparr>jr_log := jr_log j @ [''[rollback] putting the previous overlay back'']\<rparr>"
  obtain q j1 where q: "put_overlay E True key previous (revision_of (ce_lib E) content) ?j = Some (q, j1)"
    using assms(1) by (auto simp: restore_overlay_def jbind_Some jlog_def split: option.splits)
  have read: "overlay_read (ce_lib E) (ce_config_dir E) key (jdisk ?j) = Inr current" using assms(4) by simp
  have rev: "of_revision current = revision_of (ce_lib E) content" using overlay_read_raw(2) [OF assms(4,3)] assms(5) by simp
  have rest: "jdisk j' = jdisk j1" if "q = Inr (True, x) \<or> q = Inl (JobOverlay e)" for x e
    using assms(1) q that restore_end_disk [OF _ assms(2)] by (auto simp: restore_overlay_def jbind_Some jlog_def)
  have "dk_history (jdisk j') = dk_history (jdisk j)
      \<and> (entry_bytes (dk_overlay (jdisk j') path) = previous \<or> (\<exists>e. q = Inl e))"
    by (rule put_overlay_cases [OF q assms(2,3) read]) (use rev rest overlay_read_raw(1) [OF _ assms(3)] in auto)
  moreover have "\<not> (\<exists>e. q = Inl e)" if "\<And>s call. ft_error (ce_fault E True s) call = None"
    using put_overlay_no_fault [OF _ assms(2) read that] q by blast
  ultimately show "dk_history (jdisk j') = dk_history (jdisk j)"
    "(\<And>s call. ft_error (ce_fault E True s) call = None) \<Longrightarrow> entry_bytes (dk_overlay (jdisk j') path) = previous" by auto
qed

text \<open>The steps that never end with the errors of the overlay job itself.\<close>

definition own_error :: "config_error \<Rightarrow> bool" where
  "own_error e \<longleftrightarrow> (\<exists>m. e = RolledBack m) \<or> (\<exists>m. e = Conflict m)"

definition jplain :: "('w, 'a) job \<Rightarrow> bool" where
  "jplain m \<longleftrightarrow> (\<forall>j e j'. m j = Some (Inl e, j') \<longrightarrow> \<not> own_error e)"

lemma jplainD: "jplain m \<Longrightarrow> own_error e \<Longrightarrow> m j \<noteq> Some (Inl e, j')"
  by (auto simp: jplain_def)

lemma jplain_pure [simp]: "jplain (jret a)" "jplain (jlift r)" "jplain (jsite f)" "jplain (jlog l)" "jplain (jaudit E u act t p x)"
  "jplain (jfail e) \<longleftrightarrow> \<not> own_error e" "jplain (stream_verb E verb flags)"
  by (auto simp: jplain_def jret_def jfail_def jlift_def jsite_def jlog_def jaudit_def stream_verb_def Let_def own_error_def
      split: sum.splits prod.splits)

lemma jplain_bind: "jplain m \<Longrightarrow> (\<And>a. jplain (f a)) \<Longrightarrow> jplain (jbind m f)"
  unfolding jplain_def jbind_Some by blast

lemma jplain_catch: "jplain m \<Longrightarrow> (\<And>e. jplain (h e)) \<Longrightarrow> jplain (on_step_failed m h)"
  unfolding jplain_def on_step_failed_Some by blast

lemma own_error_simps [simp]: "\<not> own_error (StepFailed m)" "\<not> own_error (JobOverlay m)" "\<not> own_error (JobValue m)"
  "\<not> own_error (JobRaise e)" "\<not> own_error (NotHealthy m)" "\<not> own_error (hook_nodes_failed E l)" "own_error (RolledBack m)" "own_error (Conflict m)"
  by (simp_all add: own_error_def hook_nodes_failed_def)

lemma jplain_runs: "jplain (verb_runs E verb collect index runs skipped)"
proof (induction runs arbitrary: index skipped)
  case (Cons run runs)
  then show ?case by (auto intro!: jplain_bind split: sum.splits simp: Let_def)
qed simp

lemma jplain_verb: "jplain (verb_step E verb flags skipped)"
  unfolding verb_step_def by (intro jplain_bind jplain_runs) simp_all

lemma jplain_wait: "jplain (wait_healthy E profile)"
proof -
  have "\<forall>e. fst y = Inl e \<longrightarrow> \<not> own_error e" if "wait_loop E profile deadline pause j = Some y" for deadline pause j y
  proof (rule wait_loop.raw_induct [where P = "\<lambda>E profile deadline pause j y. \<forall>e. fst y = Inl e \<longrightarrow> \<not> own_error e", OF _ that])
    fix f :: "'a config_env \<Rightarrow> string \<Rightarrow> timedelta \<Rightarrow> timedelta \<Rightarrow> 'a job_run \<Rightarrow> ((config_error + string option) \<times> 'a job_run) option"
      and E profile deadline pause j y
    assume IH: "\<And>E profile deadline pause j y. f E profile deadline pause j = Some y \<Longrightarrow> \<forall>e. fst y = Inl e \<longrightarrow> \<not> own_error e"
      and body: "(let j1 = j\<lparr>jr_site := ce_look E (jr_site j)\<rparr>
      in case look_at E (jr_site j) of
           Inl e \<Rightarrow> Some (Inl (JobRaise e), j1)
         | Inr snapshot \<Rightarrow>
             if sk_groups snapshot = [] then
               Some (Inr None, j1\<lparr>jr_log := jr_log j1 @ [''[info] health not checked: Docker did not report any containers'']\<rparr>)
             else if (case group_named profile snapshot of Some g \<Rightarrow> sg_health g \<in> GOOD | None \<Rightarrow> False) then
               Some (Inr None, j1\<lparr>jr_log := jr_log j1 @ [''[info] '' @ profile @ '': healthy'']\<rparr>)
             else if ce_clock E (jr_site j1) \<ge> deadline then
               Some (Inr (Some (''The '' @ profile @ '' containers are '' @ group_state (group_named profile snapshot) @ ''.'')), j1)
             else f E profile deadline pause
                    (j1\<lparr>jr_log := jr_log j1 @ [''[info] '' @ profile @ '': '' @ group_state (group_named profile snapshot) @ '', waiting''],
                        jr_site := ce_sleep E pause (jr_site j1)\<rparr>)) = Some y"
    show "\<forall>e. fst y = Inl e \<longrightarrow> \<not> own_error e"
      using body IH [of E _ _ _ _ y] unfolding Let_def by (auto split: sum.splits if_splits)
  qed
  then show ?thesis unfolding jplain_def wait_healthy_def by fastforce
qed

text \<open>The parts of \<open>apply_and_check\<close>: the restart, what follows it, and what follows when it fails.\<close>

definition restart_group :: "'w config_env \<Rightarrow> overlay_target \<Rightarrow> ('w, string list) job" where
  "restart_group E t =
     jbind (verb_step E ''stop'' [''--clean-up'', profile_flag_of (ot_profile t)] None)
       (\<lambda>_. verb_step E ''start'' [profile_flag_of (ot_profile t)] (Some []))"

definition after_restart ::
  "'w config_env \<Rightarrow> overlay_target \<Rightarrow> (string, pyval) dict \<Rightarrow> string \<Rightarrow> string \<Rightarrow> string list \<Rightarrow> ('w, unit) job" where
  "after_restart E t params action user skipped =
     jbind (wait_healthy E (ot_profile t)) (\<lambda>found.
       jbind (jaudit E user action (''overlay:'' @ ot_key t) params (if given_text found \<or> skipped \<noteq> [] then ''partial'' else ''ok'')) (\<lambda>_.
         if given_text found then
           jfail (NotHealthy (jmsg E ''The overlay is in place, but %(value)s%(value2)s The previous version is in Versions if you want to go back.''
             (lower_first (the found))))
         else if skipped \<noteq> [] then jfail (hook_nodes_failed E skipped)
         else jlog ''[info] done''))"

definition take_back ::
  "'w config_env \<Rightarrow> overlay_target \<Rightarrow> string option \<Rightarrow> string \<Rightarrow> (string, pyval) dict \<Rightarrow> string \<Rightarrow> string \<Rightarrow> string \<Rightarrow> ('w, 'a) job" where
  "take_back E t previous written params event user msg =
     jbind (restore_overlay E (ot_key t) previous written (profile_flag_of (ot_profile t))) (\<lambda>_.
       jbind (jaudit E user ''config.overlay.rollback.auto'' (''overlay:'' @ ot_key t) (params @ [(''failed_event'', PStr event)]) ''error'')
         (\<lambda>_. jfail (RolledBack (jmsg E ''%(label)s did not start with the new overlay, so the previous version was put back. (%(exc)s)''
              [(''label'', ot_label t), (''exc'', msg)]))))"

lemma apply_and_check_steps:
  "apply_and_check E t previous written params event action user
     = jbind (on_step_failed (restart_group E t) (take_back E t previous written params event user))
         (after_restart E t params action user)"
  by (simp add: apply_and_check_def restart_group_def after_restart_def [abs_def] take_back_def [abs_def] Let_def)

lemma take_back_fails: "take_back E t previous written params event user msg j \<noteq> Some (Inr a, j')"
  by (auto simp: take_back_def jbind_Some jfail_def)

lemma restart_group_frame:
  assumes "restart_group E t j = Some (r, j')" "host_quiet E"
  shows "jdisk j' = jdisk j"
  using assms(1) verb_step_disk [OF _ assms(2)] unfolding restart_group_def jbind_Some by metis

lemma after_restart_frame:
  assumes "after_restart E t params action user skipped j = Some (r, j')" "host_quiet E"
  shows "jdisk j' = jdisk j"
proof -
  obtain q j1 where q: "wait_healthy E (ot_profile t) j = Some (q, j1)" and j': "jdisk j' = jdisk j1"
    using assms(1) by (auto simp: after_restart_def jbind_Some jaudit_def jlog_def jfail_def split: if_splits)
  then show ?thesis using wait_healthy_disk [OF q assms(2)] by simp
qed

lemma jplain_restart: "jplain (restart_group E t)" "jplain (after_restart E t params action user skipped)"
  by (auto simp: restart_group_def after_restart_def intro!: jplain_bind jplain_verb jplain_wait)

lemma apply_and_check_cases:
  assumes "apply_and_check E t previous written params event action user j = Some (r, j')" "host_quiet E"
  obtains (kept) "jdisk j' = jdisk j" "\<And>e. r = Inl e \<Longrightarrow> \<not> own_error e"
  | (taken_back) j1 q j2 where "jdisk j1 = jdisk j" "jdisk j2 = jdisk j'"
      "restore_overlay E (ot_key t) previous written (profile_flag_of (ot_profile t)) j1 = Some (q, j2)"
proof -
  from assms(1) consider (undone) msg j1 and q :: "config_error + string list" where
      "restart_group E t j = Some (Inl (StepFailed msg), j1)" "take_back E t previous written params event user msg j1 = Some (q, j')"
    | (stopped) e where "restart_group E t j = Some (Inl e, j')" "r = Inl e"
    | (went_on) skipped j1 where "restart_group E t j = Some (Inr skipped, j1)" "after_restart E t params action user skipped j1 = Some (r, j')"
    by (auto simp: apply_and_check_steps jbind_Some on_step_failed_Some take_back_fails)
  then show ?thesis
  proof cases
    case (undone msg j1 q)
    then show ?thesis
      using restart_group_frame [OF undone(1) assms(2)] by (auto simp: take_back_def jbind_Some jaudit_def jfail_def intro: taken_back)
  next
    case (stopped e)
    then show ?thesis using restart_group_frame [OF stopped(1) assms(2)] jplainD [OF jplain_restart(1)] kept by blast
  next
    case (went_on skipped j1)
    then have "jdisk j' = jdisk j"
      using restart_group_frame [OF went_on(1) assms(2)] after_restart_frame [OF went_on(2) assms(2)] by simp
    then show ?thesis using jplainD [OF jplain_restart(2)] went_on(2) kept by blast
  qed
qed

text \<open>
  The phases of the job on a quiet host: it ends before the file is touched (and only then with a \<open>Conflict\<close>), the new bytes
  are left in place, or they are taken back.
\<close>

lemma overlay_job_cases:
  assumes "overlay_job E t content expected event action user version j = Some (r, j')" "host_quiet E"
    and "overlay_path (ce_lib E) (ce_config_dir E) (ot_key t) = Inr path"
  obtains (untouched) "dk_overlay (jdisk j') path = dk_overlay (jdisk j) path" "\<And>m. r \<noteq> Inl (RolledBack m)"
  | (touched) current saved j1 d2 f where "overlay_read (ce_lib E) (ce_config_dir E) (ot_key t) (jdisk j) = Inr current"
      "save_previous E (ot_key t) (of_raw current) event j = Some (Inr saved, j1)"
      "overlay_read (ce_lib E) (ce_config_dir E) (ot_key t) d2 = Inr f" "of_raw f = content" "dk_history d2 = dk_history (jdisk j1)"
      "jdisk j' = d2 \<and> (\<forall>e. r = Inl e \<longrightarrow> \<not> own_error e)
       \<or> (\<exists>j3 q j4. jdisk j3 = d2 \<and> jdisk j4 = jdisk j' \<and>
            restore_overlay E (ot_key t) (of_raw current) (revision_of (ce_lib E) content) (profile_flag_of (ot_profile t)) j3 = Some (q, j4))"
proof (cases "overlay_read (ce_lib E) (ce_config_dir E) (ot_key t) (jdisk j)")
  case (Inl e)
  then show ?thesis using assms(1) untouched by (auto simp: overlay_job_def)
next
  case (Inr current)
  show ?thesis
  proof (cases "of_revision current = expected")
    case False
    then show ?thesis using assms(1) Inr untouched by (auto simp: overlay_job_def jfail_def)
  next
    case True
    let ?key = "ot_key t" and ?raw = "of_raw current"
    obtain q1 j1 where s: "save_previous E ?key ?raw event j = Some (q1, j1)"
      using assms(1) Inr True by (auto simp: overlay_job_def jbind_Some)
    note frame = save_previous_cases [OF s]
    show ?thesis
    proof (cases q1)
      case (Inl e)
      then show ?thesis
        using assms(1) Inr True s frame(1) frame(4) [OF Inl] untouched by (auto simp: overlay_job_def jbind_Some)
    next
      case saved: (Inr saved)
      have read: "overlay_read (ce_lib E) (ce_config_dir E) ?key (jdisk j1) = Inr current"
        using Inr frame(1) by (simp add: overlay_read_def)
      obtain q2 j2 where p: "put_overlay E False ?key content (of_revision current) j1 = Some (q2, j2)"
        using assms(1) Inr True s saved by (auto simp: overlay_job_def jbind_Some)
      from p assms(2,3) read show ?thesis
      proof (cases rule: put_overlay_cases)
        case changed
        then show ?thesis by simp
      next
        case (failed e)
        then show ?thesis
          using assms(1) Inr True s saved p frame(1) untouched by (auto simp: overlay_job_def jbind_Some)
      next
        case (placed revision f)
        then have out: "(\<exists>j2'. jdisk j2' = jdisk j2 \<and> (\<exists>params. apply_and_check E t ?raw revision params event action user j2' = Some (r, j')))
            \<or> jdisk j' = jdisk j2 \<and> (\<forall>e. r = Inl e \<longrightarrow> \<not> own_error e)"
          using assms(1) Inr True s saved p
          by (cases "active (ce_nodes E (jr_site j2))")
            (auto simp: overlay_job_def jbind_def jlog_def jsite_def jlift_def jaudit_def Let_def split: if_splits)
        show ?thesis
        proof (cases "jdisk j' = jdisk j2 \<and> (\<forall>e. r = Inl e \<longrightarrow> \<not> own_error e)")
          case True
          then show ?thesis using touched Inr s saved placed by blast
        next
          case no: False
          with out obtain j2' params where j2': "jdisk j2' = jdisk j2"
            and a: "apply_and_check E t ?raw revision params event action user j2' = Some (r, j')" by blast
          from a assms(2) show ?thesis
          proof (cases rule: apply_and_check_cases)
            case kept
            then show ?thesis using no j2' by metis
          next
            case (taken_back j3 q j4)
            then show ?thesis using touched [OF Inr s [unfolded saved] placed(3,4,5)] placed(6) j2' by metis
          qed
        qed
      qed
    qed
  qed
qed

lemma overlay_callbackE:
  assumes "overlay_callback E key content expected event user version j = Some (r, j')" "overlay_path (ce_lib E) (ce_config_dir E) key = Inr path"
  obtains "r = Inl (JobRaise KeyError)" "j' = j" "dict_get EVENT_ACTION event = None"
  | t action where "overlay_job E t content expected event action user version j = Some (r, j')" "ot_key t = key"
proof -
  obtain t where t: "target (ce_lib E) key = Inr t" using assms(2) by (auto simp: overlay_path_def elim: rbindE)
  then have "ot_key t = key" by (auto simp: target_def find_first_def find_Some_iff split: option.splits)
  then show ?thesis using assms(1) t that by (auto simp: overlay_callback_def jfail_def split: option.splits)
qed

text \<open>C21: 
  A start that fails is taken back: while nobody else writes to the disk and no fault of the disk comes on the way back, a job
  that ends with \<open>RolledBackError\<close> leaves the overlay file with the bytes it had before (or absent, when there was none). A file
  that was edited on the host in the meantime is left alone, and is not covered here.
\<close>

theorem failed_start_restores:
  assumes "overlay_callback E key content expected event user version j = Some (Inl (RolledBack msg), j')" "host_quiet E"
    and "overlay_path (ce_lib E) (ce_config_dir E) key = Inr path"
    and "\<And>s call. ft_error (ce_fault E True s) call = None"
  shows "entry_bytes (dk_overlay (jdisk j') path) = entry_bytes (dk_overlay (jdisk j) path)"
proof (rule overlay_callbackE [OF assms(1,3)])
  fix t action
  assume job: "overlay_job E t content expected event action user version j = Some (Inl (RolledBack msg), j')" and key: "ot_key t = key"
  have path: "overlay_path (ce_lib E) (ce_config_dir E) (ot_key t) = Inr path" using assms(3) key by simp
  from job assms(2) path show ?thesis
  proof (cases rule: overlay_job_cases)
    case (touched current saved j1 d2 f)
    then obtain j3 q j4 where d: "jdisk j3 = d2" "jdisk j4 = jdisk j'" and
      undo: "restore_overlay E (ot_key t) (of_raw current) (revision_of (ce_lib E) content) (profile_flag_of (ot_profile t)) j3 = Some (q, j4)"
      by auto
    show ?thesis
      using restore_overlay_disk(2) [OF undo assms(2) path, unfolded d(1), OF touched(3,4) assms(4)] d(2)
        overlay_read_raw(1) [OF touched(1) path] by simp
  qed simp
qed simp

text \<open>The versions at least as late as one just saved are those of its second or later.\<close>

lemma recent_versions:
  assumes "history_save L F now config_dir key data event d = (Inr vid, d')" "listing_ok L" "stamp_shape (ol_strftime L now)"
    and "history_dir L config_dir key = Inr dir" "dict_ok (history_at d dir)" "length (history_at d dir) < 1000"
    and "card {v. is_version (history_at d dir) v \<and> ol_strftime L now \<le> fst (version_order v)} < KEEP"
  shows "card {v. is_version (history_at d dir) v \<and> version_order (vid @ SUFFIX) \<le> version_order v} < KEEP"
proof -
  let ?h = "history_at d dir"
  from assms(1) obtain n where ev: "event \<in> set HISTORY_EVENTS"
      and n: "n = free_number (ol_strftime L now @ ''-'' @ event) (dict_keys ?h) 0"
      and vid: "vid = numbered_id (ol_strftime L now @ ''-'' @ event) n"
    by (rule history_saveE) (use assms(4) in auto)
  have small: "n < 1000" using free_number_bound [of _ "dict_keys ?h"] assms(6) unfolding n length_map by (rule le_less_trans)
  have "version_order (vid @ SUFFIX) = (ol_strftime L now, n)"
    using version_order_numbered [OF assms(3) ev small] by (simp only: vid)
  then have "{v. is_version ?h v \<and> version_order (vid @ SUFFIX) \<le> version_order v}
      \<subseteq> {v. is_version ?h v \<and> ol_strftime L now \<le> fst (version_order v)}"
    by (auto simp: less_eq_prod_def)
  moreover have "finite {v. is_version ?h v \<and> ol_strftime L now \<le> fst (version_order v)}"
    by (rule finite_subset [of _ "set (dict_keys ?h)"]) (auto dest: is_version_key)
  ultimately show ?thesis by (rule le_less_trans [OF card_mono [rotated] assms(7)])
qed

text \<open>C22: 
  What the job replaces can be recovered: while nobody else writes to the disk, when the file no longer has its bytes after the
  job, however it ended, they can be read from the history under some version id; provided the history holds fewer than 1000
  versions and fewer than \<open>KEEP\<close> of them are stamped with the present second or a later one (with a clock that was set back
  the version just saved can be pruned at once, see \<open>set_back_clock_loses_version\<close>).
\<close>

theorem replaced_overlay_recoverable:
  assumes "overlay_callback E key content expected event user version j = Some (r, j')" "host_quiet E"
    and "overlay_path (ce_lib E) (ce_config_dir E) key = Inr path" "entry_bytes (dk_overlay (jdisk j) path) = Some data"
    and "entry_bytes (dk_overlay (jdisk j') path) \<noteq> Some data"
    and "listing_ok (ce_lib E)" "stamp_shape (ol_strftime (ce_lib E) (ce_now E (jr_site j)))"
    and "history_dir (ce_lib E) (ce_config_dir E) key = Inr dir" "dict_ok (history_at (jdisk j) dir)"
    and "length (history_at (jdisk j) dir) < 1000"
    and "card {v. is_version (history_at (jdisk j) dir) v
           \<and> ol_strftime (ce_lib E) (ce_now E (jr_site j)) \<le> fst (version_order v)} < KEEP"
  shows "\<exists>vid. history_read (ce_lib E) (ce_config_dir E) key vid (jdisk j') = Inr data"
proof (rule overlay_callbackE [OF assms(1,3)])
  fix t action
  assume job: "overlay_job E t content expected event action user version j = Some (r, j')" and key: "ot_key t = key"
  have path: "overlay_path (ce_lib E) (ce_config_dir E) (ot_key t) = Inr path" using assms(3) key by simp
  from job assms(2) path show ?thesis
  proof (cases rule: overlay_job_cases)
    case untouched
    then show ?thesis using assms(4,5) by simp
  next
    case (touched current saved j1 d2 f)
    have raw: "of_raw current = Some data" using overlay_read_raw(1) [OF touched(1) path] assms(4) by simp
    from save_previous_cases(5) [OF touched(2) refl raw] obtain vid where
      vid: "history_save (ce_lib E) (ce_fault E False (jr_site j)) (ce_now E (jr_site j)) (ce_config_dir E) key data event (jdisk j)
        = (Inr vid, jdisk j1)" unfolding key by blast
    have "dk_history (jdisk j') = dk_history (jdisk j1)"
      using touched(6) restore_overlay_disk(1) [OF _ assms(2) path _ touched(4)] touched(3,5) by metis
    then have same: "history_read (ce_lib E) (ce_config_dir E) key vid (jdisk j') = history_read (ce_lib E) (ce_config_dir E) key vid (jdisk j1)"
      by (simp add: history_read_def history_at_def)
    show ?thesis
      using saved_version_readable [OF assms(6-10) vid] same recent_versions [OF vid assms(6-11)] by auto
  qed
qed (use assms(4,5) in simp)

section \<open>Conflicts\<close>

lemma jplain_restore: "jplain (restore_overlay E key previous written flag)"
proof -
  have "jplain (restore_end E flag)"
    unfolding restore_end_def by (intro jplain_catch jplain_bind jplain_verb) simp_all
  from jplainD [OF this] show ?thesis
    unfolding restore_overlay_def jplain_def jbind_Some
    by (auto simp: jlog_def split: option.splits prod.splits sum.splits config_error.splits if_splits dest: put_overlay_error)
qed

lemma apply_and_check_no_conflict: "apply_and_check E t previous written params event action user j \<noteq> Some (Inl (Conflict m), j')"
proof -
  have "take_back E t previous written params event user msg j \<noteq> Some (Inl (Conflict m), j')" for msg j j'
    using jplainD [OF jplain_restore, of "Conflict m"] by (force simp: take_back_def jbind_Some jaudit_def jfail_def)
  then show ?thesis
    using jplainD [OF jplain_restart(1), of "Conflict m" E t] jplainD [OF jplain_restart(2), of "Conflict m" E t]
    by (force simp: apply_and_check_steps jbind_Some on_step_failed_Some)
qed

text \<open>A write refused for the revision leaves the disk as it found it.\<close>

lemma put_overlay_refused:
  assumes "put_overlay E back key content expected j = Some (Inr (False, revision), j')"
  shows "jdisk j' = rc_before (ce_race E back) (jdisk j)" "jr_calls j' = jr_calls j" "jr_audit j' = jr_audit j"
  using assms
  by (auto simp: put_overlay_def overlay_write_def overlay_delete_def Let_def set_disk_def
      split: option.splits prod.splits sum.splits if_splits elim!: rbindE)

text \<open>C23: 
  Nothing is overwritten unseen: with a page that is out of date the job ends with a \<open>ConflictError\<close> and changes nothing, and
  whenever it ends with one, no command was run, no audit entry written, and the overlay files are as the host left them.
\<close>

theorem stale_overlay_refused:
  assumes "overlay_callback E key content expected event user version j = Some (r, j')" "event \<in> set HISTORY_EVENTS"
    and "overlay_read (ce_lib E) (ce_config_dir E) key (jdisk j) = Inr current"
  shows "(of_revision current \<noteq> expected \<longrightarrow> (\<exists>m. r = Inl (Conflict m)) \<and> j' = j)
    \<and> (\<forall>m. r = Inl (Conflict m) \<longrightarrow> jr_calls j' = jr_calls j \<and> jr_audit j' = jr_audit j
        \<and> (jdisk j' = jdisk j
           \<or> (\<exists>d. dk_overlay d = dk_overlay (jdisk j) \<and> jdisk j' = rc_before (ce_race E False) d)))"
proof -
  obtain path where path: "overlay_path (ce_lib E) (ce_config_dir E) key = Inr path"
    using assms(3) by (auto simp: overlay_read_def elim: rbindE)
  have event: "dict_get EVENT_ACTION event \<noteq> None" using assms(2) by (auto simp: EVENT_ACTION_def HISTORY_EVENTS_def dict_get_def)
  obtain t action where job: "overlay_job E t content expected event action user version j = Some (r, j')" and key: "ot_key t = key"
    using overlay_callbackE [OF assms(1) path] event by metis
  show ?thesis
  proof (cases "of_revision current = expected")
    case False
    then show ?thesis using job key assms(3) by (auto simp: overlay_job_def jfail_def)
  next
    case True
    have "jr_calls j' = jr_calls j \<and> jr_audit j' = jr_audit j
        \<and> (\<exists>d. dk_overlay d = dk_overlay (jdisk j) \<and> jdisk j' = rc_before (ce_race E False) d)" if r: "r = Inl (Conflict m)" for m
    proof -
      obtain q1 j1 where s: "save_previous E key (of_raw current) event j = Some (q1, j1)"
        using job key assms(3) True by (auto simp: overlay_job_def jbind_Some)
      note frame = save_previous_cases [OF s]
      from r frame(4) job key assms(3) True s obtain saved where saved: "q1 = Inr saved"
        by (cases q1) (auto simp: overlay_job_def jbind_Some)
      from job key assms(3) True s saved obtain q2 j2 where p: "put_overlay E False key content expected j1 = Some (q2, j2)"
        by (auto simp: overlay_job_def jbind_Some)
      have "\<exists>rev. q2 = Inr (False, rev) \<and> j' = j2"
      proof (cases q2)
        case (Inl e)
        from put_overlay_error [OF p [unfolded Inl]]
        show ?thesis using job key assms(3) True s saved p Inl r by (auto simp: overlay_job_def jbind_def)
      next
        case (Inr pr)
        then show ?thesis
          using job key assms(3) True s saved p r
          by (cases pr, cases "active (ce_nodes E (jr_site j2))")
            (auto simp: overlay_job_def jbind_def jlog_def jsite_def jlift_def jaudit_def jfail_def Let_def apply_and_check_no_conflict split: if_splits)
      qed
      then show ?thesis using put_overlay_refused [of E False key content expected j1 _ j2] p frame(1-3) by auto
    qed
    then show ?thesis using True by blast
  qed
qed

section \<open>Examples\<close>

text \<open>A host with one node, the profiles \<open>on\<close>, whose commands all exit with \<open>code\<close>; the rest of the world is the clock.\<close>

definition demo_host :: "string \<Rightarrow> int site nodes_env" where
  "demo_host on = \<lparr>ne_i18n = \<lparr>tr = \<lambda>m a. m, ntr = \<lambda>m p n a. m\<rparr>, ne_yaml = (\<lambda>t. None), ne_json = (\<lambda>t. None),
     ne_files = (\<lambda>p. if p = ''/c/.env'' then Text (''COMPOSE_PROFILES='' @ on) else Absent),
     ne_config_dir = ''/c'', ne_workspace_dir = ''/w'', ne_placement = None, ne_environ = [],
     ne_proc = (\<lambda>call limit w. (Ended (Some 0) [] [], w))\<rparr>"

definition demo_config :: "string \<Rightarrow> int \<Rightarrow> int config_env" where
  "demo_config on code = \<lparr>ce_lib = demo_overlay_lib,
     ce_modules = (\<lambda>s. \<lparr>mo_sha256 = (\<lambda>x. x), mo_mail_bytes = \<lparr>mb_module = None, mb_password_size = None\<rparr>, mo_bracketed = (\<lambda>h. True)\<rparr>),
     ce_nodes = (\<lambda>s. demo_host on), ce_services = (\<lambda>s. demo_env),
     ce_stream = (\<lambda>cmd s. (([], Some code), s)), ce_codec = demo_codec, ce_now = (\<lambda>s. 7), ce_stamp = (\<lambda>s. []),
     ce_clock = st_world, ce_look = (\<lambda>s. s), ce_sleep = (\<lambda>p s. s\<lparr>st_world := st_world s + p\<rparr>),
     ce_fault = (\<lambda>back s. demo_faults), ce_race = (\<lambda>back. \<lparr>rc_before = (\<lambda>d. d), rc_check = (\<lambda>d. d), rc_after = (\<lambda>d. d)\<rparr>),
     ce_config_dir = ''/c'', ce_job_id = ''1''\<rparr>"

definition demo_start :: "int job_run" where
  "demo_start = \<lparr>jr_log = [], jr_audit = [], jr_calls = [], jr_site = \<lparr>st_disk = \<lparr>dk_overlay = (\<lambda>p.
     if p = ''/c/overlay/ai/litellm/config.yaml'' then Plain ''old'' 0 384 else NoFile), dk_history = (\<lambda>dir. None)\<rparr>, st_world = 0\<rparr>\<rparr>"

lemma demo_config_quiet: "host_quiet (demo_config on code)" "clock_advances (demo_config on code)"
  by (simp_all add: host_quiet_def clock_advances_def demo_config_def)

lemma wait_healthy_returns_witness: "\<exists>r j'. wait_healthy (demo_config ''rag'' 0) ''rag'' demo_start = Some (r, j')"
  by (rule wait_healthy_returns) (rule demo_config_quiet)

text \<open>Every step of the demo host, evaluated once.\<close>

lemma demo_stream:
  assumes "verb \<in> {''start'', ''stop''}"
  shows "stream_verb (demo_config on code) verb flags j =
    Some (Inr ([], if code = 0 then Inr () else Inl (CtlError (''papaia-ctl exited with code '' @ str_of_int code) code)),
      j\<lparr>jr_calls := jr_calls j @ [verb # flags]\<rparr>)"
proof -
  have "verb \<in> ALLOWED_CORE_VERBS" using assms by (auto simp: ALLOWED_CORE_VERBS_def)
  then show ?thesis
    by (simp add: stream_verb_def demo_config_def core_verb_cmd_def demo_host_def stream_subprocess_def new_reader_def Let_def)
qed

lemma demo_profile_runs: "profile_runs (ce_nodes (demo_config on code) s) verb flags = Inr [flags]"
proof -
  have "path_join ''/c'' ''deployment.yaml'' = ''/c/deployment.yaml''" by code_simp
  then have "\<not> is_distributed (demo_host on)"
    by (simp add: is_distributed_def topology_def load_deployment_yaml_def demo_host_def DISTRIBUTED_def dict_get_def get_or_def)
  then show ?thesis by (simp add: profile_runs_def demo_config_def Let_def)
qed

lemma demo_verb_fails:
  assumes "verb \<in> {''start'', ''stop''}"
  shows "\<exists>msg j'. verb_step (demo_config on 1) verb flags skipped j = Some (Inl (StepFailed msg), j')"
  using assms by (simp add: verb_step_def jbind_def jsite_def jlift_def demo_profile_runs jlog_def demo_stream jfail_def Let_def)

lemma demo_verb_works:
  assumes "verb \<in> {''start'', ''stop''}"
  shows "\<exists>skipped' j'. verb_step (demo_config on 0) verb flags skipped j = Some (Inr skipped', j')"
  using assms by (simp add: verb_step_def jbind_def jsite_def jlift_def demo_profile_runs jlog_def demo_stream jret_def)

lemma demo_rolls_back:
  "\<exists>m j'. apply_and_check (demo_config on 1) t previous written params event action user j = Some (Inl (RolledBack m), j')"
proof -
  let ?E = "demo_config on 1" and ?flag = "profile_flag_of (ot_profile t)"
  obtain msg j1 where stop: "verb_step ?E ''stop'' [''--clean-up'', ?flag] None j = Some (Inl (StepFailed msg), j1)"
    using demo_verb_fails by blast
  have end_ok: "\<exists>j'. restore_end ?E ?flag j = Some (Inr (), j')" for j
    using demo_verb_fails [of "''start''" on "[?flag]" None j] by (auto simp: restore_end_def on_step_failed_def jbind_def jlog_def)
  have "\<exists>j'. restore_overlay ?E (ot_key t) previous written ?flag j = Some (Inr (), j')" for j
    using put_overlay_total [of ?E True "ot_key t" previous written "j\<lparr>jr_log := jr_log j @ [''[rollback] putting the previous overlay back'']\<rparr>"] end_ok
    by (auto simp: restore_overlay_def jbind_def jlog_def split: sum.splits)
  then obtain j2 where "restore_overlay ?E (ot_key t) previous written ?flag j1 = Some (Inr (), j2)" by blast
  then show ?thesis
    using stop by (simp add: apply_and_check_steps jbind_def on_step_failed_def restart_group_def take_back_def jaudit_def jfail_def)
qed

lemma demo_save_previous:
  "\<exists>j1. save_previous (demo_config on code) ''litellm'' (Some ''old'') ''apply'' demo_start = Some (Inr (Some ''20260102T000000Z-apply''), j1)
     \<and> dk_overlay (jdisk j1) = dk_overlay (jdisk demo_start) \<and> jr_site j1 = (jr_site demo_start)\<lparr>st_disk := jdisk j1\<rparr>"
  by (simp add: save_previous_def history_save_def HISTORY_EVENTS_def demo_history_dir_of store_version_def
      demo_faults_def free_number.simps [of _ _ 0] numbered_id_def demo_config_def demo_start_def demo_strftime history_at_def
      prune_history_def put_history_def set_disk_def)

abbreviation demo_path :: string where
  "demo_path \<equiv> ''/c/overlay/ai/litellm/config.yaml''"

lemma demo_overlay_path: "overlay_path demo_overlay_lib ''/c'' ''litellm'' = Inr demo_path"
  by code_simp

lemma demo_config_simps [simp]: "ce_lib (demo_config on code) = demo_overlay_lib" "ce_config_dir (demo_config on code) = ''/c''"
    "ce_nodes (demo_config on code) s = demo_host on" "ce_fault (demo_config on code) b s = demo_faults"
  by (simp_all add: demo_config_def)

lemma demo_apply:
  assumes "active (demo_host on) = Inr profiles"
  obtains t j2 revision params where "ot_profile t = ''litellm''" "entry_bytes (dk_overlay (jdisk j2) demo_path) = Some ''new''"
    "''litellm'' \<in> profiles \<Longrightarrow> overlay_callback (demo_config on code) ''litellm'' (Some ''new'') ''#old'' ''apply'' ''u'' None demo_start
       = apply_and_check (demo_config on code) t (Some ''old'') revision params ''apply'' ''config.overlay.apply'' ''u'' j2"
    "''litellm'' \<notin> profiles \<Longrightarrow> \<exists>j'. overlay_callback (demo_config on code) ''litellm'' (Some ''new'') ''#old'' ''apply'' ''u'' None demo_start
       = Some (Inr (), j') \<and> jdisk j' = jdisk j2"
proof -
  let ?E = "demo_config on code"
  obtain t where t: "target demo_overlay_lib ''litellm'' = Inr t" "ot_profile t = ''litellm''" "ot_key t = ''litellm''"
    by (simp add: target_def TARGETS_def find_first_def)
  have ev: "dict_get EVENT_ACTION ''apply'' = Some ''config.overlay.apply''" by (simp add: EVENT_ACTION_def dict_get_def)
  obtain cur where cur: "overlay_read demo_overlay_lib ''/c'' ''litellm'' (jdisk demo_start) = Inr cur"
      "of_raw cur = Some ''old''" "of_revision cur = ''#old''"
    using overlay_read_plain [OF demo_overlay_path, of "jdisk demo_start" "''old''" 0 384]
    by (auto simp: demo_start_def demo_overlay_lib_def)
  obtain j1 where j1: "save_previous ?E ''litellm'' (Some ''old'') ''apply'' demo_start = Some (Inr (Some ''20260102T000000Z-apply''), j1)"
      "dk_overlay (jdisk j1) = dk_overlay (jdisk demo_start)" using demo_save_previous by blast
  have read1: "overlay_read (ce_lib ?E) (ce_config_dir ?E) ''litellm'' (jdisk j1) = Inr cur"
    using cur(1) j1(2) by (simp add: overlay_read_def)
  obtain q j2 where p: "put_overlay ?E False ''litellm'' (Some ''new'') ''#old'' j1 = Some (q, j2)"
    using put_overlay_total by blast
  have path: "overlay_path (ce_lib ?E) (ce_config_dir ?E) ''litellm'' = Inr demo_path" using demo_overlay_path by simp
  from p demo_config_quiet(1) path read1 show ?thesis
  proof (cases rule: put_overlay_cases)
    case (failed e)
    then show ?thesis using put_overlay_no_fault [OF p [unfolded failed] demo_config_quiet(1) read1] by (simp add: demo_faults_def)
  next
    case (placed revision f)
    let ?j = "j2\<lparr>jr_log := jr_log j2 @ [''[info] overlay file written'']\<rparr>"
    have bytes: "entry_bytes (dk_overlay (jdisk ?j) demo_path) = Some ''new''"
      using overlay_read_raw(1) [OF placed(3) path] placed(4) by simp
    show ?thesis
      by (rule that [of t ?j, OF t(2) bytes])
        (auto simp: overlay_callback_def t ev overlay_job_def cur jbind_def j1(1) p placed(2) jlog_def jsite_def jlift_def assms jaudit_def Let_def)
  qed (use cur in simp)
qed

lemma demo_active: "active (demo_host ''litellm'') = Inr {''litellm''}" "active (demo_host ''rag'') = Inr {''rag''}"
  by code_simp+

lemma failed_start_restores_witness:
  "\<exists>m j'. overlay_callback (demo_config ''litellm'' 1) ''litellm'' (Some ''new'') ''#old'' ''apply'' ''u'' None demo_start
      = Some (Inl (RolledBack m), j')
    \<and> entry_bytes (dk_overlay (jdisk j') demo_path) = entry_bytes (dk_overlay (jdisk demo_start) demo_path)"
proof -
  obtain m j' where run: "overlay_callback (demo_config ''litellm'' 1) ''litellm'' (Some ''new'') ''#old'' ''apply'' ''u'' None demo_start
      = Some (Inl (RolledBack m), j')"
    by (rule demo_apply [OF demo_active(1), of 1]) (metis demo_rolls_back singletonI)
  have "entry_bytes (dk_overlay (jdisk j') demo_path) = entry_bytes (dk_overlay (jdisk demo_start) demo_path)"
    by (rule failed_start_restores [OF run demo_config_quiet(1)]) (simp_all add: demo_overlay_path demo_faults_def)
  then show ?thesis using run by blast
qed

lemma replaced_overlay_recoverable_witness:
  "\<exists>r j' vid. overlay_callback (demo_config ''rag'' 0) ''litellm'' (Some ''new'') ''#old'' ''apply'' ''u'' None demo_start = Some (r, j')
    \<and> entry_bytes (dk_overlay (jdisk j') demo_path) = Some ''new''
    \<and> history_read demo_overlay_lib ''/c'' ''litellm'' vid (jdisk j') = Inr ''old''"
proof -
  obtain j' where run: "overlay_callback (demo_config ''rag'' 0) ''litellm'' (Some ''new'') ''#old'' ''apply'' ''u'' None demo_start
      = Some (Inr (), j')" and new: "entry_bytes (dk_overlay (jdisk j') demo_path) = Some ''new''"
    by (rule demo_apply [OF demo_active(2), of 0]) auto
  have "\<exists>vid. history_read demo_overlay_lib ''/c'' ''litellm'' vid (jdisk j') = Inr ''old''"
    using replaced_overlay_recoverable [OF run demo_config_quiet(1), of demo_path "''old''" demo_history_dir]
      new demo_overlay_path demo_listing demo_stamps demo_strftime demo_history_dir_of
    by (simp add: demo_start_def entry_bytes_def history_at_def is_version_def KEEP_def dict_ok_def dict_get_def demo_config_def)
  then show ?thesis using run new by blast
qed

lemma stale_overlay_refused_witness:
  "\<exists>r j'. overlay_callback (demo_config ''litellm'' 0) ''litellm'' (Some ''new'') ''#other'' ''apply'' ''u'' None demo_start = Some (r, j')
    \<and> (\<exists>m. r = Inl (Conflict m)) \<and> jr_calls j' = [] \<and> jdisk j' = jdisk demo_start"
proof -
  let ?E = "demo_config ''litellm'' 0"
  obtain cur where cur: "overlay_read demo_overlay_lib ''/c'' ''litellm'' (jdisk demo_start) = Inr cur" "of_revision cur = ''#old''"
    using overlay_read_plain [OF demo_overlay_path, of "jdisk demo_start" "''old''" 0 384]
    by (auto simp: demo_start_def demo_overlay_lib_def)
  obtain r j' where run: "overlay_callback ?E ''litellm'' (Some ''new'') ''#other'' ''apply'' ''u'' None demo_start = Some (r, j')"
    using cur by (simp add: overlay_callback_def target_def TARGETS_def find_first_def EVENT_ACTION_def dict_get_def overlay_job_def jfail_def)
  have "(\<exists>m. r = Inl (Conflict m)) \<and> j' = demo_start"
    using stale_overlay_refused [OF run, of cur] cur by (simp add: HISTORY_EVENTS_def)
  then show ?thesis using run by (auto simp: demo_start_def)
qed

text \<open>A job without a wait always returns.\<close>

definition jtotal :: "('w, 'a) job \<Rightarrow> bool" where
  "jtotal m \<longleftrightarrow> (\<forall>j. m j \<noteq> None)"

lemma jtotal_pure [simp]: "jtotal (jret a)" "jtotal (jfail e)" "jtotal (jlift r)" "jtotal (jsite f)" "jtotal (jlog l)" "jtotal (jlogs ls)"
  "jtotal (jaudit E u act t p x)" "jtotal (jcall name call)" "jtotal (stream_verb E verb flags)"
  by (auto simp: jtotal_def jret_def jfail_def jlift_def jsite_def jlog_def jlogs_def jaudit_def jcall_def stream_verb_def Let_def
      split: sum.splits prod.splits)

lemma jtotal_bind: "jtotal m \<Longrightarrow> (\<And>a. jtotal (f a)) \<Longrightarrow> jtotal (jbind m f)"
  by (auto simp: jtotal_def jbind_def split: option.splits prod.splits sum.splits)

lemma jtotal_runs: "jtotal (verb_runs E verb collect index runs skipped)" "jtotal (mail_runs E verb runs found)"
proof (induction runs arbitrary: index skipped found)
  case (Cons run runs)
  case 1 show ?case using Cons by (auto intro!: jtotal_bind split: sum.splits simp: Let_def)
  case 2 show ?case using Cons by (auto intro!: jtotal_bind split: sum.splits)
qed simp_all

lemma jtotal_verb: "jtotal (verb_step E verb flags skipped)" "jtotal (mail_run_verb E verb flags)"
  unfolding verb_step_def mail_run_verb_def by (intro jtotal_bind jtotal_runs; simp)+

lemma jtotal_recreate: "jtotal (recreate E profiles skipped)"
  by (induction profiles arbitrary: skipped) (auto intro!: jtotal_bind jtotal_verb)

lemma keep_deletes_nothing_witness:
  "\<exists>r j'. disable_callback (demo_config ''localai'' 0) ''localai'' SCOPE_KEEP ''u'' demo_start = Some (r, j')
    \<and> list_all keeps_data (jr_calls j')"
proof -
  have "jtotal (disable_callback (demo_config ''localai'' 0) ''localai'' SCOPE_KEEP ''u'')"
    unfolding disable_callback_def config_setup_def setup_step_def purge_step_def Let_def
    by (auto split: option.split intro!: jtotal_bind jtotal_verb jtotal_recreate)
  then obtain r j' where run: "disable_callback (demo_config ''localai'' 0) ''localai'' SCOPE_KEEP ''u'' demo_start = Some (r, j')"
    unfolding jtotal_def by fastforce
  from keep_deletes_nothing [OF run] show ?thesis using run by (auto simp: demo_start_def list_all_iff keeps_data_def)
qed

lemma cut_password_is_shown_witness:
  "scrub (refusal 5 1 [] ''ERROR: pw=sec'') (Some ''sec'') = ''pw='' @ ''se''"
  by (rule cut_password_is_shown [where rest = "''c''"], code_simp, simp_all)

end
