(* ===== verification/Sign_In.thy ===== *)
theory Sign_In
  imports Backups
begin

text \<open>
  The OpenID Connect client (\<open>src/src/app/auth/oidc.py\<close>): the claims of a session, the validation of an ID token against
  the provider's signing keys, and the exchanges with the token and logout endpoints.

  The provider is a record of functions, what each endpoint answers; so is the JWT library. Their answers are untrusted
  decoded documents. The signing keys are cached in the client's state. An exception that is not an \<open>OIDCError\<close> is told
  apart from one, because the callers catch only the latter.
\<close>

section \<open>Claims\<close>

record claims =
  cm_sub :: string
  cm_username :: string
  cm_roles :: "string list"
  cm_exp :: int
  cm_auth_time :: int

definition is_expired :: "instant \<Rightarrow> claims \<Rightarrow> bool" where
  "is_expired now c \<longleftrightarrow> now > cm_exp c * us_second"

definition claims_to_dict :: "claims \<Rightarrow> (string, pyval) dict" where
  "claims_to_dict c =
     [(''sub'', PStr (cm_sub c)), (''preferred_username'', PStr (cm_username c)),
      (''roles'', PList (map PStr (cm_roles c))), (''exp'', PInt (cm_exp c))]
     @ (if cm_auth_time c \<noteq> 0 then [(''auth_time'', PInt (cm_auth_time c))] else [])"

definition item_of :: "(string, pyval) dict \<Rightarrow> string \<Rightarrow> py_exn + pyval" where
  "item_of d k = (case dict_get d k of None \<Rightarrow> Inl KeyError | Some v \<Rightarrow> Inr v)"

definition claims_from_dict :: "(string \<Rightarrow> py_exn + int) \<Rightarrow> pyval \<Rightarrow> py_exn + claims" where
  "claims_from_dict trunc raw =
     (case raw of
        PDict d \<Rightarrow>
          rbind (item_of d ''sub'') (\<lambda>sub.
          rbind (py_iter (get_or d ''roles'' (PList []))) (\<lambda>roles.
          rbind (rbind (item_of d ''exp'') (py_int trunc)) (\<lambda>expiry.
          rbind (py_int trunc (py_or (get_none d ''auth_time'') (PInt 0))) (\<lambda>at.
            Inr \<lparr>cm_sub = py_str_of sub, cm_username = py_str_of (get_or d ''preferred_username'' sub),
                 cm_roles = map py_str_of roles, cm_exp = expiry, cm_auth_time = at\<rparr>))))
      | _ \<Rightarrow> Inl TypeError)"

record token_set =
  tk_claims :: claims
  tk_refresh :: "string option"
  tk_access :: "pyval option"
  tk_access_expires_at :: instant

section \<open>The provider and the JWT library\<close>

datatype oidc_fault = OIDCError string | Unreachable | Other py_exn

datatype decoded = Payload "(string, pyval) dict" | SignatureExpired | JwtFailed

datatype reply = NoAnswer string | Answer int "pyval option"

record jwt_lib =
  jl_header :: "string \<Rightarrow> (string, pyval) dict option"
  jl_decode :: "string \<Rightarrow> (string, pyval) dict \<Rightarrow> string \<Rightarrow> string \<Rightarrow> pyval option \<Rightarrow> decoded"
  jl_unverified :: "pyval \<Rightarrow> (string, pyval) dict option"
  jl_trunc :: "string \<Rightarrow> py_exn + int"
  jl_seconds :: "string \<Rightarrow> timedelta"

record provider =
  pv_token :: "(string \<times> string) list \<Rightarrow> reply"
  pv_jwks :: "instant \<Rightarrow> oidc_fault + (string, pyval) dict"
  pv_logout :: "string \<Rightarrow> reply"

record oidc_client =
  oi_auth_endpoint :: string
  oi_has_logout :: bool
  oi_client_id :: string
  oi_client_secret :: string
  oi_redirect_uri :: string
  oi_role_claim :: string
  oi_cache_ttl :: timedelta
  oi_jwt :: jwt_lib
  oi_provider :: provider

record jwks_cache =
  jw_keys :: "(string, pyval) dict option"
  jw_fetched_at :: instant

section \<open>Requests to the authorization endpoint\<close>

text \<open>\<open>urllib.parse.urlencode\<close> on text: letters, digits and four marks stand for themselves, a blank is a plus sign.\<close>

definition is_unreserved :: "char \<Rightarrow> bool" where
  "is_unreserved c \<longleftrightarrow> is_upper c \<or> is_lower c \<or> is_digit c \<or> c \<in> set ''_.-~''"

definition upper_hex :: "nat \<Rightarrow> char" where
  "upper_hex n = (if n < 10 then char_of (48 + n) else char_of (55 + n))"

definition quote_plus_char :: "char \<Rightarrow> string" where
  "quote_plus_char c =
     (if is_unreserved c then [c] else if c = CHR '' '' then ''+''
      else [CHR 0x25, upper_hex (code_of c div 16), upper_hex (code_of c mod 16)])"

definition quote_plus :: "string \<Rightarrow> string" where
  "quote_plus s = concat (map quote_plus_char s)"

definition urlencode :: "(string \<times> string) list \<Rightarrow> string" where
  "urlencode ps = join ''&'' (map (\<lambda>(k, v). quote_plus k @ ''='' @ quote_plus v) ps)"

definition auth_params :: "oidc_client \<Rightarrow> string \<Rightarrow> string \<Rightarrow> bool \<Rightarrow> (string \<times> string) list" where
  "auth_params C state challenge step_up =
     [(''response_type'', ''code''), (''client_id'', oi_client_id C), (''redirect_uri'', oi_redirect_uri C),
      (''scope'', ''openid profile''), (''state'', state), (''code_challenge'', challenge), (''code_challenge_method'', ''S256'')]
     @ (if step_up then [(''prompt'', ''login''), (''max_age'', ''0'')] else [])"

definition build_auth_url :: "oidc_client \<Rightarrow> string \<Rightarrow> string \<Rightarrow> bool \<Rightarrow> string" where
  "build_auth_url C state challenge step_up =
     oi_auth_endpoint C @ ''?'' @ urlencode (auth_params C state challenge step_up)"

section \<open>Signing keys\<close>

definition ALLOWED_ALGS :: "string list" where
  "ALLOWED_ALGS = [''RS256'', ''RS384'', ''RS512'', ''ES256'', ''ES384'', ''ES512'']"

fun find_jwk_in :: "pyval list \<Rightarrow> string \<Rightarrow> py_exn + (string, pyval) dict option" where
  "find_jwk_in [] kid = Inr None"
| "find_jwk_in (v # vs) kid =
     (case v of
        PDict key \<Rightarrow>
          if get_none key ''kid'' \<noteq> PStr kid then find_jwk_in vs kid
          else if get_none key ''use'' \<notin> {PNone, PStr ''sig''} then find_jwk_in vs kid
          else Inr (Some key)
      | _ \<Rightarrow> Inl AttributeError)"

definition find_jwk :: "(string, pyval) dict \<Rightarrow> string \<Rightarrow> py_exn + (string, pyval) dict option" where
  "find_jwk jwks kid = rbind (py_iter (get_or jwks ''keys'' (PList []))) (\<lambda>ks. find_jwk_in ks kid)"

definition algorithm_for_key :: "(string, pyval) dict \<Rightarrow> oidc_fault + string" where
  "algorithm_for_key key =
     (case get_none key ''alg'' of
        PNone \<Rightarrow>
          if get_none key ''kty'' = PStr ''RSA'' then Inr ''RS256''
          else if get_none key ''kty'' = PStr ''EC'' then Inr ''ES256''
          else Inl (OIDCError ''unsupported JWK key type'')
      | PStr alg \<Rightarrow> if alg \<in> set ALLOWED_ALGS then Inr alg else Inl (OIDCError ''JWK algorithm not permitted'')
      | PList _ \<Rightarrow> Inl (Other TypeError)
      | PDict _ \<Rightarrow> Inl (Other TypeError)
      | _ \<Rightarrow> Inl (OIDCError ''JWK algorithm not permitted''))"

definition get_jwks ::
  "oidc_client \<Rightarrow> bool \<Rightarrow> instant \<Rightarrow> jwks_cache \<Rightarrow> (oidc_fault + (string, pyval) dict) \<times> jwks_cache" where
  "get_jwks C force now st =
     (case jw_keys st of
        Some ks \<Rightarrow>
          if \<not> force \<and> now - jw_fetched_at st < oi_cache_ttl C then (Inr ks, st)
          else (case pv_jwks (oi_provider C) now of
                  Inl e \<Rightarrow> (Inl e, st) | Inr new \<Rightarrow> (Inr new, \<lparr>jw_keys = Some new, jw_fetched_at = now\<rparr>))
      | None \<Rightarrow>
          (case pv_jwks (oi_provider C) now of
             Inl e \<Rightarrow> (Inl e, st) | Inr new \<Rightarrow> (Inr new, \<lparr>jw_keys = Some new, jw_fetched_at = now\<rparr>)))"

definition found_jwk :: "(string, pyval) dict \<Rightarrow> string \<Rightarrow> oidc_fault + (string, pyval) dict option" where
  "found_jwk jwks kid = (case find_jwk jwks kid of Inl e \<Rightarrow> Inl (Other e) | Inr k \<Rightarrow> Inr k)"

text \<open>An unknown key is looked for once more in keys fetched anew.\<close>

definition resolve_key ::
  "oidc_client \<Rightarrow> instant \<Rightarrow> instant \<Rightarrow> string \<Rightarrow> jwks_cache \<Rightarrow> (oidc_fault + (string, pyval) dict) \<times> jwks_cache" where
  "resolve_key C now later kid st =
     (case get_jwks C False now st of
        (Inl e, st1) \<Rightarrow> (Inl e, st1)
      | (Inr jwks, st1) \<Rightarrow>
         (case found_jwk jwks kid of
            Inl e \<Rightarrow> (Inl e, st1)
          | Inr (Some key) \<Rightarrow> (Inr key, st1)
          | Inr None \<Rightarrow>
             (case get_jwks C True later st1 of
                (Inl e, st2) \<Rightarrow> (Inl e, st2)
              | (Inr jwks2, st2) \<Rightarrow>
                 (case found_jwk jwks2 kid of
                    Inl e \<Rightarrow> (Inl e, st2)
                  | Inr (Some key) \<Rightarrow> (Inr key, st2)
                  | Inr None \<Rightarrow> (Inl (OIDCError ''signing key not found in JWKS''), st2)))))"

section \<open>Token validation\<close>

definition is_number :: "pyval \<Rightarrow> bool" where
  "is_number v = (case v of PInt _ \<Rightarrow> True | PBool _ \<Rightarrow> True | PFloat _ \<Rightarrow> True | _ \<Rightarrow> False)"

fun walk :: "pyval \<Rightarrow> pyval \<Rightarrow> string list \<Rightarrow> pyval" where
  "walk missing node [] = node"
| "walk missing node (part # parts) =
     (case node of PDict d \<Rightarrow> walk missing (get_or d part missing) parts | _ \<Rightarrow> missing)"

definition extract_claims :: "jwt_lib \<Rightarrow> (string, pyval) dict \<Rightarrow> string \<Rightarrow> oidc_fault + claims" where
  "extract_claims J payload role_claim =
     (case get_none payload ''sub'' of
        PStr sub \<Rightarrow>
          if sub = [] then Inl (OIDCError ''id_token missing required sub claim'')
          else
            let roles = (case walk (PList []) (PDict payload) (split_char (CHR ''.'') role_claim) of
                  PList xs \<Rightarrow> map py_str_of xs | _ \<Rightarrow> [])
            in if \<not> is_number (get_none payload ''exp'') then Inl (OIDCError ''id_token missing exp claim'')
               else case py_int (jl_trunc J) (get_none payload ''exp'') of
                   Inl e \<Rightarrow> Inl (Other e)
                 | Inr expiry \<Rightarrow>
                    (case (if is_number (get_none payload ''auth_time'')
                           then py_int (jl_trunc J) (get_none payload ''auth_time'') else Inr 0) of
                       Inl e \<Rightarrow> Inl (Other e)
                     | Inr at \<Rightarrow>
                         Inr \<lparr>cm_sub = sub, cm_username = py_str_of (get_or payload ''preferred_username'' (PStr sub)),
                              cm_roles = roles, cm_exp = expiry, cm_auth_time = at\<rparr>)
      | _ \<Rightarrow> Inl (OIDCError ''id_token missing required sub claim''))"

definition validate_id_token ::
  "oidc_client \<Rightarrow> instant \<Rightarrow> instant \<Rightarrow> string \<Rightarrow> pyval option \<Rightarrow> jwks_cache \<Rightarrow> (oidc_fault + claims) \<times> jwks_cache" where
  "validate_id_token C now later id_token access st =
     (case jl_header (oi_jwt C) id_token of
        None \<Rightarrow> (Inl (OIDCError ''malformed id_token header''), st)
      | Some header \<Rightarrow>
         (case get_none header ''kid'' of
            PStr kid \<Rightarrow>
              if kid = [] then (Inl (OIDCError ''id_token header missing kid''), st)
              else (case resolve_key C now later kid st of
                 (Inl e, st') \<Rightarrow> (Inl e, st')
               | (Inr key, st') \<Rightarrow>
                  (rbind (algorithm_for_key key) (\<lambda>alg.
                     case jl_decode (oi_jwt C) id_token key alg (oi_client_id C) access of
                       SignatureExpired \<Rightarrow> Inl (OIDCError ''id_token expired'')
                     | JwtFailed \<Rightarrow> Inl (OIDCError ''id_token validation failed'')
                     | Payload p \<Rightarrow> extract_claims (oi_jwt C) p (oi_role_claim C)), st'))
          | _ \<Rightarrow> (Inl (OIDCError ''id_token header missing kid''), st)))"

text \<open>The first non-empty list at one of the dotted paths of the access token, which is read without verification.\<close>

fun roles_at :: "(string, pyval) dict \<Rightarrow> string list \<Rightarrow> string list" where
  "roles_at payload [] = []"
| "roles_at payload (path # paths) =
     (case walk PNone (PDict payload) (split_char (CHR ''.'') path) of
        PList xs \<Rightarrow> if xs \<noteq> [] then map py_str_of (filter truthy xs) else roles_at payload paths
      | _ \<Rightarrow> roles_at payload paths)"

definition roles_from_unverified_jwt :: "jwt_lib \<Rightarrow> pyval \<Rightarrow> string list \<Rightarrow> string list" where
  "roles_from_unverified_jwt J token paths =
     (case jl_unverified J token of None \<Rightarrow> [] | Some payload \<Rightarrow> roles_at payload paths)"

definition apply_role_fallback :: "oidc_client \<Rightarrow> claims \<Rightarrow> pyval option \<Rightarrow> claims" where
  "apply_role_fallback C c access =
     (case access of
        None \<Rightarrow> c
      | Some token \<Rightarrow>
          if cm_roles c \<noteq> [] then c
          else let roles = roles_from_unverified_jwt (oi_jwt C) token [oi_role_claim C, ''realm_access.roles'']
               in if roles = [] then c else c\<lparr>cm_roles := roles\<rparr>)"

definition non_empty_text :: "pyval \<Rightarrow> string option" where
  "non_empty_text v = (case v of PStr s \<Rightarrow> if s = [] then None else Some s | _ \<Rightarrow> None)"

definition expires_at :: "jwt_lib \<Rightarrow> instant \<Rightarrow> pyval \<Rightarrow> instant" where
  "expires_at J now v =
     (case v of PInt i \<Rightarrow> now + i * us_second | PFloat r \<Rightarrow> now + jl_seconds J r | _ \<Rightarrow> 0)"

definition token_set_from_response ::
  "oidc_client \<Rightarrow> instant \<Rightarrow> instant \<Rightarrow> (string, pyval) dict \<Rightarrow> jwks_cache \<Rightarrow> (oidc_fault + token_set) \<times> jwks_cache" where
  "token_set_from_response C now later response st =
     (case non_empty_text (get_none response ''id_token'') of
        None \<Rightarrow> (Inl (OIDCError ''Token response missing id_token''), st)
      | Some id_token \<Rightarrow>
          let v = get_none response ''access_token''; access = (if truthy v then Some v else None)
          in (case validate_id_token C now later id_token access st of
                (Inl e, st') \<Rightarrow> (Inl e, st')
              | (Inr c, st') \<Rightarrow>
                  (Inr \<lparr>tk_claims = apply_role_fallback C c access,
                        tk_refresh = non_empty_text (get_none response ''refresh_token''),
                        tk_access = access,
                        tk_access_expires_at = expires_at (oi_jwt C) later (get_none response ''expires_in'')\<rparr>, st')))"

section \<open>Exchanges\<close>

definition token_request :: "oidc_client \<Rightarrow> (string \<times> string) list \<Rightarrow> oidc_fault + (string, pyval) dict" where
  "token_request C data =
     (case pv_token (oi_provider C) data of
        NoAnswer _ \<Rightarrow> Inl Unreachable
      | Answer code body \<Rightarrow>
          if code \<noteq> 200 then Inl (OIDCError (''token request failed with HTTP '' @ str_of_int code))
          else (case body of Some (PDict d) \<Rightarrow> Inr d | Some _ \<Rightarrow> Inl (Other AttributeError) | None \<Rightarrow> Inl (Other ValueError)))"

definition exchange_code ::
  "oidc_client \<Rightarrow> instant \<Rightarrow> instant \<Rightarrow> string \<Rightarrow> string \<Rightarrow> jwks_cache \<Rightarrow> (oidc_fault + token_set) \<times> jwks_cache" where
  "exchange_code C now later code verifier st =
     (case token_request C
         [(''grant_type'', ''authorization_code''), (''client_id'', oi_client_id C), (''client_secret'', oi_client_secret C),
          (''redirect_uri'', oi_redirect_uri C), (''code'', code), (''code_verifier'', verifier)] of
        Inl e \<Rightarrow> (Inl e, st)
      | Inr response \<Rightarrow> token_set_from_response C now later response st)"

definition refresh_tokens ::
  "oidc_client \<Rightarrow> instant \<Rightarrow> instant \<Rightarrow> string \<Rightarrow> jwks_cache \<Rightarrow> (oidc_fault + token_set) \<times> jwks_cache" where
  "refresh_tokens C now later token st =
     (case token_request C
         [(''grant_type'', ''refresh_token''), (''client_id'', oi_client_id C), (''client_secret'', oi_client_secret C),
          (''refresh_token'', token)] of
        Inl e \<Rightarrow> (Inl e, st)
      | Inr response \<Rightarrow>
         (case token_set_from_response C now later response st of
            (Inl e, st') \<Rightarrow> (Inl e, st')
          | (Inr ts, st') \<Rightarrow> (Inr (if tk_refresh ts = None then ts\<lparr>tk_refresh := Some token\<rparr> else ts), st')))"

definition error_code :: "pyval option \<Rightarrow> string option" where
  "error_code body =
     (case body of
        Some (PDict d) \<Rightarrow> (case get_none d ''error'' of PStr e \<Rightarrow> Some e | _ \<Rightarrow> None)
      | _ \<Rightarrow> None)"

definition end_session :: "oidc_client \<Rightarrow> string \<Rightarrow> oidc_fault + bool" where
  "end_session C token =
     (if \<not> oi_has_logout C then Inr False
      else case pv_logout (oi_provider C) token of
          NoAnswer name \<Rightarrow> Inl (OIDCError (''logout request failed: '' @ name))
        | Answer code body \<Rightarrow>
            if code \<in> {200, 204} then Inr True
            else if code = 400 \<and> error_code body = Some ''invalid_grant'' then Inr True
            else Inl (OIDCError (''logout request failed with HTTP '' @ str_of_int code)))"

section \<open>Properties\<close>

text \<open>A session keeps the claims it was given: what is written into the cookie is read back unchanged.\<close>

theorem claims_roundtrip: "claims_from_dict trunc (PDict (claims_to_dict c)) = Inr c"
  by (cases c) (simp add: claims_from_dict_def claims_to_dict_def item_of_def dict_get_def py_iter_def py_int_def get_or_def
      py_or_def py_str_of_def comp_def)

lemma algorithm_allowed: "algorithm_for_key key = Inr alg \<Longrightarrow> alg \<in> set ALLOWED_ALGS"
  by (auto simp: algorithm_for_key_def ALLOWED_ALGS_def split: pyval.splits if_splits)

lemma find_jwk_in_mem:
  "find_jwk_in vs kid = Inr (Some key) \<Longrightarrow>
     PDict key \<in> set vs \<and> get_none key ''kid'' = PStr kid \<and> get_none key ''use'' \<in> {PNone, PStr ''sig''}"
  by (induction vs kid rule: find_jwk_in.induct) (auto split: pyval.splits if_splits)

definition published :: "oidc_client \<Rightarrow> (string, pyval) dict \<Rightarrow> bool" where
  "published C jwks \<longleftrightarrow> (\<exists>t. pv_jwks (oi_provider C) t = Inr jwks)"

definition cache_genuine :: "oidc_client \<Rightarrow> jwks_cache \<Rightarrow> bool" where
  "cache_genuine C st \<longleftrightarrow> (\<forall>jwks. jw_keys st = Some jwks \<longrightarrow> published C jwks)"

lemma get_jwks_published:
  assumes "get_jwks C force now st = (Inr jwks, st')" "cache_genuine C st"
  shows "published C jwks \<and> cache_genuine C st'"
  using assms by (auto simp: get_jwks_def cache_genuine_def published_def split: option.splits if_splits sum.splits)

text \<open>A signing key of the provider: one it publishes, under that id and not reserved for encryption.\<close>

definition signing_key :: "oidc_client \<Rightarrow> string \<Rightarrow> (string, pyval) dict \<Rightarrow> bool" where
  "signing_key C kid key \<longleftrightarrow> get_none key ''kid'' = PStr kid \<and> get_none key ''use'' \<in> {PNone, PStr ''sig''}
     \<and> (\<exists>jwks ks. published C jwks \<and> py_iter (get_or jwks ''keys'' (PList [])) = Inr ks \<and> PDict key \<in> set ks)"

lemma found_jwk_signing:
  assumes "found_jwk jwks kid = Inr (Some key)" "published C jwks"
  shows "signing_key C kid key"
  using assms find_jwk_in_mem [of _ kid key]
  by (auto simp: found_jwk_def find_jwk_def signing_key_def rbind_def split: sum.splits)

lemma resolve_key_signing:
  assumes "resolve_key C now later kid st = (Inr key, st')" "cache_genuine C st"
  shows "signing_key C kid key"
proof -
  obtain r1 st1 where g1: "get_jwks C False now st = (r1, st1)" by fastforce
  with assms(1) obtain jwks where r1: "r1 = Inr jwks" by (cases r1) (auto simp: resolve_key_def)
  from get_jwks_published [OF g1 [unfolded r1] assms(2)] have p1: "published C jwks" "cache_genuine C st1" by auto
  obtain r2 st2 where g2: "get_jwks C True later st1 = (r2, st2)" by fastforce
  show ?thesis
  proof (cases "found_jwk jwks kid")
    case (Inr k)
    show ?thesis
    proof (cases k)
      case None
      with assms(1) g1 r1 g2 Inr obtain jwks2 where r2: "r2 = Inr jwks2" by (cases r2) (auto simp: resolve_key_def)
      have "found_jwk jwks2 kid = Inr (Some key)"
        using assms(1) g1 r1 g2 r2 Inr None by (auto simp: resolve_key_def split: sum.splits option.splits)
      with get_jwks_published [OF g2 [unfolded r2] p1(2)] show ?thesis by (blast intro: found_jwk_signing)
    next
      case (Some key')
      then show ?thesis using assms(1) g1 r1 Inr p1(1) by (auto simp: resolve_key_def intro: found_jwk_signing)
    qed
  qed (use assms(1) g1 r1 in \<open>auto simp: resolve_key_def\<close>)
qed

text \<open>A token that was decoded with a signing key of the provider, by an asymmetric algorithm and for this client.\<close>

definition verified :: "oidc_client \<Rightarrow> string \<Rightarrow> pyval option \<Rightarrow> (string, pyval) dict \<Rightarrow> bool" where
  "verified C id_token access payload \<longleftrightarrow>
     (\<exists>kid key alg. signing_key C kid key \<and> alg \<in> set ALLOWED_ALGS
        \<and> jl_decode (oi_jwt C) id_token key alg (oi_client_id C) access = Payload payload)"

text \<open>Where each claim comes from: the account, its name, the expiry and the time of the sign-in from the verified payload;
  the roles from there too, unless it has none. Then they may be those of the access token, which nobody verified.\<close>

definition payload_roles :: "oidc_client \<Rightarrow> (string, pyval) dict \<Rightarrow> string list" where
  "payload_roles C payload =
     (case walk (PList []) (PDict payload) (split_char (CHR ''.'') (oi_role_claim C)) of PList xs \<Rightarrow> map py_str_of xs | _ \<Rightarrow> [])"

definition vouched :: "oidc_client \<Rightarrow> (string, pyval) dict \<Rightarrow> pyval option \<Rightarrow> claims \<Rightarrow> bool" where
  "vouched C payload access c \<longleftrightarrow>
     get_none payload ''sub'' = PStr (cm_sub c) \<and> cm_sub c \<noteq> []
     \<and> cm_username c = py_str_of (get_or payload ''preferred_username'' (PStr (cm_sub c)))
     \<and> py_int (jl_trunc (oi_jwt C)) (get_none payload ''exp'') = Inr (cm_exp c)
     \<and> (if is_number (get_none payload ''auth_time'')
        then py_int (jl_trunc (oi_jwt C)) (get_none payload ''auth_time'') = Inr (cm_auth_time c) else cm_auth_time c = 0)
     \<and> (cm_roles c = payload_roles C payload
        \<or> payload_roles C payload = [] \<and> (\<exists>token. access = Some token
            \<and> cm_roles c = roles_from_unverified_jwt (oi_jwt C) token [oi_role_claim C, ''realm_access.roles'']))"

lemma extract_vouched:
  assumes "extract_claims (oi_jwt C) payload (oi_role_claim C) = Inr c"
  shows "vouched C payload access c" "cm_roles c = payload_roles C payload"
  using assms
  by (auto simp: extract_claims_def vouched_def payload_roles_def Let_def split: pyval.splits if_splits sum.splits)

lemma fallback_vouched:
  assumes "extract_claims (oi_jwt C) payload (oi_role_claim C) = Inr c"
  shows "vouched C payload access (apply_role_fallback C c access)"
  using extract_vouched(1) [OF assms, of access] extract_vouched(2) [OF assms]
  by (auto simp: apply_role_fallback_def vouched_def Let_def split: option.splits)

lemma validate_vouched:
  assumes "validate_id_token C now later id_token access st = (Inr c, st')" "cache_genuine C st"
  shows "\<exists>payload. verified C id_token access payload \<and> vouched C payload access (apply_role_fallback C c access)"
proof -
  from assms(1) obtain header kid where h: "jl_header (oi_jwt C) id_token = Some header" "get_none header ''kid'' = PStr kid"
      "kid \<noteq> []"
    by (auto simp: validate_id_token_def split: option.splits pyval.splits if_splits)
  obtain r st1 where k: "resolve_key C now later kid st = (r, st1)" by fastforce
  with assms(1) h obtain key where r: "r = Inr key" by (cases r) (auto simp: validate_id_token_def)
  with assms(1) h k obtain alg where alg: "algorithm_for_key key = Inr alg"
      "(case jl_decode (oi_jwt C) id_token key alg (oi_client_id C) access of
          SignatureExpired \<Rightarrow> Inl (OIDCError ''id_token expired'')
        | JwtFailed \<Rightarrow> Inl (OIDCError ''id_token validation failed'')
        | Payload p \<Rightarrow> extract_claims (oi_jwt C) p (oi_role_claim C)) = Inr c"
    by (auto simp: validate_id_token_def rbind_eq_Inr)
  then obtain payload where a: "algorithm_for_key key = Inr alg"
      "jl_decode (oi_jwt C) id_token key alg (oi_client_id C) access = Payload payload"
      "extract_claims (oi_jwt C) payload (oi_role_claim C) = Inr c"
    by (cases "jl_decode (oi_jwt C) id_token key alg (oi_client_id C) access") auto
  from resolve_key_signing [OF k [unfolded r] assms(2)] algorithm_allowed [OF a(1)] a(2) have "verified C id_token access payload"
    unfolding verified_def by blast
  with fallback_vouched [OF a(3)] show ?thesis by blast
qed

lemma token_set_vouched:
  assumes "token_set_from_response C now later response st = (Inr ts, st')" "cache_genuine C st"
  shows "\<exists>id_token. non_empty_text (get_none response ''id_token'') = Some id_token
    \<and> (\<exists>payload. verified C id_token (tk_access ts) payload \<and> vouched C payload (tk_access ts) (tk_claims ts))
    \<and> tk_access ts = (let v = get_none response ''access_token'' in if truthy v then Some v else None)"
proof -
  let ?v = "get_none response ''access_token''"
  let ?access = "if truthy ?v then Some ?v else None"
  from assms(1) obtain id_token where i: "non_empty_text (get_none response ''id_token'') = Some id_token"
    by (auto simp: token_set_from_response_def split: option.splits)
  obtain r st1 where v: "validate_id_token C now later id_token ?access st = (r, st1)" by fastforce
  with assms(1) i obtain c where c: "r = Inr c" by (cases r) (auto simp: token_set_from_response_def Let_def)
  with assms(1) i v have "tk_claims ts = apply_role_fallback C c ?access" "tk_access ts = ?access"
    by (auto simp: token_set_from_response_def Let_def)
  with validate_vouched [OF v [unfolded c] assms(2)] i show ?thesis by (simp add: Let_def)
qed

text \<open>C7: Nobody is signed in on an unverified ID token: after a successful exchange the provider answered with an ID token
  that was decoded with a key the provider publishes for signing, by an asymmetric algorithm taken from that key and never
  from the token, for this client as its audience; the account, the name, the expiry and the time of the sign-in are those
  of its payload. So are the roles when the payload has any; when it has none they may be those of the access token in the
  same answer, which is read without verification. The keys already cached are ones the provider published.\<close>

theorem only_verified_tokens:
  assumes "exchange_code C now later code verifier st = (Inr ts, st')" "cache_genuine C st"
  shows "\<exists>data response id_token payload. pv_token (oi_provider C) data = Answer 200 (Some (PDict response))
    \<and> (''code'', code) \<in> set data \<and> (''code_verifier'', verifier) \<in> set data
    \<and> get_none response ''id_token'' = PStr id_token
    \<and> tk_access ts = (let v = get_none response ''access_token'' in if truthy v then Some v else None)
    \<and> verified C id_token (tk_access ts) payload \<and> vouched C payload (tk_access ts) (tk_claims ts)"
proof -
  let ?data = "[(''grant_type'', ''authorization_code''), (''client_id'', oi_client_id C), (''client_secret'', oi_client_secret C),
          (''redirect_uri'', oi_redirect_uri C), (''code'', code), (''code_verifier'', verifier)]"
  from assms(1) obtain response where resp: "token_request C ?data = Inr response"
      "token_set_from_response C now later response st = (Inr ts, st')"
    by (auto simp: exchange_code_def split: sum.splits)
  from resp(1) have "pv_token (oi_provider C) ?data = Answer 200 (Some (PDict response))"
    by (auto simp: token_request_def split: reply.splits option.splits pyval.splits if_splits)
  moreover from token_set_vouched [OF resp(2) assms(2)] obtain id_token payload where
    "get_none response ''id_token'' = PStr id_token" "verified C id_token (tk_access ts) payload"
    "vouched C payload (tk_access ts) (tk_claims ts)"
    "tk_access ts = (let v = get_none response ''access_token'' in if truthy v then Some v else None)"
    by (auto simp: non_empty_text_def split: pyval.splits if_splits)
  moreover have "(''code'', code) \<in> set ?data" "(''code_verifier'', verifier) \<in> set ?data" by simp_all
  ultimately show ?thesis by blast
qed

definition demo_key :: "(string, pyval) dict" where
  "demo_key = [(''kid'', PStr ''k1''), (''kty'', PStr ''RSA'')]"

definition demo_payload :: "(string, pyval) dict" where
  "demo_payload = [(''sub'', PStr ''u1''), (''exp'', PInt 900), (''auth_time'', PInt 100), (''preferred_username'', PStr ''ada''),
     (''roles'', PList [PStr ''manager-admin''])]"

definition demo_client :: oidc_client where
  "demo_client = \<lparr>oi_auth_endpoint = ''https://kc/auth'', oi_has_logout = True, oi_client_id = ''papaia-manager'',
     oi_client_secret = ''s'', oi_redirect_uri = ''https://m/auth/callback'', oi_role_claim = ''roles'',
     oi_cache_ttl = 300 * us_second,
     oi_jwt = \<lparr>jl_header = (\<lambda>_. Some [(''kid'', PStr ''k1'')]),
       jl_decode = (\<lambda>_ key alg _ _. if key = demo_key \<and> alg = ''RS256'' then Payload demo_payload else JwtFailed),
       jl_unverified = (\<lambda>_. None), jl_trunc = (\<lambda>_. Inl ValueError), jl_seconds = (\<lambda>_. 0)\<rparr>,
     oi_provider = \<lparr>pv_token = (\<lambda>_. Answer 200 (Some (PDict [(''id_token'', PStr ''t''), (''refresh_token'', PStr ''r'')]))),
       pv_jwks = (\<lambda>_. Inr [(''keys'', PList [PDict demo_key])]), pv_logout = (\<lambda>_. Answer 204 None)\<rparr>\<rparr>"

definition demo_tokens :: token_set where
  "demo_tokens = \<lparr>tk_claims = \<lparr>cm_sub = ''u1'', cm_username = ''ada'', cm_roles = [''manager-admin''], cm_exp = 900,
     cm_auth_time = 100\<rparr>, tk_refresh = Some ''r'', tk_access = None, tk_access_expires_at = 0\<rparr>"

lemma demo_exchange:
  "fst (exchange_code demo_client 0 0 ''code'' ''v'' \<lparr>jw_keys = None, jw_fetched_at = 0\<rparr>) = Inr demo_tokens"
  by code_simp

theorem only_verified_tokens_witness:
  "\<exists>id_token payload. verified demo_client id_token None payload \<and> vouched demo_client payload None (tk_claims demo_tokens)"
proof -
  obtain st' where e: "exchange_code demo_client 0 0 ''code'' ''v'' \<lparr>jw_keys = None, jw_fetched_at = 0\<rparr> = (Inr demo_tokens, st')"
    using demo_exchange by (metis prod.collapse)
  have "cache_genuine demo_client \<lparr>jw_keys = None, jw_fetched_at = 0\<rparr>" by (simp add: cache_genuine_def)
  moreover have "tk_access demo_tokens = None" by (simp add: demo_tokens_def)
  ultimately show ?thesis using only_verified_tokens [OF e] by metis
qed

end
