(* ===== verification/Sessions.thy ===== *)
theory Sessions
  imports Sign_In Notify_Model Audit_Log Runner
begin

text \<open>
  Who may do what: the role policy (\<open>auth/roles.py\<close>), the CSRF token (\<open>auth/csrf.py\<close>), the session dependencies with
  renewal and step-up (\<open>auth/deps.py\<close>), the signed-in user's access token (\<open>auth/user_token.py\<close>), the login, step-up,
  callback and logout routes (\<open>routers/auth.py\<close>), and the guard of the configuration routes (\<open>routers/stack_guard.py\<close>).

  A session is the decoded content of a signed cookie, so an operation takes the session a browser presents and returns
  the one it is given; the two in-memory caches and the provider's state are the server's. The calls to the provider are
  functions that \<open>Sign_In\<close> implements. SHA-256, HMAC and the random verifiers are parameters. A lock serialises the
  renewals of one refresh token: what is modelled is the body it protects, as one step.
\<close>

section \<open>Roles\<close>

record access_settings =
  ac_admin_role :: string
  ac_user_role :: string
  ac_identity_role :: string
  ac_session_secret :: string

definition is_admin :: "access_settings \<Rightarrow> claims \<Rightarrow> bool" where
  "is_admin S c \<longleftrightarrow> ac_admin_role S \<in> set (cm_roles c)"

definition is_user :: "access_settings \<Rightarrow> claims \<Rightarrow> bool" where
  "is_user S c \<longleftrightarrow> ac_user_role S \<in> set (cm_roles c)"

definition is_identity_admin :: "access_settings \<Rightarrow> claims \<Rightarrow> bool" where
  "is_identity_admin S c \<longleftrightarrow> ac_identity_role S \<in> set (cm_roles c)"

definition has_manager_access :: "access_settings \<Rightarrow> claims \<Rightarrow> bool" where
  "has_manager_access S c \<longleftrightarrow> is_admin S c \<or> is_user S c"

section \<open>Sessions and what they share\<close>

type_synonym session = "(string, pyval) dict"

text \<open>A refusal with its status, a 503 because docker cannot be asked, or an exception that leaves the route as a server error.\<close>

datatype route_error = Refuse int string | Unavailable runner_fault | Crash oidc_fault

record refresh_cache =
  rf_results :: "(string, instant \<times> pyval \<times> pyval) dict"
  rf_locks :: "string list"

record token_cache =
  tc_entries :: "(string, instant \<times> pyval) dict"
  tc_locks :: "string list"

record 'w access_env =
  av_settings :: access_settings
  av_sha256 :: "string \<Rightarrow> string"
  av_hmac :: "string \<Rightarrow> string \<Rightarrow> string"
  av_challenge :: "string \<Rightarrow> string"
  av_trunc :: "string \<Rightarrow> py_exn + int"
  av_bracketed :: "string \<Rightarrow> bool"
  av_renew :: "instant \<Rightarrow> string \<Rightarrow> 'w \<Rightarrow> (oidc_fault + token_set) \<times> 'w"
  av_exchange :: "instant \<Rightarrow> string \<Rightarrow> string \<Rightarrow> 'w \<Rightarrow> (oidc_fault + token_set) \<times> 'w"
  av_end_session :: "string \<Rightarrow> oidc_fault + bool"
  av_auth_url :: "string \<Rightarrow> string \<Rightarrow> bool \<Rightarrow> string"

record 'w shared =
  sh_refresh :: refresh_cache
  sh_tokens :: token_cache
  sh_world :: 'w
  sh_audit :: "audit_entry list"
  sh_presented :: "string list" \<comment> \<open>the refresh tokens the renewal sent to the provider\<close>

text \<open>The environment that the OpenID Connect client gives.\<close>

definition client_env ::
  "access_settings \<Rightarrow> oidc_client \<Rightarrow> (string \<Rightarrow> string) \<Rightarrow> (string \<Rightarrow> string \<Rightarrow> string) \<Rightarrow> (string \<Rightarrow> string) \<Rightarrow> (string \<Rightarrow> bool)
    \<Rightarrow> jwks_cache access_env" where
  "client_env S C sha mac challenge bracketed =
     \<lparr>av_settings = S, av_sha256 = sha, av_hmac = mac, av_challenge = challenge, av_trunc = jl_trunc (oi_jwt C),
      av_bracketed = bracketed, av_renew = (\<lambda>now. refresh_tokens C now now), av_exchange = (\<lambda>now. exchange_code C now now),
      av_end_session = end_session C, av_auth_url = build_auth_url C\<rparr>"

section \<open>CSRF\<close>

definition CSRF_KEY :: string where "CSRF_KEY = ''_csrf_token''"

definition get_csrf_token :: "string \<Rightarrow> session \<Rightarrow> pyval \<times> session" where
  "get_csrf_token fresh s =
     (let token = get_none s CSRF_KEY
      in if truthy token then (token, s) else (PStr fresh, dict_set s CSRF_KEY (PStr fresh)))"

text \<open>What the header and the form field sent, without what is missing or empty.\<close>

definition submitted :: "string option \<Rightarrow> string option \<Rightarrow> string list" where
  "submitted header form = filter (\<lambda>t. t \<noteq> []) (map the (filter (\<lambda>x. x \<noteq> None) [header, form]))"

definition verify_csrf :: "session \<Rightarrow> string option \<Rightarrow> string option \<Rightarrow> route_error + unit" where
  "verify_csrf s header form =
     (let token = get_none s CSRF_KEY
      in if \<not> truthy token then Inl (Refuse 403 ''csrf token missing'')
         else case token of
             PStr t \<Rightarrow> if t \<in> set (submitted header form) then Inr () else Inl (Refuse 403 ''csrf token invalid'')
           | _ \<Rightarrow> if submitted header form \<noteq> [] then Inl (Crash (Other AttributeError))
                  else Inl (Refuse 403 ''csrf token invalid''))"

section \<open>Renewal\<close>

definition REFRESH_SKEW :: timedelta where "REFRESH_SKEW = 60 * us_second"
definition REFRESH_RESULT_TTL :: timedelta where "REFRESH_RESULT_TTL = 60 * us_second"

text \<open>The non-empty refresh token of a session, as the renewal, the access token and the logout read it.\<close>

definition refresh_token_of :: "session \<Rightarrow> string option" where
  "refresh_token_of s =
     (case get_none s ''oidc'' of PDict d \<Rightarrow> non_empty_text (get_none d ''refresh_token'') | _ \<Rightarrow> None)"

definition apply_session :: "pyval \<times> pyval \<Rightarrow> session \<Rightarrow> session" where
  "apply_session payload s = dict_set (dict_set s ''user'' (fst payload)) ''oidc'' (snd payload)"

definition setdefault_lock :: "string \<Rightarrow> string list \<Rightarrow> string list" where
  "setdefault_lock k locks = (if k \<in> set locks then locks else locks @ [k])"

definition prune_refresh_state :: "instant \<Rightarrow> refresh_cache \<Rightarrow> refresh_cache" where
  "prune_refresh_state now R =
     (let results = filter (\<lambda>(k, ts, _). \<not> now - ts > REFRESH_RESULT_TTL) (rf_results R)
      in \<lparr>rf_results = results,
          rf_locks = (if length (rf_locks R) > 512 then filter (\<lambda>k. k \<in> set (dict_keys results)) (rf_locks R) else rf_locks R)\<rparr>)"

definition session_payload :: "token_set \<Rightarrow> string \<Rightarrow> pyval \<times> pyval" where
  "session_payload ts token =
     (PDict (claims_to_dict (tk_claims ts)),
      PDict [(''refresh_token'', PStr (case tk_refresh ts of Some r \<Rightarrow> if r = [] then token else r | None \<Rightarrow> token))])"

definition refresh_session ::
  "'w access_env \<Rightarrow> instant \<Rightarrow> session \<Rightarrow> 'w shared \<Rightarrow> (route_error + claims option) \<times> session \<times> 'w shared" where
  "refresh_session E now s G =
     (case refresh_token_of s of
        None \<Rightarrow> (Inr None, s, G)
      | Some token \<Rightarrow>
          let key = av_sha256 E token;
              R = prune_refresh_state now
                ((sh_refresh G)\<lparr>rf_locks := setdefault_lock key (rf_locks (sh_refresh G))\<rparr>);
              G1 = G\<lparr>sh_refresh := R\<rparr>
          in (case dict_get (rf_results R) key of
                Some (_, payload) \<Rightarrow>
                  (case claims_from_dict (av_trunc E) (fst payload) of
                     Inl e \<Rightarrow> (Inl (Crash (Other e)), apply_session payload s, G1)
                   | Inr c \<Rightarrow> (Inr (Some c), apply_session payload s, G1))
              | None \<Rightarrow>
                  (case av_renew E now token (sh_world G) of
                     (Inl (OIDCError _), w) \<Rightarrow> (Inr None, s, G1\<lparr>sh_world := w, sh_presented := sh_presented G @ [token]\<rparr>)
                   | (Inl e, w) \<Rightarrow> (Inl (Crash e), s, G1\<lparr>sh_world := w, sh_presented := sh_presented G @ [token]\<rparr>)
                   | (Inr ts, w) \<Rightarrow>
                       let payload = session_payload ts token
                       in (Inr (Some (tk_claims ts)), apply_session payload s,
                           G1\<lparr>sh_refresh := R\<lparr>rf_results := dict_set (rf_results R) key (now, payload)\<rparr>,
                              sh_world := w, sh_presented := sh_presented G @ [token]\<rparr>))))"

text \<open>\<open>now\<close>, \<open>mid\<close> and \<open>late\<close> are the three readings of the clock, in this order.\<close>

definition get_current_user ::
  "'w access_env \<Rightarrow> instant \<Rightarrow> instant \<Rightarrow> instant \<Rightarrow> session \<Rightarrow> 'w shared \<Rightarrow> (route_error + claims) \<times> session \<times> 'w shared" where
  "get_current_user E now mid late s G =
     (case dict_get s ''user'' of
        None \<Rightarrow> (Inl (Refuse 401 ''not authenticated''), s, G)
      | Some PNone \<Rightarrow> (Inl (Refuse 401 ''not authenticated''), s, G)
      | Some raw \<Rightarrow>
         (case claims_from_dict (av_trunc E) raw of
            Inl e \<Rightarrow> if e \<in> {KeyError, ValueError, TypeError} then (Inl (Refuse 401 ''invalid session''), s, G)
                     else (Inl (Crash (Other e)), s, G)
          | Inr c \<Rightarrow>
              if cm_exp c * us_second - now \<ge> REFRESH_SKEW then (Inr c, s, G)
              else (case refresh_session E mid s G of
                 (Inl e, s1, G1) \<Rightarrow> (Inl e, s1, G1)
               | (Inr (Some c'), s1, G1) \<Rightarrow> (Inr c', s1, G1)
               | (Inr None, s1, G1) \<Rightarrow>
                   if is_expired late c then (Inl (Refuse 401 ''session expired''), [], G1) else (Inr c, s1, G1))))"

definition require :: "bool \<Rightarrow> string \<Rightarrow> route_error + unit" where
  "require ok detail = (if ok then Inr () else Inl (Refuse 403 detail))"

definition guarded ::
  "(claims \<Rightarrow> bool) \<Rightarrow> string \<Rightarrow> (route_error + claims) \<times> session \<times> 'w shared \<Rightarrow> (route_error + claims) \<times> session \<times> 'w shared" where
  "guarded allowed detail r =
     (case r of (res, s, G) \<Rightarrow> (rbind res (\<lambda>c. rbind (require (allowed c) detail) (\<lambda>_. Inr c)), s, G))"

definition require_admin where
  "require_admin E now mid late s G =
     guarded (is_admin (av_settings E)) ''admin role required'' (get_current_user E now mid late s G)"

definition require_identity_admin where
  "require_identity_admin E now mid late s G =
     guarded (is_identity_admin (av_settings E))
       (''the '' @ ac_identity_role (av_settings E) @ '' role is required to manage users and roles'')
       (get_current_user E now mid late s G)"

definition require_manager_access where
  "require_manager_access E now mid late s G =
     guarded (has_manager_access (av_settings E)) ''admin or user role required'' (get_current_user E now mid late s G)"

section \<open>Step-up\<close>

definition STEP_UP_AT :: string where "STEP_UP_AT = ''step_up_at''"
definition STEP_UP_PENDING :: string where "STEP_UP_PENDING = ''step_up_pending''"
definition STEP_UP_TIME :: timedelta where "STEP_UP_TIME = 300 * us_second"
definition STEP_UP_SKEW_SECONDS :: int where "STEP_UP_SKEW_SECONDS = 5"

definition stepped_up :: "instant \<Rightarrow> session \<Rightarrow> bool" where
  "stepped_up now s \<longleftrightarrow>
     (case (case get_none s STEP_UP_AT of PInt i \<Rightarrow> Some i | PBool b \<Rightarrow> Some (if b then 1 else 0) | _ \<Rightarrow> None) of
        None \<Rightarrow> False
      | Some at \<Rightarrow> 0 \<le> now - at * us_second \<and> now - at * us_second < STEP_UP_TIME)"

definition require_step_up ::
  "'w access_env \<Rightarrow> instant \<Rightarrow> instant \<Rightarrow> instant \<Rightarrow> string \<Rightarrow> string \<Rightarrow> session \<Rightarrow> 'w shared
    \<Rightarrow> (route_error + claims) \<times> session \<times> 'w shared" where
  "require_step_up E now mid late ts path s G =
     (case require_admin E now mid late s G of
        (Inl e, s1, G1) \<Rightarrow> (Inl e, s1, G1)
      | (Inr c, s1, G1) \<Rightarrow>
          if stepped_up late s1 then (Inr c, s1, G1)
          else (Inl (Refuse 403 ''Confirm your sign-in first; this action needs a fresh one.''), s1,
                G1\<lparr>sh_audit := sh_audit G1 @ [\<lparr>ae_ts = ts, ae_user = cm_username c, ae_action = ''step-up.refused'',
                   ae_target = path, ae_result = ''failed'', ae_params = None, ae_job_id = None\<rparr>]\<rparr>))"

section \<open>The user's access token\<close>

definition TOKEN_SKEW :: timedelta where "TOKEN_SKEW = 30 * us_second"

datatype token_error = UserTokenUnavailable string | TokenCrash oidc_fault

definition prune_tokens :: "instant \<Rightarrow> token_cache \<Rightarrow> token_cache" where
  "prune_tokens now T =
     (let entries = filter (\<lambda>(k, at, _). \<not> at \<le> now) (tc_entries T)
      in \<lparr>tc_entries = entries,
          tc_locks = (if length (tc_locks T) > 512 then filter (\<lambda>k. k \<in> set (dict_keys entries)) (tc_locks T) else tc_locks T)\<rparr>)"

definition forget :: "'w access_env \<Rightarrow> string \<Rightarrow> token_cache \<Rightarrow> token_cache" where
  "forget E token T =
     (let key = av_sha256 E token; entries = dict_del (tc_entries T) key
      in \<lparr>tc_entries = (case dict_get (tc_entries T) key of
             None \<Rightarrow> entries
           | Some (_, access) \<Rightarrow> filter (\<lambda>(k, _, a). a \<noteq> access) entries),
          tc_locks = filter (\<lambda>k. k \<noteq> key) (tc_locks T)\<rparr>)"

definition cached_token :: "instant \<Rightarrow> token_cache \<Rightarrow> string \<Rightarrow> pyval option" where
  "cached_token now T key =
     (case dict_get (tc_entries T) key of
        Some (at, access) \<Rightarrow> if at - now > TOKEN_SKEW then Some access else None
      | None \<Rightarrow> None)"

definition user_access_token ::
  "'w access_env \<Rightarrow> instant \<Rightarrow> instant \<Rightarrow> session \<Rightarrow> 'w shared \<Rightarrow> (token_error + pyval) \<times> session \<times> 'w shared" where
  "user_access_token E now mid s G =
     (case refresh_token_of s of
        None \<Rightarrow> (Inl (UserTokenUnavailable ''the session has no refresh token''), s, G)
      | Some token \<Rightarrow>
          let key = av_sha256 E token
          in case cached_token now (sh_tokens G) key of
               Some access \<Rightarrow> (Inr access, s, G)
             | None \<Rightarrow>
                 let T = prune_tokens mid ((sh_tokens G)\<lparr>tc_locks := setdefault_lock key (tc_locks (sh_tokens G))\<rparr>);
                     G1 = G\<lparr>sh_tokens := T\<rparr>
                 in (case cached_token mid T key of
                       Some access \<Rightarrow> (Inr access, s, G1)
                     | None \<Rightarrow>
                        (case av_renew E mid token (sh_world G) of
                           (Inl (OIDCError _), w) \<Rightarrow>
                             (Inl (UserTokenUnavailable ''Keycloak no longer accepts the session''), s, G1\<lparr>sh_world := w\<rparr>)
                         | (Inl e, w) \<Rightarrow> (Inl (TokenCrash e), s, G1\<lparr>sh_world := w\<rparr>)
                         | (Inr ts, w) \<Rightarrow>
                            (case tk_access ts of
                               None \<Rightarrow>
                                 (Inl (UserTokenUnavailable ''Keycloak answered without an access token''), s, G1\<lparr>sh_world := w\<rparr>)
                             | Some access \<Rightarrow>
                                 let rotated = (case tk_refresh ts of Some r \<Rightarrow> if r = [] then token else r | None \<Rightarrow> token);
                                     at = (if tk_access_expires_at ts \<noteq> 0 then tk_access_expires_at ts else mid + 60 * us_second)
                                 in (Inr access, apply_session (session_payload ts token) s,
                                     G1\<lparr>sh_world := w, sh_tokens := T\<lparr>tc_entries :=
                                       dict_set (dict_set (tc_entries T) key (at, access)) (av_sha256 E rotated) (at, access)\<rparr>\<rparr>)))))"

section \<open>Login, step-up, callback and logout\<close>

definition safe_next :: "(string \<Rightarrow> bool) \<Rightarrow> string \<Rightarrow> py_exn + string option" where
  "safe_next bracketed raw =
     (if raw = [] \<or> \<not> startswith raw ''/'' \<or> startswith raw ''//'' then Inr None
      else if list_ex (\<lambda>c. c \<in> {CHR 0x5C, CHR 0x00, LF, CR, TAB}) raw then Inr None
      else rbind (urlsplit bracketed raw) (\<lambda>parts.
             Inr (if u_scheme parts \<noteq> [] \<or> u_netloc parts \<noteq> [] then None else Some raw)))"

definition make_state :: "'w access_env \<Rightarrow> string \<Rightarrow> string" where
  "make_state E verifier = av_hmac E (ac_session_secret (av_settings E)) verifier @ ''.'' @ verifier"

definition parse_state :: "'w access_env \<Rightarrow> string \<Rightarrow> string option" where
  "parse_state E state =
     (case partition_char (CHR ''.'') state of
        (mac_part, found, verifier) \<Rightarrow>
          if found \<and> mac_part = av_hmac E (ac_session_secret (av_settings E)) verifier then Some verifier else None)"

definition login :: "'w access_env \<Rightarrow> string \<Rightarrow> string \<Rightarrow> session \<Rightarrow> (route_error + string) \<times> session" where
  "login E verifier nxt s =
     (case safe_next (av_bracketed E) nxt of
        Inl e \<Rightarrow> (Inl (Crash (Other e)), s)
      | Inr dest \<Rightarrow>
          (Inr (av_auth_url E (make_state E verifier) (av_challenge E verifier) False),
           case dest of None \<Rightarrow> s | Some d \<Rightarrow> dict_set s ''post_login_redirect'' (PStr d)))"

definition pending_entry :: "'w access_env \<Rightarrow> string \<Rightarrow> claims \<Rightarrow> instant \<Rightarrow> string \<Rightarrow> pyval" where
  "pending_entry E verifier c now nxt_path = PDict
     [(''verifier'', PStr (av_sha256 E verifier)), (''sub'', PStr (cm_sub c)), (''at'', PInt (now div us_second)),
      (''auth_time'', PInt (cm_auth_time c)), (''next'', PStr nxt_path)]"

definition step_up ::
  "'w access_env \<Rightarrow> instant \<Rightarrow> instant \<Rightarrow> instant \<Rightarrow> string \<Rightarrow> string \<Rightarrow> session \<Rightarrow> 'w shared
    \<Rightarrow> (route_error + string) \<times> session \<times> 'w shared" where
  "step_up E now mid late verifier nxt s G =
     (case require_admin E now mid late s G of
        (Inl e, s1, G1) \<Rightarrow> (Inl e, s1, G1)
      | (Inr c, s1, G1) \<Rightarrow>
         (case safe_next (av_bracketed E) nxt of
            Inl e \<Rightarrow> (Inl (Crash (Other e)), s1, G1)
          | Inr dest \<Rightarrow>
              (Inr (av_auth_url E (make_state E verifier) (av_challenge E verifier) True),
               dict_set s1 STEP_UP_PENDING (pending_entry E verifier c late (case dest of None \<Rightarrow> ''/'' | Some d \<Rightarrow> d)), G1)))"

text \<open>\<open>isinstance(pending, dict) and pending["verifier"] == digest\<close>.\<close>

definition matching_pending :: "'w access_env \<Rightarrow> string \<Rightarrow> session \<Rightarrow> (string, pyval) dict option" where
  "matching_pending E verifier s =
     (case get_none s STEP_UP_PENDING of
        PDict p \<Rightarrow> if get_none p ''verifier'' = PStr (av_sha256 E verifier) then Some p else None
      | _ \<Rightarrow> None)"

definition finish_step_up ::
  "'w access_env \<Rightarrow> instant \<Rightarrow> string \<Rightarrow> claims \<Rightarrow> session \<Rightarrow> (route_error + string option) \<times> session" where
  "finish_step_up E now verifier c s =
     (case matching_pending E verifier s of
        None \<Rightarrow> (Inr None, dict_del s STEP_UP_AT)
      | Some p \<Rightarrow>
          let s1 = dict_del s STEP_UP_PENDING;
              judged = rbind (py_int (av_trunc E) (py_or (get_none p ''auth_time'') (PInt 0))) (\<lambda>previous.
                 rbind (if previous \<noteq> 0 then Inr (cm_auth_time c > previous)
                        else rbind (rbind (item_of p ''at'') (py_int (av_trunc E)))
                               (\<lambda>at. Inr (cm_auth_time c \<ge> at - STEP_UP_SKEW_SECONDS))) (\<lambda>fresh.
                 rbind (item_of p ''sub'') (\<lambda>sub. Inr (PStr (cm_sub c) = sub \<and> fresh))))
          in (case judged of
                Inl e \<Rightarrow> (Inl (Crash (Other e)), s1)
              | Inr False \<Rightarrow> (Inl (Refuse 403 ''The sign-in could not be confirmed. Sign in again and retry.''), s1)
              | Inr True \<Rightarrow>
                  let s2 = dict_set s1 STEP_UP_AT (PInt (now div us_second))
                  in (case item_of p ''next'' of
                        Inl e \<Rightarrow> (Inl (Crash (Other e)), s2)
                      | Inr n \<Rightarrow> (Inr (Some (py_str_of n)), s2))))"

definition callback ::
  "'w access_env \<Rightarrow> instant \<Rightarrow> instant \<Rightarrow> string \<Rightarrow> string \<Rightarrow> string \<Rightarrow> session \<Rightarrow> 'w shared
    \<Rightarrow> (route_error + string) \<times> session \<times> 'w shared" where
  "callback E now late code state error s G =
     (if error \<noteq> [] then (Inl (Refuse 400 (''authentication error: '' @ error)), s, G)
      else case parse_state E state of
          None \<Rightarrow> (Inl (Refuse 400 ''missing OIDC session state''), s, G)
        | Some verifier \<Rightarrow>
            if verifier = [] then (Inl (Refuse 400 ''missing OIDC session state''), s, G)
            else if code = [] then (Inl (Refuse 400 ''missing authorization code''), s, G)
            else (case av_exchange E now code verifier (sh_world G) of
               (Inl (OIDCError _), w) \<Rightarrow> (Inl (Refuse 401 ''authentication failed''), s, G\<lparr>sh_world := w\<rparr>)
             | (Inl e, w) \<Rightarrow> (Inl (Crash e), s, G\<lparr>sh_world := w\<rparr>)
             | (Inr ts, w) \<Rightarrow>
                 let c = tk_claims ts; G1 = G\<lparr>sh_world := w\<rparr>
                 in if \<not> has_manager_access (av_settings E) c
                    then (Inl (Refuse 403 ''your account does not have a role granting access to this application''), s, G1)
                    else (case finish_step_up E late verifier c s of
                       (Inl e, s1) \<Rightarrow> (Inl e, s1, G1)
                     | (Inr stepped_to, s1) \<Rightarrow>
                         let s2 = dict_set s1 ''user'' (PDict (claims_to_dict c));
                             s3 = (case tk_refresh ts of
                                 Some r \<Rightarrow> if r = [] then s2 else dict_set s2 ''oidc'' (PDict [(''refresh_token'', PStr r)])
                               | None \<Rightarrow> s2)
                         in (case stepped_to of
                               Some path \<Rightarrow> (Inr path, s3, G1)
                             | None \<Rightarrow>
                                 (Inr (case get_or s3 ''post_login_redirect'' (PStr ''/'') of
                                    PStr d \<Rightarrow> if startswith d ''/'' then d else ''/'' | _ \<Rightarrow> ''/''),
                                  dict_del s3 ''post_login_redirect'', G1)))))"

definition logout :: "'w access_env \<Rightarrow> string option \<Rightarrow> string \<Rightarrow> session \<Rightarrow> 'w shared \<Rightarrow> (route_error + string) \<times> session \<times> 'w shared" where
  "logout E header form s G =
     (let token = refresh_token_of s
      in if \<not> truthy (get_none s ''user'') \<and> token = None then (Inr ''/auth/login'', [], G)
         else case verify_csrf s header (Some form) of
             Inl e \<Rightarrow> (Inl e, s, G)
           | Inr _ \<Rightarrow>
              (case token of
                 None \<Rightarrow> (Inr ''/auth/login'', [], G)
               | Some t \<Rightarrow>
                   (case av_end_session E t of
                      Inl (OIDCError _) \<Rightarrow> (Inr ''/auth/login'', [], G\<lparr>sh_tokens := forget E t (sh_tokens G)\<rparr>)
                    | Inl e \<Rightarrow> (Inl (Crash e), s, G)
                    | Inr _ \<Rightarrow> (Inr ''/auth/login'', [], G\<lparr>sh_tokens := forget E t (sh_tokens G)\<rparr>))))"

section \<open>The guard of the configuration routes\<close>

fun idle_runners ::
  "'d docker \<Rightarrow> (string \<Rightarrow> pyval option) \<Rightarrow> (runner_kind \<times> string) list \<Rightarrow> 'd \<Rightarrow> (route_error + unit) \<times> 'd" where
  "idle_runners D loads [] d = (Inr (), d)"
| "idle_runners D loads ((k, detail) # ks) d =
     (case find_runner D loads k d of
        (Inl (RunnerError m), d') \<Rightarrow> (Inl (Unavailable m), d')
      | (Inl (Raise e), d') \<Rightarrow> (Inl (Crash (Other e)), d')
      | (Inr (Some r), d') \<Rightarrow> if is_running r then (Inl (Refuse 409 detail), d') else idle_runners D loads ks d'
      | (Inr None, d') \<Rightarrow> idle_runners D loads ks d')"

definition refuse_while_locked :: "string \<Rightarrow> route_error + unit" where
  "refuse_while_locked reason = (if reason \<noteq> [] then Inl (Refuse 409 reason) else Inr ())"

definition require_idle_stack ::
  "'d docker \<Rightarrow> (string \<Rightarrow> pyval option) \<Rightarrow> string \<Rightarrow> 'd \<Rightarrow> (route_error + unit) \<times> 'd" where
  "require_idle_stack D loads lock_reason d =
     (case idle_runners D loads [(RESTORE_KIND, ''a restore is still running''), (UPGRADE_KIND, ''an upgrade is still running''),
          (STACK_KIND, ''a stack action is still running'')] d of
        (Inl e, d') \<Rightarrow> (Inl e, d')
      | (Inr _, d') \<Rightarrow> (refuse_while_locked lock_reason, d'))"

end
