(* ===== verification/Access.thy ===== *)
theory Access
  imports Sessions
begin

text \<open>
  What the sign-in promises. The server hands out cookies and cannot take them back, so a request may present any session
  that was ever issued: the step relation below lets it, which covers several tabs, races and replays at once. The events
  record what happened at the provider: who asked for a step-up when, who signed in when, and which sign-ins came without a
  refresh token into a session that held one, which stays there.
\<close>

section \<open>The site as a state machine\<close>

datatype auth_event = Asked instant string int | SignedIn instant claims | KeptToken string claims

record 'w site =
  si_issued :: "session set"
  si_shared :: "'w shared"
  si_events :: "auth_event list"

inductive site_init :: "'w site \<Rightarrow> bool" where
  "rf_results (sh_refresh G) = [] \<Longrightarrow> tc_entries (sh_tokens G) = [] \<Longrightarrow>
     site_init \<lparr>si_issued = {[]}, si_shared = G, si_events = []\<rparr>"

definition issue :: "session \<Rightarrow> 'w shared \<Rightarrow> auth_event list \<Rightarrow> 'w site \<Rightarrow> 'w site" where
  "issue s G evs x = \<lparr>si_issued = insert s (si_issued x), si_shared = G, si_events = si_events x @ evs\<rparr>"

text \<open>A sign-in that came with no refresh token leaves the one the session held.\<close>

definition kept_token :: "route_error + string \<Rightarrow> token_set \<Rightarrow> session \<Rightarrow> auth_event list" where
  "kept_token res ts s =
     (if isl res \<or> tk_refresh ts \<notin> {None, Some []} then []
      else case refresh_token_of s of None \<Rightarrow> [] | Some r \<Rightarrow> [KeptToken r (tk_claims ts)])"

inductive site_step :: "'w access_env \<Rightarrow> 'w site \<Rightarrow> 'w site \<Rightarrow> bool" for E :: "'w access_env" where
  requested: "s \<in> si_issued x \<Longrightarrow> get_current_user E now mid late s (si_shared x) = (res, s', G') \<Longrightarrow>
    site_step E x (issue s' G' [] x)"
| token_used: "s \<in> si_issued x \<Longrightarrow> user_access_token E now mid s (si_shared x) = (tres, s', G') \<Longrightarrow>
    site_step E x (issue s' G' [] x)"
| page_shown: "s \<in> si_issued x \<Longrightarrow> get_csrf_token fresh s = (tok, s') \<Longrightarrow>
    site_step E x (issue s' (si_shared x) [] x)"
| login_begun: "s \<in> si_issued x \<Longrightarrow> login E verifier nxt s = (lres, s') \<Longrightarrow>
    site_step E x (issue s' (si_shared x) [] x)"
| step_up_asked: "s \<in> si_issued x \<Longrightarrow> require_admin E now mid late s (si_shared x) = (Inr c, s1, G1) \<Longrightarrow>
    step_up E now mid late verifier nxt s (si_shared x) = (lres, s', G') \<Longrightarrow>
    site_step E x (issue s' G' [Asked late (cm_sub c) (cm_auth_time c)] x)"
| signed_in: "s \<in> si_issued x \<Longrightarrow> av_exchange E now code verifier (sh_world (si_shared x)) = (Inr ts, w) \<Longrightarrow>
    parse_state E state = Some verifier \<Longrightarrow> callback E now late code state error s (si_shared x) = (lres, s', G') \<Longrightarrow>
    site_step E x (issue s' G' (SignedIn late (tk_claims ts) # kept_token lres ts s) x)"
| logged_out: "s \<in> si_issued x \<Longrightarrow> logout E header form s (si_shared x) = (lres, s', G') \<Longrightarrow>
    site_step E x (issue s' G' [] x)"

section \<open>What the provider promises\<close>

text \<open>
  A refresh token belongs to one account (its owner): it is exchanged for that account's claims, whatever it is rotated
  to belongs to the same account, and a refresh token that comes with a sign-in belongs to the account that signed in.
  Whether one comes at all is up to the provider, at every sign-in. SHA-256 tells tokens apart.
\<close>

definition provider_ok :: "'w access_env \<Rightarrow> (string \<Rightarrow> string) \<Rightarrow> bool" where
  "provider_ok E owner \<longleftrightarrow> inj (av_sha256 E)
     \<and> (\<forall>now token w ts w'. av_renew E now token w = (Inr ts, w') \<longrightarrow>
          cm_sub (tk_claims ts) = owner token \<and> (\<forall>r. tk_refresh ts = Some r \<longrightarrow> r \<noteq> [] \<longrightarrow> owner r = owner token))
     \<and> (\<forall>now code v w ts w'. av_exchange E now code v w = (Inr ts, w') \<longrightarrow>
          (\<forall>r. tk_refresh ts = Some r \<longrightarrow> r \<noteq> [] \<longrightarrow> owner r = cm_sub (tk_claims ts)))"

section \<open>The invariant\<close>

text \<open>A path on this origin, in whatever way a browser reads it.\<close>

definition safe_path :: "string \<Rightarrow> bool" where
  "safe_path d \<longleftrightarrow> startswith d ''/'' \<and> \<not> startswith d ''//''
     \<and> list_all (\<lambda>c. c \<notin> {CHR 0x5C, CHR 0x00, LF, CR, TAB}) d"

text \<open>A sign-in newer than the one the session had when the step-up was asked for, or, when that one is not known, not
  older than the request.\<close>

definition fresh_sign_in :: "instant \<Rightarrow> int \<Rightarrow> claims \<Rightarrow> bool" where
  "fresh_sign_in a prev c \<longleftrightarrow>
     (if prev \<noteq> 0 then cm_auth_time c > prev else cm_auth_time c \<ge> a div us_second - STEP_UP_SKEW_SECONDS)"

definition confirmed :: "auth_event list \<Rightarrow> string \<Rightarrow> instant \<Rightarrow> bool" where
  "confirmed evs sub t \<longleftrightarrow> (\<exists>a prev c. Asked a sub prev \<in> set evs \<and> SignedIn t c \<in> set evs \<and> cm_sub c = sub \<and> fresh_sign_in a prev c)"

text \<open>A refresh token of the account was left in a session that somebody else signed in to.\<close>

definition token_left :: "(string \<Rightarrow> string) \<Rightarrow> auth_event list \<Rightarrow> string \<Rightarrow> bool" where
  "token_left owner evs sub \<longleftrightarrow> (\<exists>r c. KeptToken r c \<in> set evs \<and> owner r = sub \<and> cm_sub c \<noteq> sub)"

text \<open>The account confirmed itself at a time, or it was confirmed then by another account, in a session that kept the
  first one's refresh token.\<close>

definition vouched_for :: "(string \<Rightarrow> string) \<Rightarrow> auth_event list \<Rightarrow> string \<Rightarrow> instant \<Rightarrow> bool" where
  "vouched_for owner evs sub t \<longleftrightarrow>
     confirmed evs sub t \<or> token_left owner evs sub \<and> (\<exists>other. confirmed evs other t)"

definition account :: "session \<Rightarrow> claims \<Rightarrow> bool" where
  "account s c \<longleftrightarrow> dict_get s ''user'' = Some (PDict (claims_to_dict c))"

definition tokens_ok :: "(string \<Rightarrow> string) \<Rightarrow> auth_event list \<Rightarrow> session \<Rightarrow> bool" where
  "tokens_ok owner evs s \<longleftrightarrow> (\<forall>r. refresh_token_of s = Some r \<longrightarrow>
     (\<exists>c. account s c \<and> cm_sub c = owner r) \<or> token_left owner evs (owner r))"

definition pending_ok :: "'w access_env \<Rightarrow> auth_event list \<Rightarrow> session \<Rightarrow> bool" where
  "pending_ok E evs s \<longleftrightarrow> (\<forall>p. dict_get s STEP_UP_PENDING = Some p \<longrightarrow>
     (\<exists>v c t path. p = pending_entry E v c t path \<and> Asked t (cm_sub c) (cm_auth_time c) \<in> set evs \<and> safe_path path))"

definition step_up_ok :: "(string \<Rightarrow> string) \<Rightarrow> auth_event list \<Rightarrow> session \<Rightarrow> bool" where
  "step_up_ok owner evs s \<longleftrightarrow> (\<forall>v. dict_get s STEP_UP_AT = Some v \<longrightarrow>
     (\<exists>t c. v = PInt (t div us_second) \<and> account s c \<and> vouched_for owner evs (cm_sub c) t))"

definition redirect_ok :: "session \<Rightarrow> bool" where
  "redirect_ok s \<longleftrightarrow> (\<forall>v. dict_get s ''post_login_redirect'' = Some v \<longrightarrow> (\<exists>d. v = PStr d \<and> safe_path d))"

definition user_ok :: "session \<Rightarrow> bool" where
  "user_ok s \<longleftrightarrow> (\<forall>v. dict_get s ''user'' = Some v \<longrightarrow> (\<exists>c. v = PDict (claims_to_dict c)))"

definition session_ok :: "'w access_env \<Rightarrow> (string \<Rightarrow> string) \<Rightarrow> auth_event list \<Rightarrow> session \<Rightarrow> bool" where
  "session_ok E owner evs s \<longleftrightarrow>
     user_ok s \<and> tokens_ok owner evs s \<and> pending_ok E evs s \<and> step_up_ok owner evs s \<and> redirect_ok s"

definition payload_ok :: "(string \<Rightarrow> string) \<Rightarrow> string \<Rightarrow> pyval \<times> pyval \<Rightarrow> bool" where
  "payload_ok owner token p \<longleftrightarrow>
     (\<exists>c r. p = (PDict (claims_to_dict c), PDict [(''refresh_token'', PStr r)]) \<and> cm_sub c = owner token \<and> owner r = owner token)"

definition cache_ok :: "'w access_env \<Rightarrow> (string \<Rightarrow> string) \<Rightarrow> refresh_cache \<Rightarrow> bool" where
  "cache_ok E owner R \<longleftrightarrow>
     (\<forall>k ts p. dict_get (rf_results R) k = Some (ts, p) \<longrightarrow> (\<exists>token. k = av_sha256 E token \<and> payload_ok owner token p))
     \<and> dict_ok (rf_results R)"

definition site_inv :: "'w access_env \<Rightarrow> (string \<Rightarrow> string) \<Rightarrow> 'w site \<Rightarrow> bool" where
  "site_inv E owner x \<longleftrightarrow>
     (\<forall>s \<in> si_issued x. session_ok E owner (si_events x) s) \<and> cache_ok E owner (sh_refresh (si_shared x))"

lemmas session_parts = session_ok_def user_ok_def tokens_ok_def pending_ok_def step_up_ok_def redirect_ok_def

subsection \<open>Events only accumulate\<close>

lemma confirmed_more: "confirmed evs sub t \<Longrightarrow> set evs \<subseteq> set evs' \<Longrightarrow> confirmed evs' sub t"
  unfolding confirmed_def by blast

lemma token_left_more: "token_left owner evs sub \<Longrightarrow> set evs \<subseteq> set evs' \<Longrightarrow> token_left owner evs' sub"
  unfolding token_left_def by blast

lemma vouched_for_more: "vouched_for owner evs sub t \<Longrightarrow> set evs \<subseteq> set evs' \<Longrightarrow> vouched_for owner evs' sub t"
  unfolding vouched_for_def by (blast intro: confirmed_more token_left_more)

lemma session_ok_more:
  assumes "session_ok E owner evs s"
  shows "session_ok E owner (evs @ more_evs) s"
proof -
  have sub: "set evs \<subseteq> set (evs @ more_evs)" by simp
  have "tokens_ok owner (evs @ more_evs) s"
    using assms token_left_more [OF _ sub] unfolding session_ok_def tokens_ok_def by blast
  moreover have "step_up_ok owner (evs @ more_evs) s"
    using assms vouched_for_more [OF _ sub] unfolding session_ok_def step_up_ok_def by blast
  moreover have "pending_ok E (evs @ more_evs) s" using assms by (fastforce simp: session_ok_def pending_ok_def)
  ultimately show ?thesis using assms by (simp add: session_ok_def)
qed

lemma session_ok_Nil: "session_ok E owner evs []"
  by (simp add: session_parts refresh_token_of_def get_or_def)

text \<open>The keys of a session are told apart.\<close>

lemma session_keys [simp]:
  "STEP_UP_AT \<noteq> ''user''" "STEP_UP_PENDING \<noteq> ''user''" "STEP_UP_AT \<noteq> ''oidc''" "STEP_UP_PENDING \<noteq> ''oidc''"
  "STEP_UP_AT \<noteq> ''post_login_redirect''" "STEP_UP_PENDING \<noteq> ''post_login_redirect''" "STEP_UP_AT \<noteq> STEP_UP_PENDING"
  "STEP_UP_PENDING \<noteq> STEP_UP_AT" "CSRF_KEY \<noteq> ''user''" "CSRF_KEY \<noteq> ''oidc''" "CSRF_KEY \<noteq> STEP_UP_AT"
  "CSRF_KEY \<noteq> STEP_UP_PENDING" "CSRF_KEY \<noteq> ''post_login_redirect''"
  "''user'' \<noteq> STEP_UP_AT" "''user'' \<noteq> STEP_UP_PENDING" "''oidc'' \<noteq> STEP_UP_AT" "''oidc'' \<noteq> STEP_UP_PENDING"
  "''post_login_redirect'' \<noteq> STEP_UP_AT" "''post_login_redirect'' \<noteq> STEP_UP_PENDING"
  "''user'' \<noteq> CSRF_KEY" "''oidc'' \<noteq> CSRF_KEY" "STEP_UP_AT \<noteq> CSRF_KEY" "STEP_UP_PENDING \<noteq> CSRF_KEY"
  "''post_login_redirect'' \<noteq> CSRF_KEY"
  by (simp_all add: STEP_UP_AT_def STEP_UP_PENDING_def CSRF_KEY_def)

lemma refresh_token_of_cong: "dict_get s' ''oidc'' = dict_get s ''oidc'' \<Longrightarrow> refresh_token_of s' = refresh_token_of s"
  by (simp add: refresh_token_of_def get_or_def)

text \<open>A change of one of the other keys.\<close>

lemma session_ok_frame:
  assumes "session_ok E owner evs s" "dict_get s' ''user'' = dict_get s ''user''" "dict_get s' ''oidc'' = dict_get s ''oidc''"
    and "dict_get s' STEP_UP_PENDING = dict_get s STEP_UP_PENDING \<or> pending_ok E evs s'"
    and "dict_get s' STEP_UP_AT = dict_get s STEP_UP_AT \<or> dict_get s' STEP_UP_AT = None"
    and "dict_get s' ''post_login_redirect'' = dict_get s ''post_login_redirect'' \<or> redirect_ok s'"
  shows "session_ok E owner evs s'"
  using assms refresh_token_of_cong [OF assms(3)]
  by (auto simp: session_ok_def user_ok_def tokens_ok_def pending_ok_def step_up_ok_def redirect_ok_def account_def)

subsection \<open>Renewal\<close>

lemma account_unique:
  assumes "account s c" "account s c'" shows "c' = c"
proof -
  have "PDict (claims_to_dict c) = PDict (claims_to_dict c')" using assms unfolding account_def by (metis option.inject)
  then have "Inr c = (Inr c' :: py_exn + claims)" by (metis claims_roundtrip)
  then show ?thesis by simp
qed

lemma dict_get_single: "dict_get [(k, v)] j = (if j = k then Some v else None)"
  by (simp add: dict_get_def)

lemma refresh_token_nonempty: "refresh_token_of s = Some r \<Longrightarrow> r \<noteq> []"
  by (auto simp: refresh_token_of_def non_empty_text_def split: pyval.splits if_splits)

lemma apply_payload_ok:
  assumes "session_ok E owner evs s" "refresh_token_of s = Some token" "payload_ok owner token p"
  shows "session_ok E owner evs (apply_session p s)"
proof -
  from assms(3) obtain c r where p: "p = (PDict (claims_to_dict c), PDict [(''refresh_token'', PStr r)])"
      "cm_sub c = owner token" "owner r = owner token" by (auto simp: payload_ok_def)
  from assms(1,2) have c0: "(\<exists>c0. account s c0 \<and> cm_sub c0 = owner token) \<or> token_left owner evs (owner token)"
    by (auto simp: session_ok_def tokens_ok_def)
  have acc: "account (apply_session p s) c" by (simp add: account_def apply_session_def p)
  have rt: "refresh_token_of (apply_session p s) = Some r' \<Longrightarrow> r' = r" for r'
    by (auto simp: refresh_token_of_def get_or_def apply_session_def p non_empty_text_def dict_get_single split: if_splits)
  have same: "vouched_for owner evs (cm_sub c) t" if "account s c'" "vouched_for owner evs (cm_sub c') t" for c' t
  proof (cases "token_left owner evs (owner token)")
    case True
    with that(2) p(2) show ?thesis by (auto simp: vouched_for_def)
  next
    case False
    with c0 that(1) have "cm_sub c' = cm_sub c" using p(2) account_unique by metis
    with that(2) show ?thesis by simp
  qed
  show ?thesis
    unfolding session_ok_def
  proof (intro conjI)
    show "user_ok (apply_session p s)" unfolding user_ok_def apply_session_def p by auto
    show "tokens_ok owner evs (apply_session p s)" using acc rt p(2,3) by (auto simp: tokens_ok_def)
    show "pending_ok E evs (apply_session p s)" using assms(1) by (simp add: session_ok_def pending_ok_def apply_session_def)
    show "step_up_ok owner evs (apply_session p s)"
      using assms(1) acc same unfolding session_ok_def step_up_ok_def by (fastforce simp: apply_session_def)
    show "redirect_ok (apply_session p s)" using assms(1) by (simp add: session_ok_def redirect_ok_def apply_session_def)
  qed
qed

lemma session_payload_ok:
  assumes "provider_ok E owner" "av_renew E now token w = (Inr ts, w')"
  shows "payload_ok owner token (session_payload ts token)"
proof -
  have "cm_sub (tk_claims ts) = owner token" "\<And>r. tk_refresh ts = Some r \<Longrightarrow> r \<noteq> [] \<Longrightarrow> owner r = owner token"
    using assms unfolding provider_ok_def by blast+
  then show ?thesis by (auto simp: payload_ok_def session_payload_def split: option.splits)
qed

lemma dict_get_filter:
  assumes "dict_ok d" "dict_get (filter P d) k = Some v"
  shows "dict_get d k = Some v"
proof -
  from dict_get_in [OF assms(2)] have "(k, v) \<in> set d" by simp
  then show ?thesis using assms(1) by (simp add: dict_get_mem)
qed

lemma dict_ok_filter: "dict_ok d \<Longrightarrow> dict_ok (filter P d)"
  by (simp add: dict_ok_def distinct_map_filter)

lemma prune_cache_ok: "cache_ok E owner R \<Longrightarrow> cache_ok E owner (prune_refresh_state now (R\<lparr>rf_locks := ls\<rparr>))"
  unfolding cache_ok_def prune_refresh_state_def Let_def
  by (auto intro: dict_ok_filter dest: dict_get_filter)

lemma refresh_session_ok:
  assumes "provider_ok E owner" "refresh_session E now s G = (res, s', G')"
    and "session_ok E owner evs s" "cache_ok E owner (sh_refresh G)"
  shows "session_ok E owner evs s' \<and> cache_ok E owner (sh_refresh G')"
proof (cases "refresh_token_of s")
  case None
  with assms show ?thesis by (simp add: refresh_session_def)
next
  case (Some token)
  let ?R = "prune_refresh_state now ((sh_refresh G)\<lparr>rf_locks := setdefault_lock (av_sha256 E token) (rf_locks (sh_refresh G))\<rparr>)"
  have R: "cache_ok E owner ?R" using prune_cache_ok [OF assms(4)] .
  show ?thesis
  proof (cases "dict_get (rf_results ?R) (av_sha256 E token)")
    case (Some hit)
    obtain t p where hit: "hit = (t, p)" by (cases hit)
    from R Some hit obtain token' where t': "av_sha256 E token = av_sha256 E token'" "payload_ok owner token' p"
      unfolding cache_ok_def by blast
    then have "payload_ok owner token p" using assms(1) by (auto simp: provider_ok_def dest: injD)
    from apply_payload_ok [OF assms(3) \<open>refresh_token_of s = Some token\<close> this] R show ?thesis
      using assms(2) \<open>refresh_token_of s = Some token\<close> Some hit
      by (auto simp: refresh_session_def Let_def split: sum.splits)
  next
    case None
    obtain r w where rn: "av_renew E now token (sh_world G) = (r, w)" by fastforce
    show ?thesis
    proof (cases r)
      case (Inl e)
      with assms(2,3) R \<open>refresh_token_of s = Some token\<close> None rn show ?thesis
        by (cases e) (auto simp: refresh_session_def Let_def)
    next
      case (Inr ts)
      have p: "payload_ok owner token (session_payload ts token)" using session_payload_ok [OF assms(1) rn [unfolded Inr]] .
      have "cache_ok E owner (?R\<lparr>rf_results := dict_set (rf_results ?R) (av_sha256 E token) (now, session_payload ts token)\<rparr>)"
        using R p unfolding cache_ok_def by auto
      with apply_payload_ok [OF assms(3) \<open>refresh_token_of s = Some token\<close> p] show ?thesis
        using assms(2) \<open>refresh_token_of s = Some token\<close> None rn Inr by (auto simp: refresh_session_def Let_def)
    qed
  qed
qed

lemma get_current_user_ok:
  assumes "provider_ok E owner" "get_current_user E now mid late s G = (res, s', G')"
    and "session_ok E owner evs s" "cache_ok E owner (sh_refresh G)"
  shows "session_ok E owner evs s' \<and> cache_ok E owner (sh_refresh G')"
proof -
  obtain r s1 G1 where rf: "refresh_session E mid s G = (r, s1, G1)" by (metis prod_cases3)
  have ok1: "session_ok E owner evs s1" "cache_ok E owner (sh_refresh G1)"
    using refresh_session_ok [OF assms(1) rf assms(3,4)] by auto
  show ?thesis
    using assms(2-4) ok1 rf session_ok_Nil
    by (auto simp: get_current_user_def split: option.splits pyval.splits sum.splits if_splits)
qed

lemma user_access_token_ok:
  assumes "provider_ok E owner" "user_access_token E now mid s G = (res, s', G')" "session_ok E owner evs s"
  shows "session_ok E owner evs s' \<and> sh_refresh G' = sh_refresh G"
proof (cases "refresh_token_of s")
  case None
  with assms show ?thesis by (simp add: user_access_token_def)
next
  case (Some token)
  obtain r w where rn: "av_renew E mid token (sh_world G) = (r, w)" by fastforce
  have "session_ok E owner evs (apply_session (session_payload ts token) s)" if "r = Inr ts" for ts
    using apply_payload_ok [OF assms(3) Some session_payload_ok [OF assms(1) rn [unfolded that]]] .
  with assms(2,3) Some rn show ?thesis
    by (auto simp: user_access_token_def Let_def split: option.splits sum.splits oidc_fault.splits)
qed

subsection \<open>The routes\<close>

lemma csrf_ok:
  assumes "session_ok E owner evs s" "get_csrf_token fresh s = (t, s')"
  shows "session_ok E owner evs s'"
  by (rule session_ok_frame [OF assms(1)]) (use assms(2) in \<open>auto simp: get_csrf_token_def Let_def split: if_splits\<close>)

lemma safe_next_safe: "safe_next b raw = Inr (Some d) \<Longrightarrow> safe_path d"
  by (auto simp: safe_next_def safe_path_def rbind_eq_Inr list_ex_iff list_all_iff split: if_splits)

lemma safe_root: "safe_path ''/''"
  by (simp add: safe_path_def)

lemma login_ok:
  assumes "session_ok E owner evs s" "login E verifier nxt s = (res, s')"
  shows "session_ok E owner evs s'"
  using assms(1)
proof (rule session_ok_frame)
  show "dict_get s' ''post_login_redirect'' = dict_get s ''post_login_redirect'' \<or> redirect_ok s'"
    using assms(2) by (auto simp: login_def redirect_ok_def dest!: safe_next_safe split: sum.splits option.splits)
qed (use assms(2) in \<open>auto simp: login_def split: sum.splits option.splits\<close>)

lemma require_admin_user:
  "require_admin E now mid late s G = (res, s1, G1) \<Longrightarrow> \<exists>r. get_current_user E now mid late s G = (r, s1, G1)"
  by (auto simp: require_admin_def guarded_def split: prod.splits)

lemma step_up_session_ok:
  assumes "provider_ok E owner" "require_admin E now mid late s G = (Inr c, s1, G1)"
    and "step_up E now mid late verifier nxt s G = (res, s', G')"
    and "session_ok E owner evs s" "cache_ok E owner (sh_refresh G)"
  shows "session_ok E owner (evs @ [Asked late (cm_sub c) (cm_auth_time c)]) s' \<and> cache_ok E owner (sh_refresh G')"
proof -
  obtain r where "get_current_user E now mid late s G = (r, s1, G1)" using require_admin_user [OF assms(2)] by blast
  from get_current_user_ok [OF assms(1) this assms(4,5)] have ok1: "session_ok E owner evs s1" "cache_ok E owner (sh_refresh G1)"
    by auto
  let ?evs = "evs @ [Asked late (cm_sub c) (cm_auth_time c)]"
  have ok2: "session_ok E owner ?evs s1" by (rule session_ok_more [OF ok1(1)])
  show ?thesis
  proof (cases "safe_next (av_bracketed E) nxt")
    case (Inl e)
    with assms(2,3) ok1(2) ok2 show ?thesis by (auto simp: step_up_def)
  next
    case (Inr dest)
    let ?path = "case dest of None \<Rightarrow> ''/'' | Some d \<Rightarrow> d"
    have safe: "safe_path ?path" using Inr safe_next_safe safe_root by (auto split: option.splits)
    have s': "s' = dict_set s1 STEP_UP_PENDING (pending_entry E verifier c late ?path)" "G' = G1"
      using assms(2,3) Inr by (auto simp: step_up_def)
    have pend: "pending_ok E ?evs s'" unfolding pending_ok_def s' using safe by auto
    have "session_ok E owner ?evs s'" by (rule session_ok_frame [OF ok2]) (use pend in \<open>auto simp: s'\<close>)
    with s'(2) ok1(2) show ?thesis by simp
  qed
qed

text \<open>The judgement of a pending entry that \<open>step_up\<close> wrote.\<close>

lemma pending_judged:
  assumes "p = [(''verifier'', PStr h), (''sub'', PStr sub), (''at'', PInt a), (''auth_time'', PInt prev), (''next'', PStr path)]"
  shows "item_of p ''at'' = Inr (PInt a)" "item_of p ''sub'' = Inr (PStr sub)" "item_of p ''next'' = Inr (PStr path)"
    "get_none p ''auth_time'' = PInt prev"
  by (simp_all add: assms item_of_def dict_get_def get_or_def)

lemma py_int_or_zero: "py_int trunc (py_or (PInt i) (PInt 0)) = Inr i" "py_int trunc (PInt i) = Inr i"
  by (simp_all add: py_int_def py_or_def)

lemma finish_step_up_cases:
  assumes "pending_ok E evs s" "finish_step_up E now verifier c s = (res, s1)"
  shows "(res = Inr None \<and> s1 = dict_del s STEP_UP_AT)
    \<or> (\<exists>e. res = Inl e \<and> s1 = dict_del s STEP_UP_PENDING)
    \<or> (\<exists>path a prev. res = Inr (Some path) \<and> safe_path path
        \<and> s1 = dict_set (dict_del s STEP_UP_PENDING) STEP_UP_AT (PInt (now div us_second))
        \<and> Asked a (cm_sub c) prev \<in> set evs \<and> fresh_sign_in a prev c)"
proof (cases "matching_pending E verifier s")
  case None
  with assms(2) show ?thesis by (simp add: finish_step_up_def)
next
  case (Some p)
  then have "dict_get s STEP_UP_PENDING = Some (PDict p)"
    by (auto simp: matching_pending_def get_or_def split: pyval.splits if_splits option.splits)
  with assms(1) obtain v c0 t path where p: "PDict p = pending_entry E v c0 t path"
      "Asked t (cm_sub c0) (cm_auth_time c0) \<in> set evs" "safe_path path" by (auto simp: pending_ok_def)
  note f = pending_judged [OF p(1) [unfolded pending_entry_def pyval.inject]]
  show ?thesis
  proof (cases "cm_sub c = cm_sub c0 \<and> fresh_sign_in t (cm_auth_time c0) c")
    case True
    then have "res = Inr (Some path)" "s1 = dict_set (dict_del s STEP_UP_PENDING) STEP_UP_AT (PInt (now div us_second))"
      using assms(2) Some by (auto simp: finish_step_up_def Let_def f py_int_or_zero py_str_of_def fresh_sign_in_def split: if_splits)
    with True p(2,3) show ?thesis by auto
  next
    case False
    then show ?thesis
      using assms(2) Some by (auto simp: finish_step_up_def Let_def f py_int_or_zero py_str_of_def fresh_sign_in_def split: if_splits)
  qed
qed

text \<open>The session a successful sign-in gives.\<close>

lemma new_session_ok:
  assumes "dict_get s3 ''user'' = Some (PDict (claims_to_dict c))" "dict_get s3 STEP_UP_AT = dict_get s1 STEP_UP_AT"
    and "dict_get s3 STEP_UP_PENDING = dict_get s1 STEP_UP_PENDING"
    and "dict_get s3 ''post_login_redirect'' = dict_get s1 ''post_login_redirect''"
    and "\<And>r. refresh_token_of s3 = Some r \<Longrightarrow> owner r = cm_sub c \<or> token_left owner evs (owner r)"
    and "pending_ok E evs s1" "redirect_ok s1"
    and "dict_get s1 STEP_UP_AT = None \<or> (\<exists>t. dict_get s1 STEP_UP_AT = Some (PInt (t div us_second)) \<and> confirmed evs (cm_sub c) t)"
  shows "session_ok E owner evs s3"
proof -
  have acc: "account s3 c" by (simp add: account_def assms(1))
  then have "user_ok s3" "tokens_ok owner evs s3" using assms(5) by (force simp: user_ok_def account_def, force simp: tokens_ok_def)
  moreover have "pending_ok E evs s3" "redirect_ok s3" using assms(3,4,6,7) by (simp_all add: pending_ok_def redirect_ok_def)
  moreover have "step_up_ok owner evs s3" using assms(2,8) acc by (auto simp: step_up_ok_def vouched_for_def)
  ultimately show ?thesis by (simp add: session_ok_def)
qed

lemma redirect_deleted: "session_ok E owner evs s \<Longrightarrow> session_ok E owner evs (dict_del s ''post_login_redirect'')"
  by (erule session_ok_frame) (auto simp: redirect_ok_def)

lemma redirect_target_safe:
  assumes "redirect_ok s"
  shows "safe_path (case get_or s ''post_login_redirect'' (PStr ''/'') of PStr d \<Rightarrow> if startswith d ''/'' then d else ''/'' | _ \<Rightarrow> ''/'')"
proof (cases "dict_get s ''post_login_redirect''")
  case None
  then show ?thesis by (simp add: get_or_def safe_root)
next
  case (Some v)
  with assms obtain d where "v = PStr d" "safe_path d" by (auto simp: redirect_ok_def)
  with Some show ?thesis by (simp add: get_or_def safe_path_def)
qed

text \<open>What the callback writes into the session, after the step-up was judged.\<close>

definition sign_session :: "token_set \<Rightarrow> session \<Rightarrow> session" where
  "sign_session ts s1 =
     (let s2 = dict_set s1 ''user'' (PDict (claims_to_dict (tk_claims ts)))
      in case tk_refresh ts of
           Some r \<Rightarrow> if r = [] then s2 else dict_set s2 ''oidc'' (PDict [(''refresh_token'', PStr r)])
         | None \<Rightarrow> s2)"

lemma sign_session_gets:
  "dict_get (sign_session ts s1) ''user'' = Some (PDict (claims_to_dict (tk_claims ts)))"
  "k \<noteq> ''user'' \<Longrightarrow> k \<noteq> ''oidc'' \<Longrightarrow> dict_get (sign_session ts s1) k = dict_get s1 k"
  by (auto simp: sign_session_def Let_def split: option.splits)

lemma sign_session_tokens:
  assumes "provider_ok E owner" "av_exchange E now code verifier w0 = (Inr ts, w)"
    and "dict_get s1 ''oidc'' = dict_get s ''oidc''" "refresh_token_of (sign_session ts s1) = Some r"
  shows "owner r = cm_sub (tk_claims ts) \<or> token_left owner (evs @ e # kept_token (Inr d) ts s) (owner r)"
proof (cases "tk_refresh ts \<in> {None, Some []}")
  case True
  then have "refresh_token_of (sign_session ts s1) = refresh_token_of s"
    using assms(3) by (intro refresh_token_of_cong) (auto simp: sign_session_def Let_def)
  with True assms(4) have "kept_token (Inr d) ts s = [KeptToken r (tk_claims ts)]" by (simp add: kept_token_def)
  then have "KeptToken r (tk_claims ts) \<in> set (evs @ e # kept_token (Inr d) ts s)" by simp
  then show ?thesis unfolding token_left_def by metis
next
  case False
  then obtain r0 where r0: "tk_refresh ts = Some r0" "r0 \<noteq> []" by (cases "tk_refresh ts") auto
  then have "refresh_token_of (sign_session ts s1) = Some r0"
    by (simp add: sign_session_def refresh_token_of_def get_or_def non_empty_text_def dict_get_single)
  with assms(4) have "r0 = r" by simp
  then show ?thesis using assms(1,2) r0 unfolding provider_ok_def by blast
qed

lemma callback_unfold:
  assumes "error = []" "parse_state E state = Some verifier" "verifier \<noteq> []" "code \<noteq> []"
    and "av_exchange E now code verifier (sh_world G) = (Inr ts, w)" "has_manager_access (av_settings E) (tk_claims ts)"
  shows "callback E now late code state error s G =
    (case finish_step_up E late verifier (tk_claims ts) s of
       (Inl e, s1) \<Rightarrow> (Inl e, s1, G\<lparr>sh_world := w\<rparr>)
     | (Inr (Some path), s1) \<Rightarrow> (Inr path, sign_session ts s1, G\<lparr>sh_world := w\<rparr>)
     | (Inr None, s1) \<Rightarrow>
         (Inr (case get_or (sign_session ts s1) ''post_login_redirect'' (PStr ''/'') of
                 PStr d \<Rightarrow> if startswith d ''/'' then d else ''/'' | _ \<Rightarrow> ''/''),
          dict_del (sign_session ts s1) ''post_login_redirect'', G\<lparr>sh_world := w\<rparr>))"
  using assms by (auto simp: callback_def sign_session_def Let_def split: prod.splits sum.splits option.splits)

lemma callback_ok:
  assumes "provider_ok E owner" "av_exchange E now code verifier (sh_world G) = (Inr ts, w)"
    and "parse_state E state = Some verifier" "callback E now late code state error s G = (res, s', G')"
    and "session_ok E owner evs s"
  shows "session_ok E owner (evs @ SignedIn late (tk_claims ts) # kept_token res ts s) s' \<and> sh_refresh G' = sh_refresh G
    \<and> (\<forall>dest. res = Inr dest \<longrightarrow> safe_path dest)"
proof (cases "error = [] \<and> verifier \<noteq> [] \<and> code \<noteq> [] \<and> has_manager_access (av_settings E) (tk_claims ts)")
  case False
  then show ?thesis using assms(2-4) session_ok_more [OF assms(5)]
    by (auto simp: callback_def Let_def split: if_splits)
next
  case True
  let ?c = "tk_claims ts" and ?evs = "evs @ SignedIn late (tk_claims ts) # kept_token res ts s"
  have ok: "session_ok E owner ?evs s" by (rule session_ok_more [OF assms(5)])
  obtain fr s1 where f: "finish_step_up E late verifier ?c s = (fr, s1)" by fastforce
  note cb = callback_unfold [where E = E and state = state and late = late and s = s and G = G, OF _ assms(3) _ _ assms(2), of error]
  have "pending_ok E evs s" using assms(5) by (simp add: session_ok_def)
  from finish_step_up_cases [OF this f] consider
      "fr = Inr None" "s1 = dict_del s STEP_UP_AT"
    | e where "fr = Inl e" "s1 = dict_del s STEP_UP_PENDING"
    | path a prev where "fr = Inr (Some path)" "safe_path path"
        "s1 = dict_set (dict_del s STEP_UP_PENDING) STEP_UP_AT (PInt (late div us_second))"
        "Asked a (cm_sub ?c) prev \<in> set evs" "fresh_sign_in a prev ?c"
    by blast
  then show ?thesis
  proof cases
    case 1
    have p: "pending_ok E ?evs s1" "redirect_ok s1" using ok by (simp_all add: 1(2) session_ok_def pending_ok_def redirect_ok_def)
    obtain d where d: "res = Inr d" using True assms(4) cb f 1(1) by auto
    have s3: "session_ok E owner ?evs (sign_session ts s1)"
    proof (rule new_session_ok [OF _ _ _ _ _ p])
      show "owner r = cm_sub ?c \<or> token_left owner ?evs (owner r)" if "refresh_token_of (sign_session ts s1) = Some r" for r
        unfolding d by (rule sign_session_tokens [OF assms(1,2) _ that]) (simp add: 1(2))
    qed (simp_all add: sign_session_gets 1(2))
    then have "redirect_ok (sign_session ts s1)" by (simp add: session_ok_def)
    from redirect_target_safe [OF this] redirect_deleted [OF s3] show ?thesis
      using True assms(4) cb f 1(1) by auto
  next
    case 2
    have "session_ok E owner ?evs s1" by (rule session_ok_frame [OF ok]) (auto simp: 2(2) pending_ok_def)
    then show ?thesis using True assms(4) cb f 2(1) by auto
  next
    case 3
    have p: "pending_ok E ?evs s1" "redirect_ok s1" using ok by (simp_all add: 3(3) session_ok_def pending_ok_def redirect_ok_def)
    have conf: "confirmed ?evs (cm_sub ?c) late" using 3(4,5) by (auto simp: confirmed_def)
    have d: "res = Inr path" using True assms(4) cb f 3(1) by auto
    have "session_ok E owner ?evs (sign_session ts s1)"
    proof (rule new_session_ok [OF _ _ _ _ _ p])
      show "owner r = cm_sub ?c \<or> token_left owner ?evs (owner r)" if "refresh_token_of (sign_session ts s1) = Some r" for r
        unfolding d by (rule sign_session_tokens [OF assms(1,2) _ that]) (simp add: 3(3))
      show "dict_get s1 STEP_UP_AT = None \<or>
          (\<exists>t. dict_get s1 STEP_UP_AT = Some (PInt (t div us_second)) \<and> confirmed ?evs (cm_sub ?c) t)"
        using conf by (auto simp: 3(3))
    qed (simp_all add: sign_session_gets 3(3))
    then show ?thesis using True assms(4) cb f 3(1,2) by auto
  qed
qed

lemma logout_ok:
  assumes "logout E header form s G = (res, s', G')" "session_ok E owner evs s"
  shows "session_ok E owner evs s' \<and> sh_refresh G' = sh_refresh G"
  using assms session_ok_Nil by (auto simp: logout_def Let_def split: if_splits sum.splits option.splits oidc_fault.splits)

lemma issue_inv:
  assumes "site_inv E owner x" "session_ok E owner (si_events x @ evs) s'" "cache_ok E owner (sh_refresh G')"
  shows "site_inv E owner (issue s' G' evs x)"
  using assms by (auto simp: site_inv_def issue_def intro!: session_ok_more)

lemma site_step_inv:
  assumes "provider_ok E owner" "site_inv E owner x" "site_step E x y"
  shows "site_inv E owner y"
proof -
  have I: "session_ok E owner (si_events x) s" if "s \<in> si_issued x" for s using assms(2) that by (simp add: site_inv_def)
  have C: "cache_ok E owner (sh_refresh (si_shared x))" using assms(2) by (simp add: site_inv_def)
  from assms(3) show ?thesis
  proof cases
    case (requested s now mid late res s' G')
    then show ?thesis using get_current_user_ok [OF assms(1) requested(3) I C] by (auto intro!: issue_inv [OF assms(2)])
  next
    case (token_used s now mid tres s' G')
    then show ?thesis using user_access_token_ok [OF assms(1) token_used(3) I] C by (auto intro!: issue_inv [OF assms(2)])
  next
    case (page_shown s fresh tok s')
    then show ?thesis using csrf_ok [OF I page_shown(3)] C by (auto intro!: issue_inv [OF assms(2)])
  next
    case (login_begun s verifier nxt lres s')
    then show ?thesis using login_ok [OF I login_begun(3)] C by (auto intro!: issue_inv [OF assms(2)])
  next
    case (step_up_asked s now mid late c s1 G1 verifier nxt lres s' G')
    then show ?thesis
      using step_up_session_ok [OF assms(1) step_up_asked(3,4) I C] by (auto intro!: issue_inv [OF assms(2)])
  next
    case (signed_in s now code verifier ts w state late error lres s' G')
    then show ?thesis using callback_ok [OF assms(1) signed_in(3-5) I] C by (auto intro!: issue_inv [OF assms(2)])
  next
    case (logged_out s header form lres s' G')
    then show ?thesis using logout_ok [OF logged_out(3) I] C by (auto intro!: issue_inv [OF assms(2)])
  qed
qed

lemma site_init_inv: "site_init x \<Longrightarrow> site_inv E owner x"
  by (induction rule: site_init.induct) (simp add: site_inv_def session_ok_Nil cache_ok_def)

interpretation site: invariant_system "\<lambda>x. provider_ok E owner \<and> site_init x" "site_step E"
    "\<lambda>x. provider_ok E owner \<and> site_inv E owner x" for E owner
  by unfold_locales (auto intro: site_init_inv site_step_inv)

abbreviation reachable_site :: "'w access_env \<Rightarrow> (string \<Rightarrow> string) \<Rightarrow> 'w site \<Rightarrow> bool" where
  "reachable_site E owner \<equiv> reach (\<lambda>x. provider_ok E owner \<and> site_init x) (site_step E)"

section \<open>Properties\<close>

text \<open>A step-up cannot be borrowed: whichever of the issued cookies a browser presents, a session that counts as freshly
  confirmed belongs to an account that asked for a step-up and then signed in at the provider, less than five minutes
  ago, with a sign-in newer than the one it had when it asked. Neither another tab's login, a renewed session nor a
  replayed cookie can give it that; another account can, and only so: by signing in, without a refresh token of its own,
  to a session that holds one of this account.\<close>

theorem step_up_is_own_and_fresh:
  assumes "reachable_site E owner x" "s \<in> si_issued x" "stepped_up now s"
  shows "\<exists>c t. account s c \<and> vouched_for owner (si_events x) (cm_sub c) t
    \<and> 0 \<le> now - (t div us_second) * us_second \<and> now - (t div us_second) * us_second < 300 * us_second"
proof -
  have "site_inv E owner x" using site.reach_inv [OF assms(1)] by blast
  then have ok: "step_up_ok owner (si_events x) s" using assms(2) by (simp add: site_inv_def session_ok_def)
  from assms(3) have "dict_get s STEP_UP_AT \<noteq> None" by (auto simp: stepped_up_def get_or_def split: option.splits)
  with ok obtain t c where "dict_get s STEP_UP_AT = Some (PInt (t div us_second))" "account s c"
      "vouched_for owner (si_events x) (cm_sub c) t" by (auto simp: step_up_ok_def)
  with assms(3) show ?thesis
    by (intro exI [of _ c] exI [of _ t]) (auto simp: stepped_up_def get_or_def STEP_UP_TIME_def)
qed

text \<open>No open redirect: wherever a sign-in or a step-up sends the browser back to is a path of this site, with no second
  slash, backslash or character that a browser drops in front of it.\<close>

theorem sign_in_returns_here:
  assumes "reachable_site E owner x" "s \<in> si_issued x"
    and "callback E now late code state error s (si_shared x) = (Inr dest, s', G')"
  shows "safe_path dest"
proof -
  have inv: "provider_ok E owner" "site_inv E owner x" using site.reach_inv [OF assms(1)] by blast+
  from assms(3) obtain verifier ts w where v: "parse_state E state = Some verifier"
      "av_exchange E now code verifier (sh_world (si_shared x)) = (Inr ts, w)"
    by (auto simp: callback_def split: if_splits option.splits prod.splits sum.splits oidc_fault.splits)
  have "session_ok E owner (si_events x) s" using inv(2) assms(2) by (simp add: site_inv_def)
  from callback_ok [OF inv(1) v(2,1) assms(3) this] show ?thesis by simp
qed

text \<open>A concrete site: Ada signs in, asks for a step-up and signs in again.\<close>

definition ada :: "int \<Rightarrow> claims" where
  "ada at = \<lparr>cm_sub = ''u1'', cm_username = ''ada'', cm_roles = [''manager-admin''], cm_exp = 9000, cm_auth_time = at\<rparr>"

definition demo_access :: "unit access_env" where
  "demo_access = \<lparr>av_settings = \<lparr>ac_admin_role = ''manager-admin'', ac_user_role = ''user'', ac_identity_role = ''papaia-admin'',
       ac_session_secret = ''k''\<rparr>,
     av_sha256 = (\<lambda>s. s), av_hmac = (\<lambda>_ _. ''m''), av_challenge = (\<lambda>v. v), av_trunc = (\<lambda>_. Inl ValueError),
     av_bracketed = (\<lambda>_. True), av_renew = (\<lambda>_ _ w. (Inl (OIDCError ''gone''), w)),
     av_exchange = (\<lambda>_ code _ w. (Inr \<lparr>tk_claims = ada (if code = ''first'' then 100 else 200), tk_refresh = Some ''r'',
       tk_access = None, tk_access_expires_at = 0\<rparr>, w)),
     av_end_session = (\<lambda>_. Inr True), av_auth_url = (\<lambda>state _ _. state)\<rparr>"

definition demo_shared :: "unit shared" where
  "demo_shared = \<lparr>sh_refresh = \<lparr>rf_results = [], rf_locks = []\<rparr>, sh_tokens = \<lparr>tc_entries = [], tc_locks = []\<rparr>, sh_world = (),
     sh_audit = [], sh_presented = []\<rparr>"

definition demo_first :: session where
  "demo_first = [(''user'', PDict (claims_to_dict (ada 100))), (''oidc'', PDict [(''refresh_token'', PStr ''r'')])]"

definition demo_pending :: session where
  "demo_pending = demo_first @ [(STEP_UP_PENDING, pending_entry demo_access ''v2'' (ada 100) (150 * us_second) ''/config'')]"

definition demo_confirmed :: session where
  "demo_confirmed = [(''user'', PDict (claims_to_dict (ada 200))), (''oidc'', PDict [(''refresh_token'', PStr ''r'')]),
     (STEP_UP_AT, PInt 210)]"

lemma demo_access_steps:
  "callback demo_access (110 * us_second) (110 * us_second) ''first'' ''m.v1'' [] [] demo_shared = (Inr ''/'', demo_first, demo_shared)"
  "require_admin demo_access (150 * us_second) (150 * us_second) (150 * us_second) demo_first demo_shared
     = (Inr (ada 100), demo_first, demo_shared)"
  "step_up demo_access (150 * us_second) (150 * us_second) (150 * us_second) ''v2'' ''/config'' demo_first demo_shared
     = (Inr ''m.v2'', demo_pending, demo_shared)"
  "callback demo_access (210 * us_second) (210 * us_second) ''second'' ''m.v2'' [] demo_pending demo_shared
     = (Inr ''/config'', demo_confirmed, demo_shared)"
  "parse_state demo_access ''m.v1'' = Some ''v1''" "parse_state demo_access ''m.v2'' = Some ''v2''"
  by code_simp+

lemma demo_provider: "provider_ok demo_access (\<lambda>_. ''u1'')"
  by (simp add: provider_ok_def demo_access_def ada_def)

definition demo_site :: "unit site" where
  "demo_site = \<lparr>si_issued = {demo_confirmed, demo_pending, demo_first, []}, si_shared = demo_shared,
     si_events = [SignedIn (110 * us_second) (ada 100), Asked (150 * us_second) ''u1'' 100, SignedIn (210 * us_second) (ada 200)]\<rparr>"

lemma demo_site_reachable: "reachable_site demo_access (\<lambda>_. ''u1'') demo_site"
proof -
  let ?R = "reachable_site demo_access (\<lambda>_. ''u1'')"
  let ?x0 = "\<lparr>si_issued = {[]}, si_shared = demo_shared, si_events = []\<rparr>"
  let ?x1 = "issue demo_first demo_shared [SignedIn (110 * us_second) (ada 100)] ?x0"
  let ?x2 = "issue demo_pending demo_shared [Asked (150 * us_second) (cm_sub (ada 100)) (cm_auth_time (ada 100))] ?x1"
  let ?x3 = "issue demo_confirmed demo_shared [SignedIn (210 * us_second) (ada 200)] ?x2"
  have x: "av_exchange demo_access now ''first'' v () = (Inr \<lparr>tk_claims = ada 100, tk_refresh = Some ''r'', tk_access = None,
        tk_access_expires_at = 0\<rparr>, ())"
      "av_exchange demo_access now ''second'' v () = (Inr \<lparr>tk_claims = ada 200, tk_refresh = Some ''r'', tk_access = None,
        tk_access_expires_at = 0\<rparr>, ())" for now v by (simp_all add: demo_access_def)
  have "site_init ?x0" by (rule site_init.intros) (simp_all add: demo_shared_def)
  then have "?R ?x0" using demo_provider by (blast intro: reach.reach_init)
  moreover have "site_step demo_access ?x0 ?x1"
    using site_step.signed_in [where E = demo_access and x = ?x0 and s = "[]" and verifier = "''v1''" and state = "''m.v1''"
        and code = "''first''" and now = "110 * us_second" and late = "110 * us_second" and error = "[]" and G' = demo_shared
        and ts = "\<lparr>tk_claims = ada 100, tk_refresh = Some ''r'', tk_access = None, tk_access_expires_at = 0\<rparr>" and w = "()"]
      x(1) demo_access_steps(1,5) by (simp add: kept_token_def)
  ultimately have r1: "?R ?x1" by (rule reach.reach_step)
  moreover have "site_step demo_access ?x1 ?x2"
  proof (rule site_step.step_up_asked)
    show "demo_first \<in> si_issued ?x1" by (simp add: issue_def)
    show "require_admin demo_access (150 * us_second) (150 * us_second) (150 * us_second) demo_first (si_shared ?x1)
        = (Inr (ada 100), demo_first, demo_shared)" using demo_access_steps(2) by (simp add: issue_def)
    show "step_up demo_access (150 * us_second) (150 * us_second) (150 * us_second) ''v2'' ''/config'' demo_first (si_shared ?x1)
        = (Inr ''m.v2'', demo_pending, demo_shared)" using demo_access_steps(3) by (simp add: issue_def)
  qed
  ultimately have r2: "?R ?x2" by (rule reach.reach_step)
  moreover have "site_step demo_access ?x2 ?x3"
    using site_step.signed_in [where E = demo_access and x = ?x2 and s = demo_pending and verifier = "''v2''" and state = "''m.v2''"
        and code = "''second''" and now = "210 * us_second" and late = "210 * us_second" and error = "[]" and G' = demo_shared
        and ts = "\<lparr>tk_claims = ada 200, tk_refresh = Some ''r'', tk_access = None, tk_access_expires_at = 0\<rparr>" and w = "()"]
      x(2) demo_access_steps(4,6) by (simp add: issue_def kept_token_def)
  ultimately have "?R ?x3" by (rule reach.reach_step)
  moreover have "?x3 = demo_site" by (simp add: issue_def demo_site_def ada_def)
  ultimately show ?thesis by simp
qed

lemma demo_vouched: "vouched_for owner (si_events demo_site) sub t \<longleftrightarrow> confirmed (si_events demo_site) sub t"
  by (simp add: vouched_for_def token_left_def demo_site_def)

theorem step_up_is_own_and_fresh_witness:
  "\<exists>c t. account demo_confirmed c \<and> confirmed (si_events demo_site) (cm_sub c) t
    \<and> 300 * us_second - (t div us_second) * us_second < 300 * us_second"
proof -
  have "demo_confirmed \<in> si_issued demo_site" by (simp add: demo_site_def)
  moreover have "stepped_up (300 * us_second) demo_confirmed" by code_simp
  ultimately show ?thesis using step_up_is_own_and_fresh [OF demo_site_reachable] unfolding demo_vouched by blast
qed

theorem sign_in_returns_here_witness: "safe_path ''/config''"
proof (rule sign_in_returns_here [OF demo_site_reachable])
  show "demo_pending \<in> si_issued demo_site" by (simp add: demo_site_def)
  show "callback demo_access (210 * us_second) (210 * us_second) ''second'' ''m.v2'' [] demo_pending (si_shared demo_site)
      = (Inr ''/config'', demo_confirmed, demo_shared)" using demo_access_steps(4) by (simp add: demo_site_def)
qed

text \<open>A callback accepts exactly the states this manager made, and finds in them the verifier they were made for, as long
  as a MAC holds no full stop (it is hexadecimal).\<close>

theorem state_accepted_iff_made:
  assumes "\<forall>k v. CHR ''.'' \<notin> set (av_hmac E k v)"
  shows "parse_state E state = Some verifier \<longleftrightarrow> state = make_state E verifier"
proof -
  obtain a found b where p: "partition_char (CHR ''.'') state = (a, found, b)" by (metis prod_cases3)
  show ?thesis
  proof
    assume "parse_state E state = Some verifier"
    with p have f: "found" "a = av_hmac E (ac_session_secret (av_settings E)) verifier" "b = verifier"
      by (auto simp: parse_state_def split: if_splits)
    then show "state = make_state E verifier" using partition_char_found [of "CHR ''.''" state a b] p by (simp add: make_state_def)
  next
    assume "state = make_state E verifier"
    then have "partition_char (CHR ''.'') state = (av_hmac E (ac_session_secret (av_settings E)) verifier, True, verifier)"
      using assms by (simp add: make_state_def partition_char_append)
    then show "parse_state E state = Some verifier" by (simp add: parse_state_def)
  qed
qed

theorem state_accepted_iff_made_witness:
  "parse_state demo_access ''m.v1'' = Some ''v1'' \<and> ''m.v1'' = make_state demo_access ''v1''"
proof -
  have "\<forall>k v. CHR ''.'' \<notin> set (av_hmac demo_access k v)" by (simp add: demo_access_def)
  from state_accepted_iff_made [OF this, of "''m.v1''" "''v1''"] demo_access_steps(5) show ?thesis by simp
qed

section \<open>Sensitive actions\<close>

lemma refresh_session_account:
  assumes "refresh_session E now s G = (Inr (Some c), s', G')" "cache_ok E owner (sh_refresh G)"
  shows "account s' c"
proof -
  from assms(1) obtain token where t: "refresh_token_of s = Some token"
    by (cases "refresh_token_of s") (auto simp: refresh_session_def)
  let ?R = "prune_refresh_state now ((sh_refresh G)\<lparr>rf_locks := setdefault_lock (av_sha256 E token) (rf_locks (sh_refresh G))\<rparr>)"
  have R: "cache_ok E owner ?R" using prune_cache_ok [OF assms(2)] .
  show ?thesis
  proof (cases "dict_get (rf_results ?R) (av_sha256 E token)")
    case (Some hit)
    obtain ts p where hit: "hit = (ts, p)" by (cases hit)
    with R Some obtain c0 r where p: "p = (PDict (claims_to_dict c0), PDict [(''refresh_token'', PStr r)])"
      unfolding cache_ok_def payload_ok_def by blast
    have "c = c0" "s' = apply_session p s"
      using assms(1) t Some hit by (auto simp: refresh_session_def Let_def p claims_roundtrip)
    then show ?thesis by (simp add: account_def apply_session_def p)
  next
    case None
    obtain r w where rn: "av_renew E now token (sh_world G) = (r, w)" by fastforce
    with assms(1) t None obtain ts where "r = Inr ts"
      by (cases r) (auto simp: refresh_session_def Let_def split: oidc_fault.splits)
    with assms(1) t None rn show ?thesis
      by (auto simp: refresh_session_def Let_def account_def apply_session_def session_payload_def)
  qed
qed

lemma get_current_user_account:
  assumes "get_current_user E now mid late s G = (Inr c, s', G')" "session_ok E owner evs s" "cache_ok E owner (sh_refresh G)"
  shows "account s' c"
proof -
  from assms(1) obtain raw where raw: "dict_get s ''user'' = Some raw"
    by (cases "dict_get s ''user''") (auto simp: get_current_user_def)
  with assms(2) obtain c0 where c0: "raw = PDict (claims_to_dict c0)" by (auto simp: session_ok_def user_ok_def)
  show ?thesis
  proof (cases "cm_exp c0 * us_second - now \<ge> REFRESH_SKEW")
    case True
    with assms(1) raw c0 show ?thesis by (auto simp: get_current_user_def claims_roundtrip account_def)
  next
    case False
    obtain r s1 G1 where rf: "refresh_session E mid s G = (r, s1, G1)" by (metis prod_cases3)
    consider c' where "r = Inr (Some c')" "c' = c" "s' = s1" | "r = Inr None" "c = c0" "s' = s1"
      using assms(1) raw c0 False rf
      by (cases r; cases "projr r") (auto simp: get_current_user_def claims_roundtrip split: if_splits)
    then show ?thesis
    proof cases
      case 1
      with rf assms(3) show ?thesis by (blast intro: refresh_session_account)
    next
      case 2
      have "s1 = s" using rf 2(1)
        by (auto simp: refresh_session_def Let_def split: option.splits sum.splits oidc_fault.splits prod.splits)
      with 2 raw c0 show ?thesis by (simp add: account_def)
    qed
  qed
qed

text \<open>C3: The end-to-end promise of the routes that need a step-up: when one goes ahead, whatever cookie was presented, the
  session's account holds the admin role and that same account asked for a step-up and signed in again, freshly, less
  than five minutes before; except that, where a sign-in of another account came without a refresh token and so left this
  account's in the session, the one who confirmed may be that other account. The provider may give a refresh token or
  none at each sign-in; the ones it gives belong to the account that signed in.\<close>

theorem sensitive_action_confirmed:
  assumes "reachable_site E owner x" "s \<in> si_issued x"
    and "require_step_up E now mid late ts path s (si_shared x) = (Inr c, s', G')"
  shows "is_admin (av_settings E) c \<and> account s' c
    \<and> (\<exists>t. vouched_for owner (si_events x) (cm_sub c) t \<and> late - (t div us_second) * us_second < 300 * us_second)"
proof -
  have inv: "provider_ok E owner" "site_inv E owner x" using site.reach_inv [OF assms(1)] by blast+
  have ok: "session_ok E owner (si_events x) s" "cache_ok E owner (sh_refresh (si_shared x))"
    using inv(2) assms(2) by (simp_all add: site_inv_def)
  from assms(3) have ra: "require_admin E now mid late s (si_shared x) = (Inr c, s', G')" "stepped_up late s'"
    by (auto simp: require_step_up_def split: prod.splits sum.splits if_splits)
  from ra(1) have u: "get_current_user E now mid late s (si_shared x) = (Inr c, s', G')" "is_admin (av_settings E) c"
    by (auto simp: require_admin_def guarded_def require_def rbind_eq_Inr split: prod.splits if_splits)
  have acc: "account s' c" by (rule get_current_user_account [OF u(1) ok])
  have "step_up_ok owner (si_events x) s'" using get_current_user_ok [OF inv(1) u(1) ok] by (simp add: session_ok_def)
  moreover have "dict_get s' STEP_UP_AT \<noteq> None" using ra(2) by (auto simp: stepped_up_def get_or_def split: option.splits)
  ultimately obtain t c' where t: "dict_get s' STEP_UP_AT = Some (PInt (t div us_second))" "account s' c'"
      "vouched_for owner (si_events x) (cm_sub c') t" by (auto simp: step_up_ok_def)
  have "c' = c" by (rule account_unique [OF acc t(2)])
  with t(1,3) ra(2) u(2) acc show ?thesis by (auto simp: stepped_up_def get_or_def STEP_UP_TIME_def)
qed

theorem sensitive_action_confirmed_witness:
  "\<exists>t. confirmed (si_events demo_site) ''u1'' t \<and> 300 * us_second - (t div us_second) * us_second < 300 * us_second"
proof -
  have r: "require_step_up demo_access (300 * us_second) (300 * us_second) (300 * us_second) ''ts'' ''/p'' demo_confirmed
      (si_shared demo_site) = (Inr (ada 200), demo_confirmed, demo_shared)" by code_simp
  have "demo_confirmed \<in> si_issued demo_site" by (simp add: demo_site_def)
  from sensitive_action_confirmed [OF demo_site_reachable this r] show ?thesis by (simp add: ada_def demo_vouched)
qed

text \<open>The exception is real. Ada's browser holds a session with her refresh token; Bob signs in there twice, the second
  time as a step-up, and his sign-ins come without a refresh token. When his access token runs out the session is renewed
  with Ada's, and Ada, who never confirmed anything, passes the check of a sensitive action.\<close>

definition bob :: "int \<Rightarrow> claims" where
  "bob at = \<lparr>cm_sub = ''u2'', cm_username = ''bob'', cm_roles = [''manager-admin''], cm_exp = 260, cm_auth_time = at\<rparr>"

definition shared_browser :: "unit access_env" where
  "shared_browser = demo_access\<lparr>
     av_renew := (\<lambda>_ _ w. (Inr \<lparr>tk_claims = ada 100, tk_refresh = None, tk_access = None, tk_access_expires_at = 0\<rparr>, w)),
     av_exchange := (\<lambda>_ code _ w. (Inr \<lparr>tk_claims = if code = ''first'' then ada 100 else if code = ''bob'' then bob 120 else bob 200,
       tk_refresh = if code = ''first'' then Some ''r'' else None, tk_access = None, tk_access_expires_at = 0\<rparr>, w))\<rparr>"

definition shared_bob :: session where
  "shared_bob = (let (_, s, _) = callback shared_browser (120 * us_second) (120 * us_second) ''bob'' ''m.v2'' [] demo_first demo_shared;
       (_, s2, _) = step_up shared_browser (150 * us_second) (150 * us_second) (150 * us_second) ''v3'' ''/config'' s demo_shared;
       (_, s3, _) = callback shared_browser (210 * us_second) (210 * us_second) ''bob2'' ''m.v3'' [] s2 demo_shared
     in s3)"

lemma kept_token_borrows_step_up:
  "provider_ok shared_browser (\<lambda>_. ''u1'') \<and> dict_get shared_bob ''user'' = Some (PDict (claims_to_dict (bob 200)))
   \<and> (\<exists>s' G'. require_step_up shared_browser (280 * us_second) (280 * us_second) (280 * us_second) ''ts'' ''/p'' shared_bob demo_shared
        = (Inr (ada 100), s', G'))"
proof (intro conjI)
  show "provider_ok shared_browser (\<lambda>_. ''u1'')" by (simp add: provider_ok_def shared_browser_def demo_access_def ada_def)
  show "dict_get shared_bob ''user'' = Some (PDict (claims_to_dict (bob 200)))" by code_simp
  let ?r = "require_step_up shared_browser (280 * us_second) (280 * us_second) (280 * us_second) ''ts'' ''/p'' shared_bob demo_shared"
  have "fst ?r = Inr (ada 100)" by code_simp
  then show "\<exists>s' G'. ?r = (Inr (ada 100), s', G')" by (metis prod.collapse)
qed

section \<open>Renewal and sign-out\<close>

text \<open>A burst of requests with the same expired cookie costs one round trip: after a renewal that asked the provider,
  every session with the same refresh token is renewed from its answer for a minute, to the same claims and the same
  rotated token, and nothing is presented again.\<close>

theorem one_renewal_per_burst:
  assumes "refresh_session E now s G = (Inr (Some c), s1, G1)" "refresh_token_of s = Some token"
    and "sh_presented G1 = sh_presented G @ [token]"
    and "refresh_token_of s2 = Some token" "now' - now \<le> 60 * us_second" "dict_ok (rf_results (sh_refresh G))"
  shows "\<exists>s3 G2. refresh_session E now' s2 G1 = (Inr (Some c), s3, G2) \<and> sh_presented G2 = sh_presented G1
    \<and> dict_get s3 ''user'' = dict_get s1 ''user'' \<and> dict_get s3 ''oidc'' = dict_get s1 ''oidc''"
proof -
  let ?k = "av_sha256 E token"
  let ?R = "prune_refresh_state now ((sh_refresh G)\<lparr>rf_locks := setdefault_lock ?k (rf_locks (sh_refresh G))\<rparr>)"
  have none: "dict_get (rf_results ?R) ?k = None"
    using assms(1-3) by (cases "dict_get (rf_results ?R) ?k") (auto simp: refresh_session_def Let_def split: prod.splits sum.splits)
  obtain r w where rn: "av_renew E now token (sh_world G) = (r, w)" by fastforce
  with assms(1,2) none obtain ts where ts: "r = Inr ts"
    by (cases r) (auto simp: refresh_session_def Let_def split: oidc_fault.splits)
  let ?p = "session_payload ts token" and ?res = "dict_set (rf_results ?R) ?k (now, session_payload ts token)"
  have out: "c = tk_claims ts" "s1 = apply_session ?p s" "rf_results (sh_refresh G1) = ?res"
    using assms(1,2) none rn ts by (auto simp: refresh_session_def Let_def)
  let ?R2 = "prune_refresh_state now' ((sh_refresh G1)\<lparr>rf_locks := setdefault_lock ?k (rf_locks (sh_refresh G1))\<rparr>)"
  have ok: "dict_ok ?res" using assms(6) by (simp add: prune_refresh_state_def Let_def dict_ok_filter)
  have "(?k, now, ?p) \<in> set ?res" by (rule dict_get_in) simp
  then have "(?k, now, ?p) \<in> set (rf_results ?R2)"
    using assms(5) by (simp add: prune_refresh_state_def Let_def out(3) REFRESH_RESULT_TTL_def)
  moreover have "dict_ok (rf_results ?R2)"
    using ok by (simp add: prune_refresh_state_def Let_def out(3) dict_ok_filter)
  ultimately have hit: "dict_get (rf_results ?R2) ?k = Some (now, ?p)" by (simp add: dict_get_mem)
  have "claims_from_dict (av_trunc E) (fst ?p) = Inr c" by (simp add: session_payload_def out(1) claims_roundtrip)
  then show ?thesis
    using assms(4) hit by (simp add: refresh_session_def Let_def out(2) apply_session_def)
qed

text \<open>Signing out ends the manager's hold on the account: the session is gone, no cached entry keeps the access token that
  was obtained with its refresh token, under whichever key, and every other session's token stays.\<close>

theorem sign_out_forgets_token:
  assumes "logout E header form s G = (Inr dest, s', G')" "refresh_token_of s = Some token"
    and "dict_get (tc_entries (sh_tokens G)) (av_sha256 E token) = Some (at, access)" "dict_ok (tc_entries (sh_tokens G))"
  shows "s' = [] \<and> dest = ''/auth/login''
    \<and> (\<forall>k v. dict_get (tc_entries (sh_tokens G')) k = Some v \<longleftrightarrow>
         dict_get (tc_entries (sh_tokens G)) k = Some v \<and> snd v \<noteq> access)"
proof -
  let ?k = "av_sha256 E token" and ?T = "tc_entries (sh_tokens G)"
  have g: "s' = []" "dest = ''/auth/login''" "sh_tokens G' = forget E token (sh_tokens G)"
    using assms(1,2) by (auto simp: logout_def Let_def split: sum.splits oidc_fault.splits)
  have entries: "tc_entries (sh_tokens G') = filter (\<lambda>(k, _, a). a \<noteq> access) (dict_del ?T ?k)"
    by (simp add: g(3) forget_def Let_def assms(3))
  have ok: "dict_ok (tc_entries (sh_tokens G'))" unfolding entries using assms(4) by (simp add: dict_ok_filter)
  have "dict_get (tc_entries (sh_tokens G')) k = Some v \<longleftrightarrow> dict_get ?T k = Some v \<and> snd v \<noteq> access" for k v
  proof -
    have "dict_get (tc_entries (sh_tokens G')) k = Some v \<longleftrightarrow> (k, v) \<in> set (tc_entries (sh_tokens G'))"
      using ok dict_get_in dict_get_mem by metis
    also have "\<dots> \<longleftrightarrow> (k, v) \<in> set ?T \<and> k \<noteq> ?k \<and> snd v \<noteq> access" by (cases v) (auto simp: entries dict_del_def)
    also have "\<dots> \<longleftrightarrow> dict_get ?T k = Some v \<and> k \<noteq> ?k \<and> snd v \<noteq> access"
      using assms(4) dict_get_in dict_get_mem by metis
    also have "\<dots> \<longleftrightarrow> dict_get ?T k = Some v \<and> snd v \<noteq> access" using assms(3) by auto
    finally show ?thesis .
  qed
  with g show ?thesis by blast
qed

text \<open>A provider that cannot be reached takes a signed-in user down although the session is still valid: the exception of
  the HTTP client is no \<open>OIDCError\<close>, so within the last minute of the access token every request ends in a server error.\<close>

theorem unreachable_provider_breaks_requests:
  assumes "account s c" "cm_exp c * us_second - now < 60 * us_second" "refresh_token_of s = Some token"
    and "rf_results (sh_refresh G) = []" "pv_token (oi_provider C) = (\<lambda>_. NoAnswer why)"
  shows "\<exists>G'. get_current_user (client_env S C sha mac challenge bracketed) now mid late s G = (Inl (Crash Unreachable), s, G')"
proof -
  let ?E = "client_env S C sha mac challenge bracketed"
  have "av_renew ?E mid token (sh_world G) = (Inl Unreachable, sh_world G)"
    using assms(5) by (simp add: client_env_def refresh_tokens_def token_request_def)
  moreover have "rf_results (prune_refresh_state mid ((sh_refresh G)\<lparr>rf_locks := ls\<rparr>)) = []" for ls
    using assms(4) by (simp add: prune_refresh_state_def Let_def)
  ultimately have "\<exists>G'. refresh_session ?E mid s G = (Inl (Crash Unreachable), s, G')"
    using assms(3) by (simp add: refresh_session_def Let_def)
  then show ?thesis
    using assms(1,2) by (auto simp: get_current_user_def account_def claims_roundtrip REFRESH_SKEW_def)
qed

definition demo_renewing :: "unit access_env" where
  "demo_renewing = demo_access\<lparr>av_renew := (\<lambda>_ _ w. (Inr \<lparr>tk_claims = ada 100, tk_refresh = Some ''r2'',
     tk_access = Some (PStr ''at''), tk_access_expires_at = 0\<rparr>, w))\<rparr>"

theorem one_renewal_per_burst_witness:
  "\<exists>s3 G2. refresh_session demo_renewing (30 * us_second) demo_first
      (snd (snd (refresh_session demo_renewing 0 demo_first demo_shared))) = (Inr (Some (ada 100)), s3, G2)
    \<and> sh_presented G2 = [''r'']"
proof -
  let ?r = "refresh_session demo_renewing 0 demo_first demo_shared"
  have f: "fst ?r = Inr (Some (ada 100))" "sh_presented (snd (snd ?r)) = [''r'']" "refresh_token_of demo_first = Some ''r''"
    by code_simp+
  then have r: "?r = (Inr (Some (ada 100)), fst (snd ?r), snd (snd ?r))" by (metis prod.collapse)
  have "sh_presented (snd (snd ?r)) = sh_presented demo_shared @ [''r'']" using f(2) by (simp add: demo_shared_def)
  from one_renewal_per_burst [OF r f(3) this f(3), of "30 * us_second"] f(2) show ?thesis by (auto simp: demo_shared_def)
qed

definition demo_cached :: "unit shared" where
  "demo_cached = demo_shared\<lparr>sh_tokens := \<lparr>tc_entries = [(''r'', 5, PStr ''at''), (''old'', 5, PStr ''at''), (''q'', 5, PStr ''bt'')],
     tc_locks = []\<rparr>\<rparr>"

theorem sign_out_forgets_token_witness:
  "\<exists>G'. logout demo_access None ''c'' (dict_set demo_first CSRF_KEY (PStr ''c'')) demo_cached = (Inr ''/auth/login'', [], G')
    \<and> dict_get (tc_entries (sh_tokens G')) ''old'' = None \<and> dict_get (tc_entries (sh_tokens G')) ''q'' = Some (5, PStr ''bt'')"
proof -
  let ?s = "dict_set demo_first CSRF_KEY (PStr ''c'')"
  let ?l = "logout demo_access None ''c'' ?s demo_cached"
  have f: "fst ?l = Inr ''/auth/login''" "fst (snd ?l) = []" "refresh_token_of ?s = Some ''r''" by code_simp+
  then have l: "?l = (Inr ''/auth/login'', [], snd (snd ?l))" by (metis prod.collapse)
  have c: "dict_get (tc_entries (sh_tokens demo_cached)) (av_sha256 demo_access ''r'') = Some (5, PStr ''at'')"
    "dict_ok (tc_entries (sh_tokens demo_cached))"
    "dict_get (tc_entries (sh_tokens demo_cached)) ''q'' = Some (5, PStr ''bt'')"
    "dict_get (tc_entries (sh_tokens demo_cached)) ''old'' = Some (5, PStr ''at'')" by code_simp+
  from sign_out_forgets_token [OF l f(3) c(1,2)] have
    a: "\<forall>k v. dict_get (tc_entries (sh_tokens (snd (snd ?l)))) k = Some v \<longleftrightarrow>
      dict_get (tc_entries (sh_tokens demo_cached)) k = Some v \<and> snd v \<noteq> PStr ''at''" by blast
  have "dict_get (tc_entries (sh_tokens (snd (snd ?l)))) ''old'' = None" using a c(4) by (metis option.exhaust option.inject snd_conv)
  moreover have "dict_get (tc_entries (sh_tokens (snd (snd ?l)))) ''q'' = Some (5, PStr ''bt'')" using a c(3) by simp
  ultimately show ?thesis using l by metis
qed

definition silent_client :: oidc_client where
  "silent_client = demo_client\<lparr>oi_provider := (oi_provider demo_client)\<lparr>pv_token := (\<lambda>_. NoAnswer ''ConnectError'')\<rparr>\<rparr>"

definition empty_shared :: "jwks_cache shared" where
  "empty_shared = \<lparr>sh_refresh = \<lparr>rf_results = [], rf_locks = []\<rparr>, sh_tokens = \<lparr>tc_entries = [], tc_locks = []\<rparr>,
     sh_world = \<lparr>jw_keys = None, jw_fetched_at = 0\<rparr>, sh_audit = [], sh_presented = []\<rparr>"

theorem unreachable_provider_breaks_requests_witness:
  "\<not> is_expired (8990 * us_second) (ada 100) \<and>
   (\<exists>G'. get_current_user (client_env (av_settings demo_access) silent_client (\<lambda>s. s) (\<lambda>_ _. ''m'') (\<lambda>v. v) (\<lambda>_. True))
      (8990 * us_second) (8990 * us_second) (8990 * us_second) demo_first empty_shared = (Inl (Crash Unreachable), demo_first, G'))"
proof (intro conjI unreachable_provider_breaks_requests)
  show "\<not> is_expired (8990 * us_second) (ada 100)" by (simp add: is_expired_def ada_def)
  show "account demo_first (ada 100)" by (simp add: account_def demo_first_def dict_get_def)
  show "cm_exp (ada 100) * us_second - 8990 * us_second < 60 * us_second" by (simp add: ada_def)
  show "refresh_token_of demo_first = Some ''r''" by code_simp
  show "rf_results (sh_refresh empty_shared) = []" by (simp add: empty_shared_def)
  show "pv_token (oi_provider silent_client) = (\<lambda>_. NoAnswer ''ConnectError'')" by (simp add: silent_client_def)
qed

end
