(* ===== verification/Notify_Store.thy ===== *)
theory Notify_Store
  imports Notify_Model "HOL-Library.Countable"
begin

text \<open>
  The two files of the notifications (\<open>core/notifications/store.py\<close>): the configuration an administrator
  edits, guarded by a revision, and the state the background task remembers.

  Outside code is the record \<open>notify_lib\<close>: YAML and JSON (text to value and back), SHA-256, pydantic's
  reading of a decoded document into typed fields, and the bracketed-address check of the URL splitter.
  The checks the source adds to pydantic's are \<open>check_config\<close> of theory \<open>Notify_Model\<close>. What the source relies
  on is \<open>lib_ok\<close>: a dumped document is loaded as what was dumped, and typed values are accepted as
  they are. Whether a write to the disk succeeds is an argument of the operations that write.
\<close>

section \<open>Files and outside code\<close>

datatype file_bytes = NoFile | UnreadableFile | Bytes string

record notify_files =
  nf_config :: file_bytes
  nf_state :: file_bytes

record notify_lib =
  nl_yaml_load :: "string \<Rightarrow> pyval option"
  nl_yaml_dump :: "pyval \<Rightarrow> string"
  nl_json_load :: "string \<Rightarrow> pyval option"
  nl_json_dump :: "pyval \<Rightarrow> string"
  nl_sha256 :: "string \<Rightarrow> string"
  nl_parse :: "pyval \<Rightarrow> notifications_config option"
  nl_bracketed :: "string \<Rightarrow> bool"

definition revision :: "notify_lib \<Rightarrow> string \<Rightarrow> string" where
  "revision L raw = (if raw \<noteq> [] then nl_sha256 L raw else [])"

section \<open>The configuration\<close>

datatype config_fault = CannotBeRead | NotValid

record config_load =
  cl_config :: notifications_config
  cl_revision :: string
  cl_error :: "config_fault option"

definition load_config :: "notify_lib \<Rightarrow> notify_files \<Rightarrow> config_load" where
  "load_config L fs =
     (case nf_config fs of
        NoFile \<Rightarrow> \<lparr>cl_config = default_config, cl_revision = [], cl_error = None\<rparr>
      | UnreadableFile \<Rightarrow> \<lparr>cl_config = default_config, cl_revision = [], cl_error = Some CannotBeRead\<rparr>
      | Bytes raw \<Rightarrow>
          let invalid = \<lparr>cl_config = default_config, cl_revision = revision L raw, cl_error = Some NotValid\<rparr>
          in case nl_yaml_load L raw of
               None \<Rightarrow> invalid
             | Some v \<Rightarrow>
                 (case nl_parse L (if v = PNone then PDict [] else v) of
                    None \<Rightarrow> invalid
                  | Some c \<Rightarrow>
                      (case check_config (nl_bracketed L) c of
                         Inl _ \<Rightarrow> invalid
                       | Inr config \<Rightarrow> \<lparr>cl_config = config, cl_revision = revision L raw, cl_error = None\<rparr>)))"

definition kind_value :: "target_kind \<Rightarrow> string" where
  "kind_value k = (case k of EMAIL \<Rightarrow> ''email'' | WEBHOOK \<Rightarrow> ''webhook'')"

definition recipient_dump :: "recipient \<Rightarrow> pyval" where
  "recipient_dump r = PDict
     [(''id'', PStr (rc_id r)), (''name'', PStr (rc_name r)), (''kind'', PStr (kind_value (rc_kind r))),
      (''target'', PStr (rc_target r)), (''enabled'', PBool (rc_enabled r)),
      (''events'', PList (map (\<lambda>e. PStr (event_value e)) (rc_events r)))]"

definition config_dump :: "notifications_config \<Rightarrow> pyval" where
  "config_dump c = PDict
     [(''version'', PInt (nc_version c)),
      (''settings'', PDict
         [(''check_interval_minutes'', PInt (es_check_interval_minutes (nc_settings c))),
          (''debounce_minutes'', PInt (es_debounce_minutes (nc_settings c))),
          (''cert_lead_days'', PInt (es_cert_lead_days (nc_settings c)))]),
      (''recipients'', PList (map recipient_dump (nc_recipients c)))]"

definition config_header :: string where
  "config_header =
     ''# Written by the papAIa manager (Mail > Notifications).'' @ [LF] @
     ''# Webhook URLs authorise whoever posts to them: keep this file private (mode 0600).'' @ [LF]"

definition dump_config :: "notify_lib \<Rightarrow> notifications_config \<Rightarrow> string" where
  "dump_config L c = config_header @ nl_yaml_dump L (config_dump c)"

datatype store_error =
    ConfigUnreadable config_fault | StaleRevision | Refused notify_error | NoRecipient string | WriteFailed

definition mutate ::
  "notify_lib \<Rightarrow> bool \<Rightarrow> string \<Rightarrow> (notifications_config \<Rightarrow> store_error + notifications_config \<times> 'a) \<Rightarrow>
   notify_files \<Rightarrow> (store_error + config_load \<times> 'a) \<times> notify_files" where
  "mutate L writable asked_rev change fs =
     (let current = load_config L fs
      in case cl_error current of
           Some e \<Rightarrow> (Inl (ConfigUnreadable e), fs)
         | None \<Rightarrow>
             if cl_revision current \<noteq> asked_rev then (Inl StaleRevision, fs)
             else case change (cl_config current) of
                 Inl e \<Rightarrow> (Inl e, fs)
               | Inr (draft, x) \<Rightarrow>
                   (case check_config (nl_bracketed L) draft of
                      Inl e \<Rightarrow> (Inl (Refused e), fs)
                    | Inr checked \<Rightarrow>
                        if writable then
                          (let data = dump_config L checked
                           in (Inr (\<lparr>cl_config = checked, cl_revision = revision L data, cl_error = None\<rparr>, x),
                               fs\<lparr>nf_config := Bytes data\<rparr>))
                        else (Inl WriteFailed, fs)))"

definition refuse :: "notify_error + 'a \<Rightarrow> store_error + 'a" where
  "refuse m = (case m of Inl e \<Rightarrow> Inl (Refused e) | Inr a \<Rightarrow> Inr a)"

text \<open>\<open>uid\<close> is the generated id, \<open>uuid.uuid4().hex[:8]\<close>.\<close>

definition add_change ::
  "notify_lib \<Rightarrow> string \<Rightarrow> string \<Rightarrow> target_kind \<Rightarrow> string \<Rightarrow> bool \<Rightarrow> event list \<Rightarrow> notifications_config \<Rightarrow>
   store_error + notifications_config \<times> recipient" where
  "add_change L uid name kind target enabled events c =
     rbind (refuse (validate_name name)) (\<lambda>n.
     rbind (refuse (validate_target (nl_bracketed L) kind target)) (\<lambda>t.
     rbind (refuse (check_recipient (nl_bracketed L)
        \<lparr>rc_id = uid, rc_name = n, rc_kind = kind, rc_target = t, rc_enabled = enabled,
         rc_events = validate_events events\<rparr>)) (\<lambda>r.
       Inr (c\<lparr>nc_recipients := nc_recipients c @ [r]\<rparr>, r))))"

definition add_recipient ::
  "notify_lib \<Rightarrow> bool \<Rightarrow> string \<Rightarrow> string \<Rightarrow> string \<Rightarrow> target_kind \<Rightarrow> string \<Rightarrow> bool \<Rightarrow> event list \<Rightarrow>
   notify_files \<Rightarrow> (store_error + config_load \<times> recipient) \<times> notify_files" where
  "add_recipient L writable asked_rev uid name kind target enabled events =
     mutate L writable asked_rev (add_change L uid name kind target enabled events)"

definition set_recipient :: "string \<Rightarrow> recipient \<Rightarrow> recipient list \<Rightarrow> recipient list" where
  "set_recipient i r rs = map (\<lambda>s. if rc_id s = i then r else s) rs"

definition change_recipient ::
  "notify_lib \<Rightarrow> string option \<Rightarrow> string option \<Rightarrow> bool option \<Rightarrow> event list option \<Rightarrow> recipient \<Rightarrow>
   store_error + recipient" where
  "change_recipient L name target enabled events r =
     rbind (case name of None \<Rightarrow> Inr r | Some n \<Rightarrow>
              rbind (refuse (validate_name n)) (\<lambda>v. Inr (r\<lparr>rc_name := v\<rparr>))) (\<lambda>r.
     rbind (case target of None \<Rightarrow> Inr r | Some t \<Rightarrow>
              if t = [] then Inr r
              else rbind (refuse (validate_target (nl_bracketed L) (rc_kind r) t)) (\<lambda>v. Inr (r\<lparr>rc_target := v\<rparr>))) (\<lambda>r.
       let r = (case enabled of None \<Rightarrow> r | Some e \<Rightarrow> r\<lparr>rc_enabled := e\<rparr>);
           r = (case events of None \<Rightarrow> r | Some es \<Rightarrow> r\<lparr>rc_events := validate_events es\<rparr>)
       in Inr r))"

text \<open>
  The recipient found is changed in place. Ids are unique in a configuration that was loaded, so replacing
  every recipient of that id is replacing that one.
\<close>

definition update_change ::
  "notify_lib \<Rightarrow> string \<Rightarrow> string option \<Rightarrow> string option \<Rightarrow> bool option \<Rightarrow> event list option \<Rightarrow>
   notifications_config \<Rightarrow> store_error + notifications_config \<times> recipient" where
  "update_change L i name target enabled events c =
     (case find_recipient c i of
        None \<Rightarrow> Inl (NoRecipient i)
      | Some r \<Rightarrow> rbind (change_recipient L name target enabled events r) (\<lambda>r'.
          Inr (c\<lparr>nc_recipients := set_recipient i r' (nc_recipients c)\<rparr>, r')))"

definition update_recipient ::
  "notify_lib \<Rightarrow> bool \<Rightarrow> string \<Rightarrow> string \<Rightarrow> string option \<Rightarrow> string option \<Rightarrow> bool option \<Rightarrow> event list option \<Rightarrow>
   notify_files \<Rightarrow> (store_error + config_load \<times> recipient) \<times> notify_files" where
  "update_recipient L writable asked_rev i name target enabled events =
     mutate L writable asked_rev (update_change L i name target enabled events)"

definition delete_change ::
  "string \<Rightarrow> notifications_config \<Rightarrow> store_error + notifications_config \<times> string" where
  "delete_change i c =
     (case find_recipient c i of
        None \<Rightarrow> Inl (NoRecipient i)
      | Some r \<Rightarrow> Inr (c\<lparr>nc_recipients := remove1 r (nc_recipients c)\<rparr>, rc_name r))"

definition save_settings ::
  "notify_lib \<Rightarrow> bool \<Rightarrow> string \<Rightarrow> event_settings \<Rightarrow> notify_files \<Rightarrow>
   (store_error + config_load \<times> unit) \<times> notify_files" where
  "save_settings L writable asked_rev s = mutate L writable asked_rev (\<lambda>c. Inr (c\<lparr>nc_settings := s\<rparr>, ()))"

section \<open>The state\<close>

record seen =
  sn_active :: bool
  sn_marker :: string
  sn_last_sent :: string

record test_result =
  te_at :: string
  te_ok :: bool
  te_reason :: string

record notify_state =
  ns_seen :: "(string, seen) dict"
  ns_tests :: "(string, test_result) dict"
  ns_up :: "string set"

definition new_seen :: seen where
  "new_seen = \<lparr>sn_active = False, sn_marker = [], sn_last_sent = []\<rparr>"

definition empty_state :: notify_state where
  "empty_state = \<lparr>ns_seen = [], ns_tests = [], ns_up = {}\<rparr>"

text \<open>\<open>(raw.get(k) or {}).items()\<close>.\<close>

definition items_of :: "(string, pyval) dict \<Rightarrow> string \<Rightarrow> py_exn + (string, pyval) dict" where
  "items_of raw k = (case py_or (get_none raw k) (PDict []) of PDict d \<Rightarrow> Inr d | _ \<Rightarrow> Inl AttributeError)"

definition seen_from :: "(string, pyval) dict \<Rightarrow> seen" where
  "seen_from e =
     \<lparr>sn_active = truthy (get_or e ''active'' (PBool False)),
      sn_marker = py_str_of (get_or e ''marker'' (PStr [])),
      sn_last_sent = py_str_of (get_or e ''last_sent'' (PStr []))\<rparr>"

definition test_from :: "(string, pyval) dict \<Rightarrow> test_result" where
  "test_from e =
     \<lparr>te_at = py_str_of (get_none e ''at''), te_ok = truthy (get_or e ''ok'' (PBool False)),
      te_reason = py_str_of (get_or e ''reason'' (PStr []))\<rparr>"

definition add_seen :: "(string, seen) dict \<Rightarrow> string \<times> pyval \<Rightarrow> (string, seen) dict" where
  "add_seen d kv = (case snd kv of PDict e \<Rightarrow> dict_set d (fst kv) (seen_from e) | _ \<Rightarrow> d)"

definition add_test :: "(string, test_result) dict \<Rightarrow> string \<times> pyval \<Rightarrow> (string, test_result) dict" where
  "add_test d kv =
     (case snd kv of
        PDict e \<Rightarrow> if truthy (get_none e ''at'') then dict_set d (fst kv) (test_from e) else d
      | _ \<Rightarrow> d)"

definition up_entries :: "pyval \<Rightarrow> string set" where
  "up_entries v =
     (case v of PList xs \<Rightarrow> set (concat (map (\<lambda>x. case x of PStr s \<Rightarrow> if s \<noteq> [] then [s] else [] | _ \<Rightarrow> []) xs))
      | _ \<Rightarrow> {})"

definition state_from :: "pyval \<Rightarrow> py_exn + notify_state" where
  "state_from raw =
     (case raw of
        PDict d \<Rightarrow>
          rbind (items_of d ''seen'') (\<lambda>seen_items.
          rbind (items_of d ''tests'') (\<lambda>test_items.
            Inr \<lparr>ns_seen = foldl add_seen [] seen_items, ns_tests = foldl add_test [] test_items,
                 ns_up = up_entries (get_none d ''up'')\<rparr>))
      | _ \<Rightarrow> Inr empty_state)"

definition load_state :: "notify_lib \<Rightarrow> notify_files \<Rightarrow> notify_state" where
  "load_state L fs =
     (case nf_state fs of
        Bytes raw \<Rightarrow>
          (case nl_json_load L raw of
             None \<Rightarrow> empty_state
           | Some v \<Rightarrow> (case state_from v of Inl _ \<Rightarrow> empty_state | Inr st \<Rightarrow> st))
      | _ \<Rightarrow> empty_state)"

definition seen_dict :: "seen \<Rightarrow> pyval" where
  "seen_dict s = PDict [(''active'', PBool (sn_active s)), (''marker'', PStr (sn_marker s)),
     (''last_sent'', PStr (sn_last_sent s))]"

definition test_dict :: "test_result \<Rightarrow> pyval" where
  "test_dict t = PDict [(''at'', PStr (te_at t)), (''ok'', PBool (te_ok t)), (''reason'', PStr (te_reason t))]"

definition state_document :: "notify_state \<Rightarrow> pyval" where
  "state_document st = PDict
     [(''version'', PInt 1),
      (''seen'', PDict (map (\<lambda>(k, v). (k, seen_dict v)) (ns_seen st))),
      (''tests'', PDict (map (\<lambda>(k, v). (k, test_dict v)) (ns_tests st))),
      (''up'', PList (map PStr (sorted_list_of_set (ns_up st))))]"

text \<open>An \<open>OSError\<close> of the write is logged and the result returned all the same.\<close>

definition update_state ::
  "notify_lib \<Rightarrow> bool \<Rightarrow> (notify_state \<Rightarrow> py_exn + 'a \<times> notify_state) \<Rightarrow> notify_files \<Rightarrow>
   (py_exn + 'a) \<times> notify_files" where
  "update_state L writable change fs =
     (case change (load_state L fs) of
        Inl e \<Rightarrow> (Inl e, fs)
      | Inr (x, st) \<Rightarrow>
          (Inr x, if writable then fs\<lparr>nf_state := Bytes (nl_json_dump L (state_document st))\<rparr> else fs))"

definition forget_recipient :: "notify_lib \<Rightarrow> bool \<Rightarrow> string \<Rightarrow> notify_files \<Rightarrow> notify_files" where
  "forget_recipient L writable i fs =
     (if dict_get (ns_tests (load_state L fs)) i \<noteq> None
      then snd (update_state L writable (\<lambda>st. Inr ((), st\<lparr>ns_tests := dict_del (ns_tests st) i\<rparr>)) fs)
      else fs)"

definition delete_recipient ::
  "notify_lib \<Rightarrow> bool \<Rightarrow> bool \<Rightarrow> string \<Rightarrow> string \<Rightarrow> notify_files \<Rightarrow>
   (store_error + config_load \<times> string) \<times> notify_files" where
  "delete_recipient L writable state_writable asked_rev i fs =
     (case mutate L writable asked_rev (delete_change i) fs of
        (Inl e, fs') \<Rightarrow> (Inl e, fs')
      | (Inr x, fs') \<Rightarrow> (Inr x, forget_recipient L state_writable i fs'))"

section \<open>The configuration file along every sequence of edits\<close>

definition lib_ok :: "notify_lib \<Rightarrow> bool" where
  "lib_ok L \<longleftrightarrow>
     (\<forall>c. nl_yaml_load L (dump_config L c) = Some (config_dump c) \<and> nl_parse L (config_dump c) = Some c)
     \<and> (\<forall>st. nl_json_load L (nl_json_dump L (state_document st)) = Some (state_document st))"

lemma config_dump_not_None [simp]: "config_dump c \<noteq> PNone"
  by (simp add: config_dump_def)

lemma dump_config_not_Nil [simp]: "dump_config L c \<noteq> []"
  by (simp add: dump_config_def config_header_def)

lemma load_dumped:
  assumes "lib_ok L" "nf_config fs = Bytes (dump_config L c)" "check_config (nl_bracketed L) c = Inr c"
  shows "load_config L fs = \<lparr>cl_config = c, cl_revision = revision L (dump_config L c), cl_error = None\<rparr>"
  using assms by (simp add: load_config_def lib_ok_def Let_def)

text \<open>The three ways a change ends: refused with the files as they were, or stored and loadable.\<close>

lemma mutate_error: "mutate L w rv ch fs = (Inl e, fs') \<Longrightarrow> fs' = fs"
  by (auto simp: mutate_def Let_def split: option.splits if_splits sum.splits)

lemma mutate_stored:
  assumes "mutate L w rv ch fs = (Inr (ld, x), fs')"
  obtains draft where "ch (cl_config (load_config L fs)) = Inr (draft, x)"
    "check_config (nl_bracketed L) draft = Inr (cl_config ld)" "cl_revision (load_config L fs) = rv"
    "cl_error (load_config L fs) = None"
    "fs' = fs\<lparr>nf_config := Bytes (dump_config L (cl_config ld))\<rparr>"
    "ld = \<lparr>cl_config = cl_config ld, cl_revision = revision L (dump_config L (cl_config ld)), cl_error = None\<rparr>"
  using assms by (auto simp: mutate_def Let_def split: option.splits if_splits sum.splits)

lemma mutate_load:
  assumes "lib_ok L" "mutate L w rv ch fs = (Inr (ld, x), fs')"
  shows "load_config L fs' = ld"
proof -
  from assms(2) obtain draft where d: "check_config (nl_bracketed L) draft = Inr (cl_config ld)"
      "fs' = fs\<lparr>nf_config := Bytes (dump_config L (cl_config ld))\<rparr>"
      "ld = \<lparr>cl_config = cl_config ld, cl_revision = revision L (dump_config L (cl_config ld)), cl_error = None\<rparr>"
    by (rule mutate_stored)
  have "nf_config fs' = Bytes (dump_config L (cl_config ld))" using d(2) by simp
  from load_dumped [OF assms(1) this check_config_again [OF d(1)]] d(3) show ?thesis by simp
qed

definition file_good :: "notify_lib \<Rightarrow> notify_files \<Rightarrow> bool" where
  "file_good L fs \<longleftrightarrow> cl_error (load_config L fs) = None \<and> config_ok (cl_config (load_config L fs))"

lemma mutate_good:
  assumes "lib_ok L" "file_good L fs" "mutate L w rv ch fs = (res, fs')"
  shows "file_good L fs'"
proof (cases res)
  case (Inl e)
  with assms mutate_error show ?thesis by (metis (no_types))
next
  case (Inr ldx)
  then obtain ld x where r: "mutate L w rv ch fs = (Inr (ld, x), fs')" using assms(3) by (cases ldx) auto
  from r obtain draft where "check_config (nl_bracketed L) draft = Inr (cl_config ld)"
      "ld = \<lparr>cl_config = cl_config ld, cl_revision = revision L (dump_config L (cl_config ld)), cl_error = None\<rparr>"
    by (rule mutate_stored)
  then have "config_ok (cl_config ld)" "cl_error ld = None"
    by (blast dest: check_config_ok, metis config_load.select_convs(3))
  then show ?thesis by (simp add: file_good_def mutate_load [OF assms(1) r])
qed

lemma load_config_state_irrelevant [simp]: "load_config L (fs\<lparr>nf_state := f\<rparr>) = load_config L fs"
  by (simp add: load_config_def)

lemma update_state_config: "load_config L (snd (update_state L w ch fs)) = load_config L fs"
  by (simp add: update_state_def split: sum.splits prod.splits)

lemma forget_recipient_config: "load_config L (forget_recipient L w i fs) = load_config L fs"
  by (simp add: forget_recipient_def update_state_config)

text \<open>
  Everything that writes to the two files: the routes of the page and the background task, whose answer
  is left out of its step.
\<close>

inductive store_step :: "notify_lib \<Rightarrow> notify_files \<Rightarrow> notify_files \<Rightarrow> bool" for L where
  step_add: "add_recipient L w rv uid name kind target enabled events fs = (res, fs') \<Longrightarrow> store_step L fs fs'"
| step_update: "update_recipient L w rv i name target enabled events fs = (res, fs') \<Longrightarrow> store_step L fs fs'"
| step_delete: "delete_recipient L w w' rv i fs = (res, fs') \<Longrightarrow> store_step L fs fs'"
| step_settings: "save_settings L w rv s fs = (res, fs') \<Longrightarrow> store_step L fs fs'"
| step_state: "update_state L w (ch :: notify_state \<Rightarrow> py_exn + unit \<times> notify_state) fs = (res, fs') \<Longrightarrow> store_step L fs fs'"

lemma delete_recipient_good:
  assumes "lib_ok L" "file_good L fs" "delete_recipient L w w' rv i fs = (res, fs')"
  shows "file_good L fs'"
proof -
  obtain r g where m: "mutate L w rv (delete_change i) fs = (r, g)" by fastforce
  with assms have "file_good L g" by (blast intro: mutate_good)
  with m assms(3) show ?thesis
    by (auto simp: delete_recipient_def file_good_def forget_recipient_config split: sum.splits)
qed

lemma store_step_good:
  assumes "lib_ok L" "file_good L fs" "store_step L fs fs'"
  shows "file_good L fs'"
  using assms(3)
proof cases
  case (step_delete w w' rv i res)
  with assms show ?thesis by (blast intro: delete_recipient_good)
next
  case (step_state w ch res)
  then show ?thesis using assms(2) update_state_config [of L w ch fs] by (simp add: file_good_def)
qed (use assms in \<open>auto simp: add_recipient_def update_recipient_def save_settings_def intro: mutate_good\<close>)

interpretation nstore: invariant_system "\<lambda>fs. lib_ok L \<and> nf_config fs = NoFile" "store_step L"
    "\<lambda>fs. lib_ok L \<and> file_good L fs" for L
proof
  show "lib_ok L \<and> file_good L s" if "lib_ok L \<and> nf_config s = NoFile" for s
    using that by (simp add: file_good_def load_config_def default_config_def config_ok_def)
  show "lib_ok L \<and> file_good L t" if "lib_ok L \<and> file_good L s" "store_step L s t" for s t
    using that store_step_good by blast
qed

section \<open>A change touches what it names\<close>

lemma loaded_checked:
  "cl_error (load_config L fs) = None \<Longrightarrow>
     check_config (nl_bracketed L) (cl_config (load_config L fs)) = Inr (cl_config (load_config L fs))"
  by (auto simp: load_config_def Let_def default_config_def default_event_settings_def
      check_event_settings_def check_config_def [of _ "\<lparr>nc_version = _, nc_settings = _, nc_recipients = _\<rparr>"]
      dest: check_config_again split: file_bytes.splits option.splits sum.splits)

lemma check_config_parts:
  assumes "check_config b c = Inr c'"
  shows "nc_settings c' = nc_settings c" and "rmap (check_recipient b) (nc_recipients c) = Inr (nc_recipients c')"
proof -
  from assms obtain s rs where "check_event_settings (nc_settings c) = Inr s"
      "rmap (check_recipient b) (nc_recipients c) = Inr rs" "c' = c\<lparr>nc_settings := s, nc_recipients := rs\<rparr>"
    by (auto simp: check_config_def rbind_eq_Inr split: if_splits)
  then show "nc_settings c' = nc_settings c" "rmap (check_recipient b) (nc_recipients c) = Inr (nc_recipients c')"
    by (simp_all add: check_event_settings_same)
qed

lemma checked_recipients:
  assumes "check_config b c = Inr c" "r \<in> set (nc_recipients c)"
  shows "check_recipient b r = Inr r"
  using rmap_mem [OF check_config_parts(2) [OF assms(1)] assms(2)] check_recipient_again(1) by blast

lemma find_recipient_id: "find_recipient c i = Some r \<Longrightarrow> rc_id r = i \<and> r \<in> set (nc_recipients c)"
  by (auto simp: find_recipient_def find_Some_iff)

lemma check_recipient_fields:
  assumes "check_recipient b r = Inr r"
  shows "match_dollar recipient_id_shape (rc_id r) \<and> validate_name (rc_name r) = Inr (rc_name r)
    \<and> validate_target b (rc_kind r) (rc_target r) = Inr (rc_target r) \<and> validate_events (rc_events r) = rc_events r"
proof -
  from assms obtain n t where nt: "match_dollar recipient_id_shape (rc_id r)" "validate_name (rc_name r) = Inr n"
      "validate_target b (rc_kind r) (rc_target r) = Inr t"
      and r: "r\<lparr>rc_name := n, rc_target := t, rc_events := validate_events (rc_events r)\<rparr> = r"
    by (auto simp: check_recipient_def rbind_eq_Inr split: if_splits)
  have "rc_name r = n" "rc_target r = t" "rc_events r = validate_events (rc_events r)"
    using r by (cases r, simp)+
  with nt show ?thesis by simp
qed

lemma check_recipient_intro:
  assumes "match_dollar recipient_id_shape (rc_id r)" "validate_name (rc_name r) = Inr (rc_name r)"
    "validate_target b (rc_kind r) (rc_target r) = Inr (rc_target r)" "validate_events (rc_events r) = rc_events r"
  shows "check_recipient b r = Inr r"
  using assms by (cases r) (simp add: check_recipient_def)

lemma change_recipient_ok:
  assumes "change_recipient L name target enabled events r = Inr r'"
    and "check_recipient (nl_bracketed L) r = Inr r"
  shows "check_recipient (nl_bracketed L) r' = Inr r' \<and> rc_id r' = rc_id r \<and> rc_kind r' = rc_kind r
    \<and> (target \<in> {None, Some []} \<longrightarrow> rc_target r' = rc_target r)"
proof -
  have fixed: "match_dollar recipient_id_shape (rc_id r)" "validate_name (rc_name r) = Inr (rc_name r)"
      "validate_target (nl_bracketed L) (rc_kind r) (rc_target r) = Inr (rc_target r)"
      "validate_events (rc_events r) = rc_events r"
    using check_recipient_fields [OF assms(2)] by auto
  from assms(1) obtain r1 r2 where r1: "(case name of None \<Rightarrow> Inr r | Some n \<Rightarrow>
        rbind (refuse (validate_name n)) (\<lambda>v. Inr (r\<lparr>rc_name := v\<rparr>))) = Inr r1"
      and r2: "(case target of None \<Rightarrow> Inr r1 | Some t \<Rightarrow> if t = [] then Inr r1
        else rbind (refuse (validate_target (nl_bracketed L) (rc_kind r1) t)) (\<lambda>v. Inr (r1\<lparr>rc_target := v\<rparr>))) = Inr r2"
      and r': "r' = (let r = (case enabled of None \<Rightarrow> r2 | Some e \<Rightarrow> r2\<lparr>rc_enabled := e\<rparr>)
        in case events of None \<Rightarrow> r | Some es \<Rightarrow> r\<lparr>rc_events := validate_events es\<rparr>)"
    unfolding change_recipient_def by (auto simp: rbind_eq_Inr Let_def)
  have 1: "validate_name (rc_name r1) = Inr (rc_name r1)" "rc_id r1 = rc_id r" "rc_kind r1 = rc_kind r"
      "rc_target r1 = rc_target r" "rc_events r1 = rc_events r"
    using r1 fixed(2) by (auto simp: rbind_eq_Inr refuse_def dest: validate_name_again split: option.splits sum.splits)
  have 2: "validate_target (nl_bracketed L) (rc_kind r) (rc_target r2) = Inr (rc_target r2)"
      "rc_name r2 = rc_name r1" "rc_id r2 = rc_id r" "rc_kind r2 = rc_kind r" "rc_events r2 = rc_events r"
      "target \<in> {None, Some []} \<longrightarrow> rc_target r2 = rc_target r"
    using r2 fixed(3) 1
    by (auto simp: rbind_eq_Inr refuse_def dest: validate_target_again split: option.splits sum.splits if_splits)
  have "rc_name r' = rc_name r2" "rc_id r' = rc_id r" "rc_kind r' = rc_kind r" "rc_target r' = rc_target r2"
      "validate_events (rc_events r') = rc_events r'"
    using r' 2 fixed(4) by (auto simp: Let_def split: option.splits)
  then show ?thesis using fixed(1) 1 2 check_recipient_intro by auto
qed

lemma rmap_fixed: "(\<And>x. x \<in> set xs \<Longrightarrow> f x = Inr x) \<Longrightarrow> rmap f xs = Inr xs"
  by (induction xs) auto

section \<open>The state file\<close>

definition state_ok :: "notify_state \<Rightarrow> bool" where
  "state_ok st \<longleftrightarrow> dict_ok (ns_seen st) \<and> dict_ok (ns_tests st)
     \<and> list_all (\<lambda>kv. te_at (snd kv) \<noteq> []) (ns_tests st) \<and> finite (ns_up st) \<and> [] \<notin> ns_up st"

lemma add_seen_dumped: "add_seen d (k, seen_dict v) = dict_set d k v"
  by (cases v) (simp add: add_seen_def seen_dict_def seen_from_def get_or_def dict_get_def py_str_of_def)

lemma add_test_dumped: "te_at v \<noteq> [] \<Longrightarrow> add_test d (k, test_dict v) = dict_set d k v"
  by (cases v) (simp add: add_test_def test_dict_def test_from_def get_or_def dict_get_def py_str_of_def)

lemma foldl_dict_set: "foldl (\<lambda>d kv. dict_set d (fst kv) (snd kv)) [] kvs = dict_of kvs"
  by (simp add: dict_of_def)

lemma fold_seen_dumped: "foldl add_seen d (map (\<lambda>(k, v). (k, seen_dict v)) kvs) = foldl (\<lambda>d kv. dict_set d (fst kv) (snd kv)) d kvs"
  by (induction kvs arbitrary: d) (auto simp: add_seen_dumped)

lemma fold_test_dumped:
  "list_all (\<lambda>kv. te_at (snd kv) \<noteq> []) kvs \<Longrightarrow>
   foldl add_test d (map (\<lambda>(k, v). (k, test_dict v)) kvs) = foldl (\<lambda>d kv. dict_set d (fst kv) (snd kv)) d kvs"
  by (induction kvs arbitrary: d) (auto simp: add_test_dumped)

lemma up_entries_dumped: "[] \<notin> set xs \<Longrightarrow> up_entries (PList (map PStr xs)) = set xs"
  by (auto simp: up_entries_def comp_def)

lemma state_from_document:
  assumes "state_ok st"
  shows "state_from (state_document st) = Inr st"
proof -
  from assms have st: "dict_ok (ns_seen st)" "dict_ok (ns_tests st)"
      "list_all (\<lambda>kv. te_at (snd kv) \<noteq> []) (ns_tests st)" "finite (ns_up st)" "[] \<notin> ns_up st"
    by (simp_all add: state_ok_def)
  have "up_entries (PList (map PStr (sorted_list_of_set (ns_up st)))) = ns_up st"
    using st(4,5) by (subst up_entries_dumped) auto
  moreover have "foldl add_seen [] (map (\<lambda>(k, v). (k, seen_dict v)) (ns_seen st)) = ns_seen st"
    using st(1) by (simp only: fold_seen_dumped foldl_dict_set dict_of_distinct dict_ok_def)
  moreover have "foldl add_test [] (map (\<lambda>(k, v). (k, test_dict v)) (ns_tests st)) = ns_tests st"
    using st(2,3) by (simp only: fold_test_dumped foldl_dict_set dict_of_distinct dict_ok_def)
  ultimately show ?thesis
    by (cases st) (auto simp: state_document_def state_from_def items_of_def get_or_def dict_get_def py_or_def)
qed

section \<open>Libraries that keep the promises\<close>

text \<open>
  One set of functions for the outside code that satisfies \<open>lib_ok\<close>: documents are written as a number, and the
  reader of a configuration takes exactly the shape a dump has. It shows that the promises can be kept together.
\<close>

instance pyval :: countable
  by countable_datatype

definition text_of_doc :: "pyval \<Rightarrow> string" where
  "text_of_doc v = str_of_nat (to_nat v)"

definition doc_of_text :: "string \<Rightarrow> pyval option" where
  "doc_of_text s = (if str_isdigit s then Some (from_nat (int_of_digits s)) else None)"

definition all_events :: "event list" where
  "all_events = map ei_event CATALOGUE"

definition read_event :: "pyval \<Rightarrow> event option" where
  "read_event v = List.find (\<lambda>e. v = PStr (event_value e)) all_events"

definition read_events :: "pyval list \<Rightarrow> event list" where
  "read_events vs = map the (filter (\<lambda>e. e \<noteq> None) (map read_event vs))"

definition as_dict :: "pyval \<Rightarrow> (string, pyval) dict" where
  "as_dict v = (case v of PDict d \<Rightarrow> d | _ \<Rightarrow> [])"

definition as_list :: "pyval \<Rightarrow> pyval list" where
  "as_list v = (case v of PList xs \<Rightarrow> xs | _ \<Rightarrow> [])"

definition as_number :: "pyval \<Rightarrow> int" where
  "as_number v = (case v of PInt i \<Rightarrow> i | _ \<Rightarrow> 0)"

definition read_recipient :: "pyval \<Rightarrow> recipient" where
  "read_recipient v = (let d = as_dict v in
     \<lparr>rc_id = py_str_of (get_none d ''id''), rc_name = py_str_of (get_none d ''name''),
      rc_kind = (if get_none d ''kind'' = PStr ''email'' then EMAIL else WEBHOOK),
      rc_target = py_str_of (get_none d ''target''), rc_enabled = truthy (get_none d ''enabled''),
      rc_events = read_events (as_list (get_none d ''events''))\<rparr>)"

definition read_settings :: "(string, pyval) dict \<Rightarrow> event_settings" where
  "read_settings d =
     \<lparr>es_check_interval_minutes = as_number (get_none d ''check_interval_minutes''),
      es_debounce_minutes = as_number (get_none d ''debounce_minutes''),
      es_cert_lead_days = as_number (get_none d ''cert_lead_days'')\<rparr>"

definition read_config :: "pyval \<Rightarrow> notifications_config option" where
  "read_config v =
     (case v of
        PDict d \<Rightarrow> Some \<lparr>nc_version = as_number (get_none d ''version''),
          nc_settings = read_settings (as_dict (get_none d ''settings'')),
          nc_recipients = map read_recipient (as_list (get_none d ''recipients''))\<rparr>
      | _ \<Rightarrow> None)"

definition plain_lib :: notify_lib where
  "plain_lib =
     \<lparr>nl_yaml_load = (\<lambda>t. doc_of_text (drop (length config_header) t)), nl_yaml_dump = text_of_doc,
      nl_json_load = doc_of_text, nl_json_dump = text_of_doc, nl_sha256 = (\<lambda>t. CHR ''h'' # t),
      nl_parse = read_config, nl_bracketed = (\<lambda>_. False)\<rparr>"

lemma doc_of_text_of_doc [simp]: "doc_of_text (text_of_doc v) = Some v"
  by (simp add: doc_of_text_def text_of_doc_def)

lemma read_event_value [simp]: "read_event (PStr (event_value e)) = Some e"
  by (cases e) (simp_all add: read_event_def all_events_def CATALOGUE_def)

lemma read_events_dump [simp]: "read_events (map (\<lambda>e. PStr (event_value e)) es) = es"
  by (induction es) (simp_all add: read_events_def)

lemmas doc_access = as_dict_def as_list_def as_number_def get_or_def dict_get_def py_str_of_def

lemma read_recipient_dump [simp]: "read_recipient (recipient_dump r) = r"
  by (cases r; cases "rc_kind r") (simp_all add: recipient_dump_def read_recipient_def kind_value_def doc_access)

lemma read_config_dump [simp]: "read_config (config_dump c) = Some c"
proof -
  obtain v s rs where c: "c = \<lparr>nc_version = v, nc_settings = s, nc_recipients = rs\<rparr>" by (cases c)
  have "map read_recipient (map recipient_dump rs) = rs" by (induction rs) simp_all
  then show ?thesis
    by (cases s) (simp add: c config_dump_def read_config_def read_settings_def doc_access del: map_map)
qed

lemma plain_lib_ok: "lib_ok plain_lib"
  by (simp add: lib_ok_def plain_lib_def dump_config_def)

section \<open>Properties\<close>

definition no_files :: notify_files where
  "no_files = \<lparr>nf_config = NoFile, nf_state = NoFile\<rparr>"

definition demo_recipient :: recipient where
  "demo_recipient = \<lparr>rc_id = ''ab12cd34'', rc_name = ''Ops team'', rc_kind = EMAIL, rc_target = ''ops@example.org'',
     rc_enabled = True, rc_events = [JOB_FAILED, CERT_EXPIRING]\<rparr>"

definition demo_config :: notifications_config where
  "demo_config = default_config\<lparr>nc_recipients := [demo_recipient]\<rparr>"

definition demo_load :: config_load where
  "demo_load = \<lparr>cl_config = demo_config, cl_revision = revision plain_lib (dump_config plain_lib demo_config), cl_error = None\<rparr>"

definition demo_files :: notify_files where
  "demo_files = \<lparr>nf_config = Bytes (dump_config plain_lib demo_config), nf_state = NoFile\<rparr>"

lemma demo_add_change:
  "add_change plain_lib ''ab12cd34'' '' Ops   team'' EMAIL '' ops@example.org'' True [CERT_EXPIRING, JOB_FAILED] default_config
     = Inr (demo_config, demo_recipient)"
  by code_simp

lemma demo_check: "check_config (nl_bracketed plain_lib) demo_config = Inr demo_config"
  by code_simp

lemma demo_add:
  "add_recipient plain_lib True [] ''ab12cd34'' '' Ops   team'' EMAIL '' ops@example.org'' True [CERT_EXPIRING, JOB_FAILED] no_files
     = (Inr (demo_load, demo_recipient), demo_files)"
  unfolding add_recipient_def mutate_def no_files_def
  by (simp add: load_config_def demo_add_change demo_check demo_load_def demo_files_def Let_def)

lemma demo_load_config: "load_config plain_lib demo_files = demo_load"
  using mutate_load [OF plain_lib_ok demo_add [unfolded add_recipient_def]] .

text \<open>C12: Whatever the page and the background task do, in any order and with writes that fail, the stored configuration
  stays one the manager accepts: it loads without an error, has at most 50 recipients, no two share an id or a name
  (whatever the case of its letters), and each lists its events once, in the order of the catalogue.\<close>

theorem notify_config_stays_valid:
  assumes "lib_ok L" "nf_config fs0 = NoFile" "(store_step L)\<^sup>*\<^sup>* fs0 fs"
  shows "cl_error (load_config L fs) = None \<and> config_ok (cl_config (load_config L fs))"
proof -
  have "lib_ok L \<and> file_good L fs0" using nstore.inv_init [of L fs0] assms(1,2) by blast
  from nstore.steps_inv [OF this assms(3)] show ?thesis by (simp add: file_good_def)
qed

theorem notify_config_stays_valid_witness:
  "(store_step plain_lib)\<^sup>*\<^sup>* no_files demo_files \<and> config_ok (cl_config (load_config plain_lib demo_files))"
proof -
  have "store_step plain_lib no_files demo_files" by (rule step_add) (rule demo_add)
  then have r: "(store_step plain_lib)\<^sup>*\<^sup>* no_files demo_files" by simp
  have "nf_config no_files = NoFile" by (simp add: no_files_def)
  from notify_config_stays_valid [OF plain_lib_ok this r] r show ?thesis by simp
qed

text \<open>No lost update: once a change made from a page was stored, another change that starts from the same page, from
  another tab or another administrator, is refused as stale and writes nothing. This holds when the stored bytes
  changed and the digest tells the old ones from the new ones.\<close>

theorem stale_edit_refused:
  assumes "lib_ok L" "mutate L w rv ch fs = (Inr (ld, x), fs')"
    and "\<forall>t. nl_sha256 L t \<noteq> []"
    and "\<forall>old. nf_config fs = Bytes old \<longrightarrow> nl_sha256 L old \<noteq> nl_sha256 L (dump_config L (cl_config ld))"
  shows "mutate L w' rv ch' fs' = (Inl StaleRevision, fs')"
proof -
  from assms(2) obtain draft where d: "cl_revision (load_config L fs) = rv" "cl_error (load_config L fs) = None"
      "ld = \<lparr>cl_config = cl_config ld, cl_revision = revision L (dump_config L (cl_config ld)), cl_error = None\<rparr>"
    by (rule mutate_stored)
  have ld: "cl_revision ld = nl_sha256 L (dump_config L (cl_config ld))" "cl_error ld = None"
    using d(3) by (metis config_load.select_convs(2) revision_def dump_config_not_Nil, metis config_load.select_convs(3))
  have sha: "nl_sha256 L (dump_config L (cl_config ld)) \<noteq> []" using assms(3) by blast
  have "rv \<noteq> cl_revision ld"
  proof (cases "nf_config fs")
    case (Bytes old)
    then have "rv = revision L old" using d(1)
      by (auto simp: load_config_def Let_def split: option.splits sum.splits)
    then show ?thesis using Bytes assms(4) sha ld(1) by (auto simp: revision_def split: if_splits)
  qed (use d(1) ld(1) sha in \<open>auto simp: load_config_def\<close>)
  then show ?thesis
    using mutate_load [OF assms(1,2)] ld(2) by (simp add: mutate_def Let_def)
qed

theorem stale_edit_refused_witness:
  "mutate plain_lib True [] (\<lambda>c. Inr (c\<lparr>nc_recipients := []\<rparr>, ())) demo_files = (Inl StaleRevision, demo_files)"
proof (rule stale_edit_refused [OF plain_lib_ok demo_add [unfolded add_recipient_def]])
  show "\<forall>t. nl_sha256 plain_lib t \<noteq> []" by (simp add: plain_lib_def)
  show "\<forall>old. nf_config no_files = Bytes old \<longrightarrow>
      nl_sha256 plain_lib old \<noteq> nl_sha256 plain_lib (dump_config plain_lib (cl_config demo_load))"
    by (simp add: no_files_def)
qed

text \<open>Changing a recipient changes that recipient: every other one, their order and the settings stay as they
  were, and the stored address or webhook URL survives a change that does not send one, although the page never
  shows it in full.\<close>

theorem update_recipient_frame:
  assumes "update_recipient L w rv i name None enabled events fs = (Inr (ld, r), fs')"
  shows "nc_recipients (cl_config ld) = set_recipient i r (nc_recipients (cl_config (load_config L fs)))
    \<and> nc_settings (cl_config ld) = nc_settings (cl_config (load_config L fs))
    \<and> (\<exists>old. find_recipient (cl_config (load_config L fs)) i = Some old
        \<and> rc_id r = i \<and> rc_kind r = rc_kind old \<and> rc_target r = rc_target old)"
proof -
  let ?c = "cl_config (load_config L fs)" and ?b = "nl_bracketed L"
  from assms obtain draft where m: "update_change L i name None enabled events ?c = Inr (draft, r)"
      "check_config ?b draft = Inr (cl_config ld)" "cl_error (load_config L fs) = None"
    unfolding update_recipient_def by (rule mutate_stored)
  from m(1) obtain old where o: "find_recipient ?c i = Some old"
      "change_recipient L name None enabled events old = Inr r"
      "draft = ?c\<lparr>nc_recipients := set_recipient i r (nc_recipients ?c)\<rparr>"
    by (auto simp: update_change_def rbind_eq_Inr split: option.splits)
  have ok: "check_recipient ?b x = Inr x" if "x \<in> set (nc_recipients ?c)" for x
    using checked_recipients [OF loaded_checked [OF m(3)] that] .
  have r: "check_recipient ?b r = Inr r \<and> rc_id r = i \<and> rc_kind r = rc_kind old \<and> rc_target r = rc_target old"
    using change_recipient_ok [OF o(2)] ok find_recipient_id [OF o(1)] by auto
  have "rmap (check_recipient ?b) (set_recipient i r (nc_recipients ?c)) = Inr (set_recipient i r (nc_recipients ?c))"
    by (rule rmap_fixed) (use ok r in \<open>auto simp: set_recipient_def\<close>)
  with check_config_parts [OF m(2)] o(3) have "nc_recipients (cl_config ld) = set_recipient i r (nc_recipients ?c)"
      "nc_settings (cl_config ld) = nc_settings ?c" by simp_all
  with o(1) r show ?thesis by blast
qed

theorem update_recipient_frame_witness:
  "\<exists>ld r fs'. update_recipient plain_lib True (cl_revision demo_load) ''ab12cd34'' (Some ''Night shift'') None
       (Some False) None demo_files = (Inr (ld, r), fs') \<and> rc_target r = ''ops@example.org''"
proof -
  let ?r = "demo_recipient\<lparr>rc_name := ''Night shift'', rc_enabled := False\<rparr>"
  have u: "update_change plain_lib ''ab12cd34'' (Some ''Night shift'') None (Some False) None demo_config
      = Inr (demo_config\<lparr>nc_recipients := [?r]\<rparr>, ?r)"
    by code_simp
  have c: "check_config (nl_bracketed plain_lib) (demo_config\<lparr>nc_recipients := [?r]\<rparr>)
      = Inr (demo_config\<lparr>nc_recipients := [?r]\<rparr>)"
    by code_simp
  have l: "cl_config demo_load = demo_config" "cl_error demo_load = None" by (simp_all add: demo_load_def)
  obtain ld fs' where m: "update_recipient plain_lib True (cl_revision demo_load) ''ab12cd34'' (Some ''Night shift'') None
       (Some False) None demo_files = (Inr (ld, ?r), fs')"
    unfolding update_recipient_def mutate_def by (simp add: demo_load_config l u c Let_def)
  obtain old where "find_recipient demo_config ''ab12cd34'' = Some old" "rc_target ?r = rc_target old"
    using update_recipient_frame [OF m] by (auto simp: demo_load_config l)
  with m show ?thesis by (auto simp: demo_recipient_def)
qed

text \<open>What the background task remembers survives the file: the state it stores is the state the next pass loads.\<close>

theorem state_file_roundtrip:
  assumes "lib_ok L" "change (load_state L fs) = Inr (x, st)" "state_ok st"
  shows "load_state L (snd (update_state L True change fs)) = st"
  using assms(1,2) state_from_document [OF assms(3)] by (simp add: update_state_def load_state_def lib_ok_def)

theorem state_file_roundtrip_witness:
  "load_state plain_lib (snd (update_state plain_lib True
      (\<lambda>st. Inr ((), st\<lparr>ns_up := {''litellm'', ''openwebui''}\<rparr>)) no_files)) = empty_state\<lparr>ns_up := {''litellm'', ''openwebui''}\<rparr>"
proof (rule state_file_roundtrip [OF plain_lib_ok])
  show "Inr ((), load_state plain_lib no_files\<lparr>ns_up := {''litellm'', ''openwebui''}\<rparr>) =
      Inr ((), empty_state\<lparr>ns_up := {''litellm'', ''openwebui''}\<rparr>)"
    by (simp add: load_state_def no_files_def)
  show "state_ok (empty_state\<lparr>ns_up := {''litellm'', ''openwebui''}\<rparr>)"
    by (simp add: state_ok_def empty_state_def)
qed

end
