(* ===== verification/Notify_Detect.thy ===== *)
theory Notify_Detect
  imports Notify_Store Services Schedule Runner Job_Queue Catalogs
begin

text \<open>
  Finding what calls for a notification and deciding what of it is new (\<open>core/notifications/detect.py\<close>).

  A detector answers with the conditions that hold now, in findings that say which keys they are complete for;
  \<open>decide\<close> compares them with what is remembered. Reading and writing ISO times are parameters (\<open>fromiso\<close>,
  \<open>iso\<close>); a remembered time without a zone makes the subtraction raise \<open>TypeError\<close>, as in Python.
\<close>

section \<open>Conditions and findings\<close>

definition EDGE_EVENTS :: "event list" where
  "EDGE_EVENTS = [BACKUP_OVERDUE, SERVICE_UNHEALTHY]"

definition FORGET_AFTER :: timedelta where "FORGET_AFTER = 30 * us_day"

record condition =
  cd_event :: event
  cd_key :: string
  cd_marker :: string
  cd_subject :: string
  cd_message :: string
  cd_details :: "(string, pyval) dict"

record finding =
  fd_event :: event
  fd_conditions :: "condition list"
  fd_scope :: string

definition seen_key :: "event \<Rightarrow> string \<Rightarrow> string" where
  "seen_key e k = event_value e @ ''|'' @ k"

section \<open>Deciding what is new\<close>

text \<open>The age of a remembered time against a limit: \<open>None\<close> when there is no usable time.\<close>

definition age_of :: "(string \<Rightarrow> iso_time option) \<Rightarrow> seen \<Rightarrow> instant \<Rightarrow> py_exn + timedelta option" where
  "age_of fromiso s now =
     (if sn_last_sent s = [] then Inr None
      else case fromiso (sn_last_sent s) of
          None \<Rightarrow> Inr None
        | Some (Naive _) \<Rightarrow> Inl TypeError
        | Some (Aware t) \<Rightarrow> Inr (Some (now - t)))"

definition outside_window :: "(string \<Rightarrow> iso_time option) \<Rightarrow> seen \<Rightarrow> instant \<Rightarrow> int \<Rightarrow> py_exn + bool" where
  "outside_window fromiso s now debounce_minutes =
     rbind (age_of fromiso s now) (\<lambda>a. Inr (case a of None \<Rightarrow> True | Some d \<Rightarrow> d \<ge> debounce_minutes * us_minute))"

definition forgotten :: "(string \<Rightarrow> iso_time option) \<Rightarrow> seen \<Rightarrow> instant \<Rightarrow> py_exn + bool" where
  "forgotten fromiso s now =
     rbind (age_of fromiso s now) (\<lambda>a. Inr (case a of None \<Rightarrow> True | Some d \<Rightarrow> d > FORGET_AFTER))"

record clock =
  ck_iso :: "instant \<Rightarrow> string"
  ck_fromiso :: "string \<Rightarrow> iso_time option"

definition fires :: "clock \<Rightarrow> instant \<Rightarrow> event_settings \<Rightarrow> event \<Rightarrow> seen option \<Rightarrow> string \<Rightarrow> py_exn + bool" where
  "fires K now settings event s marker =
     (if event \<in> set EDGE_EVENTS then
        (case s of
           None \<Rightarrow> Inr True
         | Some sn \<Rightarrow>
             if sn_active sn then Inr False
             else if event = SERVICE_UNHEALTHY then outside_window (ck_fromiso K) sn now (es_debounce_minutes settings)
             else Inr True)
      else Inr (case s of None \<Rightarrow> True | Some sn \<Rightarrow> sn_marker sn \<noteq> marker))"

type_synonym memory = "(string, seen) dict"

definition note_condition ::
  "clock \<Rightarrow> instant \<Rightarrow> event_settings \<Rightarrow> event \<Rightarrow> condition list \<times> memory \<Rightarrow> string \<times> condition \<Rightarrow>
   py_exn + condition list \<times> memory" where
  "note_condition K now settings event acc kc =
     (case (acc, kc) of ((new, mem), (k, c)) \<Rightarrow>
        rbind (fires K now settings event (dict_get mem k) (cd_marker c)) (\<lambda>fire.
          let old = (case dict_get mem k of None \<Rightarrow> new_seen | Some sn \<Rightarrow> sn);
              entry = old\<lparr>sn_active := True, sn_marker := cd_marker c,
                sn_last_sent := (if fire then ck_iso K now else sn_last_sent old)\<rparr>
          in Inr (if fire then new @ [c] else new, dict_set mem k entry)))"

definition current_of :: "finding \<Rightarrow> (string, condition) dict" where
  "current_of f = dict_of (map (\<lambda>c. (seen_key (fd_event f) (cd_key c), c)) (fd_conditions f))"

definition prefix_of :: "finding \<Rightarrow> string" where
  "prefix_of f = seen_key (fd_event f) (fd_scope f)"

text \<open>What held at the last look and does not hold now, under the finding's prefix.\<close>

definition gone_keys :: "finding \<Rightarrow> memory \<Rightarrow> string list" where
  "gone_keys f mem =
     filter (\<lambda>k. startswith k (prefix_of f) \<and> k \<notin> set (dict_keys (current_of f))) (dict_keys mem)"

definition clear_key :: "clock \<Rightarrow> instant \<Rightarrow> event \<Rightarrow> memory \<Rightarrow> string \<Rightarrow> py_exn + memory" where
  "clear_key K now event mem k =
     (case dict_get mem k of
        None \<Rightarrow> Inl KeyError
      | Some sn \<Rightarrow>
          if event \<in> set EDGE_EVENTS then
            (let entry = sn\<lparr>sn_active := False\<rparr>
             in rbind (forgotten (ck_fromiso K) entry now) (\<lambda>old.
                  Inr (if old then dict_del mem k else dict_set mem k entry)))
          else Inr (dict_del mem k))"

definition judge_finding ::
  "clock \<Rightarrow> instant \<Rightarrow> event_settings \<Rightarrow> condition list \<times> memory \<Rightarrow> finding \<Rightarrow> py_exn + condition list \<times> memory" where
  "judge_finding K now settings acc f =
     rbind (rfold (note_condition K now settings (fd_event f)) acc (current_of f)) (\<lambda>(new, mem).
     rbind (rfold (clear_key K now (fd_event f)) mem (gone_keys f mem)) (\<lambda>mem'. Inr (new, mem')))"

definition decide ::
  "clock \<Rightarrow> finding list \<Rightarrow> instant \<Rightarrow> event_settings \<Rightarrow> notify_state \<Rightarrow> py_exn + condition list \<times> notify_state" where
  "decide K findings now settings st =
     rbind (rfold (judge_finding K now settings) ([], ns_seen st) findings) (\<lambda>(new, mem).
       Inr (new, st\<lparr>ns_seen := mem\<rparr>))"

section \<open>Detectors\<close>

definition plural :: "nat \<Rightarrow> string \<Rightarrow> string" where
  "plural n unit_name = str_of_nat n @ '' '' @ unit_name @ (if n = 1 then [] else ''s'')"

definition span :: "timedelta \<Rightarrow> string" where
  "span delta =
     (let seconds = nat (max (if delta < 0 then - ((- delta) div us_second) else delta div us_second) 0)
      in if seconds \<ge> 86400 then plural (seconds div 86400) ''day''
         else if seconds \<ge> 3600 then plural (seconds div 3600) ''hour''
         else if seconds \<ge> 60 then plural (seconds div 60) ''minute''
         else ''less than a minute'')"

text \<open>
  What the backup detector reads through: the environment of the schedule and of the backup catalogue, the clock, and
  the decimal text of a number of hours rounded to one place.
\<close>

record backup_view =
  bv_sched :: sched_env
  bv_coerce :: "(string, pyval) dict \<Rightarrow> fields_in"
  bv_env :: backup_env
  bv_clock :: clock
  bv_hours :: "timedelta \<Rightarrow> string"

definition overdue_details :: "backup_view \<Rightarrow> schedule_status \<Rightarrow> (string, pyval) dict" where
  "overdue_details V st =
     [(''last_good_backup'', case ss_last_ok_at st of None \<Rightarrow> PNone | Some t \<Rightarrow> PStr (ck_iso (bv_clock V) t)),
      (''latest_result'', PStr (ss_latest_result st))]
     @ (case ss_overdue_after st of None \<Rightarrow> [] | Some l \<Rightarrow> [(''overdue_after_hours'', PFloat (bv_hours V l))])"

definition overdue_message :: "schedule_status \<Rightarrow> string" where
  "overdue_message st =
     (case ss_age st of
        Some a \<Rightarrow> ''The last good backup is '' @ span a @ '' old.''
      | None \<Rightarrow> ''No backup has succeeded yet; the latest one ended '' @ ss_latest_result st @ ''.'')"

definition no_conditions :: "event \<Rightarrow> string \<Rightarrow> finding" where
  "no_conditions e scope = \<lparr>fd_event = e, fd_conditions = [], fd_scope = scope\<rparr>"

definition backup_overdue :: "backup_view \<Rightarrow> string \<Rightarrow> instant \<Rightarrow> state_error + finding list" where
  "backup_overdue V config_dir now =
     rbind (py_part (load_schedule (bv_sched V) (bv_coerce V) (be_load (bv_env V)) (be_files (bv_env V)) config_dir)) (\<lambda>l.
       if sl_error l \<noteq> None then Inr []
       else case sl_schedule l of
           None \<Rightarrow> Inr [no_conditions BACKUP_OVERDUE []]
         | Some s \<Rightarrow>
             rbind (py_part (resolve_backup_dir (be_files (bv_env V)) config_dir)) (\<lambda>dir.
               if \<not> is_reachable (be_files (bv_env V)) dir then Inr []
               else rbind (py_part (points_in (bv_env V) dir)) (\<lambda>points.
                 case evaluate (bv_sched V) (be_fromiso (bv_env V)) (Some s) points now None of
                   Inl e \<Rightarrow> Inl (SchedError e)
                 | Inr st \<Rightarrow>
                     if \<not> ss_overdue st then Inr [no_conditions BACKUP_OVERDUE []]
                     else Inr [\<lparr>fd_event = BACKUP_OVERDUE, fd_conditions =
                       [\<lparr>cd_event = BACKUP_OVERDUE, cd_key = ''backup'', cd_marker = [], cd_subject = ''backup'',
                         cd_message = overdue_message st, cd_details = overdue_details V st\<rparr>], fd_scope = []\<rparr>])))"

definition read_services ::
  "services_env \<Rightarrow> int \<Rightarrow> int \<Rightarrow> snapshot_cache \<Rightarrow> (py_exn + stack_snapshot option) \<times> snapshot_cache" where
  "read_services E now later ca =
     (case load_snapshot E now later ca of
        (Inl e, ca') \<Rightarrow> (Inl e, ca')
      | (Inr s, ca') \<Rightarrow>
          (Inr (if sk_core s = [] \<and> sk_addons s = [] \<and> unreachable_nodes s = [] then None else Some s), ca'))"

definition module_label :: "service_module \<Rightarrow> string" where
  "module_label m =
     (let label = (if sm_addon m \<noteq> [] then sm_addon m @ ''/'' @ sm_name m else sm_name m)
      in if sm_node m \<noteq> [] then sm_node m @ ''/'' @ label else label)"

definition DEPLOYED :: "service_health list" where
  "DEPLOYED = [HEALTHY, STARTING, UNHEALTHY, STOPPED]"

definition labelled :: "stack_snapshot \<Rightarrow> (string, service_module) dict" where
  "labelled s = dict_of (map (\<lambda>m. (module_label m, m)) (sk_core s @ sk_addons s))"

definition down_message :: "i18n \<Rightarrow> string set \<Rightarrow> string \<Rightarrow> service_module \<Rightarrow> string option" where
  "down_message I was_up label m =
     (if module_health m \<in> {UNHEALTHY, STOPPED}
      then Some (label @ '' is '' @ health_value (module_health m) @ '': '' @ summary I m @ ''.'')
      else if module_health m = MISSING \<and> label \<in> was_up then
        (if \<forall>c \<in> set (sm_containers m). ct_health c = MISSING
         then Some (label @ '' is not running: its containers are gone.'')
         else Some (label @ '' is not running ('' @ summary I m @ '').''))
      else None)"

definition module_condition :: "i18n \<Rightarrow> string \<Rightarrow> service_module \<Rightarrow> string \<Rightarrow> condition" where
  "module_condition I label m msg =
     \<lparr>cd_event = SERVICE_UNHEALTHY, cd_key = label, cd_marker = [], cd_subject = label, cd_message = msg,
      cd_details =
        [(''service'', PStr (sm_name m)), (''add_on'', if sm_addon m \<noteq> [] then PStr (sm_addon m) else PNone),
         (''state'', PStr (health_value (module_health m))), (''summary'', PStr (summary I m))]
        @ (if sm_node m \<noteq> [] then [(''node'', PStr (sm_node m))] else [])\<rparr>"

definition node_condition :: "node_health \<Rightarrow> condition" where
  "node_condition n =
     \<lparr>cd_event = SERVICE_UNHEALTHY, cd_key = ''node:'' @ nh_name n, cd_marker = [], cd_subject = nh_name n,
      cd_message = ''Node '' @ nh_name n @ '' does not answer: '' @ nh_reason n @ ''.'',
      cd_details = [(''node'', PStr (nh_name n)), (''state'', PStr ''unreachable''), (''summary'', PStr (nh_reason n))]\<rparr>"

definition module_conditions :: "i18n \<Rightarrow> string set \<Rightarrow> (string, service_module) dict \<Rightarrow> condition list" where
  "module_conditions I was_up labels =
     concat (map (\<lambda>(label, m). case down_message I was_up label m of
        None \<Rightarrow> [] | Some msg \<Rightarrow> [module_condition I label m msg]) labels)"

definition up_after :: "stack_snapshot \<Rightarrow> string set \<Rightarrow> string set" where
  "up_after s was_up =
     set (map fst (filter (\<lambda>(label, m). module_health m \<in> set DEPLOYED) (labelled s)))
     \<union> {label \<in> was_up. label \<in> set (dict_keys (labelled s))
          \<or> (\<exists>n \<in> set (unreachable_nodes s). startswith label (nh_name n @ ''/''))}"

definition service_findings :: "i18n \<Rightarrow> stack_snapshot \<Rightarrow> string set \<Rightarrow> finding list \<times> string set" where
  "service_findings I s was_up =
     ([\<lparr>fd_event = SERVICE_UNHEALTHY,
        fd_conditions = module_conditions I was_up (labelled s) @ map node_condition (unreachable_nodes s),
        fd_scope = []\<rparr>], up_after s was_up)"

text \<open>The part of a host reading the detector uses: whether there is one, and its certificates.\<close>

record cert_check =
  cc_key :: string
  cc_label :: string
  cc_days_left :: "int option"
  cc_not_after :: string

record host_reading =
  hr_available :: bool
  hr_certs :: "cert_check list"

definition cert_message :: "string \<Rightarrow> int \<Rightarrow> string" where
  "cert_message label days =
     (if days < 0 then label @ '' expired '' @ str_of_int (- days) @ '' days ago.''
      else if days = 0 then label @ '' expires today.''
      else label @ '' expires in '' @ str_of_int days @ '' day'' @ (if days = 1 then [] else ''s'') @ ''.'')"

definition cert_condition :: "string \<Rightarrow> cert_check \<Rightarrow> int \<Rightarrow> condition" where
  "cert_condition node cert days =
     (let label = (if node \<noteq> [] then node @ '': '' else []) @ cc_label cert
      in \<lparr>cd_event = CERT_EXPIRING, cd_key = (if node \<noteq> [] then node @ '':'' else []) @ cc_key cert,
          cd_marker = (if cc_not_after cert \<noteq> [] then cc_not_after cert else ''expiry unknown''),
          cd_subject = label, cd_message = cert_message label days,
          cd_details =
            [(''certificate'', PStr (cc_label cert)), (''days_left'', PInt days),
             (''expires'', if cc_not_after cert \<noteq> [] then PStr (cc_not_after cert) else PNone)]
            @ (if node \<noteq> [] then [(''node'', PStr node)] else [])\<rparr>)"

definition certificates :: "host_reading \<Rightarrow> int \<Rightarrow> string \<Rightarrow> finding list" where
  "certificates health lead_days node =
     (if \<not> hr_available health then []
      else [\<lparr>fd_event = CERT_EXPIRING,
        fd_conditions = concat (map (\<lambda>cert. case cc_days_left cert of
            None \<Rightarrow> [] | Some d \<Rightarrow> if d > lead_days then [] else [cert_condition node cert d]) (hr_certs health)),
        fd_scope = (if node \<noteq> [] then node @ '':'' else [])\<rparr>])"

definition addon_condition :: "addon_update \<Rightarrow> condition" where
  "addon_condition u =
     \<lparr>cd_event = UPDATE_AVAILABLE, cd_key = ''addon:'' @ au_name u, cd_marker = au_available u, cd_subject = au_name u,
      cd_message = au_name u @ '' '' @ au_available u @ '' is available (installed: '' @ au_installed u @ '').'',
      cd_details = [(''add_on'', PStr (au_name u)), (''installed'', PStr (au_installed u)),
        (''available'', PStr (au_available u)), (''catalog'', PStr (au_catalog u))]\<rparr>"

text \<open>\<open>installed\<close> is the list of installed add-ons by name, \<open>scan\<close> the add-ons a catalogue ships.\<close>

definition addon_updates ::
  "(catalog \<Rightarrow> (string \<times> pyval) list) \<Rightarrow> string \<Rightarrow> registry \<Rightarrow> (string, installed_addon) dict \<Rightarrow> py_exn + finding list" where
  "addon_updates scan workspace_dir reg installed =
     (if installed = [] then Inr [no_conditions UPDATE_AVAILABLE ''addon:'']
      else rbind (outdated_addons scan workspace_dir reg (dict_get installed)) (\<lambda>outdated.
        Inr [\<lparr>fd_event = UPDATE_AVAILABLE, fd_conditions = map addon_condition outdated, fd_scope = ''addon:''\<rparr>]))"

definition core_update :: "string \<Rightarrow> string list option \<Rightarrow> finding list" where
  "core_update current newer =
     (case newer of
        None \<Rightarrow> []
      | Some [] \<Rightarrow> [no_conditions UPDATE_AVAILABLE ''core'']
      | Some (latest # rest) \<Rightarrow>
          [\<lparr>fd_event = UPDATE_AVAILABLE, fd_conditions =
             [\<lparr>cd_event = UPDATE_AVAILABLE, cd_key = ''core'', cd_marker = latest, cd_subject = ''papAIa'',
               cd_message = ''papAIa '' @ latest @ '' is available (deployed: '' @ current @ '').'',
               cd_details = [(''deployed'', PStr current), (''available'', PStr latest),
                 (''releases_ahead'', PInt (int (length (latest # rest))))]\<rparr>], fd_scope = ''core''\<rparr>])"

text \<open>The three lookups of runners, in order, until one runs or docker cannot be asked.\<close>

fun any_runner :: "'d docker \<Rightarrow> (string \<Rightarrow> pyval option) \<Rightarrow> runner_kind list \<Rightarrow> ('d, bool) io" where
  "any_runner D loads [] d = (Inr False, d)"
| "any_runner D loads (k # ks) d =
     (case find_runner D loads k d of
        (Inl (RunnerError _), d') \<Rightarrow> (Inr True, d')
      | (Inl (Raise e), d') \<Rightarrow> (Inl (Raise e), d')
      | (Inr found, d') \<Rightarrow>
          (case found of
             Some r \<Rightarrow> if is_running r then (Inr True, d') else any_runner D loads ks d'
           | None \<Rightarrow> any_runner D loads ks d'))"

definition stack_is_busy :: "'d docker \<Rightarrow> (string \<Rightarrow> pyval option) \<Rightarrow> 'cb queue_state option \<Rightarrow> ('d, bool) io" where
  "stack_is_busy D loads queue d =
     (case queue of
        Some q \<Rightarrow> if active_job q \<noteq> None then (Inr True, d)
                  else any_runner D loads [RESTORE_KIND, UPGRADE_KIND, STACK_KIND] d
      | None \<Rightarrow> any_runner D loads [RESTORE_KIND, UPGRADE_KIND, STACK_KIND] d)"

text \<open>
  The detector of the services, after the question whether the stack is busy: it also stores which services were
  seen running.
\<close>

definition remember_up :: "notify_lib \<Rightarrow> bool \<Rightarrow> string set \<Rightarrow> notify_files \<Rightarrow> notify_files" where
  "remember_up L writable up files =
     snd (update_state L writable (\<lambda>st. Inr ((), st\<lparr>ns_up := up\<rparr>)) files)"

definition services_down ::
  "i18n \<Rightarrow> notify_lib \<Rightarrow> bool \<Rightarrow> bool \<Rightarrow> stack_snapshot option \<Rightarrow> notify_files \<Rightarrow> finding list \<times> notify_files" where
  "services_down I L writable busy snapshot files =
     (if busy then ([], files)
      else case snapshot of
          None \<Rightarrow> ([], files)
        | Some s \<Rightarrow>
            let was_up = ns_up (load_state L files); (findings, up_now) = service_findings I s was_up
            in (findings, if up_now \<noteq> was_up then remember_up L writable up_now files else files))"

definition certs_expiring :: "event_settings \<Rightarrow> (string \<times> host_reading) list \<Rightarrow> finding list" where
  "certs_expiring settings readings =
     concat (map (\<lambda>(node, health). certificates health (es_cert_lead_days settings) node) readings)"

definition updates_found ::
  "string \<Rightarrow> string list option \<Rightarrow> (catalog \<Rightarrow> (string \<times> pyval) list) \<Rightarrow> string \<Rightarrow> registry \<Rightarrow>
   (string, installed_addon) dict \<Rightarrow> py_exn + finding list" where
  "updates_found current newer scan workspace_dir reg installed =
     rbind (addon_updates scan workspace_dir reg installed) (\<lambda>addons. Inr (core_update current newer @ addons))"

end
