(* ===== verification/Notify_Decide.thy ===== *)
theory Notify_Decide
  imports Notify_Detect
begin

text \<open>
  What \<open>decide\<close> and the detectors promise: an occurrence is reported once, a flapping service at most once per
  debounce window, a finding touches only the keys of its scope, and a module that is gone is reported only when it was
  seen running.
\<close>

section \<open>Keys\<close>

lemma startswith_seen_key [simp]:
  "startswith (seen_key e k) (seen_key e' s) \<longleftrightarrow> e = e' \<and> startswith k s"
  by (cases e; cases e') (simp_all add: seen_key_def)

lemma seen_key_inj [simp]: "seen_key e k = seen_key e' k' \<longleftrightarrow> e = e' \<and> k = k'"
  by (cases e; cases e') (simp_all add: seen_key_def)

definition keys_of :: "finding \<Rightarrow> string set" where
  "keys_of f = set (dict_keys (current_of f))"

lemma keys_of_conditions: "keys_of f = (\<lambda>c. seen_key (fd_event f) (cd_key c)) ` set (fd_conditions f)"
  unfolding keys_of_def current_of_def dict_of_keys by (simp add: image_image)

lemma current_ok: "dict_ok (current_of f)"
  by (simp add: current_of_def)

definition in_scope :: "finding \<Rightarrow> bool" where
  "in_scope f \<longleftrightarrow> (\<forall>k \<in> keys_of f. startswith k (prefix_of f))"

definition apart :: "finding \<Rightarrow> finding \<Rightarrow> bool" where
  "apart f g \<longleftrightarrow> (\<forall>k \<in> keys_of f. \<not> startswith k (prefix_of g)) \<and> (\<forall>k \<in> keys_of g. \<not> startswith k (prefix_of f))"

definition scopes_apart :: "finding list \<Rightarrow> bool" where
  "scopes_apart fs \<longleftrightarrow> list_all in_scope fs \<and> sorted_wrt apart fs"

section \<open>What a finding leaves alone\<close>

lemma dict_set_same: "dict_get d k = Some v \<Longrightarrow> dict_set d k v = d"
  by (induction d k v rule: dict_set.induct) (auto simp: dict_get_def split: if_splits)

lemma note_step:
  assumes "note_condition K now s e (new, mem) (k, c) = Inr (new', mem')"
  obtains fire sn where "fires K now s e (dict_get mem k) (cd_marker c) = Inr fire"
    "new' = (if fire then new @ [c] else new)" "mem' = dict_set mem k sn" "sn_active sn" "sn_marker sn = cd_marker c"
    "sn_last_sent sn = (if fire then ck_iso K now else (case dict_get mem k of None \<Rightarrow> [] | Some w \<Rightarrow> sn_last_sent w))"
  using assms by (auto simp: note_condition_def rbind_eq_Inr Let_def new_seen_def split: option.splits)

lemma note_frame:
  assumes "rfold (note_condition K now s e) (new, mem) cur = Inr (new', mem')" "k \<notin> set (dict_keys cur)"
  shows "dict_get mem' k = dict_get mem k"
  using assms
proof (induction cur arbitrary: new mem)
  case (Cons kc cur)
  obtain j c where kc: "kc = (j, c)" by (cases kc)
  from Cons.prems(1) kc obtain n1 m1 where st: "note_condition K now s e (new, mem) (j, c) = Inr (n1, m1)"
      "rfold (note_condition K now s e) (n1, m1) cur = Inr (new', mem')"
    by (auto simp: rbind_eq_Inr)
  from st(1) obtain sn where "m1 = dict_set mem j sn" by (rule note_step)
  with Cons.IH [OF st(2)] Cons.prems(2) kc show ?case by auto
qed simp

lemma clear_frame:
  assumes "rfold (clear_key K now e) mem ks = Inr mem'" "k \<notin> set ks"
  shows "dict_get mem' k = dict_get mem k"
  using assms
proof (induction ks arbitrary: mem)
  case (Cons j ks)
  from Cons.prems(1) obtain m1 where st: "clear_key K now e mem j = Inr m1" "rfold (clear_key K now e) m1 ks = Inr mem'"
    by (auto simp: rbind_eq_Inr)
  have "dict_get m1 k = dict_get mem k"
    using st(1) Cons.prems(2) by (auto simp: clear_key_def rbind_eq_Inr Let_def split: option.splits if_splits)
  with Cons.IH [OF st(2)] Cons.prems(2) show ?case by simp
qed simp

lemma judge_parts:
  assumes "judge_finding K now s acc f = Inr (new', mem')"
  obtains mem1 where "rfold (note_condition K now s (fd_event f)) acc (current_of f) = Inr (new', mem1)"
    "rfold (clear_key K now (fd_event f)) mem1 (gone_keys f mem1) = Inr mem'"
  using assms by (auto simp: judge_finding_def rbind_eq_Inr)

lemma judge_frame:
  assumes "judge_finding K now s (new, mem) f = Inr (new', mem')" "in_scope f" "\<not> startswith k (prefix_of f)"
  shows "dict_get mem' k = dict_get mem k"
proof -
  from assms(1) obtain m1 where st: "rfold (note_condition K now s (fd_event f)) (new, mem) (current_of f) = Inr (new', m1)"
      "rfold (clear_key K now (fd_event f)) m1 (gone_keys f m1) = Inr mem'" by (rule judge_parts)
  have "k \<notin> set (dict_keys (current_of f))" using assms(2,3) by (auto simp: in_scope_def keys_of_def)
  moreover have "k \<notin> set (gone_keys f m1)" using assms(3) by (auto simp: gone_keys_def)
  ultimately show ?thesis using note_frame [OF st(1)] clear_frame [OF st(2)] by metis
qed

text \<open>A pass changes nothing outside the scopes of its findings: what a detector could not read, and so returned no
  finding for, stays remembered exactly as it was.\<close>

theorem decide_keeps_unread:
  assumes "decide K findings now s st = Inr (new, st')" "list_all in_scope findings"
    and "\<forall>f \<in> set findings. \<not> startswith k (prefix_of f)"
  shows "dict_get (ns_seen st') k = dict_get (ns_seen st) k"
proof -
  from assms(1) obtain mem where r: "rfold (judge_finding K now s) ([], ns_seen st) findings = Inr (new, mem)"
      "ns_seen st' = mem" by (auto simp: decide_def rbind_eq_Inr)
  have "dict_get (snd acc') k = dict_get (snd acc) k"
    if "rfold (judge_finding K now s) acc findings = Inr acc'" for acc acc'
  proof (rule rfold_invariant [OF that, where I = "\<lambda>a. dict_get (snd a) k = dict_get (snd acc) k"])
    show "dict_get (snd b) k = dict_get (snd acc) k"
      if "dict_get (snd a) k = dict_get (snd acc) k" "f \<in> set findings" "judge_finding K now s a f = Inr b" for a f b
      using judge_frame [of K now s "fst a" "snd a" f "fst b" "snd b" k] that assms(2,3)
      by (simp add: list_all_iff)
  qed simp
  from this [OF r(1)] r(2) show ?thesis by simp
qed

section \<open>Once per occurrence\<close>

definition settled :: "memory \<Rightarrow> (string, condition) dict \<Rightarrow> bool" where
  "settled mem cur \<longleftrightarrow>
     (\<forall>k c. (k, c) \<in> set cur \<longrightarrow> (\<exists>sn. dict_get mem k = Some sn \<and> sn_active sn \<and> sn_marker sn = cd_marker c))"

lemma note_settles:
  assumes "rfold (note_condition K now s e) (new, mem) cur = Inr (new', mem')" "distinct (dict_keys cur)"
  shows "settled mem' cur"
  using assms
proof (induction cur arbitrary: new mem)
  case (Cons kc cur)
  obtain j c where kc: "kc = (j, c)" by (cases kc)
  from Cons.prems(1) kc obtain n1 m1 where st: "note_condition K now s e (new, mem) (j, c) = Inr (n1, m1)"
      "rfold (note_condition K now s e) (n1, m1) cur = Inr (new', mem')"
    by (auto simp: rbind_eq_Inr)
  from st(1) obtain sn where "m1 = dict_set mem j sn" "sn_active sn" "sn_marker sn = cd_marker c" by (rule note_step)
  moreover have "dict_get mem' j = dict_get m1 j" using note_frame [OF st(2)] Cons.prems(2) kc by auto
  ultimately show ?case using Cons.IH [OF st(2)] Cons.prems(2) kc by (auto simp: settled_def)
qed (simp add: settled_def)

lemma fires_settled:
  "sn_active sn \<Longrightarrow> sn_marker sn = m \<Longrightarrow> fires K now s e (Some sn) m = Inr False"
  by (simp add: fires_def)

lemma note_quiet: "settled mem cur \<Longrightarrow> rfold (note_condition K now s e) (new, mem) cur = Inr (new, mem)"
proof (induction cur)
  case (Cons kc cur)
  obtain j c where kc: "kc = (j, c)" by (cases kc)
  from Cons.prems kc obtain sn where sn: "dict_get mem j = Some sn" "sn_active sn" "sn_marker sn = cd_marker c"
    by (auto simp: settled_def)
  have "sn\<lparr>sn_active := True, sn_marker := cd_marker c, sn_last_sent := sn_last_sent sn\<rparr> = sn" using sn by simp
  then have "note_condition K now s e (new, mem) (j, c) = Inr (new, mem)"
    using sn by (simp add: note_condition_def fires_settled Let_def dict_set_same)
  with Cons kc show ?case by (auto simp: settled_def)
qed simp

lemma judge_settles:
  assumes "judge_finding K now s acc f = Inr (new', mem')"
  shows "settled mem' (current_of f)"
proof -
  obtain new mem where acc: "acc = (new, mem)" by (cases acc)
  from assms obtain m1 where st: "rfold (note_condition K now s (fd_event f)) (new, mem) (current_of f) = Inr (new', m1)"
      "rfold (clear_key K now (fd_event f)) m1 (gone_keys f m1) = Inr mem'" unfolding acc by (rule judge_parts)
  have "settled m1 (current_of f)" using note_settles [OF st(1)] current_ok by (simp add: dict_ok_def)
  moreover have "dict_get mem' k = dict_get m1 k" if "k \<in> set (dict_keys (current_of f))" for k
    by (rule clear_frame [OF st(2)]) (use that in \<open>simp add: gone_keys_def\<close>)
  ultimately show ?thesis by (force simp: settled_def)
qed

definition clear_of :: "(string, condition) dict \<Rightarrow> string \<Rightarrow> bool" where
  "clear_of cur p \<longleftrightarrow> (\<forall>kc \<in> set cur. \<not> startswith (fst kc) p)"

lemma judge_keeps_settled:
  assumes "judge_finding K now s acc g = Inr acc'" "in_scope g" "settled (snd acc) cur"
    and "clear_of cur (prefix_of g)"
  shows "settled (snd acc') cur"
proof -
  have "dict_get (snd acc') k = dict_get (snd acc) k" if "(k, c) \<in> set cur" for k c
    using judge_frame [of K now s "fst acc" "snd acc" g "fst acc'" "snd acc'" k] assms(1,2,4) that
    by (auto simp: clear_of_def)
  then show ?thesis using assms(3) by (fastforce simp: settled_def)
qed

lemma judge_quiet:
  assumes "judge_finding K now s (new, mem) f = Inr (new', mem')" "settled mem (current_of f)"
  shows "new' = new"
  using assms by (auto simp: judge_finding_def note_quiet rbind_eq_Inr)

lemma apart_keys: "apart f g \<Longrightarrow> clear_of (current_of f) (prefix_of g) \<and> clear_of (current_of g) (prefix_of f)"
  by (simp add: apart_def keys_of_def clear_of_def)

lemma fold_keeps_settled:
  assumes "rfold (judge_finding K now s) acc gs = Inr acc'" "list_all in_scope gs" "settled (snd acc) (current_of f)"
    and "\<forall>g \<in> set gs. apart f g"
  shows "settled (snd acc') (current_of f)"
proof (rule rfold_invariant [OF assms(1), where I = "\<lambda>a. settled (snd a) (current_of f)"])
  show "settled (snd b) (current_of f)"
    if "settled (snd a) (current_of f)" "g \<in> set gs" "judge_finding K now s a g = Inr b" for a g b
    using judge_keeps_settled [OF that(3)] that(1,2) assms(2,4) by (simp add: list_all_iff apart_keys)
qed (rule assms(3))

lemma pass_settles:
  assumes "rfold (judge_finding K now s) acc fs = Inr acc'" "scopes_apart fs"
  shows "\<forall>f \<in> set fs. settled (snd acc') (current_of f)"
  using assms
proof (induction fs arbitrary: acc)
  case (Cons f fs)
  then obtain a1 where st: "judge_finding K now s acc f = Inr a1" "rfold (judge_finding K now s) a1 fs = Inr acc'"
    by (auto simp: rbind_eq_Inr)
  have "settled (snd a1) (current_of f)" using judge_settles [of K now s acc f "fst a1" "snd a1"] st(1) by simp
  then have "settled (snd acc') (current_of f)"
    using fold_keeps_settled [OF st(2)] Cons.prems(2) by (simp add: scopes_apart_def)
  with Cons.IH [OF st(2)] Cons.prems(2) show ?case by (simp add: scopes_apart_def)
qed simp

lemma pass_quiet:
  assumes "rfold (judge_finding K now s) (new, mem) fs = Inr (new', mem')" "scopes_apart fs"
    and "\<forall>f \<in> set fs. settled mem (current_of f)"
  shows "new' = new"
  using assms
proof (induction fs arbitrary: new mem)
  case (Cons f fs)
  then obtain n1 m1 where st: "judge_finding K now s (new, mem) f = Inr (n1, m1)"
      "rfold (judge_finding K now s) (n1, m1) fs = Inr (new', mem')"
    by (auto simp: rbind_eq_Inr)
  have n1: "n1 = new" using judge_quiet [OF st(1)] Cons.prems(3) by simp
  have "settled m1 (current_of g)" if "g \<in> set fs" for g
    using judge_keeps_settled [OF st(1)] that Cons.prems(2,3)
    by (simp add: scopes_apart_def apart_keys)
  with Cons.IH [OF st(2)] Cons.prems(2) n1 show ?case by (simp add: scopes_apart_def)
qed simp

section \<open>A pass ends\<close>

text \<open>What the clock promises: a time it writes is read back as that instant.\<close>

definition clock_ok :: "clock \<Rightarrow> bool" where
  "clock_ok K \<longleftrightarrow> (\<forall>t. ck_fromiso K (ck_iso K t) = Some (Aware t) \<and> ck_iso K t \<noteq> [])"

definition zoned :: "clock \<Rightarrow> seen \<Rightarrow> bool" where
  "zoned K sn \<longleftrightarrow> sn_last_sent sn = [] \<or> (\<forall>t. ck_fromiso K (sn_last_sent sn) \<noteq> Some (Naive t))"

definition memory_ok :: "clock \<Rightarrow> memory \<Rightarrow> bool" where
  "memory_ok K mem \<longleftrightarrow> dict_ok mem \<and> (\<forall>k sn. dict_get mem k = Some sn \<longrightarrow> zoned K sn)"

lemma age_total: "zoned K sn \<Longrightarrow> \<exists>a. age_of (ck_fromiso K) sn now = Inr a"
  by (auto simp: zoned_def age_of_def split: option.splits iso_time.splits)

lemma zoned_active [simp]: "zoned K (sn\<lparr>sn_active := b\<rparr>) = zoned K sn"
  by (simp add: zoned_def)

lemma forgotten_total: "zoned K sn \<Longrightarrow> \<exists>b. forgotten (ck_fromiso K) sn now = Inr b"
  using age_total [of K sn now] by (auto simp: forgotten_def)

lemma fires_total: "(case s of None \<Rightarrow> True | Some sn \<Rightarrow> zoned K sn) \<Longrightarrow> \<exists>b. fires K now st e s m = Inr b"
proof (cases s)
  case (Some sn)
  assume "case s of None \<Rightarrow> True | Some sn \<Rightarrow> zoned K sn"
  with Some obtain a where "age_of (ck_fromiso K) sn now = Inr a" using age_total [of K sn now] by auto
  with Some show ?thesis by (auto simp: fires_def outside_window_def)
qed (auto simp: fires_def)

lemma note_total:
  assumes "clock_ok K" "memory_ok K mem"
  shows "\<exists>new' mem'. note_condition K now st e (new, mem) (k, c) = Inr (new', mem') \<and> memory_ok K mem'"
proof -
  let ?old = "case dict_get mem k of None \<Rightarrow> new_seen | Some sn \<Rightarrow> sn"
  have "case dict_get mem k of None \<Rightarrow> True | Some sn \<Rightarrow> zoned K sn"
    using assms(2) by (auto simp: memory_ok_def split: option.splits)
  from fires_total [OF this] obtain b where b: "fires K now st e (dict_get mem k) (cd_marker c) = Inr b" by blast
  have "zoned K ?old" using assms(2) by (auto simp: memory_ok_def zoned_def new_seen_def split: option.splits)
  then have "zoned K (?old\<lparr>sn_active := True, sn_marker := cd_marker c,
      sn_last_sent := (if b then ck_iso K now else sn_last_sent ?old)\<rparr>)"
    using assms(1) by (simp add: zoned_def clock_ok_def)
  with b assms(2) show ?thesis
    by (auto simp: note_condition_def Let_def memory_ok_def)
qed

lemma rfold_total:
  assumes "I s" "\<And>a x. I a \<Longrightarrow> x \<in> set xs \<Longrightarrow> \<exists>b. f a x = Inr b \<and> I b"
  shows "\<exists>t. rfold f s xs = Inr t \<and> I t"
  using assms
proof (induction xs arbitrary: s)
  case (Cons x xs)
  from Cons.prems(2) [OF Cons.prems(1), of x] obtain b where b: "f s x = Inr b" "I b" by auto
  have "\<exists>t. rfold f b xs = Inr t \<and> I t" by (rule Cons.IH [OF b(2)]) (use Cons.prems(2) in auto)
  with b(1) show ?case by simp
qed simp

lemma clear_total:
  assumes "memory_ok K mem" "distinct ks" "set ks \<subseteq> set (dict_keys mem)"
  shows "\<exists>mem'. rfold (clear_key K now e) mem ks = Inr mem' \<and> memory_ok K mem'"
  using assms
proof (induction ks arbitrary: mem)
  case (Cons k ks)
  then obtain sn where sn: "dict_get mem k = Some sn"
    by (metis dict_get_keys insert_subset list.simps(15) option.exhaust)
  then have z: "zoned K sn" using Cons.prems(1) by (auto simp: memory_ok_def)
  then obtain b where b: "forgotten (ck_fromiso K) (sn\<lparr>sn_active := False\<rparr>) now = Inr b"
    using forgotten_total [of K "sn\<lparr>sn_active := False\<rparr>"] by auto
  let ?m = "if e \<in> set EDGE_EVENTS \<and> \<not> b then dict_set mem k (sn\<lparr>sn_active := False\<rparr>) else dict_del mem k"
  have c: "clear_key K now e mem k = Inr ?m" using sn b by (simp add: clear_key_def Let_def)
  have ok: "memory_ok K ?m" using Cons.prems(1) z by (auto simp: memory_ok_def)
  have "x \<in> set (dict_keys ?m)" if "x \<in> set ks" for x
  proof -
    have "x \<noteq> k" "dict_get mem x \<noteq> None" using Cons.prems(2,3) that by (auto simp: dict_get_keys)
    then have "dict_get ?m x \<noteq> None" by simp
    then show ?thesis by (meson dict_get_keys)
  qed
  then have "set ks \<subseteq> set (dict_keys ?m)" by blast
  with Cons.IH [OF ok] Cons.prems(2) c show ?case by simp
qed simp

lemma judge_total:
  assumes "clock_ok K" "memory_ok K (snd acc)"
  shows "\<exists>b. judge_finding K now st acc f = Inr b \<and> memory_ok K (snd b)"
proof -
  have "\<exists>b. rfold (note_condition K now st (fd_event f)) acc (current_of f) = Inr b \<and> memory_ok K (snd b)"
  proof (rule rfold_total [where I = "\<lambda>a. memory_ok K (snd a)"])
    show "\<exists>b. note_condition K now st (fd_event f) a x = Inr b \<and> memory_ok K (snd b)"
      if "memory_ok K (snd a)" for a x
      using note_total [OF assms(1) that, of now st "fd_event f" "fst a" "fst x" "snd x"] by auto
  qed (rule assms(2))
  then obtain new mem where n: "rfold (note_condition K now st (fd_event f)) acc (current_of f) = Inr (new, mem)"
      "memory_ok K mem" by auto
  have "distinct (gone_keys f mem)" using n(2) by (simp add: gone_keys_def memory_ok_def dict_ok_def)
  moreover have "set (gone_keys f mem) \<subseteq> set (dict_keys mem)" by (auto simp: gone_keys_def)
  ultimately obtain mem' where "rfold (clear_key K now (fd_event f)) mem (gone_keys f mem) = Inr mem'" "memory_ok K mem'"
    using clear_total [OF n(2)] by blast
  with n(1) show ?thesis by (simp add: judge_finding_def)
qed

lemma pass_total:
  assumes "clock_ok K" "memory_ok K mem"
  shows "\<exists>new mem'. rfold (judge_finding K now st) (n0, mem) fs = Inr (new, mem') \<and> memory_ok K mem'"
proof -
  have "\<exists>b. rfold (judge_finding K now st) (n0, mem) fs = Inr b \<and> memory_ok K (snd b)"
    by (rule rfold_total [where I = "\<lambda>a. memory_ok K (snd a)"]) (use assms judge_total in auto)
  then show ?thesis by auto
qed

lemma decide_total:
  assumes "clock_ok K" "memory_ok K (ns_seen st)"
  shows "\<exists>new st'. decide K fs now s st = Inr (new, st') \<and> memory_ok K (ns_seen st')"
  using pass_total [OF assms, where now = now and st = s and fs = fs and ?n0.0 = "[]"] by (auto simp: decide_def)

text \<open>C5: Each occurrence is reported once: a pass over a readable memory ends, and a later pass that sees the same
  conditions, at whatever time and with whatever settings, ends too and reports nothing.\<close>

theorem decide_reports_once:
  assumes "clock_ok K" "memory_ok K (ns_seen st)" "scopes_apart findings"
  shows "\<exists>new st1. decide K findings now s st = Inr (new, st1) \<and>
    (\<forall>now' s'. \<exists>st2. decide K findings now' s' st1 = Inr ([], st2))"
proof -
  obtain new mem where p: "rfold (judge_finding K now s) ([], ns_seen st) findings = Inr (new, mem)" "memory_ok K mem"
    using pass_total [OF assms(1,2)] by blast
  have settled: "\<forall>f \<in> set findings. settled mem (current_of f)" using pass_settles [OF p(1) assms(3)] by simp
  have "\<exists>st2. decide K findings now' s' (st\<lparr>ns_seen := mem\<rparr>) = Inr ([], st2)" for now' s'
  proof -
    obtain new2 mem2 where q: "rfold (judge_finding K now' s') ([], mem) findings = Inr (new2, mem2)"
      using pass_total [OF assms(1) p(2)] by blast
    from pass_quiet [OF q assms(3) settled] q show ?thesis by (simp add: decide_def)
  qed
  with p(1) show ?thesis by (auto simp: decide_def)
qed

section \<open>The debounce window\<close>

definition reported_key :: "condition \<Rightarrow> string" where
  "reported_key c = seen_key (cd_event c) (cd_key c)"

definition well_labelled :: "finding list \<Rightarrow> bool" where
  "well_labelled fs \<longleftrightarrow> (\<forall>f \<in> set fs. \<forall>c \<in> set (fd_conditions f). cd_event c = fd_event f)"

lemma current_key: "well_labelled fs \<Longrightarrow> f \<in> set fs \<Longrightarrow> (k, c) \<in> set (current_of f) \<Longrightarrow> reported_key c = k"
  by (auto simp: current_of_def well_labelled_def reported_key_def dest!: dict_of_mem)

text \<open>
  One pass, as an invariant over its two loops: what holds of the conditions reported so far and of the memory, is kept
  by noting a condition and by clearing a key, holds at the end.
\<close>

lemma pass_invariant:
  assumes "rfold (judge_finding K now s) acc fs = Inr acc'" "I (fst acc) (snd acc)"
    and noted: "\<And>f new mem k c new' mem'. f \<in> set fs \<Longrightarrow> (k, c) \<in> set (current_of f) \<Longrightarrow> I new mem \<Longrightarrow>
      note_condition K now s (fd_event f) (new, mem) (k, c) = Inr (new', mem') \<Longrightarrow> I new' mem'"
    and cleared: "\<And>f new mem k mem'. f \<in> set fs \<Longrightarrow> startswith k (prefix_of f) \<Longrightarrow> k \<notin> keys_of f \<Longrightarrow> I new mem \<Longrightarrow>
      clear_key K now (fd_event f) mem k = Inr mem' \<Longrightarrow> I new mem'"
  shows "I (fst acc') (snd acc')"
proof (rule rfold_invariant [OF assms(1), where I = "\<lambda>a. I (fst a) (snd a)"])
  fix a f b assume a: "I (fst a) (snd a)" and f: "f \<in> set fs" and j: "judge_finding K now s a f = Inr b"
  obtain new' mem' where b: "b = (new', mem')" by (cases b)
  from j [unfolded b] obtain m1 where
    n: "rfold (note_condition K now s (fd_event f)) a (current_of f) = Inr (new', m1)" and
    c: "rfold (clear_key K now (fd_event f)) m1 (gone_keys f m1) = Inr mem'" by (rule judge_parts)
  have "I (fst (new', m1)) (snd (new', m1))"
  proof (rule rfold_invariant [OF n, where I = "\<lambda>a. I (fst a) (snd a)"])
    fix x kc y assume "I (fst x) (snd x)" "kc \<in> set (current_of f)" "note_condition K now s (fd_event f) x kc = Inr y"
    then show "I (fst y) (snd y)" using noted [OF f, of "fst kc" "snd kc" "fst x" "snd x" "fst y" "snd y"] by simp
  qed (rule a)
  then have "I new' m1" by simp
  moreover have "I new' mem'"
  proof (rule rfold_invariant [OF c, where I = "I new'"])
    fix x k y assume "I new' x" "k \<in> set (gone_keys f m1)" "clear_key K now (fd_event f) x k = Inr y"
    then show "I new' y" using cleared [OF f, of k new' x y] by (simp add: gone_keys_def keys_of_def)
  qed (rule \<open>I new' m1\<close>)
  ultimately show "I (fst b) (snd b)" by (simp add: b)
qed (use assms(2) in simp)

lemma decide_invariant:
  assumes "decide K fs now s st = Inr (new, st')" "I [] (ns_seen st)"
    and "\<And>f new mem k c new' mem'. f \<in> set fs \<Longrightarrow> (k, c) \<in> set (current_of f) \<Longrightarrow> I new mem \<Longrightarrow>
      note_condition K now s (fd_event f) (new, mem) (k, c) = Inr (new', mem') \<Longrightarrow> I new' mem'"
    and "\<And>f new mem k mem'. f \<in> set fs \<Longrightarrow> startswith k (prefix_of f) \<Longrightarrow> k \<notin> keys_of f \<Longrightarrow> I new mem \<Longrightarrow>
      clear_key K now (fd_event f) mem k = Inr mem' \<Longrightarrow> I new mem'"
  shows "I new (ns_seen st')"
proof -
  from assms(1) obtain mem where p: "rfold (judge_finding K now s) ([], ns_seen st) fs = Inr (new, mem)"
      "st' = st\<lparr>ns_seen := mem\<rparr>" by (auto simp: decide_def rbind_eq_Inr)
  have "I (fst (new, mem)) (snd (new, mem))"
    by (rule pass_invariant [OF p(1)]) (use assms(2-4) in auto)
  with p(2) show ?thesis by simp
qed

text \<open>The memory knows that \<open>k\<close> was last reported at \<open>t\<close>, or that was so long before \<open>now\<close> that it may be forgotten.\<close>

definition since :: "clock \<Rightarrow> instant \<Rightarrow> string \<Rightarrow> instant \<Rightarrow> memory \<Rightarrow> bool" where
  "since K t k now mem \<longleftrightarrow>
     (\<exists>sn. dict_get mem k = Some sn \<and> sn_last_sent sn = ck_iso K t) \<or> t + FORGET_AFTER < now"

lemma since_clear:
  assumes "clock_ok K" "since K t k T mem" "clear_key K now e mem j = Inr mem'" "e \<in> set EDGE_EVENTS \<or> j \<noteq> k" "now \<le> T"
  shows "since K t k T mem'"
proof (cases "j = k \<and> \<not> t + FORGET_AFTER < T")
  case True
  with assms(2) obtain sn where sn: "dict_get mem k = Some sn" "sn_last_sent sn = ck_iso K t" by (auto simp: since_def)
  have "forgotten (ck_fromiso K) (sn\<lparr>sn_active := False\<rparr>) now = Inr (now - t > FORGET_AFTER)"
    using assms(1) sn(2) by (simp add: forgotten_def age_of_def clock_ok_def)
  moreover have "\<not> now - t > FORGET_AFTER" using True assms(5) by simp
  ultimately have "mem' = dict_set mem k (sn\<lparr>sn_active := False\<rparr>)"
    using assms(3,4) True sn(1) by (simp add: clear_key_def Let_def)
  then show ?thesis using sn(2) by (simp add: since_def)
next
  case False
  then show ?thesis using assms(2,3)
    by (auto simp: since_def clear_key_def rbind_eq_Inr Let_def split: option.splits if_splits)
qed

lemma since_note:
  assumes "since K t k T mem" "note_condition K now s e (new, mem) (j, c) = Inr (new', mem')"
    and "j = k \<longrightarrow> new' = new"
  shows "since K t k T mem'"
proof -
  from assms(2) obtain fire sn where f: "fires K now s e (dict_get mem j) (cd_marker c) = Inr fire"
      "new' = (if fire then new @ [c] else new)" "mem' = dict_set mem j sn"
      "sn_last_sent sn = (if fire then ck_iso K now else (case dict_get mem j of None \<Rightarrow> [] | Some w \<Rightarrow> sn_last_sent w))"
    by (rule note_step)
  show ?thesis
  proof (cases "j = k")
    case True
    then have "\<not> fire" using assms(3) f(2) by (auto split: if_splits)
    then show ?thesis using assms(1) f(3,4) True by (auto simp: since_def)
  qed (use assms(1) f(3) in \<open>auto simp: since_def\<close>)
qed

lemma edge_service [simp]: "SERVICE_UNHEALTHY \<in> set EDGE_EVENTS"
  by (simp add: EDGE_EVENTS_def)

lemma service_prefix: "startswith (seen_key SERVICE_UNHEALTHY x) (prefix_of f) \<Longrightarrow> fd_event f = SERVICE_UNHEALTHY"
  by (simp add: prefix_of_def)

lemma current_event: "(seen_key e x, c) \<in> set (current_of f) \<Longrightarrow> fd_event f = e"
  by (auto simp: current_of_def dest!: dict_of_mem)

lemma report_recorded:
  assumes "clock_ok K" "decide K fs t s st = Inr (new, st')" "well_labelled fs"
    and "c \<in> set new" "reported_key c = seen_key SERVICE_UNHEALTHY x" "t \<le> T"
  shows "since K t (seen_key SERVICE_UNHEALTHY x) T (ns_seen st')"
proof -
  let ?k = "seen_key SERVICE_UNHEALTHY x"
  let ?I = "\<lambda>new mem. (\<exists>c \<in> set new. reported_key c = ?k) \<longrightarrow> since K t ?k t mem"
  have "?I new (ns_seen st')"
  proof (rule decide_invariant [OF assms(2)])
    fix f new mem k c new' mem'
    assume h: "f \<in> set fs" "(k, c) \<in> set (current_of f)" "?I new mem"
      "note_condition K t s (fd_event f) (new, mem) (k, c) = Inr (new', mem')"
    from h(4) obtain fire sn where f: "new' = (if fire then new @ [c] else new)" "mem' = dict_set mem k sn"
        "sn_last_sent sn = (if fire then ck_iso K t else (case dict_get mem k of None \<Rightarrow> [] | Some w \<Rightarrow> sn_last_sent w))"
      by (rule note_step)
    have rk: "reported_key c = k" using current_key [OF assms(3) h(1,2)] .
    show "?I new' mem'"
    proof (cases "fire \<and> k = ?k")
      case True
      then show ?thesis using f by (simp add: since_def)
    next
      case False
      then show ?thesis using h(3,4) f(1) rk since_note [OF _ h(4), of t ?k t] by (auto split: if_splits)
    qed
  next
    fix f new mem k mem'
    assume h: "f \<in> set fs" "startswith k (prefix_of f)" "k \<notin> keys_of f" "?I new mem"
      "clear_key K t (fd_event f) mem k = Inr mem'"
    have "fd_event f \<in> set EDGE_EVENTS \<or> k \<noteq> ?k" using service_prefix h(2) by auto
    then show "?I new mem'" using since_clear [OF assms(1) _ h(5), of t ?k t] h(4) by auto
  qed simp
  then have "since K t ?k t (ns_seen st')" using assms(4,5) by blast
  then show ?thesis using assms(6) by (auto simp: since_def)
qed

text \<open>Passes up to the time \<open>T\<close> in none of which \<open>k\<close> is reported.\<close>

inductive quiet_run :: "clock \<Rightarrow> string \<Rightarrow> instant \<Rightarrow> notify_state \<Rightarrow> notify_state \<Rightarrow> bool" for K k T st where
  quiet_start: "quiet_run K k T st st"
| quiet_pass: "quiet_run K k T st st1 \<Longrightarrow> decide K fs now s st1 = Inr (new, st2) \<Longrightarrow> well_labelled fs \<Longrightarrow> now \<le> T \<Longrightarrow>
    k \<notin> reported_key ` set new \<Longrightarrow> quiet_run K k T st st2"

definition gap_or_known :: "clock \<Rightarrow> instant \<Rightarrow> string \<Rightarrow> instant \<Rightarrow> timedelta \<Rightarrow> condition list \<Rightarrow> memory \<Rightarrow> bool" where
  "gap_or_known K t k now d new mem \<longleftrightarrow>
     (k \<notin> reported_key ` set new \<and> since K t k now mem) \<or> d \<le> now - t"

lemma fire_outside:
  assumes "clock_ok K" "since K t k now mem" "fires K now s SERVICE_UNHEALTHY (dict_get mem k) m = Inr True"
    and "es_debounce_minutes s \<le> 1440"
  shows "es_debounce_minutes s * us_minute \<le> now - t"
proof -
  consider sn where "dict_get mem k = Some sn" "sn_last_sent sn = ck_iso K t" | "t + FORGET_AFTER < now"
    using assms(2) by (auto simp: since_def)
  then show ?thesis
  proof cases
    case 1
    then show ?thesis using assms(1,3)
      by (auto simp: fires_def outside_window_def age_of_def clock_ok_def split: if_splits)
  next
    case 2
    then show ?thesis using assms(4) by (simp add: FORGET_AFTER_def)
  qed
qed

lemma pass_gap:
  assumes "clock_ok K" "decide K fs now s st = Inr (new, st')" "well_labelled fs" "es_debounce_minutes s \<le> 1440"
    and "since K t (seen_key SERVICE_UNHEALTHY x) now (ns_seen st)"
  shows "gap_or_known K t (seen_key SERVICE_UNHEALTHY x) now (es_debounce_minutes s * us_minute) new (ns_seen st')"
    (is "?I new (ns_seen st')")
proof (rule decide_invariant [OF assms(2)])
  show "?I [] (ns_seen st)" using assms(5) by (simp add: gap_or_known_def)
next
  fix f new mem k c new' mem'
  let ?k = "seen_key SERVICE_UNHEALTHY x"
  assume h: "f \<in> set fs" "(k, c) \<in> set (current_of f)" "?I new mem"
    "note_condition K now s (fd_event f) (new, mem) (k, c) = Inr (new', mem')"
  show "?I new' mem'"
  proof (cases "es_debounce_minutes s * us_minute \<le> now - t")
    case False
    then have known: "?k \<notin> reported_key ` set new" "since K t ?k now mem" using h(3) by (auto simp: gap_or_known_def)
    from h(4) obtain fire sn where f: "fires K now s (fd_event f) (dict_get mem k) (cd_marker c) = Inr fire"
        "new' = (if fire then new @ [c] else new)" by (rule note_step)
    have rk: "reported_key c = k" using current_key [OF assms(3) h(1,2)] .
    have "\<not> (fire \<and> k = ?k)"
    proof
      assume a: "fire \<and> k = ?k"
      then have "fd_event f = SERVICE_UNHEALTHY" using h(2) current_event by blast
      with fire_outside [OF assms(1) known(2)] f(1) a assms(4) False show False by auto
    qed
    then show ?thesis using known f(2) rk since_note [OF known(2) h(4)] by (auto simp: gap_or_known_def split: if_splits)
  qed (simp add: gap_or_known_def)
next
  fix f new mem k mem'
  let ?k = "seen_key SERVICE_UNHEALTHY x"
  assume h: "f \<in> set fs" "startswith k (prefix_of f)" "k \<notin> keys_of f" "?I new mem"
    "clear_key K now (fd_event f) mem k = Inr mem'"
  have "fd_event f \<in> set EDGE_EVENTS \<or> k \<noteq> ?k" using service_prefix h(2) by auto
  then show "?I new mem'" using since_clear [OF assms(1) _ h(5), of t ?k now] h(4) by (auto simp: gap_or_known_def)
qed

lemma quiet_since:
  assumes "quiet_run K k T st st'" "clock_ok K" "k = seen_key SERVICE_UNHEALTHY x" "since K t k T (ns_seen st)"
  shows "since K t k T (ns_seen st')"
  using assms
proof (induction rule: quiet_run.induct)
  case (quiet_pass st1 fs now s new st2)
  let ?I = "\<lambda>new mem. k \<notin> reported_key ` set new \<longrightarrow> since K t k T mem"
  have "?I new (ns_seen st2)"
  proof (rule decide_invariant [OF quiet_pass(2)])
    show "?I [] (ns_seen st1)" using quiet_pass by simp
  next
    fix f new mem j c new' mem'
    assume h: "f \<in> set fs" "(j, c) \<in> set (current_of f)" "?I new mem"
      "note_condition K now s (fd_event f) (new, mem) (j, c) = Inr (new', mem')"
    from h(4) obtain fire where "new' = (if fire then new @ [c] else new)" by (rule note_step)
    then show "?I new' mem'"
      using h(3) since_note [OF _ h(4), of t k T] current_key [OF quiet_pass(3) h(1,2)] by (auto split: if_splits)
  next
    fix f new mem j mem'
    assume h: "f \<in> set fs" "startswith j (prefix_of f)" "j \<notin> keys_of f" "?I new mem"
      "clear_key K now (fd_event f) mem j = Inr mem'"
    have "fd_event f \<in> set EDGE_EVENTS \<or> j \<noteq> k" using service_prefix h(2) quiet_pass.prems(2) by auto
    then show "?I new mem'" using since_clear [OF quiet_pass.prems(1) _ h(5), of t k T] h(4) quiet_pass(4) by auto
  qed
  then show ?case using quiet_pass(5) by blast
qed simp

text \<open>C13: A service that flaps is reported at most once per debounce window: two reports of the same service with none in
  between, over whatever passes lie between them, are at least the window of the later pass apart.\<close>

theorem flapping_debounced:
  assumes "clock_ok K"
    and "decide K fs t1 s1 st = Inr (new1, st1)" "well_labelled fs" "c1 \<in> set new1"
    and "reported_key c1 = seen_key SERVICE_UNHEALTHY x"
    and "quiet_run K (seen_key SERVICE_UNHEALTHY x) t2 st1 st2" "t1 \<le> t2"
    and "decide K gs t2 s2 st2 = Inr (new2, st3)" "well_labelled gs" "c2 \<in> set new2"
    and "reported_key c2 = seen_key SERVICE_UNHEALTHY x" "es_debounce_minutes s2 \<le> 1440"
  shows "es_debounce_minutes s2 * us_minute \<le> t2 - t1"
proof -
  have "since K t1 (seen_key SERVICE_UNHEALTHY x) t2 (ns_seen st1)"
    by (rule report_recorded [OF assms(1-5,7)])
  then have "since K t1 (seen_key SERVICE_UNHEALTHY x) t2 (ns_seen st2)"
    using quiet_since [OF assms(6,1) refl] by blast
  from pass_gap [OF assms(1,8,9,12) this] assms(10,11) show ?thesis by (force simp: gap_or_known_def)
qed

section \<open>An outage inside the window\<close>

text \<open>Passes that all still see \<open>k\<close>, with everything they reported.\<close>

inductive lasting :: "clock \<Rightarrow> string \<Rightarrow> notify_state \<Rightarrow> condition list \<Rightarrow> notify_state \<Rightarrow> bool" for K k st where
  lasting_start: "lasting K k st [] st"
| lasting_pass: "lasting K k st reports st1 \<Longrightarrow> decide K fs now s st1 = Inr (new, st2) \<Longrightarrow> well_labelled fs \<Longrightarrow>
    scopes_apart fs \<Longrightarrow> (\<exists>f \<in> set fs. k \<in> keys_of f) \<Longrightarrow> lasting K k st (reports @ new) st2"

definition known_active :: "string \<Rightarrow> condition list \<Rightarrow> memory \<Rightarrow> bool" where
  "known_active k new mem \<longleftrightarrow> k \<notin> reported_key ` set new \<and> (\<exists>sn. dict_get mem k = Some sn \<and> sn_active sn)"

lemma scopes_apart_once:
  assumes "scopes_apart fs" "f \<in> set fs" "k \<in> keys_of f" "g \<in> set fs" "startswith k (prefix_of g)"
  shows "g = f"
proof -
  from assms(1) have "sorted_wrt apart fs" by (simp add: scopes_apart_def)
  then have "f = g \<or> apart f g \<or> apart g f" using assms(2,4)
    by (induction fs) (auto)
  with assms(3,5) show ?thesis by (auto simp: apart_def)
qed

lemma pass_known_active:
  assumes "decide K fs now s st = Inr (new, st')" "well_labelled fs" "scopes_apart fs"
    and "f \<in> set fs" "k \<in> keys_of f" "k = seen_key SERVICE_UNHEALTHY x" "known_active k [] (ns_seen st)"
  shows "known_active k new (ns_seen st')"
proof (rule decide_invariant [where I = "known_active k", OF assms(1,7)])
  fix g new mem j c new' mem'
  assume h: "g \<in> set fs" "(j, c) \<in> set (current_of g)" "known_active k new mem"
    "note_condition K now s (fd_event g) (new, mem) (j, c) = Inr (new', mem')"
  from h(4) obtain fire sn where n: "fires K now s (fd_event g) (dict_get mem j) (cd_marker c) = Inr fire"
      "new' = (if fire then new @ [c] else new)" "mem' = dict_set mem j sn" "sn_active sn" by (rule note_step)
  have rk: "reported_key c = j" using current_key [OF assms(2) h(1,2)] .
  have "\<not> (fire \<and> j = k)"
  proof
    assume a: "fire \<and> j = k"
    then have "fd_event g = SERVICE_UNHEALTHY" using h(2) current_event assms(6) by blast
    then show False using n(1) a h(3) by (auto simp: fires_def known_active_def)
  qed
  then show "known_active k new' mem'" using h(3) n rk by (auto simp: known_active_def split: if_splits)
next
  fix g new mem j mem'
  assume h: "g \<in> set fs" "startswith j (prefix_of g)" "j \<notin> keys_of g" "known_active k new mem"
    "clear_key K now (fd_event g) mem j = Inr mem'"
  have "j \<noteq> k" using scopes_apart_once [OF assms(3-5) h(1)] h(2,3) assms(5) by auto
  then show "known_active k new mem'"
    using h(4,5) by (auto simp: known_active_def clear_key_def rbind_eq_Inr Let_def split: option.splits if_splits)
qed

lemma lasting_known_active:
  assumes "lasting K k st reports st'" "k = seen_key SERVICE_UNHEALTHY x" "known_active k [] (ns_seen st)"
  shows "known_active k reports (ns_seen st')"
  using assms
proof (induction rule: lasting.induct)
  case (lasting_pass reports st1 fs now s new st2)
  then obtain f where f: "f \<in> set fs" "k \<in> keys_of f" by blast
  have "known_active k [] (ns_seen st1)" using lasting_pass by (simp add: known_active_def)
  from pass_known_active [OF lasting_pass(2-4) f lasting_pass.prems(1) this] lasting_pass show ?case
    by (auto simp: known_active_def)
qed simp

text \<open>An outage that begins inside the debounce window of an earlier report is not reported by the pass that first sees
  it, and then not by any later pass either, for as long as the service stays down.\<close>

theorem suppressed_outage_never_reported:
  assumes "clock_ok K" "dict_get (ns_seen st) (seen_key SERVICE_UNHEALTHY x) = Some sn" "\<not> sn_active sn"
    and "sn_last_sent sn = ck_iso K t" "now - t < es_debounce_minutes s * us_minute"
    and "decide K [f] now s st = Inr (new, st1)" "well_labelled [f]" "seen_key SERVICE_UNHEALTHY x \<in> keys_of f"
    and "lasting K (seen_key SERVICE_UNHEALTHY x) st1 reports st2"
  shows "seen_key SERVICE_UNHEALTHY x \<notin> reported_key ` set (new @ reports)"
proof -
  let ?k = "seen_key SERVICE_UNHEALTHY x"
  let ?I = "\<lambda>new mem. ?k \<notin> reported_key ` set new \<and>
    (\<exists>sn. dict_get mem ?k = Some sn \<and> (sn_active sn \<or> sn_last_sent sn = ck_iso K t))"
  have first: "?I new (ns_seen st1)"
  proof (rule decide_invariant [OF assms(6)])
    show "?I [] (ns_seen st)" using assms(2,4) by simp
  next
    fix g new mem j c new' mem'
    assume h: "g \<in> set [f]" "(j, c) \<in> set (current_of g)" "?I new mem"
      "note_condition K now s (fd_event g) (new, mem) (j, c) = Inr (new', mem')"
    from h(4) obtain fire sn' where n: "fires K now s (fd_event g) (dict_get mem j) (cd_marker c) = Inr fire"
        "new' = (if fire then new @ [c] else new)" "mem' = dict_set mem j sn'" "sn_active sn'" by (rule note_step)
    have rk: "reported_key c = j" using current_key [OF assms(7) h(1,2)] .
    have "\<not> (fire \<and> j = ?k)"
    proof
      assume a: "fire \<and> j = ?k"
      then have "fd_event g = SERVICE_UNHEALTHY" using h(2) current_event by blast
      then show False using n(1) a h(3) assms(1,5)
        by (auto simp: fires_def outside_window_def age_of_def clock_ok_def split: if_splits)
    qed
    then show "?I new' mem'" using h(3) n rk by (auto split: if_splits)
  next
    fix g new mem j mem'
    assume h: "g \<in> set [f]" "startswith j (prefix_of g)" "j \<notin> keys_of g" "?I new mem"
      "clear_key K now (fd_event g) mem j = Inr mem'"
    then have "j \<noteq> ?k" using assms(8) by auto
    then show "?I new mem'"
      using h(4,5) by (auto simp: clear_key_def rbind_eq_Inr Let_def split: option.splits if_splits)
  qed
  from assms(6) obtain mem where "judge_finding K now s ([], ns_seen st) f = Inr (new, mem)" "ns_seen st1 = mem"
    by (auto simp: decide_def rbind_eq_Inr)
  then have "settled (ns_seen st1) (current_of f)" using judge_settles by blast
  then have "known_active ?k [] (ns_seen st1)" using assms(8)
    by (force simp: settled_def keys_of_def known_active_def)
  from lasting_known_active [OF assms(9) refl this] first show ?thesis by (auto simp: known_active_def)
qed

section \<open>Services that are gone\<close>

text \<open>What is known to have run after looking at some readings of the stack, one after the other.\<close>

definition known_after :: "i18n \<Rightarrow> stack_snapshot list \<Rightarrow> string set \<Rightarrow> string set" where
  "known_after I ss up = foldl (\<lambda>up s. snd (service_findings I s up)) up ss"

definition still_known :: "string \<Rightarrow> stack_snapshot \<Rightarrow> bool" where
  "still_known l s \<longleftrightarrow>
     dict_get (labelled s) l \<noteq> None \<or> (\<exists>n \<in> set (unreachable_nodes s). startswith l (nh_name n @ ''/''))"

lemma known_kept: "l \<in> up \<Longrightarrow> list_all (still_known l) ss \<Longrightarrow> l \<in> known_after I ss up"
  unfolding known_after_def
proof (induction ss arbitrary: up)
  case (Cons s ss)
  have "l \<in> snd (service_findings I s up)" using Cons.prems
    by (auto simp: service_findings_def up_after_def still_known_def dict_get_keys)
  with Cons show ?case by simp
qed simp

lemma labelled_ok: "dict_ok (labelled s)"
  by (simp add: labelled_def)

lemma module_conditions_key:
  "l \<in> cd_key ` set (module_conditions I up (labelled s)) \<longleftrightarrow>
     (\<exists>m. dict_get (labelled s) l = Some m \<and> down_message I up l m \<noteq> None)"
proof
  assume "l \<in> cd_key ` set (module_conditions I up (labelled s))"
  then obtain m msg where "(l, m) \<in> set (labelled s)" "down_message I up l m = Some msg"
    by (fastforce simp: module_conditions_def module_condition_def split: option.splits)
  then show "\<exists>m. dict_get (labelled s) l = Some m \<and> down_message I up l m \<noteq> None"
    using dict_get_mem [OF labelled_ok] by fastforce
next
  assume "\<exists>m. dict_get (labelled s) l = Some m \<and> down_message I up l m \<noteq> None"
  then obtain m msg where m: "(l, m) \<in> set (labelled s)" "down_message I up l m = Some msg"
    using dict_get_in by fastforce
  then have "module_condition I l m msg \<in> set (module_conditions I up (labelled s))"
    by (force simp: module_conditions_def)
  then show "l \<in> cd_key ` set (module_conditions I up (labelled s))" by (force simp: module_condition_def)
qed

text \<open>A service whose containers are gone is an outage exactly when it was seen running: once a reading showed it deployed,
  and every reading since still listed it or its node was silent, a reading that shows it missing reports it; a missing
  service that is not known to have run is not reported.\<close>

theorem gone_service_reported:
  assumes "dict_get (labelled s1) l = Some m1" "module_health m1 \<in> set DEPLOYED" "list_all (still_known l) ss"
    and "dict_get (labelled s2) l = Some m2" "module_health m2 = MISSING"
  shows "l \<in> cd_key ` set (module_conditions I (known_after I (s1 # ss) up) (labelled s2))
    \<and> (\<forall>up'. l \<notin> up' \<longrightarrow> l \<notin> cd_key ` set (module_conditions I up' (labelled s2)))"
proof -
  have "l \<in> snd (service_findings I s1 up)"
    using assms(1,2) dict_get_in [of "labelled s1" l m1]
    by (force simp: service_findings_def up_after_def)
  from known_kept [OF this assms(3)] have "l \<in> known_after I (s1 # ss) up" by (simp add: known_after_def)
  with assms(4,5) show ?thesis by (auto simp: module_conditions_key down_message_def)
qed

section \<open>A clock, and the properties at work\<close>

text \<open>A clock that writes an instant in binary after \<open>T\<close>, and reads a text after \<open>N\<close> as one without a zone.\<close>

function bits :: "int \<Rightarrow> string" where
  "bits n = (if n \<le> 0 then [] else bits (n div 2) @ [if n mod 2 = 0 then CHR ''0'' else CHR ''1''])"
  by auto
termination by (relation "measure nat") auto

declare bits.simps [simp del]

definition unbits :: "string \<Rightarrow> int" where
  "unbits s = foldl (\<lambda>a c. 2 * a + (if c = CHR ''1'' then 1 else 0)) 0 s"

lemma unbits_bits: "0 \<le> n \<Longrightarrow> unbits (bits n) = n"
proof (induction n rule: bits.induct)
  case (1 n)
  show ?case
  proof (cases "n \<le> 0")
    case False
    then have "unbits (bits (n div 2)) = n div 2" using 1 by simp
    moreover have "2 * (n div 2) + (if n mod 2 = 0 then 0 else 1) = n" by presburger
    ultimately show ?thesis using False by (subst bits.simps) (auto simp: unbits_def split: if_splits)
  qed (use 1 in \<open>subst bits.simps, simp add: unbits_def\<close>)
qed

definition demo_clock :: clock where
  "demo_clock =
     \<lparr>ck_iso = (\<lambda>t. CHR ''T'' # (if t < 0 then CHR ''-'' else CHR ''+'') # bits \<bar>t\<bar>),
      ck_fromiso = (\<lambda>s. case s of
          c # d # r \<Rightarrow>
            if c = CHR ''T'' then Some (Aware (if d = CHR ''-'' then - unbits r else unbits r))
            else if c = CHR ''N'' then Some (Naive 0) else None
        | _ \<Rightarrow> None)\<rparr>"

lemma demo_clock_ok: "clock_ok demo_clock"
  by (simp add: clock_ok_def demo_clock_def unbits_bits)

definition demo_down :: finding where
  "demo_down = \<lparr>fd_event = SERVICE_UNHEALTHY, fd_conditions =
     [\<lparr>cd_event = SERVICE_UNHEALTHY, cd_key = ''litellm'', cd_marker = [], cd_subject = ''litellm'',
       cd_message = ''litellm is stopped'', cd_details = []\<rparr>], fd_scope = []\<rparr>"

definition demo_up :: finding where
  "demo_up = no_conditions SERVICE_UNHEALTHY []"

definition demo_memory :: "bool \<Rightarrow> instant \<Rightarrow> notify_state" where
  "demo_memory active t = \<lparr>ns_seen = [(''service_unhealthy|litellm'',
     \<lparr>sn_active = active, sn_marker = [], sn_last_sent = ck_iso demo_clock t\<rparr>)], ns_tests = [], ns_up = {}\<rparr>"

abbreviation minutes :: "int \<Rightarrow> instant" where "minutes n \<equiv> n * us_minute"

lemma demo_passes:
  "decide demo_clock [demo_down] 0 default_event_settings empty_state = Inr (fd_conditions demo_down, demo_memory True 0)"
  "decide demo_clock [demo_up] (minutes 1) default_event_settings (demo_memory True 0) = Inr ([], demo_memory False 0)"
  "decide demo_clock [demo_down] (minutes 10) default_event_settings (demo_memory False 0) = Inr ([], demo_memory True 0)"
  "decide demo_clock [demo_down] (minutes 40) default_event_settings (demo_memory False 0)
     = Inr (fd_conditions demo_down, demo_memory True (minutes 40))"
  "decide demo_clock [demo_down] (minutes 100) default_event_settings (demo_memory True 0) = Inr ([], demo_memory True 0)"
  by code_simp+

lemma demo_labelled: "well_labelled [demo_down]" "well_labelled [demo_up]" "scopes_apart [demo_down]" "scopes_apart [demo_up]"
  by code_simp+

theorem decide_reports_once_witness:
  "\<exists>st1. decide demo_clock [demo_down] 0 default_event_settings empty_state = Inr (fd_conditions demo_down, st1) \<and>
    (\<exists>st2. decide demo_clock [demo_down] (minutes 5) default_event_settings st1 = Inr ([], st2))"
proof -
  have "memory_ok demo_clock (ns_seen empty_state)" by (simp add: memory_ok_def empty_state_def)
  from decide_reports_once [OF demo_clock_ok this demo_labelled(3), of 0 default_event_settings] obtain new st1 where
    n: "decide demo_clock [demo_down] 0 default_event_settings empty_state = Inr (new, st1)"
      "\<forall>now' s'. \<exists>st2. decide demo_clock [demo_down] now' s' st1 = Inr ([], st2)" by blast
  then show ?thesis using demo_passes(1) by (intro exI [of _ st1]) simp
qed

theorem decide_keeps_unread_witness:
  "\<exists>new st'. decide demo_clock [no_conditions CERT_EXPIRING []] 0 default_event_settings (demo_memory True 0) = Inr (new, st')
    \<and> dict_get (ns_seen st') ''service_unhealthy|litellm'' = dict_get (ns_seen (demo_memory True 0)) ''service_unhealthy|litellm''"
proof -
  have d: "decide demo_clock [no_conditions CERT_EXPIRING []] 0 default_event_settings (demo_memory True 0)
      = Inr ([], demo_memory True 0)" by code_simp
  have "list_all in_scope [no_conditions CERT_EXPIRING []]" by code_simp
  moreover have "\<forall>f \<in> set [no_conditions CERT_EXPIRING []]. \<not> startswith ''service_unhealthy|litellm'' (prefix_of f)"
    by code_simp
  ultimately show ?thesis using decide_keeps_unread [OF d] d by blast
qed

theorem flapping_debounced_witness:
  "es_debounce_minutes default_event_settings * us_minute \<le> minutes 40 - 0"
proof (rule flapping_debounced [OF demo_clock_ok demo_passes(1) demo_labelled(1), where ?c1.0 = "hd (fd_conditions demo_down)"
      and ?c2.0 = "hd (fd_conditions demo_down)" and x = "''litellm''"])
  show "decide demo_clock [demo_down] (minutes 40) default_event_settings (demo_memory False 0)
     = Inr (fd_conditions demo_down, demo_memory True (minutes 40))" by (rule demo_passes(4))
  show "quiet_run demo_clock (seen_key SERVICE_UNHEALTHY ''litellm'') (minutes 40) (demo_memory True 0) (demo_memory False 0)"
    by (rule quiet_pass [OF quiet_start demo_passes(2) demo_labelled(2)]) simp_all
qed (simp_all add: demo_labelled, simp_all add: demo_down_def reported_key_def default_event_settings_def)

theorem suppressed_outage_never_reported_witness:
  "lasting demo_clock (seen_key SERVICE_UNHEALTHY ''litellm'') (demo_memory True 0) ([] @ []) (demo_memory True 0)
   \<and> seen_key SERVICE_UNHEALTHY ''litellm'' \<notin> reported_key ` set ([] @ ([] @ []))"
proof -
  have k: "seen_key SERVICE_UNHEALTHY ''litellm'' \<in> keys_of demo_down" by code_simp
  have l: "lasting demo_clock (seen_key SERVICE_UNHEALTHY ''litellm'') (demo_memory True 0) ([] @ []) (demo_memory True 0)"
    by (rule lasting_pass [OF lasting_start demo_passes(5) demo_labelled(1,3)]) (use k in simp)
  have "seen_key SERVICE_UNHEALTHY ''litellm'' \<notin> reported_key ` set ([] @ ([] @ []))"
  proof (rule suppressed_outage_never_reported [OF demo_clock_ok _ _ _ _ demo_passes(3) demo_labelled(1) k l, where t = 0])
    show "dict_get (ns_seen (demo_memory False 0)) (seen_key SERVICE_UNHEALTHY ''litellm'') =
        Some \<lparr>sn_active = False, sn_marker = [], sn_last_sent = ck_iso demo_clock 0\<rparr>"
      by code_simp
  qed (simp_all add: default_event_settings_def)
  with l show ?thesis by blast
qed

definition demo_stack :: "service_health \<Rightarrow> stack_snapshot" where
  "demo_stack h = empty_snapshot\<lparr>sk_core := [demo_module ''litellm'' [demo_container ''litellm'' [] h]]\<rparr>"

theorem gone_service_reported_witness:
  "''litellm'' \<in> cd_key ` set (module_conditions \<lparr>tr = (\<lambda>m _. m), ntr = (\<lambda>m _ _ _. m)\<rparr>
      (known_after \<lparr>tr = (\<lambda>m _. m), ntr = (\<lambda>m _ _ _. m)\<rparr> [demo_stack HEALTHY] {}) (labelled (demo_stack MISSING)))"
proof -
  have a: "dict_get (labelled (demo_stack h)) ''litellm'' = Some (demo_module ''litellm'' [demo_container ''litellm'' [] h])" for h
    by (simp add: demo_stack_def labelled_def empty_snapshot_def demo_module_def new_module_def module_label_def dict_of_def
        dict_get_def)
  have "module_health (demo_module ''litellm'' [demo_container ''litellm'' [] HEALTHY]) \<in> set DEPLOYED"
    "module_health (demo_module ''litellm'' [demo_container ''litellm'' [] MISSING]) = MISSING" by code_simp+
  from gone_service_reported [OF a this(1) _ a this(2), of "[]"] show ?thesis by simp
qed

end
