(* ===== verification/Notify_Service.thy ===== *)
theory Notify_Service
  imports Notify_Decide Audit_Log
begin

text \<open>
  Carrying out a notification (\<open>core/notifications/delivery.py\<close>) and the background task that looks for what calls for
  one (\<open>core/notifications/service.py\<close>).

  The mail relay and the HTTP client are functions: what they answer to a message, or to the first and the second post
  to a URL. An exception is its class name, which is all the source uses of it. A pass is one function from the service's
  state to the next; the record of what was handed to \<open>deliver\<close> (\<open>wt_sent\<close>) is a history variable.
\<close>

section \<open>One notification\<close>

record notification =
  nt_event :: string
  nt_severity :: severity
  nt_message :: string
  nt_subject :: string
  nt_details :: "(string, pyval) dict"
  nt_timestamp :: instant

definition TEST_EVENT :: string where "TEST_EVENT = ''test''"
definition NOTIFIER_USER :: string where "NOTIFIER_USER = ''notifier''"

text \<open>\<open>Event(value)\<close>; a value that names no event raises \<open>ValueError\<close>.\<close>

definition event_named :: "string \<Rightarrow> event option" where
  "event_named v = find_first (\<lambda>e. event_value e = v) (map ei_event CATALOGUE)"

definition label_of_event :: "event \<Rightarrow> string" where
  "label_of_event e = (case dict_get INFO_BY_EVENT e of None \<Rightarrow> [] | Some i \<Rightarrow> ei_label i)"

definition severity_of_event :: "event \<Rightarrow> severity" where
  "severity_of_event e = (case dict_get INFO_BY_EVENT e of None \<Rightarrow> SevInfo | Some i \<Rightarrow> ei_severity i)"

definition notification_label :: "notification \<Rightarrow> string + string" where
  "notification_label n =
     (if nt_event n = TEST_EVENT then Inr ''Test notification''
      else case event_named (nt_event n) of None \<Rightarrow> Inl ''ValueError'' | Some e \<Rightarrow> Inr (label_of_event e))"

definition payload :: "(instant \<Rightarrow> string) \<Rightarrow> notification \<Rightarrow> pyval" where
  "payload iso_seconds n = PDict
     [(''event'', PStr (nt_event n)), (''severity'', PStr (severity_value (nt_severity n))),
      (''message'', PStr (nt_message n)), (''timestamp'', PStr (iso_seconds (nt_timestamp n))),
      (''details'', PDict (nt_details n))]"

text \<open>Runs of control characters become one blank each.\<close>

definition is_control :: "char \<Rightarrow> bool" where
  "is_control c \<longleftrightarrow> code_of c < (32::nat) \<or> code_of c = (127::nat)"

fun sub_control :: "bool \<Rightarrow> string \<Rightarrow> string" where
  "sub_control in_run [] = []"
| "sub_control in_run (c # cs) =
     (if is_control c then (if in_run then sub_control True cs else CHR '' '' # sub_control True cs)
      else c # sub_control False cs)"

definition one_line :: "string \<Rightarrow> nat \<Rightarrow> string" where
  "one_line s limit = take limit (py_strip (sub_control False s))"

section \<open>Email\<close>

record mail_settings =
  ms_profile_on :: bool
  ms_host :: string
  ms_from_address :: string
  ms_from_name :: string

definition mail_configured :: "mail_settings \<Rightarrow> bool" where
  "mail_configured m \<longleftrightarrow> ms_host m \<noteq> [] \<and> ms_from_address m \<noteq> []"

record email =
  em_from_name :: string
  em_from_address :: string
  em_to :: string
  em_subject :: string
  em_message_id_domain :: string
  em_lines :: "string list"

definition detail_lines :: "(string, pyval) dict \<Rightarrow> string list" where
  "detail_lines details =
     map (\<lambda>(k, v). one_line k 40 @ '': '' @ one_line (py_str_of v) 200) (filter (\<lambda>kv. snd kv \<noteq> PNone) details)"

definition email_lines :: "(instant \<Rightarrow> string) \<Rightarrow> string \<Rightarrow> string \<Rightarrow> notification \<Rightarrow> string list" where
  "email_lines clock_text link label n =
     [nt_message n, [], ''Event:    '' @ label, ''Severity: '' @ severity_value (nt_severity n),
      ''Time:     '' @ clock_text (nt_timestamp n) @ '' UTC'']
     @ (if nt_details n \<noteq> [] then [] # detail_lines (nt_details n) else [])
     @ [[], ''-- '', ''Sent by the papAIa manager ('' @ link @ '').'',
        ''You get this because of the notification settings of the manager (Mail, Notifications).'']"

text \<open>\<open>from_address.rsplit("@", 1)[1]\<close> raises \<open>IndexError\<close> for an address without the sign.\<close>

definition build_email ::
  "(instant \<Rightarrow> string) \<Rightarrow> mail_settings \<Rightarrow> string \<Rightarrow> string \<Rightarrow> notification \<Rightarrow> string + email" where
  "build_email clock_text mail link to n =
     rbind (notification_label n) (\<lambda>label.
       case rpartition_char (CHR 0x40) (ms_from_address mail) of
         (_, False, _) \<Rightarrow> Inl ''IndexError''
       | (_, True, domain) \<Rightarrow>
           Inr \<lparr>em_from_name = one_line (ms_from_name mail) 200, em_from_address = ms_from_address mail, em_to = to,
                em_subject = one_line (''[papAIa] '' @ label @ '': '' @ nt_message n) 150,
                em_message_id_domain = domain, em_lines = email_lines clock_text link label n\<rparr>)"

section \<open>Webhooks\<close>

record send_result =
  sr_ok :: bool
  sr_reason :: string

datatype http_reply = Status int | TimedOutReply | ConnectFailed | HttpFailed string | OtherException string

definition webhook_failure :: "http_reply \<Rightarrow> string" where
  "webhook_failure r =
     (case r of
        TimedOutReply \<Rightarrow> ''the webhook did not answer in time''
      | ConnectFailed \<Rightarrow> ''could not connect to the webhook''
      | HttpFailed name \<Rightarrow> ''the post failed ('' @ name @ '')''
      | _ \<Rightarrow> [])"

text \<open>The attempts still to make, the reason so far and the answers; the result and how many posts were made.\<close>

fun post_tries :: "nat list \<Rightarrow> string \<Rightarrow> (nat \<Rightarrow> http_reply) \<Rightarrow> (string + send_result) \<times> nat" where
  "post_tries [] reason reply = (Inr \<lparr>sr_ok = False, sr_reason = reason\<rparr>, 0)"
| "post_tries (n # ns) reason reply =
     (let again = (\<lambda>r. case post_tries ns r reply of (res, k) \<Rightarrow> (res, Suc k))
      in case reply n of
           OtherException name \<Rightarrow> (Inl name, 1)
         | Status code \<Rightarrow>
             if code < 300 then (Inr \<lparr>sr_ok = True, sr_reason = []\<rparr>, 1)
             else if code < 400 then
               (Inr \<lparr>sr_ok = False, sr_reason = ''the webhook answered '' @ str_of_int code @ '': redirects are not followed''\<rparr>, 1)
             else if code < 500 then (Inr \<lparr>sr_ok = False, sr_reason = ''the webhook answered '' @ str_of_int code\<rparr>, 1)
             else again (''the webhook answered '' @ str_of_int code)
         | r \<Rightarrow> again (webhook_failure r))"

definition post_webhook ::
  "(string \<Rightarrow> pyval \<Rightarrow> nat \<Rightarrow> http_reply) \<Rightarrow> (instant \<Rightarrow> string) \<Rightarrow> string \<Rightarrow> notification \<Rightarrow> (string + send_result) \<times> nat" where
  "post_webhook post iso_seconds url n = post_tries [1, 2] [] (post url (payload iso_seconds n))"

section \<open>Delivery\<close>

record outcome_rec =
  oc_recipient_id :: string
  oc_name :: string
  oc_ok :: bool
  oc_reason :: string

record delivery_env =
  dv_post :: "string \<Rightarrow> pyval \<Rightarrow> nat \<Rightarrow> http_reply"
  dv_iso_seconds :: "instant \<Rightarrow> string"
  dv_relay :: "email \<Rightarrow> string + send_result"
  dv_mail :: mail_settings
  dv_mail_supported :: bool
  dv_link :: string
  dv_clock_text :: "instant \<Rightarrow> string"
  dv_audit_ts :: string
  dv_audit_writable :: bool

definition attempt_delivery :: "delivery_env \<Rightarrow> recipient \<Rightarrow> notification \<Rightarrow> string + send_result" where
  "attempt_delivery E r n =
     (case rc_kind r of
        EMAIL \<Rightarrow>
          if \<not> (dv_mail_supported E \<and> ms_profile_on (dv_mail E) \<and> mail_configured (dv_mail E))
          then Inr \<lparr>sr_ok = False, sr_reason = ''the Mail Server is not set up''\<rparr>
          else rbind (build_email (dv_clock_text E) (dv_mail E) (dv_link E) (rc_target r) n) (dv_relay E)
      | WEBHOOK \<Rightarrow> fst (post_webhook (dv_post E) (dv_iso_seconds E) (rc_target r) n))"

definition delivery_params :: "notification \<Rightarrow> send_result \<Rightarrow> pyval" where
  "delivery_params n res = PDict (
     [(''event'', PStr (nt_event n))]
     @ (if nt_subject n \<noteq> [] then [(''subject'', PStr (one_line (nt_subject n) 80))] else [])
     @ (if \<not> sr_ok res then [(''reason'', PStr (one_line (sr_reason res) 200))] else []))"

definition delivery_entry :: "delivery_env \<Rightarrow> string \<Rightarrow> recipient \<Rightarrow> notification \<Rightarrow> send_result \<Rightarrow> audit_entry" where
  "delivery_entry E actor r n res =
     \<lparr>ae_ts = dv_audit_ts E, ae_user = actor, ae_action = (if sr_ok res then ''notify.sent'' else ''notify.failed''),
      ae_target = rc_name r, ae_result = (if sr_ok res then ''ok'' else ''failed''),
      ae_params = Some (delivery_params n res), ae_job_id = None\<rparr>"

definition deliver_one ::
  "delivery_env \<Rightarrow> string \<Rightarrow> notification \<Rightarrow> recipient \<Rightarrow> outcome_rec \<times> audit_entry list" where
  "deliver_one E actor n r =
     (let res = (case attempt_delivery E r n of
            Inl name \<Rightarrow> \<lparr>sr_ok = False, sr_reason = ''unexpected error ('' @ name @ '')''\<rparr>
          | Inr res \<Rightarrow> res)
      in (\<lparr>oc_recipient_id = rc_id r, oc_name = rc_name r, oc_ok = sr_ok res, oc_reason = sr_reason res\<rparr>,
          if dv_audit_writable E then [delivery_entry E actor r n res] else []))"

definition deliver :: "delivery_env \<Rightarrow> string \<Rightarrow> notification \<Rightarrow> recipient list \<Rightarrow> outcome_rec list \<times> audit_entry list" where
  "deliver E actor n recipients =
     (map (\<lambda>r. fst (deliver_one E actor n r)) recipients, concat (map (\<lambda>r. snd (deliver_one E actor n r)) recipients))"

section \<open>The background task\<close>

definition UPDATE_CHECK_INTERVAL :: timedelta where "UPDATE_CHECK_INTERVAL = 3600 * us_second"

type_synonym detector = "event_settings \<Rightarrow> notify_files \<Rightarrow> (py_exn + finding list) \<times> notify_files"

record watch_env =
  wv_lib :: notify_lib
  wv_clock :: clock
  wv_detectors :: "(event \<times> detector) list"
  wv_delivery :: delivery_env
  wv_writable :: bool

record watch_state =
  wt_files :: notify_files
  wt_last_update_check :: "int option"
  wt_last_pass_at :: "instant option"
  wt_audit :: "audit_entry list"
  wt_sent :: "(recipient \<times> notification) list"

definition due :: "event \<Rightarrow> int \<Rightarrow> int option \<Rightarrow> bool \<times> int option" where
  "due e tick checked =
     (if e \<noteq> UPDATE_AVAILABLE then (True, checked)
      else case checked of
          Some l \<Rightarrow> if tick - l < UPDATE_CHECK_INTERVAL then (False, checked) else (True, Some tick)
        | None \<Rightarrow> (True, Some tick))"

definition wanted :: "notifications_config \<Rightarrow> event set" where
  "wanted c = set (concat (map rc_events (filter rc_enabled (nc_recipients c))))"

text \<open>A detector that raises is logged and contributes nothing.\<close>

fun look :: "event set \<Rightarrow> event_settings \<Rightarrow> int \<Rightarrow> (event \<times> detector) list \<Rightarrow>
    finding list \<times> notify_files \<times> int option \<Rightarrow> finding list \<times> notify_files \<times> int option" where
  "look w s tick [] acc = acc"
| "look w s tick ((e, d) # ds) (found, files, checked) =
     (if e \<notin> w then look w s tick ds (found, files, checked)
      else case due e tick checked of
          (False, checked') \<Rightarrow> look w s tick ds (found, files, checked')
        | (True, checked') \<Rightarrow>
            (case d s files of
               (Inl _, files') \<Rightarrow> look w s tick ds (found, files', checked')
             | (Inr fs, files') \<Rightarrow> look w s tick ds (found @ fs, files', checked')))"

definition notification_of :: "instant \<Rightarrow> condition \<Rightarrow> notification" where
  "notification_of now c =
     \<lparr>nt_event = event_value (cd_event c), nt_severity = severity_of_event (cd_event c), nt_message = cd_message c,
      nt_subject = cd_subject c, nt_details = cd_details c, nt_timestamp = now\<rparr>"

text \<open>The configuration is read again for every delivery.\<close>

definition deliver_event :: "watch_env \<Rightarrow> event \<Rightarrow> notification \<Rightarrow> watch_state \<Rightarrow> watch_state" where
  "deliver_event E e n st =
     (let rs = subscribed_to (cl_config (load_config (wv_lib E) (wt_files st))) e
      in st\<lparr>wt_audit := wt_audit st @ snd (deliver (wv_delivery E) NOTIFIER_USER n rs),
            wt_sent := wt_sent st @ map (\<lambda>r. (r, n)) rs\<rparr>)"

definition interval_seconds :: "config_load \<Rightarrow> timedelta" where
  "interval_seconds l = es_check_interval_minutes (nc_settings (cl_config l)) * 60 * us_second"

definition run_once :: "watch_env \<Rightarrow> instant \<Rightarrow> int \<Rightarrow> watch_state \<Rightarrow> (py_exn + nat \<times> timedelta) \<times> watch_state" where
  "run_once E now tick st =
     (let l = load_config (wv_lib E) (wt_files st); settings = nc_settings (cl_config l)
      in if cl_error l \<noteq> None then (Inr (0, interval_seconds l), st)
         else case look (wanted (cl_config l)) settings tick (wv_detectors E) ([], wt_files st, wt_last_update_check st) of
             (found, files, checked) \<Rightarrow>
               (case update_state (wv_lib E) (wv_writable E) (decide (wv_clock E) found now settings) files of
                  (Inl e, files') \<Rightarrow> (Inl e, st\<lparr>wt_files := files', wt_last_update_check := checked\<rparr>)
                | (Inr new, files') \<Rightarrow>
                    let st1 = st\<lparr>wt_files := files', wt_last_update_check := checked, wt_last_pass_at := Some now\<rparr>
                    in (Inr (length new, interval_seconds l),
                        foldl (\<lambda>st c. deliver_event E (cd_event c) (notification_of now c) st) st1 new)))"

definition job_notification :: "instant \<Rightarrow> job \<Rightarrow> notification" where
  "job_notification now j =
     (let subject = py_strip (j_action j @ '' '' @ j_target j)
      in \<lparr>nt_event = event_value JOB_FAILED, nt_severity = severity_of_event JOB_FAILED,
          nt_message = ''The job '' @ subject @ '' failed.'', nt_subject = subject,
          nt_details = [(''job_id'', PStr (j_id j)), (''action'', PStr (j_action j)), (''target'', PStr (j_target j)),
            (''started_by'', PStr (j_user j)),
            (''exit_code'', case j_exit_code j of None \<Rightarrow> PNone | Some c \<Rightarrow> PInt c)],
          nt_timestamp = now\<rparr>)"

definition report_job :: "watch_env \<Rightarrow> instant \<Rightarrow> job \<Rightarrow> watch_state \<Rightarrow> watch_state" where
  "report_job E now j st = deliver_event E JOB_FAILED (job_notification now j) st"

text \<open>The listener of the job queue: the next pass is asked for at once (the flag), and a failed job is reported.\<close>

definition on_job_finished :: "watch_env \<Rightarrow> instant \<Rightarrow> job \<Rightarrow> watch_state \<Rightarrow> bool \<times> watch_state" where
  "on_job_finished E now j st = (True, if j_status j = FAILED then report_job E now j st else st)"

definition send_test ::
  "watch_env \<Rightarrow> (instant \<Rightarrow> string) \<Rightarrow> string \<Rightarrow> string \<Rightarrow> instant \<Rightarrow> watch_state \<Rightarrow> outcome_rec option \<times> watch_state" where
  "send_test E iso_seconds i actor now st =
     (case find_recipient (cl_config (load_config (wv_lib E) (wt_files st))) i of
        None \<Rightarrow> (None, st)
      | Some r \<Rightarrow>
          let n = \<lparr>nt_event = TEST_EVENT, nt_severity = SevInfo,
                nt_message = ''This is a test notification from the papAIa manager.'', nt_subject = [],
                nt_details = [(''recipient'', PStr (rc_name r))], nt_timestamp = now\<rparr>;
              (oc, entries) = deliver_one (wv_delivery E) actor n r;
              remember = (\<lambda>ns. Inr ((), ns\<lparr>ns_tests := dict_set (ns_tests ns) (rc_id r)
                \<lparr>te_at = iso_seconds now, te_ok = oc_ok oc, te_reason = oc_reason oc\<rparr>\<rparr>))
          in (Some oc, st\<lparr>wt_files := snd (update_state (wv_lib E) (wv_writable E) remember (wt_files st)),
                          wt_audit := wt_audit st @ entries, wt_sent := wt_sent st @ [(r, n)]\<rparr>))"

text \<open>
  \<open>_wait_for_next\<close>: the interval is read again at each turn, a turn lasts as long as what remains of it but no longer than
  the poll time, and the event that a job's end sets (at \<open>wake\<close>, if at all) cuts it short. The event loop resumes a turn some
  time after its end (\<open>late\<close>). The result is when the next pass begins; the loop itself need not end for an interval that
  grows for ever, so not returning is \<open>None\<close>.
\<close>

definition SETTINGS_POLL :: timedelta where "SETTINGS_POLL = 10 * us_second"

definition turn_ends :: "(int \<Rightarrow> timedelta) \<Rightarrow> int option \<Rightarrow> int \<Rightarrow> timedelta \<Rightarrow> int" where
  "turn_ends late wake now timeout = (case wake of Some w \<Rightarrow> min w (now + timeout) | None \<Rightarrow> now + timeout) + late now"

partial_function (option) wait_for_next ::
  "(int \<Rightarrow> timedelta) \<Rightarrow> (int \<Rightarrow> timedelta) \<Rightarrow> int option \<Rightarrow> int \<Rightarrow> int \<Rightarrow> int option" where
  "wait_for_next interval late wake started now =
     (if (case wake of Some w \<Rightarrow> w \<le> now | None \<Rightarrow> False) then Some now
      else let remaining = started + interval now - now
           in if remaining \<le> 0 then Some now
              else wait_for_next interval late wake started (turn_ends late wake now (min remaining SETTINGS_POLL)))"

section \<open>What leaves the manager\<close>

lemma sub_control_clean: "c \<in> set (sub_control b s) \<Longrightarrow> \<not> is_control c"
  by (induction b s rule: sub_control.induct) (auto simp: is_control_def split: if_splits)

lemma set_py_strip: "set (py_strip s) \<subseteq> set s"
  unfolding py_strip_def by (auto dest!: set_dropWhileD)

lemma one_line_clean: "c \<in> set (one_line s n) \<Longrightarrow> \<not> is_control c"
  using set_py_strip sub_control_clean unfolding one_line_def by (meson in_set_takeD subsetD)

lemma length_one_line: "length (one_line s n) \<le> n"
  by (simp add: one_line_def)

lemma build_email_headers:
  assumes "build_email clock_text mail link to n = Inr m"
  shows "em_to m = to" "em_from_name m = one_line (ms_from_name mail) 200"
    "\<exists>label. em_subject m = one_line (''[papAIa] '' @ label @ '': '' @ nt_message n) 150"
proof -
  obtain p found domain where rp: "rpartition_char (CHR 0x40) (ms_from_address mail) = (p, found, domain)"
    by (metis prod_cases3)
  from assms rp obtain label where "found" and "m = \<lparr>em_from_name = one_line (ms_from_name mail) 200,
      em_from_address = ms_from_address mail, em_to = to,
      em_subject = one_line (''[papAIa] '' @ label @ '': '' @ nt_message n) 150,
      em_message_id_domain = domain, em_lines = email_lines clock_text link label n\<rparr>"
    by (cases found) (auto simp: build_email_def rbind_eq_Inr)
  then show "em_to m = to" "em_from_name m = one_line (ms_from_name mail) 200"
    "\<exists>label. em_subject m = one_line (''[papAIa] '' @ label @ '': '' @ nt_message n) 150"
    by auto
qed

text \<open>No mail header can be injected: whatever a condition's message or a configured name holds, the subject and the
  sender's name of a notification mail are one line without control characters, and the subject has at most 150
  characters.\<close>

theorem email_headers_one_line:
  assumes "build_email clock_text mail link to n = Inr m"
  shows "list_all (\<lambda>c. \<not> is_control c) (em_subject m) \<and> list_all (\<lambda>c. \<not> is_control c) (em_from_name m)
    \<and> length (em_subject m) \<le> 150"
  using build_email_headers [OF assms] one_line_clean length_one_line by (auto simp: list_all_iff)

definition demo_mail :: mail_settings where
  "demo_mail = \<lparr>ms_profile_on = True, ms_host = ''relay'', ms_from_address = ''papaia@example.org'', ms_from_name = ''papAIa''\<rparr>"

definition demo_note :: notification where
  "demo_note = \<lparr>nt_event = ''job_failed'', nt_severity = SevError, nt_message = ''The job'' @ [CR, LF] @ ''Bcc: x@y.z failed.'',
     nt_subject = ''backup'', nt_details = [], nt_timestamp = 0\<rparr>"

lemma demo_email:
  "\<exists>m. build_email (\<lambda>_. ''now'') demo_mail ''host'' ''ops@example.org'' demo_note = Inr m
     \<and> em_subject m = ''[papAIa] Job failed: The job Bcc: x@y.z failed.''"
proof -
  have "notification_label demo_note = Inr ''Job failed''" by code_simp
  moreover have "rpartition_char (CHR 0x40) (ms_from_address demo_mail) = (''papaia'', True, ''example.org'')" by code_simp
  moreover have "one_line (''[papAIa] '' @ ''Job failed'' @ '': '' @ nt_message demo_note) 150
      = ''[papAIa] Job failed: The job Bcc: x@y.z failed.''" by code_simp
  ultimately show ?thesis by (simp add: build_email_def)
qed

theorem email_headers_one_line_witness:
  "\<exists>m. build_email (\<lambda>_. ''now'') demo_mail ''host'' ''ops@example.org'' demo_note = Inr m
     \<and> list_all (\<lambda>c. \<not> is_control c) (em_subject m) \<and> LF \<in> set (nt_message demo_note)"
proof -
  obtain m where m: "build_email (\<lambda>_. ''now'') demo_mail ''host'' ''ops@example.org'' demo_note = Inr m"
    using demo_email by blast
  have "LF \<in> set (nt_message demo_note)" by (simp add: demo_note_def)
  with m email_headers_one_line [OF m] show ?thesis by blast
qed

definition retryable :: "http_reply \<Rightarrow> bool" where
  "retryable r \<longleftrightarrow> (case r of Status code \<Rightarrow> 500 \<le> code | OtherException _ \<Rightarrow> False | _ \<Rightarrow> True)"

text \<open>A webhook gets the notification once, or twice when the first post failed in the network or was answered with a
  server error: a redirect and a refusal are final, and success is an answer below 300 to the last post.\<close>

theorem webhook_posts_bounded:
  "(snd (post_webhook post isot url n) = (if retryable (post url (payload isot n) 1) then 2 else 1))
   \<and> (\<forall>res. fst (post_webhook post isot url n) = Inr res \<longrightarrow>
       (sr_ok res \<longleftrightarrow> (\<exists>code < 300. post url (payload isot n) (snd (post_webhook post isot url n)) = Status code)))"
  by (cases "post url (payload isot n) 1"; cases "post url (payload isot n) 2")
     (auto simp: post_webhook_def retryable_def Let_def numeral_2_eq_2 split: if_splits)

theorem webhook_posts_bounded_witness:
  "post_webhook (\<lambda>_ _ k. if k = 1 then Status 503 else Status 204) (\<lambda>_. ''now'') ''https://h/x'' demo_note
     = (Inr \<lparr>sr_ok = True, sr_reason = []\<rparr>, 2)
   \<and> snd (post_webhook (\<lambda>_ _ k. if k = 1 then Status 503 else Status 204) (\<lambda>_. ''now'') ''https://h/x'' demo_note) = 2"
proof -
  have "post_webhook (\<lambda>_ _ k. if k = 1 then Status 503 else Status 204) (\<lambda>_. ''now'') ''https://h/x'' demo_note
      = (Inr \<lparr>sr_ok = True, sr_reason = []\<rparr>, 2)"
    by (simp add: post_webhook_def)
  then show ?thesis
    using webhook_posts_bounded [of "\<lambda>_ _ k. if k = 1 then Status 503 else Status 204" "\<lambda>_. ''now''" "''https://h/x''" demo_note]
    by simp
qed

text \<open>A webhook's URL, which authorises whoever posts to it, leaves no trace: two recipients that differ only in it and
  whose hosts answer alike give the same outcome and the same audit entry.\<close>

theorem webhook_url_leaves_no_trace:
  assumes "rc_kind r = WEBHOOK" "dv_post E url = dv_post E (rc_target r)"
  shows "deliver_one E actor n (r\<lparr>rc_target := url\<rparr>) = deliver_one E actor n r"
  using assms by (simp add: deliver_one_def attempt_delivery_def post_webhook_def delivery_entry_def Let_def)

definition demo_delivery :: delivery_env where
  "demo_delivery = \<lparr>dv_post = (\<lambda>_ _ _. Status 404), dv_iso_seconds = (\<lambda>_. ''now''), dv_relay = (\<lambda>m. Inr \<lparr>sr_ok = False,
       sr_reason = ''the relay refused the recipient: 550 <'' @ em_to m @ ''> unknown''\<rparr>),
     dv_mail = demo_mail, dv_mail_supported = True, dv_link = ''host'', dv_clock_text = (\<lambda>_. ''now''), dv_audit_ts = ''ts'',
     dv_audit_writable = True\<rparr>"

definition demo_hook :: recipient where
  "demo_hook = demo_recipient\<lparr>rc_kind := WEBHOOK, rc_target := ''https://hooks.example.org/secret''\<rparr>"

theorem webhook_url_leaves_no_trace_witness:
  "deliver_one demo_delivery NOTIFIER_USER demo_note (demo_hook\<lparr>rc_target := ''https://other.example.org/key''\<rparr>)
     = deliver_one demo_delivery NOTIFIER_USER demo_note demo_hook"
  by (rule webhook_url_leaves_no_trace) (simp_all add: demo_hook_def demo_delivery_def)

text \<open>An email address is not kept out in the same way: the relay's own words are the reason of a failed delivery, and
  they go into the audit log as they are, so a refusal that names the address puts it there.\<close>

theorem relay_words_reach_the_log:
  assumes "rc_kind r = EMAIL" "dv_mail_supported E" "ms_profile_on (dv_mail E)" "mail_configured (dv_mail E)"
    and "build_email (dv_clock_text E) (dv_mail E) (dv_link E) (rc_target r) n = Inr m"
    and "dv_relay E m = Inr \<lparr>sr_ok = False, sr_reason = words\<rparr>" "dv_audit_writable E"
  shows "\<exists>entry ps. snd (deliver_one E actor n r) = [entry] \<and> ae_params entry = Some (PDict ps)
    \<and> (''reason'', PStr (one_line words 200)) \<in> set ps"
  using assms by (simp add: deliver_one_def attempt_delivery_def delivery_entry_def delivery_params_def Let_def)

theorem relay_words_reach_the_log_witness:
  "\<exists>entry ps. snd (deliver_one demo_delivery NOTIFIER_USER demo_note demo_recipient) = [entry]
    \<and> ae_params entry = Some (PDict ps)
    \<and> (''reason'', PStr ''the relay refused the recipient: 550 <ops@example.org> unknown'') \<in> set ps"
proof -
  obtain m where m: "build_email (dv_clock_text demo_delivery) (dv_mail demo_delivery) (dv_link demo_delivery)
      (rc_target demo_recipient) demo_note = Inr m"
    using demo_email by (auto simp: demo_delivery_def demo_recipient_def)
  then have "em_to m = ''ops@example.org''"
    by (simp add: build_email_headers(1) demo_recipient_def)
  then have rl: "dv_relay demo_delivery m = Inr \<lparr>sr_ok = False,
      sr_reason = ''the relay refused the recipient: 550 <ops@example.org> unknown''\<rparr>"
    by (simp add: demo_delivery_def)
  have o: "one_line ''the relay refused the recipient: 550 <ops@example.org> unknown'' 200
      = ''the relay refused the recipient: 550 <ops@example.org> unknown''" by code_simp
  have "rc_kind demo_recipient = EMAIL" "dv_mail_supported demo_delivery" "ms_profile_on (dv_mail demo_delivery)"
      "mail_configured (dv_mail demo_delivery)" "dv_audit_writable demo_delivery"
    by (simp_all add: demo_recipient_def demo_delivery_def demo_mail_def mail_configured_def)
  from relay_words_reach_the_log [OF this(1-4) m rl this(5), of NOTIFIER_USER] show ?thesis by (simp only: o)
qed

section \<open>The next pass comes\<close>

text \<open>When a pass is due: the interval that holds then has passed, or a job has ended.\<close>

definition due_at :: "(int \<Rightarrow> timedelta) \<Rightarrow> int option \<Rightarrow> int \<Rightarrow> int \<Rightarrow> bool" where
  "due_at interval wake started t \<longleftrightarrow> started + interval t \<le> t \<or> (\<exists>w. wake = Some w \<and> w \<le> t)"

lemma wait_due: "due_at interval wake started now \<Longrightarrow> wait_for_next interval late wake started now = Some now"
  by (subst wait_for_next.simps) (auto simp: due_at_def Let_def split: option.splits)

lemma wait_turn:
  "\<not> due_at interval wake started now \<Longrightarrow> wait_for_next interval late wake started now
     = wait_for_next interval late wake started (turn_ends late wake now (min (started + interval now - now) SETTINGS_POLL))"
  by (subst wait_for_next.simps) (auto simp: due_at_def Let_def split: option.splits)

lemma turn_bounds:
  assumes "\<not> due_at interval wake started now" "0 \<le> late now" "late now \<le> e"
  defines "n \<equiv> turn_ends late wake now (min (started + interval now - now) SETTINGS_POLL)"
  shows "now < n" "n \<le> started + interval now + e" "n \<le> now + SETTINGS_POLL + e" "wake = Some w \<Longrightarrow> n \<le> w + e"
  using assms by (auto simp: n_def turn_ends_def due_at_def SETTINGS_POLL_def split: option.splits)

lemma wait_ends:
  assumes "\<forall>t. interval t \<le> m" "\<forall>t. 0 \<le> late t \<and> late t \<le> e"
  shows "\<exists>t. wait_for_next interval late wake started now = Some t \<and> now \<le> t \<and> due_at interval wake started t
    \<and> t \<le> max now (started + m + e)
    \<and> (\<forall>a. now \<le> a \<longrightarrow> (\<forall>u \<ge> a. due_at interval wake started u) \<longrightarrow> t \<le> a + SETTINGS_POLL + e)
    \<and> (\<forall>w. wake = Some w \<longrightarrow> t \<le> max now (w + e))"
proof (induction "nat (started + m - now)" arbitrary: now rule: less_induct)
  case less
  have e: "0 \<le> e" using assms(2) by force
  show ?case
  proof (cases "due_at interval wake started now")
    case True
    then show ?thesis using wait_due [OF True, of late] e by (intro exI [of _ now]) (auto simp: SETTINGS_POLL_def)
  next
    case False
    let ?n = "turn_ends late wake now (min (started + interval now - now) SETTINGS_POLL)"
    note n = turn_bounds [OF False, of late e]
    have b: "0 \<le> late now" "late now \<le> e" "interval now \<le> m" "now < started + interval now"
      using assms False by (auto simp: due_at_def)
    have "nat (started + m - ?n) < nat (started + m - now)" using n(1) [OF b(1,2)] b(3,4) by linarith
    from less [OF this] obtain t where t: "wait_for_next interval late wake started ?n = Some t" "?n \<le> t"
        "due_at interval wake started t" "t \<le> max ?n (started + m + e)"
        "\<And>a. ?n \<le> a \<Longrightarrow> (\<forall>u \<ge> a. due_at interval wake started u) \<Longrightarrow> t \<le> a + SETTINGS_POLL + e"
        "\<And>w. wake = Some w \<Longrightarrow> t \<le> max ?n (w + e)" by blast
    have soon: "t \<le> a + SETTINGS_POLL + e" if a: "now \<le> a" "\<forall>u \<ge> a. due_at interval wake started u" for a
    proof (cases "?n \<le> a")
      case True
      then show ?thesis using t(5) a(2) by blast
    next
      case False
      then have "due_at interval wake started ?n" using a(2) by simp
      from wait_due [OF this, of late] t(1) have "t = ?n" by simp
      then show ?thesis using n(3) [OF b(1,2)] a(1) by linarith
    qed
    have "t \<le> max now (w + e)" if "wake = Some w" for w using t(6) [OF that] n(4) [OF b(1,2) that] by linarith
    moreover have "t \<le> max now (started + m + e)" using t(4) n(2) [OF b(1,2)] b(3) by linarith
    moreover have "now \<le> t" using t(2) n(1) [OF b(1,2)] by linarith
    ultimately show ?thesis using wait_turn [OF False, of late] t(1,3) soon by (intro exI [of _ t]) auto
  qed
qed

text \<open>C36: The next pass comes, and not before it is due: while no configured interval exceeds \<open>m\<close> and the event loop resumes
  within \<open>e\<close>, the wait returns at a moment when the interval that holds then has passed since the last pass began or a job has
  ended; no later than \<open>m\<close> after the last pass began, or than the end of a job, and within one poll time of the moment from
  which a pass is due, as after a change of the interval (plus \<open>e\<close> each time, and never before the wait began).\<close>

theorem next_pass_comes:
  assumes "\<forall>t. interval t \<le> m" "\<forall>t. 0 \<le> late t \<and> late t \<le> e"
  shows "\<exists>t. wait_for_next interval late wake started now = Some t \<and> now \<le> t
    \<and> due_at interval wake started t
    \<and> t \<le> max now (started + m + e)
    \<and> (\<forall>a. now \<le> a \<longrightarrow> (\<forall>u \<ge> a. due_at interval wake started u) \<longrightarrow> t \<le> a + SETTINGS_POLL + e)
    \<and> (\<forall>w. wake = Some w \<longrightarrow> t \<le> max now (w + e))"
  by (rule wait_ends [OF assms])

text \<open>Shortened from five minutes to two at the first minute, the interval is noticed: the pass comes after two minutes,
  ten seconds of polling and the second the loop is late.\<close>

theorem next_pass_comes_witness:
  "\<exists>t. wait_for_next (\<lambda>t. if t < 60 * us_second then 300 * us_second else 120 * us_second) (\<lambda>_. us_second) None 0 0 = Some t
     \<and> 120 * us_second \<le> t \<and> t \<le> 131 * us_second"
proof -
  let ?i = "\<lambda>t. if t < 60 * us_second then 300 * us_second else 120 * us_second"
  have i: "\<forall>t. ?i t \<le> 300 * us_second" "\<forall>t :: int. 0 \<le> us_second \<and> us_second \<le> us_second" by simp_all
  obtain t where t: "wait_for_next ?i (\<lambda>_. us_second) None 0 0 = Some t" "?i t \<le> t"
      "\<forall>a \<ge> 0. (\<forall>u \<ge> a. ?i u \<le> u) \<longrightarrow> t \<le> a + SETTINGS_POLL + us_second"
    using next_pass_comes [OF i, of None 0 0] by (auto simp: due_at_def)
  have "t \<le> 120 * us_second + SETTINGS_POLL + us_second" using t(3) [rule_format, of "120 * us_second"] by simp
  moreover have "120 * us_second \<le> t" using t(2) by (simp split: if_splits)
  ultimately show ?thesis using t(1) by (intro exI [of _ t]) (simp add: SETTINGS_POLL_def)
qed

section \<open>Who is told, and how often\<close>

lemma deliver_accounts:
  "dv_audit_writable D \<Longrightarrow> length (snd (deliver D actor n rs)) = length rs"
  by (induction rs) (simp_all add: deliver_def deliver_one_def Let_def)

definition goes_to :: "notifications_config \<Rightarrow> recipient \<times> notification \<Rightarrow> bool" where
  "goes_to c rn \<longleftrightarrow> fst rn \<in> set (nc_recipients c) \<and> rc_enabled (fst rn)
     \<and> nt_event (snd rn) \<in> event_value ` set (rc_events (fst rn))"

text \<open>What a series of deliveries added to the state, against the configuration it was made with.\<close>

definition delivered :: "watch_env \<Rightarrow> watch_state \<Rightarrow> watch_state \<Rightarrow> bool" where
  "delivered E st st' \<longleftrightarrow> wt_files st' = wt_files st \<and>
     (\<exists>extra. wt_sent st' = wt_sent st @ extra
        \<and> list_all (goes_to (cl_config (load_config (wv_lib E) (wt_files st)))) extra
        \<and> (dv_audit_writable (wv_delivery E) \<longrightarrow> length (wt_audit st') = length (wt_audit st) + length extra))"

lemma delivered_refl: "delivered E st st"
  by (simp add: delivered_def)

lemma delivered_trans:
  assumes "delivered E a b" "delivered E b c" shows "delivered E a c"
proof -
  from assms obtain x y where "wt_sent b = wt_sent a @ x" "wt_sent c = wt_sent b @ y"
      "list_all (goes_to (cl_config (load_config (wv_lib E) (wt_files a)))) (x @ y)"
      "dv_audit_writable (wv_delivery E) \<longrightarrow> length (wt_audit b) = length (wt_audit a) + length x"
      "dv_audit_writable (wv_delivery E) \<longrightarrow> length (wt_audit c) = length (wt_audit b) + length y"
    by (auto simp: delivered_def)
  then show ?thesis using assms unfolding delivered_def by (intro conjI exI [of _ "x @ y"]) auto
qed

lemma deliver_event_delivered:
  assumes "nt_event n = event_value e"
  shows "delivered E st (deliver_event E e n st)"
  using assms deliver_accounts [of "wv_delivery E"]
  by (auto simp: delivered_def deliver_event_def Let_def list_all_iff goes_to_def subscribed_to_def)

lemma pass_delivered:
  "delivered E st (foldl (\<lambda>st c. deliver_event E (cd_event c) (notification_of now c) st) st new)"
proof (induction new arbitrary: st)
  case (Cons c new)
  have "delivered E st (deliver_event E (cd_event c) (notification_of now c) st)"
    by (rule deliver_event_delivered) (simp add: notification_of_def)
  then show ?case using delivered_trans [OF _ Cons] by simp
qed (simp add: delivered_refl)

text \<open>A pass writes to nobody who did not ask: each notification it sends goes to a recipient of the configuration that
  is switched on and subscribed to the event, each is accounted for in the audit log, and a configuration that cannot be
  read sends nothing.\<close>

theorem only_chosen_recipients:
  assumes "run_once E now tick st = (res, st')"
  shows "\<exists>extra. wt_sent st' = wt_sent st @ extra
    \<and> list_all (goes_to (cl_config (load_config (wv_lib E) (wt_files st')))) extra
    \<and> (dv_audit_writable (wv_delivery E) \<longrightarrow> length (wt_audit st') = length (wt_audit st) + length extra)
    \<and> (cl_error (load_config (wv_lib E) (wt_files st)) \<noteq> None \<longrightarrow> extra = [])"
proof (cases "cl_error (load_config (wv_lib E) (wt_files st)) = None")
  case True
  let ?s = "nc_settings (cl_config (load_config (wv_lib E) (wt_files st)))"
  obtain found files checked where l: "look (wanted (cl_config (load_config (wv_lib E) (wt_files st)))) ?s tick
      (wv_detectors E) ([], wt_files st, wt_last_update_check st) = (found, files, checked)" by (metis prod_cases3)
  obtain r files' where u: "update_state (wv_lib E) (wv_writable E) (decide (wv_clock E) found now ?s) files = (r, files')"
    by fastforce
  show ?thesis
  proof (cases r)
    case (Inl e)
    with True l u assms show ?thesis by (auto simp: run_once_def Let_def)
  next
    case (Inr new)
    let ?st1 = "st\<lparr>wt_files := files', wt_last_update_check := checked, wt_last_pass_at := Some now\<rparr>"
    have "delivered E ?st1 st'"
      using True l u Inr assms pass_delivered [of E ?st1 now new] by (auto simp: run_once_def Let_def)
    with True show ?thesis by (auto simp: delivered_def)
  qed
next
  case False
  with assms show ?thesis by (auto simp: run_once_def Let_def)
qed

definition demo_cert :: finding where
  "demo_cert = \<lparr>fd_event = CERT_EXPIRING, fd_conditions = [cert_condition [] \<lparr>cc_key = ''edge'', cc_label = ''Edge'',
     cc_days_left = Some 3, cc_not_after = ''2030''\<rparr> 3], fd_scope = []\<rparr>"

definition demo_watch :: watch_env where
  "demo_watch = \<lparr>wv_lib = plain_lib, wv_clock = demo_clock, wv_detectors = [(CERT_EXPIRING, \<lambda>_ files. (Inr [demo_cert], files)),
     (SERVICE_UNHEALTHY, \<lambda>_ files. (Inr [demo_down], files))], wv_delivery = demo_delivery, wv_writable = True\<rparr>"

definition demo_watch_state :: watch_state where
  "demo_watch_state = \<lparr>wt_files = demo_files, wt_last_update_check = None, wt_last_pass_at = None, wt_audit = [], wt_sent = []\<rparr>"

theorem only_chosen_recipients_witness:
  "\<exists>res st' extra. run_once demo_watch 0 0 demo_watch_state = (res, st') \<and> res = Inr (1, 300 * us_second)
    \<and> wt_sent st' = extra \<and> length (wt_audit st') = length extra
    \<and> list_all (goes_to (cl_config (load_config plain_lib (wt_files st')))) extra"
proof -
  obtain res st' where r: "run_once demo_watch 0 0 demo_watch_state = (res, st')" by fastforce
  have c: "load_config plain_lib demo_files = demo_load" by (rule demo_load_config)
  have cc: "cl_config demo_load = demo_config" "cl_error demo_load = None" by (simp_all add: demo_load_def)
  have lk: "look (wanted demo_config) (nc_settings demo_config) 0 (wv_detectors demo_watch)
      ([], demo_files, None) = ([demo_cert], demo_files, None)" by code_simp
  have d: "decide demo_clock [demo_cert] 0 (nc_settings demo_config) empty_state =
      Inr (fd_conditions demo_cert, empty_state\<lparr>ns_seen := [(''cert_expiring|edge'',
        \<lparr>sn_active = True, sn_marker = ''2030'', sn_last_sent = ck_iso demo_clock 0\<rparr>)]\<rparr>)" by code_simp
  have i: "interval_seconds demo_load = 300 * us_second"
    by (simp add: interval_seconds_def cc demo_config_def default_config_def default_event_settings_def)
  have ld: "load_state plain_lib demo_files = empty_state" by (simp add: load_state_def demo_files_def no_files_def)
  have res: "res = Inr (1, 300 * us_second)"
    using r lk by (simp add: run_once_def demo_watch_def demo_watch_state_def c cc i Let_def update_state_def ld d,
        auto simp: demo_cert_def)
  have f: "wv_lib demo_watch = plain_lib" "dv_audit_writable (wv_delivery demo_watch)" "wt_sent demo_watch_state = []"
      "wt_audit demo_watch_state = []" by (simp_all add: demo_watch_def demo_delivery_def demo_watch_state_def)
  from only_chosen_recipients [OF r] r res f show ?thesis by simp
qed



text \<open>The memory file is trusted too far: one entry of a service with a time that has no zone makes every pass that
  finds all services well raise, whatever else it found, and the file stays as it is, so the next pass raises again.\<close>

theorem naive_time_stops_passes:
  assumes "dict_get (ns_seen (load_state L files)) (seen_key SERVICE_UNHEALTHY x) = Some sn"
    and "ck_fromiso K (sn_last_sent sn) = Some (Naive t)" "sn_last_sent sn \<noteq> []"
    and "fd_event f = SERVICE_UNHEALTHY" "fd_scope f = []" "fd_conditions f = []"
  shows "\<exists>e. update_state L writable (decide K (f # rest) now s) files = (Inl e, files)"
proof -
  let ?mem = "ns_seen (load_state L files)" and ?k = "seen_key SERVICE_UNHEALTHY x"
  have cur: "current_of f = []" using assms(6) by (simp add: current_of_def dict_of_def)
  have k: "?k \<in> set (gone_keys f ?mem)"
    using assms(1,4,5) cur dict_get_in [OF assms(1)] by (force simp: gone_keys_def prefix_of_def)
  have nofold: "\<exists>e. rfold (clear_key K now SERVICE_UNHEALTHY) mem ks = Inl e"
    if "?k \<in> set ks" "dict_get mem ?k = Some sn" for ks mem
    using that
  proof (induction ks arbitrary: mem)
    case (Cons j ks)
    show ?case
    proof (cases "j = ?k")
      case True
      with Cons.prems(2) assms(2,3) show ?thesis
        by (simp add: clear_key_def forgotten_def age_of_def)
    next
      case False
      then have "dict_get m ?k = Some sn" if "clear_key K now SERVICE_UNHEALTHY mem j = Inr m" for m
        using clear_frame [of K now SERVICE_UNHEALTHY mem "[j]" m ?k] that Cons.prems(2) by simp
      with Cons False show ?thesis by (cases "clear_key K now SERVICE_UNHEALTHY mem j") auto
    qed
  qed simp
  obtain e where "rfold (clear_key K now SERVICE_UNHEALTHY) ?mem (gone_keys f ?mem) = Inl e"
    using nofold [OF k assms(1)] by blast
  then have "decide K (f # rest) now s (load_state L files) = Inl e"
    by (simp add: decide_def judge_finding_def cur assms(4))
  then show ?thesis by (simp add: update_state_def)
qed

theorem naive_time_stops_passes_witness:
  "\<exists>files e. update_state plain_lib True (\<lambda>st. Inr ((), st\<lparr>ns_seen := [(''service_unhealthy|litellm'',
        \<lparr>sn_active = False, sn_marker = [], sn_last_sent = ''N0''\<rparr>)]\<rparr>)) no_files = (Inr (), files) \<and>
     update_state plain_lib True (decide demo_clock [demo_up] 0 default_event_settings) files = (Inl e, files)"
proof -
  let ?st = "empty_state\<lparr>ns_seen := [(''service_unhealthy|litellm'',
        \<lparr>sn_active = False, sn_marker = [], sn_last_sent = ''N0''\<rparr>)]\<rparr>"
  let ?files = "no_files\<lparr>nf_state := Bytes (nl_json_dump plain_lib (state_document ?st))\<rparr>"
  have ok: "state_ok ?st" by (simp add: state_ok_def empty_state_def dict_ok_def)
  have ld: "load_state plain_lib ?files = ?st"
    using plain_lib_ok state_from_document [OF ok] by (simp add: load_state_def lib_ok_def)
  have "load_state plain_lib no_files = empty_state" by (simp add: load_state_def no_files_def)
  then have "update_state plain_lib True (\<lambda>st. Inr ((), st\<lparr>ns_seen := [(''service_unhealthy|litellm'',
        \<lparr>sn_active = False, sn_marker = [], sn_last_sent = ''N0''\<rparr>)]\<rparr>)) no_files = (Inr (), ?files)"
    by (simp add: update_state_def)
  moreover have "\<exists>e. update_state plain_lib True (decide demo_clock [demo_up] 0 default_event_settings) ?files = (Inl e, ?files)"
  proof (rule naive_time_stops_passes [where x = "''litellm''" and t = 0])
    show "dict_get (ns_seen (load_state plain_lib ?files)) (seen_key SERVICE_UNHEALTHY ''litellm'')
        = Some \<lparr>sn_active = False, sn_marker = [], sn_last_sent = ''N0''\<rparr>"
      by (simp only: ld) code_simp
  qed (simp_all add: demo_clock_def demo_up_def no_conditions_def)
  ultimately show ?thesis by blast
qed

end
