(* ===== verification/Ingest_Plan.thy ===== *)
theory Ingest_Plan
  imports Cron
begin

text \<open>
  The schedule of an ingest job (\<open>core/ingest/schedules.py\<close>): the builder's plan, the \<open>cron\<close> or \<open>every\<close> it compiles to, the plan
  read back from a stored block, and the preview of the next runs.

  Weekday numbers count from Monday here, as the ingester's trigger counts, so the plan writes names. The trigger itself
  (\<open>CronTrigger.from_crontab\<close>) is a parameter. A \<open>ScheduleError\<close> is its message.
\<close>

section \<open>Plans\<close>

definition INGEST_WEEKDAYS :: "string list" where
  "INGEST_WEEKDAYS = [''mon'', ''tue'', ''wed'', ''thu'', ''fri'', ''sat'', ''sun'']"

definition EVERY_UNITS :: "string list" where
  "EVERY_UNITS = [''s'', ''m'', ''h'', ''d'']"

record ingest_plan =
  ip_mode :: string
  ip_every_n :: int
  ip_every_unit :: string
  ip_time :: string
  ip_minute :: int
  ip_weekdays :: "string list"
  ip_day_of_month :: int
  ip_cron :: string
  ip_timezone :: "string option"
  ip_jitter_seconds :: int
  ip_misfire_grace_seconds :: int
  ip_run_on_startup :: string
  ip_extra :: "(string, pyval) dict"

definition plan_defaults :: ingest_plan where
  "plan_defaults =
     \<lparr>ip_mode = ''manual'', ip_every_n = 15, ip_every_unit = ''m'', ip_time = ''03:00'', ip_minute = 0, ip_weekdays = [],
      ip_day_of_month = 1, ip_cron = [], ip_timezone = None, ip_jitter_seconds = 30, ip_misfire_grace_seconds = 300,
      ip_run_on_startup = ''if_missed'', ip_extra = []\<rparr>"

record compiled_plan =
  cp_cron :: "string option"
  cp_every :: "string option"

text \<open>Running by hand only compiles to neither.\<close>

definition compiled_cron :: "string \<Rightarrow> compiled_plan" where
  "compiled_cron c = \<lparr>cp_cron = Some c, cp_every = None\<rparr>"

section \<open>Weekdays as the ingester reads them\<close>

definition day_name :: "string \<Rightarrow> string option" where
  "day_name token =
     (if py_lower token \<in> set INGEST_WEEKDAYS then Some (py_lower token)
      else if str_isdigit token \<and> int_of_digits token \<le> 6 then Some (INGEST_WEEKDAYS ! int_of_digits token)
      else None)"

definition day_index :: "string \<Rightarrow> nat" where
  "day_index name = length (takeWhile (\<lambda>d. d \<noteq> name) INGEST_WEEKDAYS)"

text \<open>The days of one chunk of the field: a range, or one day.\<close>

definition chunk_days :: "string \<Rightarrow> string list option" where
  "chunk_days chunk =
     (if CHR ''-'' \<in> set chunk \<and> CHR 0x2F \<notin> set chunk then
        (case partition_char (CHR ''-'') chunk of (first, _, lst) \<Rightarrow>
          (case (day_name first, day_name lst) of
             (Some low, Some high) \<Rightarrow>
               if day_index low > day_index high then None
               else Some (take (day_index high + 1 - day_index low) (drop (day_index low) INGEST_WEEKDAYS))
           | _ \<Rightarrow> None))
      else map_option (\<lambda>d. [d]) (day_name chunk))"

fun chunks_days :: "string list \<Rightarrow> string list option" where
  "chunks_days [] = Some []"
| "chunks_days (c # cs) =
     (case chunk_days c of
        None \<Rightarrow> None
      | Some ds \<Rightarrow> map_option (\<lambda>rest. ds @ rest) (chunks_days cs))"

definition dow_days :: "string \<Rightarrow> string list option" where
  "dow_days dow = chunks_days (split_char (CHR '','') dow)"

definition ordered_days :: "string list \<Rightarrow> string list" where
  "ordered_days names = filter (\<lambda>d. d \<in> set names) INGEST_WEEKDAYS"

definition normalise_ingest_cron :: "string \<Rightarrow> string" where
  "normalise_ingest_cron text =
     (case split_ws text of
        [minute, hour, mday, month, dow] \<Rightarrow>
          (case dow_days dow of
             Some names \<Rightarrow>
               if dow \<noteq> ''*'' then join '' '' [minute, hour, mday, month, join '','' (ordered_days names)]
               else join '' '' [minute, hour, mday, month, dow]
           | None \<Rightarrow> join '' '' [minute, hour, mday, month, dow])
      | parts \<Rightarrow> join '' '' parts)"

section \<open>Checks\<close>

record ingest_lib =
  il_i18n :: i18n
  il_cron_lib :: cron_lib
  il_from_crontab :: "string \<Rightarrow> string \<Rightarrow> string option"
  il_fire :: "string \<Rightarrow> string \<Rightarrow> zoned option \<Rightarrow> instant \<Rightarrow> zoned option"
  il_wall_text :: "zoned \<Rightarrow> string"

abbreviation il_tr :: "ingest_lib \<Rightarrow> string \<Rightarrow> (string, string) dict \<Rightarrow> string" where
  "il_tr L \<equiv> tr (il_i18n L)"

definition ingest_zone :: "ingest_lib \<Rightarrow> string \<Rightarrow> string + string" where
  "ingest_zone L name =
     (case zone (il_cron_lib L) name of
        Inl _ \<Rightarrow> Inl (il_tr L ''Unknown timezone %(name)r. Use an IANA name such as Europe/Berlin or UTC.'' [(''name'', repr_str name)])
      | Inr z \<Rightarrow> Inr z)"

definition cron_error :: "ingest_lib \<Rightarrow> string \<Rightarrow> string \<Rightarrow> string option" where
  "cron_error L text timezone =
     (case ingest_zone L timezone of
        Inl e \<Rightarrow> Some e
      | Inr tz \<Rightarrow> map_option (\<lambda>exc. il_tr L ''invalid cron expression: %(exc)s'' [(''exc'', exc)]) (il_from_crontab L text tz))"

text \<open>\<open>_EVERY_RE\<close>: digits and one unit. The groups of a match (a line feed at the end is accepted by \<open>$\<close> and in no group).\<close>

definition every_shape :: "string \<Rightarrow> bool" where
  "every_shape s \<longleftrightarrow> s \<noteq> [] \<and> [last s] \<in> set EVERY_UNITS \<and> str_isdigit (butlast s)"

definition every_groups :: "string \<Rightarrow> (nat \<times> string) option" where
  "every_groups s =
     (if every_shape s then Some (int_of_digits (butlast s), [last s])
      else if s \<noteq> [] \<and> last s = LF \<and> every_shape (butlast s)
        then Some (int_of_digits (butlast (butlast s)), [last (butlast s)])
      else None)"

definition every_error :: "ingest_lib \<Rightarrow> string \<Rightarrow> string option" where
  "every_error L value =
     (case every_groups value of
        None \<Rightarrow> Some (il_tr L ''an interval looks like 30s, 15m, 4h or 1d'' [])
      | Some (n, _) \<Rightarrow> if n < 1 then Some (il_tr L ''an interval has to be at least 1'' []) else None)"

section \<open>Reading a stored block\<close>

definition MODELLED_KEYS :: "string list" where
  "MODELLED_KEYS = [''cron'', ''every'', ''timezone'', ''jitter_seconds'', ''misfire_grace_seconds'', ''run_on_startup'']"

definition plan_text :: "pyval \<Rightarrow> string option" where
  "plan_text v = (case v of PStr s \<Rightarrow> if py_strip s = [] then None else Some (py_strip s) | _ \<Rightarrow> None)"

definition plan_int :: "pyval \<Rightarrow> int \<Rightarrow> int" where
  "plan_int v otherwise = (case v of PInt i \<Rightarrow> i | _ \<Rightarrow> otherwise)"

definition plan_common :: "(string, pyval) dict \<Rightarrow> ingest_plan" where
  "plan_common block =
     plan_defaults\<lparr>ip_timezone := plan_text (get_none block ''timezone''),
       ip_jitter_seconds := plan_int (get_none block ''jitter_seconds'') 30,
       ip_misfire_grace_seconds := plan_int (get_none block ''misfire_grace_seconds'') 300,
       ip_run_on_startup := py_str_of (py_or (get_none block ''run_on_startup'') (PStr ''if_missed'')),
       ip_extra := filter (\<lambda>kv. fst kv \<notin> set MODELLED_KEYS) block\<rparr>"

text \<open>The reading of a cron expression: a preset when it has the shape of one, the expression as it is otherwise.\<close>

definition read_cron :: "ingest_plan \<Rightarrow> string \<Rightarrow> ingest_plan" where
  "read_cron common cron =
     (let custom = common\<lparr>ip_mode := ''cron'', ip_cron := cron\<rparr>
      in case split_ws cron of
           [minute, hour, mday, month, dow] \<Rightarrow>
             if month \<noteq> ''*'' \<or> \<not> str_isdigit minute \<or> int_of_digits minute > 59 then custom
             else if hour = ''*'' \<and> mday = ''*'' \<and> dow = ''*''
               then common\<lparr>ip_mode := ''hourly'', ip_minute := int (int_of_digits minute)\<rparr>
             else if \<not> str_isdigit hour \<or> int_of_digits hour > 23 then custom
             else (let clock_text = pad2 (int_of_digits hour) @ '':'' @ pad2 (int_of_digits minute);
                       days = map day_name (split_char (CHR '','') dow)
                   in if mday = ''*'' \<and> dow = ''*'' then common\<lparr>ip_mode := ''daily'', ip_time := clock_text\<rparr>
                      else if mday = ''*'' \<and> None \<notin> set days then
                        common\<lparr>ip_mode := ''weekly'', ip_time := clock_text, ip_weekdays := ordered_days (map the days)\<rparr>
                      else if dow = ''*'' \<and> str_isdigit mday \<and> 1 \<le> int_of_digits mday \<and> int_of_digits mday \<le> 31 then
                        common\<lparr>ip_mode := ''monthly'', ip_time := clock_text, ip_day_of_month := int (int_of_digits mday)\<rparr>
                      else custom)
         | _ \<Rightarrow> custom)"

definition read_plan :: "(string, pyval) dict \<Rightarrow> ingest_plan" where
  "read_plan block =
     (let common = plan_common block
      in case plan_text (get_none block ''every'') of
           Some every \<Rightarrow>
             (case every_groups every of
                None \<Rightarrow> common\<lparr>ip_mode := ''cron'', ip_cron := every\<rparr>
              | Some (n, unit) \<Rightarrow> common\<lparr>ip_mode := ''interval'', ip_every_n := int n, ip_every_unit := unit\<rparr>)
         | None \<Rightarrow>
             (case plan_text (get_none block ''cron'') of
                None \<Rightarrow> common\<lparr>ip_mode := ''manual''\<rparr>
              | Some cron \<Rightarrow> read_cron common cron))"

section \<open>Compiling a plan\<close>

definition ingest_clock :: "ingest_lib \<Rightarrow> string \<Rightarrow> string + nat \<times> nat" where
  "ingest_clock L value =
     (case clock value of Inl _ \<Rightarrow> Inl (il_tr L ''The time must look like 03:00.'' []) | Inr hm \<Rightarrow> Inr hm)"

definition compile_timed :: "ingest_lib \<Rightarrow> ingest_plan \<Rightarrow> string \<Rightarrow> string \<Rightarrow> string + compiled_plan" where
  "compile_timed L plan hour minute =
     (if ip_mode plan = ''daily'' then Inr (compiled_cron (minute @ '' '' @ hour @ '' * * *''))
      else if ip_mode plan = ''weekly'' then
        (let picked = remdups (map py_lower (ip_weekdays plan));
             unknown = filter (\<lambda>d. d \<notin> set INGEST_WEEKDAYS) picked;
             names = (if length picked = 7 then ''*'' else join '','' (ordered_days picked))
         in if unknown \<noteq> [] then Inl (il_tr L ''Unknown weekday %(value)r.'' [(''value'', repr_str (hd (sort unknown)))])
            else if picked = [] then Inl (il_tr L ''Pick at least one day of the week.'' [])
            else Inr (compiled_cron (minute @ '' '' @ hour @ '' * * '' @ names)))
      else if ip_mode plan = ''monthly'' then
        (if ip_day_of_month plan < 1 \<or> ip_day_of_month plan > 31
         then Inl (il_tr L ''The day of the month is between 1 and 31.'' [])
         else Inr (compiled_cron (minute @ '' '' @ hour @ '' '' @ str_of_int (ip_day_of_month plan) @ '' * *'')))
      else Inl (il_tr L ''Unknown schedule type %(mode)r.'' [(''mode'', repr_str (ip_mode plan))]))"

definition compile_plan :: "ingest_lib \<Rightarrow> ingest_plan \<Rightarrow> string + compiled_plan" where
  "compile_plan L plan =
     (if ip_mode plan = ''manual'' then Inr \<lparr>cp_cron = None, cp_every = None\<rparr>
      else if ip_mode plan = ''interval'' then
        (if ip_every_unit plan \<notin> set EVERY_UNITS
         then Inl (il_tr L ''The interval unit is seconds, minutes, hours or days.'' [])
         else if ip_every_n plan < 1 then Inl (il_tr L ''An interval has to be at least 1.'' [])
         else Inr \<lparr>cp_cron = None, cp_every = Some (str_of_int (ip_every_n plan) @ ip_every_unit plan)\<rparr>)
      else if ip_mode plan = ''hourly'' then
        (if ip_minute plan < 0 \<or> ip_minute plan > 59 then Inl (il_tr L ''The minute is between 0 and 59.'' [])
         else Inr (compiled_cron (str_of_int (ip_minute plan) @ '' * * * *'')))
      else if ip_mode plan = ''cron'' then
        (if normalise_ingest_cron (ip_cron plan) = [] then Inl (il_tr L ''Enter a cron expression.'' [])
         else Inr (compiled_cron (normalise_ingest_cron (ip_cron plan))))
      else rbind (ingest_clock L (ip_time plan)) (\<lambda>(hour, minute).
        compile_timed L plan (str_of_nat hour) (str_of_nat minute)))"

definition set_text :: "(string, pyval) dict \<Rightarrow> string \<Rightarrow> string option \<Rightarrow> (string, pyval) dict" where
  "set_text block key v = (case v of None \<Rightarrow> block | Some t \<Rightarrow> dict_set block key (PStr t))"

definition schedule_block :: "ingest_lib \<Rightarrow> ingest_plan \<Rightarrow> bool \<Rightarrow> string + (string, pyval) dict" where
  "schedule_block L plan full =
     rbind (compile_plan L plan) (\<lambda>compiled.
       let b1 = set_text (ip_extra plan) ''cron'' (cp_cron compiled);
           b2 = set_text b1 ''every'' (cp_every compiled);
           b3 = (case ip_timezone plan of Some t \<Rightarrow> if t = [] then b2 else dict_set b2 ''timezone'' (PStr t) | None \<Rightarrow> b2);
           b4 = (if full \<or> ip_run_on_startup plan \<noteq> ''if_missed''
                 then dict_set b3 ''run_on_startup'' (PStr (ip_run_on_startup plan)) else b3);
           b5 = (if full \<or> ip_jitter_seconds plan \<noteq> 30
                 then dict_set b4 ''jitter_seconds'' (PInt (ip_jitter_seconds plan)) else b4);
           b6 = (if full \<or> ip_misfire_grace_seconds plan \<noteq> 300
                 then dict_set b5 ''misfire_grace_seconds'' (PInt (ip_misfire_grace_seconds plan)) else b5)
       in Inr b6)"

section \<open>Saying it\<close>

definition every_words :: "ingest_lib \<Rightarrow> string \<Rightarrow> int \<Rightarrow> string" where
  "every_words L unit n =
     (let args = [(''n'', str_of_int n)]
      in if unit = ''s'' then ntr (il_i18n L) ''Every second'' ''Every %(n)s seconds'' n args
         else if unit = ''m'' then ntr (il_i18n L) ''Every minute'' ''Every %(n)s minutes'' n args
         else if unit = ''h'' then ntr (il_i18n L) ''Every hour'' ''Every %(n)s hours'' n args
         else if unit = ''d'' then ntr (il_i18n L) ''Every day'' ''Every %(n)s days'' n args
         else il_tr L ''Every %(n)s%(unit)s'' (args @ [(''unit'', unit)]))"

definition pad2_int :: "int \<Rightarrow> string" where
  "pad2_int n = (if 0 \<le> n then pad2 (nat n) else str_of_int n)"

definition describe_plan :: "ingest_lib \<Rightarrow> ingest_plan \<Rightarrow> string" where
  "describe_plan L plan =
     (if ip_mode plan = ''manual'' then il_tr L ''Only when started by hand'' []
      else if ip_mode plan = ''interval'' then every_words L (ip_every_unit plan) (ip_every_n plan)
      else if ip_mode plan = ''hourly'' then il_tr L ''Every hour at :%(minute)02d'' [(''minute'', pad2_int (ip_minute plan))]
      else if ip_mode plan = ''daily'' then il_tr L ''Every day at %(time)s'' [(''time'', ip_time plan)]
      else if ip_mode plan = ''weekly'' then
        (let days = join '', '' (map (\<lambda>d. il_tr L (the (dict_get WEEKDAY_LABELS d)) [])
               (filter (\<lambda>d. dict_get WEEKDAY_LABELS d \<noteq> None) (ip_weekdays plan)))
         in il_tr L ''Every %(value)s at %(time)s''
              [(''value'', if days = [] then il_tr L ''week'' [] else days), (''time'', ip_time plan)])
      else if ip_mode plan = ''monthly'' then
        il_tr L ''On day %(day_of_month)s of every month at %(time)s''
          [(''day_of_month'', str_of_int (ip_day_of_month plan)), (''time'', ip_time plan)]
      else il_tr L ''Custom schedule (%(cron)s)'' [(''cron'', ip_cron plan)])"

record plan_preview =
  pp_ok :: bool
  pp_error :: "string option"
  pp_description :: string
  pp_cron :: "string option"
  pp_every :: "string option"
  pp_runs :: "string list"
  pp_timezone :: string
  pp_counts_from_load :: bool
  pp_notes :: "string list"

definition effective_timezone :: "string option \<Rightarrow> string option \<Rightarrow> string \<Rightarrow> string" where
  "effective_timezone plan_tz defaults_tz ingester_tz =
     (case (plan_tz, defaults_tz) of
        (Some (c # t), _) \<Rightarrow> c # t
      | (_, Some (c # t)) \<Rightarrow> c # t
      | _ \<Rightarrow> if ingester_tz = [] then ''UTC'' else ingester_tz)"

definition preview_refused :: "string \<Rightarrow> string \<Rightarrow> plan_preview" where
  "preview_refused e zone_name =
     \<lparr>pp_ok = False, pp_error = Some e, pp_description = [], pp_cron = None, pp_every = None, pp_runs = [],
      pp_timezone = zone_name, pp_counts_from_load = False, pp_notes = []\<rparr>"

definition preview_notes :: "ingest_lib \<Rightarrow> ingest_plan \<Rightarrow> compiled_plan \<Rightarrow> string list" where
  "preview_notes L plan compiled =
     (if ip_mode plan = ''monthly'' \<and> ip_day_of_month plan > 28
      then [il_tr L ''Months without a day %(day_of_month)s are skipped, so it does not run every month.''
              [(''day_of_month'', str_of_int (ip_day_of_month plan))]] else [])
     @ (case cp_cron compiled of
          Some c \<Rightarrow> if list_ex is_digit (split_ws c ! 4)
                   then [il_tr L ''Weekday numbers count from Monday here (0 is Monday, 1 is Tuesday), unlike standard cron. Names (mon-sun) are unambiguous.'' []]
                   else []
        | None \<Rightarrow> [])"

text \<open>The trigger has accepted the expression by the time its fifth field is looked at, so it has five.\<close>

definition plan_preview_of :: "ingest_lib \<Rightarrow> ingest_plan \<Rightarrow> string \<Rightarrow> nat \<Rightarrow> instant \<Rightarrow> plan_preview" where
  "plan_preview_of L plan default_tz n now =
     (let zone_name = effective_timezone (ip_timezone plan) None default_tz;
          checked = rbind (ingest_zone L zone_name) (\<lambda>tz.
            rbind (compile_plan L plan) (\<lambda>compiled.
              case cp_cron compiled of
                None \<Rightarrow> Inr compiled
              | Some c \<Rightarrow>
                  (case cron_error L c zone_name of
                     None \<Rightarrow> Inr compiled
                   | Some problem \<Rightarrow> Inl (map upper_char (take 1 problem) @ drop 1 problem @ ''.''))))
      in case checked of
           Inl e \<Rightarrow> preview_refused e zone_name
         | Inr compiled \<Rightarrow>
             \<lparr>pp_ok = True, pp_error = None, pp_description = describe_plan L plan, pp_cron = cp_cron compiled,
              pp_every = cp_every compiled,
              pp_runs = (case cp_cron compiled of
                 None \<Rightarrow> []
               | Some c \<Rightarrow> map (il_wall_text L) (collect_runs (il_fire L c zone_name) None n None now)),
              pp_timezone = zone_name, pp_counts_from_load = (cp_every compiled \<noteq> None),
              pp_notes = preview_notes L plan compiled\<rparr>)"

section \<open>Lemmas: weekdays\<close>

lemma ingest_weekdays: "INGEST_WEEKDAYS = WEEKDAYS"
  by (simp add: INGEST_WEEKDAYS_def WEEKDAYS_def)

lemma weekday_no_dash: "d \<in> set WEEKDAYS \<Longrightarrow> CHR ''-'' \<notin> set d"
  by (auto simp: WEEKDAYS_def)

lemma day_name_weekday: "d \<in> set WEEKDAYS \<Longrightarrow> day_name d = Some d"
  by (simp add: day_name_def ingest_weekdays weekday_fact(2))

lemma day_name_mem: "day_name t = Some d \<Longrightarrow> d \<in> set WEEKDAYS"
  by (auto simp: day_name_def ingest_weekdays length_WEEKDAYS split: if_splits)

lemma chunk_days_weekday: "d \<in> set WEEKDAYS \<Longrightarrow> chunk_days d = Some [d]"
  by (simp add: chunk_days_def weekday_no_dash day_name_weekday)

lemma day_index_less: "d \<in> set WEEKDAYS \<Longrightarrow> day_index d < 7"
  by (auto simp: day_index_def INGEST_WEEKDAYS_def WEEKDAYS_def)

lemma chunk_days_mem:
  assumes "chunk_days c = Some ds"
  shows "ds \<noteq> [] \<and> set ds \<subseteq> set WEEKDAYS"
proof (cases "CHR ''-'' \<in> set c \<and> CHR 0x2F \<notin> set c")
  case True
  with assms obtain first lst low high where names: "day_name first = Some low" "day_name lst = Some high"
    and le: "day_index low \<le> day_index high"
    and ds: "ds = take (day_index high + 1 - day_index low) (drop (day_index low) WEEKDAYS)"
    by (auto simp: chunk_days_def ingest_weekdays not_less split: if_splits prod.splits option.splits)
  have "day_index high < 7" by (rule day_index_less [OF day_name_mem [OF names(2)]])
  then show ?thesis using le ds by (auto simp: length_WEEKDAYS dest: in_set_takeD in_set_dropD)
next
  case False
  then show ?thesis using assms by (auto simp: chunk_days_def dest: day_name_mem split: if_splits)
qed

lemma chunks_days_weekdays: "set ds \<subseteq> set WEEKDAYS \<Longrightarrow> chunks_days ds = Some ds"
  by (induction ds) (auto simp: chunk_days_weekday)

lemma chunks_days_mem: "chunks_days cs = Some ds \<Longrightarrow> set ds \<subseteq> set WEEKDAYS \<and> (cs \<noteq> [] \<longrightarrow> ds \<noteq> [])"
proof (induction cs arbitrary: ds)
  case (Cons c cs)
  then show ?case using chunk_days_mem [of c] by (fastforce split: option.splits)
qed simp

lemma dow_days_mem: "dow_days dow = Some ds \<Longrightarrow> set ds \<subseteq> set WEEKDAYS" "dow_days dow = Some ds \<Longrightarrow> ds \<noteq> []"
  using chunks_days_mem [of "split_char CHR '','' dow"] by (auto simp: dow_days_def)

lemma split_names: "ds \<noteq> [] \<Longrightarrow> set ds \<subseteq> set WEEKDAYS \<Longrightarrow> split_char (CHR '','') (join '','' ds) = ds"
  by (rule split_char_join) (use weekday_fact(3) in auto)

lemma dow_days_names: "ds \<noteq> [] \<Longrightarrow> set ds \<subseteq> set WEEKDAYS \<Longrightarrow> dow_days (join '','' ds) = Some ds"
  by (simp add: dow_days_def split_names chunks_days_weekdays)

lemma ordered_days_facts:
  "set (ordered_days ds) = set ds \<inter> set WEEKDAYS" "distinct (ordered_days ds)" "ordered_days (ordered_days ds) = ordered_days ds"
  using day_numbers(3) by (auto simp: ordered_days_def ingest_weekdays filter_filter intro!: filter_cong)

lemma ordered_days_not_Nil: "set ds \<subseteq> set WEEKDAYS \<Longrightarrow> ds \<noteq> [] \<Longrightarrow> ordered_days ds \<noteq> []"
  using ordered_days_facts(1) [of ds] by (cases ds) auto

lemma ordered_days_cong: "set ds = set es \<Longrightarrow> ordered_days ds = ordered_days es"
  by (simp add: ordered_days_def)

lemma names_word: "set ds \<subseteq> set WEEKDAYS \<Longrightarrow> ds \<noteq> [] \<Longrightarrow> join '','' ds \<noteq> [] \<and> (\<forall>c \<in> set (join '','' ds). \<not> is_space c)"
  using join_names_space [of ds] weekday_fact(4) by (cases ds) (auto simp: join_not_Nil)

lemma split_ws_words:
  assumes "split_ws t = ws"
  shows "\<forall>w \<in> set ws. w \<noteq> [] \<and> (\<forall>c \<in> set w. \<not> is_space c)"
  using split_ws_parts [of _ t] assms by blast

text \<open>
  Spelling the weekdays in names keeps their meaning: the other four fields stay as typed, and the fifth names exactly the days
  the ingester read from it before, in the order of the week; doing it again changes nothing.
\<close>

theorem normalise_keeps_days:
  assumes "split_ws text = [minute, hour, mday, month, dow]" "dow_days dow = Some names"
  shows "split_ws (normalise_ingest_cron text) = [minute, hour, mday, month, join '','' (ordered_days names)]
    \<and> dow_days (join '','' (ordered_days names)) = Some (ordered_days names) \<and> set (ordered_days names) = set names
    \<and> normalise_ingest_cron (normalise_ingest_cron text) = normalise_ingest_cron text"
proof -
  note mem = dow_days_mem [OF assms(2)]
  let ?ds = "ordered_days names" and ?e = "\<lambda>w. join '' '' [minute, hour, mday, month, w]"
  have set: "set ?ds = set names" using ordered_days_facts(1) mem(1) by auto
  have ne: "?ds \<noteq> []" by (rule ordered_days_not_Nil [OF mem])
  have sub: "set ?ds \<subseteq> set WEEKDAYS" using set mem(1) by simp
  have star: "dow \<noteq> ''*''" using assms(2) by (auto simp: dow_days_def chunk_days_def day_name_def INGEST_WEEKDAYS_def py_lower_def
        lower_char_def is_upper_def str_isdigit_def is_digit_def)
  have norm: "normalise_ingest_cron text = ?e (join '','' ?ds)" using assms star by (simp add: normalise_ingest_cron_def)
  have words: "split_ws (?e (join '','' ?ds)) = [minute, hour, mday, month, join '','' ?ds]"
    by (rule split_ws_join) (use split_ws_words [OF assms(1)] names_word [OF sub ne] in auto)
  have days: "dow_days (join '','' ?ds) = Some ?ds" by (rule dow_days_names [OF ne sub])
  have "normalise_ingest_cron (?e (join '','' ?ds)) = ?e (join '','' ?ds)"
    using words days by (simp add: normalise_ingest_cron_def ordered_days_facts(3) join_names_not_star [OF ne sub])
  then show ?thesis using norm words days set by simp
qed

lemma normalise_keeps_days_witness:
  "split_ws (normalise_ingest_cron ''0 3 * * 4-6,mon'') = [''0'', ''3'', ''*'', ''*'', ''mon,fri,sat,sun'']"
proof -
  have w: "split_ws ''0 3 * * 4-6,mon'' = [''0'', ''3'', ''*'', ''*'', ''4-6,mon'']" by code_simp
  have d: "dow_days ''4-6,mon'' = Some [''fri'', ''sat'', ''sun'', ''mon'']" by code_simp
  have j: "join '','' (ordered_days [''fri'', ''sat'', ''sun'', ''mon'']) = ''mon,fri,sat,sun''" by code_simp
  show ?thesis using normalise_keeps_days [OF w d] by (simp only: j simp_thms)
qed

section \<open>Lemmas: plans\<close>

lemma compiled_cron_simps [simp]: "compiled_cron a = compiled_cron b \<longleftrightarrow> a = b" "cp_cron (compiled_cron a) = Some a"
  "cp_every (compiled_cron a) = None"
  by (simp_all add: compiled_cron_def)

lemma strip_words:
  assumes "ws \<noteq> []" "\<forall>w \<in> set ws. w \<noteq> [] \<and> (\<forall>c \<in> set w. \<not> is_space c)"
  shows "join '' '' ws \<noteq> [] \<and> py_strip (join '' '' ws) = join '' '' ws"
proof -
  have "join '' '' ws \<noteq> [] \<and> hd (join '' '' ws) \<in> set (hd ws) \<and> last (join '' '' ws) \<in> set (last ws)"
    using assms by (induction "'' ''" ws rule: join.induct) (auto simp: last_append)
  moreover have "hd ws \<in> set ws" "last ws \<in> set ws" using assms(1) by simp_all
  ultimately show ?thesis using assms(2) by (meson py_strip_id)
qed

text \<open>What a preset compiles to is read as that preset.\<close>

lemma digits_word: "str_of_nat n \<noteq> [] \<and> (\<forall>c \<in> set (str_of_nat n). \<not> is_space c)"
  using str_of_nat_nonempty str_of_nat_not_space by blast

lemma star_word: "''*'' \<noteq> [] \<and> (\<forall>c \<in> set ''*''. \<not> is_space c)"
  by simp

lemma digits_not_star [simp]: "str_of_nat n \<noteq> ''*''"
  using str_isdigit_str_of_nat [of n] by (auto simp: str_isdigit_def is_digit_def)

lemma split_fields:
  assumes "\<forall>w \<in> {a, b, c, d, e}. w \<noteq> [] \<and> (\<forall>x \<in> set w. \<not> is_space x)"
  shows "split_ws (join '' '' [a, b, c, d, e]) = [a, b, c, d, e]"
  by (rule split_ws_join) (use assms in simp)

lemma read_hourly:
  assumes "m \<le> 59"
  shows "read_cron p (str_of_nat m @ '' * * * *'') = p\<lparr>ip_mode := ''hourly'', ip_minute := int m\<rparr>"
  using split_fields [of "str_of_nat m" "''*''" "''*''" "''*''" "''*''"] digits_word [of m] assms
  by (simp add: read_cron_def Let_def)

lemma read_timed:
  assumes "h < 24" "m < 60" "\<forall>w \<in> {mday, dow}. w \<noteq> [] \<and> (\<forall>x \<in> set w. \<not> is_space x)"
  shows "read_cron p (str_of_nat m @ '' '' @ str_of_nat h @ '' '' @ mday @ '' * '' @ dow) =
    (let days = map day_name (split_char (CHR '','') dow); q = p\<lparr>ip_time := pad2 h @ '':'' @ pad2 m\<rparr>
     in if mday = ''*'' \<and> dow = ''*'' then q\<lparr>ip_mode := ''daily''\<rparr>
        else if mday = ''*'' \<and> None \<notin> set days then q\<lparr>ip_mode := ''weekly'', ip_weekdays := ordered_days (map the days)\<rparr>
        else if dow = ''*'' \<and> str_isdigit mday \<and> 1 \<le> int_of_digits mday \<and> int_of_digits mday \<le> 31
          then q\<lparr>ip_mode := ''monthly'', ip_day_of_month := int (int_of_digits mday)\<rparr>
        else p\<lparr>ip_mode := ''cron'', ip_cron := str_of_nat m @ '' '' @ str_of_nat h @ '' '' @ mday @ '' * '' @ dow\<rparr>)"
  using split_fields [of "str_of_nat m" "str_of_nat h" mday "''*''" dow] digits_word [of m] digits_word [of h] assms
  by (simp add: read_cron_def Let_def)

lemma compile_daily:
  assumes "h < 24" "m < 60"
  shows "compile_plan L (p\<lparr>ip_time := pad2 h @ '':'' @ pad2 m, ip_mode := ''daily''\<rparr>)
    = Inr (compiled_cron (str_of_nat m @ '' '' @ str_of_nat h @ '' * * *''))"
  using clock_pad2 [OF assms] by (simp add: compile_plan_def ingest_clock_def compile_timed_def)

lemma compile_monthly:
  assumes "h < 24" "m < 60" "1 \<le> d" "d \<le> 31"
  shows "compile_plan L (p\<lparr>ip_time := pad2 h @ '':'' @ pad2 m, ip_mode := ''monthly'', ip_day_of_month := int d\<rparr>)
    = Inr (compiled_cron (str_of_nat m @ '' '' @ str_of_nat h @ '' '' @ str_of_nat d @ '' * *''))"
  using clock_pad2 [OF assms(1,2)] assms(3,4) by (simp add: compile_plan_def ingest_clock_def compile_timed_def str_of_int_def)

lemma lower_weekdays: "set ds \<subseteq> set WEEKDAYS \<Longrightarrow> map py_lower ds = ds"
  by (induction ds) (auto simp: weekday_fact(2))

lemma compile_weekly:
  assumes "h < 24" "m < 60" "set ds \<subseteq> set WEEKDAYS" "distinct ds" "ds \<noteq> []" "length ds \<noteq> 7"
  shows "compile_plan L (p\<lparr>ip_time := pad2 h @ '':'' @ pad2 m, ip_mode := ''weekly'', ip_weekdays := ds\<rparr>)
    = Inr (compiled_cron (str_of_nat m @ '' '' @ str_of_nat h @ '' * * '' @ join '','' (ordered_days ds)))"
proof -
  have "filter (\<lambda>d. d \<notin> set INGEST_WEEKDAYS) ds = []" using assms(3) by (auto simp: ingest_weekdays filter_empty_conv)
  then show ?thesis
    using clock_pad2 [OF assms(1,2)] assms(4-6)
    by (simp add: compile_plan_def ingest_clock_def compile_timed_def lower_weekdays [OF assms(3)] distinct_remdups_id)
qed

lemma read_weekly:
  assumes "h < 24" "m < 60" "set ds \<subseteq> set WEEKDAYS" "ds \<noteq> []"
  shows "read_cron p (str_of_nat m @ '' '' @ str_of_nat h @ '' * * '' @ join '','' ds)
    = p\<lparr>ip_time := pad2 h @ '':'' @ pad2 m, ip_mode := ''weekly'', ip_weekdays := ordered_days ds\<rparr>"
proof -
  have days: "map day_name (split_char (CHR '','') (join '','' ds)) = map Some ds"
    using assms(3) by (simp add: split_names [OF assms(4,3)] day_name_weekday subset_iff)
  show ?thesis
    using read_timed [OF assms(1,2), of "''*''" "join '','' ds" p] names_word [OF assms(3,4)]
    by (simp add: days join_names_not_star [OF assms(4,3)] Let_def comp_def)
qed

lemma timed_stripped:
  assumes "\<forall>w \<in> {mday, dow}. w \<noteq> [] \<and> (\<forall>x \<in> set w. \<not> is_space x)"
  shows "py_strip (str_of_nat m @ '' '' @ str_of_nat h @ '' '' @ mday @ '' * '' @ dow)
    = str_of_nat m @ '' '' @ str_of_nat h @ '' '' @ mday @ '' * '' @ dow"
  using strip_words [of "[str_of_nat m, str_of_nat h, mday, ''*'', dow]"] assms digits_word [of m] digits_word [of h] by simp

text \<open>The plan read from what a preset compiles to compiles to the same.\<close>

lemma compile_read_timed:
  assumes "compile_timed L p (str_of_nat h) (str_of_nat m) = Inr c" "h < 24" "m < 60"
  shows "\<exists>e. c = compiled_cron e \<and> e \<noteq> [] \<and> py_strip e = e \<and> compile_plan L (read_cron q e) = Inr c"
proof -
  let ?t = "pad2 h @ '':'' @ pad2 m"
  consider (daily) "ip_mode p = ''daily''" | (weekly) "ip_mode p = ''weekly''" | (monthly) "ip_mode p = ''monthly''"
    using assms(1) by (auto simp: compile_timed_def split: if_splits)
  then show ?thesis
  proof cases
    case daily
    then have "c = compiled_cron (str_of_nat m @ '' '' @ str_of_nat h @ '' '' @ ''*'' @ '' * '' @ ''*'')"
      using assms(1) by (simp add: compile_timed_def)
    then show ?thesis
      using read_timed [OF assms(2,3) , of "''*''" "''*''" q] compile_daily [OF assms(2,3), of L q]
        timed_stripped [of "''*''" "''*''" m h] by (simp add: Let_def)
  next
    case monthly
    then have d: "1 \<le> ip_day_of_month p" "ip_day_of_month p \<le> 31"
      and c: "c = compiled_cron (str_of_nat m @ '' '' @ str_of_nat h @ '' '' @ str_of_int (ip_day_of_month p) @ '' * *'')"
      using assms(1) by (auto simp: compile_timed_def split: if_splits)
    define n where "n = nat (ip_day_of_month p)"
    have n: "1 \<le> n" "n \<le> 31" "str_of_int (ip_day_of_month p) = str_of_nat n" using d by (auto simp: n_def str_of_int_def)
    show ?thesis
      using read_timed [OF assms(2,3), of "str_of_nat n" "''*''" q] compile_monthly [OF assms(2,3) n(1,2), of L q] digits_word [of n] n
        timed_stripped [of "str_of_nat n" "''*''" m h] by (simp add: c n(3) Let_def)
  next
    case weekly
    let ?picked = "remdups (map py_lower (ip_weekdays p))"
    have known: "set ?picked \<subseteq> set WEEKDAYS" "?picked \<noteq> []"
      and c: "c = compiled_cron (str_of_nat m @ '' '' @ str_of_nat h @ '' * * ''
        @ (if length ?picked = 7 then ''*'' else join '','' (ordered_days ?picked)))"
      using assms(1) weekly by (auto simp: compile_timed_def Let_def filter_empty_conv ingest_weekdays split: if_splits)
    have set: "set (ordered_days ?picked) = set ?picked" using ordered_days_facts(1) known(1) by auto
    have len: "length (ordered_days ?picked) = length ?picked"
      using set ordered_days_facts(2) distinct_remdups by (metis distinct_card)
    show ?thesis
    proof (cases "length ?picked = 7")
      case True
      then show ?thesis
        using read_timed [OF assms(2,3), of "''*''" "''*''" q] compile_daily [OF assms(2,3), of L q]
          timed_stripped [of "''*''" "''*''" m h] by (simp add: c Let_def)
    next
      case False
      have ne: "ordered_days ?picked \<noteq> []" by (rule ordered_days_not_Nil [OF known])
      have sub: "set (ordered_days ?picked) \<subseteq> set WEEKDAYS" using set known(1) by simp
      show ?thesis
        using read_weekly [OF assms(2,3) sub ne, of q] False len
          compile_weekly [OF assms(2,3) sub ordered_days_facts(2) ne, of L q]
          timed_stripped [of "''*''" "join '','' (ordered_days ?picked)" m h] names_word [OF sub ne]
        by (simp add: c ordered_days_facts(3))
    qed
  qed
qed

lemma every_groups_text: "u \<in> set EVERY_UNITS \<Longrightarrow> every_groups (str_of_nat n @ u) = Some (n, u)"
  by (auto simp: EVERY_UNITS_def every_groups_def every_shape_def butlast_append)

lemma compile_read:
  assumes "compile_plan L p = Inr c" "ip_mode p \<noteq> ''cron''"
  shows "case cp_every c of
      Some e \<Rightarrow> cp_cron c = None \<and> e \<noteq> [] \<and> py_strip e = e \<and> (\<exists>n u. every_groups e = Some (n, u)
        \<and> compile_plan L (q\<lparr>ip_mode := ''interval'', ip_every_n := int n, ip_every_unit := u\<rparr>) = Inr c)
    | None \<Rightarrow> (case cp_cron c of
        Some e \<Rightarrow> e \<noteq> [] \<and> py_strip e = e \<and> compile_plan L (read_cron q e) = Inr c
      | None \<Rightarrow> compile_plan L (q\<lparr>ip_mode := ''manual''\<rparr>) = Inr c)"
proof -
  consider (manual) "ip_mode p = ''manual''" | (interval) "ip_mode p = ''interval''" | (hourly) "ip_mode p = ''hourly''"
    | (timed) h m where "h < 24" "m < 60" "compile_timed L p (str_of_nat h) (str_of_nat m) = Inr c"
    using assms clock_Inr [of "ip_time p"]
    by (auto simp: compile_plan_def ingest_clock_def rbind_eq_Inr split: if_splits sum.splits)
  then show ?thesis
  proof cases
    case interval
    then have u: "ip_every_unit p \<in> set EVERY_UNITS" and n: "1 \<le> ip_every_n p"
      and c: "c = \<lparr>cp_cron = None, cp_every = Some (str_of_int (ip_every_n p) @ ip_every_unit p)\<rparr>"
      using assms(1) by (auto simp: compile_plan_def split: if_splits)
    have "\<forall>x \<in> set (str_of_nat (nat (ip_every_n p)) @ ip_every_unit p). \<not> is_space x"
      using u digits_word by (auto simp: EVERY_UNITS_def is_space_def)
    then show ?thesis
      using every_groups_text [OF u, of "nat (ip_every_n p)"] u n c digits_word by (simp add: compile_plan_def str_of_int_def py_strip_clean)
  next
    case hourly
    define m where "m = nat (ip_minute p)"
    have m: "m \<le> 59" "ip_minute p = int m" and c: "c = compiled_cron (str_of_nat m @ '' * * * *'')"
      using hourly assms(1) by (auto simp: compile_plan_def m_def str_of_int_def split: if_splits)
    show ?thesis using read_hourly [OF m(1), of q] m(1) strip_words [of "[str_of_nat m, ''*'', ''*'', ''*'', ''*'']"] digits_word [of m]
      by (simp add: c compile_plan_def compiled_cron_def str_of_int_def)
  next
    case (timed h m)
    then show ?thesis using compile_read_timed [OF timed(3,1,2), of q] by (auto simp: compiled_cron_def)
  qed (use assms in \<open>auto simp: compile_plan_def\<close>)
qed

section \<open>Lemmas: blocks\<close>

lemma unmodelled_set:
  "k \<in> set MODELLED_KEYS \<Longrightarrow> filter (\<lambda>kv. fst kv \<notin> set MODELLED_KEYS) (dict_set d k v) = filter (\<lambda>kv. fst kv \<notin> set MODELLED_KEYS) d"
  by (induction d k v rule: dict_set.induct) auto

definition put_opt :: "(string, pyval) dict \<Rightarrow> string \<Rightarrow> pyval option \<Rightarrow> (string, pyval) dict" where
  "put_opt d k v = (case v of None \<Rightarrow> d | Some x \<Rightarrow> dict_set d k x)"

lemma put_opt_get: "dict_get (put_opt d k v) j = (if j = k \<and> v \<noteq> None then v else dict_get d j)"
  by (simp add: put_opt_def split: option.splits)

lemma put_opt_rest: "k \<in> set MODELLED_KEYS \<Longrightarrow>
    filter (\<lambda>kv. fst kv \<notin> set MODELLED_KEYS) (put_opt d k v) = filter (\<lambda>kv. fst kv \<notin> set MODELLED_KEYS) d"
  by (simp add: put_opt_def unmodelled_set split: option.splits)

definition said :: "bool \<Rightarrow> pyval \<Rightarrow> pyval option" where
  "said b v = (if b then Some v else None)"

definition zone_said :: "ingest_plan \<Rightarrow> pyval option" where
  "zone_said p = (case ip_timezone p of None \<Rightarrow> None | Some t \<Rightarrow> said (t \<noteq> []) (PStr t))"

definition put_block :: "ingest_plan \<Rightarrow> compiled_plan \<Rightarrow> bool \<Rightarrow> (string, pyval) dict" where
  "put_block p c full = put_opt (put_opt (put_opt (put_opt (put_opt (put_opt (ip_extra p)
        ''cron'' (map_option PStr (cp_cron c))) ''every'' (map_option PStr (cp_every c))) ''timezone'' (zone_said p))
        ''run_on_startup'' (said (full \<or> ip_run_on_startup p \<noteq> ''if_missed'') (PStr (ip_run_on_startup p))))
        ''jitter_seconds'' (said (full \<or> ip_jitter_seconds p \<noteq> 30) (PInt (ip_jitter_seconds p))))
        ''misfire_grace_seconds'' (said (full \<or> ip_misfire_grace_seconds p \<noteq> 300) (PInt (ip_misfire_grace_seconds p)))"

lemma schedule_block_puts:
  "schedule_block L p full = rbind (compile_plan L p) (\<lambda>c. Inr (put_block p c full))"
proof -
  have words: "set_text d k v = put_opt d k (map_option PStr v)" for d k v
    by (simp add: set_text_def put_opt_def split: option.splits)
  have flag: "(if b then dict_set d k v else d) = put_opt d k (said b v)" for b d k v
    by (simp add: put_opt_def said_def)
  have zone: "(case ip_timezone p of Some t \<Rightarrow> if t = [] then d else dict_set d ''timezone'' (PStr t) | None \<Rightarrow> d)
      = put_opt d ''timezone'' (zone_said p)" for d
    by (simp add: put_opt_def said_def zone_said_def split: option.splits)
  show ?thesis by (simp only: schedule_block_def words flag zone) (simp only: put_block_def Let_def)
qed

lemma not_five:
  "\<nexists>a b c d x. ws = [a, b, c, d, x] \<Longrightarrow> (case ws of [a, b, c, d, x] \<Rightarrow> f a b c d x | _ \<Rightarrow> g) = g"
  by (simp split: list.split)

lemma read_cron_keeps:
  "ip_timezone (read_cron q e) = ip_timezone q \<and> ip_jitter_seconds (read_cron q e) = ip_jitter_seconds q
    \<and> ip_misfire_grace_seconds (read_cron q e) = ip_misfire_grace_seconds q
    \<and> ip_run_on_startup (read_cron q e) = ip_run_on_startup q \<and> ip_extra (read_cron q e) = ip_extra q"
proof (cases "\<exists>a b c d x. split_ws e = [a, b, c, d, x]")
  case True
  then obtain a b c d x where "split_ws e = [a, b, c, d, x]" by blast
  then show ?thesis by (simp add: read_cron_def Let_def)
next
  case False
  then have "read_cron q e = q\<lparr>ip_mode := ''cron'', ip_cron := e\<rparr>"
    unfolding read_cron_def Let_def by (rule not_five)
  then show ?thesis by simp
qed

lemma read_plan_keeps:
  "ip_timezone (read_plan d) = ip_timezone (plan_common d) \<and> ip_jitter_seconds (read_plan d) = ip_jitter_seconds (plan_common d)
    \<and> ip_misfire_grace_seconds (read_plan d) = ip_misfire_grace_seconds (plan_common d)
    \<and> ip_run_on_startup (read_plan d) = ip_run_on_startup (plan_common d) \<and> ip_extra (read_plan d) = ip_extra (plan_common d)"
  by (simp add: read_plan_def Let_def read_cron_keeps split: option.split)

lemma said_read:
  "plan_int (case said (full \<or> n \<noteq> d) (PInt n) of None \<Rightarrow> PNone | Some v \<Rightarrow> v) d = n"
  "t \<noteq> [] \<Longrightarrow> py_str_of (py_or (case said (full \<or> t \<noteq> ''if_missed'') (PStr t) of None \<Rightarrow> PNone | Some v \<Rightarrow> v) (PStr ''if_missed'')) = t"
  by (auto simp: said_def plan_int_def py_or_def py_str_of_def split: if_splits)

lemma zone_read:
  "ip_timezone p = None \<or> (\<exists>t. ip_timezone p = Some t \<and> t \<noteq> [] \<and> py_strip t = t) \<Longrightarrow>
    plan_text (case zone_said p of None \<Rightarrow> PNone | Some v \<Rightarrow> v) = ip_timezone p"
  by (auto simp: zone_said_def said_def plan_text_def)

lemma put_block_get:
  assumes "\<forall>k \<in> set (dict_keys (ip_extra p)). k \<notin> set MODELLED_KEYS"
  shows "dict_get (put_block p c full) ''cron'' = map_option PStr (cp_cron c)"
    "dict_get (put_block p c full) ''every'' = map_option PStr (cp_every c)"
    "dict_get (put_block p c full) ''timezone'' = zone_said p"
    "dict_get (put_block p c full) ''run_on_startup''
      = said (full \<or> ip_run_on_startup p \<noteq> ''if_missed'') (PStr (ip_run_on_startup p))"
    "dict_get (put_block p c full) ''jitter_seconds'' = said (full \<or> ip_jitter_seconds p \<noteq> 30) (PInt (ip_jitter_seconds p))"
    "dict_get (put_block p c full) ''misfire_grace_seconds''
      = said (full \<or> ip_misfire_grace_seconds p \<noteq> 300) (PInt (ip_misfire_grace_seconds p))"
    "filter (\<lambda>kv. fst kv \<notin> set MODELLED_KEYS) (put_block p c full) = ip_extra p"
proof -
  have mem: "''cron'' \<in> set MODELLED_KEYS" "''every'' \<in> set MODELLED_KEYS" "''timezone'' \<in> set MODELLED_KEYS"
    "''run_on_startup'' \<in> set MODELLED_KEYS" "''jitter_seconds'' \<in> set MODELLED_KEYS" "''misfire_grace_seconds'' \<in> set MODELLED_KEYS"
    by (simp_all add: MODELLED_KEYS_def)
  have "k \<in> set MODELLED_KEYS \<Longrightarrow> dict_get (ip_extra p) k = None" for k
    by (rule dict_get_keys [THEN iffD2]) (use assms in blast)
  note none = mem [THEN this]
  show "dict_get (put_block p c full) ''cron'' = map_option PStr (cp_cron c)"
    "dict_get (put_block p c full) ''every'' = map_option PStr (cp_every c)"
    "dict_get (put_block p c full) ''timezone'' = zone_said p"
    "dict_get (put_block p c full) ''run_on_startup''
      = said (full \<or> ip_run_on_startup p \<noteq> ''if_missed'') (PStr (ip_run_on_startup p))"
    "dict_get (put_block p c full) ''jitter_seconds'' = said (full \<or> ip_jitter_seconds p \<noteq> 30) (PInt (ip_jitter_seconds p))"
    "dict_get (put_block p c full) ''misfire_grace_seconds''
      = said (full \<or> ip_misfire_grace_seconds p \<noteq> 300) (PInt (ip_misfire_grace_seconds p))"
    by (simp_all add: put_block_def put_opt_get none)
  show "filter (\<lambda>kv. fst kv \<notin> set MODELLED_KEYS) (put_block p c full) = ip_extra p"
    using assms by (auto simp: put_block_def put_opt_rest mem filter_id_conv)
qed

text \<open>C34: 
  Saving a schedule of the builder and opening it again gives the schedule back: for every plan that can be saved, the zone, the
  jitter, the grace time, the startup policy and every key the builder does not know are what they were, and for every mode but
  the free cron expression the plan that is read compiles to the same \<open>cron\<close> or \<open>every\<close>. (A free expression that the builder
  could have written, such as \<open>00 03 * * *\<close>, is opened as that plan and then written in the builder's form.) The zone is stripped or
  absent, and the startup policy not empty.
\<close>

theorem plan_roundtrip:
  assumes "schedule_block L p full = Inr block"
    "\<forall>k \<in> set (dict_keys (ip_extra p)). k \<notin> set MODELLED_KEYS"
    "ip_timezone p = None \<or> (\<exists>t. ip_timezone p = Some t \<and> t \<noteq> [] \<and> py_strip t = t)" "ip_run_on_startup p \<noteq> []"
  shows "(ip_mode p \<noteq> ''cron'' \<longrightarrow> compile_plan L (read_plan block) = compile_plan L p) \<and> ip_timezone (read_plan block) = ip_timezone p
    \<and> ip_jitter_seconds (read_plan block) = ip_jitter_seconds p
    \<and> ip_misfire_grace_seconds (read_plan block) = ip_misfire_grace_seconds p
    \<and> ip_run_on_startup (read_plan block) = ip_run_on_startup p \<and> ip_extra (read_plan block) = ip_extra p"
proof -
  obtain c where c: "compile_plan L p = Inr c" and b: "block = put_block p c full"
    using assms(1) by (auto simp: schedule_block_puts rbind_eq_Inr)
  note get = put_block_get [OF assms(2), of c full, folded b]
  have common: "ip_timezone (plan_common block) = ip_timezone p" "ip_jitter_seconds (plan_common block) = ip_jitter_seconds p"
    "ip_misfire_grace_seconds (plan_common block) = ip_misfire_grace_seconds p"
    "ip_run_on_startup (plan_common block) = ip_run_on_startup p" "ip_extra (plan_common block) = ip_extra p"
    by (simp_all only: plan_common_def get_or_def get zone_read [OF assms(3)] said_read(1) said_read(2) [OF assms(4)])
      simp_all
  have kept: "ip_timezone (read_plan block) = ip_timezone (plan_common block)
    \<and> ip_jitter_seconds (read_plan block) = ip_jitter_seconds (plan_common block)
    \<and> ip_misfire_grace_seconds (read_plan block) = ip_misfire_grace_seconds (plan_common block)
    \<and> ip_run_on_startup (read_plan block) = ip_run_on_startup (plan_common block)
    \<and> ip_extra (read_plan block) = ip_extra (plan_common block)"
    by (rule read_plan_keeps)
  have "compile_plan L (read_plan block) = Inr c" if "ip_mode p \<noteq> ''cron''"
    using compile_read [OF c that, of "plan_common block"]
    by (auto simp: read_plan_def Let_def get_or_def get plan_text_def split: option.splits)
  then show ?thesis using c common kept by simp
qed

definition demo_ingest_lib :: ingest_lib where
  "demo_ingest_lib = \<lparr>il_i18n = \<lparr>tr = (\<lambda>s _. s), ntr = (\<lambda>one many n _. if n = 1 then one else many)\<rparr>, il_cron_lib = demo_lib,
     il_from_crontab = (\<lambda>e _. if length (split_ws e) = 5 then None else Some ''wrong number of fields''),
     il_fire = (\<lambda>_ _ _ _. None), il_wall_text = (\<lambda>_. [])\<rparr>"

definition demo_plan :: ingest_plan where
  "demo_plan = plan_defaults\<lparr>ip_mode := ''weekly'', ip_time := ''4:05'', ip_weekdays := [''sun'', ''Tue''], ip_jitter_seconds := 5,
     ip_extra := [(''owner'', PStr ''ops'')]\<rparr>"

definition demo_block :: "(string, pyval) dict" where
  "demo_block = [(''owner'', PStr ''ops''), (''cron'', PStr ''5 4 * * tue,sun''), (''jitter_seconds'', PInt 5)]"

lemma plan_roundtrip_witness:
  "schedule_block demo_ingest_lib demo_plan False = Inr demo_block
    \<and> compile_plan demo_ingest_lib (read_plan demo_block) = compile_plan demo_ingest_lib demo_plan
    \<and> ip_extra (read_plan demo_block) = [(''owner'', PStr ''ops'')]"
proof -
  have b: "schedule_block demo_ingest_lib demo_plan False = Inr demo_block" by code_simp
  have p: "ip_mode demo_plan \<noteq> ''cron''" "\<forall>k \<in> set (dict_keys (ip_extra demo_plan)). k \<notin> set MODELLED_KEYS"
    "ip_timezone demo_plan = None" "ip_run_on_startup demo_plan \<noteq> []" "ip_extra demo_plan = [(''owner'', PStr ''ops'')]"
    by (simp_all add: demo_plan_def plan_defaults_def MODELLED_KEYS_def)
  show ?thesis using plan_roundtrip [OF b p(2) disjI1 [OF p(3)] p(4)] b p(1,5) by simp
qed

end
