(* ===== verification/Ingest_Spec.thy ===== *)
theory Ingest_Spec
  imports Ingest_Plan
begin

text \<open>
  The manager's mirror of the ingester's job schema (\<open>core/ingest/jobspec.py\<close>): references to credentials, the sources and
  their fields, the merge with the catalogue's \<open>defaults:\<close>, writing back only what a job does not inherit, and the rules of the
  loader within one job and across jobs. pydantic itself is a parameter, a function of the validators it is given
  (\<open>sl_model_validate\<close>): it gives the errors it lists or the job. The validators of the classes are defined here and handed to
  it (\<open>job_validators\<close>). A merged mapping has text keys.
\<close>

section \<open>Equality of decoded values\<close>

text \<open>
  Python's \<open>==\<close>: a boolean equals the number it stands for, mappings compare without their order. A float is kept by its \<open>repr\<close>,
  so that it equals an integer when the \<open>repr\<close> is the integer followed by \<open>.0\<close> (below \<open>10^16\<close>).
\<close>

fun num_of :: "pyval \<Rightarrow> string option" where
  "num_of (PBool b) = Some (if b then ''1'' else ''0'')"
| "num_of (PInt i) = Some (str_of_int i)"
| "num_of (PFloat r) = Some (if r = ''-0.0'' then ''0'' else if drop (length r - 2) r = ''.0'' then take (length r - 2) r else r)"
| "num_of _ = None"

fun py_eq :: "pyval \<Rightarrow> pyval \<Rightarrow> bool" where
  "py_eq PNone w = (w = PNone)"
| "py_eq (PStr s) w = (w = PStr s)"
| "py_eq (PList xs) w = (case w of PList ys \<Rightarrow> list_all2 py_eq xs ys | _ \<Rightarrow> False)"
| "py_eq (PDict d) w =
     (case w of
        PDict e \<Rightarrow> length d = length e
          \<and> list_all (\<lambda>kv. case dict_get e (fst kv) of None \<Rightarrow> False | Some u \<Rightarrow> py_eq (snd kv) u) d
      | _ \<Rightarrow> False)"
| "py_eq v w = (num_of v = num_of w)"

definition empty_value :: "pyval \<Rightarrow> bool" where
  "empty_value v \<longleftrightarrow> v = PNone \<or> v = PStr [] \<or> v = PList [] \<or> v = PDict []"

section \<open>References to credentials\<close>

definition is_secret_char :: "char \<Rightarrow> bool" where
  "is_secret_char c \<longleftrightarrow> is_upper c \<or> is_digit c \<or> c = CHR ''_''"

definition SECRET_PREFIX :: string where "SECRET_PREFIX = ''QI_SECRET_''"

definition secret_body :: "string \<Rightarrow> bool" where
  "secret_body s \<longleftrightarrow> startswith s SECRET_PREFIX \<and> drop (length SECRET_PREFIX) s \<noteq> []
     \<and> list_all is_secret_char (drop (length SECRET_PREFIX) s)"

definition REF_OPEN :: string where "REF_OPEN = CHR 0x24 # CHR 0x7B # ''env:''"

definition secret_ref :: "string \<Rightarrow> string" where
  "secret_ref name = REF_OPEN @ name @ [CHR 0x7D]"

text \<open>The name inside a reference; \<open>strip\<close> leaves no line feed for \<open>$\<close> to skip.\<close>

definition secret_name :: "pyval \<Rightarrow> string option" where
  "secret_name v =
     (case v of
        PStr s \<Rightarrow>
          (let t = py_strip s; name = butlast (drop (length REF_OPEN) t)
           in if startswith t REF_OPEN \<and> length REF_OPEN < length t \<and> last t = CHR 0x7D \<and> secret_body name then Some name else None)
      | _ \<Rightarrow> None)"

definition as_reference :: "string \<Rightarrow> string" where
  "as_reference value =
     (if secret_name (PStr value) \<noteq> None then value
      else if match_dollar secret_body value then secret_ref value else value)"

section \<open>Ids\<close>

definition slug64 :: "string \<Rightarrow> bool" where
  "slug64 s \<longleftrightarrow>
     (case s of [] \<Rightarrow> False
      | c # cs \<Rightarrow> (is_lower c \<or> is_digit c) \<and> list_all (\<lambda>d. is_lower d \<or> is_digit d \<or> d = CHR ''_'' \<or> d = CHR ''-'') cs \<and> length cs \<le> 63)"

definition RESERVED_IDS :: "string list" where "RESERVED_IDS = [''new'']"
definition MANAGED_PREFIX :: string where "MANAGED_PREFIX = ''mgr-''"

definition is_valid_id :: "string \<Rightarrow> bool" where
  "is_valid_id value \<longleftrightarrow> slug64 value"

definition id_problem :: "ingest_lib \<Rightarrow> string \<Rightarrow> string option" where
  "id_problem L value =
     (if \<not> is_valid_id value then
        Some (il_tr L (''use lowercase letters, digits, '' @ [CHR 0x27] @ ''-'' @ [CHR 0x27] @ '' and '' @ [CHR 0x27] @ ''_'' @ [CHR 0x27]
          @ '' (up to 64, starting with a letter or a digit)'') [])
      else if value \<in> set RESERVED_IDS then Some (il_tr L ([CHR 0x27] @ ''%(value)s'' @ [CHR 0x27] @ '' is reserved'') [(''value'', value)])
      else if startswith value MANAGED_PREFIX then
        Some (il_tr L (''ids starting with '' @ [CHR 0x27] @ ''%(MANAGED_PREFIX)s'' @ [CHR 0x27]
          @ '' belong to the Embedding page; choose another'') [(''MANAGED_PREFIX'', MANAGED_PREFIX)])
      else None)"

section \<open>The fields of the sources\<close>

record field_info =
  fi_name :: string
  fi_alias :: "string option"
  fi_required :: bool
  fi_value :: pyval
  fi_secret :: bool

record source_model =
  sm_secret_keys :: "string list"
  sm_fields :: "field_info list"

definition need :: "string \<Rightarrow> field_info" where
  "need n = \<lparr>fi_name = n, fi_alias = None, fi_required = True, fi_value = PNone, fi_secret = False\<rparr>"

definition opt :: "string \<Rightarrow> pyval \<Rightarrow> field_info" where
  "opt n v = \<lparr>fi_name = n, fi_alias = None, fi_required = False, fi_value = v, fi_secret = False\<rparr>"

text \<open>A field of the type \<open>SecretRef | None\<close>, under its name or an alias.\<close>

definition cred :: "string \<Rightarrow> field_info" where
  "cred n = \<lparr>fi_name = n, fi_alias = None, fi_required = False, fi_value = PNone, fi_secret = True\<rparr>"

definition cred_as :: "string \<Rightarrow> string \<Rightarrow> field_info" where
  "cred_as n a = \<lparr>fi_name = n, fi_alias = Some a, fi_required = False, fi_value = PNone, fi_secret = True\<rparr>"

definition source_base :: "field_info list" where
  "source_base = [need ''label'', opt ''rclone_flags'' (PList [])]"

definition LocalSource :: source_model where
  "LocalSource = \<lparr>sm_secret_keys = [], sm_fields = source_base @ [need ''type'', need ''path'']\<rparr>"

definition S3Source :: source_model where
  "S3Source = \<lparr>sm_secret_keys = [''access_key_id'', ''secret_access_key''],
     sm_fields = source_base @ [need ''type'', need ''bucket'', opt ''prefix'' (PStr []), opt ''provider'' (PStr ''AWS''),
       opt ''region'' (PStr []), opt ''endpoint'' (PStr []), cred ''access_key_id'', cred ''secret_access_key'']\<rparr>"

definition WebdavSource :: source_model where
  "WebdavSource = \<lparr>sm_secret_keys = [''pass''],
     sm_fields = source_base @ [need ''type'', need ''url'', opt ''vendor'' (PStr ''other''), opt ''user'' (PStr []),
       cred_as ''password'' ''pass'']\<rparr>"

definition SftpSource :: source_model where
  "SftpSource = \<lparr>sm_secret_keys = [''pass'', ''key_file''],
     sm_fields = source_base @ [need ''type'', need ''host'', opt ''port'' (PInt 22), opt ''user'' (PStr []),
       cred_as ''password'' ''pass'', cred ''key_file'', opt ''path'' (PStr ''/'')]\<rparr>"

definition SmbSource :: source_model where
  "SmbSource = \<lparr>sm_secret_keys = [''pass''],
     sm_fields = source_base @ [need ''type'', need ''host'', need ''share'', opt ''user'' (PStr []), cred_as ''password'' ''pass'',
       opt ''path'' (PStr [])]\<rparr>"

definition FtpSource :: source_model where
  "FtpSource = \<lparr>sm_secret_keys = [''pass''],
     sm_fields = source_base @ [need ''type'', need ''host'', opt ''port'' (PInt 21), opt ''user'' (PStr []),
       cred_as ''password'' ''pass'', opt ''path'' (PStr []), opt ''tls'' (PBool False)]\<rparr>"

definition GdriveSource :: source_model where
  "GdriveSource = \<lparr>sm_secret_keys = [''service_account_json'', ''token''],
     sm_fields = source_base @ [need ''type'', cred ''service_account_json'', cred ''token'', opt ''root_folder_id'' (PStr [])]\<rparr>"

definition AzureBlobSource :: source_model where
  "AzureBlobSource = \<lparr>sm_secret_keys = [''key'', ''sas_url''],
     sm_fields = source_base @ [need ''type'', need ''account'', need ''container'', cred ''key'', cred ''sas_url'',
       opt ''prefix'' (PStr [])]\<rparr>"

definition HttpSource :: source_model where
  "HttpSource = \<lparr>sm_secret_keys = [], sm_fields = source_base @ [need ''type'', need ''url'']\<rparr>"

definition SOURCE_MODELS :: "(string, source_model) dict" where
  "SOURCE_MODELS = [(''local'', LocalSource), (''s3'', S3Source), (''webdav'', WebdavSource), (''sftp'', SftpSource), (''smb'', SmbSource),
     (''ftp'', FtpSource), (''gdrive'', GdriveSource), (''azureblob'', AzureBlobSource), (''http'', HttpSource)]"

definition fi_key :: "field_info \<Rightarrow> string" where
  "fi_key i = (case fi_alias i of Some (c # a) \<Rightarrow> c # a | _ \<Rightarrow> fi_name i)"

definition secret_keys_of :: "string \<Rightarrow> string list" where
  "secret_keys_of t = (case dict_get SOURCE_MODELS t of None \<Rightarrow> [] | Some m \<Rightarrow> sm_secret_keys m)"

definition secret_fields_of :: "string \<Rightarrow> string list" where
  "secret_fields_of t = (case dict_get SOURCE_MODELS t of None \<Rightarrow> [] | Some m \<Rightarrow> map fi_key (filter fi_secret (sm_fields m)))"

definition source_defaults :: "source_model \<Rightarrow> (string, pyval) dict" where
  "source_defaults m =
     dict_of (map (\<lambda>i. (fi_key i, fi_value i))
       (filter (\<lambda>i. fi_name i \<notin> {''type'', ''label''} \<and> \<not> fi_required i) (sm_fields m)))"

definition source_required :: "source_model \<Rightarrow> string list" where
  "source_required m =
     map fi_key (filter (\<lambda>i. fi_required i \<and> fi_name i \<notin> {''type'', ''label''}) (sm_fields m))"

definition model_keys :: "source_model \<Rightarrow> string list" where
  "model_keys m = map fi_key (filter (\<lambda>i. fi_name i \<notin> {''type'', ''label''}) (sm_fields m))"

section \<open>Sections and their defaults\<close>

definition DEFAULT_SECTIONS :: "string list" where
  "DEFAULT_SECTIONS = [''embedding'', ''chunking'', ''filters'', ''schedule'', ''safety'']"

definition TOP_DEFAULTS :: "(string, pyval) dict" where
  "TOP_DEFAULTS = [(''enabled'', PBool True), (''description'', PStr []), (''full_scope'', PStr ''job''), (''append_probe'', PStr ''auto''),
     (''mcp_allow_full'', PBool False), (''expand_embedded'', PBool False),
     (''source_template'', PStr ([CHR 0x7B] @ ''scheme'' @ [CHR 0x7D] @ ''://'' @ [CHR 0x7B] @ ''label'' @ [CHR 0x7D] @ ''/''
        @ [CHR 0x7B] @ ''rel_path'' @ [CHR 0x7D]))]"

definition section_defaults :: "string \<Rightarrow> (string, pyval) dict" where
  "section_defaults section =
     (if section = ''filters'' then [(''include'', PList []), (''exclude'', PList []), (''max_file_bytes'', PNone)]
      else if section = ''schedule'' then [(''cron'', PNone), (''every'', PNone), (''timezone'', PNone), (''jitter_seconds'', PInt 30),
        (''misfire_grace_seconds'', PInt 300), (''run_on_startup'', PStr ''if_missed'')]
      else if section = ''chunking'' then [(''strategy'', PStr ''auto''), (''words'', PInt 400), (''overlap'', PInt 50)]
      else if section = ''embedding'' then [(''model'', PNone), (''batch_size'', PNone)]
      else if section = ''safety'' then [(''max_delete_ratio'', PFloat ''0.25''), (''empty_source_guard'', PBool True)]
      else [])"

text \<open>The ingester's merge: mappings merge, everything else is replaced.\<close>

function deep_merge :: "(string, pyval) dict \<Rightarrow> (string, pyval) dict \<Rightarrow> (string, pyval) dict" where
  "deep_merge merged [] = merged"
| "deep_merge merged ((key, value) # rest) =
     deep_merge (dict_set merged key
       (case value of
          PDict v \<Rightarrow> (case dict_get merged key of Some (PDict b) \<Rightarrow> PDict (deep_merge b v) | _ \<Rightarrow> value)
        | _ \<Rightarrow> value)) rest"
  by pat_completeness auto
termination
  by (relation "measure (\<lambda>(_, d). size (PDict d))") auto

definition as_mapping :: "pyval \<Rightarrow> (string, pyval) dict" where
  "as_mapping v = (case v of PDict d \<Rightarrow> d | _ \<Rightarrow> [])"

definition known_defaults :: "pyval \<Rightarrow> (string, pyval) dict" where
  "known_defaults defaults =
     List.map_filter (\<lambda>key. map_option (Pair key) (dict_get (as_mapping defaults) key)) DEFAULT_SECTIONS"

definition effective :: "(string, pyval) dict \<Rightarrow> pyval \<Rightarrow> (string, pyval) dict" where
  "effective raw defaults = deep_merge (known_defaults defaults) raw"

section \<open>Writing a job back\<close>

text \<open>What a job gets for the keys of a section it does not set. A section of the catalogue that is no mapping raises.\<close>

definition inherited_section :: "pyval \<Rightarrow> string \<Rightarrow> py_exn + (string, pyval) dict" where
  "inherited_section defaults section =
     (case py_or (get_none (known_defaults defaults) section) (PDict []) of
        PDict chosen \<Rightarrow> Inr (deep_merge (section_defaults section) chosen)
      | _ \<Rightarrow> Inl AttributeError)"

definition inherited_sections :: "pyval \<Rightarrow> py_exn + (string, (string, pyval) dict) dict" where
  "inherited_sections defaults =
     rmap (\<lambda>section. rbind (inherited_section defaults section) (\<lambda>d. Inr (section, d))) DEFAULT_SECTIONS"

definition keeps_key :: "string \<Rightarrow> (string, pyval) dict \<Rightarrow> string \<times> pyval \<Rightarrow> bool" where
  "keeps_key section inherited = (\<lambda>(key, value).
     if section = ''embedding'' \<and> key = ''model'' then \<not> empty_value value
     else if empty_value value \<and> empty_value (get_none inherited key) then False
     else (case dict_get inherited key of Some w \<Rightarrow> \<not> py_eq value w | None \<Rightarrow> True))"

definition minimise_section :: "string \<Rightarrow> (string, pyval) dict \<Rightarrow> (string, pyval) dict \<Rightarrow> (string, pyval) dict" where
  "minimise_section section inherited section_in = filter (keeps_key section inherited) section_in"

definition minimise_source :: "(string, pyval) dict \<Rightarrow> (string, pyval) dict" where
  "minimise_source source =
     (let source_type = py_str_of (py_or (get_none source ''type'') (PStr []));
          out = [(''type'', PStr source_type), (''label'', get_none source ''label'')]
      in case dict_get SOURCE_MODELS source_type of
           None \<Rightarrow> out
         | Some model \<Rightarrow>
             foldl (\<lambda>out (key, value).
                 if key = ''type'' \<or> key = ''label'' then out
                 else (case value of
                     PStr v \<Rightarrow>
                       if key \<in> set (sm_secret_keys model) \<and> py_strip v \<noteq> [] then dict_set out key (PStr (as_reference (py_strip v)))
                       else if key \<in> set (source_required model) then dict_set out key value
                       else if empty_value value \<or> (case dict_get (source_defaults model) key of Some w \<Rightarrow> py_eq value w | None \<Rightarrow> False)
                         then out
                       else dict_set out key value
                   | _ \<Rightarrow>
                       if key \<in> set (source_required model) then dict_set out key value
                       else if empty_value value \<or> (case dict_get (source_defaults model) key of Some w \<Rightarrow> py_eq value w | None \<Rightarrow> False)
                         then out
                       else dict_set out key value))
               out source)"

text \<open>
  \<open>dict(v)\<close> of a decoded value: a mapping, or a collection of pairs. (A pair whose key is no text counts as an error: a document
  cannot hold it.)
\<close>

definition py_dict :: "pyval \<Rightarrow> py_exn + (string, pyval) dict" where
  "py_dict v =
     (case v of
        PDict d \<Rightarrow> Inr d
      | _ \<Rightarrow> rbind (py_iter v) (\<lambda>xs. rbind (rmap (\<lambda>x. rbind (py_iter x) (\<lambda>kv.
               case kv of [PStr k, w] \<Rightarrow> Inr (k, w) | _ \<Rightarrow> Inl ValueError)) xs) (\<lambda>kvs. Inr (dict_of kvs))))"

definition minimise_target :: "(string, pyval) dict \<Rightarrow> py_exn + (string, pyval) dict" where
  "minimise_target target =
     (let base = [(''collection'', get_none target ''collection''), (''connection'', get_none target ''connection'')]
      in rbind (if truthy (get_none target ''acl_tags'') then
                  rbind (py_iter (get_none target ''acl_tags'')) (\<lambda>raw.
                    let tags = filter (\<lambda>t. t \<noteq> []) (map (\<lambda>tag. py_strip (py_str_of tag)) raw)
                    in Inr (if tags = [] then base else base @ [(''acl_tags'', PList (map PStr tags))]))
                else Inr base) (\<lambda>out.
           if truthy (get_none target ''extra_payload'')
           then rbind (py_dict (get_none target ''extra_payload'')) (\<lambda>d. Inr (out @ [(''extra_payload'', PDict d)]))
           else Inr out))"

definition minimise :: "(string, pyval) dict \<Rightarrow> pyval \<Rightarrow> py_exn + (string, pyval) dict" where
  "minimise job defaults =
     (let o1 = [(''id'', get_none job ''id'')];
          o2 = (if get_none job ''enabled'' = PBool False then o1 @ [(''enabled'', PBool False)] else o1);
          description = py_strip (py_str_of (py_or (get_none job ''description'') (PStr [])));
          o3 = (if description \<noteq> [] then o2 @ [(''description'', PStr description)] else o2);
          o4 = o3 @ [(''source'', PDict (minimise_source (as_mapping (get_none job ''source''))))]
      in rbind (minimise_target (as_mapping (get_none job ''target''))) (\<lambda>out_target.
           let o5 = o4 @ [(''target'', PDict out_target), (''mode'', get_none job ''mode'')];
               o6 = o5 @ filter (\<lambda>(key, value). value \<noteq> PNone \<and> \<not> py_eq value (get_none TOP_DEFAULTS key))
                 (map (\<lambda>key. (key, get_none job key)) (filter (\<lambda>key. key \<notin> {''enabled'', ''description''}) (dict_keys TOP_DEFAULTS)))
           in rbind (inherited_sections defaults) (\<lambda>inherited.
                Inr (o6 @ List.map_filter (\<lambda>(section, inh).
                  case dict_get job section of
                    Some (PDict section_in) \<Rightarrow>
                      (let kept = minimise_section section inh section_in
                       in if kept = [] then None else Some (section, PDict kept))
                  | _ \<Rightarrow> None) inherited))))"

section \<open>Validation\<close>

text \<open>
  A validated job, its sections side by side: the type, label and path of the source, its secret fields by their authored keys and
  its remaining fields, then the target, the schedule and the rest as the classes have them (of the extra payload, the keys).
\<close>

record job_spec =
  js_id :: string
  js_enabled :: bool
  js_description :: string
  js_source_type :: string
  js_label :: string
  js_path :: string
  js_secrets :: "(string, string) dict"
  js_source_rest :: "(string, pyval) dict"
  js_include :: "string list"
  js_exclude :: "string list"
  js_max_file_bytes :: "int option"
  js_collection :: string
  js_connection :: string
  js_acl_tags :: "string list"
  js_extra_payload :: "string list"
  js_mode :: string
  js_full_scope :: string
  js_append_probe :: string
  js_cron :: "string option"
  js_every :: "string option"
  js_timezone :: "string option"
  js_jitter_seconds :: int
  js_misfire_grace_seconds :: int
  js_run_on_startup :: string
  js_strategy :: string
  js_words :: int
  js_overlap :: int
  js_model :: "string option"
  js_batch_size :: "int option"
  js_max_delete_ratio :: string
  js_empty_source_guard :: bool
  js_mcp_allow_full :: bool
  js_expand_embedded :: bool
  js_source_template :: string

record pydantic_error =
  pe_loc :: "string list"
  pe_type :: string
  pe_msg :: string

text \<open>The validators the classes declare, as pydantic is given them.\<close>

record class_validators =
  cv_secret :: "string \<Rightarrow> string + string"
  cv_extra_payload :: "string list \<Rightarrow> string option"
  cv_schedule :: "string option \<Rightarrow> string option \<Rightarrow> string option"
  cv_chunking :: "int \<Rightarrow> int \<Rightarrow> string option"
  cv_source_template :: "string \<Rightarrow> string option"

record spec_lib =
  sl_ingest :: ingest_lib
  sl_model_validate :: "class_validators \<Rightarrow> (string, pyval) dict \<Rightarrow> pydantic_error list + job_spec"

abbreviation sl_tr :: "spec_lib \<Rightarrow> string \<Rightarrow> (string, string) dict \<Rightarrow> string" where
  "sl_tr S \<equiv> il_tr (sl_ingest S)"

definition RESERVED_PAYLOAD_KEYS :: "string list" where
  "RESERVED_PAYLOAD_KEYS = [''text'', ''source'', ''ingest_job'', ''ingest_run'', ''acl_tags'']"

text \<open>The validators of the classes: an error message, or the value.\<close>

definition check_secret :: "ingest_lib \<Rightarrow> string \<Rightarrow> string + string" where
  "check_secret L value =
     (if secret_name (PStr value) = None
      then Inl (il_tr L (''choose a stored credential; a value typed here would end up in jobs.yaml (references look like ''
             @ secret_ref ''QI_SECRET_NAME'' @ '')'') [])
      else Inr (py_strip value))"

definition no_reserved_keys :: "ingest_lib \<Rightarrow> string list \<Rightarrow> string option" where
  "no_reserved_keys L ks =
     (let clashes = filter (\<lambda>k. k \<in> set ks) RESERVED_PAYLOAD_KEYS
      in if clashes = [] then None
         else Some (il_tr L ''extra payload may not use the keys the ingester owns: %(keys)s'' [(''keys'', join '', '' (sort clashes))]))"

definition cron_xor_every :: "ingest_lib \<Rightarrow> string option \<Rightarrow> string option \<Rightarrow> string option" where
  "cron_xor_every L cron every =
     (if cron \<noteq> None \<and> every \<noteq> None then Some (il_tr L ''a schedule takes either a cron expression or an interval, not both'' [])
      else case every of None \<Rightarrow> None | Some e \<Rightarrow> every_error L e)"

definition overlap_below_words :: "ingest_lib \<Rightarrow> int \<Rightarrow> int \<Rightarrow> string option" where
  "overlap_below_words L words overlap =
     (if overlap \<ge> words then Some (il_tr L ''the overlap must be smaller than the chunk size'' []) else None)"

definition placeholders :: "ingest_lib \<Rightarrow> string \<Rightarrow> string option" where
  "placeholders L value =
     (let rel = [CHR 0x7B] @ ''rel_path'' @ [CHR 0x7D]; lab = [CHR 0x7B] @ ''label'' @ [CHR 0x7D]
      in if \<not> contains value rel \<or> \<not> contains value lab
         then Some (il_tr L (''the source template must contain '' @ lab @ '' and '' @ rel) []) else None)"

definition job_validators :: "ingest_lib \<Rightarrow> class_validators" where
  "job_validators L = \<lparr>cv_secret = check_secret L, cv_extra_payload = no_reserved_keys L, cv_schedule = cron_xor_every L,
     cv_chunking = overlap_below_words L, cv_source_template = placeholders L\<rparr>"

definition model_validate :: "spec_lib \<Rightarrow> (string, pyval) dict \<Rightarrow> pydantic_error list + job_spec" where
  "model_validate S raw = sl_model_validate S (job_validators (sl_ingest S)) raw"

text \<open>
  What pydantic documents of a model it returns, whatever the validators: a credential field of the source's class holds what its
  validator returned; the validated fields were accepted or keep their default, which is not validated; the validators of a whole
  section accepted it. When it refuses, it lists at least one error.
\<close>

definition passed :: "class_validators \<Rightarrow> job_spec \<Rightarrow> bool" where
  "passed V s \<longleftrightarrow>
     list_all (\<lambda>(k, v). k \<in> set (secret_fields_of (js_source_type s)) \<and> (\<exists>typed. cv_secret V typed = Inr v)) (js_secrets s)
     \<and> (js_extra_payload s = [] \<or> cv_extra_payload V (js_extra_payload s) = None)
     \<and> cv_schedule V (js_cron s) (js_every s) = None \<and> cv_chunking V (js_words s) (js_overlap s) = None
     \<and> (PStr (js_source_template s) = get_none TOP_DEFAULTS ''source_template''
        \<or> cv_source_template V (js_source_template s) = None)"

definition pydantic_ok :: "(class_validators \<Rightarrow> (string, pyval) dict \<Rightarrow> pydantic_error list + job_spec) \<Rightarrow> bool" where
  "pydantic_ok M \<longleftrightarrow> (\<forall>V raw. M V raw \<noteq> Inl [] \<and> (\<forall>s. M V raw = Inr s \<longrightarrow> passed V s))"

section \<open>Issues\<close>

record job_issue =
  is_job_id :: "string option"
  is_field :: string
  is_message :: string

definition issue_text :: "job_issue \<Rightarrow> string" where
  "issue_text i =
     (case is_job_id i of Some (c # t) \<Rightarrow> (c # t) @ '': '' | _ \<Rightarrow> []) @ is_field i @ '': '' @ is_message i"

definition issue_dict :: "job_issue \<Rightarrow> (string, pyval) dict" where
  "issue_dict i = [(''job_id'', case is_job_id i of None \<Rightarrow> PNone | Some j \<Rightarrow> PStr j), (''field'', PStr (is_field i)),
     (''message'', PStr (is_message i))]"

definition FRIENDLY :: "(string, string) dict" where
  "FRIENDLY = [(''missing'', ''this is required''), (''extra_forbidden'', ''is not a setting the ingester knows''),
     (''string_too_short'', ''this is required''), (''string_pattern_mismatch'', ''has a format the ingester does not accept''),
     (''int_parsing'', ''must be a whole number''), (''float_parsing'', ''must be a number''), (''bool_parsing'', ''must be true or false''),
     (''greater_than_equal'', ''is too small''), (''less_than_equal'', ''is too large'')]"

definition without_prefix :: "string \<Rightarrow> string \<Rightarrow> string" where
  "without_prefix s p = (if startswith s p then drop (length p) s else s)"

text \<open>The source's type inside a location (\<open>source.s3.bucket\<close>) goes away.\<close>

definition issue_loc :: "string list \<Rightarrow> string list" where
  "issue_loc loc =
     (case loc of
        a # b # rest \<Rightarrow> if a = ''source'' \<and> dict_get SOURCE_MODELS b \<noteq> None then a # rest else loc
      | _ \<Rightarrow> loc)"

definition issue_from :: "ingest_lib \<Rightarrow> string option \<Rightarrow> pydantic_error \<Rightarrow> job_issue" where
  "issue_from L job_id e =
     (let loc = issue_loc (pe_loc e);
          path = (if join ''.'' loc = [] then ''<root>'' else join ''.'' loc);
          tail = last (split_char (CHR ''.'') path);
          quoted = (\<lambda>c. [CHR 0x27, c, CHR 0x27]);
          message =
            (if pe_type e = ''string_pattern_mismatch'' then
               (if tail \<in> {''id'', ''label'', ''connection''} then
                  il_tr L (''use lowercase letters, digits, '' @ quoted (CHR ''-'') @ '' and '' @ quoted (CHR ''_'')
                    @ '' (up to 64, starting with a letter or a digit)'') []
                else if tail = ''collection'' then
                  il_tr L (''use letters, digits, '' @ quoted (CHR ''.'') @ '', '' @ quoted (CHR ''_'') @ '' and '' @ quoted (CHR ''-'')
                    @ '' (up to 128, starting with a letter or a digit)'') []
                else il_tr L ''has a format the ingester does not accept'' [])
             else case dict_get FRIENDLY (pe_type e) of
               Some t \<Rightarrow> il_tr L t []
             | None \<Rightarrow>
                 if pe_type e = ''value_error'' then without_prefix (pe_msg e) ''Value error, ''
                 else if pe_type e = ''literal_error'' \<and> loc \<noteq> [] \<and> last loc = ''type'' then il_tr L ''choose one of the source types'' []
                 else pe_msg e)
      in \<lparr>is_job_id = job_id, is_field = path, is_message = message\<rparr>)"

definition parse_job :: "spec_lib \<Rightarrow> (string, pyval) dict \<Rightarrow> pyval \<Rightarrow> string option \<Rightarrow> job_spec option \<times> job_issue list" where
  "parse_job S raw defaults label =
     (let job_id = (case get_none raw ''id'' of PStr (c # t) \<Rightarrow> Some (c # t) | _ \<Rightarrow> label)
      in case model_validate S (effective raw defaults) of
           Inl errors \<Rightarrow> (None, map (issue_from (sl_ingest S) job_id) errors)
         | Inr spec \<Rightarrow> (Some spec, []))"

section \<open>The rules of the loader\<close>

record rule_context =
  rc_connections :: "string list option"
  rc_secrets :: "string list option"
  rc_system_collections :: "string list"
  rc_local_root :: string

definition default_context :: rule_context where
  "default_context = \<lparr>rc_connections = None, rc_secrets = None, rc_system_collections = [''_collection_meta'', ''_rbac_acl''],
     rc_local_root = ''/data/local''\<rparr>"

text \<open>\<open>posixpath.normpath\<close>: the components so far, newest first.\<close>

fun norm_comps :: "bool \<Rightarrow> string list \<Rightarrow> string list \<Rightarrow> string list" where
  "norm_comps absolute acc [] = rev acc"
| "norm_comps absolute acc (part # parts) =
     (if part = [] \<or> part = ''.'' then norm_comps absolute acc parts
      else if part \<noteq> ''..'' \<or> (\<not> absolute \<and> acc = []) \<or> (acc \<noteq> [] \<and> hd acc = ''..'') then norm_comps absolute (part # acc) parts
      else norm_comps absolute (tl acc) parts)"

definition slashes :: "string \<Rightarrow> string" where
  "slashes path =
     (if \<not> startswith path ''/'' then [] else if startswith path ''//'' \<and> \<not> startswith path ''///'' then ''//'' else ''/'')"

definition normpath :: "string \<Rightarrow> string" where
  "normpath path =
     (if path = [] then ''.''
      else let out = slashes path @ join ''/'' (norm_comps (slashes path \<noteq> []) [] (split_char (CHR ''/'') path))
           in if out = [] then ''.'' else out)"

definition rstrip_slash :: "string \<Rightarrow> string" where
  "rstrip_slash s = rev (dropWhile (\<lambda>c. c = CHR ''/'') (rev s))"

definition forward :: "string \<Rightarrow> string" where
  "forward s = map (\<lambda>c. if c = CHR 0x5C then CHR ''/'' else c) s"

definition local_path_problem :: "ingest_lib \<Rightarrow> string \<Rightarrow> string \<Rightarrow> string option" where
  "local_path_problem L path root =
     (let mount = rstrip_slash (normpath (forward root));
          normalised = normpath (forward path)
      in if normalised \<noteq> mount \<and> \<not> startswith normalised (mount @ ''/'')
         then Some (il_tr L (''local source paths must live under '' @ [CHR 0x27] @ ''%(mount)s'' @ [CHR 0x27]
                @ '' (got '' @ [CHR 0x27] @ ''%(path)s'' @ [CHR 0x27] @ '')'') [(''mount'', mount), (''path'', path)])
         else None)"

definition check_job :: "spec_lib \<Rightarrow> string \<Rightarrow> job_spec \<Rightarrow> rule_context \<Rightarrow> job_issue list" where
  "check_job S job_id spec ctx =
     (let L = sl_ingest S; say = (\<lambda>field message. \<lparr>is_job_id = Some job_id, is_field = field, is_message = message\<rparr>)
      in (case js_cron spec of
            None \<Rightarrow> []
          | Some c \<Rightarrow> (case cron_error L c ''UTC'' of None \<Rightarrow> [] | Some p \<Rightarrow> [say ''schedule.cron'' p]))
       @ (case js_timezone spec of
            Some (c # t) \<Rightarrow> (case ingest_zone L (c # t) of Inl e \<Rightarrow> [say ''schedule.timezone'' e] | Inr _ \<Rightarrow> [])
          | _ \<Rightarrow> [])
       @ (case rc_secrets ctx of
            None \<Rightarrow> []
          | Some secrets \<Rightarrow>
              List.map_filter (\<lambda>key.
                case secret_name (case dict_get (js_secrets spec) key of None \<Rightarrow> PNone | Some v \<Rightarrow> PStr v) of
                  Some name \<Rightarrow> if name \<in> set secrets then None
                    else Some (say (''source.'' @ key) (il_tr L (''the credential '' @ [CHR 0x27] @ ''%(name)s'' @ [CHR 0x27]
                           @ '' does not exist; add it on the Credentials page or choose another'') [(''name'', name)]))
                | None \<Rightarrow> None) (sort (secret_keys_of (js_source_type spec))))
       @ (if js_source_type spec = ''local'' then
            (case local_path_problem L (js_path spec) (rc_local_root ctx) of None \<Rightarrow> [] | Some p \<Rightarrow> [say ''source.path'' p])
          else [])
       @ (if js_enabled spec \<and> (js_model spec = None \<or> js_model spec = Some []) then
            [say ''embedding.model'' (il_tr L ''no embedding model: set one for this job or in the catalog defaults'' [])]
          else [])
       @ (case rc_connections ctx of
            None \<Rightarrow> []
          | Some conns \<Rightarrow>
              if js_connection spec \<in> set conns then []
              else [say ''target.connection'' (il_tr L (''unknown connection '' @ [CHR 0x27] @ ''%(connection)s'' @ [CHR 0x27]
                     @ ''; add it on the Connections page'') [(''connection'', js_connection spec)])]))"

text \<open>The rules across jobs: one loop for the ids, one for the system collections, one for the labels, one for models and connections.\<close>

definition issue_of :: "string \<Rightarrow> string \<Rightarrow> string \<Rightarrow> job_issue" where
  "issue_of job_id field message = \<lparr>is_job_id = Some job_id, is_field = field, is_message = message\<rparr>"

fun duplicate_ids :: "spec_lib \<Rightarrow> string list \<Rightarrow> (string \<times> job_spec) list \<Rightarrow> job_issue list" where
  "duplicate_ids S seen [] = []"
| "duplicate_ids S seen ((job_id, spec) # rest) =
     (if job_id \<in> set seen then [issue_of job_id ''id'' (sl_tr S ''duplicate job id'' [])] else [])
     @ duplicate_ids S (job_id # seen) rest"

definition system_targets :: "spec_lib \<Rightarrow> rule_context \<Rightarrow> (string \<times> job_spec) list \<Rightarrow> job_issue list" where
  "system_targets S ctx ordered =
     List.map_filter (\<lambda>(job_id, spec).
       if js_collection spec \<in> set (rc_system_collections ctx)
       then Some (issue_of job_id ''target.collection'' (sl_tr S ([CHR 0x27] @ ''%(collection)s'' @ [CHR 0x27]
              @ '' is a system collection and cannot be a target'') [(''collection'', js_collection spec)]))
       else None) ordered"

text \<open>The label serving a collection, by the pair of both.\<close>

fun label_clashes :: "spec_lib \<Rightarrow> (string \<times> string, string) dict \<Rightarrow> (string \<times> job_spec) list \<Rightarrow> job_issue list" where
  "label_clashes S labels [] = []"
| "label_clashes S labels ((job_id, spec) # rest) =
     (case dict_get labels (js_collection spec, js_label spec) of
        Some other \<Rightarrow>
          issue_of job_id ''source.label'' (sl_tr S (''the label '' @ [CHR 0x27] @ ''%(label)s'' @ [CHR 0x27] @ '' already serves the collection ''
            @ [CHR 0x27] @ ''%(collection)s'' @ [CHR 0x27] @ '' in the job '' @ [CHR 0x27] @ ''%(other)s'' @ [CHR 0x27]
            @ ''; labels have to differ per collection'')
            [(''label'', js_label spec), (''collection'', js_collection spec), (''other'', other)]) # label_clashes S labels rest
      | None \<Rightarrow> label_clashes S (dict_set labels (js_collection spec, js_label spec) job_id) rest)"

fun service_clashes ::
  "spec_lib \<Rightarrow> (string, string \<times> string) dict \<Rightarrow> (string, string \<times> string) dict \<Rightarrow> (string \<times> job_spec) list \<Rightarrow> job_issue list" where
  "service_clashes S models connections [] = []"
| "service_clashes S models connections ((job_id, spec) # rest) =
     (let collection = js_collection spec;
          seen_model = dict_get models collection;
          named = (case js_model spec of Some (c # t) \<Rightarrow> Some (c # t) | _ \<Rightarrow> None);
          model_issue = (case (named, seen_model) of
              (Some m, Some (used, by_job)) \<Rightarrow>
                if used \<noteq> m then [issue_of job_id ''embedding.model'' (sl_tr S (''the collection '' @ [CHR 0x27] @ ''%(collection)s'' @ [CHR 0x27]
                    @ '' is already served with '' @ [CHR 0x27] @ ''%(value)s'' @ [CHR 0x27] @ '' by the job '' @ [CHR 0x27] @ ''%(value2)s''
                    @ [CHR 0x27] @ ''; one model per collection'') [(''collection'', collection), (''value'', used), (''value2'', by_job)])]
                else []
            | _ \<Rightarrow> []);
          models' = (case (named, seen_model) of (Some m, None) \<Rightarrow> dict_set models collection (m, job_id) | _ \<Rightarrow> models);
          seen_connection = dict_get connections collection;
          connection_issue = (case seen_connection of
              Some (used, by_job) \<Rightarrow>
                if used \<noteq> js_connection spec then [issue_of job_id ''target.connection'' (sl_tr S (''the collection '' @ [CHR 0x27]
                    @ ''%(collection)s'' @ [CHR 0x27] @ '' is already served over '' @ [CHR 0x27] @ ''%(value)s'' @ [CHR 0x27] @ '' by the job ''
                    @ [CHR 0x27] @ ''%(value2)s'' @ [CHR 0x27] @ ''; one connection per collection'')
                    [(''collection'', collection), (''value'', used), (''value2'', by_job)])]
                else []
            | None \<Rightarrow> []);
          connections' = (case seen_connection of None \<Rightarrow> dict_set connections collection (js_connection spec, job_id) | Some _ \<Rightarrow> connections)
      in model_issue @ connection_issue @ service_clashes S models' connections' rest)"

definition cross_job :: "spec_lib \<Rightarrow> (string \<times> job_spec) list \<Rightarrow> rule_context \<Rightarrow> job_issue list" where
  "cross_job S ordered ctx =
     (let enabled = filter (\<lambda>(_, spec). js_enabled spec) ordered
      in duplicate_ids S [] ordered @ system_targets S ctx ordered @ label_clashes S [] enabled @ service_clashes S [] [] enabled)"

text \<open>The loop over the entries: the issues so far and the jobs that could be read.\<close>

fun check_entries ::
  "spec_lib \<Rightarrow> rule_context \<Rightarrow> pyval \<Rightarrow> nat \<Rightarrow> pyval list \<Rightarrow> job_issue list \<times> (string \<times> job_spec) list" where
  "check_entries S ctx defaults index [] = ([], [])"
| "check_entries S ctx defaults index (raw # rest) =
     (let (issues, valid) = check_entries S ctx defaults (Suc index) rest;
          here = ''jobs['' @ str_of_nat index @ '']''
      in case raw of
           PDict d \<Rightarrow>
             (case parse_job S d defaults (Some here) of
                (None, problems) \<Rightarrow> (problems @ issues, valid)
              | (Some spec, problems) \<Rightarrow>
                  (problems @ check_job S (js_id spec) spec ctx @ issues, (js_id spec, spec) # valid))
         | _ \<Rightarrow> (\<lparr>is_job_id = None, is_field = here, is_message = sl_tr S ''job must be a mapping'' []\<rparr> # issues, valid))"

definition check_catalog :: "spec_lib \<Rightarrow> (string, pyval) dict \<Rightarrow> rule_context \<Rightarrow> job_issue list" where
  "check_catalog S document ctx =
     (let whole = (\<lambda>field message. \<lparr>is_job_id = None, is_field = field, is_message = message\<rparr>);
          version = get_none document ''version''
      in if \<not> py_eq version (PInt 1) then
           [whole ''version'' (sl_tr S ''unsupported catalog version %(version)r; expected 1'' [(''version'', py_repr version)])]
         else case py_or (get_none document ''defaults'') (PDict []) of
           PDict defaults \<Rightarrow>
             (let unknown = filter (\<lambda>k. k \<notin> set DEFAULT_SECTIONS) (dict_keys defaults);
                  issues = (if unknown = [] then []
                    else [whole ''defaults'' (sl_tr S ''unsupported defaults sections: %(sections)s'' [(''sections'', join '', '' (sort unknown))])])
              in case py_or (get_none document ''jobs'') (PList []) of
                   PList jobs \<Rightarrow>
                     (let (problems, valid) = check_entries S ctx (PDict defaults) 0 jobs
                      in issues @ problems @ cross_job S valid ctx)
                 | _ \<Rightarrow> issues @ [whole ''jobs'' (sl_tr S ''jobs must be a list'' [])])
         | _ \<Rightarrow> [whole ''defaults'' (sl_tr S ''defaults must be a mapping'' [])])"

definition check_one :: "spec_lib \<Rightarrow> (string, pyval) dict \<Rightarrow> string \<Rightarrow> rule_context \<Rightarrow> job_issue list" where
  "check_one S document job_id ctx = filter (\<lambda>i. is_job_id i = Some job_id) (check_catalog S document ctx)"

section \<open>Lemmas: the rules across jobs\<close>

text \<open>What the rules ask of the jobs of a catalogue, said without the loops.\<close>

definition named_model :: "job_spec \<Rightarrow> string option" where
  "named_model s = (case js_model s of Some (c # t) \<Rightarrow> Some (c # t) | _ \<Rightarrow> None)"

definition one_per_collection :: "(job_spec \<Rightarrow> string option) \<Rightarrow> job_spec list \<Rightarrow> bool" where
  "one_per_collection f specs \<longleftrightarrow>
     (\<forall>s \<in> set specs. \<forall>t \<in> set specs. \<forall>m n. js_collection t = js_collection s \<longrightarrow> f s = Some m \<longrightarrow> f t = Some n \<longrightarrow> n = m)"

definition rules_hold :: "rule_context \<Rightarrow> (string \<times> job_spec) list \<Rightarrow> bool" where
  "rules_hold ctx jobs \<longleftrightarrow>
     (let enabled = filter js_enabled (map snd jobs)
      in distinct (map fst jobs) \<and> (\<forall>s \<in> set (map snd jobs). js_collection s \<notin> set (rc_system_collections ctx))
         \<and> distinct (map (\<lambda>s. (js_collection s, js_label s)) enabled)
         \<and> one_per_collection named_model enabled \<and> one_per_collection (\<lambda>s. Some (js_connection s)) enabled)"

lemma duplicate_ids_Nil: "duplicate_ids S seen xs = [] \<longleftrightarrow> distinct (map fst xs) \<and> set (map fst xs) \<inter> set seen = {}"
  by (induction S seen xs rule: duplicate_ids.induct) auto

lemma system_targets_Nil:
  "system_targets S ctx xs = [] \<longleftrightarrow> (\<forall>s \<in> set (map snd xs). js_collection s \<notin> set (rc_system_collections ctx))"
  by (induction xs) (auto simp: system_targets_def List.map_filter_def)

lemma label_clashes_Nil:
  "label_clashes S labels xs = [] \<longleftrightarrow>
     (let pairs = map (\<lambda>s. (js_collection s, js_label s)) (map snd xs) in distinct pairs \<and> (\<forall>p \<in> set pairs. dict_get labels p = None))"
proof (induction S labels xs rule: label_clashes.induct)
  case (2 S labels job_id spec rest)
  then show ?case by (cases "dict_get labels (js_collection spec, js_label spec)") (auto simp: Let_def image_iff split: if_splits)
qed simp

fun clash_free :: "(string, string \<times> string) dict \<Rightarrow> (job_spec \<Rightarrow> string option) \<Rightarrow> (string \<times> job_spec) list \<Rightarrow> bool" where
  "clash_free D f [] = True"
| "clash_free D f ((job_id, spec) # rest) =
     (case f spec of
        None \<Rightarrow> clash_free D f rest
      | Some m \<Rightarrow>
          (case dict_get D (js_collection spec) of
             Some (used, _) \<Rightarrow> used = m \<and> clash_free D f rest
           | None \<Rightarrow> clash_free (dict_set D (js_collection spec) (m, job_id)) f rest))"

lemma service_clashes_Nil:
  "service_clashes S models connections xs = [] \<longleftrightarrow>
     clash_free models named_model xs \<and> clash_free connections (\<lambda>s. Some (js_connection s)) xs"
proof (induction S models connections xs rule: service_clashes.induct)
  case (2 S models connections job_id spec rest)
  then show ?case
    by (cases "dict_get models (js_collection spec)"; cases "dict_get connections (js_collection spec)"; cases "named_model spec")
      (auto simp: Let_def named_model_def [symmetric] split: prod.splits)
qed simp

lemma one_per_Cons: "one_per_collection f (s # xs) \<longleftrightarrow> one_per_collection f xs
    \<and> (\<forall>t \<in> set xs. \<forall>m n. js_collection t = js_collection s \<longrightarrow> f s = Some m \<longrightarrow> f t = Some n \<longrightarrow> n = m)"
proof
  assume "one_per_collection f (s # xs)"
  then show "one_per_collection f xs
    \<and> (\<forall>t \<in> set xs. \<forall>m n. js_collection t = js_collection s \<longrightarrow> f s = Some m \<longrightarrow> f t = Some n \<longrightarrow> n = m)"
    unfolding one_per_collection_def by (meson list.set_intros)
next
  assume *: "one_per_collection f xs
    \<and> (\<forall>t \<in> set xs. \<forall>m n. js_collection t = js_collection s \<longrightarrow> f s = Some m \<longrightarrow> f t = Some n \<longrightarrow> n = m)"
  show "one_per_collection f (s # xs)"
    unfolding one_per_collection_def
  proof (intro ballI allI impI)
    fix a b m n
    assume ab: "a \<in> set (s # xs)" "b \<in> set (s # xs)" "js_collection b = js_collection a" "f a = Some m" "f b = Some n"
    consider "a = s \<and> b = s" | "a = s \<and> b \<in> set xs" | "a \<in> set xs \<and> b = s" | "a \<in> set xs \<and> b \<in> set xs" using ab(1,2) by auto
    then show "n = m"
    proof cases
      case 4
      then show ?thesis using * ab(3-5) unfolding one_per_collection_def by blast
    qed (use * ab(3-5) in fastforce)+
  qed
qed

definition agrees :: "(string, string \<times> string) dict \<Rightarrow> (job_spec \<Rightarrow> string option) \<Rightarrow> job_spec list \<Rightarrow> bool" where
  "agrees D f specs \<longleftrightarrow> list_all (\<lambda>s. case (f s, dict_get D (js_collection s)) of (Some m, Some (used, _)) \<Rightarrow> used = m | _ \<Rightarrow> True) specs"

lemma agrees_set:
  "dict_get D c = None \<Longrightarrow> agrees (dict_set D c (m, j)) f specs \<longleftrightarrow>
     agrees D f specs \<and> (\<forall>t \<in> set specs. \<forall>n. js_collection t = c \<longrightarrow> f t = Some n \<longrightarrow> n = m)"
proof (induction specs)
  case (Cons s specs)
  then show ?case by (cases "js_collection s = c"; cases "f s") (auto simp: agrees_def)
qed (simp add: agrees_def)

lemma clash_free_iff: "clash_free D f xs \<longleftrightarrow> one_per_collection f (map snd xs) \<and> agrees D f (map snd xs)"
proof (induction D f xs rule: clash_free.induct)
  case (2 D f job_id spec rest)
  show ?case
  proof (cases "f spec")
    case None
    then show ?thesis using 2(1) [OF None] by (simp add: one_per_Cons agrees_def)
  next
    case m: (Some m)
    show ?thesis
    proof (cases "dict_get D (js_collection spec)")
      case None
      have "agrees D f (spec # map snd rest) \<longleftrightarrow> agrees D f (map snd rest)" by (simp add: agrees_def None split: option.split)
      then show ?thesis
        using m None by (simp only: clash_free.simps option.simps 2(2) [OF m None] agrees_set [OF None] one_per_Cons list.map snd_conv) blast
    next
      case (Some p)
      obtain used j where p: "p = (used, j)" by (cases p)
      have "agrees D f (spec # map snd rest) \<longleftrightarrow> used = m \<and> agrees D f (map snd rest)" by (simp add: agrees_def Some p m)
      moreover have "n = m" if "used = m" "agrees D f (map snd rest)" "t \<in> set (map snd rest)" "js_collection t = js_collection spec" "f t = Some n"
        for t n using that Some p by (auto simp: agrees_def list_all_iff)
      ultimately show ?thesis
        using m Some p by (simp only: clash_free.simps option.simps prod.case 2(3) [OF m Some, of used j] p one_per_Cons list.map snd_conv) blast
    qed
  qed
qed (simp add: one_per_collection_def agrees_def)

lemma agrees_Nil [simp]: "agrees [] f specs"
  by (simp add: agrees_def list_all_iff split: option.split)

text \<open>C20: 
  The loops over the jobs of a catalogue are exact: they find nothing to object to exactly when the ids differ, no job writes to a
  system collection and, among the enabled jobs, the pairs of collection and label differ and each collection has one embedding
  model and one connection.
\<close>

theorem cross_job_exact: "cross_job S ordered ctx = [] \<longleftrightarrow> rules_hold ctx ordered"
proof -
  have e: "map snd (filter (\<lambda>(_, spec). js_enabled spec) ordered) = filter js_enabled (map snd ordered)"
    by (induction ordered) auto
  show ?thesis
    unfolding cross_job_def rules_hold_def
    by (simp add: duplicate_ids_Nil system_targets_Nil label_clashes_Nil service_clashes_Nil clash_free_iff Let_def e [symmetric] comp_def)
qed

end
