(* ===== verification/Ingest_Rules.thy ===== *)
theory Ingest_Rules
  imports Ingest_Spec
begin

text \<open>
  What the checks of a job catalogue guarantee: an accepted local path stays below the documents folder, a catalogue is accepted
  exactly when every rule of the loader holds, and writing a job back loses no edited value.
\<close>

section \<open>Paths\<close>

text \<open>The directory a path reaches from the root, by its components.\<close>

definition path_walk :: "string list \<Rightarrow> string list" where
  "path_walk parts = foldl (\<lambda>at part. if part = [] \<or> part = ''.'' then at else if part = ''..'' then butlast at else at @ [part]) [] parts"

definition place :: "string \<Rightarrow> string list" where
  "place path = path_walk (split_char (CHR ''/'') (forward path))"

definition names_in :: "string \<Rightarrow> string list" where
  "names_in s = filter (\<lambda>w. w \<noteq> []) (split_char (CHR ''/'') s)"

lemma split_char_cut: "split_char c (a @ c # b) = split_char c a @ split_char c b"
  by (induction a) (auto split: list.split simp: append_eq_Cons_conv)

lemma names_in_cut: "names_in (a @ CHR ''/'' # b) = names_in a @ names_in b"
  by (simp add: names_in_def split_char_cut)

lemma names_in_slashes: "set s \<subseteq> {CHR ''/''} \<Longrightarrow> names_in (s @ t) = names_in t"
  by (induction s) (auto simp: names_in_def)

lemma names_in_join:
  assumes "\<forall>w \<in> set ws. w \<noteq> [] \<and> CHR ''/'' \<notin> set w"
  shows "names_in (join ''/'' ws) = ws"
proof (cases "ws = []")
  case False
  then show ?thesis using split_char_join [of ws "CHR ''/''"] assms by (simp add: names_in_def filter_id_conv)
qed (simp add: names_in_def)

lemma names_in_rstrip: "names_in (rstrip_slash s) = names_in s"
proof -
  obtain t where t: "s = rstrip_slash s @ t" "set t \<subseteq> {CHR ''/''}"
  proof
    show "s = rstrip_slash s @ rev (takeWhile (\<lambda>c. c = CHR ''/'') (rev s))"
      unfolding rstrip_slash_def by (metis rev_append rev_rev_ident takeWhile_dropWhile_id)
    show "set (rev (takeWhile (\<lambda>c. c = CHR ''/'') (rev s))) \<subseteq> {CHR ''/''}" by (auto dest: set_takeWhileD)
  qed
  have "names_in (a @ t) = names_in a" for a
  proof (cases t)
    case (Cons c u)
    then have "c = CHR ''/''" "set u \<subseteq> {CHR ''/''}" using t(2) by auto
    then show ?thesis using names_in_slashes [of u "[]"] by (simp add: Cons names_in_cut) (simp add: names_in_def)
  qed simp
  then show ?thesis using t(1) by metis
qed

lemma norm_comps_walk:
  assumes "''..'' \<notin> set acc"
  shows "norm_comps True acc parts
    = foldl (\<lambda>at part. if part = [] \<or> part = ''.'' then at else if part = ''..'' then butlast at else at @ [part]) (rev acc) parts"
  using assms
proof (induction parts arbitrary: acc)
  case (Cons p parts)
  have "rev (tl acc) = butlast (rev acc)" by (cases acc) (auto simp: butlast_append)
  moreover have "''..'' \<notin> set (tl acc)" using Cons.prems by (cases acc) auto
  ultimately show ?case using Cons.IH [of acc] Cons.IH [of "p # acc"] Cons.IH [of "tl acc"] Cons.prems by (cases acc) auto
qed simp

lemma norm_comps_mem: "w \<in> set (norm_comps absolute acc parts) \<Longrightarrow> w \<in> set acc \<or> (w \<in> set parts \<and> w \<noteq> [])"
proof (induction absolute acc parts rule: norm_comps.induct)
  case (2 absolute acc part parts)
  show ?case using 2 by (cases acc) (auto split: if_splits)
qed simp

lemma names_in_normpath:
  assumes "startswith p ''/''"
  shows "names_in (normpath p) = path_walk (split_char (CHR ''/'') p)"
proof -
  let ?w = "norm_comps True [] (split_char (CHR ''/'') p)"
  have sl: "slashes p \<noteq> []" "set (slashes p) \<subseteq> {CHR ''/''}" "p \<noteq> []" using assms by (auto simp: slashes_def)
  have ws: "\<forall>w \<in> set ?w. w \<noteq> [] \<and> CHR ''/'' \<notin> set w" using norm_comps_mem [of _ True "[]"] split_char_parts by fastforce
  have "normpath p = slashes p @ join ''/'' ?w" using sl by (simp add: normpath_def)
  then show ?thesis using names_in_slashes [OF sl(2)] names_in_join [OF ws] norm_comps_walk [of "[]"] by (simp add: path_walk_def)
qed

lemma normpath_relative:
  assumes "\<not> startswith p ''/''"
  shows "normpath p \<noteq> [] \<and> hd (normpath p) \<noteq> CHR ''/''"
proof -
  let ?w = "norm_comps False [] (split_char (CHR ''/'') p)"
  have sl: "slashes p = []" using assms by (simp add: slashes_def)
  have ws: "\<forall>w \<in> set ?w. w \<noteq> [] \<and> CHR ''/'' \<notin> set w" using norm_comps_mem [of _ False "[]"] split_char_parts by fastforce
  have "join ''/'' ws \<noteq> [] \<Longrightarrow> \<forall>w \<in> set ws. w \<noteq> [] \<and> CHR ''/'' \<notin> set w \<Longrightarrow> hd (join ''/'' ws) \<noteq> CHR ''/''" for ws
    by (induction "''/''" ws rule: join.induct) (auto simp: hd_append dest: hd_in_set)
  then show ?thesis using ws sl by (auto simp: normpath_def Let_def)
qed

text \<open>C24: 
  A local source stays in the documents folder: a path the check accepts is absolute and reaches, with its \<open>.\<close> and \<open>..\<close> and doubled
  slashes and backslashes resolved, a directory below the one the root reaches.
\<close>

theorem local_path_below_root:
  assumes "local_path_problem L path root = None" "startswith (forward root) ''/''"
  shows "startswith (forward path) ''/'' \<and> (\<exists>below. place path = place root @ below)"
proof -
  let ?m = "rstrip_slash (normpath (forward root))" and ?n = "normpath (forward path)"
  have nm: "names_in ?m = place root" using names_in_normpath [OF assms(2)] by (simp add: names_in_rstrip place_def)
  have alt: "?n = ?m \<or> (\<exists>t. ?n = ?m @ CHR ''/'' # t)"
    using assms(1) by (auto simp: local_path_problem_def Let_def startswith_append split: if_splits)
  have "slashes (forward root) \<in> {''//'', ''/''}" using assms(2) by (simp add: slashes_def)
  then obtain u where u: "slashes (forward root) = CHR ''/'' # u" by auto
  have "forward root \<noteq> []" using assms(2) by auto
  then obtain m where m: "normpath (forward root) = CHR ''/'' # m" using u by (simp add: normpath_def)
  have mh: "?m = [] \<or> hd ?m = CHR ''/''"
    unfolding m rstrip_slash_def by (cases "dropWhile (\<lambda>c. c = CHR ''/'') (rev m) = []")
      (auto simp: dropWhile_append hd_append rev_eq_Cons_iff split: if_splits)
  have "?n = [] \<or> hd ?n = CHR ''/''" using alt mh by (auto simp: hd_append split: if_splits)
  then have absolute: "startswith (forward path) ''/''" using normpath_relative by blast
  have "\<exists>below. names_in ?n = names_in ?m @ below" using alt by (auto simp: names_in_cut)
  then show ?thesis using absolute nm names_in_normpath [OF absolute] by (simp add: place_def)
qed

definition demo_escape :: string where "demo_escape = ''/data/local/../../etc''"

lemma local_path_below_root_witness:
  "local_path_problem demo_ingest_lib ''/data/x/../local//a'' ''/data/local'' = None \<and> startswith (forward ''/data/x/../local//a'') ''/''
    \<and> (\<exists>below. place ''/data/x/../local//a'' = place ''/data/local'' @ below)
    \<and> local_path_problem demo_ingest_lib demo_escape ''/data/local'' \<noteq> None"
proof -
  have a: "local_path_problem demo_ingest_lib ''/data/x/../local//a'' ''/data/local'' = None" by code_simp
  have r: "startswith (forward ''/data/local'') ''/''" by code_simp
  have e: "local_path_problem demo_ingest_lib demo_escape ''/data/local'' \<noteq> None" by code_simp
  show ?thesis using local_path_below_root [OF a r] a e by blast
qed

section \<open>References to credentials\<close>

lemma ref_open_length: "length REF_OPEN = 6" "REF_OPEN \<noteq> []"
  by (simp_all add: REF_OPEN_def)

lemma secret_body_chars:
  assumes "secret_body n"
  shows "n \<noteq> [] \<and> (\<forall>c \<in> set n. is_secret_char c)"
proof -
  obtain r where n: "n = SECRET_PREFIX @ r" and r: "list_all is_secret_char r"
    using assms by (auto simp: secret_body_def startswith_append)
  have "list_all is_secret_char SECRET_PREFIX" by code_simp
  then show ?thesis using r by (auto simp: n list_all_iff SECRET_PREFIX_def)
qed

lemma secret_ref_strip: "secret_body n \<Longrightarrow> py_strip (secret_ref n) = secret_ref n"
  by (rule py_strip_id) (auto simp: secret_ref_def REF_OPEN_def is_space_def)

text \<open>
  A credential's name survives the form the file has it in: the reference to a well-formed name names it, a reference is left as
  it is, and whatever is read as a reference has a well-formed name, so that no other text is taken for a credential.
\<close>

theorem secret_reference_roundtrip:
  assumes "secret_body n"
  shows "secret_name (PStr (secret_ref n)) = Some n \<and> as_reference n = secret_ref n \<and> as_reference (as_reference n) = as_reference n"
proof -
  have name: "secret_name (PStr (secret_ref n)) = Some n"
    using assms secret_ref_strip [OF assms] by (simp add: secret_name_def Let_def) (simp add: secret_ref_def butlast_append)
  have "hd n = CHR ''Q''" using assms by (auto simp: secret_body_def startswith_append SECRET_PREFIX_def)
  moreover have "py_strip n = n"
    by (rule py_strip_clean) (use secret_body_chars [OF assms] in \<open>auto simp: is_secret_char_def is_space_def is_upper_def is_digit_def Let_def\<close>)
  ultimately have "secret_name (PStr n) = None" by (auto simp: secret_name_def Let_def startswith_append REF_OPEN_def)
  then show ?thesis using assms name by (simp add: as_reference_def match_dollar_def)
qed

lemma secret_reference_roundtrip_witness:
  "secret_name (PStr (secret_ref ''QI_SECRET_NAS'')) = Some ''QI_SECRET_NAS'' \<and> as_reference ''QI_SECRET_NAS'' = secret_ref ''QI_SECRET_NAS''"
proof -
  have "secret_body ''QI_SECRET_NAS''" by code_simp
  from secret_reference_roundtrip [OF this] show ?thesis by simp
qed

lemma secret_name_body: "secret_name v = Some n \<Longrightarrow> secret_body n"
  by (auto simp: secret_name_def Let_def split: pyval.splits if_splits)

lemma secret_name_shape: "secret_name (PStr v) = Some n \<Longrightarrow> py_strip v = secret_ref n"
proof -
  assume "secret_name (PStr v) = Some n"
  then obtain u where u: "py_strip v = REF_OPEN @ u" "u \<noteq> []" "last (py_strip v) = CHR 0x7D" "n = butlast u"
    by (auto simp: secret_name_def Let_def startswith_append split: if_splits)
  then show ?thesis by (metis append_butlast_last_id last_appendR secret_ref_def)
qed

section \<open>A catalogue without issues\<close>

definition catalog_defaults :: "(string, pyval) dict \<Rightarrow> pyval" where
  "catalog_defaults document = py_or (get_none document ''defaults'') (PDict [])"

definition catalog_jobs :: "(string, pyval) dict \<Rightarrow> pyval list" where
  "catalog_jobs document = (case py_or (get_none document ''jobs'') (PList []) of PList jobs \<Rightarrow> jobs | _ \<Rightarrow> [])"

definition read_spec :: "spec_lib \<Rightarrow> pyval \<Rightarrow> pyval \<Rightarrow> job_spec option" where
  "read_spec S defaults raw =
     (case raw of PDict d \<Rightarrow> (case model_validate S (effective d defaults) of Inr s \<Rightarrow> Some s | Inl _ \<Rightarrow> None) | _ \<Rightarrow> None)"

definition catalog_specs :: "spec_lib \<Rightarrow> (string, pyval) dict \<Rightarrow> job_spec list" where
  "catalog_specs S document = List.map_filter (read_spec S (catalog_defaults document)) (catalog_jobs document)"

lemma map_filter_mem: "y \<in> set (List.map_filter f xs) \<longleftrightarrow> (\<exists>x \<in> set xs. f x = Some y)"
  by (induction xs) (auto simp: List.map_filter_simps split: option.splits)

lemma read_spec_Some: "read_spec S defaults raw = Some s \<Longrightarrow> \<exists>d. raw = PDict d \<and> model_validate S (effective d defaults) = Inr s"
  by (auto simp: read_spec_def split: pyval.splits sum.splits)

lemma check_entries_valid:
  "snd (check_entries S ctx defaults i jobs) = map (\<lambda>s. (js_id s, s)) (List.map_filter (read_spec S defaults) jobs)"
proof (induction jobs arbitrary: i)
  case (Cons raw jobs)
  show ?case
    using Cons [of "Suc i"]
    by (cases raw) (auto simp: parse_job_def Let_def read_spec_def List.map_filter_simps split: prod.splits sum.splits)
qed (simp add: List.map_filter_simps)

lemma check_entries_Nil:
  assumes "\<forall>raw. model_validate S raw \<noteq> Inl []"
  shows "fst (check_entries S ctx defaults i jobs) = [] \<longleftrightarrow>
    (\<exists>specs. map (read_spec S defaults) jobs = map Some specs \<and> (\<forall>s \<in> set specs. check_job S (js_id s) s ctx = []))"
proof (induction jobs arbitrary: i)
  case (Cons raw jobs)
  obtain issues valid where e: "check_entries S ctx defaults (Suc i) jobs = (issues, valid)" by fastforce
  have split: "(\<exists>specs. map (read_spec S defaults) (raw # jobs) = map Some specs \<and> (\<forall>s \<in> set specs. check_job S (js_id s) s ctx = []))
      \<longleftrightarrow> (\<exists>s specs. read_spec S defaults raw = Some s \<and> check_job S (js_id s) s ctx = []
            \<and> map (read_spec S defaults) jobs = map Some specs \<and> (\<forall>s \<in> set specs. check_job S (js_id s) s ctx = []))" (is "?l \<longleftrightarrow> ?r")
  proof
    assume ?l
    then obtain specs where "map (read_spec S defaults) (raw # jobs) = map Some specs" "\<forall>s \<in> set specs. check_job S (js_id s) s ctx = []"
      by blast
    then show ?r by (cases specs) auto
  next
    assume ?r
    then obtain s specs where "read_spec S defaults raw = Some s" "check_job S (js_id s) s ctx = []"
      "map (read_spec S defaults) jobs = map Some specs" "\<forall>s \<in> set specs. check_job S (js_id s) s ctx = []" by blast
    then show ?l by (intro exI [of _ "s # specs"]) simp
  qed
  have "fst (check_entries S ctx defaults i (raw # jobs)) = [] \<longleftrightarrow>
      (\<exists>s. read_spec S defaults raw = Some s \<and> check_job S (js_id s) s ctx = []) \<and> issues = []"
    using assms e by (cases raw) (auto simp: parse_job_def Let_def read_spec_def split: prod.splits sum.splits)
  then show ?case unfolding split using Cons.IH [of "Suc i"] e by auto
qed simp

lemma read_all_specs: "map (read_spec S defaults) jobs = map Some specs \<Longrightarrow> List.map_filter (read_spec S defaults) jobs = specs"
  by (induction jobs arbitrary: specs) (auto simp: List.map_filter_simps)

lemma secret_fields_declared: "set (secret_fields_of t) = set (secret_keys_of t)"
proof (cases "dict_get SOURCE_MODELS t")
  case (Some m)
  have all: "list_all (\<lambda>x. set (map fi_key (filter fi_secret (sm_fields (snd x)))) = set (sm_secret_keys (snd x))) SOURCE_MODELS"
    by code_simp
  have "(t, m) \<in> set SOURCE_MODELS" using Some by (simp add: dict_get_def map_of_SomeD)
  from all [unfolded list_all_iff, rule_format, OF this] show ?thesis using Some by (simp add: secret_fields_of_def secret_keys_of_def)
qed (simp add: secret_fields_of_def secret_keys_of_def)

text \<open>What the validators and the loader ask of one job.\<close>

definition schema_holds :: "ingest_lib \<Rightarrow> job_spec \<Rightarrow> bool" where
  "schema_holds L s \<longleftrightarrow> (\<forall>k v. dict_get (js_secrets s) k = Some v \<longrightarrow> (\<exists>n. secret_body n \<and> v = secret_ref n))
     \<and> set (js_extra_payload s) \<inter> set RESERVED_PAYLOAD_KEYS = {}
     \<and> (js_cron s = None \<or> js_every s = None) \<and> (\<forall>e. js_every s = Some e \<longrightarrow> every_error L e = None)
     \<and> js_overlap s < js_words s
     \<and> contains (js_source_template s) ([CHR 0x7B] @ ''rel_path'' @ [CHR 0x7D])
     \<and> contains (js_source_template s) ([CHR 0x7B] @ ''label'' @ [CHR 0x7D])"

definition job_rules_hold :: "ingest_lib \<Rightarrow> rule_context \<Rightarrow> job_spec \<Rightarrow> bool" where
  "job_rules_hold L ctx s \<longleftrightarrow>
     (\<forall>c. js_cron s = Some c \<longrightarrow> cron_error L c ''UTC'' = None)
     \<and> (\<forall>z. js_timezone s = Some z \<longrightarrow> z \<noteq> [] \<longrightarrow> \<not> isl (ingest_zone L z))
     \<and> (\<forall>stored k n. rc_secrets ctx = Some stored \<longrightarrow> dict_get (js_secrets s) k = Some (secret_ref n) \<longrightarrow> n \<in> set stored)
     \<and> (js_source_type s = ''local'' \<longrightarrow> local_path_problem L (js_path s) (rc_local_root ctx) = None)
     \<and> (js_enabled s \<longrightarrow> named_model s \<noteq> None)
     \<and> (\<forall>conns. rc_connections ctx = Some conns \<longrightarrow> js_connection s \<in> set conns)"

lemma checked_secret:
  assumes "check_secret L typed = Inr v"
  shows "\<exists>n. secret_body n \<and> v = secret_ref n"
proof -
  from assms obtain n where n: "secret_name (PStr typed) = Some n" "v = py_strip typed"
    by (auto simp: check_secret_def split: if_splits)
  then show ?thesis using secret_name_shape secret_name_body by blast
qed

lemma passed_schema:
  assumes "passed (job_validators L) s"
  shows "schema_holds L s"
proof -
  have secrets: "\<exists>n. secret_body n \<and> v = secret_ref n" if "dict_get (js_secrets s) k = Some v" for k v
  proof -
    have "(k, v) \<in> set (js_secrets s)" using that by (simp add: dict_get_def map_of_SomeD)
    then obtain typed where "check_secret L typed = Inr v" using assms by (auto simp: passed_def job_validators_def list_all_iff)
    then show ?thesis by (rule checked_secret)
  qed
  have "no_reserved_keys L (js_extra_payload s) = None" using assms by (auto simp: passed_def job_validators_def no_reserved_keys_def)
  then have payload: "set (js_extra_payload s) \<inter> set RESERVED_PAYLOAD_KEYS = {}"
    by (auto simp: no_reserved_keys_def Let_def filter_empty_conv split: if_splits)
  have template: "placeholders L (js_source_template s) = None"
  proof (cases "PStr (js_source_template s) = get_none TOP_DEFAULTS ''source_template''")
    case True
    moreover have "get_none TOP_DEFAULTS ''source_template'' = PStr ([CHR 0x7B] @ ''scheme'' @ [CHR 0x7D] @ ''://'' @ [CHR 0x7B] @ ''label''
        @ [CHR 0x7D] @ ''/'' @ [CHR 0x7B] @ ''rel_path'' @ [CHR 0x7D])" by code_simp
    moreover have "placeholders L ([CHR 0x7B] @ ''scheme'' @ [CHR 0x7D] @ ''://'' @ [CHR 0x7B] @ ''label''
        @ [CHR 0x7D] @ ''/'' @ [CHR 0x7B] @ ''rel_path'' @ [CHR 0x7D]) = None" by (simp add: placeholders_def contains_def Let_def)
    ultimately show ?thesis by simp
  qed (use assms in \<open>auto simp: passed_def job_validators_def\<close>)
  have "cron_xor_every L (js_cron s) (js_every s) = None" "overlap_below_words L (js_words s) (js_overlap s) = None"
    using assms by (auto simp: passed_def job_validators_def)
  then show ?thesis
    using secrets payload template
    by (auto simp: schema_holds_def cron_xor_every_def overlap_below_words_def placeholders_def Let_def
        split: if_splits option.splits)
qed

lemma secret_ref_inj: "secret_ref n = secret_ref m \<Longrightarrow> n = m"
  by (simp add: secret_ref_def)

lemma missing_secrets_Nil:
  assumes "\<forall>k v. dict_get (js_secrets s) k = Some v \<longrightarrow> k \<in> set (secret_keys_of t) \<and> (\<exists>n. secret_body n \<and> v = secret_ref n)"
  shows "(\<forall>key \<in> set (secret_keys_of t). \<forall>n.
      secret_name (case dict_get (js_secrets s) key of None \<Rightarrow> PNone | Some v \<Rightarrow> PStr v) = Some n \<longrightarrow> n \<in> set stored)
    \<longleftrightarrow> (\<forall>k n. dict_get (js_secrets s) k = Some (secret_ref n) \<longrightarrow> n \<in> set stored)"
proof -
  have name: "secret_name (PStr (secret_ref n)) = Some m \<longleftrightarrow> m = n" if "dict_get (js_secrets s) k = Some (secret_ref n)" for k n m
  proof -
    from assms that obtain n' where "secret_body n'" "secret_ref n = secret_ref n'" by blast
    then have "secret_body n" using secret_ref_inj by metis
    then have "secret_name (PStr (secret_ref n)) = Some n"
      using secret_ref_strip by (simp add: secret_name_def Let_def) (simp add: secret_ref_def butlast_append)
    then show ?thesis by auto
  qed
  show ?thesis
  proof (intro iffI allI ballI impI)
    fix k n assume l: "\<forall>key \<in> set (secret_keys_of t). \<forall>n.
        secret_name (case dict_get (js_secrets s) key of None \<Rightarrow> PNone | Some v \<Rightarrow> PStr v) = Some n \<longrightarrow> n \<in> set stored"
      and k: "dict_get (js_secrets s) k = Some (secret_ref n)"
    have "k \<in> set (secret_keys_of t)" using assms k by blast
    moreover have "secret_name (PStr (secret_ref n)) = Some n" using name [OF k] by simp
    ultimately show "n \<in> set stored" using l k by (metis option.simps(5))
  next
    fix key n assume r: "\<forall>k n. dict_get (js_secrets s) k = Some (secret_ref n) \<longrightarrow> n \<in> set stored"
      and n: "secret_name (case dict_get (js_secrets s) key of None \<Rightarrow> PNone | Some v \<Rightarrow> PStr v) = Some n"
    then obtain v where v: "dict_get (js_secrets s) key = Some v" by (cases "dict_get (js_secrets s) key") (auto simp: secret_name_def)
    with assms obtain m where m: "v = secret_ref m" by blast
    with name v n have "n = m" by auto
    with r v m show "n \<in> set stored" by blast
  qed
qed

lemma map_filter_Nil: "List.map_filter f xs = [] \<longleftrightarrow> (\<forall>x \<in> set xs. f x = None)"
  by (auto simp: List.map_filter_def filter_empty_conv)

lemma report_unless_None:
  "(case x of Some name \<Rightarrow> if name \<in> A then None else Some (y name) | None \<Rightarrow> None) = None \<longleftrightarrow> (\<forall>n. x = Some n \<longrightarrow> n \<in> A)"
  by (auto split: option.split)

lemma check_job_Nil:
  assumes "passed (job_validators (sl_ingest S)) s"
  shows "check_job S (js_id s) s ctx = [] \<longleftrightarrow> job_rules_hold (sl_ingest S) ctx s"
proof -
  have "list_all (\<lambda>(k, v). k \<in> set (secret_keys_of (js_source_type s))) (js_secrets s)"
    using assms by (auto simp: passed_def list_all_iff secret_fields_declared)
  then have "\<forall>k v. dict_get (js_secrets s) k = Some v \<longrightarrow> k \<in> set (secret_keys_of (js_source_type s)) \<and> (\<exists>n. secret_body n \<and> v = secret_ref n)"
    using passed_schema [OF assms] by (auto simp: schema_holds_def list_all_iff dict_get_def dest!: map_of_SomeD)
  note secrets = missing_secrets_Nil [OF this]
  have missing: "(case rc_secrets ctx of
            None \<Rightarrow> []
          | Some stored \<Rightarrow>
              List.map_filter (\<lambda>key.
                case secret_name (case dict_get (js_secrets s) key of None \<Rightarrow> PNone | Some v \<Rightarrow> PStr v) of
                  Some name \<Rightarrow> if name \<in> set stored then None else Some (say key name) | None \<Rightarrow> None)
                (sort (secret_keys_of (js_source_type s)))) = []
     \<longleftrightarrow> (\<forall>stored k n. rc_secrets ctx = Some stored \<longrightarrow> dict_get (js_secrets s) k = Some (secret_ref n) \<longrightarrow> n \<in> set stored)"
    for say :: "string \<Rightarrow> string \<Rightarrow> job_issue"
    by (cases "rc_secrets ctx") (simp_all add: map_filter_Nil report_unless_None secrets del: not_None_eq)
  show ?thesis
    unfolding check_job_def Let_def append_is_Nil_conv missing job_rules_hold_def
    by (auto simp: named_model_def isl_def split: option.splits list.splits sum.splits if_splits)
qed

text \<open>C11: 
  A catalogue is accepted exactly when every rule of the loader holds: the version is 1, \<open>defaults\<close> is a mapping of known
  sections, \<open>jobs\<close> a list of mappings that are all read as jobs, and each job has a cron expression and a time zone that are
  understood where it has them, credentials that are stored and connections that exist where those are known, a local path
  below the documents folder, an embedding model if it is enabled; and the rules across jobs hold. Every job so read holds a
  reference, never a value, in each secret field, keeps off the ingester's payload keys, has an understood interval or a cron
  expression but not both, an overlap below the chunk size and a template with both placeholders. pydantic is assumed to return
  only what the validators it was given accepted, and to list an error when it refuses.
\<close>

theorem clean_catalog_accepted:
  assumes "pydantic_ok (sl_model_validate S)"
  shows "check_catalog S document ctx = [] \<longleftrightarrow>
    py_eq (get_none document ''version'') (PInt 1)
    \<and> (\<exists>defaults jobs specs. py_or (get_none document ''defaults'') (PDict []) = PDict defaults
         \<and> set (dict_keys defaults) \<subseteq> set DEFAULT_SECTIONS
         \<and> py_or (get_none document ''jobs'') (PList []) = PList jobs
         \<and> map (read_spec S (PDict defaults)) jobs = map Some specs
         \<and> (\<forall>s \<in> set specs. schema_holds (sl_ingest S) s \<and> job_rules_hold (sl_ingest S) ctx s)
         \<and> rules_hold ctx (map (\<lambda>s. (js_id s, s)) specs))"
proof -
  have refuses: "\<forall>raw. model_validate S raw \<noteq> Inl []" using assms by (auto simp: pydantic_ok_def model_validate_def)
  have pass: "passed (job_validators (sl_ingest S)) s"
    if "map (read_spec S defaults) jobs = map Some specs" "s \<in> set specs" for defaults jobs specs s
  proof -
    have "Some s \<in> set (map (read_spec S defaults) jobs)" unfolding that(1) using that(2) by simp
    then obtain entry where "read_spec S defaults entry = Some s" by auto
    from read_spec_Some [OF this] obtain raw where "model_validate S raw = Inr s" by blast
    then show ?thesis using assms by (auto simp: pydantic_ok_def model_validate_def)
  qed
  have entries: "fst (check_entries S ctx defaults 0 jobs) = [] \<and> cross_job S (snd (check_entries S ctx defaults 0 jobs)) ctx = []
      \<longleftrightarrow> (\<exists>specs. map (read_spec S defaults) jobs = map Some specs
            \<and> (\<forall>s \<in> set specs. schema_holds (sl_ingest S) s \<and> job_rules_hold (sl_ingest S) ctx s)
            \<and> rules_hold ctx (map (\<lambda>s. (js_id s, s)) specs))" for defaults jobs
  proof -
    have "(\<forall>s \<in> set specs. check_job S (js_id s) s ctx = [])
        \<and> rules_hold ctx (map (\<lambda>s. (js_id s, s)) (List.map_filter (read_spec S defaults) jobs))
      \<longleftrightarrow> (\<forall>s \<in> set specs. schema_holds (sl_ingest S) s \<and> job_rules_hold (sl_ingest S) ctx s)
        \<and> rules_hold ctx (map (\<lambda>s. (js_id s, s)) specs)"
      if read: "map (read_spec S defaults) jobs = map Some specs" for specs
      unfolding read_all_specs [OF read] using check_job_Nil [OF pass [OF read]] passed_schema [OF pass [OF read]] by blast
    then show ?thesis unfolding check_entries_Nil [OF refuses] check_entries_valid cross_job_exact by blast
  qed
  show ?thesis
    unfolding check_catalog_def Let_def case_prod_beta
    by (auto simp: entries [symmetric] filter_empty_conv split: pyval.splits if_splits)
qed

definition demo_job_spec :: job_spec where
  "demo_job_spec = \<lparr>js_id = ''nas'', js_enabled = True, js_description = [], js_source_type = ''smb'', js_label = ''nas'', js_path = [],
     js_secrets = [(''pass'', secret_ref ''QI_SECRET_NAS'')], js_source_rest = [(''host'', PStr ''nas''), (''share'', PStr ''docs'')],
     js_include = [], js_exclude = [], js_max_file_bytes = None, js_collection = ''docs'', js_connection = ''main'', js_acl_tags = [],
     js_extra_payload = [], js_mode = ''append'', js_full_scope = ''job'', js_append_probe = ''auto'',
     js_cron = Some ''0 3 * * *'', js_every = None, js_timezone = None, js_jitter_seconds = 30, js_misfire_grace_seconds = 300,
     js_run_on_startup = ''if_missed'', js_strategy = ''auto'', js_words = 400, js_overlap = 50, js_model = Some ''bge'', js_batch_size = None,
     js_max_delete_ratio = ''0.25'', js_empty_source_guard = True, js_mcp_allow_full = False, js_expand_embedded = False,
     js_source_template = [CHR 0x7B] @ ''label'' @ [CHR 0x7D] @ ''/'' @ [CHR 0x7B] @ ''rel_path'' @ [CHR 0x7D]\<rparr>"

text \<open>An engine that reads the password of one job, and asks every validator it was given.\<close>

definition demo_model_validate :: "class_validators \<Rightarrow> (string, pyval) dict \<Rightarrow> pydantic_error list + job_spec" where
  "demo_model_validate V raw =
     (case (get_none raw ''id'', get_none (as_mapping (get_none raw ''source'')) ''pass'') of
        (PStr _, PStr typed) \<Rightarrow>
          (case cv_secret V typed of
             Inl why \<Rightarrow> Inl [\<lparr>pe_loc = [''source'', ''smb'', ''pass''], pe_type = ''value_error'', pe_msg = ''Value error, '' @ why\<rparr>]
           | Inr v \<Rightarrow>
               let s = demo_job_spec\<lparr>js_secrets := [(''pass'', v)]\<rparr>
               in if cv_schedule V (js_cron s) (js_every s) = None \<and> cv_chunking V (js_words s) (js_overlap s) = None
                    \<and> cv_source_template V (js_source_template s) = None then Inr s
                  else Inl [\<lparr>pe_loc = [''schedule''], pe_type = ''value_error'', pe_msg = ''Value error''\<rparr>])
      | _ \<Rightarrow> Inl [\<lparr>pe_loc = [''id''], pe_type = ''missing'', pe_msg = ''Field required''\<rparr>])"

definition demo_spec_lib :: spec_lib where
  "demo_spec_lib = \<lparr>sl_ingest = demo_ingest_lib, sl_model_validate = demo_model_validate\<rparr>"

definition demo_entry_doc :: "string \<Rightarrow> (string, pyval) dict" where
  "demo_entry_doc typed = [(''version'', PInt 1), (''jobs'', PList [PDict [(''id'', PStr ''nas''), (''source'', PDict [(''pass'', PStr typed)])]])]"

definition demo_context :: rule_context where
  "demo_context = default_context\<lparr>rc_secrets := Some [''QI_SECRET_NAS''], rc_connections := Some [''main'']\<rparr>"

lemma demo_pydantic: "pydantic_ok (sl_model_validate demo_spec_lib)"
proof -
  have f: "''pass'' \<in> set (secret_fields_of ''smb'')" by code_simp
  have j: "js_source_type demo_job_spec = ''smb''" "js_extra_payload demo_job_spec = []" by (simp_all add: demo_job_spec_def)
  show ?thesis
    unfolding pydantic_ok_def
  proof (intro allI conjI impI)
    fix V raw
    show "sl_model_validate demo_spec_lib V raw \<noteq> Inl []"
      by (auto simp: demo_spec_lib_def demo_model_validate_def Let_def split: pyval.splits sum.splits)
    fix s assume "sl_model_validate demo_spec_lib V raw = Inr s"
    then obtain typed v where "cv_secret V typed = Inr v" "s = demo_job_spec\<lparr>js_secrets := [(''pass'', v)]\<rparr>"
        "cv_schedule V (js_cron s) (js_every s) = None" "cv_chunking V (js_words s) (js_overlap s) = None"
        "cv_source_template V (js_source_template s) = None"
      by (auto simp: demo_spec_lib_def demo_model_validate_def Let_def split: pyval.splits sum.splits if_splits)
    then show "passed V s" using f j by (auto simp: passed_def)
  qed
qed

lemma clean_catalog_accepted_witness:
  "(\<exists>specs. map (read_spec demo_spec_lib (PDict [])) [PDict [(''id'', PStr ''nas''), (''source'', PDict [(''pass'', PStr (secret_ref ''QI_SECRET_NAS''))])]]
        = map Some specs
      \<and> list_all (\<lambda>s. schema_holds demo_ingest_lib s \<and> job_rules_hold demo_ingest_lib demo_context s) specs
      \<and> rules_hold demo_context (map (\<lambda>s. (js_id s, s)) specs))
    \<and> check_catalog demo_spec_lib (demo_entry_doc ''hunter2'') demo_context \<noteq> []"
proof -
  have c: "check_catalog demo_spec_lib (demo_entry_doc (secret_ref ''QI_SECRET_NAS'')) demo_context = []" by code_simp
  have h: "check_catalog demo_spec_lib (demo_entry_doc ''hunter2'') demo_context \<noteq> []" by code_simp
  have L: "sl_ingest demo_spec_lib = demo_ingest_lib" by (simp add: demo_spec_lib_def)
  have d: "py_or (get_none (demo_entry_doc t) ''defaults'') (PDict []) = PDict []"
    "py_or (get_none (demo_entry_doc t) ''jobs'') (PList []) = PList [PDict [(''id'', PStr ''nas''), (''source'', PDict [(''pass'', PStr t)])]]" for t
    by (simp_all add: demo_entry_doc_def py_or_def get_or_def dict_get_def)
  show ?thesis
    using clean_catalog_accepted [OF demo_pydantic, of "demo_entry_doc (secret_ref ''QI_SECRET_NAS'')" demo_context] c h
    unfolding d L by (auto simp: list_all_iff)
qed

section \<open>Writing back what a job does not inherit\<close>

definition merged_value :: "pyval option \<Rightarrow> pyval \<Rightarrow> pyval" where
  "merged_value old value =
     (case value of PDict v \<Rightarrow> (case old of Some (PDict b) \<Rightarrow> PDict (deep_merge b v) | _ \<Rightarrow> value) | _ \<Rightarrow> value)"

lemma deep_merge_step: "deep_merge merged ((key, value) # rest) = deep_merge (dict_set merged key (merged_value (dict_get merged key) value)) rest"
  by (simp add: merged_value_def)

lemma dict_get_first: "dict_get ((a, b) # d) k = (if k = a then Some b else dict_get d k)"
  by (simp add: dict_get_def)

lemma deep_merge_get:
  "distinct (dict_keys over) \<Longrightarrow> dict_get (deep_merge base over) k =
     (case dict_get over k of None \<Rightarrow> dict_get base k | Some v \<Rightarrow> Some (merged_value (dict_get base k) v))"
proof (induction over arbitrary: base)
  case (Cons kv over)
  obtain key v where kv: "kv = (key, v)" by (cases kv)
  have "key = k \<Longrightarrow> dict_get over k = None" using Cons.prems kv by (auto simp: dict_get_keys)
  then show ?case using Cons.IH [of "dict_set base key (merged_value (dict_get base key) v)"] Cons.prems
    by (auto simp: kv deep_merge_step dict_get_first split: option.splits simp del: deep_merge.simps)
qed simp

lemma dict_set_distinct: "distinct (dict_keys d) \<Longrightarrow> distinct (dict_keys (dict_set d k v))"
proof -
  have "set (dict_keys (dict_set d k v)) = insert k (set (dict_keys d))" for d :: "('a \<times> 'b) list" and k v
    by (induction d k v rule: dict_set.induct) auto
  then show "distinct (dict_keys d) \<Longrightarrow> distinct (dict_keys (dict_set d k v))"
    by (induction d k v rule: dict_set.induct) auto
qed

lemma deep_merge_distinct: "distinct (dict_keys base) \<Longrightarrow> distinct (dict_keys (deep_merge base over))"
proof (induction over arbitrary: base)
  case (Cons kv over)
  then show ?case by (cases kv) (simp add: deep_merge_step dict_set_distinct del: deep_merge.simps)
qed simp

lemma minimise_section_get:
  assumes "distinct (dict_keys section_in)"
  shows "dict_get (minimise_section section inh section_in) k =
    (case dict_get section_in k of Some v \<Rightarrow> if keeps_key section inh (k, v) then Some v else None | None \<Rightarrow> None)"
  using assms unfolding minimise_section_def
  by (induction section_in) (auto simp: dict_get_def map_of_eq_None_iff split: option.splits dest: map_of_SomeD)

text \<open>The value a job has for a key of a section: what it says, else the catalogue's default, else the schema's.\<close>

definition section_value :: "(string, pyval) dict \<Rightarrow> pyval \<Rightarrow> string \<Rightarrow> string \<Rightarrow> pyval" where
  "section_value job defaults section key =
     get_none (deep_merge (section_defaults section) (as_mapping (get_none (effective job defaults) section))) key"

lemma collected_get: "dict_get (List.map_filter (\<lambda>k. map_option (Pair k) (g k)) ks) x = (if x \<in> set ks then g x else None)"
  by (induction ks) (auto simp: List.map_filter_simps dict_get_def split: option.splits)

lemma known_defaults_get:
  "section \<in> set DEFAULT_SECTIONS \<Longrightarrow> dict_get (known_defaults defaults) section = dict_get (as_mapping defaults) section"
  by (simp add: known_defaults_def collected_get)

lemma section_value_get:
  assumes "section \<in> set DEFAULT_SECTIONS" "distinct (dict_keys job)" "inherited_section defaults section = Inr inh"
    "dict_get job section = (if kept = [] then None else Some (PDict kept))" "distinct (dict_keys kept)"
    "\<forall>d. dict_get (as_mapping defaults) section = Some (PDict d) \<longrightarrow> distinct (dict_keys d)"
  shows "dict_get kept key = None \<Longrightarrow> section_value job defaults section key = get_none inh key"
    "dict_get kept key = Some v \<Longrightarrow> \<nexists>d. v = PDict d \<Longrightarrow> section_value job defaults section key = v"
proof -
  define own where "own = as_mapping (get_none (effective job defaults) section)"
  obtain c where c: "py_or (get_none (known_defaults defaults) section) (PDict []) = PDict c"
    and inh: "inh = deep_merge (section_defaults section) c"
    using assms(3) by (auto simp: inherited_section_def split: pyval.splits)
  have dc: "distinct (dict_keys c)" using c assms(6) known_defaults_get [OF assms(1)]
    by (auto simp: get_or_def py_or_def split: if_splits option.splits)
  have eff: "dict_get (effective job defaults) section = (if kept = [] then dict_get (known_defaults defaults) section
      else Some (merged_value (dict_get (known_defaults defaults) section) (PDict kept)))"
    unfolding effective_def deep_merge_get [OF assms(2)] assms(4) by simp
  have alt: "own = deep_merge c kept \<or> c = [] \<and> own = kept"
    using c eff by (auto simp: own_def get_or_def as_mapping_def merged_value_def py_or_def split: option.splits pyval.splits if_splits)
  then have od: "distinct (dict_keys own)" using deep_merge_distinct [OF dc] assms(5) by auto
  have get: "dict_get own key = (case dict_get kept key of None \<Rightarrow> dict_get c key | Some v \<Rightarrow> Some (merged_value (dict_get c key) v))"
    using alt deep_merge_get [OF assms(5), of c key]
    by (auto simp: merged_value_def split: option.splits pyval.splits)
  show "dict_get kept key = None \<Longrightarrow> section_value job defaults section key = get_none inh key"
    unfolding section_value_def own_def [symmetric] by (simp add: get_or_def deep_merge_get [OF od] get inh deep_merge_get [OF dc])
  show "dict_get kept key = Some v \<Longrightarrow> \<nexists>d. v = PDict d \<Longrightarrow> section_value job defaults section key = v"
    unfolding section_value_def own_def [symmetric]
    by (auto simp: get_or_def deep_merge_get [OF od] get merged_value_def split: pyval.splits)
qed

text \<open>The written job: the section holds what is kept of it, and no key twice.\<close>

lemma inherited_sections_get:
  assumes "inherited_sections defaults = Inr inherited"
  shows "map fst inherited = DEFAULT_SECTIONS" "\<forall>(sec, inh) \<in> set inherited. inherited_section defaults sec = Inr inh"
proof -
  have "map fst inherited = secs \<and> (\<forall>(sec, inh) \<in> set inherited. inherited_section defaults sec = Inr inh)"
    if "rmap (\<lambda>sec. rbind (inherited_section defaults sec) (\<lambda>d. Inr (sec, d))) secs = Inr inherited" for secs
    using that by (induction secs arbitrary: inherited) (auto simp: rbind_eq_Inr)
  then show "map fst inherited = DEFAULT_SECTIONS" "\<forall>(sec, inh) \<in> set inherited. inherited_section defaults sec = Inr inh"
    using assms unfolding inherited_sections_def by blast+
qed

definition kept_of :: "(string, pyval) dict \<Rightarrow> string \<times> (string, pyval) dict \<Rightarrow> (string \<times> pyval) option" where
  "kept_of job = (\<lambda>(sec, inh).
     case dict_get job sec of
       Some (PDict section_in) \<Rightarrow>
         (let kept = minimise_section sec inh section_in in if kept = [] then None else Some (sec, PDict kept))
     | _ \<Rightarrow> None)"

lemma disjoint_parts:
  "A \<subseteq> X \<Longrightarrow> B \<subseteq> Y \<Longrightarrow> X \<inter> Y = {} \<Longrightarrow> X \<inter> Z = {} \<Longrightarrow> Y \<inter> Z = {} \<Longrightarrow> A \<inter> B = {} \<and> (A \<union> B) \<inter> Z = {}"
  by blast

lemma minimise_Inr:
  assumes "minimise job defaults = Inr out"
  obtains first inherited where "inherited_sections defaults = Inr inherited" "out = first @ List.map_filter (kept_of job) inherited"
    "distinct (dict_keys first)" "set (dict_keys first) \<inter> set DEFAULT_SECTIONS = {}"
proof -
  let ?tops = "filter (\<lambda>key. key \<notin> {''enabled'', ''description''}) (dict_keys TOP_DEFAULTS)"
  define top where "top = filter (\<lambda>(key, value). value \<noteq> PNone \<and> \<not> py_eq value (get_none TOP_DEFAULTS key)) (map (\<lambda>key. (key, get_none job key)) ?tops)"
  define front where "front = (\<lambda>out_target. (((([(''id'', get_none job ''id'')]
        @ (if get_none job ''enabled'' = PBool False then [(''enabled'', PBool False)] else []))
        @ (let description = py_strip (py_str_of (py_or (get_none job ''description'') (PStr []))) in
           if description \<noteq> [] then [(''description'', PStr description)] else []))
        @ [(''source'', PDict (minimise_source (as_mapping (get_none job ''source''))))])
        @ [(''target'', PDict out_target), (''mode'', get_none job ''mode'')]))"
  obtain out_target inherited where inh: "inherited_sections defaults = Inr inherited"
    and out: "out = (front out_target @ top) @ List.map_filter (kept_of job) inherited"
    using assms unfolding minimise_def Let_def kept_of_def front_def top_def by (auto simp: rbind_eq_Inr)
  have tops: "?tops = [''full_scope'', ''append_probe'', ''mcp_allow_full'', ''expand_embedded'', ''source_template'']"
    by (simp add: TOP_DEFAULTS_def)
  have "distinct (dict_keys (filter P (map (\<lambda>key. (key, g key)) ks)))" "set (dict_keys (filter P (map (\<lambda>key. (key, g key)) ks))) \<subseteq> set ks"
    if "distinct ks" for P and g :: "string \<Rightarrow> pyval" and ks using that by (induction ks) auto
  from this [of ?tops] have top: "distinct (dict_keys top)" "set (dict_keys top) \<subseteq> set ?tops" unfolding top_def tops by simp_all
  have front: "distinct (dict_keys (front out_target))"
    "set (dict_keys (front out_target)) \<subseteq> {''id'', ''enabled'', ''description'', ''source'', ''target'', ''mode''}"
    by (simp add: front_def Let_def, auto simp: front_def Let_def)
  let ?A = "{''id'', ''enabled'', ''description'', ''source'', ''target'', ''mode''}"
  have apart: "?A \<inter> set ?tops = {}" "?A \<inter> set DEFAULT_SECTIONS = {}" "set ?tops \<inter> set DEFAULT_SECTIONS = {}"
    unfolding tops DEFAULT_SECTIONS_def by simp_all
  show ?thesis
    by (rule that [OF inh out])
      (simp_all only: map_append distinct_append set_append top(1) front(1) disjoint_parts [OF front(2) top(2) apart] simp_thms)
qed

lemma kept_keys:
  "distinct (map fst inherited) \<Longrightarrow> distinct (dict_keys (List.map_filter (kept_of job) inherited))
    \<and> set (dict_keys (List.map_filter (kept_of job) inherited)) \<subseteq> set (map fst inherited)"
proof (induction inherited)
  case (Cons si inherited)
  obtain sec inh where si: "si = (sec, inh)" by (cases si)
  have "kept_of job (sec, inh) = Some kv \<Longrightarrow> fst kv = sec" for kv
    by (auto simp: kept_of_def Let_def split: option.splits pyval.splits if_splits)
  then show ?case using Cons by (cases "kept_of job si") (auto simp: si List.map_filter_simps)
qed (simp add: List.map_filter_simps)

lemma kept_get:
  assumes "distinct (map fst inherited)" "(sec, inh) \<in> set inherited" "dict_get job sec = Some (PDict section_in)"
  shows "dict_get (List.map_filter (kept_of job) inherited) sec
    = (if minimise_section sec inh section_in = [] then None else Some (PDict (minimise_section sec inh section_in)))"
  using assms
proof (induction inherited)
  case (Cons si inherited)
  show ?case
  proof (cases "si = (sec, inh)")
    case True
    then have "sec \<notin> set (map fst inherited)" using Cons.prems(1) by simp
    then have "dict_get (List.map_filter (kept_of job) inherited) sec = None"
      using kept_keys [of inherited job] Cons.prems(1) by (auto simp: dict_get_keys)
    then show ?thesis using Cons.prems(3) by (simp add: True kept_of_def List.map_filter_simps Let_def dict_get_first)
  next
    case False
    then have "fst si \<noteq> sec" using Cons.prems(1,2) by (force simp: image_iff)
    moreover have "kept_of job si = Some kv \<Longrightarrow> fst kv = fst si" for kv
      by (cases si) (auto simp: kept_of_def Let_def split: option.splits pyval.splits if_splits)
    ultimately show ?thesis using Cons False
      by (cases "kept_of job si") (auto simp: List.map_filter_simps dict_get_def)
  qed
qed simp

text \<open>
  Writing a job back loses no edited value: for every key of a section the editor sent, the written job, read with the same
  defaults of the catalogue and of the schema, has that value again (one Python takes for equal, or both are empty). Only the
  embedding model is treated apart: it is written whenever it is set, so that it never follows the defaults.
\<close>

theorem minimise_keeps_values:
  assumes "minimise job defaults = Inr out" "section \<in> set DEFAULT_SECTIONS" "dict_get job section = Some (PDict section_in)"
    "distinct (dict_keys section_in)" "dict_get section_in key = Some v" "\<nexists>d. v = PDict d"
    "\<forall>d. dict_get (as_mapping defaults) section = Some (PDict d) \<longrightarrow> distinct (dict_keys d)"
  shows "section_value out defaults section key = v
    \<or> (section, key) \<noteq> (''embedding'', ''model'') \<and> py_eq v (section_value out defaults section key)
    \<or> empty_value v \<and> (empty_value (section_value out defaults section key) \<or> (section, key) = (''embedding'', ''model''))"
proof -
  obtain first inherited where inherited: "inherited_sections defaults = Inr inherited"
    and out: "out = first @ List.map_filter (kept_of job) inherited" and first: "distinct (dict_keys first)"
    "set (dict_keys first) \<inter> set DEFAULT_SECTIONS = {}"
    by (rule minimise_Inr [OF assms(1)])
  note secs = inherited_sections_get [OF inherited]
  have ds: "distinct (map fst inherited)" unfolding secs(1) by (simp add: DEFAULT_SECTIONS_def)
  obtain inh where mem: "(section, inh) \<in> set inherited" using assms(2) unfolding secs(1) [symmetric] by auto
  then have inh: "inherited_section defaults section = Inr inh" using secs(2) by blast
  let ?kept = "minimise_section section inh section_in"
  have "dict_get first section = None" using first(2) assms(2) by (auto simp: dict_get_keys)
  then have get: "dict_get out section = (if ?kept = [] then None else Some (PDict ?kept))"
    using kept_get [OF ds mem assms(3)] by (simp add: out dict_get_def map_add_def)
  have dout: "distinct (dict_keys out)" using first kept_keys [OF ds, of job] secs(1) by (auto simp: out)
  have dk: "distinct (dict_keys ?kept)" using assms(4) by (auto simp: minimise_section_def distinct_map_filter)
  note sv = section_value_get [OF assms(2) dout inh get dk assms(7), of key]
  show ?thesis
  proof (cases "keeps_key section inh (key, v)")
    case True
    then show ?thesis using sv(2) [of v] assms(4-6) by (simp add: minimise_section_get)
  next
    case False
    then have "section_value out defaults section key = get_none inh key" using sv(1) assms(4,5) by (simp add: minimise_section_get)
    then show ?thesis using False by (auto simp: keeps_key_def get_or_def simp del: py_eq.simps split: if_splits option.splits)
  qed
qed

definition demo_edit :: "(string, pyval) dict" where
  "demo_edit = [(''id'', PStr ''a''), (''source'', PDict [(''type'', PStr ''local''), (''label'', PStr ''l''), (''path'', PStr ''/data/local'')]),
     (''target'', PDict [(''collection'', PStr ''docs''), (''connection'', PStr ''main'')]), (''mode'', PStr ''append''),
     (''chunking'', PDict [(''words'', PInt 400), (''overlap'', PInt 50)])]"

definition demo_defaults :: pyval where
  "demo_defaults = PDict [(''chunking'', PDict [(''overlap'', PInt 20)])]"

definition demo_written :: "(string, pyval) dict" where
  "demo_written = [(''id'', PStr ''a''), (''source'', PDict [(''type'', PStr ''local''), (''label'', PStr ''l''), (''path'', PStr ''/data/local'')]),
     (''target'', PDict [(''collection'', PStr ''docs''), (''connection'', PStr ''main'')]), (''mode'', PStr ''append''),
     (''chunking'', PDict [(''overlap'', PInt 50)])]"

lemma minimise_keeps_values_witness:
  "minimise demo_edit demo_defaults = Inr demo_written \<and> py_eq (PInt 50) (section_value demo_written demo_defaults ''chunking'' ''overlap'')"
proof -
  have m: "minimise demo_edit demo_defaults = Inr demo_written" by code_simp
  have sec: "''chunking'' \<in> set DEFAULT_SECTIONS" by (simp add: DEFAULT_SECTIONS_def)
  have j: "dict_get demo_edit ''chunking'' = Some (PDict [(''words'', PInt 400), (''overlap'', PInt 50)])" by code_simp
  have g: "dict_get [(''words'', PInt 400), (''overlap'', PInt 50)] ''overlap'' = Some (PInt 50)" by (simp add: dict_get_def)
  have d: "\<forall>d. dict_get (as_mapping demo_defaults) ''chunking'' = Some (PDict d) \<longrightarrow> distinct (dict_keys d)"
    by (simp add: demo_defaults_def as_mapping_def dict_get_def)
  show ?thesis using minimise_keeps_values [OF m sec j _ g _ d] m by (auto simp: empty_value_def)
qed

text \<open>
  A source's field is not kept that way: an empty value is left out even where the field's default is not empty, and is read
  back as that default. The directory of an SFTP source that was emptied becomes the root directory.
\<close>

lemma emptied_field_becomes_default:
  "minimise_source [(''type'', PStr ''sftp''), (''label'', PStr ''l''), (''host'', PStr ''h''), (''path'', PStr [])]
     = [(''type'', PStr ''sftp''), (''label'', PStr ''l''), (''host'', PStr ''h'')]
   \<and> dict_get (source_defaults SftpSource) ''path'' = Some (PStr ''/'')"
  by (intro conjI; code_simp)

section \<open>The editor's forms\<close>

record field_form =
  ff_key :: string
  ff_label :: string
  ff_kind :: string
  ff_required :: bool
  ff_value :: pyval
  ff_help :: string
  ff_placeholder :: string
  ff_options :: "string list"

definition form_field :: "string \<Rightarrow> string \<Rightarrow> string \<Rightarrow> bool \<Rightarrow> field_form" where
  "form_field key label kind required = \<lparr>ff_key = key, ff_label = label, ff_kind = kind, ff_required = required, ff_value = PStr [],
     ff_help = [], ff_placeholder = [], ff_options = []\<rparr>"

record source_form =
  sf_type :: string
  sf_title :: string
  sf_blurb :: string
  sf_fields :: "field_form list"
  sf_remote :: bool

definition field_form_dict :: "i18n \<Rightarrow> field_form \<Rightarrow> (string, pyval) dict" where
  "field_form_dict I f = [(''key'', PStr (ff_key f)), (''label'', PStr (tr I (ff_label f) [])), (''kind'', PStr (ff_kind f)),
     (''required'', PBool (ff_required f)), (''default'', ff_value f),
     (''help'', PStr (if ff_help f = [] then [] else tr I (ff_help f) [])), (''placeholder'', PStr (ff_placeholder f)),
     (''options'', PList (map PStr (ff_options f)))]"

definition source_form_dict :: "i18n \<Rightarrow> source_form \<Rightarrow> (string, pyval) dict" where
  "source_form_dict I f = [(''type'', PStr (sf_type f)), (''title'', PStr (tr I (sf_title f) [])), (''blurb'', PStr (tr I (sf_blurb f) [])),
     (''remote'', PBool (sf_remote f)), (''fields'', PList (map (\<lambda>i. PDict (field_form_dict I i)) (sf_fields f)))]"

definition VENDORS :: "string list" where
  "VENDORS = [''other'', ''nextcloud'', ''owncloud'', ''sharepoint'', ''sharepoint-ntlm'', ''fastmail'', ''rclone'']"

definition local_form :: source_form where
  "local_form = \<lparr>sf_type = ''local'', sf_title = ''Folder on the server'',
     sf_blurb = ''A folder in the documents area. Read in place, nothing is copied.'',
     sf_fields = [(form_field ''path'' ''Folder'' ''folder'' True)\<lparr>
       ff_help := ''Below /data/local, which is the documents folder of the RAG module.'', ff_placeholder := ''/data/local/handbook''\<rparr>],
     sf_remote = False\<rparr>"

definition s3_form :: source_form where
  "s3_form = \<lparr>sf_type = ''s3'', sf_title = ''S3 bucket'', sf_blurb = ''Amazon S3 or any S3-compatible store (MinIO, Wasabi, Ceph ...).'',
     sf_fields = [(form_field ''bucket'' ''Bucket'' ''text'' True)\<lparr>ff_placeholder := ''acme-reports''\<rparr>,
       (form_field ''prefix'' ''Folder inside the bucket'' ''text'' False)\<lparr>ff_placeholder := ''published/''\<rparr>,
       (form_field ''provider'' ''Provider'' ''text'' False)\<lparr>ff_value := PStr ''AWS'',
         ff_help := ''AWS, Minio, Wasabi, Ceph, Other ...; the name rclone uses.''\<rparr>,
       (form_field ''region'' ''Region'' ''text'' False)\<lparr>ff_placeholder := ''eu-central-1''\<rparr>,
       (form_field ''endpoint'' ''Endpoint'' ''url'' False)\<lparr>ff_help := ''Only for a store that is not AWS.'',
         ff_placeholder := ''https://s3.example.com''\<rparr>,
       form_field ''access_key_id'' ''Access key ID'' ''secret'' False,
       form_field ''secret_access_key'' ''Secret access key'' ''secret'' False],
     sf_remote = True\<rparr>"

definition webdav_form :: source_form where
  "webdav_form = \<lparr>sf_type = ''webdav'', sf_title = ''WebDAV'', sf_blurb = ''Nextcloud, ownCloud, SharePoint and other WebDAV servers.'',
     sf_fields = [(form_field ''url'' ''URL'' ''url'' True)\<lparr>ff_placeholder := ''https://cloud.example.com/remote.php/dav/files/me/Docs''\<rparr>,
       (form_field ''vendor'' ''Server type'' ''select'' False)\<lparr>ff_value := PStr ''other'', ff_options := VENDORS\<rparr>,
       form_field ''user'' ''User name'' ''text'' False, form_field ''pass'' ''Password'' ''secret'' False],
     sf_remote = True\<rparr>"

definition sftp_form :: source_form where
  "sftp_form = \<lparr>sf_type = ''sftp'', sf_title = ''SFTP'', sf_blurb = ''A directory on a server reached over SSH.'',
     sf_fields = [(form_field ''host'' ''Host'' ''text'' True)\<lparr>ff_placeholder := ''sftp.example.com''\<rparr>,
       (form_field ''port'' ''Port'' ''integer'' False)\<lparr>ff_value := PInt 22\<rparr>,
       form_field ''user'' ''User name'' ''text'' False, form_field ''pass'' ''Password'' ''secret'' False,
       (form_field ''key_file'' ''Private key'' ''secret'' False)\<lparr>ff_help := ''The key itself (PEM text) as a credential, not a path.''\<rparr>,
       (form_field ''path'' ''Directory'' ''text'' False)\<lparr>ff_value := PStr ''/'', ff_placeholder := ''/export/legal''\<rparr>],
     sf_remote = True\<rparr>"

definition smb_form :: source_form where
  "smb_form = \<lparr>sf_type = ''smb'', sf_title = ''SMB share'', sf_blurb = ''A Windows or Samba file share.'',
     sf_fields = [(form_field ''host'' ''Host'' ''text'' True)\<lparr>ff_placeholder := ''files.example.com''\<rparr>,
       (form_field ''share'' ''Share'' ''text'' True)\<lparr>ff_placeholder := ''documents''\<rparr>,
       form_field ''user'' ''User name'' ''text'' False, form_field ''pass'' ''Password'' ''secret'' False,
       form_field ''path'' ''Folder in the share'' ''text'' False],
     sf_remote = True\<rparr>"

definition ftp_form :: source_form where
  "ftp_form = \<lparr>sf_type = ''ftp'', sf_title = ''FTP'', sf_blurb = ''A directory on an FTP server.'',
     sf_fields = [(form_field ''host'' ''Host'' ''text'' True)\<lparr>ff_placeholder := ''ftp.example.com''\<rparr>,
       (form_field ''port'' ''Port'' ''integer'' False)\<lparr>ff_value := PInt 21\<rparr>,
       form_field ''user'' ''User name'' ''text'' False, form_field ''pass'' ''Password'' ''secret'' False,
       form_field ''path'' ''Directory'' ''text'' False,
       (form_field ''tls'' ''Use explicit TLS'' ''bool'' False)\<lparr>ff_value := PBool False\<rparr>],
     sf_remote = True\<rparr>"

definition gdrive_form :: source_form where
  "gdrive_form = \<lparr>sf_type = ''gdrive'', sf_title = ''Google Drive'', sf_blurb = ''A Google Drive, read with a service account or a token.'',
     sf_fields = [(form_field ''service_account_json'' ''Service account (JSON)'' ''secret'' False)\<lparr>
         ff_help := ''The JSON of the service account as a credential.''\<rparr>,
       form_field ''token'' ''OAuth token'' ''secret'' False,
       (form_field ''root_folder_id'' ''Root folder ID'' ''text'' False)\<lparr>
         ff_help := ''Limits the job to one folder. Leave empty for the whole drive.''\<rparr>],
     sf_remote = True\<rparr>"

definition azureblob_form :: source_form where
  "azureblob_form = \<lparr>sf_type = ''azureblob'', sf_title = ''Azure Blob Storage'', sf_blurb = ''A container in an Azure storage account.'',
     sf_fields = [form_field ''account'' ''Storage account'' ''text'' True, form_field ''container'' ''Container'' ''text'' True,
       form_field ''key'' ''Account key'' ''secret'' False, form_field ''sas_url'' ''SAS URL'' ''secret'' False,
       form_field ''prefix'' ''Folder in the container'' ''text'' False],
     sf_remote = True\<rparr>"

definition http_form :: source_form where
  "http_form = \<lparr>sf_type = ''http'', sf_title = ''Web directory'', sf_blurb = ''A web server that lists its files (an Apache or nginx index).'',
     sf_fields = [(form_field ''url'' ''URL'' ''url'' True)\<lparr>ff_placeholder := ''https://files.example.com/docs/''\<rparr>],
     sf_remote = True\<rparr>"

definition SOURCE_FORMS :: "(string, source_form) dict" where
  "SOURCE_FORMS = map (\<lambda>f. (sf_type f, f))
     [local_form, s3_form, webdav_form, sftp_form, smb_form, ftp_form, gdrive_form, azureblob_form, http_form]"

definition source_forms :: "i18n \<Rightarrow> (string, pyval) dict list" where
  "source_forms I = map (\<lambda>kv. source_form_dict I (snd kv)) SOURCE_FORMS"

definition form_keys :: "source_form \<Rightarrow> string list" where
  "form_keys f = map ff_key (sf_fields f)"

text \<open>A form fits a source: its fields, what is required, what is secret and what it shows when nothing is set.\<close>

definition form_fits :: "source_form \<Rightarrow> source_model \<Rightarrow> bool" where
  "form_fits f m \<longleftrightarrow>
     set (form_keys f) \<union> {''rclone_flags''} = set (model_keys m) \<and> distinct (form_keys f)
     \<and> list_all (\<lambda>i. (ff_required i \<longleftrightarrow> ff_key i \<in> set (source_required m))
          \<and> (ff_kind i = ''secret'' \<longleftrightarrow> ff_key i \<in> set (sm_secret_keys m))
          \<and> (ff_required i \<or> ff_kind i = ''secret'' \<or> dict_get (source_defaults m) (ff_key i) = Some (ff_value i))) (sf_fields f)"

text \<open>
  The editor offers the schema: there is a form for every type of source and no other, each offers exactly the fields the schema
  knows (the flags of rclone apart), asks for what is required, hides what is a credential and shows the default the ingester has.
\<close>

theorem forms_fit_schema:
  "map fst SOURCE_FORMS = map fst SOURCE_MODELS \<and> list_all (\<lambda>(t, f). form_fits f (the (dict_get SOURCE_MODELS t))) SOURCE_FORMS"
  by code_simp

end
