(* ===== verification/Ingest_Catalog.thy ===== *)
theory Ingest_Catalog
  imports Ingest_Rules
begin

text \<open>
  The managed jobs and the file they live in (\<open>core/ingest/catalog.py\<close>, \<open>core/vectordb/catalog_io.py\<close>): ids and entries of the
  manager's own jobs, the rules checked before a write, and the compare-and-swap on the bytes of \<open>jobs.yaml\<close>. The ingester
  writes the same file and shares no lock with the manager, so its writes are a parameter of every attempt (\<open>io_plan\<close>): one
  before the file is looked at for its mode, one before it is read for the comparison and one between the comparison and the
  replacement. Failures of the disk are in the same record. SHA-256, the YAML loader and dumper and \<open>json.dumps\<close> are
  parameters; a content on which \<open>yaml.safe_load\<close> raises something else than its \<open>YAMLError\<close> (a timestamp that is no date
  raises \<open>ValueError\<close>) is outside the model: nothing catches that exception, and it passes through every operation. File modes and \<open>fsync\<close> are not part of the state. The process-wide lock makes the manager's own writers follow one
  another, so one operation runs at a time.
\<close>

record catalog_lib =
  cl_i18n :: i18n
  cl_directory :: string
  cl_sha :: "string \<Rightarrow> string"
  cl_load :: "string \<Rightarrow> string + pyval"
  cl_dump :: "(string, pyval) dict \<Rightarrow> string"
  cl_json :: "(string, pyval) dict \<Rightarrow> string"

abbreviation cl_tr :: "catalog_lib \<Rightarrow> string \<Rightarrow> (string, string) dict \<Rightarrow> string" where
  "cl_tr C \<equiv> tr (cl_i18n C)"

section \<open>Managed jobs\<close>

definition KIND_UPLOAD :: string where "KIND_UPLOAD = ''upload''"
definition KIND_FOLDER :: string where "KIND_FOLDER = ''folder''"

definition KINDS :: "(string, string) dict" where
  "KINDS = [(KIND_UPLOAD, ''u''), (KIND_FOLDER, ''f'')]"

definition SOURCE_LABELS :: "(string, string) dict" where
  "SOURCE_LABELS = [(KIND_UPLOAD, ''manager-upload''), (KIND_FOLDER, ''manager-folder'')]"

definition MANAGED_DESCRIPTION :: string where
  "MANAGED_DESCRIPTION = ''Managed by the papaia manager (Embedding page). The next run overwrites changes.''"

text \<open>\<open>_ID_SLUG.sub("-", s)\<close>: every run of other characters becomes one dash.\<close>

fun id_slug :: "bool \<Rightarrow> string \<Rightarrow> string" where
  "id_slug in_run [] = []"
| "id_slug in_run (c # cs) =
     (if is_lower c \<or> is_digit c then c # id_slug False cs
      else if in_run then id_slug True cs
      else CHR ''-'' # id_slug True cs)"

definition strip_dash :: "string \<Rightarrow> string" where
  "strip_dash s = rev (dropWhile (\<lambda>c. c = CHR ''-'') (rev (dropWhile (\<lambda>c. c = CHR ''-'') s)))"

definition managed_job_id :: "catalog_lib \<Rightarrow> string \<Rightarrow> string \<Rightarrow> string \<Rightarrow> py_exn + string" where
  "managed_job_id C connection collection kind =
     (case dict_get KINDS kind of
        None \<Rightarrow> Inl ValueError
      | Some suffix \<Rightarrow>
          (let cut = take 32 (strip_dash (id_slug False (py_lower collection)));
               slug = (if cut = [] then ''c'' else cut);
               digest = take 8 (cl_sha C (connection @ ''|'' @ collection))
           in Inr (MANAGED_PREFIX @ slug @ ''-'' @ digest @ ''-'' @ suffix)))"

definition is_managed :: "pyval \<Rightarrow> bool" where
  "is_managed v = (case v of PStr s \<Rightarrow> startswith s MANAGED_PREFIX | _ \<Rightarrow> False)"

definition endswith :: "string \<Rightarrow> string \<Rightarrow> bool" where
  "endswith s t \<longleftrightarrow> length t \<le> length s \<and> drop (length s - length t) s = t"

definition kind_of :: "string \<Rightarrow> string option" where
  "kind_of job_id =
     (if is_managed (PStr job_id)
      then map_option fst (find_first (\<lambda>(_, suffix). endswith job_id (''-'' @ suffix)) KINDS) else None)"

definition build_job ::
  "catalog_lib \<Rightarrow> string \<Rightarrow> string \<Rightarrow> string \<Rightarrow> string \<Rightarrow> string \<Rightarrow> string list \<Rightarrow> string list \<Rightarrow> py_exn + (string, pyval) dict" where
  "build_job C kind connection collection model source_path include exclude =
     rbind (managed_job_id C connection collection kind) (\<lambda>job_id.
       let filters = (if include = [] then [] else [(''include'', PList (map PStr include))])
             @ (if exclude = [] then [] else [(''exclude'', PList (map PStr exclude))])
       in Inr ([(''id'', PStr job_id), (''description'', PStr MANAGED_DESCRIPTION),
            (''source'', PDict [(''type'', PStr ''local''), (''label'', PStr (the (dict_get SOURCE_LABELS kind))), (''path'', PStr source_path)])]
          @ (if filters = [] then [] else [(''filters'', PDict filters)])
          @ [(''target'', PDict [(''collection'', PStr collection), (''connection'', PStr connection)]), (''mode'', PStr ''append''),
             (''embedding'', PDict [(''model'', PStr model)])]))"

section \<open>Reading the catalogue\<close>

definition job_enabled :: "(string, pyval) dict \<Rightarrow> bool" where
  "job_enabled job \<longleftrightarrow> get_or job ''enabled'' (PBool True) \<noteq> PBool False"

definition text_in :: "(string, pyval) dict \<Rightarrow> string \<Rightarrow> string \<Rightarrow> string option" where
  "text_in job part key =
     (case dict_get job part of Some (PDict d) \<Rightarrow> (case dict_get d key of Some (PStr s) \<Rightarrow> Some s | _ \<Rightarrow> None) | _ \<Rightarrow> None)"

definition collection_of :: "(string, pyval) dict \<Rightarrow> string option" where
  "collection_of job = text_in job ''target'' ''collection''"

definition connection_of :: "(string, pyval) dict \<Rightarrow> string option" where
  "connection_of job = text_in job ''target'' ''connection''"

definition label_of :: "(string, pyval) dict \<Rightarrow> string option" where
  "label_of job = text_in job ''source'' ''label''"

definition model_of :: "(string, pyval) dict \<Rightarrow> (string, pyval) dict \<Rightarrow> string option" where
  "model_of document job =
     (case text_in job ''embedding'' ''model'' of
        Some (c # t) \<Rightarrow> Some (c # t)
      | _ \<Rightarrow>
          (case dict_get document ''defaults'' of
             Some (PDict defaults) \<Rightarrow>
               (case text_in defaults ''embedding'' ''model'' of Some (c # t) \<Rightarrow> Some (c # t) | _ \<Rightarrow> None)
           | _ \<Rightarrow> None))"

definition mappings :: "pyval list \<Rightarrow> (string, pyval) dict list" where
  "mappings xs = List.map_filter (\<lambda>v. case v of PDict d \<Rightarrow> Some d | _ \<Rightarrow> None) xs"

text \<open>\<open>document.get("jobs") or []\<close> of a document that was parsed: a list.\<close>

definition jobs_of :: "(string, pyval) dict \<Rightarrow> (string, pyval) dict list" where
  "jobs_of document = (case get_none document ''jobs'' of PList xs \<Rightarrow> mappings xs | _ \<Rightarrow> [])"

definition other_jobs_for :: "(string, pyval) dict \<Rightarrow> string \<Rightarrow> string list \<Rightarrow> string list" where
  "other_jobs_for document collection exclude =
     map (\<lambda>job. py_str_of (get_none job ''id''))
       (filter (\<lambda>job. job_enabled job \<and> collection_of job = Some collection \<and> get_none job ''id'' \<notin> PStr ` set exclude) (jobs_of document))"

definition py_opt :: "string option \<Rightarrow> pyval" where
  "py_opt v = (case v of None \<Rightarrow> PNone | Some s \<Rightarrow> PStr s)"

definition clash_with ::
  "catalog_lib \<Rightarrow> (string, pyval) dict \<Rightarrow> (string, pyval) dict \<Rightarrow> (string, pyval) dict \<Rightarrow> string list" where
  "clash_with C document mine other =
     (let job = py_repr (get_none other ''id''); collection = py_repr (py_opt (collection_of mine));
          model = model_of document mine; other_model = model_of document other; label = label_of mine
      in (if connection_of other \<noteq> connection_of mine
          then [cl_tr C ''the job %(job)r writes to the collection %(collection)r on the connection %(connection)r; a collection lives in exactly one database''
                 [(''job'', job), (''collection'', collection), (''connection'', py_repr (py_opt (connection_of other)))]] else [])
       @ (if model \<noteq> None \<and> other_model \<noteq> None \<and> other_model \<noteq> model
          then [cl_tr C ''the job %(job)r embeds %(collection)r with %(other)r; a collection records exactly one model, and this run uses %(model)r''
                 [(''job'', job), (''collection'', collection), (''other'', py_repr (py_opt other_model)), (''model'', py_repr (py_opt model))]] else [])
       @ (if label \<noteq> None \<and> label_of other = label
          then [cl_tr C ''the job %(job)r already uses the source label %(label)r on %(collection)r''
                 [(''job'', job), (''label'', py_repr (py_opt label)), (''collection'', collection)]] else []))"

fun first_position :: "('a \<Rightarrow> bool) \<Rightarrow> 'a list \<Rightarrow> nat option" where
  "first_position p [] = None"
| "first_position p (x # xs) = (if p x then Some 0 else map_option Suc (first_position p xs))"

definition catalog_problems :: "catalog_lib \<Rightarrow> (string, pyval) dict \<Rightarrow> string \<Rightarrow> string list option \<Rightarrow> string list" where
  "catalog_problems C document job_id connections =
     (let jobs = jobs_of document
      in case first_position (\<lambda>job. get_none job ''id'' = PStr job_id) jobs of
           None \<Rightarrow> []
         | Some at \<Rightarrow>
             (let mine = jobs ! at
              in (case connections of
                    None \<Rightarrow> []
                  | Some names \<Rightarrow>
                      (if connection_of mine \<in> Some ` set names then []
                       else [cl_tr C ''the connection %(connection)r is not in connections.yaml''
                              [(''connection'', py_repr (py_opt (connection_of mine)))]]))
                 @ concat (map (\<lambda>(i, other).
                     if i = at \<or> \<not> job_enabled other \<or> collection_of other \<noteq> collection_of mine then []
                     else clash_with C document mine other) (enumerate 0 jobs))))"

section \<open>The file\<close>

datatype cat_file = Gone | Bytes string | Locked string

record cat_disk =
  cd_dir :: bool
  cd_access :: bool
  cd_file :: cat_file
  cd_bak :: "string option"
  cd_tmp :: "string option"

record io_plan =
  io_first :: "cat_file \<Rightarrow> cat_file"
  io_second :: "cat_file \<Rightarrow> cat_file"
  io_late :: "cat_file \<Rightarrow> cat_file"
  io_stage_fails :: "string option"
  io_backup_fails :: bool
  io_replace_fails :: "string option"

definition content_revision :: "catalog_lib \<Rightarrow> string \<Rightarrow> string" where
  "content_revision C raw = (if raw = [] then [] else cl_sha C raw)"

record jobs_snapshot =
  sn_exists :: bool
  sn_writable :: bool
  sn_raw :: string
  sn_revision :: string
  sn_document :: "(string, pyval) dict"
  sn_error :: "string option"

record written =
  wr_before :: string
  wr_existed :: bool
  wr_after :: jobs_snapshot
  wr_changed :: bool

definition starter :: "(string, pyval) dict" where
  "starter = [(''version'', PInt 1), (''jobs'', PList [])]"

definition parse_jobs :: "catalog_lib \<Rightarrow> string \<Rightarrow> (string, pyval) dict \<times> string option" where
  "parse_jobs C raw =
     (case cl_load C raw of
        Inl exc \<Rightarrow>
          (let first = (if py_strip exc = [] then cl_tr C ''invalid YAML'' [] else hd (splitlines (py_strip exc)))
           in (starter, Some (cl_tr C ''invalid YAML: %(first)s'' [(''first'', first)])))
      | Inr v \<Rightarrow>
          (case (if v = PNone then PDict [] else v) of
             PDict d \<Rightarrow>
               (let document = (if dict_get d ''version'' = None then d @ [(''version'', PInt 1)] else d);
                    version = get_none document ''version''
                in if \<not> py_eq version (PInt 1)
                   then (starter, Some (cl_tr C ''unsupported jobs version %(value)r; expected 1'' [(''value'', py_repr version)]))
                   else (case get_none document ''jobs'' of
                           PNone \<Rightarrow> (dict_set document ''jobs'' (PList []), None)
                         | PList _ \<Rightarrow> (document, None)
                         | _ \<Rightarrow> (starter, Some (cl_tr C ''jobs must be a list'' []))))
           | _ \<Rightarrow> (starter, Some (cl_tr C ''the top level must be a mapping'' []))))"

definition snapshot :: "catalog_lib \<Rightarrow> cat_disk \<Rightarrow> jobs_snapshot" where
  "snapshot C d =
     (let writable = (cd_dir d \<and> cd_access d)
      in case cd_file d of
           Gone \<Rightarrow> \<lparr>sn_exists = False, sn_writable = writable, sn_raw = [], sn_revision = [], sn_document = starter, sn_error = None\<rparr>
         | Locked e \<Rightarrow> \<lparr>sn_exists = True, sn_writable = writable, sn_raw = [], sn_revision = [], sn_document = starter,
              sn_error = Some (cl_tr C ''the file cannot be read: %(value)s'' [(''value'', e)])\<rparr>
         | Bytes raw \<Rightarrow>
             (case parse_jobs C raw of (document, problem) \<Rightarrow>
                \<lparr>sn_exists = True, sn_writable = writable, sn_raw = raw, sn_revision = content_revision C raw, sn_document = document,
                 sn_error = problem\<rparr>))"

text \<open>
  \<open>swap\<close>: the staged file is removed on every way out. A file that is gone when its mode is asked for raises; one that is gone
  when it is read has the empty revision.
\<close>

definition swap ::
  "catalog_lib \<Rightarrow> io_plan \<Rightarrow> string \<Rightarrow> bool \<Rightarrow> string \<Rightarrow> string \<Rightarrow> cat_disk \<Rightarrow> (string + bool) \<times> cat_disk" where
  "swap C io expected existed previous data d0 =
     (let d1 = d0\<lparr>cd_file := io_first io (cd_file d0), cd_tmp := None\<rparr>;
          d2 = d1\<lparr>cd_file := io_second io (cd_file d1)\<rparr>;
          d3 = (if existed \<and> \<not> io_backup_fails io then d2\<lparr>cd_bak := Some previous\<rparr> else d2);
          d4 = d3\<lparr>cd_file := io_late io (cd_file d3)\<rparr>
      in if existed \<and> cd_file d1 = Gone then (Inl ''No such file or directory'', d1)
         else case io_stage_fails io of
           Some e \<Rightarrow> (Inl e, d1)
         | None \<Rightarrow>
             (case cd_file d2 of
                Locked e \<Rightarrow> (Inl e, d2)
              | f \<Rightarrow>
                  if (case f of Bytes raw \<Rightarrow> content_revision C raw | _ \<Rightarrow> []) \<noteq> expected then (Inr False, d2)
                  else (case io_replace_fails io of
                          Some e \<Rightarrow> (Inl e, d4)
                        | None \<Rightarrow> (Inr True, d4\<lparr>cd_file := Bytes data\<rparr>))))"

datatype cat_error = CatalogConflict string | CatalogRejected string "string list"

definition jobs_swap :: "catalog_lib \<Rightarrow> io_plan \<Rightarrow> jobs_snapshot \<Rightarrow> string \<Rightarrow> cat_disk \<Rightarrow> (cat_error + bool) \<times> cat_disk" where
  "jobs_swap C io s data d =
     (if \<not> cd_dir d then
        (Inl (CatalogRejected (cl_tr C ''%(directory)s does not exist; the manager does not create it'' [(''directory'', cl_directory C)]) []), d)
      else case swap C io (sn_revision s) (sn_exists s) (sn_raw s) data d of
        (Inl e, d') \<Rightarrow>
          (Inl (CatalogRejected (cl_tr C ''%(directory)s does not accept the change (%(value)s); the job catalog is read-only here''
            [(''directory'', cl_directory C), (''value'', e)]) []), d')
      | (Inr done, d') \<Rightarrow> (Inr done, d'))"

section \<open>Changing the file\<close>

type_synonym catalog_rules = "((string, pyval) dict \<Rightarrow> string list) option"
type_synonym catalog_change = "(string, pyval) dict \<Rightarrow> cat_error + (string, pyval) dict"

text \<open>The loop of \<open>update\<close>, one plan per attempt; with none left the file kept changing.\<close>

fun attempts ::
  "catalog_lib \<Rightarrow> catalog_change \<Rightarrow> catalog_rules \<Rightarrow> io_plan list \<Rightarrow> cat_disk \<Rightarrow> (cat_error + written) \<times> cat_disk" where
  "attempts C mutate rules [] d =
     (Inl (CatalogRejected (cl_tr C ''jobs.yaml keeps changing while the manager writes it; try again'' []) []), d)"
| "attempts C mutate rules (io # ios) d =
     (let s = snapshot C d
      in case sn_error s of
           Some e \<Rightarrow> (Inl (CatalogRejected (cl_tr C ''jobs.yaml cannot be changed: %(structural_error)s'' [(''structural_error'', e)]) []), d)
         | None \<Rightarrow>
             (case mutate (sn_document s) of
                Inl e \<Rightarrow> (Inl e, d)
              | Inr document \<Rightarrow>
                  if sn_exists s \<and> py_eq (PDict document) (PDict (sn_document s))
                  then (Inr \<lparr>wr_before = sn_raw s, wr_existed = True, wr_after = s, wr_changed = False\<rparr>, d)
                  else let problems = (case rules of None \<Rightarrow> [] | Some r \<Rightarrow> r document)
                       in if problems \<noteq> [] then
                            (Inl (CatalogRejected (cl_tr C ''jobs.yaml would not be valid for the ingester: %(problems)s''
                               [(''problems'', join ''; '' problems)]) problems), d)
                          else (case jobs_swap C io s (cl_dump C document) d of
                                  (Inl e, d') \<Rightarrow> (Inl e, d')
                                | (Inr True, d') \<Rightarrow>
                                    (Inr \<lparr>wr_before = sn_raw s, wr_existed = sn_exists s, wr_after = snapshot C d', wr_changed = True\<rparr>, d')
                                | (Inr False, d') \<Rightarrow> attempts C mutate rules ios d')))"

definition CATALOG_ATTEMPTS :: nat where "CATALOG_ATTEMPTS = 3"

definition update ::
  "catalog_lib \<Rightarrow> catalog_change \<Rightarrow> catalog_rules \<Rightarrow> (nat \<Rightarrow> io_plan) \<Rightarrow> cat_disk \<Rightarrow> (cat_error + written) \<times> cat_disk" where
  "update C mutate rules host d = attempts C mutate rules (map host [0..<CATALOG_ATTEMPTS]) d"

definition with_jobs :: "(string, pyval) dict \<Rightarrow> (pyval list \<Rightarrow> cat_error + pyval list) \<Rightarrow> cat_error + (string, pyval) dict" where
  "with_jobs document f =
     (case get_none document ''jobs'' of
        PList jobs \<Rightarrow> rbind (f jobs) (\<lambda>jobs'. Inr (dict_set document ''jobs'' (PList jobs')))
      | _ \<Rightarrow> Inr document)"

definition has_id :: "string \<Rightarrow> pyval \<Rightarrow> bool" where
  "has_id job_id v \<longleftrightarrow> (case v of PDict d \<Rightarrow> get_none d ''id'' = PStr job_id | _ \<Rightarrow> False)"

definition job_index :: "pyval list \<Rightarrow> string \<Rightarrow> nat option" where
  "job_index jobs job_id = first_position (has_id job_id) jobs"

definition entry_etag :: "catalog_lib \<Rightarrow> (string, pyval) dict \<Rightarrow> string" where
  "entry_etag C entry = take 16 (cl_sha C (cl_json C entry))"

definition check_etag :: "catalog_lib \<Rightarrow> pyval \<Rightarrow> string option \<Rightarrow> string \<Rightarrow> cat_error option" where
  "check_etag C existing etag job_id =
     (if etag \<noteq> None \<and> Some (entry_etag C (as_mapping existing)) \<noteq> etag
      then Some (CatalogConflict (cl_tr C ''The job %(job_id)r was changed by somebody else since it was opened. Reload it to see the current version.''
             [(''job_id'', repr_str job_id)]))
      else None)"

definition gone_error :: "catalog_lib \<Rightarrow> string \<Rightarrow> cat_error" where
  "gone_error C job_id = CatalogConflict (cl_tr C ''The job %(job_id)r is no longer in jobs.yaml.'' [(''job_id'', repr_str job_id)])"

definition upsert_change :: "(string, pyval) dict \<Rightarrow> string \<Rightarrow> catalog_change" where
  "upsert_change job job_id document =
     with_jobs document (\<lambda>jobs.
       case job_index jobs job_id of
         Some i \<Rightarrow> Inr (jobs[i := PDict job])
       | None \<Rightarrow> Inr (jobs @ [PDict job]))"

definition put_change :: "catalog_lib \<Rightarrow> (string, pyval) dict \<Rightarrow> string \<Rightarrow> bool \<Rightarrow> string option \<Rightarrow> catalog_change" where
  "put_change C job job_id create etag document =
     with_jobs document (\<lambda>jobs.
       if create then
         (if job_index jobs job_id \<noteq> None
          then Inl (CatalogConflict (cl_tr C ''A job with the id %(job_id)r already exists.'' [(''job_id'', repr_str job_id)]))
          else Inr (jobs @ [PDict job]))
       else case job_index jobs job_id of
         None \<Rightarrow> Inl (gone_error C job_id)
       | Some i \<Rightarrow> (case check_etag C (jobs ! i) etag job_id of Some e \<Rightarrow> Inl e | None \<Rightarrow> Inr (jobs[i := PDict job])))"

definition remove_change :: "catalog_lib \<Rightarrow> string \<Rightarrow> string option \<Rightarrow> catalog_change" where
  "remove_change C job_id etag document =
     with_jobs document (\<lambda>jobs.
       case job_index jobs job_id of
         None \<Rightarrow> Inl (gone_error C job_id)
       | Some i \<Rightarrow> (case check_etag C (jobs ! i) etag job_id of Some e \<Rightarrow> Inl e | None \<Rightarrow> Inr (take i jobs @ drop (Suc i) jobs)))"

definition enabled_change :: "catalog_lib \<Rightarrow> string \<Rightarrow> bool \<Rightarrow> catalog_change" where
  "enabled_change C job_id enabled document =
     with_jobs document (\<lambda>jobs.
       case job_index jobs job_id of
         None \<Rightarrow> Inl (gone_error C job_id)
       | Some i \<Rightarrow>
           (let job = as_mapping (jobs ! i)
            in Inr (jobs[i := PDict (if enabled then dict_del job ''enabled'' else dict_set job ''enabled'' (PBool False))])))"

definition defaults_change :: "(string, pyval) dict \<Rightarrow> catalog_change" where
  "defaults_change defaults document =
     Inr (if defaults \<noteq> [] then dict_set document ''defaults'' (PDict defaults) else dict_del document ''defaults'')"

text \<open>\<open>str(job["id"])\<close> of an entry with an id.\<close>

definition job_id_of :: "(string, pyval) dict \<Rightarrow> string" where
  "job_id_of job = py_str_of (get_none job ''id'')"

definition upsert where
  "upsert C job rules = update C (upsert_change job (job_id_of job)) rules"

definition put_job where
  "put_job C job create etag rules = update C (put_change C job (job_id_of job) create etag) rules"

definition remove_job where
  "remove_job C job_id etag = update C (remove_change C job_id etag) None"

definition set_enabled where
  "set_enabled C job_id enabled rules = update C (enabled_change C job_id enabled) rules"

definition set_defaults where
  "set_defaults C defaults rules = update C (defaults_change defaults) rules"

definition replace_raw :: "catalog_lib \<Rightarrow> string \<Rightarrow> string \<Rightarrow> io_plan \<Rightarrow> cat_disk \<Rightarrow> (cat_error + written) \<times> cat_disk" where
  "replace_raw C raw expected_revision io d =
     (let s = snapshot C d
      in if sn_revision s \<noteq> expected_revision
         then (Inl (CatalogConflict (cl_tr C ''jobs.yaml changed since it was opened. Reload the page to see the current content.'' [])), d)
         else if sn_exists s \<and> sn_raw s = raw then (Inr \<lparr>wr_before = sn_raw s, wr_existed = True, wr_after = s, wr_changed = False\<rparr>, d)
         else case jobs_swap C io s raw d of
           (Inl e, d') \<Rightarrow> (Inl e, d')
         | (Inr False, d') \<Rightarrow>
             (Inl (CatalogConflict (cl_tr C ''jobs.yaml changed while it was being saved. Reload the page and try again.'' [])), d')
         | (Inr True, d') \<Rightarrow>
             (Inr \<lparr>wr_before = sn_raw s, wr_existed = sn_exists s, wr_after = snapshot C d', wr_changed = True\<rparr>, d'))"

text \<open>\<open>restore\<close>: a file that the write created is unlinked (which can fail), any other is swapped back.\<close>

definition restore :: "catalog_lib \<Rightarrow> io_plan \<Rightarrow> written \<Rightarrow> cat_disk \<Rightarrow> bool \<times> cat_disk" where
  "restore C io w d =
     (if \<not> wr_changed w then (True, d)
      else if \<not> wr_existed w then
        (let d1 = d\<lparr>cd_file := io_first io (cd_file d)\<rparr>
         in case cd_file d1 of
              Bytes raw \<Rightarrow>
                if content_revision C raw \<noteq> sn_revision (wr_after w) then (False, d1)
                else let d2 = d1\<lparr>cd_file := io_late io (cd_file d1)\<rparr>
                     in if io_replace_fails io \<noteq> None \<or> cd_file d2 = Gone then (False, d2) else (True, d2\<lparr>cd_file := Gone\<rparr>)
            | _ \<Rightarrow> (False, d1))
      else case swap C io (sn_revision (wr_after w)) True (sn_raw (wr_after w)) (wr_before w) d of
        (Inl _, d') \<Rightarrow> (False, d')
      | (Inr done, d') \<Rightarrow> (done, d'))"

section \<open>Lemmas: ids\<close>

lemma id_slug_chars: "c \<in> set (id_slug b s) \<Longrightarrow> is_lower c \<or> is_digit c \<or> c = CHR ''-''"
  by (induction b s rule: id_slug.induct) (auto split: if_splits)

lemma strip_dash_set: "set (strip_dash s) \<subseteq> set s"
  unfolding strip_dash_def by (auto dest!: set_dropWhileD)

lemma endswith_append: "endswith s t \<longleftrightarrow> (\<exists>p. s = p @ t)"
  unfolding endswith_def by (metis append_take_drop_id diff_add_inverse2 append_eq_conv_conj le_add2 length_append)

text \<open>
  The id of a managed job is one the ingester accepts, whatever the names of the connection and the collection are, it is at most 47
  characters long, it is recognised as managed, it cannot be chosen for another job, and the kind can be read from it.
\<close>

theorem managed_id_valid:
  assumes "\<forall>s. length (cl_sha C s) = 64 \<and> list_all (\<lambda>c. is_digit c \<or> is_lower c) (cl_sha C s)"
    "managed_job_id C connection collection kind = Inr job_id"
  shows "is_valid_id job_id \<and> length job_id \<le> 47 \<and> is_managed (PStr job_id) \<and> id_problem L job_id \<noteq> None \<and> kind_of job_id = Some kind"
proof -
  obtain suffix where suffix: "dict_get KINDS kind = Some suffix" using assms(2) by (auto simp: managed_job_id_def split: option.splits)
  let ?cut = "take 32 (strip_dash (id_slug False (py_lower collection)))"
  define slug where "slug = (if ?cut = [] then ''c'' else ?cut)"
  define digest where "digest = take 8 (cl_sha C (connection @ ''|'' @ collection))"
  have id: "job_id = ''mgr-'' @ slug @ ''-'' @ digest @ ''-'' @ suffix"
    using assms(2) suffix by (simp add: managed_job_id_def slug_def digest_def MANAGED_PREFIX_def Let_def)
  let ?ok = "\<lambda>d. is_lower d \<or> is_digit d \<or> d = CHR ''_'' \<or> d = CHR ''-''"
  have kinds: "(kind, suffix) \<in> {(''upload'', ''u''), (''folder'', ''f'')}"
    using suffix by (auto simp: KINDS_def KIND_UPLOAD_def KIND_FOLDER_def dict_get_def split: if_splits)
  have "set ?cut \<subseteq> set (id_slug False (py_lower collection))" using strip_dash_set set_take_subset by fastforce
  then have s: "list_all ?ok slug" "length slug \<le> 32" unfolding slug_def using id_slug_chars by (auto simp: list_all_iff is_lower_def)
  have d: "list_all ?ok digest" "length digest = 8" using assms(1) by (auto simp: digest_def list_all_iff dest: in_set_takeD)
  have u: "list_all ?ok suffix" "length suffix = 1" using kinds by (auto simp: is_lower_def)
  have len: "length job_id \<le> 47" using s(2) d(2) u(2) by (simp add: id)
  have "slug64 job_id" using s d u len by (simp add: id slug64_def is_lower_def)
  moreover have m: "startswith job_id MANAGED_PREFIX" by (simp add: id MANAGED_PREFIX_def)
  moreover have "kind_of job_id = Some kind"
    using kinds m by (auto simp: kind_of_def is_managed_def KINDS_def KIND_UPLOAD_def KIND_FOLDER_def find_first_def endswith_append id)
  ultimately show ?thesis using len by (simp add: is_valid_id_def is_managed_def id_problem_def)
qed

definition demo_catalog_lib :: catalog_lib where
  "demo_catalog_lib = \<lparr>cl_i18n = \<lparr>tr = (\<lambda>s _. s), ntr = (\<lambda>one _ _ _. one)\<rparr>, cl_directory = ''/catalog'', cl_sha = (\<lambda>_. replicate 64 (CHR ''a'')),
     cl_load = (\<lambda>t. if t = [] then Inr PNone else Inr (PDict [(''version'', PInt 1), (''jobs'', PList [PDict [(''id'', PStr t)]])])),
     cl_dump = (\<lambda>_. ''dumped''), cl_json = (\<lambda>d. py_repr (PDict d))\<rparr>"

lemma managed_id_valid_witness:
  "managed_job_id demo_catalog_lib ''main'' ''Sales & Ops'' ''folder'' = Inr ''mgr-sales-ops-aaaaaaaa-f''
    \<and> is_valid_id ''mgr-sales-ops-aaaaaaaa-f'' \<and> kind_of ''mgr-sales-ops-aaaaaaaa-f'' = Some ''folder''"
proof -
  have h: "\<forall>s. length (cl_sha demo_catalog_lib s) = 64 \<and> list_all (\<lambda>c. is_digit c \<or> is_lower c) (cl_sha demo_catalog_lib s)"
    by (simp add: demo_catalog_lib_def list_all_iff is_lower_def)
  have i: "managed_job_id demo_catalog_lib ''main'' ''Sales & Ops'' ''folder'' = Inr ''mgr-sales-ops-aaaaaaaa-f''" by code_simp
  show ?thesis using managed_id_valid [OF h i, of demo_ingest_lib] i by blast
qed

section \<open>Lemmas: the file\<close>

definition cat_bytes :: "cat_file \<Rightarrow> string" where
  "cat_bytes f = (case f of Bytes b \<Rightarrow> b | _ \<Rightarrow> [])"

definition document_of :: "catalog_lib \<Rightarrow> cat_file \<Rightarrow> (string, pyval) dict" where
  "document_of C f = (case f of Bytes b \<Rightarrow> fst (parse_jobs C b) | _ \<Rightarrow> starter)"

text \<open>What the ingester has written by the end of the given attempts.\<close>

definition others_wrote :: "io_plan list \<Rightarrow> cat_file \<Rightarrow> cat_file" where
  "others_wrote ios f = fold (\<lambda>io f. io_second io (io_first io f)) ios f"

lemma snapshot_simps [simp]:
  "sn_document (snapshot C d) = document_of C (cd_file d)" "sn_raw (snapshot C d) = cat_bytes (cd_file d)"
  "sn_exists (snapshot C d) \<longleftrightarrow> cd_file d \<noteq> Gone" "sn_revision (snapshot C d) = content_revision C (cat_bytes (cd_file d))"
  by (auto simp: snapshot_def document_of_def cat_bytes_def content_revision_def Let_def split: cat_file.splits prod.splits)

lemma snapshot_ok: "sn_error (snapshot C d) = None \<Longrightarrow> \<nexists>e. cd_file d = Locked e"
  by (auto simp: snapshot_def Let_def)

lemma swap_True:
  assumes "swap C io expected existed previous data d = (Inr True, d')"
  shows "cd_file d' = Bytes data \<and> content_revision C (cat_bytes (io_second io (io_first io (cd_file d)))) = expected
    \<and> (\<nexists>e. io_second io (io_first io (cd_file d)) = Locked e)
    \<and> (existed \<longrightarrow> io_first io (cd_file d) \<noteq> Gone) \<and> cd_dir d' = cd_dir d"
  using assms by (auto simp: swap_def Let_def cat_bytes_def content_revision_def split: option.splits cat_file.splits if_splits)

lemma swap_False:
  assumes "swap C io expected existed previous data d = (Inr False, d')"
  shows "cd_file d' = io_second io (io_first io (cd_file d)) \<and> cd_dir d' = cd_dir d \<and> content_revision C (cat_bytes (cd_file d')) \<noteq> expected"
  using assms by (auto simp: swap_def Let_def cat_bytes_def content_revision_def split: option.splits cat_file.splits if_splits)

lemma swap_Inl:
  assumes "swap C io expected existed previous data d = (Inl e, d')" "io_first io = id" "io_second io = id" "io_late io = id"
  shows "cd_file d' = cd_file d"
  using assms by (auto simp: swap_def Let_def split: option.splits cat_file.splits if_splits)

lemma jobs_swap_Inr:
  "jobs_swap C io s data d = (Inr b, d') \<Longrightarrow> cd_dir d \<and> swap C io (sn_revision s) (sn_exists s) (sn_raw s) data d = (Inr b, d')"
  by (auto simp: jobs_swap_def split: if_splits prod.splits sum.splits)

lemma jobs_swap_Inl:
  "jobs_swap C io s data d = (Inl e, d') \<Longrightarrow> d' = d \<or> (\<exists>e. swap C io (sn_revision s) (sn_exists s) (sn_raw s) data d = (Inl e, d'))"
  by (auto simp: jobs_swap_def split: if_splits prod.splits sum.splits)

text \<open>One attempt: it ends the loop, or the file changed under it and the next one starts from what is there.\<close>

lemma attempts_cases:
  assumes "attempts C change rules (io # ios) d = (r, d')"
  obtains (refused) e where "r = Inl e" "d' = d"
  | (failed) e doc e' where "r = Inl e" "change (document_of C (cd_file d)) = Inr doc"
      "swap C io (content_revision C (cat_bytes (cd_file d))) (cd_file d \<noteq> Gone) (cat_bytes (cd_file d)) (cl_dump C doc) d = (Inl e', d')"
  | (same) w where "r = Inr w" "\<not> wr_changed w" "d' = d"
  | (swapped) w doc where "r = Inr w" "wr_changed w" "change (document_of C (cd_file d)) = Inr doc"
      "case_option [] (\<lambda>f. f doc) rules = []" "w = \<lparr>wr_before = cat_bytes (cd_file d), wr_existed = (cd_file d \<noteq> Gone), wr_after = snapshot C d', wr_changed = True\<rparr>"
      "swap C io (content_revision C (cat_bytes (cd_file d))) (cd_file d \<noteq> Gone) (cat_bytes (cd_file d)) (cl_dump C doc) d = (Inr True, d')"
      "\<nexists>e. cd_file d = Locked e" "cd_dir d"
  | (again) doc d1 where "swap C io (content_revision C (cat_bytes (cd_file d))) (cd_file d \<noteq> Gone) (cat_bytes (cd_file d)) (cl_dump C doc) d = (Inr False, d1)"
      "attempts C change rules ios d1 = (r, d')"
proof (cases "sn_error (snapshot C d)")
  case (Some e)
  then show ?thesis using assms by (auto simp: Let_def intro: refused)
next
  case ok: None
  show ?thesis
  proof (cases "change (document_of C (cd_file d))")
    case (Inl e)
    then show ?thesis using assms ok by (auto simp: Let_def intro: refused)
  next
    case doc: (Inr doc)
    let ?problems = "case_option [] (\<lambda>f. f doc) rules"
    show ?thesis
    proof (cases "cd_file d \<noteq> Gone \<and> py_eq (PDict doc) (PDict (document_of C (cd_file d)))")
      case True
      note step = assms [unfolded attempts.simps Let_def ok option.simps snapshot_simps doc sum.case if_P [OF True]]
      show ?thesis using step by (intro same [of "the (case r of Inr w \<Rightarrow> Some w | Inl _ \<Rightarrow> None)"]) auto
    next
      case False
      note step = assms [unfolded attempts.simps Let_def ok option.simps snapshot_simps doc sum.case if_not_P [OF False]]
      show ?thesis
      proof (cases "?problems = []")
        case problems: False
        then have "(\<exists>e. r = Inl e) \<and> d' = d" using step by auto
        then show ?thesis using refused by blast
      next
        case True
        obtain sr d1 where sw: "jobs_swap C io (snapshot C d) (cl_dump C doc) d = (sr, d1)" by fastforce
        show ?thesis
        proof (cases sr)
          case (Inl e)
          then show ?thesis using step True sw refused failed [OF _ doc] jobs_swap_Inl [of C io "snapshot C d" "cl_dump C doc" d e d1] by auto
        next
          case (Inr b)
          then show ?thesis using step True sw jobs_swap_Inr [of C io "snapshot C d" "cl_dump C doc" d b d1]
              swapped [OF _ _ doc True] again [of doc d1] snapshot_ok [OF ok] by (cases b) auto
        qed
      qed
    qed
  qed
qed

lemma others_wrote_Cons: "others_wrote (io # ios) f = others_wrote ios (io_second io (io_first io f))"
  by (simp add: others_wrote_def)

lemma attempts_written:
  assumes "attempts C change rules ios d = (Inr w, d')" "wr_changed w" "\<forall>a b. content_revision C a = content_revision C b \<longrightarrow> a = b"
    "cl_load C [] = Inr PNone"
  shows "\<exists>k < length ios. \<exists>doc. let before = others_wrote (take (Suc k) ios) (cd_file d)
     in change (document_of C before) = Inr doc \<and> cd_file d' = Bytes (cl_dump C doc) \<and> cat_bytes before = wr_before w"
  using assms(1)
proof (induction ios arbitrary: d)
  case (Cons io ios)
  from Cons.prems show ?case
  proof (cases rule: attempts_cases)
    case (swapped v doc)
    let ?before = "io_second io (io_first io (cd_file d))"
    note sw = swap_True [OF swapped(6)]
    have b: "cat_bytes ?before = cat_bytes (cd_file d)" using sw assms(3) by blast
    have "parse_jobs C [] = (starter, None)"
      using assms(4) by (simp add: parse_jobs_def starter_def Let_def get_or_def dict_get_def)
    then have "document_of C ?before = document_of C (cd_file d)"
      using b sw swapped(7) by (auto simp: document_of_def cat_bytes_def split: cat_file.splits)
    then show ?thesis using swapped sw b by (intro exI [of _ 0]) (auto simp: others_wrote_def Let_def)
  next
    case (again doc d1)
    have "cd_file d1 = io_second io (io_first io (cd_file d))" using swap_False [OF again(1)] by simp
    then obtain k doc where "k < length ios" "let before = others_wrote (take (Suc k) ios) (io_second io (io_first io (cd_file d)))
        in change (document_of C before) = Inr doc \<and> cd_file d' = Bytes (cl_dump C doc) \<and> cat_bytes before = wr_before w"
      using Cons.IH [OF again(2)] by auto
    then show ?thesis by (intro exI [of _ "Suc k"] conjI exI [of _ doc]) (simp_all add: others_wrote_Cons)
  qed (use assms(2) in auto)
qed simp

lemma update_written:
  assumes "update C change rules host d = (Inr w, d')" "wr_changed w" "\<forall>a b. content_revision C a = content_revision C b \<longrightarrow> a = b"
    "cl_load C [] = Inr PNone"
  shows "\<exists>k < 3. \<exists>doc. let before = others_wrote (map host [0..<Suc k]) (cd_file d)
    in change (document_of C before) = Inr doc \<and> cd_file d' = Bytes (cl_dump C doc) \<and> cat_bytes before = wr_before w"
proof -
  have "take (Suc k) (map host [0..<CATALOG_ATTEMPTS]) = map host [0..<Suc k]" if "k < 3" for k
    using that by (simp add: CATALOG_ATTEMPTS_def take_map take_upt)
  note cut = this
  obtain k doc where k: "k < 3" and w: "let before = others_wrote (take (Suc k) (map host [0..<CATALOG_ATTEMPTS])) (cd_file d)
      in change (document_of C before) = Inr doc \<and> cd_file d' = Bytes (cl_dump C doc) \<and> cat_bytes before = wr_before w"
    using attempts_written [OF assms(1) [unfolded update_def] assms(2-4)] by (auto simp: CATALOG_ATTEMPTS_def)
  show ?thesis using w k unfolding cut [OF k] by (intro exI [of _ k] conjI exI [of _ doc])
qed

text \<open>C10: 
  No change of the ingester is lost: as long as nothing is written between the comparison and the replacement, a change of the
  manager was computed from the very content it replaced, whatever the ingester wrote up to then, in one of at most three attempts.
\<close>

theorem no_update_lost:
  assumes "update C change rules host d = (Inr w, d')" "wr_changed w" "\<forall>a b. content_revision C a = content_revision C b \<longrightarrow> a = b"
    "cl_load C [] = Inr PNone" "\<forall>k. io_late (host k) = id"
  shows "\<exists>k < 3. \<exists>doc. let before = io_late (host k) (others_wrote (map host [0..<Suc k]) (cd_file d))
     in change (document_of C before) = Inr doc \<and> cd_file d' = Bytes (cl_dump C doc) \<and> cat_bytes before = wr_before w"
  using update_written [OF assms(1-4)] assms(5) by (simp add: Let_def)

lemma attempts_quiet:
  assumes "attempts C change rules (io # ios) d = (r, d')" "io_first io = id" "io_second io = id" "io_late io = id"
  shows "case r of
      Inl _ \<Rightarrow> cd_file d' = cd_file d
    | Inr w \<Rightarrow> if wr_changed w then wr_before w = cat_bytes (cd_file d) \<and> wr_existed w = (cd_file d \<noteq> Gone) \<and> wr_after w = snapshot C d'
        \<and> (\<nexists>e. cd_file d = Locked e) \<and> cd_dir d' \<and> (\<exists>b. cd_file d' = Bytes b)
      else d' = d"
  using assms(1)
proof (cases rule: attempts_cases)
  case (failed e doc e')
  then show ?thesis using swap_Inl [OF failed(3) assms(2-4)] by simp
next
  case (swapped w doc)
  then show ?thesis using swap_True [OF swapped(6)] by simp
next
  case (again doc d1)
  then show ?thesis using swap_False [OF again(1)] assms(2-4) by auto
qed auto

text \<open>C25: 
  A write can be undone: after a change on a host where nobody else writes, whether it changed the file, created it or found it as
  it should be, \<open>restore\<close> succeeds and leaves the file as it was; and a change that is refused leaves it as it was to begin with.
\<close>

theorem restore_undoes_update:
  assumes "update C change rules host d = (r, d')"
    "\<forall>k. io_first (host k) = id \<and> io_second (host k) = id \<and> io_late (host k) = id"
    "io_first io = id" "io_second io = id" "io_late io = id" "io_stage_fails io = None" "io_replace_fails io = None"
  shows "case r of Inl _ \<Rightarrow> cd_file d' = cd_file d | Inr w \<Rightarrow> fst (restore C io w d') \<and> cd_file (snd (restore C io w d')) = cd_file d"
proof -
  have "attempts C change rules (host 0 # map host [1..<CATALOG_ATTEMPTS]) d = (r, d')"
    using assms(1) by (simp add: update_def CATALOG_ATTEMPTS_def upt_conv_Cons)
  note quiet = attempts_quiet [OF this]
  show ?thesis
  proof (cases r)
    case (Inl e)
    then show ?thesis using quiet assms(2) by simp
  next
    case (Inr w)
    show ?thesis
    proof (cases "wr_changed w")
      case True
      then obtain b where "wr_before w = cat_bytes (cd_file d)" "wr_existed w = (cd_file d \<noteq> Gone)" "wr_after w = snapshot C d'"
        "\<nexists>e. cd_file d = Locked e" "cd_file d' = Bytes b"
        using quiet Inr assms(2) by auto
      then show ?thesis
        using True Inr assms(3-7) by (cases "cd_file d") (auto simp: restore_def swap_def Let_def cat_bytes_def)
    next
      case False
      then show ?thesis using quiet Inr assms(2) by (simp add: restore_def)
    qed
  qed
qed

definition quiet_plan :: io_plan where
  "quiet_plan = \<lparr>io_first = id, io_second = id, io_late = id, io_stage_fails = None, io_backup_fails = False, io_replace_fails = None\<rparr>"

definition demo_cat_disk :: cat_disk where
  "demo_cat_disk = \<lparr>cd_dir = True, cd_access = True, cd_file = Bytes ''x'', cd_bak = None, cd_tmp = None\<rparr>"

text \<open>A host on which the revision of a content is the content, and the ingester saves once, before the first comparison.\<close>

definition plain_cat_lib :: catalog_lib where
  "plain_cat_lib = demo_catalog_lib\<lparr>cl_sha := (\<lambda>s. s)\<rparr>"

definition busy_host :: "nat \<Rightarrow> io_plan" where
  "busy_host k = (if k = 0 then quiet_plan\<lparr>io_first := (\<lambda>_. Bytes ''y'')\<rparr> else quiet_plan)"

lemma no_update_lost_witness:
  "fst (update plain_cat_lib (remove_change plain_cat_lib ''y'' None) None busy_host demo_cat_disk) = Inl (gone_error plain_cat_lib ''y'')
    \<and> (\<exists>k < 3. \<exists>doc. let before = io_late (busy_host k) (others_wrote (map busy_host [0..<Suc k]) (Bytes ''x''))
     in upsert_change [(''id'', PStr ''new'')] ''new'' (document_of plain_cat_lib before) = Inr doc \<and> cat_bytes before = ''y'')"
proof -
  have gone: "fst (update plain_cat_lib (remove_change plain_cat_lib ''y'' None) None busy_host demo_cat_disk) = Inl (gone_error plain_cat_lib ''y'')"
    by code_simp
  define res where "res = update plain_cat_lib (upsert_change [(''id'', PStr ''new'')] ''new'') None busy_host demo_cat_disk"
  have "(case fst res of Inr w \<Rightarrow> wr_changed w \<and> wr_before w = ''y'' | Inl _ \<Rightarrow> False)" unfolding res_def by code_simp
  then obtain w d' where u: "update plain_cat_lib (upsert_change [(''id'', PStr ''new'')] ''new'') None busy_host demo_cat_disk = (Inr w, d')"
    and w: "wr_changed w" "wr_before w = ''y''"
    unfolding res_def by (cases "update plain_cat_lib (upsert_change [(''id'', PStr ''new'')] ''new'') None busy_host demo_cat_disk") (auto split: sum.splits)
  have inj: "\<forall>a b. content_revision plain_cat_lib a = content_revision plain_cat_lib b \<longrightarrow> a = b" by (auto simp: content_revision_def plain_cat_lib_def)
  have load: "cl_load plain_cat_lib [] = Inr PNone" by (simp add: plain_cat_lib_def demo_catalog_lib_def)
  have late: "\<forall>k. io_late (busy_host k) = id" by (simp add: busy_host_def quiet_plan_def)
  have f: "cd_file demo_cat_disk = Bytes ''x''" by (simp add: demo_cat_disk_def)
  show ?thesis using no_update_lost [OF u w(1) inj load late] gone unfolding f w(2) Let_def by blast
qed

lemma restore_undoes_update_witness:
  "(case update plain_cat_lib (upsert_change [(''id'', PStr ''new'')] ''new'') None (\<lambda>_. quiet_plan) demo_cat_disk of
      (Inl _, d') \<Rightarrow> cd_file d' = Bytes ''x''
    | (Inr w, d') \<Rightarrow> fst (restore plain_cat_lib quiet_plan w d') \<and> cd_file (snd (restore plain_cat_lib quiet_plan w d')) = Bytes ''x'')"
proof -
  obtain r d' where u: "update plain_cat_lib (upsert_change [(''id'', PStr ''new'')] ''new'') None (\<lambda>_. quiet_plan) demo_cat_disk = (r, d')" by fastforce
  have q: "\<forall>k::nat. io_first ((\<lambda>_. quiet_plan) k) = id \<and> io_second ((\<lambda>_. quiet_plan) k) = id \<and> io_late ((\<lambda>_. quiet_plan) k) = id"
    "io_first quiet_plan = id" "io_second quiet_plan = id" "io_late quiet_plan = id" "io_stage_fails quiet_plan = None"
    "io_replace_fails quiet_plan = None" by (simp_all add: quiet_plan_def)
  have f: "cd_file demo_cat_disk = Bytes ''x''" by (simp add: demo_cat_disk_def)
  show ?thesis using restore_undoes_update [OF u q] unfolding u f by (auto split: sum.splits)
qed

text \<open>
  The comparison and the replacement are two steps: what the ingester writes between them is replaced although the comparison
  succeeded, and only the older content is kept as a backup.
\<close>

lemma late_write_lost:
  "let io = quiet_plan\<lparr>io_late := (\<lambda>_. Bytes ''late'')\<rparr>; (r, d) = swap plain_cat_lib io ''x'' True ''x'' ''mine'' demo_cat_disk
   in r = Inr True \<and> cd_file d = Bytes ''mine'' \<and> cd_bak d = Some ''x''"
  by code_simp

section \<open>Changes of one entry\<close>

definition entries :: "(string, pyval) dict \<Rightarrow> pyval list" where
  "entries document = (case get_none document ''jobs'' of PList xs \<Rightarrow> xs | _ \<Rightarrow> [])"

definition other_entries :: "string \<Rightarrow> (string, pyval) dict \<Rightarrow> pyval list" where
  "other_entries job_id document = filter (\<lambda>v. \<not> has_id job_id v) (entries document)"

text \<open>The contract of a change of one entry: the others stay, in their order, and so does the rest of the document.\<close>

locale entry_change =
  fixes change :: catalog_change and job_id :: string
  assumes keeps_entries: "change doc = Inr doc' \<Longrightarrow> other_entries job_id doc' = other_entries job_id doc"
    and keeps_keys: "change doc = Inr doc' \<Longrightarrow> k \<noteq> ''jobs'' \<Longrightarrow> dict_get doc' k = dict_get doc k"
begin

lemma update_keeps:
  assumes "update C change rules host d = (Inr w, d')" "wr_changed w" "\<forall>a b. content_revision C a = content_revision C b \<longrightarrow> a = b"
    "cl_load C [] = Inr PNone"
  shows "\<exists>k < 3. \<exists>doc. let before = others_wrote (map host [0..<Suc k]) (cd_file d)
    in cat_bytes before = wr_before w \<and> cd_file d' = Bytes (cl_dump C doc)
      \<and> other_entries job_id doc = other_entries job_id (document_of C before)
      \<and> (\<forall>key. key \<noteq> ''jobs'' \<longrightarrow> dict_get doc key = dict_get (document_of C before) key)"
proof -
  obtain k doc where k: "k < 3" and w: "change (document_of C (others_wrote (map host [0..<Suc k]) (cd_file d))) = Inr doc"
    "cd_file d' = Bytes (cl_dump C doc)" "cat_bytes (others_wrote (map host [0..<Suc k]) (cd_file d)) = wr_before w"
    using update_written [OF assms] by (auto simp: Let_def)
  show ?thesis using k w keeps_entries keeps_keys unfolding Let_def by (intro exI [of _ k] exI [of _ doc]) blast
qed

end

lemma position_Some: "first_position p xs = Some i \<Longrightarrow> i < length xs \<and> p (xs ! i)"
  by (induction xs arbitrary: i) (auto split: if_splits)

lemma position_filter:
  assumes "first_position p xs = Some i"
  shows "p y \<Longrightarrow> filter (\<lambda>v. \<not> p v) (xs[i := y]) = filter (\<lambda>v. \<not> p v) xs"
    "filter (\<lambda>v. \<not> p v) (take i xs @ drop (Suc i) xs) = filter (\<lambda>v. \<not> p v) xs"
proof -
  have i: "i < length xs" "p (xs ! i)" using position_Some [OF assms] by auto
  note parts = id_take_nth_drop [OF i(1)]
  have f: "filter (\<lambda>v. \<not> p v) xs = filter (\<lambda>v. \<not> p v) (take i xs) @ filter (\<lambda>v. \<not> p v) (drop (Suc i) xs)"
    by (subst parts) (simp add: i(2))
  show "filter (\<lambda>v. \<not> p v) (take i xs @ drop (Suc i) xs) = filter (\<lambda>v. \<not> p v) xs" using f by simp
  show "p y \<Longrightarrow> filter (\<lambda>v. \<not> p v) (xs[i := y]) = filter (\<lambda>v. \<not> p v) xs"
    using f i(1) by (simp add: upd_conv_take_nth_drop)
qed

lemma entry_change_lists:
  assumes "\<And>doc. change doc = with_jobs doc f"
    "\<And>jobs jobs'. f jobs = Inr jobs' \<Longrightarrow> filter (\<lambda>v. \<not> has_id job_id v) jobs' = filter (\<lambda>v. \<not> has_id job_id v) jobs"
  shows "entry_change change job_id"
proof
  fix doc doc' k
  assume c: "change doc = Inr doc'"
  show "other_entries job_id doc' = other_entries job_id doc"
    using c assms by (auto simp: with_jobs_def other_entries_def entries_def rbind_eq_Inr get_or_def split: pyval.splits)
  assume "k \<noteq> ''jobs''"
  then show "dict_get doc' k = dict_get doc k" using c assms(1) by (auto simp: with_jobs_def rbind_eq_Inr split: pyval.splits)
qed

lemma has_id_switched: "has_id i v \<Longrightarrow> has_id i (PDict (if b then dict_del (as_mapping v) ''enabled'' else dict_set (as_mapping v) ''enabled'' (PBool False)))"
  by (auto simp: has_id_def as_mapping_def get_or_def split: pyval.splits)

interpretation removal: entry_change "remove_change C job_id etag" job_id for C job_id etag
  by (rule entry_change_lists [OF remove_change_def])
    (auto simp: job_index_def position_filter(2) simp del: filter_append split: option.splits)

interpretation switch: entry_change "enabled_change C job_id enabled" job_id for C job_id enabled
proof (rule entry_change_lists [OF enabled_change_def])
  fix jobs jobs'
  assume *: "(case job_index jobs job_id of None \<Rightarrow> Inl (gone_error C job_id) | Some i \<Rightarrow> let job = as_mapping (jobs ! i)
      in Inr (jobs[i := PDict (if enabled then dict_del job ''enabled'' else dict_set job ''enabled'' (PBool False))])) = Inr jobs'"
  then obtain i where i: "first_position (has_id job_id) jobs = Some i" by (auto simp: job_index_def split: option.splits)
  have p: "has_id job_id (jobs ! i)" using position_Some [OF i] by blast
  have "jobs' = jobs[i := PDict (if enabled then dict_del (as_mapping (jobs ! i)) ''enabled''
      else dict_set (as_mapping (jobs ! i)) ''enabled'' (PBool False))]"
    using * i by (simp add: job_index_def Let_def)
  then show "filter (\<lambda>v. \<not> has_id job_id v) jobs' = filter (\<lambda>v. \<not> has_id job_id v) jobs"
    using position_filter(1) [where p = "has_id job_id", OF i] has_id_switched [OF p] by (simp only:)
qed

lemma upsert_entry: "get_none job ''id'' = PStr job_id \<Longrightarrow> entry_change (upsert_change job job_id) job_id"
  by (rule entry_change_lists [OF upsert_change_def])
    (auto simp: job_index_def has_id_def [of job_id "PDict job"] intro!: position_filter(1) split: option.splits)

lemma put_one_entry: "get_none job ''id'' = PStr job_id \<Longrightarrow> entry_change (put_change C job job_id create etag) job_id"
  by (rule entry_change_lists [OF put_change_def])
    (auto simp: job_index_def has_id_def [of job_id "PDict job"] intro!: position_filter(1) split: option.splits if_splits)

text \<open>C19: 
  Every write of one job leaves the jobs of everybody else as they are: what creating, replacing, removing, enabling or disabling a job
  writes has every other entry, in its order, and every other key of the document, as they were in the content that the last
  comparison found, with all that the ingester had written up to then. (What it writes between that comparison and the
  replacement is replaced; revisions are taken to tell contents apart, and the empty text to be the empty document.)
\<close>

theorem entry_writes_keep_others:
  assumes "res \<in> {upsert C job rules host d, put_job C job create etag rules host d, remove_job C job_id etag host d,
      set_enabled C job_id enabled rules host d}" "res = (Inr w, d')" "wr_changed w"
    "get_none job ''id'' = PStr job_id" "\<forall>a b. content_revision C a = content_revision C b \<longrightarrow> a = b"
    "cl_load C [] = Inr PNone"
  shows "\<exists>k < 3. \<exists>doc. let before = others_wrote (map host [0..<Suc k]) (cd_file d)
    in cat_bytes before = wr_before w \<and> cd_file d' = Bytes (cl_dump C doc)
      \<and> other_entries job_id doc = other_entries job_id (document_of C before)
      \<and> (\<forall>key. key \<noteq> ''jobs'' \<longrightarrow> dict_get doc key = dict_get (document_of C before) key)"
proof -
  have i: "job_id_of job = job_id" using assms(4) by (simp add: job_id_of_def py_str_of_def)
  note rest = assms(3,5,6)
  consider "update C (upsert_change job job_id) rules host d = (Inr w, d')"
    | "update C (put_change C job job_id create etag) rules host d = (Inr w, d')"
    | "update C (remove_change C job_id etag) None host d = (Inr w, d')"
    | "update C (enabled_change C job_id enabled) rules host d = (Inr w, d')"
    using assms(1,2) by (auto simp: upsert_def put_job_def remove_job_def set_enabled_def i)
  then show ?thesis
  proof cases
    case 1
    then show ?thesis by (rule entry_change.update_keeps [OF upsert_entry [OF assms(4)]]) (rule rest)+
  next
    case 2
    then show ?thesis by (rule entry_change.update_keeps [OF put_one_entry [OF assms(4)]]) (rule rest)+
  next
    case 3
    then show ?thesis by (rule removal.update_keeps) (rule rest)+
  next
    case 4
    then show ?thesis by (rule switch.update_keeps) (rule rest)+
  qed
qed

text \<open>A catalogue written as the ids of its jobs; the ingester saves before the first comparison and after the second.\<close>

definition word_cat_lib :: catalog_lib where
  "word_cat_lib = plain_cat_lib\<lparr>
     cl_load := (\<lambda>t. if t = [] then Inr PNone
       else Inr (PDict [(''version'', PInt 1), (''jobs'', PList (map (\<lambda>w. PDict [(''id'', PStr w)]) (split_char (CHR '' '') t)))])),
     cl_dump := (\<lambda>d. join '' '' (map (\<lambda>j. py_str_of (get_none (as_mapping j) ''id'')) (entries d)))\<rparr>"

definition word_host :: "nat \<Rightarrow> io_plan" where
  "word_host k = (if k = 0 then quiet_plan\<lparr>io_first := (\<lambda>_. Bytes ''y z'')\<rparr> else quiet_plan\<lparr>io_late := (\<lambda>_. Bytes ''late'')\<rparr>)"

lemma entry_writes_keep_others_witness:
  "\<exists>doc. join '' '' (map (\<lambda>j. py_str_of (get_none (as_mapping j) ''id'')) (entries doc)) = ''y z new''
    \<and> other_entries ''new'' doc = [PDict [(''id'', PStr ''y'')], PDict [(''id'', PStr ''z'')]] \<and> dict_get doc ''version'' = Some (PInt 1)"
proof -
  define res where "res = upsert word_cat_lib [(''id'', PStr ''new'')] None word_host demo_cat_disk"
  have "(case res of (Inr w, d') \<Rightarrow> wr_changed w \<and> wr_before w = ''y z'' \<and> cd_file d' = Bytes ''y z new'' | _ \<Rightarrow> False)"
    unfolding res_def by code_simp
  then obtain w d' where u: "res = (Inr w, d')" "wr_changed w" and w: "wr_before w = ''y z''" "cd_file d' = Bytes ''y z new''"
    by (cases res) (auto split: sum.splits)
  have mem: "res \<in> {upsert word_cat_lib [(''id'', PStr ''new'')] None word_host demo_cat_disk,
      put_job word_cat_lib [(''id'', PStr ''new'')] True None None word_host demo_cat_disk,
      remove_job word_cat_lib ''new'' None word_host demo_cat_disk, set_enabled word_cat_lib ''new'' True None word_host demo_cat_disk}"
    by (simp add: res_def)
  have j: "get_none [(''id'', PStr ''new'')] ''id'' = PStr ''new''" by (simp add: get_or_def dict_get_def)
  have inj: "\<forall>a b. content_revision word_cat_lib a = content_revision word_cat_lib b \<longrightarrow> a = b"
    by (auto simp: content_revision_def word_cat_lib_def plain_cat_lib_def)
  have load: "cl_load word_cat_lib [] = Inr PNone" by (simp add: word_cat_lib_def)
  have dump: "cl_dump word_cat_lib doc = join '' '' (map (\<lambda>j. py_str_of (get_none (as_mapping j) ''id'')) (entries doc))" for doc
    by (simp add: word_cat_lib_def)
  have before: "other_entries ''new'' (document_of word_cat_lib f) = [PDict [(''id'', PStr ''y'')], PDict [(''id'', PStr ''z'')]]
      \<and> dict_get (document_of word_cat_lib f) ''version'' = Some (PInt 1)" if "cat_bytes f = ''y z''" for f
  proof -
    have "f = Bytes ''y z''" using that by (cases f) (auto simp: cat_bytes_def)
    moreover have "other_entries ''new'' (document_of word_cat_lib (Bytes ''y z'')) = [PDict [(''id'', PStr ''y'')], PDict [(''id'', PStr ''z'')]]
      \<and> dict_get (document_of word_cat_lib (Bytes ''y z'')) ''version'' = Some (PInt 1)" by code_simp
    ultimately show ?thesis by simp
  qed
  obtain k doc where k: "cat_bytes (others_wrote (map word_host [0..<Suc k]) (cd_file demo_cat_disk)) = wr_before w"
      "cd_file d' = Bytes (cl_dump word_cat_lib doc)"
      "other_entries ''new'' doc = other_entries ''new'' (document_of word_cat_lib (others_wrote (map word_host [0..<Suc k]) (cd_file demo_cat_disk)))"
      "\<forall>key. key \<noteq> ''jobs'' \<longrightarrow> dict_get doc key
        = dict_get (document_of word_cat_lib (others_wrote (map word_host [0..<Suc k]) (cd_file demo_cat_disk))) key"
    using entry_writes_keep_others [OF mem u j inj load] unfolding Let_def by blast
  have ne: "''version'' \<noteq> ''jobs''" by simp
  have "cl_dump word_cat_lib doc = ''y z new''" using k(2) w(2) by simp
  then show ?thesis
    unfolding dump using k(3) k(4) [rule_format, OF ne] before [OF k(1) [unfolded w(1)]] by (intro exI [of _ doc]) (simp only:)
qed

lemma attempts_refused:
  assumes "cd_file d = Bytes raw" "parse_jobs C raw = (doc, None)" "change doc = Inl e"
  shows "attempts C change rules (io # ios) d = (Inl e, d)"
proof -
  have "sn_error (snapshot C d) = None" "document_of C (cd_file d) = doc"
    using assms(1,2) by (simp_all add: snapshot_def document_of_def Let_def)
  then show ?thesis using assms(3) by (simp add: Let_def)
qed

text \<open>
  Nobody overwrites what they have not seen: creating a job under an id that exists, and replacing an entry that is no longer the
  one that was opened, is answered with a conflict and touches nothing.
\<close>

theorem conflicting_edit_refused:
  assumes "cd_file d = Bytes raw" "parse_jobs C raw = (doc, None)" "job_index (entries doc) (job_id_of job) = Some i"
    "create \<or> (\<exists>t. etag = Some t \<and> t \<noteq> entry_etag C (as_mapping (entries doc ! i)))"
  shows "\<exists>message. put_job C job create etag rules host d = (Inl (CatalogConflict message), d)"
proof -
  obtain jobs where jobs: "get_none doc ''jobs'' = PList jobs" "entries doc = jobs"
    using assms(3) by (auto simp: entries_def job_index_def split: pyval.splits)
  obtain message where "put_change C job (job_id_of job) create etag doc = Inl (CatalogConflict message)"
    using assms(3,4) jobs by (cases create) (auto simp: put_change_def with_jobs_def check_etag_def)
  then show ?thesis
    using attempts_refused [OF assms(1,2)] unfolding put_job_def update_def CATALOG_ATTEMPTS_def by (simp add: upt_rec)
qed

lemma conflicting_edit_refused_witness:
  "\<exists>message. put_job demo_catalog_lib [(''id'', PStr ''x'')] True None None (\<lambda>_. quiet_plan) demo_cat_disk = (Inl (CatalogConflict message), demo_cat_disk)"
proof -
  let ?doc = "[(''version'', PInt 1), (''jobs'', PList [PDict [(''id'', PStr ''x'')]])]"
  have f: "cd_file demo_cat_disk = Bytes ''x''" by (simp add: demo_cat_disk_def)
  have p: "parse_jobs demo_catalog_lib ''x'' = (?doc, None)" by code_simp
  have i: "job_index (entries ?doc) (job_id_of [(''id'', PStr ''x'')]) = Some 0" by code_simp
  show ?thesis by (rule conflicting_edit_refused [OF f p i disjI1 [OF TrueI]])
qed

section \<open>The rules before a run\<close>

text \<open>
  A managed job that has no problems fits the catalogue: every other enabled job that writes to the same collection uses the same
  connection, embeds with the same model where both name one, and has another label.
\<close>

theorem no_problems_fits:
  assumes "catalog_problems C document job_id names = []"
    "first_position (\<lambda>job. get_none job ''id'' = PStr job_id) (jobs_of document) = Some at" "i < length (jobs_of document)" "i \<noteq> at"
    "job_enabled (jobs_of document ! i)" "collection_of (jobs_of document ! i) = collection_of (jobs_of document ! at)"
  shows "connection_of (jobs_of document ! i) = connection_of (jobs_of document ! at)
    \<and> (model_of document (jobs_of document ! i) = None \<or> model_of document (jobs_of document ! at) = None
       \<or> model_of document (jobs_of document ! i) = model_of document (jobs_of document ! at))
    \<and> (label_of (jobs_of document ! at) = None \<or> label_of (jobs_of document ! i) \<noteq> label_of (jobs_of document ! at))"
proof -
  let ?jobs = "jobs_of document"
  have "(i, ?jobs ! i) \<in> set (enumerate 0 ?jobs)" using assms(3) by (simp add: in_set_enumerate_eq)
  moreover have "\<forall>(j, other) \<in> set (enumerate 0 ?jobs).
      (if j = at \<or> \<not> job_enabled other \<or> collection_of other \<noteq> collection_of (?jobs ! at) then []
       else clash_with C document (?jobs ! at) other) = []"
    using assms(1,2) by (auto simp: catalog_problems_def Let_def)
  ultimately have "clash_with C document (?jobs ! at) (?jobs ! i) = []" using assms(4-6) by fastforce
  then show ?thesis by (auto simp: clash_with_def Let_def split: if_splits)
qed

definition demo_jobs :: "(string, pyval) dict" where
  "demo_jobs = [(''version'', PInt 1), (''jobs'', PList
     [PDict [(''id'', PStr ''a''), (''source'', PDict [(''label'', PStr ''one'')]),
        (''target'', PDict [(''collection'', PStr ''docs''), (''connection'', PStr ''main'')])],
      PDict [(''id'', PStr ''b''), (''source'', PDict [(''label'', PStr ''two'')]),
        (''target'', PDict [(''collection'', PStr ''docs''), (''connection'', PStr ''main'')])]])]"

lemma no_problems_fits_witness:
  "catalog_problems demo_catalog_lib demo_jobs ''a'' (Some [''main'']) = [] \<and> connection_of (jobs_of demo_jobs ! 1) = connection_of (jobs_of demo_jobs ! 0)"
proof -
  have a: "catalog_problems demo_catalog_lib demo_jobs ''a'' (Some [''main'']) = []" by code_simp
  have b: "first_position (\<lambda>job. get_none job ''id'' = PStr ''a'') (jobs_of demo_jobs) = Some 0" by code_simp
  have c: "1 < length (jobs_of demo_jobs)" "job_enabled (jobs_of demo_jobs ! 1)"
    "collection_of (jobs_of demo_jobs ! 1) = collection_of (jobs_of demo_jobs ! 0)" by code_simp+
  show ?thesis using no_problems_fits [OF a b c(1) _ c(2,3)] a by simp
qed

end
