(* ===== verification/Upgrade_Log.thy ===== *)
theory Upgrade_Log
  imports Ctl
begin

text \<open>
  What the upgrade page reads (\<open>core/upgrade.py\<close>, the part without processes): version numbers and release tags, the core's
  machine-readable answers (the resolved target, the migrations, the add-on gate), the log of past upgrades, and the output of
  the upgrade runner, from which the phases, the provisioning problems, the progress of the nodes and the way back are read.
  JSON is a parameter. Regular expressions are written out for code points below 128.
\<close>

section \<open>Versions\<close>

record version_state =
  vs_recorded :: string
  vs_checkout :: string

definition vs_current :: "version_state \<Rightarrow> string" where
  "vs_current v = (if vs_recorded v \<noteq> [] then vs_recorded v else vs_checkout v)"

definition vs_mismatch :: "version_state \<Rightarrow> bool" where
  "vs_mismatch v \<longleftrightarrow> vs_recorded v \<noteq> [] \<and> vs_checkout v \<noteq> [] \<and> vs_recorded v \<noteq> vs_checkout v"

definition repo_path :: "string \<Rightarrow> string" where
  "repo_path workspace_dir = path_join workspace_dir ''papaia''"

text \<open>A file that cannot be decoded is a \<open>ValueError\<close>, and so caught; a YAML error and a document that is no mapping are not.\<close>

definition current_version :: "yaml \<Rightarrow> fs \<Rightarrow> string \<Rightarrow> string \<Rightarrow> py_exn + version_state" where
  "current_version load files config_dir workspace_dir =
     (let recorded = (case rbind (load_deployment_yaml load files config_dir) (\<lambda>d. py_get d ''platform_version'') of
            Inr raw \<Rightarrow> Inr (if truthy raw then py_strip (py_str_of raw) else [])
          | Inl e \<Rightarrow> if e \<in> {OSError, ValueError, UnicodeDecodeError} then Inr [] else Inl e);
          checkout = (case read_text files (path_join (repo_path workspace_dir) ''VERSION'') of
            Inr t \<Rightarrow> Inr (py_strip t)
          | Inl e \<Rightarrow> if e = OSError then Inr [] else Inl e)
      in rbind recorded (\<lambda>r. rbind checkout (\<lambda>c. Inr \<lparr>vs_recorded = r, vs_checkout = c\<rparr>)))"

definition is_tag :: "string \<Rightarrow> bool" where
  "is_tag s \<longleftrightarrow> (case s of [] \<Rightarrow> False | c # v \<Rightarrow> c = CHR ''v'' \<and> is_valid_target_version v)"

definition release_key :: "string \<Rightarrow> nat list" where
  "release_key version = map int_of_digits (split_char (CHR ''.'') version)"

text \<open>Newest first. (Two spellings of one version, \<open>1.02.0\<close> and \<open>1.2.0\<close>, come in no fixed order in the source.)\<close>

definition parse_tags :: "string list \<Rightarrow> string list" where
  "parse_tags lines = rev (sort_key release_key (remdups (map (\<lambda>l. tl (py_strip l)) (filter (\<lambda>l. is_tag (py_strip l)) lines))))"

definition newer_than :: "string list \<Rightarrow> string \<Rightarrow> string list" where
  "newer_than versions current =
     (if \<not> is_valid_target_version current then versions
      else filter (\<lambda>v. release_key v > release_key current) versions)"

section \<open>SSH remotes\<close>

definition is_word_char :: "char \<Rightarrow> bool" where
  "is_word_char c \<longleftrightarrow> is_lower c \<or> is_upper c \<or> is_digit c \<or> c = CHR ''_'' \<or> c = CHR ''.'' \<or> c = CHR ''-''"

definition no_space :: "string \<Rightarrow> bool" where
  "no_space s \<longleftrightarrow> s \<noteq> [] \<and> list_all (\<lambda>c. \<not> is_space c) s"

text \<open>\<open>user@host:path\<close>: the user and the host hold neither \<open>@\<close> nor \<open>:\<close>, so each ends at the first one.\<close>

definition scp_url :: "string \<Rightarrow> (string \<times> string) option" where
  "scp_url s =
     (case partition_char (CHR ''@'') s of (user, at, rest) \<Rightarrow>
        (case partition_char (CHR '':'') rest of (host, colon, path) \<Rightarrow>
           if at \<and> colon \<and> user \<noteq> [] \<and> list_all is_word_char user \<and> host \<noteq> [] \<and> list_all is_word_char host
              \<and> \<not> startswith path ''//'' \<and> no_space path
           then Some (host, path) else None))"

text \<open>
  \<open>ssh://[user@]host[:port]/path\<close>: the user, host and port come before the first slash. A user may hold a colon, a host may not hold
  \<open>@\<close>; without an \<open>@\<close> before the slash there is no user.
\<close>

definition ssh_url :: "string \<Rightarrow> (string \<times> string) option" where
  "ssh_url s =
     (if \<not> startswith s ''ssh://'' then None
      else case partition_char (CHR ''/'') (drop 6 s) of (before, slash, path) \<Rightarrow>
        (case partition_char (CHR ''@'') before of (user, at, rest) \<Rightarrow>
           (let hostport = (if at then rest else before)
            in case partition_char (CHR '':'') hostport of (host, colon, pnum) \<Rightarrow>
                 if slash \<and> (at \<longrightarrow> no_space user) \<and> host \<noteq> [] \<and> list_all is_word_char host
                    \<and> (colon \<longrightarrow> str_isdigit pnum) \<and> no_space path
                 then Some (host, path) else None)))"

definition https_equivalent :: "string \<Rightarrow> string option" where
  "https_equivalent url =
     (let t = py_strip url
      in case (case scp_url t of Some m \<Rightarrow> Some m | None \<Rightarrow> ssh_url t) of
           None \<Rightarrow> None
         | Some (host, path) \<Rightarrow> Some (''https://'' @ host @ ''/'' @ lstrip_char (CHR ''/'') path))"

definition PERMISSION_MARKS :: "string list" where
  "PERMISSION_MARKS = [''fetch_head'', ''read-only file system'', ''insufficient permission'', ''permission denied'']"

definition NETWORK_MARKS :: "string list" where
  "NETWORK_MARKS = [''could not resolve host'', ''timed out'', ''failed to connect'', ''connection refused'', ''network is unreachable'']"

definition SSH_MARKS :: "string list" where
  "SSH_MARKS = [''publickey'', ''host key verification'', ''cannot run ssh'']"

definition hint_kind :: "string \<Rightarrow> string option \<Rightarrow> string" where
  "hint_kind low https =
     (if list_ex (contains low) SSH_MARKS then ''ssh''
      else if list_ex (contains low) PERMISSION_MARKS then ''permissions''
      else if list_ex (contains low) NETWORK_MARKS then ''network''
      else if https \<noteq> None then ''ssh'' else ''other'')"

text \<open>\<open>urlsplit(...).hostname\<close> is the parameter \<open>host_of\<close>.\<close>

definition fetch_hint ::
  "i18n \<Rightarrow> (string \<Rightarrow> string option) \<Rightarrow> string \<Rightarrow> string \<Rightarrow> string \<Rightarrow> int \<Rightarrow> int \<Rightarrow> string" where
  "fetch_hint I host_of error repo origin uid gid =
     (if error = [] then []
      else let https = https_equivalent origin;
               kind = hint_kind (py_lower error) https;
               host_fetch = ''git -C '' @ repo @ '' fetch --tags origin'';
               hint_note = ''# on the host, as the owner of the checkout; then press Refresh'';
               ends = [[], host_fetch @ ''   '' @ hint_note];
               lines = (if kind = ''ssh'' then
                    (case https of
                       Some u \<Rightarrow>
                         [tr I ''origin is an SSH URL and the manager container has no SSH key, so it fetched over HTTPS instead; that needs a repository readable without credentials.'' []]
                         @ ends @ [[], ''# optional: let the manager fetch on its own without going through the fallback'',
                           ''git -C '' @ repo @ '' remote set-url origin '' @ u]
                     | None \<Rightarrow> [tr I ''origin is an SSH URL and the manager container has no SSH key.'' []] @ ends)
                  else if kind = ''permissions'' then
                    [tr I (''The manager cannot write to the checkout'' @ [CHR 0x27] @ ''s .git directory.'') [], [],
                     ''chown -R '' @ str_of_int uid @ '':'' @ str_of_int gid @ '' '' @ repo
                       @ ''/.git   # as root on the host; that is the manager'' @ [CHR 0x27] @ ''s user''] @ ends
                  else if kind = ''network'' then
                    (let host = (case host_of (case https of Some (c # u) \<Rightarrow> c # u | _ \<Rightarrow> origin) of
                           Some (c # h) \<Rightarrow> c # h | _ \<Rightarrow> tr I ''the remote'' [])
                     in [tr I ''The manager container cannot reach %(host)s. Allow outbound HTTPS (port 443) to it.'' [(''host'', host)]] @ ends)
                  else [tr I ''The fetch failed for a reason the manager does not recognise.'' []] @ ends)
           in join [LF] lines)"

section \<open>Answers of the core\<close>

definition drop_cr :: "string \<Rightarrow> string" where
  "drop_cr s = filter (\<lambda>c. c \<noteq> CR) s"

definition parse_resolve_tsv :: "string \<Rightarrow> (string, string) dict" where
  "parse_resolve_tsv t =
     foldl (\<lambda>out line. case partition_char TAB line of (key, _, v) \<Rightarrow>
         if key \<in> {''CURRENT'', ''TARGET'', ''TAG'', ''STATUS''} \<and> v \<noteq> [] then dict_set out key v else out)
       [] (splitlines (drop_cr t))"

record migration =
  mg_id :: string
  mg_version :: string
  mg_kind :: string

definition plan_row :: "string \<Rightarrow> migration option" where
  "plan_row line =
     (let parts = split_char TAB line
      in if length parts \<ge> 5 \<and> parts ! 0 = ''MIGRATION''
         then Some \<lparr>mg_id = parts ! 1, mg_version = parts ! 2, mg_kind = parts ! 4\<rparr> else None)"

definition parse_plan_tsv :: "string \<Rightarrow> migration list" where
  "parse_plan_tsv t = List.map_filter plan_row (splitlines (drop_cr t))"

record gate_result =
  gr_name :: string
  gr_status :: string
  gr_axis :: string
  gr_requirement :: string
  gr_core_value :: string
  gr_reason :: string

record gate =
  ga_passed :: bool
  ga_results :: "gate_result list"

definition ga_blocking :: "gate \<Rightarrow> gate_result list" where
  "ga_blocking g = filter (\<lambda>r. gr_status r \<in> {''INCOMPATIBLE'', ''ERROR''}) (ga_results g)"

definition ga_has_error :: "gate \<Rightarrow> bool" where
  "ga_has_error g \<longleftrightarrow> list_ex (\<lambda>r. gr_status r = ''ERROR'') (ga_results g)"

definition ga_forceable :: "gate \<Rightarrow> bool" where
  "ga_forceable g \<longleftrightarrow> \<not> ga_passed g \<and> \<not> ga_has_error g"

definition gate_fmt :: "pyval \<Rightarrow> string" where
  "gate_fmt v = (case v of PNone \<Rightarrow> [] | PList xs \<Rightarrow> join '','' (map py_str_of xs) | _ \<Rightarrow> py_str_of v)"

definition gate_text :: "(string, pyval) dict \<Rightarrow> string \<Rightarrow> string \<Rightarrow> string" where
  "gate_text d k otherwise = py_str_of (py_or (get_none d k) (PStr otherwise))"

definition gate_entry :: "(string, pyval) dict \<Rightarrow> gate_result" where
  "gate_entry e = \<lparr>gr_name = gate_text e ''name'' ''?'', gr_status = gate_text e ''status'' ''UNKNOWN'', gr_axis = gate_text e ''axis'' [],
     gr_requirement = gate_fmt (get_none e ''requirement''), gr_core_value = gate_fmt (get_none e ''core_value''),
     gr_reason = gate_text e ''reason'' []\<rparr>"

definition parse_gate_json :: "i18n \<Rightarrow> (string \<Rightarrow> string + pyval) \<Rightarrow> string \<Rightarrow> int \<Rightarrow> string + gate" where
  "parse_gate_json I json t exit_code =
     (case (if py_strip t = [] then Inr (PList []) else json t) of
        Inl exc \<Rightarrow> Inl (tr I ''could not read the add-on compatibility report: %(exc)s'' [(''exc'', exc)])
      | Inr (PList raw) \<Rightarrow>
          Inr \<lparr>ga_passed = (exit_code = 0),
            ga_results = List.map_filter (\<lambda>v. case v of PDict e \<Rightarrow> Some (gate_entry e) | _ \<Rightarrow> None) raw\<rparr>
      | Inr _ \<Rightarrow> Inl (tr I ''the add-on compatibility report is not a list'' []))"

section \<open>The log of upgrades\<close>

record log_entry =
  le_at :: string
  le_from :: string
  le_to :: string
  le_result :: string
  le_details :: "(string, string) dict"

definition le_stage :: "log_entry \<Rightarrow> string" where
  "le_stage e = (case dict_get (le_details e) ''stage'' of Some s \<Rightarrow> s | None \<Rightarrow> [])"

definition le_restore_point :: "log_entry \<Rightarrow> string" where
  "le_restore_point e = (case dict_get (le_details e) ''restore_point'' of Some p \<Rightarrow> if p = ''none'' then [] else p | None \<Rightarrow> [])"

text \<open>The value after a prefix, when there is one.\<close>

definition after_prefix :: "string \<Rightarrow> string \<Rightarrow> string option" where
  "after_prefix p w = (if startswith w p \<and> length p < length w then Some (drop (length p) w) else None)"

definition token_pairs :: "string list \<Rightarrow> (string, string) dict" where
  "token_pairs tokens =
     foldl (\<lambda>d token. case partition_char (CHR ''='') token of (k, sep, v) \<Rightarrow> if sep then dict_set d k v else d) [] tokens"

text \<open>\<open>_LOG_RE\<close> on a stripped line: its groups are the words of the line, and the rest is split into words anyway.\<close>

definition log_line :: "string \<Rightarrow> log_entry option" where
  "log_line line =
     (case split_ws line of
        ts # verb # f # t # r # rest \<Rightarrow>
          (case (after_prefix ''from='' f, after_prefix ''to='' t, after_prefix ''result='' r) of
             (Some a, Some b, Some c) \<Rightarrow>
               if verb = ''upgrade'' then Some \<lparr>le_at = ts, le_from = a, le_to = b, le_result = c, le_details = token_pairs rest\<rparr> else None
           | _ \<Rightarrow> None)
      | _ \<Rightarrow> None)"

text \<open>(A file that is not UTF-8 is read with replacement characters by the source; it is outside the code points of the model.)\<close>

definition read_upgrade_log :: "fs \<Rightarrow> string \<Rightarrow> nat \<Rightarrow> log_entry list" where
  "read_upgrade_log files config_dir limit =
     (case files (path_join config_dir ''upgrade.log'') of
        Text t \<Rightarrow> take limit (rev (List.map_filter log_line (splitlines t)))
      | _ \<Rightarrow> [])"

section \<open>The output of the runner\<close>

datatype phase_state = PHASE_DONE | PHASE_RUNNING | PHASE_PENDING | PHASE_FAILED | PHASE_SKIPPED

record phase_mark =
  pm_key :: string
  pm_prefix :: string
  pm_contains :: string
  pm_label :: string

definition phase_mark_of :: "string \<Rightarrow> string \<Rightarrow> string \<Rightarrow> string \<Rightarrow> phase_mark" where
  "phase_mark_of k p c l = \<lparr>pm_key = k, pm_prefix = p, pm_contains = c, pm_label = l\<rparr>"

definition PHASES :: "phase_mark list" where
  "PHASES =
     [phase_mark_of ''backup'' ''Creating a restore point'' [] ''Create a restore point'',
      phase_mark_of ''stop'' ''Stopping and removing the containers'' [] ''Remove the containers'',
      phase_mark_of ''checkout'' ''Moving the checkout to'' [] ''Move the checkout to the release tag'',
      phase_mark_of ''migrations'' ''Running '' ''migration'' ''Run the release migrations'',
      phase_mark_of ''render'' ''Applying '' ''configuration'' ''Apply the new configuration'',
      phase_mark_of ''start'' ''Starting the stack'' [] ''Start the stack and add-ons'']"

definition COMPLETE_MARKER :: string where "COMPLETE_MARKER = ''upgrade complete:''"
definition IMAGES_KEY :: string where "IMAGES_KEY = ''images''"
definition IMAGES_LABEL :: string where "IMAGES_LABEL = ''Remove outdated Docker images''"
definition IMAGES_START :: string where "IMAGES_START = ''Removing outdated Docker images''"
definition IMAGES_DONE :: string where "IMAGES_DONE = ''Image cleanup ''"
definition RECOVERY_MARKER :: string where "RECOVERY_MARKER = ''The checkout is on v''"
definition MIGRATIONS_NONE :: string where "MIGRATIONS_NONE = ''No migrations to run''"
definition INSTALL_ON_NODES :: string where "INSTALL_ON_NODES = ''Installing ''"
definition START_ON_NODES :: string where "START_ON_NODES = ''Starting every node''"
definition ON_EVERY_NODE :: string where "ON_EVERY_NODE = ''on every node''"

record upgrade_phase =
  ph_key :: string
  ph_label :: string
  ph_state :: phase_state
  ph_detail :: string

fun strip_mark :: "string list \<Rightarrow> string \<Rightarrow> string" where
  "strip_mark [] line = line"
| "strip_mark (p # ps) line =
     (if line = p then [] else if startswith line (p @ '' '') then drop (length p + 1) line else strip_mark ps line)"

definition strip_prefix :: "string \<Rightarrow> string" where
  "strip_prefix line = strip_mark [''[papaia-ctl]'', ''[papaia-manager]'', ''[ok]'', ''[error]'', ''[!]''] line"

definition phase_match :: "phase_mark \<Rightarrow> string \<Rightarrow> bool" where
  "phase_match m line \<longleftrightarrow>
     (if pm_key m = ''migrations'' \<and> (startswith line MIGRATIONS_NONE \<or> startswith line INSTALL_ON_NODES \<and> contains line ON_EVERY_NODE)
      then True
      else if pm_key m = ''start'' \<and> startswith line START_ON_NODES then True
      else startswith line (pm_prefix m) \<and> (pm_contains m = [] \<or> contains line (pm_contains m)))"

definition runner_lines :: "string \<Rightarrow> string list" where
  "runner_lines log = map (\<lambda>raw. strip_prefix (py_strip raw)) (splitlines log)"

text \<open>The line under a phase's key: \<open>setdefault\<close> keeps the first that matches.\<close>

definition seen_line :: "string list \<Rightarrow> phase_mark \<Rightarrow> string option" where
  "seen_line lines m = find_first (phase_match m) lines"

definition rstrip_dots :: "string \<Rightarrow> string" where
  "rstrip_dots s = rev (dropWhile (\<lambda>c. c = CHR ''.'') (rev s))"

definition phase_detail :: "i18n \<Rightarrow> string \<Rightarrow> string \<Rightarrow> string" where
  "phase_detail I key line =
     (if key = ''migrations'' \<and> startswith line MIGRATIONS_NONE then tr I ''none in this release'' []
      else if key = ''checkout'' \<and> startswith line ''Moving the checkout to ''
        then rstrip_dots (drop (length ''Moving the checkout to '') line)
      else [])"

text \<open>The index of the last phase that was announced, plus one.\<close>

fun last_seen_from :: "nat \<Rightarrow> 'a option list \<Rightarrow> nat" where
  "last_seen_from i [] = 0"
| "last_seen_from i (s # seen) = max (if s = None then 0 else Suc i) (last_seen_from (Suc i) seen)"

definition phase_state_of :: "bool \<Rightarrow> bool \<Rightarrow> nat \<Rightarrow> nat \<Rightarrow> bool \<Rightarrow> phase_state" where
  "phase_state_of complete failed last_seen index announced =
     (if complete then (if announced then PHASE_DONE else PHASE_SKIPPED)
      else if announced then (if Suc index < last_seen then PHASE_DONE else if failed then PHASE_FAILED else PHASE_RUNNING)
      else if Suc index < last_seen then PHASE_SKIPPED else PHASE_PENDING)"

definition lstrip_dashes :: "string \<Rightarrow> string" where
  "lstrip_dashes s = dropWhile (\<lambda>c. c = CHR '' '' \<or> c = CHR ''-'') s"

fun after_first :: "(string \<Rightarrow> bool) \<Rightarrow> string list \<Rightarrow> string list option" where
  "after_first p [] = None"
| "after_first p (l # ls) = (if p l then Some ls else after_first p ls)"

definition images_phase :: "i18n \<Rightarrow> string list \<Rightarrow> bool \<Rightarrow> upgrade_phase" where
  "images_phase I lines running =
     (let phase = (\<lambda>state detail. \<lparr>ph_key = IMAGES_KEY, ph_label = tr I IMAGES_LABEL [], ph_state = state, ph_detail = detail\<rparr>)
      in case after_first (\<lambda>l. startswith l IMAGES_START) lines of
           None \<Rightarrow> phase (if running then PHASE_PENDING else PHASE_SKIPPED) []
         | Some rest \<Rightarrow>
             (case find_first (\<lambda>l. startswith l IMAGES_DONE) rest of
                None \<Rightarrow> phase (if running then PHASE_RUNNING else PHASE_FAILED) []
              | Some done \<Rightarrow>
                  (let outcome = removeprefix IMAGES_DONE done
                   in if startswith outcome ''skipped'' then phase PHASE_SKIPPED (lstrip_dashes (removeprefix ''skipped'' outcome))
                      else phase PHASE_DONE (py_strip (removeprefix ''finished:'' outcome)))))"

definition phases_from_log :: "i18n \<Rightarrow> string \<Rightarrow> bool \<Rightarrow> bool \<Rightarrow> upgrade_phase list" where
  "phases_from_log I log running prune_images =
     (let lines = runner_lines log;
          seen = map (seen_line lines) PHASES;
          complete = list_ex (\<lambda>line. contains line COMPLETE_MARKER) lines;
          failed = (\<not> running \<and> \<not> complete);
          last_seen = last_seen_from 0 seen;
          phases = map (\<lambda>(index, m, s).
              \<lparr>ph_key = pm_key m, ph_label = tr I (pm_label m) [],
               ph_state = phase_state_of complete failed last_seen index (s \<noteq> None),
               ph_detail = phase_detail I (pm_key m) (case s of Some l \<Rightarrow> l | None \<Rightarrow> [])\<rparr>)
            (enumerate 0 (zip PHASES seen))
      in if prune_images then phases @ [images_phase I lines running] else phases)"

section \<open>Provisioning, nodes, the way back\<close>

record provisioning_mark =
  pv_step :: string
  pv_prefixes :: "string list"
  pv_summary :: string

definition PROVISIONING_PROBLEMS :: "provisioning_mark list" where
  "PROVISIONING_PROBLEMS =
     [\<lparr>pv_step = ''npm-provision'', pv_prefixes = [''NPM provisioning skipped'', ''NPM proxy-host provisioning failed'',
         ''WARNING: npm-provision failed on node ''], pv_summary = ''Proxy hosts of the release were not created in Nginx Proxy Manager.''\<rparr>,
      \<lparr>pv_step = ''keycloak-role-sync'', pv_prefixes = [''Keycloak role sync skipped'', ''Keycloak role sync failed'',
         ''WARNING: keycloak-role-sync failed on node ''], pv_summary = ''Roles and mappers of the release were not added to Keycloak.''\<rparr>]"

definition PROVISIONING_ON_PURPOSE :: string where
  "PROVISIONING_ON_PURPOSE = ''AUTH_PROVIDER is not internal_keycloak''"

definition RETRY_HINTS :: "string list" where
  "RETRY_HINTS = [''. Once '' @ who @ '' '' @ verb @ '' healthy''. who \<leftarrow> [''the stack'', ''the services'', ''Keycloak''], verb \<leftarrow> [''is'', ''are'']]"

fun before_hint :: "string \<Rightarrow> string" where
  "before_hint [] = []"
| "before_hint (c # s) = (if list_ex (startswith (c # s)) RETRY_HINTS then [] else c # before_hint s)"

record provisioning_problem =
  pb_step :: string
  pb_summary :: string
  pb_text :: string
  pb_command :: string

definition provisioning_line :: "provisioning_mark \<Rightarrow> string \<Rightarrow> bool" where
  "provisioning_line m line \<longleftrightarrow> list_ex (startswith line) (pv_prefixes m) \<and> \<not> contains line PROVISIONING_ON_PURPOSE"

definition provisioning_problems :: "i18n \<Rightarrow> string \<Rightarrow> string \<Rightarrow> string \<Rightarrow> nat option \<Rightarrow> provisioning_problem list" where
  "provisioning_problems I log workspace_dir config_dir tail =
     (let lines = runner_lines log;
          ctl = path_join (path_join (repo_path workspace_dir) ''tools'') ''papaia-ctl'';
          problems = (\<lambda>rest. List.map_filter (\<lambda>m.
              map_option (\<lambda>line. \<lparr>pb_step = pv_step m, pb_summary = tr I (pv_summary m) [], pb_text = take 300 (before_hint line),
                  pb_command = ''bash '' @ ctl @ '' '' @ pv_step m @ '' --config-dir='' @ config_dir\<rparr>)
                (find_first (provisioning_line m) rest)) PROVISIONING_PROBLEMS)
      in case after_first (\<lambda>l. startswith l ''Starting the stack'' \<or> startswith l START_ON_NODES) lines of
           Some rest \<Rightarrow> problems rest
         | None \<Rightarrow> (case tail of Some n \<Rightarrow> if length lines < n then [] else problems lines | None \<Rightarrow> []))"

definition node_line :: "string \<Rightarrow> (string \<times> string) option" where
  "node_line line =
     (if \<not> startswith line ''node '' then None
      else case partition_char (CHR '':'') (drop 5 line) of (name, colon, rest) \<Rightarrow>
        (case (name, rest) of
           (c # cs, sp # t) \<Rightarrow>
             if colon \<and> is_lower c \<and> list_all is_slug_char cs \<and> sp = CHR '' '' \<and> t \<noteq> [] then Some (name, t) else None
         | _ \<Rightarrow> None))"

definition node_progress :: "string \<Rightarrow> (string, string) dict" where
  "node_progress log =
     foldl (\<lambda>latest l. case node_line l of Some (n, t) \<Rightarrow> dict_set latest n t | None \<Rightarrow> latest) [] (runner_lines log)"

fun from_first :: "(string \<Rightarrow> bool) \<Rightarrow> string list \<Rightarrow> string list" where
  "from_first p [] = []"
| "from_first p (l # ls) = (if p l then l # ls else from_first p ls)"

definition recovery_from_log :: "string \<Rightarrow> string" where
  "recovery_from_log log =
     py_strip (join [LF] (from_first (\<lambda>l. startswith l RECOVERY_MARKER) (map (\<lambda>raw. strip_prefix (py_rstrip raw)) (splitlines log))))"

definition synthetic_recovery ::
  "i18n \<Rightarrow> version_state \<Rightarrow> string \<Rightarrow> string \<Rightarrow> string \<Rightarrow> string \<Rightarrow> int option \<Rightarrow> string" where
  "synthetic_recovery I version workspace_dir config_dir goal restore_point exit_code =
     (let frm = py_strip (vs_recorded version);
          to = py_strip (if goal \<noteq> [] then goal else vs_checkout version)
      in if frm = [] \<or> to = [] \<or> frm = to then []
         else let repo = repo_path workspace_dir;
                  ctl = path_join (path_join repo ''tools'') ''papaia-ctl'';
                  lines = (case exit_code of
                        Some n \<Rightarrow> if n = 126 \<or> n = 127 then
                            [''# exit '' @ str_of_int n @ '' means '' @ to @ [CHR 0x27] @ ''s tools/papaia-ctl was not executable when the'',
                             ''# upgrade handed off to it (or the checkout is on a noexec mount).'', []] else []
                      | None \<Rightarrow> [])
                    @ [tr I ''The checkout was moved to v%(to)s but the configuration is still %(frm)s, and the stack is stopped. The upgrade stopped before it could print its own way back.''
                         [(''to'', to), (''frm'', frm)], [],
                       tr I ''To go back to %(frm)s:'' [(''frm'', frm)],
                       ''    git -C '' @ repo @ '' checkout v'' @ frm]
                    @ (if restore_point \<noteq> [] then [''    bash '' @ ctl @ '' restore --restore-point='' @ restore_point @ '' --config-dir='' @ config_dir]
                       else [''    bash '' @ ctl @ '' start --addons --config-dir='' @ config_dir])
                    @ [[], tr I ''To go forward to %(to)s once the cause is fixed:'' [(''to'', to)],
                       ''    bash '' @ ctl @ '' upgrade --version='' @ to @ '' --config-dir='' @ config_dir]
              in join [LF] lines)"

section \<open>Lemmas: versions\<close>

lemma parse_tags_set: "set (parse_tags lines) = {v. is_valid_target_version v \<and> CHR ''v'' # v \<in> set (map py_strip lines)}" (is "_ = ?R")
proof
  have tag: "is_tag s \<longleftrightarrow> (\<exists>v. s = CHR ''v'' # v \<and> is_valid_target_version v)" for s by (cases s) (auto simp: is_tag_def)
  show "set (parse_tags lines) \<subseteq> ?R"
  proof
    fix v assume "v \<in> set (parse_tags lines)"
    then obtain l where "l \<in> set lines" "is_tag (py_strip l)" "v = tl (py_strip l)" by (auto simp: parse_tags_def)
    then obtain u where "py_strip l = CHR ''v'' # u" "is_valid_target_version u" "v = u" using tag by auto
    then show "v \<in> ?R" using \<open>l \<in> set lines\<close> by (auto intro!: rev_image_eqI [of l])
  qed
  show "?R \<subseteq> set (parse_tags lines)"
  proof
    fix v assume v: "v \<in> ?R"
    then obtain l where l: "l \<in> set lines" "py_strip l = CHR ''v'' # v" by auto
    then have "is_tag (py_strip l)" "tl (py_strip l) = v" using v tag by auto
    then show "v \<in> set (parse_tags lines)" using l(1) by (auto simp: parse_tags_def intro!: rev_image_eqI [of l])
  qed
qed

text \<open>
  The releases offered are the release tags of the checkout: exactly the stable versions among the tags, once each, the newest first.
\<close>

theorem parse_tags_exact:
  "set (parse_tags lines) = {v. is_valid_target_version v \<and> CHR ''v'' # v \<in> set (map py_strip lines)}
    \<and> distinct (parse_tags lines) \<and> sorted_wrt (\<lambda>a b. release_key b \<le> release_key a) (parse_tags lines)"
  using parse_tags_set [of lines] by (auto simp: parse_tags_def sorted_wrt_rev sorted_wrt_map [symmetric])

section \<open>Lemmas: phases\<close>

lemma last_seen_bound: "j < length seen \<Longrightarrow> seen ! j \<noteq> None \<Longrightarrow> Suc (i + j) \<le> last_seen_from i seen"
proof (induction seen arbitrary: i j)
  case (Cons s seen)
  show ?case
  proof (cases j)
    case (Suc n)
    then show ?thesis using Cons.IH [of n "Suc i"] Cons.prems by (simp add: le_max_iff_disj)
  qed (use Cons.prems in auto)
qed simp

lemma last_seen_reached: "last_seen_from i seen = Suc k \<Longrightarrow> i \<le> k \<and> k - i < length seen \<and> seen ! (k - i) \<noteq> None"
proof (induction seen arbitrary: i k)
  case (Cons s seen)
  show ?case
  proof (cases "last_seen_from (Suc i) seen")
    case 0
    then show ?thesis using Cons.prems by (auto split: if_splits)
  next
    case (Suc m)
    then have "last_seen_from i (s # seen) = Suc m" using Cons.IH [OF Suc] by (auto simp: max_def)
    then have m: "m = k" using Cons.prems by simp
    have "Suc i \<le> k \<and> k - Suc i < length seen \<and> seen ! (k - Suc i) \<noteq> None" using Cons.IH [OF Suc] m by simp
    moreover from this have "k - i = Suc (k - Suc i)" by linarith
    ultimately show ?thesis by simp
  qed
qed simp

definition states_of :: "bool \<Rightarrow> bool \<Rightarrow> 'a option list \<Rightarrow> phase_state list" where
  "states_of complete failed seen =
     map (\<lambda>i. phase_state_of complete failed (last_seen_from 0 seen) i (seen ! i \<noteq> None)) [0..<length seen]"

lemma states_from_log:
  fixes log defines "lines \<equiv> runner_lines log"
  defines "complete \<equiv> list_ex (\<lambda>line. contains line COMPLETE_MARKER) lines"
  shows "map ph_key (phases_from_log I log running False) = map pm_key PHASES"
    "map ph_state (phases_from_log I log running False) = states_of complete (\<not> running \<and> \<not> complete) (map (seen_line lines) PHASES)"
  unfolding complete_def lines_def
  by (auto intro!: nth_equalityI simp: phases_from_log_def states_of_def Let_def nth_enumerate_eq case_prod_beta)

lemma front_state:
  assumes "i < length seen" "states_of complete failed seen ! i \<in> {PHASE_RUNNING, PHASE_FAILED}"
  shows "\<not> complete" "last_seen_from 0 seen = Suc i" "seen ! i \<noteq> None" "states_of complete failed seen ! i = (if failed then PHASE_FAILED else PHASE_RUNNING)"
  using assms last_seen_bound [of i seen 0] by (auto simp: states_of_def phase_state_of_def split: if_splits)

text \<open>C26: 
  The phases of an upgrade have one front: when a phase is shown as running or failed, every phase before it is done or was skipped and
  every phase after it has not begun; it is shown as running while the container runs and as failed once it has stopped, and never
  after the upgrade reported its completion.
\<close>

theorem phases_one_front:
  assumes "i < length (phases_from_log I log running False)"
    "ph_state (phases_from_log I log running False ! i) \<in> {PHASE_RUNNING, PHASE_FAILED}"
  shows "(ph_state (phases_from_log I log running False ! i) = PHASE_RUNNING \<longleftrightarrow> running)
    \<and> \<not> list_ex (\<lambda>line. contains line COMPLETE_MARKER) (runner_lines log)
    \<and> list_all (\<lambda>p. ph_state p \<in> {PHASE_DONE, PHASE_SKIPPED}) (take i (phases_from_log I log running False))
    \<and> list_all (\<lambda>p. ph_state p = PHASE_PENDING) (drop (Suc i) (phases_from_log I log running False))"
proof -
  define seen where "seen = map (seen_line (runner_lines log)) PHASES"
  define complete where "complete \<longleftrightarrow> list_ex (\<lambda>line. contains line COMPLETE_MARKER) (runner_lines log)"
  let ?ps = "phases_from_log I log running False"
  let ?st = "states_of complete (\<not> running \<and> \<not> complete) seen"
  have st: "map ph_state ?ps = ?st" using states_from_log(2) by (simp add: seen_def complete_def)
  have len: "length ?ps = length seen" using arg_cong [OF st, of length] by (simp add: states_of_def)
  have nth: "ph_state (?ps ! j) = ?st ! j" if "j < length seen" for j using st len that by (metis nth_map)
  have i: "i < length seen" "?st ! i \<in> {PHASE_RUNNING, PHASE_FAILED}" using assms nth len by auto
  note front = front_state [OF i]
  have before: "?st ! j \<in> {PHASE_DONE, PHASE_SKIPPED}" if "j < i" for j
    using that i(1) front by (auto simp: states_of_def phase_state_of_def)
  have after: "?st ! j = PHASE_PENDING" if "i < j" "j < length seen" for j
  proof -
    have "seen ! j = None" using that front last_seen_bound [of j seen 0] by fastforce
    then show ?thesis using that front by (simp add: states_of_def phase_state_of_def)
  qed
  show ?thesis
    using front nth [OF i(1)] before after nth len i(1)
    by (auto simp: complete_def [symmetric] list_all_length)
qed

text \<open>
  A failed upgrade is never shown as finished: when the container has stopped without the completion line and at least one phase was
  announced, exactly one phase is shown as failed; and after the completion line every phase is done or skipped.
\<close>

theorem stopped_run_shows_failure:
  assumes "list_ex (\<lambda>m. list_ex (phase_match m) (runner_lines log)) PHASES"
  shows "if list_ex (\<lambda>line. contains line COMPLETE_MARKER) (runner_lines log)
    then list_all (\<lambda>p. ph_state p \<in> {PHASE_DONE, PHASE_SKIPPED}) (phases_from_log I log running False)
    else \<exists>!i. i < 6 \<and> ph_state (phases_from_log I log running False ! i) = (if running then PHASE_RUNNING else PHASE_FAILED)"
proof -
  define seen where "seen = map (seen_line (runner_lines log)) PHASES"
  define complete where "complete \<longleftrightarrow> list_ex (\<lambda>line. contains line COMPLETE_MARKER) (runner_lines log)"
  let ?ps = "phases_from_log I log running False"
  let ?st = "states_of complete (\<not> running \<and> \<not> complete) seen"
  have st: "map ph_state ?ps = ?st" using states_from_log(2) by (simp add: seen_def complete_def)
  have six: "length seen = 6" by (simp add: seen_def PHASES_def)
  have len: "length ?ps = 6" using arg_cong [OF st, of length] six by (simp add: states_of_def)
  have nth: "ph_state (?ps ! j) = ?st ! j" if "j < 6" for j using st len that by (metis nth_map)
  show ?thesis
  proof (cases complete)
    case True
    then have "?st ! j \<in> {PHASE_DONE, PHASE_SKIPPED}" if "j < 6" for j using that six by (simp add: states_of_def phase_state_of_def)
    then show ?thesis using True nth len by (auto simp: complete_def [symmetric] list_all_length)
  next
    case False
    obtain m line where "m \<in> set PHASES" "line \<in> set (runner_lines log)" "phase_match m line" using assms by (auto simp: list_ex_iff)
    then have "seen_line (runner_lines log) m \<noteq> None" by (auto simp: seen_line_def find_first_def find_None_iff)
    then obtain j where j: "j < length seen" "seen ! j \<noteq> None" using \<open>m \<in> set PHASES\<close> by (auto simp: seen_def in_set_conv_nth)
    then obtain k where k: "last_seen_from 0 seen = Suc k" using last_seen_bound [of j seen 0] by (cases "last_seen_from 0 seen") auto
    note top = last_seen_reached [OF k]
    have k6: "k < 6" using top six by simp
    have at: "?st ! k = (if running then PHASE_RUNNING else PHASE_FAILED)" using top k False by (simp add: states_of_def phase_state_of_def)
    have only: "i = k" if "i < 6" "?st ! i = (if running then PHASE_RUNNING else PHASE_FAILED)" for i
      using front_state(2) [of i seen complete "\<not> running \<and> \<not> complete"] that six k by (auto split: if_splits)
    have "\<exists>!i. i < 6 \<and> ph_state (?ps ! i) = (if running then PHASE_RUNNING else PHASE_FAILED)"
    proof (rule ex1I [of _ k])
      show "k < 6 \<and> ph_state (?ps ! k) = (if running then PHASE_RUNNING else PHASE_FAILED)" using k6 at nth [OF k6] by (simp only: simp_thms)
    next
      fix i assume "i < 6 \<and> ph_state (?ps ! i) = (if running then PHASE_RUNNING else PHASE_FAILED)"
      then have "i < 6" "?st ! i = (if running then PHASE_RUNNING else PHASE_FAILED)" using nth [of i] by (simp_all only: simp_thms)
      then show "i = k" by (rule only)
    qed
    then show ?thesis using False unfolding complete_def by (simp only: if_False simp_thms)
  qed
qed

definition demo_i18n :: i18n where
  "demo_i18n = \<lparr>tr = (\<lambda>s _. s), ntr = (\<lambda>one _ _ _. one)\<rparr>"

definition demo_log :: string where
  "demo_log = join [LF] [''[papaia-ctl] Stopping and removing the containers...'', ''[papaia-ctl] Moving the checkout to v1.2.0.'',
     ''[papaia-ctl] Running 1.2.0 from here on.'', ''[papaia-ctl] Running 2 migration(s)...'', ''[error] migration failed'']"

lemma phases_one_front_witness:
  "map ph_state (phases_from_log demo_i18n demo_log False False)
     = [PHASE_SKIPPED, PHASE_DONE, PHASE_DONE, PHASE_FAILED, PHASE_PENDING, PHASE_PENDING]
   \<and> list_all (\<lambda>p. ph_state p = PHASE_PENDING) (drop 4 (phases_from_log demo_i18n demo_log False False))"
proof -
  have m: "map ph_state (phases_from_log demo_i18n demo_log False False)
     = [PHASE_SKIPPED, PHASE_DONE, PHASE_DONE, PHASE_FAILED, PHASE_PENDING, PHASE_PENDING]" by code_simp
  have l: "3 < length (phases_from_log demo_i18n demo_log False False)" using arg_cong [OF m, of length] by simp
  have s: "ph_state (phases_from_log demo_i18n demo_log False False ! 3) \<in> {PHASE_RUNNING, PHASE_FAILED}"
    using arg_cong [OF m, of "\<lambda>xs. xs ! 3"] l by simp
  show ?thesis using phases_one_front [OF l s] m by simp
qed

lemma stopped_run_shows_failure_witness:
  "\<exists>!i. i < 6 \<and> ph_state (phases_from_log demo_i18n demo_log False False ! i) = PHASE_FAILED"
proof -
  have a: "list_ex (\<lambda>m. list_ex (phase_match m) (runner_lines demo_log)) PHASES" by code_simp
  have c: "\<not> list_ex (\<lambda>line. contains line COMPLETE_MARKER) (runner_lines demo_log)" by code_simp
  show ?thesis using stopped_run_shows_failure [OF a, of demo_i18n False] c by simp
qed

text \<open>
  The picker offers no way back: with a released version deployed, every version it lists is ahead of it, and every release ahead of it
  is listed.
\<close>

theorem picker_offers_newer:
  assumes "is_valid_target_version current"
  shows "set (newer_than (parse_tags lines) current)
    = {v. is_valid_target_version v \<and> CHR ''v'' # v \<in> set (map py_strip lines) \<and> release_key current < release_key v}"
proof -
  have "set (parse_tags lines) = {v. is_valid_target_version v \<and> CHR ''v'' # v \<in> set (map py_strip lines)}"
    by (rule parse_tags_set)
  then show ?thesis using assms by (auto simp: newer_than_def)
qed

lemma picker_offers_newer_witness:
  "set (newer_than (parse_tags [''v1.10.0'', ''v1.9.0'', ''v1.2.0-rc1'', '' v2.0.0'']) ''1.9.0'') = {''1.10.0'', ''2.0.0''}
   \<and> set (newer_than (parse_tags [''v1.10.0'', ''v1.9.0'']) ''1.9.0'')
     = {v. is_valid_target_version v \<and> CHR ''v'' # v \<in> set (map py_strip [''v1.10.0'', ''v1.9.0'']) \<and> release_key ''1.9.0'' < release_key v}"
proof -
  have v: "is_valid_target_version ''1.9.0''" by code_simp
  have "newer_than (parse_tags [''v1.10.0'', ''v1.9.0'', ''v1.2.0-rc1'', '' v2.0.0'']) ''1.9.0'' = [''2.0.0'', ''1.10.0'']" by code_simp
  then show ?thesis using picker_offers_newer [OF v, of "[''v1.10.0'', ''v1.9.0'']"] by auto
qed

text \<open>
  The version of the installation is not always readable without an error: a deployment file that is no YAML raises, although only a
  missing or unreadable file was to count as no version.
\<close>

lemma broken_deployment_breaks_version:
  assumes "files (path_join config_dir ''deployment.yaml'') = Text t" "load t = None"
  shows "current_version load files config_dir workspace_dir = Inl YAMLError"
  using assms by (simp add: current_version_def load_deployment_yaml_def read_text_def Let_def)

end
