(* ===== verification/Processes.thy ===== *)
theory Processes
  imports Ctl
begin

text \<open>
  Programs that run child processes one after the other: a result or an error, and the world the children left. The upgrade check
  and the clean-up of images are written in them. Two judgements are shared: which commands a program may run, and what it yields.
\<close>

type_synonym ('e, 'w, 'a) eprog = "'w \<Rightarrow> ('e + 'a) \<times> 'w"

definition uret :: "'a \<Rightarrow> ('e, 'w, 'a) eprog" where
  "uret a = (\<lambda>w. (Inr a, w))"

definition ufail :: "'e \<Rightarrow> ('e, 'w, 'a) eprog" where
  "ufail e = (\<lambda>w. (Inl e, w))"

definition ubind :: "('e, 'w, 'a) eprog \<Rightarrow> ('a \<Rightarrow> ('e, 'w, 'b) eprog) \<Rightarrow> ('e, 'w, 'b) eprog" where
  "ubind m f = (\<lambda>w. case m w of (Inl e, w') \<Rightarrow> (Inl e, w') | (Inr a, w') \<Rightarrow> f a w')"

text \<open>\<open>except E as exc\<close>, where \<open>sel\<close> gives the message of the errors that are caught; the others pass.\<close>

definition catching :: "('e \<Rightarrow> string option) \<Rightarrow> ('e, 'w, 'a) eprog \<Rightarrow> (string \<Rightarrow> ('e, 'w, 'a) eprog) \<Rightarrow> ('e, 'w, 'a) eprog" where
  "catching sel m h = (\<lambda>w. case m w of
      (Inl e, w') \<Rightarrow> (case sel e of Some msg \<Rightarrow> h msg w' | None \<Rightarrow> (Inl e, w'))
    | (Inr a, w') \<Rightarrow> (Inr a, w'))"

text \<open>\<open>finally\<close>: the ending runs after either outcome and raises nothing of its own.\<close>

definition ufinally :: "('e, 'w, 'a) eprog \<Rightarrow> ('w \<Rightarrow> 'w) \<Rightarrow> ('e, 'w, 'a) eprog" where
  "ufinally m fin = (\<lambda>w. case m w of (r, w') \<Rightarrow> (r, fin w'))"

text \<open>A loop over a list that collects what its body returns.\<close>

fun umap :: "('a \<Rightarrow> ('e, 'w, 'b) eprog) \<Rightarrow> 'a list \<Rightarrow> ('e, 'w, 'b list) eprog" where
  "umap f [] = uret []"
| "umap f (x # xs) = ubind (f x) (\<lambda>y. ubind (umap f xs) (\<lambda>ys. uret (y # ys)))"

text \<open>A computation that runs no process.\<close>

definition ulift :: "('x \<Rightarrow> 'e) \<Rightarrow> 'x + 'a \<Rightarrow> ('e, 'w, 'a) eprog" where
  "ulift err r = (case r of Inl x \<Rightarrow> ufail (err x) | Inr a \<Rightarrow> uret a)"

section \<open>What is run\<close>

text \<open>A program runs only commands of a kind: what it adds to the list of calls satisfies the predicate.\<close>

definition only_runs :: "('w \<Rightarrow> string list list) \<Rightarrow> (string list \<Rightarrow> bool) \<Rightarrow> ('e, 'w, 'a) eprog \<Rightarrow> bool" where
  "only_runs calls P m \<longleftrightarrow> (\<forall>w. \<exists>mid. calls (snd (m w)) = calls w @ mid \<and> list_all P mid)"

lemma only_runs_ret [simp]: "only_runs calls P (uret a)" "only_runs calls P (ufail e)"
  by (simp_all add: only_runs_def uret_def ufail_def)

lemma only_runs_bind: "only_runs calls P m \<Longrightarrow> (\<And>a. only_runs calls P (f a)) \<Longrightarrow> only_runs calls P (ubind m f)"
proof -
  assume m: "only_runs calls P m" and f: "\<And>a. only_runs calls P (f a)"
  show ?thesis
    unfolding only_runs_def
  proof
    fix w
    obtain r w1 where w1: "m w = (r, w1)" by fastforce
    obtain mid where mid: "calls w1 = calls w @ mid" "list_all P mid" using m w1 unfolding only_runs_def by (metis snd_conv)
    show "\<exists>mid. calls (snd (ubind m f w)) = calls w @ mid \<and> list_all P mid"
    proof (cases r)
      case (Inl e)
      then show ?thesis using mid w1 by (auto simp: ubind_def)
    next
      case (Inr a)
      obtain mid' where "calls (snd (f a w1)) = calls w1 @ mid'" "list_all P mid'" using f [of a] unfolding only_runs_def by blast
      then show ?thesis using mid w1 Inr by (intro exI [of _ "mid @ mid'"]) (simp add: ubind_def)
    qed
  qed
qed

lemma only_runs_catching: "only_runs calls P m \<Longrightarrow> (\<And>msg. only_runs calls P (h msg)) \<Longrightarrow> only_runs calls P (catching sel m h)"
proof -
  assume m: "only_runs calls P m" and h: "\<And>msg. only_runs calls P (h msg)"
  show ?thesis
    unfolding only_runs_def
  proof
    fix w
    obtain r w1 where w1: "m w = (r, w1)" by fastforce
    obtain mid where mid: "calls w1 = calls w @ mid" "list_all P mid" using m w1 unfolding only_runs_def by (metis snd_conv)
    show "\<exists>mid. calls (snd (catching sel m h w)) = calls w @ mid \<and> list_all P mid"
    proof (cases "\<exists>e msg. r = Inl e \<and> sel e = Some msg")
      case True
      then obtain e msg where e: "r = Inl e" "sel e = Some msg" by blast
      obtain mid' where "calls (snd (h msg w1)) = calls w1 @ mid'" "list_all P mid'" using h [of msg] unfolding only_runs_def by blast
      then show ?thesis using mid w1 e by (intro exI [of _ "mid @ mid'"]) (simp add: catching_def)
    next
      case False
      then have "catching sel m h w = (r, w1)" using w1 by (auto simp: catching_def split: sum.splits option.splits)
      then show ?thesis using mid by auto
    qed
  qed
qed

lemma only_runs_case: "(\<And>a b. only_runs calls P (f a b)) \<Longrightarrow> only_runs calls P (case p of (a, b) \<Rightarrow> f a b)"
  by (cases p) simp

lemma only_runs_if: "only_runs calls P a \<Longrightarrow> only_runs calls P b \<Longrightarrow> only_runs calls P (if c then a else b)"
  by simp

lemma only_runs_sum: "(\<And>e. only_runs calls P (f e)) \<Longrightarrow> (\<And>a. only_runs calls P (g a)) \<Longrightarrow> only_runs calls P (case r of Inl e \<Rightarrow> f e | Inr a \<Rightarrow> g a)"
  by (cases r) simp_all

lemma only_runs_umap: "(\<And>x. x \<in> set xs \<Longrightarrow> only_runs calls P (f x)) \<Longrightarrow> only_runs calls P (umap f xs)"
proof (induction xs)
  case (Cons x xs)
  then show ?case by (auto intro!: only_runs_bind)
qed simp

lemma only_runs_lift [simp]: "only_runs calls P (ulift err r)"
  by (cases r) (simp_all add: ulift_def)

lemmas only_runs_intros = only_runs_bind only_runs_catching only_runs_case only_runs_if only_runs_sum only_runs_ret only_runs_lift

section \<open>What is yielded\<close>

definition yields :: "('a \<Rightarrow> bool) \<Rightarrow> ('e, 'w, 'a) eprog \<Rightarrow> bool" where
  "yields Q m \<longleftrightarrow> (\<forall>w. case fst (m w) of Inr a \<Rightarrow> Q a | Inl _ \<Rightarrow> True)"

lemma yields_ret [simp]: "yields Q (uret a) \<longleftrightarrow> Q a" "yields Q (ufail e)"
  by (simp_all add: yields_def uret_def ufail_def)

lemma yields_bind_of:
  assumes "yields R m" "\<And>a. R a \<Longrightarrow> yields Q (f a)"
  shows "yields Q (ubind m f)"
  unfolding yields_def
proof
  fix w
  show "case fst (ubind m f w) of Inr a \<Rightarrow> Q a | Inl _ \<Rightarrow> True"
  proof (cases "m w")
    case (Pair r w1)
    then have "case r of Inr a \<Rightarrow> R a | Inl _ \<Rightarrow> True" using assms(1) unfolding yields_def by (metis fst_conv)
    then show ?thesis using Pair assms(2) by (cases r) (auto simp: ubind_def yields_def)
  qed
qed

lemma yields_bind: "(\<And>a. yields Q (f a)) \<Longrightarrow> yields Q (ubind m f)"
  by (rule yields_bind_of [of "\<lambda>_. True"]) (simp_all add: yields_def split: sum.split)

lemma yields_if: "(c \<Longrightarrow> yields Q a) \<Longrightarrow> (\<not> c \<Longrightarrow> yields Q b) \<Longrightarrow> yields Q (if c then a else b)"
  by simp

lemma yields_case: "(\<And>a b. yields Q (f a b)) \<Longrightarrow> yields Q (case p of (a, b) \<Rightarrow> f a b)"
  by (cases p) simp


section \<open>Worlds that list their commands\<close>

text \<open>A process parameter whose world remembers every command that was started.\<close>

locale listing_world =
  fixes proc :: "'w spawn" and calls :: "'w \<Rightarrow> string list list"
  assumes proc_listed: "calls (snd (proc (cmd, en) limit w)) = calls w @ [cmd]"
begin

lemma proc_calls: "proc (cmd, en) limit w = (c, w1) \<Longrightarrow> calls w1 = calls w @ [cmd]"
  using proc_listed [of cmd en limit w] by simp

end

text \<open>Any process parameter, with its world extended by that list.\<close>

definition recording_proc :: "'w spawn \<Rightarrow> (string list list \<times> 'w) spawn" where
  "recording_proc proc = (\<lambda>ce limit (done, w). case proc ce limit w of (c, w') \<Rightarrow> (c, done @ [fst ce], w'))"

interpretation recorded_proc: listing_world "recording_proc proc" fst for proc :: "'w spawn"
  by unfold_locales (auto simp: recording_proc_def split: prod.splits)

end
