(* ===== verification/Upgrade_Check.thy ===== *)
theory Upgrade_Check
  imports Upgrade_Log Processes
begin

text \<open>
  The check of an upgrade (\<open>core/upgrade.py\<close>, the part that runs processes): the state of the checkout, the tags and their fetch, the
  resolution of a target and its evaluation in a worktree, and the cached answer. git and the core's Python entry point are
  children of the process parameter \<open>ue_proc\<close>, which takes a command and its environment to how the child ended and to the world it
  left; files of the temporary directory are written and removed in that world. The lock makes checks follow one another, so
  one runs at a time.
\<close>

datatype up_error = UpgradeError string | UpgradeCtl ctl_fault | UpgradeExn py_exn

record 'w upgrade_env =
  ue_i18n :: i18n
  ue_proc :: "'w spawn"
  ue_environ :: env
  ue_askpass :: string
  ue_workspace_dir :: string
  ue_config_dir :: string
  ue_yaml :: yaml
  ue_files :: "'w \<Rightarrow> fs"
  ue_json :: "string \<Rightarrow> string + pyval"
  ue_host_of :: "string \<Rightarrow> string option"
  ue_now :: string
  ue_locale :: string
  ue_user :: "int \<times> int"
  ue_tags_dir :: string
  ue_target_dir :: string
  ue_write :: "string \<Rightarrow> string \<Rightarrow> 'w \<Rightarrow> 'w"
  ue_rmtree :: "string \<Rightarrow> 'w \<Rightarrow> 'w"

type_synonym ('w, 'a) uprog = "(up_error, 'w, 'a) eprog"

definition upgrade_message :: "up_error \<Rightarrow> string option" where
  "upgrade_message e = (case e of UpgradeError m \<Rightarrow> Some m | _ \<Rightarrow> None)"

text \<open>\<open>except UpgradeError as exc\<close>; other errors pass.\<close>

definition ucatch :: "('w, 'a) uprog \<Rightarrow> (string \<Rightarrow> ('w, 'a) uprog) \<Rightarrow> ('w, 'a) uprog" where
  "ucatch = catching upgrade_message"

section \<open>git\<close>

definition GIT_TIMEOUT :: nat where "GIT_TIMEOUT = 15"
definition FETCH_TIMEOUT :: nat where "FETCH_TIMEOUT = 60"
definition MAX_DIRTY_LINES :: nat where "MAX_DIRTY_LINES = 50"

definition git_env :: "'w upgrade_env \<Rightarrow> env" where
  "git_env E =
     (let e = dict_set (ue_environ E) ''GIT_TERMINAL_PROMPT'' ''0''
      in if ue_askpass E \<noteq> [] \<and> dict_get e ''GIT_ASKPASS'' = None then dict_set e ''GIT_ASKPASS'' (ue_askpass E) else e)"

definition git_cmd :: "string \<Rightarrow> string list \<Rightarrow> string list" where
  "git_cmd repo args = [''git'', ''-C'', repo] @ args"

definition run_git :: "'w upgrade_env \<Rightarrow> string list \<Rightarrow> nat \<Rightarrow> ('w, string) uprog" where
  "run_git E args limit w =
     (let fail = (\<lambda>m kvs. Inl (UpgradeError (tr (ue_i18n E) m kvs)))
      in case ue_proc E (git_cmd (repo_path (ue_workspace_dir E)) args, git_env E) (Some limit) w of
           (NotInvoked exc, w') \<Rightarrow> (fail ''cannot invoke git: %(exc)s'' [(''exc'', exc)], w')
         | (Killed, w') \<Rightarrow> (fail ''git %(value)s timed out after %(limit).0fs'' [(''value'', hd args), (''limit'', str_of_nat limit)], w')
         | (Ended code out err, w') \<Rightarrow>
             (if code = Some 0 then Inr out
              else let detail = (if py_strip err \<noteq> [] then py_strip err
                     else ''exit code '' @ (case code of Some n \<Rightarrow> str_of_int n | None \<Rightarrow> ''None''))
                   in fail ''git %(value)s failed: %(detail)s'' [(''value'', hd args), (''detail'', detail)], w'))"

text \<open>No call names a node, since only the controller has a checkout.\<close>

definition git_at :: "'w upgrade_env \<Rightarrow> string option \<Rightarrow> string list \<Rightarrow> ('w, string) uprog" where
  "git_at E node args =
     (case node of
        Some n \<Rightarrow> ufail (UpgradeError (tr (ue_i18n E) ''git cannot run on node %(node)s; a node has no Git checkout'' [(''node'', n)]))
      | None \<Rightarrow> run_git E args GIT_TIMEOUT)"

definition git_local :: "'w upgrade_env \<Rightarrow> string list \<Rightarrow> ('w, string) uprog" where
  "git_local E = git_at E None"

section \<open>The checkout\<close>

record checkout_state =
  cs_is_git :: bool
  cs_clean :: bool
  cs_dirty :: string
  cs_head :: string
  cs_tag :: string
  cs_error :: string

definition cs_initial :: checkout_state where
  "cs_initial = \<lparr>cs_is_git = False, cs_clean = True, cs_dirty = [], cs_head = [], cs_tag = [], cs_error = []\<rparr>"

definition cs_upgradable :: "checkout_state \<Rightarrow> bool" where
  "cs_upgradable s \<longleftrightarrow> cs_is_git s \<and> cs_clean s \<and> cs_error s = []"

definition dirty_text :: "string list \<Rightarrow> string" where
  "dirty_text lines =
     join [LF] (take MAX_DIRTY_LINES lines)
     @ (if length lines > MAX_DIRTY_LINES then LF # ''... and '' @ str_of_nat (length lines - MAX_DIRTY_LINES) @ '' more'' else [])"

definition read_checkout :: "'w upgrade_env \<Rightarrow> ('w, checkout_state) uprog" where
  "read_checkout E =
     ubind (ucatch (ubind (git_local E [''rev-parse'', ''--git-dir'']) (\<lambda>_. uret True)) (\<lambda>_. uret False)) (\<lambda>is_git.
       if \<not> is_git then uret cs_initial
       else ubind (ucatch (ubind (git_local E [''status'', ''--porcelain'', ''--untracked-files=no'']) (\<lambda>porcelain.
                ubind (git_local E [''rev-parse'', ''--short'', ''HEAD'']) (\<lambda>head. uret (Inr (porcelain, py_strip head)))))
              (\<lambda>e. uret (Inl e))) (\<lambda>read.
         case read of
           Inl e \<Rightarrow> uret (cs_initial\<lparr>cs_is_git := True, cs_error := e\<rparr>)
         | Inr (porcelain, head) \<Rightarrow>
             ubind (if py_strip porcelain = [] then uret []
                    else ubind (git_local E [''status'', ''--short'', ''--untracked-files=no'']) (\<lambda>out. uret (dirty_text (splitlines out)))) (\<lambda>dirty.
             ubind (ucatch (ubind (git_local E [''describe'', ''--tags'', ''--exact-match'', ''HEAD'']) (\<lambda>t. uret (py_strip t))) (\<lambda>_. uret [])) (\<lambda>tag.
               uret \<lparr>cs_is_git = True, cs_clean = (py_strip porcelain = []), cs_dirty = dirty, cs_head = head, cs_tag = tag, cs_error = []\<rparr>))))"

definition local_tags :: "'w upgrade_env \<Rightarrow> ('w, string list) uprog" where
  "local_tags E = ubind (git_local E [''tag'', ''--list'']) (\<lambda>out. uret (parse_tags (splitlines out)))"

definition origin_url :: "'w upgrade_env \<Rightarrow> ('w, string) uprog" where
  "origin_url E = ucatch (ubind (git_local E [''remote'', ''get-url'', ''origin'']) (\<lambda>out. uret (py_strip out))) (\<lambda>_. uret [])"

definition fetch_tags :: "'w upgrade_env \<Rightarrow> ('w, string) uprog" where
  "fetch_tags E =
     ubind (origin_url E) (\<lambda>origin.
       let remote = (case https_equivalent origin of Some u \<Rightarrow> u | None \<Rightarrow> ''origin'')
       in ucatch (ubind (run_git E [''fetch'', ''--tags'', ''--quiet'', remote] FETCH_TIMEOUT) (\<lambda>_. uret [])) (\<lambda>e. uret e))"

section \<open>The check\<close>

record upgrade_check =
  uc_current :: string
  uc_target :: string
  uc_tag :: string
  uc_status :: string
  uc_available :: "string list"
  uc_migrations :: "migration list"
  uc_gate :: gate
  uc_fetch_error :: string
  uc_fetch_hint :: string
  uc_checked_at :: string
  uc_hint_args :: "(string \<times> string \<times> int \<times> int) option"
  uc_hint_locale :: string

definition uc_up_to_date :: "upgrade_check \<Rightarrow> bool" where
  "uc_up_to_date c \<longleftrightarrow> uc_status c = ''up-to-date''"

definition uc_hint_text :: "i18n \<Rightarrow> (string \<Rightarrow> string option) \<Rightarrow> string \<Rightarrow> upgrade_check \<Rightarrow> string" where
  "uc_hint_text I host_of locale c =
     (case uc_hint_args c of
        None \<Rightarrow> uc_fetch_hint c
      | Some (repo, origin, uid, gid) \<Rightarrow>
          if uc_hint_locale c = locale then uc_fetch_hint c else fetch_hint I host_of (uc_fetch_error c) repo origin uid gid)"

definition py_cli :: "'w upgrade_env \<Rightarrow> string \<Rightarrow> string option \<Rightarrow> string list \<Rightarrow> ('w, py_answer) uprog" where
  "py_cli E command repo_root flags w =
     (case run_py_cli (ue_proc E) (ue_environ E) command (ue_workspace_dir E) (ue_config_dir E) repo_root flags None None w of
        (Inl e, w') \<Rightarrow> (Inl (UpgradeCtl e), w')
      | (Inr a, w') \<Rightarrow> (Inr a, w'))"

definition lift_gate :: "string + gate \<Rightarrow> ('w, gate) uprog" where
  "lift_gate r = (case r of Inl e \<Rightarrow> ufail (UpgradeError e) | Inr g \<Rightarrow> uret g)"

definition worktree_of :: "'w upgrade_env \<Rightarrow> string \<Rightarrow> string" where
  "worktree_of E tag = path_join (ue_target_dir E) tag"

definition evaluate_body :: "'w upgrade_env \<Rightarrow> string \<Rightarrow> string \<Rightarrow> string \<Rightarrow> ('w, gate \<times> migration list) uprog" where
  "evaluate_body E tag current goal =
     ubind (git_local E [''worktree'', ''prune'']) (\<lambda>_.
     ubind (ucatch (git_local E [''worktree'', ''add'', ''--detach'', ''--quiet'', worktree_of E tag, tag]) (\<lambda>exc.
       ufail (UpgradeError (tr (ue_i18n E) ''could not check out %(tag)s for inspection. Does the tag exist? (%(exc)s)''
         [(''tag'', tag), (''exc'', exc)])))) (\<lambda>_.
     ubind (py_cli E ''addon-check'' (Some (worktree_of E tag)) [''--json'']) (\<lambda>(code, out, _).
     ubind (lift_gate (parse_gate_json (ue_i18n E) (ue_json E) out code)) (\<lambda>g.
     ubind (py_cli E ''upgrade-plan'' (Some (worktree_of E tag)) [''--from='' @ current, ''--to='' @ goal]) (\<lambda>(code, out, err).
       if code \<noteq> 0 then ufail (UpgradeError (if py_strip err \<noteq> [] then py_strip err
         else tr (ue_i18n E) ''could not determine the pending migrations'' []))
       else uret (g, parse_plan_tsv out))))))"

definition evaluate_target :: "'w upgrade_env \<Rightarrow> string \<Rightarrow> string \<Rightarrow> string \<Rightarrow> ('w, gate \<times> migration list) uprog" where
  "evaluate_target E tag current goal =
     ufinally (evaluate_body E tag current goal) (\<lambda>w.
       ue_rmtree E (ue_target_dir E) (snd (git_local E [''worktree'', ''remove'', ''--force'', worktree_of E tag] w)))"

text \<open>The \<open>CtlError\<close> of the core's entry point becomes an \<open>UpgradeError\<close>; a refused command keeps raising.\<close>

definition ctl_to_upgrade :: "('w, 'a) uprog \<Rightarrow> ('w, 'a) uprog" where
  "ctl_to_upgrade m = (\<lambda>w. case m w of (Inl (UpgradeCtl (CtlError e c)), w') \<Rightarrow> (Inl (UpgradeError e), w') | r \<Rightarrow> r)"

definition resolved :: "(string, string) dict \<Rightarrow> string \<Rightarrow> string" where
  "resolved d k = (case dict_get d k of Some v \<Rightarrow> v | None \<Rightarrow> [])"

text \<open>The list of tags is written to a temporary directory, which is removed when the block is left.\<close>

definition resolve_target :: "'w upgrade_env \<Rightarrow> string option \<Rightarrow> string list \<Rightarrow> ('w, py_answer) uprog" where
  "resolve_target E version tags =
     (let tags_file = path_join (ue_tags_dir E) ''tags''
      in ufinally (\<lambda>w. py_cli E ''upgrade-resolve'' None
             ((''--tags-file='' @ tags_file) # (case version of Some v \<Rightarrow> [''--version='' @ v] | None \<Rightarrow> []))
             (ue_write E tags_file (concat (map (\<lambda>v. CHR ''v'' # v @ [LF]) tags)) w))
           (ue_rmtree E (ue_tags_dir E)))"

definition check_body :: "'w upgrade_env \<Rightarrow> string option \<Rightarrow> ('w, upgrade_check) uprog" where
  "check_body E version =
     ubind (read_checkout E) (\<lambda>state.
       if \<not> cs_is_git state then
         ufail (UpgradeError (tr (ue_i18n E) ''%(repo)s is not a git checkout, so it cannot be moved to a release tag''
           [(''repo'', repo_path (ue_workspace_dir E))]))
       else ubind (fetch_tags E) (\<lambda>fetch_error.
         ubind (if fetch_error = [] then uret None
                else ubind (origin_url E) (\<lambda>origin.
                  uret (Some (repo_path (ue_workspace_dir E), origin, fst (ue_user E), snd (ue_user E))))) (\<lambda>hint_args.
         ubind (local_tags E) (\<lambda>tags.
         ubind (resolve_target E version tags) (\<lambda>(code, out, err).
           if code \<noteq> 0 then ufail (UpgradeError (if py_strip err \<noteq> [] then py_strip err
             else tr (ue_i18n E) ''could not resolve a target release'' []))
           else let r = parse_resolve_tsv out; current = resolved r ''CURRENT''; tag = resolved r ''TAG'';
                    check = \<lparr>uc_current = current, uc_target = resolved r ''TARGET'', uc_tag = tag, uc_status = resolved r ''STATUS'',
                      uc_available = newer_than tags current, uc_migrations = [], uc_gate = \<lparr>ga_passed = True, ga_results = []\<rparr>,
                      uc_fetch_error = fetch_error,
                      uc_fetch_hint = (case hint_args of None \<Rightarrow> []
                        | Some (repo, origin, uid, gid) \<Rightarrow> fetch_hint (ue_i18n E) (ue_host_of E) fetch_error repo origin uid gid),
                      uc_checked_at = ue_now E, uc_hint_args = hint_args, uc_hint_locale = ue_locale E\<rparr>
                in if \<not> uc_up_to_date check \<and> tag \<noteq> []
                   then ubind (ctl_to_upgrade (evaluate_target E tag current (uc_target check))) (\<lambda>(g, ms).
                     uret (check\<lparr>uc_gate := g, uc_migrations := ms\<rparr>))
                   else uret check)))))"

record 'w upgrade_site =
  us_world :: 'w
  us_cached :: "upgrade_check option"

definition run_check :: "'w upgrade_env \<Rightarrow> string option \<Rightarrow> 'w upgrade_site \<Rightarrow> (up_error + upgrade_check) \<times> 'w upgrade_site" where
  "run_check E version st =
     (case check_body E version (us_world st) of
        (Inl e, w) \<Rightarrow> (Inl e, st\<lparr>us_world := w\<rparr>)
      | (Inr check, w) \<Rightarrow> (Inr check, \<lparr>us_world = w, us_cached = Some check\<rparr>))"

definition reset_cache :: "'w upgrade_site \<Rightarrow> 'w upgrade_site" where
  "reset_cache st = st\<lparr>us_cached := None\<rparr>"

definition newer_releases :: "'w upgrade_env \<Rightarrow> ('w, string list option) uprog" where
  "newer_releases E =
     ubind (ucatch (ubind (git_local E [''rev-parse'', ''--git-dir'']) (\<lambda>_. uret True)) (\<lambda>_. uret False)) (\<lambda>is_git.
       if \<not> is_git then uret None
       else (\<lambda>w. case current_version (ue_yaml E) (ue_files E w) (ue_config_dir E) (ue_workspace_dir E) of
           Inl e \<Rightarrow> (Inl (UpgradeExn e), w)
         | Inr v \<Rightarrow>
             (if \<not> is_valid_target_version (vs_current v) then uret None
              else ubind (fetch_tags E) (\<lambda>_. ubind (local_tags E) (\<lambda>tags. uret (Some (newer_than tags (vs_current v)))))) w))"

section \<open>What is run\<close>

lemma only_runs_catch: "only_runs calls P m \<Longrightarrow> (\<And>e. only_runs calls P (h e)) \<Longrightarrow> only_runs calls P (ucatch m h)"
  unfolding ucatch_def by (rule only_runs_catching)

lemma only_runs_ctl: "only_runs calls P m \<Longrightarrow> only_runs calls P (ctl_to_upgrade m)"
proof -
  have "snd (ctl_to_upgrade m w) = snd (m w)" for w
    by (auto simp: ctl_to_upgrade_def split: prod.splits sum.splits up_error.splits ctl_fault.splits)
  then show "only_runs calls P m \<Longrightarrow> ?thesis" by (simp add: only_runs_def)
qed

lemmas upgrade_runs_intros = only_runs_catch only_runs_ctl only_runs_intros

text \<open>A site whose world lists the commands that were run.\<close>

locale recorded_site = listing_world "ue_proc E" calls
  for E :: "'w upgrade_env" and calls :: "'w \<Rightarrow> string list list" +
  assumes write_unlisted: "calls (ue_write E p t w) = calls w"
    and rmtree_unlisted: "calls (ue_rmtree E p w) = calls w"
begin

abbreviation repo where "repo \<equiv> repo_path (ue_workspace_dir E)"

lemma run_git_calls: "calls (snd (run_git E args limit w)) = calls w @ [git_cmd repo args]"
  using proc_listed [of "git_cmd repo args" "git_env E" "Some limit" w]
  by (auto simp: run_git_def Let_def split: prod.splits child.splits)

lemma git_only: "P (git_cmd repo args) \<Longrightarrow> only_runs calls P (run_git E args limit)" "P (git_cmd repo args) \<Longrightarrow> only_runs calls P (git_local E args)"
  by (simp_all add: only_runs_def git_local_def git_at_def run_git_calls)

lemma py_cli_calls:
  assumes "command \<in> ALLOWED_PY_COMMANDS"
  shows "calls (snd (py_cli E command root flags w)) = calls w @ [py_cmd command (ue_workspace_dir E) (ue_config_dir E) root flags]"
proof -
  let ?c = "py_cmd command (ue_workspace_dir E) (ue_config_dir E) root flags"
  let ?e = "dict_update (py_env (ue_environ E) (ue_workspace_dir E) (ue_config_dir E)) []"
  obtain ch w1 where p: "ue_proc E (?c, ?e) None w = (ch, w1)" by fastforce
  have "calls w1 = calls w @ [?c]" using proc_listed [of ?c ?e None w] p by simp
  then show ?thesis using assms p by (auto simp: py_cli_def run_py_cli_def run_py_def split: sum.splits)
qed

lemma py_only:
  "command \<in> ALLOWED_PY_COMMANDS \<Longrightarrow> P (py_cmd command (ue_workspace_dir E) (ue_config_dir E) root flags) \<Longrightarrow> only_runs calls P (py_cli E command root flags)"
  by (simp add: only_runs_def py_cli_calls)

lemma evaluate_body_only:
  assumes "\<And>args. hd args = ''worktree'' \<Longrightarrow> P (git_cmd repo args)"
    "\<And>command root flags. command \<in> {''addon-check'', ''upgrade-plan''} \<Longrightarrow> P (py_cmd command (ue_workspace_dir E) (ue_config_dir E) root flags)"
  shows "only_runs calls P (evaluate_body E tag current goal)"
  unfolding evaluate_body_def lift_gate_def
  by (intro upgrade_runs_intros git_only py_only) (use assms in \<open>simp_all add: ALLOWED_PY_COMMANDS_def\<close>)

lemma evaluate_ends_with_removal:
  "\<exists>mid. calls (snd (evaluate_target E tag current goal w))
    = calls w @ mid @ [git_cmd repo [''worktree'', ''remove'', ''--force'', worktree_of E tag]]"
proof -
  have "only_runs calls (\<lambda>_. True) (evaluate_body E tag current goal)" by (rule evaluate_body_only) simp_all
  then obtain mid where "calls (snd (evaluate_body E tag current goal w)) = calls w @ mid" unfolding only_runs_def by blast
  then show ?thesis
    by (intro exI [of _ mid]) (simp add: evaluate_target_def ufinally_def rmtree_unlisted git_local_def git_at_def run_git_calls case_prod_beta)
qed

lemma evaluate_target_only:
  assumes "\<And>args. hd args = ''worktree'' \<Longrightarrow> P (git_cmd repo args)"
    "\<And>command root flags. command \<in> {''addon-check'', ''upgrade-plan''} \<Longrightarrow> P (py_cmd command (ue_workspace_dir E) (ue_config_dir E) root flags)"
  shows "only_runs calls P (evaluate_target E tag current goal)"
  unfolding only_runs_def
proof
  fix w
  obtain mid where "calls (snd (evaluate_body E tag current goal w)) = calls w @ mid" "list_all P mid"
    using evaluate_body_only [of P tag current goal] assms unfolding only_runs_def by blast
  then show "\<exists>mid. calls (snd (evaluate_target E tag current goal w)) = calls w @ mid \<and> list_all P mid"
    using assms(1) [of "[''worktree'', ''remove'', ''--force'', worktree_of E tag]"]
    by (intro exI [of _ "mid @ [git_cmd repo [''worktree'', ''remove'', ''--force'', worktree_of E tag]]"])
      (simp add: evaluate_target_def ufinally_def rmtree_unlisted git_local_def git_at_def run_git_calls case_prod_beta)
qed

lemma check_only:
  assumes "\<And>args. hd args \<in> {''rev-parse'', ''status'', ''describe'', ''worktree''} \<Longrightarrow> P (git_cmd repo args)"
    "\<And>args. take 2 args \<in> {[''remote'', ''get-url''], [''tag'', ''--list''], [''fetch'', ''--tags'']} \<Longrightarrow> P (git_cmd repo args)"
    "\<And>command root flags. command \<in> {''upgrade-resolve'', ''addon-check'', ''upgrade-plan''} \<Longrightarrow> P (py_cmd command (ue_workspace_dir E) (ue_config_dir E) root flags)"
  shows "only_runs calls P (check_body E version)"
proof -
  have resolve: "only_runs calls P (resolve_target E version tags)" for tags
    using py_cli_calls [of "''upgrade-resolve''"] assms(3)
    by (simp add: only_runs_def resolve_target_def ufinally_def case_prod_beta ALLOWED_PY_COMMANDS_def write_unlisted rmtree_unlisted Let_def)
  have eval: "only_runs calls P (evaluate_target E tag current goal)" for tag current goal
    by (rule evaluate_target_only) (use assms in simp_all)
  show ?thesis
    unfolding check_body_def read_checkout_def fetch_tags_def origin_url_def local_tags_def Let_def
    by (intro upgrade_runs_intros resolve eval git_only) (use assms(1,2) in simp_all)
qed

end

section \<open>Recording a site\<close>

text \<open>Any site, with its world extended by the list of the commands that were run.\<close>

definition recording :: "'w upgrade_env \<Rightarrow> (string list list \<times> 'w) upgrade_env" where
  "recording E = \<lparr>ue_i18n = ue_i18n E,
     ue_proc = recording_proc (ue_proc E),
     ue_environ = ue_environ E, ue_askpass = ue_askpass E, ue_workspace_dir = ue_workspace_dir E, ue_config_dir = ue_config_dir E,
     ue_yaml = ue_yaml E, ue_files = (\<lambda>(_, w). ue_files E w), ue_json = ue_json E, ue_host_of = ue_host_of E, ue_now = ue_now E,
     ue_locale = ue_locale E, ue_user = ue_user E, ue_tags_dir = ue_tags_dir E, ue_target_dir = ue_target_dir E,
     ue_write = (\<lambda>p t (done, w). (done, ue_write E p t w)), ue_rmtree = (\<lambda>p (done, w). (done, ue_rmtree E p w))\<rparr>"

interpretation recorded: recorded_site "recording E" fst for E :: "'w upgrade_env"
  by unfold_locales (auto simp: recording_def recorded_proc.proc_listed split: prod.splits)

text \<open>The commands that only ask: git commands that leave the checkout as it is, and the core's read-only answers.\<close>

definition asking :: "'w upgrade_env \<Rightarrow> string list \<Rightarrow> bool" where
  "asking E cmd \<longleftrightarrow>
     (\<exists>args. cmd = git_cmd (repo_path (ue_workspace_dir E)) args
        \<and> (hd args \<in> {''rev-parse'', ''status'', ''describe'', ''worktree''}
           \<or> take 2 args \<in> {[''remote'', ''get-url''], [''tag'', ''--list''], [''fetch'', ''--tags'']}))
     \<or> (\<exists>command root flags. cmd = py_cmd command (ue_workspace_dir E) (ue_config_dir E) root flags
        \<and> command \<in> {''upgrade-resolve'', ''addon-check'', ''upgrade-plan''})"

text \<open>C15: 
  The check only ever asks: whatever git, the core and the remote answer, and wherever it ends, every command a check has run is one that
  reads, fetches tags or handles the worktree of the inspection; none moves the checkout or starts the upgrade.
\<close>

theorem check_only_asks:
  "\<exists>mid. fst (snd (check_body (recording E) version (past, w))) = past @ mid \<and> list_all (asking E) mid"
proof -
  have f: "ue_workspace_dir (recording E) = ue_workspace_dir E" "ue_config_dir (recording E) = ue_config_dir E"
    by (simp_all add: recording_def)
  have "only_runs fst (asking E) (check_body (recording E) version)"
    by (rule recorded.check_only) (auto simp: asking_def f)
  then show ?thesis unfolding only_runs_def by (metis fst_conv)
qed

text \<open>C27: 
  The worktree of an inspection never outlives it: however the inspection ends, in an answer, an error of git or of the core, or a
  report that cannot be read, the last command it runs removes the worktree.
\<close>

theorem inspection_worktree_removed:
  "\<exists>mid. fst (snd (evaluate_target (recording E) tag current goal (past, w)))
    = past @ mid @ [git_cmd (repo_path (ue_workspace_dir E)) [''worktree'', ''remove'', ''--force'', path_join (ue_target_dir E) tag]]"
proof -
  have f: "ue_workspace_dir (recording E) = ue_workspace_dir E" "worktree_of (recording E) tag = path_join (ue_target_dir E) tag"
    by (simp_all add: recording_def worktree_of_def)
  show ?thesis using recorded.evaluate_ends_with_removal [of E tag current goal "(past, w)"] unfolding f by simp
qed

section \<open>The answer\<close>

definition answer_ok :: "upgrade_check \<Rightarrow> bool" where
  "answer_ok c \<longleftrightarrow>
     (uc_up_to_date c \<or> uc_tag c = [] \<longrightarrow> uc_migrations c = [] \<and> ga_passed (uc_gate c))
     \<and> (is_valid_target_version (uc_current c) \<longrightarrow> list_all (\<lambda>v. release_key (uc_current c) < release_key v) (uc_available c))
     \<and> (uc_fetch_error c = [] \<longleftrightarrow> uc_hint_args c = None)"

text \<open>
  What the page shows is the last check that came to an end: a check that fails leaves the cached answer alone, and one that
  succeeds is cached as it was returned, offers only versions ahead of the one deployed when that is a release (and all versions
  otherwise), has no migrations and no objection when there is nothing to upgrade to, and can explain a failed fetch in every
  language.
\<close>

theorem check_answer_cached:
  "case run_check E version st of
     (Inl _, st') \<Rightarrow> us_cached st' = us_cached st
   | (Inr c, st') \<Rightarrow> us_cached st' = Some c \<and> answer_ok c"
proof -
  have hint: "yields (\<lambda>h. fetch_error = [] \<longleftrightarrow> h = None) (if fetch_error = [] then uret None
      else ubind (origin_url E) (\<lambda>origin. uret (Some (repo_path (ue_workspace_dir E), origin, fst (ue_user E), snd (ue_user E)))))"
    for fetch_error by (intro yields_if yields_bind) simp_all
  have "yields answer_ok (check_body E version)"
    unfolding check_body_def Let_def
    by (intro yields_if yields_case yields_bind_of [OF hint] yields_bind)
      (auto simp: answer_ok_def uc_up_to_date_def newer_than_def list_all_iff)
  then have "case fst (check_body E version (us_world st)) of Inr c \<Rightarrow> answer_ok c | Inl _ \<Rightarrow> True"
    unfolding yields_def by blast
  then show ?thesis by (auto simp: run_check_def split: prod.splits sum.splits)
qed

end
