(* ===== verification/Images.thy ===== *)
theory Images
  imports Upgrade_Log Processes
begin

text \<open>
  Docker images the stack no longer needs (\<open>core/images.py\<close>): image references, the verdict which local images are outdated, the
  three readings it rests on (what Compose declares, what containers use, what is there), and the removal, as the Upgrade page and the
  upgrade runner start it.

  docker is the process parameter \<open>ie_proc\<close>; JSON, YAML and the arithmetic of floats (\<open>int(float(s) * unit)\<close> and the decimals of a
  quotient) are parameters too. The readings that the source starts together come one after the other here: none of them changes what
  another reads. A frozen set of references is a list without repetition.
  What one \<open>print\<close> of the runner writes is taken as one line: a text of docker that holds a line break of its own, which \<open>splitlines\<close> would
  cut, is not modelled.
\<close>

datatype image_error = ImagesError string | ImagesExn py_exn

record 'w image_env =
  ie_i18n :: i18n
  ie_proc :: "'w spawn"
  ie_environ :: env
  ie_config_dir :: string
  ie_workspace_dir :: string
  ie_yaml :: yaml
  ie_files :: fs
  ie_overrides :: "string list" \<comment> \<open>the names in \<open>overrides/\<close>, in the order of the directory\<close>
  ie_json :: "string \<Rightarrow> string + pyval"
  ie_scaled :: "string \<Rightarrow> int \<Rightarrow> py_exn + int"
  ie_decimal :: "nat \<Rightarrow> int \<Rightarrow> nat \<Rightarrow> string" \<comment> \<open>digits after the point, the number, how often it is divided by 1000\<close>
  ie_trunc :: "string \<Rightarrow> py_exn + int"
  ie_exn_text :: "py_exn \<Rightarrow> string"

type_synonym ('w, 'a) iprog = "(image_error, 'w, 'a) eprog"

definition CORE_SOURCE :: string where "CORE_SOURCE = ''core''"
definition HUB_HOSTS :: "string list" where "HUB_HOSTS = [''docker.io/'', ''index.docker.io/'', ''registry-1.docker.io/'']"
definition DOCKER_TIMEOUT :: nat where "DOCKER_TIMEOUT = 30"
definition COMPOSE_TIMEOUT :: nat where "COMPOSE_TIMEOUT = 60"
definition REMOVE_TIMEOUT :: nat where "REMOVE_TIMEOUT = 120"
definition INSPECT_CHUNK :: nat where "INSPECT_CHUNK = 50"
definition LOG_PREFIX :: string where "LOG_PREFIX = ''[papaia-manager]''"
definition START_LINE :: string where "START_LINE = ''Removing outdated Docker images...''"
definition DONE_PREFIX :: string where "DONE_PREFIX = ''Image cleanup ''"

section \<open>References\<close>

text \<open>\<open>s.rfind(c)\<close>.\<close>

definition rfind :: "char \<Rightarrow> string \<Rightarrow> int" where
  "rfind c s = (if c \<in> set s then int (length s) - 1 - int (length (takeWhile (\<lambda>x. x \<noteq> c) (rev s))) else - 1)"

fun strip_host :: "string list \<Rightarrow> string \<Rightarrow> string" where
  "strip_host [] v = v"
| "strip_host (h # hs) v = (if startswith v h then drop (length h) v else strip_host hs v)"

definition split_tag :: "string \<Rightarrow> string \<times> string" where
  "split_tag v =
     (let colon = rfind (CHR '':'') v
      in if colon > rfind (CHR ''/'') v then (take (nat colon) v, drop (nat colon + 1) v) else (v, []))"

definition parse_ref :: "string \<Rightarrow> string \<times> string \<times> string" where
  "parse_ref ref =
     (case partition_char (CHR ''@'') (py_strip ref) of (v, _, digest) \<Rightarrow>
        (case split_tag v of (v, tag) \<Rightarrow>
           (removeprefix ''library/'' (strip_host HUB_HOSTS v),
            if tag = [] \<and> digest = [] then ''latest'' else tag, digest)))"

definition repository_of :: "string \<Rightarrow> string" where
  "repository_of ref = fst (parse_ref ref)"

definition size_unit :: "string \<Rightarrow> int option" where
  "size_unit u =
     (if u = ''B'' then Some 1 else if u \<in> {''kB'', ''KB''} then Some (10 ^ 3) else if u = ''MB'' then Some (10 ^ 6)
      else if u = ''GB'' then Some (10 ^ 9) else if u = ''TB'' then Some (10 ^ 12) else None)"

definition parse_size :: "'w image_env \<Rightarrow> string \<Rightarrow> py_exn + int" where
  "parse_size E t =
     (let s = py_strip t; number = takeWhile (\<lambda>c. is_digit c \<or> c = CHR ''.'') s
      in case size_unit (lstrip (drop (length number) s)) of
           Some u \<Rightarrow> if number = [] then Inr 0 else ie_scaled E number u
         | None \<Rightarrow> Inr 0)"

text \<open>A float below \<open>2^53\<close> divided by 1000 is below 1000 exactly when the number is below 1000 times as much.\<close>

definition format_size :: "'w image_env \<Rightarrow> int \<Rightarrow> string" where
  "format_size E n =
     (if n < 1000 then ie_decimal E 0 n 0 @ '' B''
      else if n < 1000 ^ 2 then ie_decimal E 1 n 1 @ '' kB''
      else if n < 1000 ^ 3 then ie_decimal E 1 n 2 @ '' MB''
      else ie_decimal E 1 n 3 @ '' GB'')"

section \<open>The verdict\<close>

record local_image =
  li_id :: string
  li_tags :: "string list"
  li_digests :: "string list"
  li_size :: int
  li_created :: string

record outdated_image =
  oi_id :: string
  oi_name :: string
  oi_remove :: "string list"
  oi_size :: int
  oi_created :: string
  oi_source :: string

definition oi_size_human :: "'w image_env \<Rightarrow> outdated_image \<Rightarrow> string" where
  "oi_size_human E i = format_size E (oi_size i)"

definition oi_short_id :: "outdated_image \<Rightarrow> string" where
  "oi_short_id i = take 12 (removeprefix ''sha256:'' (oi_id i))"

record image_report =
  ir_outdated :: "outdated_image list"
  ir_errors :: "string list"

definition ir_total_size :: "image_report \<Rightarrow> int" where
  "ir_total_size r = sum_list (map oi_size (ir_outdated r))"

definition ir_total_size_human :: "'w image_env \<Rightarrow> image_report \<Rightarrow> string" where
  "ir_total_size_human E r = format_size E (ir_total_size r)"

record cleanup_result =
  cl_removed :: "outdated_image list"
  cl_failed :: "(outdated_image \<times> string) list"
  cl_skipped :: "string list"

definition cl_reclaimed :: "cleanup_result \<Rightarrow> int" where
  "cl_reclaimed r = sum_list (map oi_size (cl_removed r))"

text \<open>What Compose declares, read reference by reference: the tags, the digests, and the source of each repository.\<close>

record declared_refs =
  dr_tags :: "(string \<times> string) list"
  dr_digests :: "(string \<times> string) list"
  dr_source :: "(string, string) dict"

definition setdefault :: "('k, 'v) dict \<Rightarrow> 'k \<Rightarrow> 'v \<Rightarrow> ('k, 'v) dict" where
  "setdefault d k v = (case dict_get d k of Some _ \<Rightarrow> d | None \<Rightarrow> dict_set d k v)"

definition declare_ref :: "string \<Rightarrow> declared_refs \<Rightarrow> string \<Rightarrow> declared_refs" where
  "declare_ref source d ref =
     (case parse_ref ref of (repo, tag, digest) \<Rightarrow>
        \<lparr>dr_tags = (if tag \<noteq> [] then (repo, tag) # dr_tags d else dr_tags d),
         dr_digests = (if digest \<noteq> [] then (repo, digest) # dr_digests d else dr_digests d),
         dr_source = setdefault (dr_source d) repo source\<rparr>)"

definition declared_of :: "(string, string list) dict \<Rightarrow> declared_refs" where
  "declared_of declared =
     foldl (\<lambda>d (source, refs). foldl (declare_ref source) d refs) \<lparr>dr_tags = [], dr_digests = [], dr_source = []\<rparr> declared"

definition verdict :: "declared_refs \<Rightarrow> string list \<Rightarrow> local_image \<Rightarrow> outdated_image option" where
  "verdict d used img =
     (let tags = map parse_ref (li_tags img); digests = map parse_ref (li_digests img);
          repos = map fst tags @ map fst digests;
          named = map (\<lambda>(repo, tag, _). repo @ '':'' @ tag) tags
      in if li_id img \<in> set used then None
         else if list_ex (\<lambda>(repo, tag, _). (repo, tag) \<in> set (dr_tags d)) tags then None
         else if list_ex (\<lambda>(repo, _, digest). (repo, digest) \<in> set (dr_digests d)) digests then None
         else if repos = [] \<or> \<not> list_all (\<lambda>r. r \<in> set (dict_keys (dr_source d))) repos then None
         else Some \<lparr>oi_id = li_id img,
                oi_name = (if tags \<noteq> [] then join '', '' named
                  else case hd digests of (repo, _, digest) \<Rightarrow> repo @ ''@'' @ take 19 digest),
                oi_remove = (if tags \<noteq> [] then named else [li_id img]),
                oi_size = li_size img, oi_created = li_created img,
                oi_source = the (dict_get (dr_source d) (hd (sort repos)))\<rparr>)"

definition source_key :: "outdated_image \<Rightarrow> bool \<times> string \<times> string" where
  "source_key i = (oi_source i \<noteq> CORE_SOURCE, oi_source i, oi_name i)"

definition build_report :: "(string, string list) dict \<Rightarrow> local_image list \<Rightarrow> string list \<Rightarrow> string list \<Rightarrow> image_report" where
  "build_report declared local used errors =
     (if errors \<noteq> [] then \<lparr>ir_outdated = [], ir_errors = errors\<rparr>
      else \<lparr>ir_outdated = sort_key source_key (List.map_filter (verdict (declared_of declared) used) local), ir_errors = []\<rparr>)"

section \<open>Docker\<close>

definition docker_run :: "'w image_env \<Rightarrow> string list \<Rightarrow> nat \<Rightarrow> string option \<Rightarrow> ('w, string) iprog" where
  "docker_run E args limit node w =
     (let fail = (\<lambda>m. Inl (ImagesError m)); I = ie_i18n E
      in case node of
           Some n \<Rightarrow> (fail (tr I ''docker cannot run on node %(node)s; use its node verbs'' [(''node'', n)]), w)
         | None \<Rightarrow>
             (case ie_proc E (args, ie_environ E) (Some limit) w of
                (NotInvoked exc, w') \<Rightarrow> (fail (tr I ''cannot invoke docker: %(exc)s'' [(''exc'', exc)]), w')
              | (Killed, w') \<Rightarrow>
                  (fail (tr I ''%(value)s timed out after %(limit).0fs'' [(''value'', join '' '' (take 3 args)), (''limit'', str_of_nat limit)]), w')
              | (Ended code out err, w') \<Rightarrow>
                  (if code = Some 0 then Inr out
                   else fail (if py_strip err \<noteq> [] then py_strip err
                     else ''exit code '' @ (case code of Some n \<Rightarrow> str_of_int n | None \<Rightarrow> ''None'')), w')))"

abbreviation docker_local :: "'w image_env \<Rightarrow> string list \<Rightarrow> nat \<Rightarrow> ('w, string) iprog" where
  "docker_local E args limit \<equiv> docker_run E args limit None"

function chunks_of :: "nat \<Rightarrow> 'a list \<Rightarrow> 'a list list" where
  "chunks_of n [] = []"
| "chunks_of n (x # xs) = (x # take (n - 1) xs) # chunks_of n (drop (n - 1) xs)"
  by pat_completeness auto

termination
  by (relation "measure (\<lambda>(_, xs). length xs)") auto

definition inspect_chunks :: "string list \<Rightarrow> string list list" where
  "inspect_chunks items = chunks_of INSPECT_CHUNK items"

definition filled_lines :: "string \<Rightarrow> string list" where
  "filled_lines out = filter (\<lambda>l. py_strip l \<noteq> []) (splitlines out)"

text \<open>A row of JSON: what is unreadable is an \<open>ImagesError\<close>, what is no mapping has no \<open>get\<close>.\<close>

definition json_row :: "'w image_env \<Rightarrow> string \<Rightarrow> string \<Rightarrow> image_error + (string, pyval) dict" where
  "json_row E message row =
     (case ie_json E row of
        Inl exc \<Rightarrow> Inl (ImagesError (tr (ie_i18n E) message [(''exc'', exc)]))
      | Inr (PDict d) \<Rightarrow> Inr d
      | Inr _ \<Rightarrow> Inl (ImagesExn AttributeError))"

definition exn_result :: "py_exn + 'a \<Rightarrow> image_error + 'a" where
  "exn_result r = (case r of Inl e \<Rightarrow> Inl (ImagesExn e) | Inr a \<Rightarrow> Inr a)"

definition listed_size :: "'w image_env \<Rightarrow> (string, int) dict \<Rightarrow> string \<Rightarrow> image_error + (string, int) dict" where
  "listed_size E sizes row =
     rbind (json_row E ''docker image ls gave unreadable output: %(exc)s'' row) (\<lambda>entry.
     rbind (exn_result (parse_size E (py_str_of (get_or entry ''Size'' (PStr []))))) (\<lambda>n.
       Inr (dict_set sizes (py_str_of (get_or entry ''ID'' (PStr []))) n)))"

text \<open>\<open>[str(t) for t in v or [] if t and "<none>" not in t]\<close>.\<close>

definition holds_none :: "pyval \<Rightarrow> py_exn + bool" where
  "holds_none t = (case t of
      PStr s \<Rightarrow> Inr (contains s ''<none>'')
    | PList xs \<Rightarrow> Inr (PStr ''<none>'' \<in> set xs)
    | PDict d \<Rightarrow> Inr (''<none>'' \<in> set (dict_keys d))
    | _ \<Rightarrow> Inl TypeError)"

definition real_name :: "pyval \<Rightarrow> py_exn + string list" where
  "real_name t = (if \<not> truthy t then Inr [] else rbind (holds_none t) (\<lambda>n. Inr (if n then [] else [py_str_of t])))"

definition real_names :: "pyval \<Rightarrow> py_exn + string list" where
  "real_names v = rbind (py_iter (py_or v (PList []))) (\<lambda>xs. rbind (rmap real_name xs) (\<lambda>ns. Inr (concat ns)))"

definition local_image_of :: "'w image_env \<Rightarrow> (string, pyval) dict \<Rightarrow> int \<Rightarrow> py_exn + local_image" where
  "local_image_of E entry listed =
     rbind (real_names (get_none entry ''RepoTags'')) (\<lambda>names.
     rbind (real_names (get_none entry ''RepoDigests'')) (\<lambda>digests.
     rbind (if listed \<noteq> 0 then Inr listed else py_int (ie_trunc E) (py_or (get_none entry ''Size'') (PInt 0))) (\<lambda>n.
       Inr \<lparr>li_id = py_str_of (get_or entry ''Id'' (PStr [])),
         li_tags = filter (\<lambda>n. CHR ''@'' \<notin> set n) names,
         li_digests = digests @ filter (\<lambda>n. CHR ''@'' \<in> set n \<and> n \<notin> set digests) names,
         li_size = n, li_created = py_str_of (py_or (get_none entry ''Created'') (PStr []))\<rparr>)))"

definition inspected_image :: "'w image_env \<Rightarrow> (string, int) dict \<Rightarrow> string \<Rightarrow> image_error + local_image" where
  "inspected_image E sizes row =
     rbind (json_row E ''docker image inspect gave unreadable output: %(exc)s'' row) (\<lambda>entry.
       exn_result (local_image_of E entry
         (case dict_get sizes (py_str_of (get_or entry ''Id'' (PStr []))) of Some n \<Rightarrow> n | None \<Rightarrow> 0)))"

definition local_images :: "'w image_env \<Rightarrow> ('w, local_image list) iprog" where
  "local_images E =
     ubind (docker_local E [''docker'', ''image'', ''ls'', ''--all'', ''--no-trunc'', ''--format'', ''{{json .}}''] DOCKER_TIMEOUT) (\<lambda>listing.
     ubind (ulift (\<lambda>e. e) (rfold (listed_size E) [] (filled_lines listing))) (\<lambda>sizes.
     ubind (umap (\<lambda>chunk.
         ubind (docker_local E ([''docker'', ''image'', ''inspect'', ''--format'', ''{{json .}}''] @ chunk) DOCKER_TIMEOUT) (\<lambda>out.
           ulift (\<lambda>e. e) (rmap (inspected_image E sizes) (filled_lines out))))
       (inspect_chunks (sort (filter (\<lambda>i. i \<noteq> []) (dict_keys sizes))))) (\<lambda>images.
       uret (concat images))))"

definition used_image_ids :: "'w image_env \<Rightarrow> ('w, string list) iprog" where
  "used_image_ids E =
     ubind (docker_local E [''docker'', ''ps'', ''--all'', ''--quiet'', ''--no-trunc''] DOCKER_TIMEOUT) (\<lambda>listing.
     ubind (umap (\<lambda>chunk.
         ubind (docker_local E ([''docker'', ''container'', ''inspect'', ''--format'', ''{{.Image}}''] @ chunk) DOCKER_TIMEOUT) (\<lambda>out.
           uret (map py_strip (filled_lines out))))
       (inspect_chunks (map py_strip (filled_lines listing)))) (\<lambda>ids.
       uret (remdups (concat ids))))"

section \<open>Declared images\<close>

definition compose_root :: "'w image_env \<Rightarrow> string" where
  "compose_root E = path_join (path_join (ie_workspace_dir E) ''papaia'') ''src''"

definition is_override :: "string \<Rightarrow> bool" where
  "is_override n \<longleftrightarrow> startswith n ''docker-compose.'' \<and> startswith (rev n) (rev ''.override.yml'')
     \<and> length n \<ge> length ''docker-compose.'' + length ''.override.yml''"

definition core_command :: "'w image_env \<Rightarrow> string list" where
  "core_command E =
     (let root = compose_root E; overrides = path_join (ie_config_dir E) ''overrides''
      in [''docker'', ''compose'', ''-f'', path_join root ''docker-compose.yml'']
         @ (if is_dir (ie_files E) overrides
            then concat (map (\<lambda>n. [''-f'', path_join overrides n]) (sort (filter is_override (ie_overrides E)))) else [])
         @ [''--env-file'', path_join root ''.env'', ''config'', ''--images''])"

definition addon_command :: "'w image_env \<Rightarrow> string \<Rightarrow> string list" where
  "addon_command E path =
     (let root_env = path_join (compose_root E) ''.env''; own_env = path_join path ''.env''
      in [''docker'', ''compose'', ''-p'', path_name path, ''-f'', path_join path ''docker-compose.yml'']
         @ (if is_file (ie_files E) root_env then [''--env-file'', root_env] else [])
         @ (if is_file (ie_files E) own_env then [''--env-file'', own_env] else [])
         @ [''config'', ''--images''])"

definition addon_path :: "'w image_env \<Rightarrow> string \<times> (string, pyval) dict \<Rightarrow> (string \<times> string) list" where
  "addon_path E entry =
     (let raw = py_str_of (get_or (snd entry) ''path'' (PStr []))
      in if raw = [] then []
         else [(fst entry, if startswith raw ''/'' then path_of raw else path_join (ie_workspace_dir E) raw)])"

definition addon_paths :: "'w image_env \<Rightarrow> py_exn + (string, string) dict" where
  "addon_paths E =
     rbind (load_deployment_yaml (ie_yaml E) (ie_files E) (ie_config_dir E)) (\<lambda>deployment.
     rbind (deployment_addons_by_name deployment) (\<lambda>addons.
       Inr (dict_of (concat (map (addon_path E) addons)))))"

text \<open>The command of each source, and the add-ons whose Compose file is gone.\<close>

definition compose_commands :: "'w image_env \<Rightarrow> (string, string) dict \<Rightarrow> (string, string list) dict \<times> string list" where
  "compose_commands E addons =
     foldl (\<lambda>(commands, errors) (name, path).
         if \<not> is_file (ie_files E) (path_join path ''docker-compose.yml'') then
           (commands, errors @ [tr (ie_i18n E) ''add-on %(name)s: %(path)s/docker-compose.yml does not exist''
             [(''name'', name), (''path'', path)]])
         else (dict_set commands name (addon_command E path), errors))
       ([(CORE_SOURCE, core_command E)], []) (sort_key fst addons)"

definition images_message :: "image_error \<Rightarrow> string option" where
  "images_message e = (case e of ImagesError m \<Rightarrow> Some m | _ \<Rightarrow> None)"

definition resolve_source :: "'w image_env \<Rightarrow> string \<times> string list \<Rightarrow> ('w, string \<times> (string + string list)) iprog" where
  "resolve_source E sc =
     catching images_message
       (ubind (docker_local E (snd sc) COMPOSE_TIMEOUT) (\<lambda>out.
          uret (fst sc, Inr (remdups (map py_strip (filled_lines out))))))
       (\<lambda>exc. uret (fst sc, Inl exc))"

definition source_failures :: "(string \<times> (string + string list)) list \<Rightarrow> string list" where
  "source_failures outcomes =
     List.map_filter (\<lambda>(source, r). case r of Inl e \<Rightarrow> Some (source @ '': docker compose config failed: '' @ e) | Inr _ \<Rightarrow> None) outcomes"

definition source_refs :: "(string \<times> (string + string list)) list \<Rightarrow> (string, string list) dict" where
  "source_refs outcomes =
     sort_key (\<lambda>(source, _). (source \<noteq> CORE_SOURCE, source))
       (List.map_filter (\<lambda>(source, r). case r of Inl _ \<Rightarrow> None | Inr refs \<Rightarrow> Some (source, refs)) outcomes)"

definition declared_images :: "'w image_env \<Rightarrow> ('w, (string, string list) dict \<times> string list) iprog" where
  "declared_images E =
     (if \<not> is_file (ie_files E) (path_join (compose_root E) ''docker-compose.yml'')
      then uret ([], [tr (ie_i18n E) ''the papaia checkout has no src/docker-compose.yml'' []])
      else case addon_paths E of
          Inl e \<Rightarrow>
            if e \<in> {OSError, YAMLError}
            then uret ([], [tr (ie_i18n E) ''deployment.yaml could not be read: %(exc)s'' [(''exc'', ie_exn_text E e)]])
            else ufail (ImagesExn e)
        | Inr addons \<Rightarrow>
            (case compose_commands E addons of (commands, errors) \<Rightarrow>
               ubind (umap (resolve_source E) commands) (\<lambda>outcomes.
                 uret (source_refs outcomes, errors @ source_failures outcomes))))"

section \<open>Report and removal\<close>

definition gather_report :: "'w image_env \<Rightarrow> ('w, image_report) iprog" where
  "gather_report E =
     catching images_message
       (ubind (declared_images E) (\<lambda>(declared, errors).
        ubind (local_images E) (\<lambda>local.
        ubind (used_image_ids E) (\<lambda>used.
          uret (build_report declared local used errors)))))
       (\<lambda>exc. uret \<lparr>ir_outdated = [], ir_errors = [exc]\<rparr>)"

text \<open>One image, by every reference it carries: the first failure is the reason it stays.\<close>

fun remove_refs :: "'w image_env \<Rightarrow> string list \<Rightarrow> ('w, string) iprog" where
  "remove_refs E [] = uret []"
| "remove_refs E (ref # refs) =
     ubind (catching images_message
         (ubind (docker_local E [''docker'', ''image'', ''rm'', ref] REMOVE_TIMEOUT) (\<lambda>_. uret None))
         (\<lambda>exc. uret (Some exc)))
       (\<lambda>failure. case failure of Some exc \<Rightarrow> uret exc | None \<Rightarrow> remove_refs E refs)"

definition remove_image :: "'w image_env \<Rightarrow> outdated_image \<Rightarrow> ('w, string) iprog" where
  "remove_image E img = remove_refs E (oi_remove img)"

definition removed_or_not :: "cleanup_result \<Rightarrow> outdated_image \<times> string \<Rightarrow> cleanup_result" where
  "removed_or_not r ie =
     (if snd ie \<noteq> [] then r\<lparr>cl_failed := cl_failed r @ [ie]\<rparr> else r\<lparr>cl_removed := cl_removed r @ [fst ie]\<rparr>)"

definition wanted_images :: "string list option \<Rightarrow> image_report \<Rightarrow> outdated_image list" where
  "wanted_images only rep =
     (let by_id = dict_of (map (\<lambda>i. (oi_id i, i)) (ir_outdated rep))
      in map snd (filter (\<lambda>(i, _). case only of None \<Rightarrow> True | Some ids \<Rightarrow> i \<in> set ids) by_id))"

definition skipped_ids :: "string list option \<Rightarrow> image_report \<Rightarrow> string list" where
  "skipped_ids only rep =
     (case only of None \<Rightarrow> []
      | Some ids \<Rightarrow> sort (filter (\<lambda>i. i \<notin> set (map oi_id (ir_outdated rep))) (remdups ids)))"

definition prune :: "'w image_env \<Rightarrow> string list option \<Rightarrow> ('w, cleanup_result) iprog" where
  "prune E only =
     ubind (gather_report E) (\<lambda>rep.
       if ir_errors rep \<noteq> [] then ufail (ImagesError (join ''; '' (ir_errors rep)))
       else ubind (umap (\<lambda>img. ubind (remove_image E img) (\<lambda>e. uret (img, e))) (wanted_images only rep)) (\<lambda>outcomes.
         uret (foldl removed_or_not \<lparr>cl_removed = [], cl_failed = [], cl_skipped = skipped_ids only rep\<rparr> outcomes)))"

definition say :: "string \<Rightarrow> string" where
  "say message = LOG_PREFIX @ '' '' @ message"

text \<open>What the runner prints, and the world it leaves; an error that is no \<open>ImagesError\<close> ends it after its first line.\<close>

definition run_prune :: "'w image_env \<Rightarrow> 'w \<Rightarrow> (string list \<times> py_exn option) \<times> 'w" where
  "run_prune E w =
     (case prune E None w of
        (Inl (ImagesError exc), w') \<Rightarrow>
          (([say START_LINE, say (DONE_PREFIX @ ''skipped -- nothing was removed: '' @ exc)], None), w')
      | (Inl (ImagesExn e), w') \<Rightarrow> (([say START_LINE], Some e), w')
      | (Inr result, w') \<Rightarrow>
          (([say START_LINE]
            @ map (\<lambda>i. say (''  removed '' @ oi_name i @ '' ('' @ oi_size_human E i @ '')'')) (cl_removed result)
            @ map (\<lambda>(i, reason). say (''  kept '' @ oi_name i @ '': '' @ reason)) (cl_failed result)
            @ [say (DONE_PREFIX @ ''finished: '' @ str_of_nat (length (cl_removed result)) @ '' removed, up to ''
                 @ format_size E (cl_reclaimed result) @ '' reclaimed''
                 @ (if cl_failed result \<noteq> [] then '', '' @ str_of_nat (length (cl_failed result)) @ '' kept'' else []))], None), w'))"

section \<open>Lemmas: the verdict\<close>

definition all_refs :: "(string, string list) dict \<Rightarrow> string list" where
  "all_refs declared = concat (map snd declared)"

definition tag_of :: "string \<Rightarrow> string" where "tag_of ref = fst (snd (parse_ref ref))"
definition digest_of :: "string \<Rightarrow> string" where "digest_of ref = snd (snd (parse_ref ref))"

text \<open>
  The rule, without the bookkeeping: no container uses the image; no declared reference names one of its tags or digests; it has a
  reference, and the repository of each of its references is one the stack declares.
\<close>

definition is_outdated :: "(string, string list) dict \<Rightarrow> string list \<Rightarrow> local_image \<Rightarrow> bool" where
  "is_outdated declared used img \<longleftrightarrow>
     li_id img \<notin> set used
     \<and> \<not> list_ex (\<lambda>t. list_ex (\<lambda>ref. repository_of ref = repository_of t \<and> tag_of ref = tag_of t \<and> tag_of t \<noteq> []) (all_refs declared)) (li_tags img)
     \<and> \<not> list_ex (\<lambda>d. list_ex (\<lambda>ref. repository_of ref = repository_of d \<and> digest_of ref = digest_of d \<and> digest_of d \<noteq> []) (all_refs declared)) (li_digests img)
     \<and> li_tags img @ li_digests img \<noteq> []
     \<and> list_all (\<lambda>t. list_ex (\<lambda>ref. repository_of ref = repository_of t) (all_refs declared)) (li_tags img @ li_digests img)"

lemma parse_ref_parts: "parse_ref ref = (repository_of ref, tag_of ref, digest_of ref)"
  by (simp add: repository_of_def tag_of_def digest_of_def)

lemma set_keys_setdefault: "fst ` set (setdefault d k v) = insert k (fst ` set d)"
proof (cases "dict_get d k")
  case None
  have "fst ` set (dict_set d k v) = insert k (fst ` set d)" by (induction d k v rule: dict_set.induct) auto
  then show ?thesis using None by (simp add: setdefault_def)
next
  case (Some u)
  then have "(k, u) \<in> set d" by (simp add: dict_get_def map_of_SomeD)
  then have "k \<in> fst ` set d" by force
  then show ?thesis using Some by (simp add: setdefault_def insert_absorb)
qed

lemma declare_ref_sets:
  "set (dr_tags (declare_ref source d ref)) = set (dr_tags d) \<union> (if tag_of ref \<noteq> [] then {(repository_of ref, tag_of ref)} else {})"
  "set (dr_digests (declare_ref source d ref)) = set (dr_digests d) \<union> (if digest_of ref \<noteq> [] then {(repository_of ref, digest_of ref)} else {})"
  "fst ` set (dr_source (declare_ref source d ref)) = insert (repository_of ref) (fst ` set (dr_source d))"
  by (auto simp: declare_ref_def parse_ref_parts set_keys_setdefault)

lemma declare_refs_sets:
  "set (dr_tags (foldl (declare_ref source) d refs)) = set (dr_tags d) \<union> {(repository_of r, tag_of r) |r. r \<in> set refs \<and> tag_of r \<noteq> []}"
  "set (dr_digests (foldl (declare_ref source) d refs)) = set (dr_digests d) \<union> {(repository_of r, digest_of r) |r. r \<in> set refs \<and> digest_of r \<noteq> []}"
  "fst ` set (dr_source (foldl (declare_ref source) d refs)) = fst ` set (dr_source d) \<union> repository_of ` set refs"
  by (induction refs arbitrary: d) (auto simp: declare_ref_sets split: if_splits)

lemma declared_of_sets:
  "set (dr_tags (declared_of declared)) = {(repository_of r, tag_of r) |r. r \<in> set (all_refs declared) \<and> tag_of r \<noteq> []}"
  "set (dr_digests (declared_of declared)) = {(repository_of r, digest_of r) |r. r \<in> set (all_refs declared) \<and> digest_of r \<noteq> []}"
  "fst ` set (dr_source (declared_of declared)) = repository_of ` set (all_refs declared)"
proof -
  have "set (dr_tags (foldl (\<lambda>d (source, refs). foldl (declare_ref source) d refs) d declared))
      = set (dr_tags d) \<union> {(repository_of r, tag_of r) |r. r \<in> set (all_refs declared) \<and> tag_of r \<noteq> []}
    \<and> set (dr_digests (foldl (\<lambda>d (source, refs). foldl (declare_ref source) d refs) d declared))
      = set (dr_digests d) \<union> {(repository_of r, digest_of r) |r. r \<in> set (all_refs declared) \<and> digest_of r \<noteq> []}
    \<and> fst ` set (dr_source (foldl (\<lambda>d (source, refs). foldl (declare_ref source) d refs) d declared))
      = fst ` set (dr_source d) \<union> repository_of ` set (all_refs declared)" for d
  proof (induction declared arbitrary: d)
    case (Cons sr declared)
    show ?case
      using Cons.IH [of "foldl (declare_ref (fst sr)) d (snd sr)"]
      by (auto simp: all_refs_def declare_refs_sets case_prod_beta)
  qed (simp add: all_refs_def)
  then show "set (dr_tags (declared_of declared)) = {(repository_of r, tag_of r) |r. r \<in> set (all_refs declared) \<and> tag_of r \<noteq> []}"
    "set (dr_digests (declared_of declared)) = {(repository_of r, digest_of r) |r. r \<in> set (all_refs declared) \<and> digest_of r \<noteq> []}"
    "fst ` set (dr_source (declared_of declared)) = repository_of ` set (all_refs declared)"
    by (simp_all add: declared_of_def)
qed

lemma verdict_id: "verdict d used img = Some x \<Longrightarrow> oi_id x = li_id img"
  by (auto simp: verdict_def Let_def split: if_splits)

lemma verdict_iff: "verdict (declared_of declared) used img \<noteq> None \<longleftrightarrow> is_outdated declared used img"
proof -
  have tags: "list_ex (\<lambda>(repo, tag, _). (repo, tag) \<in> set (dr_tags (declared_of declared))) (map parse_ref ts)
      \<longleftrightarrow> list_ex (\<lambda>t. list_ex (\<lambda>ref. repository_of ref = repository_of t \<and> tag_of ref = tag_of t \<and> tag_of t \<noteq> []) (all_refs declared)) ts" for ts
    by (simp add: list_ex_iff declared_of_sets parse_ref_parts) metis
  have digests: "list_ex (\<lambda>(repo, _, digest). (repo, digest) \<in> set (dr_digests (declared_of declared))) (map parse_ref ts)
      \<longleftrightarrow> list_ex (\<lambda>t. list_ex (\<lambda>ref. repository_of ref = repository_of t \<and> digest_of ref = digest_of t \<and> digest_of t \<noteq> []) (all_refs declared)) ts" for ts
    by (simp add: list_ex_iff declared_of_sets parse_ref_parts) metis
  have repos: "list_all (\<lambda>r. r \<in> set (dict_keys (dr_source (declared_of declared)))) (map fst (map parse_ref ts))
      \<longleftrightarrow> list_all (\<lambda>t. list_ex (\<lambda>ref. repository_of ref = repository_of t) (all_refs declared)) ts" for ts
    by (simp add: list_ex_iff list_all_iff declared_of_sets parse_ref_parts image_iff) metis
  show ?thesis
    unfolding verdict_def is_outdated_def Let_def list_all_append repos tags digests by auto
qed

lemma verdicts_ids:
  "map oi_id (List.map_filter (verdict (declared_of declared) used) local) = map li_id (filter (is_outdated declared used) local)"
proof (induction local)
  case (Cons img local)
  show ?case
  proof (cases "verdict (declared_of declared) used img")
    case None
    then show ?thesis using Cons verdict_iff [of declared used img] by (simp add: List.map_filter_simps)
  next
    case (Some x)
    then show ?thesis using Cons verdict_iff [of declared used img] verdict_id [OF Some] by (simp add: List.map_filter_simps)
  qed
qed (simp add: List.map_filter_simps)

text \<open>C29: 
  The clean-up lists exactly the outdated images, each once: those no container uses, that no declared reference names by tag or by digest, and
  whose references all live in repositories the stack declares. With any error in the readings it lists none.
\<close>

theorem outdated_exact:
  "mset (map oi_id (ir_outdated (build_report declared local used errors)))
    = (if errors = [] then mset (map li_id (filter (is_outdated declared used) local)) else {#})"
proof -
  have "mset (map oi_id (sort_key source_key xs)) = mset (map oi_id xs)" for xs by simp
  then show ?thesis by (simp only: build_report_def verdicts_ids simp_thms if_True if_False image_report.simps list.map mset.simps split: if_split)
      (auto simp: verdicts_ids [symmetric])
qed

section \<open>Lemmas: what is run\<close>

text \<open>The commands that only read: listings and inspections, and Compose asked for the images of its files.\<close>

definition reading :: "string list \<Rightarrow> bool" where
  "reading cmd \<longleftrightarrow>
     take 2 cmd = [''docker'', ''ps'']
     \<or> take 3 cmd \<in> {[''docker'', ''image'', ''ls''], [''docker'', ''image'', ''inspect''], [''docker'', ''container'', ''inspect'']}
     \<or> take 2 cmd = [''docker'', ''compose''] \<and> drop (length cmd - 2) cmd = [''config'', ''--images'']"

definition rm_command :: "string \<Rightarrow> string list" where
  "rm_command ref = [''docker'', ''image'', ''rm'', ref]"

lemma reading_compose: "reading ([''docker'', ''compose''] @ xs @ [''config'', ''--images''])"
  by (simp add: reading_def)

lemma core_command_reads: "reading (core_command E)"
  using reading_compose [of "[''-f'', path_join (compose_root E) ''docker-compose.yml''] @ _ @ [''--env-file'', path_join (compose_root E) ''.env'']"]
  by (simp add: core_command_def Let_def)

lemma addon_command_reads: "reading (addon_command E path)"
proof -
  let ?r = "path_join (compose_root E) ''.env''" and ?o = "path_join path ''.env''"
  show ?thesis
    using reading_compose [of "[''-p'', path_name path, ''-f'', path_join path ''docker-compose.yml'']
      @ (if is_file (ie_files E) ?r then [''--env-file'', ?r] else []) @ (if is_file (ie_files E) ?o then [''--env-file'', ?o] else [])"]
    by (simp add: addon_command_def Let_def)
qed

lemma set_dict_set: "set (dict_set d k v) \<subseteq> insert (k, v) (set d)"
  by (induction d k v rule: dict_set.induct) auto

lemma compose_commands_read: "sc \<in> set (fst (compose_commands E addons)) \<Longrightarrow> reading (snd sc)"
proof -
  let ?step = "\<lambda>(commands, errors) (name, path).
      if \<not> is_file (ie_files E) (path_join path ''docker-compose.yml'') then
        (commands, errors @ [tr (ie_i18n E) ''add-on %(name)s: %(path)s/docker-compose.yml does not exist'' [(''name'', name), (''path'', path)]])
      else (dict_set commands name (addon_command E path), errors)"
  have "(\<And>sc. sc \<in> set (fst a) \<Longrightarrow> reading (snd sc)) \<Longrightarrow> sc \<in> set (fst (foldl ?step a xs)) \<Longrightarrow> reading (snd sc)" for a xs sc
  proof (induction xs arbitrary: a)
    case (Cons np xs)
    obtain commands errors name path where ab: "a = (commands, errors)" "np = (name, path)" by (metis surj_pair)
    have sub: "set (fst (?step a np)) \<subseteq> insert (name, addon_command E path) (set (fst a))"
      using set_dict_set [of commands name "addon_command E path"] by (auto simp: ab)
    have "reading (snd sc)" if "sc \<in> set (fst (?step a np))" for sc
    proof (cases "sc = (name, addon_command E path)")
      case True
      then show ?thesis by (simp add: addon_command_reads)
    next
      case False
      then have "sc \<in> set (fst a)" using subsetD [OF sub that] by simp
      then show ?thesis by (rule Cons.prems(1))
    qed
    then show ?case using Cons.IH [of "?step a np"] Cons.prems(2) by simp
  qed simp
  from this [of "([(CORE_SOURCE, core_command E)], [])" sc "sort_key fst addons"] core_command_reads [of E]
  show "sc \<in> set (fst (compose_commands E addons)) \<Longrightarrow> reading (snd sc)" unfolding compose_commands_def by auto
qed

locale image_site = listing_world "ie_proc E" calls
  for E :: "'w image_env" and calls :: "'w \<Rightarrow> string list list"
begin

lemma docker_only: "P args \<Longrightarrow> only_runs calls P (docker_local E args limit)"
proof -
  assume P: "P args"
  have "calls (snd (docker_local E args limit w)) = calls w @ [args]" for w
    using proc_listed [of args "ie_environ E" "Some limit" w]
    by (auto simp: docker_run_def Let_def split: prod.splits child.splits)
  then show ?thesis using P by (simp add: only_runs_def)
qed

lemma report_reads: "only_runs calls reading (gather_report E)"
proof -
  have src: "only_runs calls reading (resolve_source E sc)" if "reading (snd sc)" for sc
    unfolding resolve_source_def by (intro only_runs_intros docker_only that)
  have declared: "only_runs calls reading (declared_images E)"
  proof (cases "addon_paths E")
    case (Inr addons)
    obtain commands errors where ce: "compose_commands E addons = (commands, errors)" by fastforce
    have "only_runs calls reading (umap (resolve_source E) commands)"
      by (rule only_runs_umap, rule src) (use compose_commands_read [of _ E addons] ce in simp)
    then show ?thesis unfolding declared_images_def Inr sum.case ce prod.case by (intro only_runs_intros)
  qed (auto simp: declared_images_def)
  have local: "only_runs calls reading (local_images E)"
    unfolding local_images_def by (intro only_runs_intros docker_only only_runs_umap) (simp_all add: reading_def)
  have used: "only_runs calls reading (used_image_ids E)"
    unfolding used_image_ids_def by (intro only_runs_intros docker_only only_runs_umap) (simp_all add: reading_def)
  show ?thesis unfolding gather_report_def by (intro only_runs_intros declared local used)
qed

lemma remove_refs_only: "(\<And>ref. ref \<in> set refs \<Longrightarrow> P (rm_command ref)) \<Longrightarrow> only_runs calls P (remove_refs E refs)"
proof (induction refs)
  case (Cons ref refs)
  have "only_runs calls P (docker_local E [''docker'', ''image'', ''rm'', ref] REMOVE_TIMEOUT)"
    by (rule docker_only) (use Cons.prems [of ref] in \<open>simp add: rm_command_def\<close>)
  then have "only_runs calls P (catching images_message
      (ubind (docker_local E [''docker'', ''image'', ''rm'', ref] REMOVE_TIMEOUT) (\<lambda>_. uret None)) (\<lambda>exc. uret (Some exc)))"
    by (intro only_runs_intros)
  moreover have "only_runs calls P (case failure of Some exc \<Rightarrow> uret exc | None \<Rightarrow> remove_refs E refs)" for failure
    using Cons by (cases failure) simp_all
  ultimately show ?case by (simp add: only_runs_bind)
qed simp

end

section \<open>Removal\<close>

definition recording_images :: "'w image_env \<Rightarrow> (string list list \<times> 'w) image_env" where
  "recording_images E = \<lparr>ie_i18n = ie_i18n E, ie_proc = recording_proc (ie_proc E), ie_environ = ie_environ E,
     ie_config_dir = ie_config_dir E, ie_workspace_dir = ie_workspace_dir E, ie_yaml = ie_yaml E, ie_files = ie_files E,
     ie_overrides = ie_overrides E, ie_json = ie_json E, ie_scaled = ie_scaled E, ie_decimal = ie_decimal E, ie_trunc = ie_trunc E,
     ie_exn_text = ie_exn_text E\<rparr>"

interpretation recorded_images: image_site "recording_images E" fst for E :: "'w image_env"
  by unfold_locales (simp add: recording_images_def recorded_proc.proc_listed)

text \<open>Taking an image away that a report lists and the request names, by one of its references and not by force.\<close>

definition removal_of :: "string list option \<Rightarrow> image_report \<Rightarrow> string list \<Rightarrow> bool" where
  "removal_of only rep cmd \<longleftrightarrow>
     list_ex (\<lambda>i. (case only of None \<Rightarrow> True | Some ids \<Rightarrow> oi_id i \<in> set ids) \<and> list_ex (\<lambda>ref. cmd = rm_command ref) (oi_remove i))
       (ir_outdated rep)"

lemma set_dict_of: "set (dict_of kvs) \<subseteq> set kvs"
proof -
  have "set (foldl (\<lambda>d kv. dict_set d (fst kv) (snd kv)) d kvs) \<subseteq> set d \<union> set kvs" for d
  proof (induction kvs arbitrary: d)
    case (Cons kv kvs)
    show ?case using Cons.IH [of "dict_set d (fst kv) (snd kv)"] set_dict_set [of d "fst kv" "snd kv"] by auto
  qed simp
  from this [of "[]"] show ?thesis by (simp add: dict_of_def)
qed

lemma wanted_listed:
  "img \<in> set (wanted_images only rep) \<Longrightarrow> img \<in> set (ir_outdated rep) \<and> (case only of None \<Rightarrow> True | Some ids \<Rightarrow> oi_id img \<in> set ids)"
proof -
  assume "img \<in> set (wanted_images only rep)"
  then obtain k where k: "(k, img) \<in> set (dict_of (map (\<lambda>i. (oi_id i, i)) (ir_outdated rep)))"
    "case only of None \<Rightarrow> True | Some ids \<Rightarrow> k \<in> set ids"
    by (auto simp: wanted_images_def Let_def)
  then have "k = oi_id img \<and> img \<in> set (ir_outdated rep)" using subsetD [OF set_dict_of k(1)] by auto
  then show ?thesis using k(2) by blast
qed

text \<open>C16: 
  What may be deleted is decided by the verdict, not by the request: a clean-up first reads, and the commands that follow remove, without force and one by
  one, references of images its own report lists as outdated and, if it was asked for some only, of those; when anything could not be
  read, nothing at all is removed.
\<close>

theorem prune_removes_only_outdated:
  "\<exists>before removals. fst (snd (prune (recording_images E) only (past, w))) = past @ before @ removals
    \<and> list_all reading before
    \<and> (case fst (gather_report (recording_images E) (past, w)) of
         Inl _ \<Rightarrow> removals = []
       | Inr rep \<Rightarrow> (if ir_errors rep \<noteq> [] then removals = [] else list_all (removal_of only rep) removals))"
proof -
  let ?E = "recording_images E"
  obtain r pw where g: "gather_report ?E (past, w) = (r, pw)" by (metis surj_pair)
  obtain before where b: "fst pw = past @ before" "list_all reading before"
    using recorded_images.report_reads [of E] g unfolding only_runs_def by (metis fst_conv snd_conv)
  show ?thesis
  proof (cases "\<exists>rep. r = Inr rep \<and> ir_errors rep = []")
    case True
    then obtain rep where rep: "r = Inr rep" "ir_errors rep = []" by blast
    define work where "work = umap (\<lambda>img. ubind (remove_image ?E img) (\<lambda>e. uret (img, e))) (wanted_images only rep)"
    define finish where "finish = (\<lambda>outcomes :: (outdated_image \<times> string) list.
      uret (foldl removed_or_not \<lparr>cl_removed = [], cl_failed = [], cl_skipped = skipped_ids only rep\<rparr> outcomes)
        :: (string list list \<times> 'a, cleanup_result) iprog)"
    have "only_runs fst (removal_of only rep) work"
      unfolding work_def remove_image_def
      by (intro only_runs_umap only_runs_bind recorded_images.remove_refs_only only_runs_ret)
        (auto simp: removal_of_def list_ex_iff dest!: wanted_listed)
    then have "only_runs fst (removal_of only rep) (ubind work finish)"
      by (rule only_runs_bind) (simp add: finish_def)
    then obtain removals where "fst (snd (ubind work finish pw)) = fst pw @ removals" "list_all (removal_of only rep) removals"
      unfolding only_runs_def by blast
    moreover have "prune ?E only (past, w) = ubind work finish pw"
      by (simp add: prune_def ubind_def [of "gather_report ?E"] g rep work_def finish_def)
    ultimately show ?thesis using b rep g by auto
  next
    case False
    then have "fst (snd (prune ?E only (past, w))) = fst pw"
      by (cases r) (auto simp: prune_def ubind_def g ufail_def)
    then show ?thesis using b False g by (auto split: sum.splits)
  qed
qed

section \<open>The runner's output\<close>

lemma py_rstrip_keep: "p \<noteq> [] \<Longrightarrow> \<not> is_space (last p) \<Longrightarrow> py_rstrip (p @ t) = p @ py_rstrip t"
proof -
  assume p: "p \<noteq> []" "\<not> is_space (last p)"
  then obtain q c where q: "p = q @ [c]" "\<not> is_space c" by (metis append_butlast_last_id)
  have "dropWhile is_space (ys @ c # rev q) = dropWhile is_space ys @ c # rev q" for ys
    using q(2) by (induction ys) auto
  then show ?thesis by (simp add: py_rstrip_def q(1))
qed

text \<open>What the Upgrade page keeps of a printed line that begins with a word.\<close>

lemma said_line:
  assumes "p \<noteq> []" "\<not> is_space (last p)"
  shows "strip_prefix (py_strip (say (p @ t))) = p @ py_rstrip t"
proof -
  let ?l = "LOG_PREFIX @ '' '' @ p"
  have "py_strip (say (p @ t)) = py_rstrip (?l @ t)"
    by (simp add: py_strip_def py_rstrip_def say_def LOG_PREFIX_def lstrip_def is_space_def)
  also have "\<dots> = ?l @ py_rstrip t" by (rule py_rstrip_keep) (use assms in simp_all)
  finally show ?thesis by (simp add: strip_prefix_def LOG_PREFIX_def)
qed

definition read_line :: "string \<Rightarrow> string" where
  "read_line l = strip_prefix (py_strip l)"

lemma read_lines:
  "read_line (say START_LINE) = START_LINE"
  "read_line (say (DONE_PREFIX @ ''skipped -- nothing was removed: '' @ exc)) = DONE_PREFIX @ ''skipped -- nothing was removed:'' @ py_rstrip ('' '' @ exc)"
  "read_line (say (''  removed '' @ x)) = ''  removed'' @ py_rstrip ('' '' @ x)"
  "read_line (say (''  kept '' @ x)) = ''  kept'' @ py_rstrip ('' '' @ x)"
  "read_line (say (DONE_PREFIX @ ''finished: '' @ x)) = DONE_PREFIX @ ''finished:'' @ py_rstrip ('' '' @ x)"
  using said_line [of START_LINE "[]"] said_line [of "DONE_PREFIX @ ''skipped -- nothing was removed:''" "'' '' @ exc"]
    said_line [of "''  removed''" "'' '' @ x"] said_line [of "''  kept''" "'' '' @ x"] said_line [of "DONE_PREFIX @ ''finished:''" "'' '' @ x"]
  by (simp_all add: read_line_def START_LINE_def DONE_PREFIX_def is_space_def py_rstrip_def)

lemma find_first_append: "(\<And>x. x \<in> set xs \<Longrightarrow> \<not> p x) \<Longrightarrow> find_first p (xs @ ys) = find_first p ys"
  by (induction xs) (auto simp: find_first_def)

text \<open>C30: 
  The Upgrade page and the runner agree about the clean-up: of the lines the runner prints, the page reads that it is done when the removal came to its
  end, whatever could be removed, that it was skipped when something could not be read, and that it failed when the runner broke off. Each print of the runner is taken as one line.
\<close>

theorem cleanup_read_back:
  "ph_state (images_phase I (map (\<lambda>l. strip_prefix (py_strip l)) (fst (fst (run_prune E w)))) False)
    = (case fst (prune E None w) of
         Inr _ \<Rightarrow> PHASE_DONE | Inl (ImagesError _) \<Rightarrow> PHASE_SKIPPED | Inl (ImagesExn _) \<Rightarrow> PHASE_FAILED)"
proof -
  have start: "startswith START_LINE IMAGES_START" by (simp add: START_LINE_def IMAGES_START_def)
  have fin: "startswith (DONE_PREFIX @ t) IMAGES_DONE" "removeprefix IMAGES_DONE (DONE_PREFIX @ t) = t" for t
    by (simp_all add: DONE_PREFIX_def IMAGES_DONE_def removeprefix_def)
  have other: "\<not> startswith (''  '' @ t) IMAGES_DONE" for t by (simp add: IMAGES_DONE_def)
  have m: "(\<lambda>l. strip_prefix (py_strip l)) = read_line" by (simp add: read_line_def fun_eq_iff)
  obtain r w' where p: "prune E None w = (r, w')" by fastforce
  show ?thesis
  proof (cases r)
    case (Inl e)
    show ?thesis
    proof (cases e)
      case (ImagesError exc)
      then show ?thesis using Inl p
        by (simp add: run_prune_def images_phase_def m read_lines [simplified] start Let_def find_first_def fin)
    next
      case (ImagesExn x)
      then show ?thesis using Inl p
        by (simp add: run_prune_def images_phase_def m read_lines [simplified] start Let_def find_first_def)
    qed
  next
    case (Inr result)
    define listed where "listed = map (\<lambda>i. ''  removed'' @ py_rstrip ('' '' @ oi_name i @ '' ('' @ oi_size_human E i @ '')'')) (cl_removed result)
      @ map (\<lambda>(i, reason). ''  kept'' @ py_rstrip ('' '' @ oi_name i @ '': '' @ reason)) (cl_failed result)"
    define tail where "tail = str_of_nat (length (cl_removed result)) @ '' removed, up to '' @ format_size E (cl_reclaimed result) @ '' reclaimed''
      @ (if cl_failed result \<noteq> [] then '', '' @ str_of_nat (length (cl_failed result)) @ '' kept'' else [])"
    have "map read_line (fst (fst (run_prune E w))) = START_LINE # listed @ [DONE_PREFIX @ ''finished:'' @ py_rstrip ('' '' @ tail)]"
      using Inr p by (simp add: run_prune_def read_lines [simplified] listed_def tail_def comp_def case_prod_beta)
    moreover have "find_first (\<lambda>l. startswith l IMAGES_DONE) (listed @ [DONE_PREFIX @ t]) = Some (DONE_PREFIX @ t)" for t
    proof -
      have "find_first (\<lambda>l. startswith l IMAGES_DONE) (listed @ [DONE_PREFIX @ t]) = find_first (\<lambda>l. startswith l IMAGES_DONE) [DONE_PREFIX @ t]"
        by (rule find_first_append) (auto simp: listed_def IMAGES_DONE_def)
      then show ?thesis by (simp add: find_first_def fin)
    qed
    ultimately show ?thesis using Inr p
      by (simp add: images_phase_def m start Let_def fin)
  qed
qed

text \<open>
  An add-on named \<open>core\<close> takes the place of the core among the sources, so that nothing the core declares is read.
\<close>

lemma addon_named_core_hides_core:
  assumes "is_file (ie_files E) (path_join path ''docker-compose.yml'')"
  shows "compose_commands E [(''core'', path)] = ([(CORE_SOURCE, addon_command E path)], [])"
  using assms by (simp add: compose_commands_def CORE_SOURCE_def)

end
