(* ===== verification/Snapshots.thy ===== *)
theory Snapshots
  imports Ctl Notify_Store
begin

text \<open>
  The versions of an add-on on disk (\<open>core/snapshots.py\<close>, and the copy of a local catalogue in \<open>core/catalogs.py\<close>): the
  record of what is installed, the staging of a version in a directory of its own, and the removal of the versions nothing needs.

  A path is the list of its components, as \<open>pathlib\<close> has it, and the disk an association list from paths to what they name. YAML,
  ISO times, the resolution of symbolic links, modification times, \<open>git archive\<close> and \<open>tar\<close> are parameters. Removing a tree ignores
  errors in the source and takes all of it here. A file where a directory has to be made, and a disk that cannot be written, are not modelled.
\<close>

section \<open>The disk\<close>

type_synonym ppath = "string list"
type_synonym snap_disk = "(ppath, fs_entry) dict"

definition comps :: "string \<Rightarrow> ppath" where
  "comps s = filter (\<lambda>p. p \<noteq> [] \<and> p \<noteq> ''.'') (split_char (CHR 0x2F) s)"

definition path_text :: "ppath \<Rightarrow> string" where
  "path_text p = ''/'' @ join ''/'' p"

definition on_disk :: "snap_disk \<Rightarrow> ppath \<Rightarrow> fs_entry" where
  "on_disk d p = (case dict_get d p of Some e \<Rightarrow> e | None \<Rightarrow> Absent)"

definition path_exists :: "snap_disk \<Rightarrow> ppath \<Rightarrow> bool" where
  "path_exists d p \<longleftrightarrow> on_disk d p \<noteq> Absent"

definition dir_exists :: "snap_disk \<Rightarrow> ppath \<Rightarrow> bool" where
  "dir_exists d p \<longleftrightarrow> on_disk d p = Dir"

definition below :: "ppath \<Rightarrow> ppath \<Rightarrow> bool" where
  "below p q \<longleftrightarrow> take (length p) q = p"

definition rmtree :: "ppath \<Rightarrow> snap_disk \<Rightarrow> snap_disk" where
  "rmtree p d = filter (\<lambda>(q, _). \<not> below p q) d"

definition rmdir :: "ppath \<Rightarrow> snap_disk \<Rightarrow> snap_disk" where
  "rmdir p d = (if dir_exists d p \<and> \<not> list_ex (\<lambda>(q, _). below p q \<and> q \<noteq> p) d then dict_del d p else d)"

text \<open>\<open>mkdir(parents=True, exist_ok=True)\<close>: every prefix that is not there yet.\<close>

definition mkdirs :: "ppath \<Rightarrow> snap_disk \<Rightarrow> snap_disk" where
  "mkdirs p d = foldl (\<lambda>d n. if path_exists d (take n p) then d else dict_set d (take n p) Dir) d [1..<Suc (length p)]"

definition move_tree :: "ppath \<Rightarrow> ppath \<Rightarrow> snap_disk \<Rightarrow> snap_disk" where
  "move_tree p q d = map (\<lambda>(r, e). (if below p r then q @ drop (length p) r else r, e)) d"

definition copy_tree :: "ppath \<Rightarrow> ppath \<Rightarrow> snap_disk \<Rightarrow> snap_disk" where
  "copy_tree src dst d =
     foldl (\<lambda>t (r, e). dict_set t (dst @ drop (length src) r) e) d (filter (\<lambda>(r, _). below src r) d)"

definition child_names :: "snap_disk \<Rightarrow> ppath \<Rightarrow> string list" where
  "child_names d p = map (\<lambda>(q, _). last q) (filter (\<lambda>(q, _). below p q \<and> length q = Suc (length p)) d)"

section \<open>What is installed\<close>

datatype snap_error = RuntimeError string | SnapExn py_exn

record snap_lib =
  sl_load :: yaml
  sl_dump :: "pyval \<Rightarrow> string"
  sl_fromiso :: "string \<Rightarrow> iso_time option"
  sl_iso :: "iso_time \<Rightarrow> string"
  sl_resolve :: "snap_disk \<Rightarrow> ppath \<Rightarrow> ppath option"
  sl_mtime :: "snap_disk \<Rightarrow> ppath \<Rightarrow> int"
  sl_head :: "snap_disk \<Rightarrow> ppath \<Rightarrow> string"
  sl_archive :: "snap_disk \<Rightarrow> ppath \<Rightarrow> string \<Rightarrow> string + (ppath \<times> fs_entry) list"
  sl_untar :: "(ppath \<times> fs_entry) list \<Rightarrow> ppath \<Rightarrow> snap_disk \<Rightarrow> string + snap_disk"

definition MAX_SNAPSHOTS :: nat where "MAX_SNAPSHOTS = 3"

definition is_hex_char :: "char \<Rightarrow> bool" where
  "is_hex_char c \<longleftrightarrow> is_digit c \<or> c \<in> set ''abcdef''"

definition revision_body :: "string \<Rightarrow> bool" where
  "revision_body s \<longleftrightarrow>
     length s = 12 \<and> list_all is_hex_char s
     \<or> startswith s ''local-'' \<and> length s = 20 \<and> list_all is_digit (drop 6 s)"

definition is_revision :: "string \<Rightarrow> bool" where
  "is_revision s \<longleftrightarrow> match_dollar revision_body s"

record snap_history_entry =
  he_commit :: string
  he_manifest_version :: string
  he_installed_at :: iso_time

record installed_entry =
  in_catalog :: string
  in_commit :: string
  in_manifest_version :: string
  in_installed_at :: iso_time
  in_managed :: bool
  in_history :: "snap_history_entry list"

definition installed_path :: "string \<Rightarrow> ppath" where
  "installed_path config_dir = comps config_dir @ [''manager'', ''installed.yaml'']"

text \<open>\<open>v[k]\<close> with a text: a mapping may miss it, anything else has no such subscript.\<close>

definition py_item :: "pyval \<Rightarrow> string \<Rightarrow> py_exn + pyval" where
  "py_item v k = (case v of PDict d \<Rightarrow> (case dict_get d k of Some x \<Rightarrow> Inr x | None \<Rightarrow> Inl KeyError) | _ \<Rightarrow> Inl TypeError)"

definition iso_item :: "snap_lib \<Rightarrow> pyval \<Rightarrow> py_exn + iso_time" where
  "iso_item L v =
     rbind (py_item v ''installed_at'') (\<lambda>t. case sl_fromiso L (py_str_of t) of Some m \<Rightarrow> Inr m | None \<Rightarrow> Inl ValueError)"

definition history_item :: "snap_lib \<Rightarrow> pyval \<Rightarrow> py_exn + snap_history_entry" where
  "history_item L v =
     rbind (py_item v ''commit'') (\<lambda>c.
     rbind (py_item v ''manifest_version'') (\<lambda>m.
     rbind (iso_item L v) (\<lambda>t.
       Inr \<lparr>he_commit = py_str_of c, he_manifest_version = py_str_of m, he_installed_at = t\<rparr>)))"

text \<open>Every error of an item is one of the three that are caught.\<close>

definition load_history :: "snap_lib \<Rightarrow> pyval \<Rightarrow> snap_history_entry list" where
  "load_history L raw =
     (case raw of
        PList items \<Rightarrow> List.map_filter (\<lambda>v. case history_item L v of Inr h \<Rightarrow> Some h | Inl _ \<Rightarrow> None) (take MAX_SNAPSHOTS items)
      | _ \<Rightarrow> [])"

definition installed_item :: "snap_lib \<Rightarrow> pyval \<Rightarrow> py_exn + installed_entry" where
  "installed_item L v =
     rbind (py_item v ''catalog'') (\<lambda>cat.
     rbind (py_item v ''commit'') (\<lambda>c.
     rbind (py_item v ''manifest_version'') (\<lambda>m.
     rbind (iso_item L v) (\<lambda>t.
     rbind (case v of PDict d \<Rightarrow> Inr d | _ \<Rightarrow> Inl AttributeError) (\<lambda>d.
       Inr \<lparr>in_catalog = py_str_of cat, in_commit = py_str_of c, in_manifest_version = py_str_of m, in_installed_at = t,
         in_managed = truthy (get_or d ''managed'' (PBool True)), in_history = load_history L (get_none d ''history'')\<rparr>)))))"

definition installed_step ::
  "snap_lib \<Rightarrow> (string, installed_entry) dict \<Rightarrow> string \<times> pyval \<Rightarrow> py_exn + (string, installed_entry) dict" where
  "installed_step L found nv =
     (case installed_item L (snd nv) of
        Inr e \<Rightarrow> Inr (dict_set found (fst nv) e)
      | Inl e \<Rightarrow> if e \<in> {KeyError, ValueError} then Inr found else Inl e)"

text \<open>The document of \<open>installed.yaml\<close>; no file is an empty one.\<close>

definition installed_document :: "snap_lib \<Rightarrow> string \<Rightarrow> snap_disk \<Rightarrow> py_exn + pyval" where
  "installed_document L config_dir d =
     (let path = installed_path config_dir
      in if \<not> path_exists d path then Inr (PDict [])
         else case on_disk d path of
             Text t \<Rightarrow> (case sl_load L t of Some v \<Rightarrow> Inr (py_or v (PDict [])) | None \<Rightarrow> Inl YAMLError)
           | NotUtf8 \<Rightarrow> Inl UnicodeDecodeError
           | _ \<Rightarrow> Inl OSError)"

definition mapping_of :: "pyval \<Rightarrow> py_exn + (string, pyval) dict" where
  "mapping_of v = (case v of PDict d \<Rightarrow> Inr d | _ \<Rightarrow> Inl AttributeError)"

definition load_installed :: "snap_lib \<Rightarrow> string \<Rightarrow> snap_disk \<Rightarrow> py_exn + (string, installed_entry) dict" where
  "load_installed L config_dir d =
     rbind (installed_document L config_dir d) (\<lambda>raw.
     rbind (mapping_of raw) (\<lambda>doc.
     rbind (mapping_of (get_or doc ''addons'' (PDict []))) (\<lambda>addons.
       rfold (installed_step L) [] addons)))"

definition history_value :: "snap_lib \<Rightarrow> snap_history_entry \<Rightarrow> pyval" where
  "history_value L h = PDict [(''commit'', PStr (he_commit h)), (''manifest_version'', PStr (he_manifest_version h)),
     (''installed_at'', PStr (sl_iso L (he_installed_at h)))]"

definition setdefault_key :: "(string, pyval) dict \<Rightarrow> string \<Rightarrow> pyval \<Rightarrow> (string, pyval) dict" where
  "setdefault_key d k v = (case dict_get d k of Some _ \<Rightarrow> d | None \<Rightarrow> dict_set d k v)"

definition write_installed :: "snap_lib \<Rightarrow> string \<Rightarrow> (string, pyval) dict \<Rightarrow> snap_disk \<Rightarrow> snap_disk" where
  "write_installed L config_dir doc d = dict_set d (installed_path config_dir) (Text (sl_dump L (PDict doc)))"

definition installed_value ::
  "snap_lib \<Rightarrow> iso_time \<Rightarrow> string \<Rightarrow> string \<Rightarrow> string \<Rightarrow> bool \<Rightarrow> snap_history_entry list option \<Rightarrow> pyval \<Rightarrow> pyval" where
  "installed_value L now catalog commit version managed history kept =
     PDict ([(''catalog'', PStr catalog), (''commit'', PStr commit), (''manifest_version'', PStr version),
         (''installed_at'', PStr (sl_iso L now)), (''managed'', PBool managed)]
       @ (case history of
            Some hs \<Rightarrow> [(''history'', PList (map (history_value L) (take MAX_SNAPSHOTS hs)))]
          | None \<Rightarrow> if truthy kept then [(''history'', kept)] else []))"

definition record_installed ::
  "snap_lib \<Rightarrow> string \<Rightarrow> iso_time \<Rightarrow> string \<Rightarrow> string \<Rightarrow> string \<Rightarrow> string \<Rightarrow> bool \<Rightarrow> snap_history_entry list option \<Rightarrow> snap_disk
    \<Rightarrow> py_exn + snap_disk" where
  "record_installed L config_dir now name catalog commit version managed history d =
     rbind (installed_document L config_dir d) (\<lambda>raw.
     rbind (mapping_of raw) (\<lambda>doc0.
       let doc = setdefault_key (setdefault_key doc0 ''version'' (PInt 1)) ''addons'' (PDict [])
       in rbind (mapping_of (get_none doc ''addons'')) (\<lambda>addons.
          rbind (mapping_of (py_or (get_none addons name) (PDict []))) (\<lambda>before.
            let entry = installed_value L now catalog commit version managed history (get_none before ''history'')
            in Inr (write_installed L config_dir (dict_set doc ''addons'' (PDict (dict_set addons name entry)))
                 (mkdirs (butlast (installed_path config_dir)) d))))))"

definition remove_installed :: "snap_lib \<Rightarrow> string \<Rightarrow> string \<Rightarrow> snap_disk \<Rightarrow> py_exn + snap_disk" where
  "remove_installed L config_dir name d =
     (if \<not> path_exists d (installed_path config_dir) then Inr d
      else rbind (installed_document L config_dir d) (\<lambda>raw.
           rbind (mapping_of raw) (\<lambda>doc.
             case dict_get doc ''addons'' of
               None \<Rightarrow> Inr (write_installed L config_dir doc d)
             | Some v \<Rightarrow> rbind (mapping_of v) (\<lambda>addons.
                 Inr (write_installed L config_dir (dict_set doc ''addons'' (PDict (dict_del addons name))) d)))))"

section \<open>Staging\<close>

definition staging_of :: "ppath \<Rightarrow> ppath" where
  "staging_of dest = butlast dest @ [''_'' @ last dest @ ''.staging'']"

definition prev_of :: "ppath \<Rightarrow> ppath" where
  "prev_of dest = butlast dest @ [''_'' @ last dest @ ''.prev'']"

text \<open>The swap: what was there moves aside, and the staged tree takes its place.\<close>

definition swap_staged :: "ppath \<Rightarrow> snap_disk \<Rightarrow> snap_disk" where
  "swap_staged dest d =
     (let d1 = (if path_exists d (prev_of dest) then rmtree (prev_of dest) d else d);
          d2 = (if path_exists d1 dest then move_tree dest (prev_of dest) d1 else d1)
      in move_tree (staging_of dest) dest d2)"

definition fresh_staging :: "ppath \<Rightarrow> snap_disk \<Rightarrow> snap_disk" where
  "fresh_staging dest d =
     mkdirs (staging_of dest) (if path_exists d (staging_of dest) then rmtree (staging_of dest) d else d)"

definition head_sha :: "snap_lib \<Rightarrow> ppath \<Rightarrow> snap_disk \<Rightarrow> string" where
  "head_sha L clone d = py_strip (sl_head L d clone)"

definition materialize_snapshot :: "snap_lib \<Rightarrow> ppath \<Rightarrow> string \<Rightarrow> ppath \<Rightarrow> snap_disk \<Rightarrow> (snap_error + string) \<times> snap_disk" where
  "materialize_snapshot L clone subdir dest d =
     (let sha = head_sha L clone d; d1 = fresh_staging dest d
      in case sl_archive L d clone subdir of
           Inl e \<Rightarrow> (Inl (RuntimeError (''git archive failed: '' @ e)), d1)
         | Inr tar \<Rightarrow>
             (case sl_untar L tar (staging_of dest) d1 of
                Inl e \<Rightarrow> (Inl (RuntimeError (''tar extract failed: '' @ e)), d1)
              | Inr d2 \<Rightarrow> (Inr sha, swap_staged dest d2)))"

definition publish_to_workspace :: "ppath \<Rightarrow> ppath \<Rightarrow> snap_disk \<Rightarrow> snap_disk" where
  "publish_to_workspace scratch dest d = swap_staged dest (copy_tree scratch (staging_of dest) (fresh_staging dest d))"

definition materialize_local_addon :: "ppath \<Rightarrow> ppath \<Rightarrow> snap_disk \<Rightarrow> (snap_error + string) \<times> snap_disk" where
  "materialize_local_addon source dest d =
     (if \<not> path_exists d (source @ [''papaia-app.yaml''])
      then (Inl (RuntimeError (''no papaia-app.yaml under '' @ path_text source)), d)
      else (Inr ''local'', publish_to_workspace source dest d))"

definition managed_base :: "string \<Rightarrow> string \<Rightarrow> ppath" where
  "managed_base workspace_dir catalog = comps workspace_dir @ [''addons'', ''_managed'', catalog]"

definition managed_snapshot_path :: "string \<Rightarrow> string \<Rightarrow> string \<Rightarrow> string option \<Rightarrow> ppath" where
  "managed_snapshot_path workspace_dir catalog addon rv =
     managed_base workspace_dir catalog
     @ (case rv of Some r \<Rightarrow> if r \<noteq> [] then [r, addon] else [addon] | None \<Rightarrow> [addon])"

definition registered_path :: "string \<Rightarrow> string \<Rightarrow> ppath" where
  "registered_path workspace_dir raw = (if startswith raw ''/'' then comps raw else comps workspace_dir @ comps raw)"

definition installed_addon_dir :: "(string, pyval) dict option \<Rightarrow> string \<Rightarrow> string \<Rightarrow> string \<Rightarrow> ppath" where
  "installed_addon_dir entry workspace_dir catalog addon =
     (let raw = py_str_of (py_or (get_none (case entry of Some e \<Rightarrow> e | None \<Rightarrow> []) ''path'') (PStr []))
      in if raw \<noteq> [] then registered_path workspace_dir raw else managed_snapshot_path workspace_dir catalog addon None)"

section \<open>Removal\<close>

definition same_dir :: "snap_lib \<Rightarrow> snap_disk \<Rightarrow> ppath \<Rightarrow> ppath \<Rightarrow> bool" where
  "same_dir L d a b =
     (case sl_resolve L d a of
        None \<Rightarrow> a = b
      | Some ra \<Rightarrow> (case sl_resolve L d b of None \<Rightarrow> a = b | Some rb \<Rightarrow> ra = rb))"

definition drop_leftover :: "ppath \<Rightarrow> snap_disk \<Rightarrow> snap_disk" where
  "drop_leftover p d = (if path_exists d p then rmtree p d else d)"

definition remove_snapshot :: "ppath \<Rightarrow> snap_disk \<Rightarrow> snap_disk" where
  "remove_snapshot snapshot d =
     (let parent = butlast snapshot;
          d1 = drop_leftover (staging_of snapshot) (drop_leftover (prev_of snapshot) (rmtree snapshot d))
      in if parent \<noteq> [] \<and> is_revision (last parent) then rmdir parent d1 else d1)"

definition snapshot_candidates :: "snap_lib \<Rightarrow> ppath \<Rightarrow> string \<Rightarrow> snap_disk \<Rightarrow> ppath list" where
  "snapshot_candidates L base addon d =
     sort_key (\<lambda>p. - sl_mtime L d p)
       (List.map_filter (\<lambda>r.
          if \<not> is_revision r \<or> path_exists d (base @ [r, ''papaia-app.yaml'']) then None
          else if dir_exists d (base @ [r, addon]) then Some (base @ [r, addon]) else None)
        (child_names d base))"

fun prune_loop :: "snap_lib \<Rightarrow> ppath list \<Rightarrow> nat \<Rightarrow> ppath list \<Rightarrow> snap_disk \<Rightarrow> ppath list \<times> snap_disk" where
  "prune_loop L protected room [] d = ([], d)"
| "prune_loop L protected room (s # ss) d =
     (if list_ex (same_dir L d s) protected then prune_loop L protected room ss d
      else if room > 0 then prune_loop L protected (room - 1) ss d
      else case prune_loop L protected room ss (remove_snapshot s d) of (removed, d') \<Rightarrow> (s # removed, d'))"

definition prune_snapshots ::
  "snap_lib \<Rightarrow> string \<Rightarrow> string \<Rightarrow> string \<Rightarrow> ppath list \<Rightarrow> nat \<Rightarrow> snap_disk \<Rightarrow> ppath list \<times> snap_disk" where
  "prune_snapshots L workspace_dir catalog addon keep limit d =
     (let base = managed_base workspace_dir catalog; legacy = base @ [addon]
      in if \<not> dir_exists d base then ([], d)
         else case prune_loop L keep (limit - length keep) (snapshot_candidates L base addon d) d of (removed, d1) \<Rightarrow>
           if dir_exists d1 legacy \<and> \<not> list_ex (same_dir L d1 legacy) keep
           then (removed @ [legacy], remove_snapshot legacy d1) else (removed, d1))"

section \<open>Lemmas: the disk\<close>

named_theorems disk_simps

lemma on_disk_rmtree [disk_simps]: "\<not> below s q \<Longrightarrow> on_disk (rmtree s d) q = on_disk d q"
  by (induction d) (auto simp: on_disk_def rmtree_def dict_get_def)

lemma on_disk_rmdir [disk_simps]: "q \<noteq> s \<Longrightarrow> on_disk (rmdir s d) q = on_disk d q"
  by (simp add: on_disk_def rmdir_def)

lemma on_disk_leftover [disk_simps]: "\<not> below s q \<Longrightarrow> on_disk (drop_leftover s d) q = on_disk d q"
  by (simp add: drop_leftover_def on_disk_rmtree)

text \<open>Removing a snapshot leaves every path alone that is not below it or its leftovers.\<close>

definition spares :: "ppath \<Rightarrow> ppath \<Rightarrow> bool" where
  "spares s q \<longleftrightarrow> \<not> below s q \<and> \<not> below (prev_of s) q \<and> \<not> below (staging_of s) q \<and> q \<noteq> butlast s"

lemma remove_snapshot_spares [disk_simps]: "spares s q \<Longrightarrow> on_disk (remove_snapshot s d) q = on_disk d q"
  by (simp add: spares_def remove_snapshot_def Let_def disk_simps)

lemma same_dir_refl: "same_dir L d p p"
  by (simp add: same_dir_def split: option.split)

lemma prune_loop_spares:
  assumes "p \<in> set protected" "\<And>s. s \<in> set ss \<Longrightarrow> s = p \<or> spares s q"
  shows "on_disk (snd (prune_loop L protected room ss d)) q = on_disk d q"
  using assms(2)
proof (induction ss arbitrary: room d)
  case (Cons s ss)
  show ?case
  proof (cases "list_ex (same_dir L d s) protected")
    case True
    then show ?thesis using Cons by simp
  next
    case False
    then have "s \<noteq> p" using assms(1) same_dir_refl by (auto simp: list_ex_iff)
    then have "on_disk (remove_snapshot s d) q = on_disk d q" using Cons.prems by (intro remove_snapshot_spares) auto
    moreover have "on_disk (snd (prune_loop L protected r ss d')) q = on_disk d' q" for r d' using Cons by simp
    ultimately show ?thesis using False by (simp add: case_prod_beta)
  qed
qed simp

lemma revision_head: "is_revision r \<Longrightarrow> r \<noteq> CHR ''_'' # x"
  by (cases x) (auto simp: is_revision_def match_dollar_def revision_body_def is_hex_char_def is_digit_def)

lemma candidate_shape: "s \<in> set (snapshot_candidates L base addon d) \<Longrightarrow> \<exists>r. s = base @ [r, addon] \<and> is_revision r"
  by (auto simp: snapshot_candidates_def List.map_filter_def split: if_splits)

text \<open>The directories of an add-on: one for each revision, and the one of the layout before upgrades.\<close>

definition addon_dirs :: "ppath \<Rightarrow> string \<Rightarrow> ppath \<Rightarrow> bool" where
  "addon_dirs base addon p \<longleftrightarrow> p = base @ [addon] \<or> (\<exists>r. is_revision r \<and> p = base @ [r, addon])"

lemma dirs_spared:
  assumes "addon_dirs base addon s" "addon_dirs base addon p" "s \<noteq> p" "\<not> is_revision addon" "below p q"
  shows "spares s q"
proof -
  have u: "is_revision r \<Longrightarrow> r \<noteq> ''_'' @ addon @ ''.prev''" "is_revision r \<Longrightarrow> r \<noteq> ''_'' @ addon @ ''.staging''" for r
    using revision_head by auto
  obtain t where q: "q = p @ t" using assms(5) unfolding below_def by (metis append_take_drop_id)
  show ?thesis
    using assms(1-4) u revision_head unfolding addon_dirs_def
    by (auto simp: q spares_def below_def prev_of_def staging_of_def butlast_append)
qed

text \<open>C28: 
  Pruning never touches a version that must stay: every file below a directory of the add-on that is kept, the one it runs from, the one a rollback goes
  back to or one just staged, is the same afterwards, however many versions there are and whatever else is removed. The add-on may not be
  named like a revision.
\<close>

theorem prune_keeps_protected:
  assumes "p \<in> set keep" "addon_dirs (managed_base workspace_dir catalog) addon p" "\<not> is_revision addon" "below p q"
  shows "on_disk (snd (prune_snapshots L workspace_dir catalog addon keep limit d)) q = on_disk d q"
proof -
  let ?base = "managed_base workspace_dir catalog"
  let ?cs = "snapshot_candidates L ?base addon d"
  have "s = p \<or> spares s q" if "s \<in> set ?cs" for s
    using candidate_shape [OF that] dirs_spared [of ?base addon s p q] assms(2-4) by (auto simp: addon_dirs_def)
  then have loop: "on_disk (snd (prune_loop L keep (limit - length keep) ?cs d)) q = on_disk d q"
    by (rule prune_loop_spares [OF assms(1)])
  obtain removed d1 where d1: "prune_loop L keep (limit - length keep) ?cs d = (removed, d1)" by fastforce
  have "on_disk (remove_snapshot (?base @ [addon]) d1) q = on_disk d1 q" if "\<not> list_ex (same_dir L d1 (?base @ [addon])) keep"
  proof (rule remove_snapshot_spares, rule dirs_spared [of ?base addon _ p])
    show "?base @ [addon] \<noteq> p" using that assms(1) same_dir_refl by (auto simp: list_ex_iff)
  qed (use assms(2-4) in \<open>simp_all add: addon_dirs_def\<close>)
  then show ?thesis using loop d1 by (simp add: prune_snapshots_def Let_def)
qed

section \<open>Lemmas: installed.yaml\<close>

lemma installed_fold:
  assumes "dict_ok addons" "rfold (installed_step L) acc addons = Inr found"
  shows "dict_get found k = (case dict_get addons k of
      Some v \<Rightarrow> (case installed_item L v of Inr e \<Rightarrow> Some e | Inl _ \<Rightarrow> dict_get acc k) | None \<Rightarrow> dict_get acc k)"
  using assms
proof (induction addons arbitrary: acc)
  case (Cons nv addons)
  obtain n v where nv: "nv = (n, v)" by fastforce
  from Cons.prems(2) obtain acc' where a: "installed_step L acc (n, v) = Inr acc'" "rfold (installed_step L) acc' addons = Inr found"
    by (auto simp: nv rbind_def split: sum.splits)
  have n: "dict_get addons n = None" using Cons.prems(1) by (auto simp: nv dict_ok_def dict_get_def map_of_eq_None_iff)
  have acc': "dict_get acc' j = (if j = n then (case installed_item L v of Inr e \<Rightarrow> Some e | Inl _ \<Rightarrow> dict_get acc n) else dict_get acc j)" for j
    using a(1) by (auto simp: installed_step_def split: sum.splits if_splits)
  have "dict_ok addons" using Cons.prems(1) by (simp add: nv dict_ok_def)
  moreover have "dict_get ((n, v) # addons) k = (if k = n then Some v else dict_get addons k)" by (simp add: dict_get_def)
  ultimately show ?case using Cons.IH [OF _ a(2)] n by (cases "k = n") (auto simp: nv acc' split: option.split sum.split)
qed simp

definition readable :: "snap_lib \<Rightarrow> (string, pyval) dict \<Rightarrow> bool" where
  "readable L addons \<longleftrightarrow> list_all (\<lambda>(_, v). case installed_item L v of Inr _ \<Rightarrow> True | Inl e \<Rightarrow> e \<in> {KeyError, ValueError}) addons"

lemma installed_fold_ok: "(\<exists>found. rfold (installed_step L) acc addons = Inr found) \<longleftrightarrow> readable L addons"
proof (induction addons arbitrary: acc)
  case (Cons nv addons)
  show ?case using Cons.IH
    by (cases nv) (auto simp: readable_def rbind_def installed_step_def split: sum.splits)
qed (simp add: readable_def)

lemma readable_set: "readable L addons \<Longrightarrow> installed_item L v = Inr e \<Longrightarrow> readable L (dict_set addons n v)"
  by (induction addons n v rule: dict_set.induct) (auto simp: readable_def)

text \<open>What the manager relies on of YAML and of ISO times: a document that was dumped is read back, and so is a time.\<close>

definition lib_reads_back :: "snap_lib \<Rightarrow> bool" where
  "lib_reads_back L \<longleftrightarrow> (\<forall>v. sl_load L (sl_dump L v) = Some v) \<and> (\<forall>t. sl_fromiso L (sl_iso L t) = Some t)"

lemma read_history: "lib_reads_back L \<Longrightarrow> load_history L (PList (map (history_value L) hs)) = take MAX_SNAPSHOTS hs"
proof -
  assume L: "lib_reads_back L"
  have "history_item L (history_value L h) = Inr h" for h
    using L by (cases h) (simp add: history_item_def history_value_def py_item_def iso_item_def dict_get_def rbind_def py_str_of_def lib_reads_back_def)
  then have "List.map_filter (\<lambda>v. case history_item L v of Inr h \<Rightarrow> Some h | Inl _ \<Rightarrow> None) (map (history_value L) xs) = xs" for xs
    by (induction xs) (simp_all add: List.map_filter_simps)
  then show ?thesis by (simp add: load_history_def take_map)
qed

lemma read_installed:
  assumes "lib_reads_back L"
  shows "installed_item L (installed_value L now catalog commit version managed (Some hs) kept)
    = Inr \<lparr>in_catalog = catalog, in_commit = commit, in_manifest_version = version, in_installed_at = now, in_managed = managed,
        in_history = take MAX_SNAPSHOTS hs\<rparr>"
  using assms read_history [OF assms, of "take MAX_SNAPSHOTS hs"]
  by (simp add: installed_item_def installed_value_def py_item_def iso_item_def dict_get_def get_or_def rbind_def py_str_of_def lib_reads_back_def)

text \<open>C40: 
  An entry that is recorded is read back with the last three versions it ran before, and every other entry is as it was.
\<close>

theorem record_read_back:
  assumes "lib_reads_back L" "installed_document L config_dir d = Inr (PDict doc)"
    "get_or doc ''addons'' (PDict []) = PDict addons" "dict_ok addons" "load_installed L config_dir d = Inr found"
    "record_installed L config_dir now name catalog commit version managed (Some hs) d = Inr d'"
  shows "\<exists>found'. load_installed L config_dir d' = Inr found'
    \<and> (\<forall>k. dict_get found' k = (if k = name
         then Some \<lparr>in_catalog = catalog, in_commit = commit, in_manifest_version = version, in_installed_at = now, in_managed = managed,
                in_history = take MAX_SNAPSHOTS hs\<rparr>
         else dict_get found k))"
proof -
  let ?entry = "\<lparr>in_catalog = catalog, in_commit = commit, in_manifest_version = version, in_installed_at = now, in_managed = managed,
                in_history = take MAX_SNAPSHOTS hs\<rparr>"
  define doc1 where "doc1 = setdefault_key (setdefault_key doc ''version'' (PInt 1)) ''addons'' (PDict [])"
  have addons: "get_none doc1 ''addons'' = PDict addons"
    using assms(3) by (auto simp: doc1_def setdefault_key_def get_or_def split: option.splits)
  obtain before where b: "mapping_of (py_or (get_none addons name) (PDict [])) = Inr before"
    and d': "d' = write_installed L config_dir (dict_set doc1 ''addons'' (PDict (dict_set addons name
        (installed_value L now catalog commit version managed (Some hs) (get_none before ''history'')))))
      (mkdirs (butlast (installed_path config_dir)) d)"
    using assms(6) addons by (auto simp: record_installed_def assms(2) mapping_of_def rbind_def Let_def doc1_def split: sum.splits)
  let ?new = "dict_set addons name (installed_value L now catalog commit version managed (Some hs) (get_none before ''history''))"
  have doc': "installed_document L config_dir d' = Inr (PDict (dict_set doc1 ''addons'' (PDict ?new)))"
    using assms(1) by (simp add: installed_document_def d' write_installed_def path_exists_def on_disk_def lib_reads_back_def py_or_def Let_def)
  have load': "load_installed L config_dir d' = rfold (installed_step L) [] ?new"
    by (simp add: load_installed_def doc' mapping_of_def rbind_def get_or_def)
  have load: "rfold (installed_step L) [] addons = Inr found"
    using assms(2,3,5) by (simp add: load_installed_def mapping_of_def rbind_def)
  have item: "installed_item L (installed_value L now catalog commit version managed (Some hs) (get_none before ''history'')) = Inr ?entry"
    by (rule read_installed [OF assms(1)])
  have "readable L addons" using load installed_fold_ok by blast
  then have "readable L ?new" using item by (simp add: readable_set)
  then obtain found' where f: "rfold (installed_step L) [] ?new = Inr found'" using installed_fold_ok by blast
  have ok: "dict_ok ?new" using assms(4) by (simp add: dict_ok_def dict_keys_set)
  have "dict_get found' k = (if k = name then Some ?entry else dict_get found k)" for k
    using installed_fold [OF ok f, of k] installed_fold [OF assms(4) load, of k] item by (simp add: split: option.split)
  then show ?thesis using f load' by auto
qed

section \<open>Concrete versions\<close>

definition time_doc :: "iso_time \<Rightarrow> pyval" where
  "time_doc t = (case t of Aware i \<Rightarrow> PList [PInt i] | Naive i \<Rightarrow> PInt i)"

definition doc_time :: "pyval \<Rightarrow> iso_time option" where
  "doc_time v = (case v of PList [PInt i] \<Rightarrow> Some (Aware i) | PInt i \<Rightarrow> Some (Naive i) | _ \<Rightarrow> None)"

definition demo_snap_lib :: snap_lib where
  "demo_snap_lib = \<lparr>sl_load = doc_of_text, sl_dump = text_of_doc, sl_fromiso = (\<lambda>s. Option.bind (doc_of_text s) doc_time),
     sl_iso = (\<lambda>t. text_of_doc (time_doc t)), sl_resolve = (\<lambda>_ p. Some p),
     sl_mtime = (\<lambda>_ p. if ''00000000000b'' \<in> set p then 2 else 1),
     sl_head = (\<lambda>_ _. []), sl_archive = (\<lambda>_ _ _. Inr []), sl_untar = (\<lambda>_ _ d. Inr d)\<rparr>"

lemma demo_reads_back: "lib_reads_back demo_snap_lib"
proof -
  have "doc_time (time_doc t) = Some t" for t by (cases t) (simp_all add: time_doc_def doc_time_def)
  then show ?thesis by (simp add: lib_reads_back_def demo_snap_lib_def)
qed

definition demo_snapshots :: snap_disk where
  "demo_snapshots = (let base = managed_base ''/w'' ''main'' in
     [(base, Dir), (base @ [''00000000000a''], Dir), (base @ [''00000000000a'', ''n8n''], Dir),
      (base @ [''00000000000a'', ''n8n'', ''papaia-app.yaml''], Text ''old''),
      (base @ [''00000000000b''], Dir), (base @ [''00000000000b'', ''n8n''], Dir),
      (base @ [''00000000000b'', ''n8n'', ''papaia-app.yaml''], Text ''new''), (base @ [''n8n''], Dir)])"

lemma prune_keeps_protected_witness:
  "let p = managed_base ''/w'' ''main'' @ [''00000000000a'', ''n8n''];
       (removed, d') = prune_snapshots demo_snap_lib ''/w'' ''main'' ''n8n'' [p] 1 demo_snapshots
   in removed = [managed_base ''/w'' ''main'' @ [''00000000000b'', ''n8n''], managed_base ''/w'' ''main'' @ [''n8n'']]
      \<and> on_disk d' (p @ [''papaia-app.yaml'']) = Text ''old''"
proof -
  let ?p = "managed_base ''/w'' ''main'' @ [''00000000000a'', ''n8n'']"
  have r: "is_revision ''00000000000a''" "\<not> is_revision ''n8n''" by code_simp+
  have "on_disk (snd (prune_snapshots demo_snap_lib ''/w'' ''main'' ''n8n'' [?p] 1 demo_snapshots)) (?p @ [''papaia-app.yaml''])
      = on_disk demo_snapshots (?p @ [''papaia-app.yaml''])"
    by (rule prune_keeps_protected [of ?p]) (use r in \<open>simp_all add: addon_dirs_def below_def\<close>)
  moreover have "on_disk demo_snapshots (?p @ [''papaia-app.yaml'']) = Text ''old''" by code_simp
  moreover have "fst (prune_snapshots demo_snap_lib ''/w'' ''main'' ''n8n'' [?p] 1 demo_snapshots)
      = [managed_base ''/w'' ''main'' @ [''00000000000b'', ''n8n''], managed_base ''/w'' ''main'' @ [''n8n'']]" by code_simp
  ultimately show ?thesis by (simp add: case_prod_beta)
qed

lemma record_read_back_witness:
  "\<exists>d' found. record_installed demo_snap_lib ''/c'' (Aware 7) ''n8n'' ''main'' ''abc'' ''2.0.0'' True
       (Some [\<lparr>he_commit = ''aaa'', he_manifest_version = ''1.0.0'', he_installed_at = Aware 1\<rparr>]) [] = Inr d'
     \<and> load_installed demo_snap_lib ''/c'' d' = Inr found
     \<and> dict_get found ''n8n'' = Some \<lparr>in_catalog = ''main'', in_commit = ''abc'', in_manifest_version = ''2.0.0'', in_installed_at = Aware 7,
          in_managed = True, in_history = [\<lparr>he_commit = ''aaa'', he_manifest_version = ''1.0.0'', he_installed_at = Aware 1\<rparr>]\<rparr>"
proof -
  let ?hs = "[\<lparr>he_commit = ''aaa'', he_manifest_version = ''1.0.0'', he_installed_at = Aware 1\<rparr>]"
  have doc: "installed_document demo_snap_lib ''/c'' [] = Inr (PDict [])"
    by (simp add: installed_document_def path_exists_def on_disk_def Let_def)
  have load: "load_installed demo_snap_lib ''/c'' [] = Inr []"
    by (simp add: load_installed_def doc mapping_of_def rbind_def get_or_def)
  have sd: "setdefault_key (setdefault_key [] ''version'' (PInt 1)) ''addons'' (PDict []) = [(''version'', PInt 1), (''addons'', PDict [])]"
    by (simp add: setdefault_key_def dict_get_def)
  obtain d' where d': "record_installed demo_snap_lib ''/c'' (Aware 7) ''n8n'' ''main'' ''abc'' ''2.0.0'' True (Some ?hs) [] = Inr d'"
    by (simp add: record_installed_def doc sd mapping_of_def rbind_def get_or_def dict_get_def py_or_def Let_def)
  from record_read_back [OF demo_reads_back doc _ _ load d', of "[]"]
  obtain found where "load_installed demo_snap_lib ''/c'' d' = Inr found"
    "dict_get found ''n8n'' = Some \<lparr>in_catalog = ''main'', in_commit = ''abc'', in_manifest_version = ''2.0.0'', in_installed_at = Aware 7,
          in_managed = True, in_history = take MAX_SNAPSHOTS ?hs\<rparr>"
    by (auto simp: get_or_def dict_ok_def)
  then show ?thesis using d' by (simp add: MAX_SNAPSHOTS_def)
qed

text \<open>An entry of \<open>installed.yaml\<close> that is empty is not skipped: it has no subscripts, and that error is not among those caught.\<close>

lemma empty_entry_breaks_installed: "rfold (installed_step L) acc [(name, PNone)] = Inl TypeError"
  by (simp add: installed_step_def installed_item_def py_item_def rbind_def)

end
