(* ===== verification/Spec2Isabelle.thy ===== *)
theory Spec2Isabelle
  imports Semver Audit_Log Catalogs Job_Queue Job_Server Backups Runner Cron Schedule Scheduler Restore_Scope
    Inventory Services Ctl Nodes Mail Modules Overlay Config_Jobs Config_Safe Sign_In Sessions Access Notify_Model Notify_Store Notify_Detect Notify_Decide Notify_Service
    Ingest_Plan Ingest_Spec Ingest_Rules Ingest_Catalog Upgrade_Log Upgrade_Check Images Snapshots
begin

text \<open>
  \<^bold>\<open>The papAIa manager: a verification library.\<close>

  The papAIa manager is the administration service of a self-hosted AI stack. It is a Python program under
  \<open>src/src/app\<close>: FastAPI routers over a core (\<open>core/\<close>) that runs \<open>papaia-ctl\<close> and \<open>docker\<close>, keeps its own files under the
  configuration directory, and has background tasks. This library models the core as pure functions and step relations
  and proves what the rest of the manager relies on.

  \<^bold>\<open>Parts and how they interact.\<close> Every action on the stack is a job of the job queue, which runs one at a time and leaves
  audit entries. The backup scheduler puts backup jobs into the queue when a cron schedule comes due, unless a restore,
  upgrade or stack runner (a detached container) is at work; the restore points such jobs leave are catalogued, judged
  against the schedule (overdue, retention) and offered for restore by scope. Add-ons come from catalogues and are
  compared by version. People sign in at an OpenID provider; what each request may do is read from their session, and the
  routes that destroy something ask for a fresh sign-in (a step-up) first. The configuration page switches modules of the stack
  on and off, keeps the settings of the mail relay and edits the overlay files of the containers, each as a job that runs
  \<open>papaia-ctl\<close> on every node it concerns. The services page shows what the shipped Compose files declare against what docker reports. The
  ingest jobs of the vector databases are entries of one file, which the manager edits while the ingester rewrites it. The upgrade page
  asks git and the core which release is ahead and what stands in its way, without touching the checkout, and reads the output of the
  runner that carries an upgrade out, which cleans the images of the old release up at its end. The notification service looks at all of these and tells people what is new.

  \<^bold>\<open>Theories.\<close> Each opens with a text that names the source files it models and what is a parameter.
  \<^item> \<open>Py_Prelude\<close>: Python values (\<open>pyval\<close>), exceptions and the sum monad for code that raises, dicts as association
    lists in insertion order, string methods, POSIX paths, datetimes in microseconds, and the locales every state machine
    goes through: \<open>invariant_system\<close> (an invariant kept by every step holds in every reachable state) and
    \<open>refinement\<close> (a step relation that shows only steps of an abstract one).
  \<^item> \<open>Semver\<close> (\<open>core/semver.py\<close>), \<open>Audit_Log\<close> (\<open>core/audit.py\<close>), \<open>Catalogs\<close> (\<open>core/catalogs.py\<close>,
    \<open>core/resolve.py\<close>, \<open>routers/api_catalogs.py\<close>), \<open>Backups\<close> (\<open>core/backups.py\<close>, \<open>core/envfile.py\<close>), \<open>Restore_Scope\<close>
    (\<open>core/restore_scope.py\<close>), \<open>Runner\<close> (\<open>core/runner.py\<close>): data with its validators, parsers and printers, and the
    operations on it. Docker is a parameter with a state of its own that is threaded through the runner's calls.
  \<^item> \<open>Job_Queue\<close> (\<open>core/jobs.py\<close>): the queue as a record and its events (enqueue, take, finish, cancel, start, stop) as an
    inductive step relation over their interleavings. \<open>Job_Server\<close> states what it promises, a server that takes one job at
    a time in the order of arrival, and proves the refinement and that it is never stuck.
  \<^item> \<open>Cron\<close> and \<open>Schedule\<close> (\<open>core/schedule.py\<close>): expressions, presets, the sampled cadence, the stored schedule, retention,
    overdue and catch-up. \<open>Scheduler\<close> (\<open>core/scheduler.py\<close>, \<open>core/backup_run.py\<close>): timers and runs as a step relation, with
    firing split at its suspension points: where it asks docker for runners, and before it reads the restore points.
  \<^item> \<open>Inventory\<close> (\<open>core/inventory.py\<close>) and \<open>Services\<close> (\<open>core/services.py\<close>, \<open>core/state.py\<close>): the declared services, the
    reading of \<open>docker ps\<close>, the merge of the two, health, owners of groups and the cached snapshot.
  \<^item> \<open>Ctl\<close> (\<open>core/ctl.py\<close>): the commands of \<open>papaia-ctl\<close> that may be run, their flags and checks, and the reader of a child
    that streams its output. \<open>Nodes\<close> (\<open>core/nodes.py\<close>): the nodes of a distributed installation, on which of them a verb runs,
    the upgrade lock and the overview. A child process is a function of the command and the world it changes.
  \<^item> \<open>Overlay\<close> (\<open>core/config/overlay.py\<close>, \<open>core/config/history.py\<close>): overlay files, their compare and swap with the faults of the
    disk and the edits of the host that can come in between, and the saved versions. \<open>Mail\<close> (\<open>core/mail/settings.py\<close>) and
    \<open>Modules\<close> (\<open>core/config/modules.py\<close>): what a request may ask for. \<open>Config_Jobs\<close> (\<open>core/config/service.py\<close>,
    \<open>core/mail/service.py\<close>): the jobs that carry it out, in a monad of steps over the log, the audit entries, the commands that were
    run and the site; \<open>Config_Safe\<close> proves what they guarantee, with a frame locale over the steps they are built from.
  \<^item> \<open>Sign_In\<close> (\<open>auth/oidc.py\<close>): the provider's keys and tokens, the checks of an ID token, the claims and roles read from
    it. \<open>Sessions\<close> (\<open>auth/roles.py\<close>, \<open>auth/csrf.py\<close>, \<open>auth/deps.py\<close>, \<open>auth/user_token.py\<close>, \<open>routers/auth.py\<close>,
    \<open>routers/stack_guard.py\<close>): the signed cookie session, its renewal, the guards, login, callback, step-up and sign-out.
    \<open>Access\<close> puts them together as a step relation over everything a browser can ask in any order, with the invariant
    that the properties of access rest on.
  \<^item> \<open>Notify_Model\<close>, \<open>Notify_Store\<close>, \<open>Notify_Detect\<close>, \<open>Notify_Service\<close> (\<open>core/notifications/model.py\<close>, \<open>store.py\<close>,
    \<open>detect.py\<close>, \<open>delivery.py\<close> and \<open>service.py\<close>): recipients and settings, the two files, the detectors, the decision what
    is new, the delivery and the background pass. \<open>Notify_Decide\<close> holds the theory of that decision.
  \<^item> \<open>Ingest_Plan\<close> (\<open>core/ingest/schedules.py\<close>): the schedule builder and the cron lines it compiles to and reads back.
    \<open>Ingest_Spec\<close> and \<open>Ingest_Rules\<close> (\<open>core/ingest/jobspec.py\<close>): the mirror of the ingester's schema, the merge of the defaults
    into a job, the checks of one job and across jobs, secret references, and the forms of the editor. \<open>Ingest_Catalog\<close>
    (\<open>core/ingest/catalog.py\<close>, \<open>core/vectordb/catalog_io.py\<close>): the file of the jobs, its compare and swap beside the ingester,
    and every change of an entry.
  \<^item> \<open>Upgrade_Log\<close> and \<open>Upgrade_Check\<close> (\<open>core/upgrade.py\<close>): versions and tags, the core's answers, what is read from the output of
    an upgrade, and the check of a target. \<open>Images\<close> (\<open>core/images.py\<close>): which images are outdated, and their removal. Both are
    programs over a world of child processes (\<open>Processes\<close>); a locale describes a world that lists its
    commands, and every site, with such a list added, is an interpretation.
  \<^item> \<open>Snapshots\<close> (\<open>core/snapshots.py\<close>): the record of the installed add-ons, the staging of a version in a directory of its own, and the
    removal of versions nothing needs.

  \<^bold>\<open>State and operations.\<close> A class or dataclass is a \<open>record\<close>, an enum a \<open>datatype\<close>, a method that changes state a function
  from the old to the new state; code that raises returns a sum with the exception on the left. Handlers that suspend
  (\<open>await\<close>) are split where another task can run in between. Python integers are unbounded and so are \<open>int\<close> here; no
  modelled code relies on a machine width. YAML, JSON, the time zone data, the cron trigger, docker, git, HTTP and SMTP are
  arguments of the definitions that use them; what the code relies on is a named hypothesis (\<open>lib_ok\<close>, \<open>clock_ok\<close>, and
  their like) and each theorem that has one has a witness with a concrete function in its place. pydantic is a function of the
  validators the source declares, which are definitions.

  \<^bold>\<open>What the lemmas show.\<close> Jobs: single flight, first in first out, refinement, progress, the trace of a failure. Backups: the
  newest good restore point survives retention, an accepted schedule has a bounded cadence, overdue and catch-up agree,
  a run does not start beside a runner that docker's answers show, a stored schedule is read back, retries are bounded, a removed schedule is silent. Restores: identity data is only
  restored with the whole stack, the step list shows each step's newest state. Runners: what was started is found again,
  success is final, a malformed version starts nothing. Catalogues: every name and version that is offered has one entry and nothing is invented, names stay
  distinct, updates never go down. Audit: masking reaches every depth, pruning is exact. Services: every container and
  every declared service is accounted for, a silent docker invents nothing. Access: claims come from a verified ID token, and
  roles from it or from the access token that came with it; a sensitive route goes ahead only after the same account signed in again, apart from a
  refresh token that an earlier account left in the session; redirects stay on the site, a burst of requests
  renews once, signing out forgets the token. Configuration: a stale page overwrites nothing; while nobody edits the overlays on the host,
  what is replaced can be recovered (with a clock that is not set back) and a failed start puts the previous overlay back; keeping the data of a module deletes nothing, the wait for healthy
  containers ends, a stored mail password only goes where it was stored for and is shown in no log line, accepted requests are
  well formed, and a child's output is read in bounded memory line by line as a plain split would. Notifications: the configuration stays valid
  under every sequence of edits, stale edits are refused, an occurrence is reported once and not again after a restart, a
  flapping service is debounced, only chosen recipients are written to, no secret or header injection leaves the manager.
  Ingest: an update is never lost to a write of the ingester that comes before the comparison, a change of one entry keeps the others and can be
  undone, a catalogue is accepted exactly when it fits the schema and every rule holds, the rules across jobs are exactly the declared ones, a local path stays below
  its root, a schedule is read back as it was built. Upgrades: a check only asks and removes its worktree however it ends; the phases of a run have one front, and a run that stopped is never shown as finished. Images: exactly the outdated ones are listed, only these are removed, and nothing
  when a reading failed; the page reads from the runner's lines how the clean-up went. Add-on versions: those that must stay are never pruned, and a recorded entry is read back.
  Some theorems show a fault or a statement of a comment that does not hold; their texts say so.

  \<^bold>\<open>Bounds.\<close> Loops over data are structural recursion. The sampled cadence recurses on the number of runs left to sample
  (the source's constant), the webhook's attempts on the source's two tries, the attempts to write the ingest jobs on the source's
  three; no definition uses fuel. The search for a free version
  id, the reader of a stream and the replacement of a text recurse on measures with a termination proof. The wait between
  notification passes and the wait for healthy containers may not end for an interval that grows for ever or a clock that
  stands still, so they are \<open>partial_function\<close>s whose value is proved to exist while the interval is bounded and the clock goes on.

  \<^bold>\<open>Not modelled.\<close> The web front end (routing, templates, translations, static pages), the cryptography of
  tokens, the clients of Keycloak, LiteLLM, Qdrant and of the ingest service with the runs and uploads that go through it (protocols
  of outside services), the schema that pydantic checks beside the validators of the source, the host readings of \<open>core/host_health.py\<close>, the
  dashboard widgets, the git work behind catalogues, and the orchestration of add-on upgrades: their results enter as
  parameters where a modelled part uses them. The environment forms with their validation and the preview of a render
  (\<open>core/envforms.py\<close>, \<open>core/envvalidate.py\<close>, \<open>core/config/preview.py\<close>), the pages over users and roles and the layout rules of the widgets are left out: they
  rest on the files of an installation and on answers of Keycloak that the repository does not hold.
\<close>

end
